(* ===== verification/Prelude.thy ===== *)
theory Prelude
  imports Main "HOL-Library.Char_ord" "HOL-Library.List_Lexorder" "HOL-Library.Multiset"
    "HOL-Library.Word"
begin

text \<open>
  Shared material of the development: results with errors as values and the
  sequencing of fallible steps, the ordered map \<open>std::map\<close> as an interface with
  its sorted-list implementation, the decimal printer \<open>std::to_string\<close>, the
  little-endian byte image of a machine integer, and the facts on sorted lists
  that several components use.  \<open>std::string\<close> is \<^typ>\<open>string\<close>; the lexicographic
  order of \<open>HOL-Library.List_Lexorder\<close> over the order of \<open>HOL-Library.Char_ord\<close>
  is the byte-wise order of \<open>std::string::operator<\<close>.
\<close>

section \<open>Results\<close>

text \<open>
  \<open>Ensure\<close> throws \<open>std::runtime_error\<close>, a failing Arrow call returns a
  \<open>Status\<close>; both end the computation and are values of one error type here.
  The formatted part of a message is left out, its fixed part is kept.
  \<open>Undefined\<close> marks behaviour that the language or the contract of a called library
  leaves undefined (a failed assertion, a cast to the wrong class, an uninitialised read).
\<close>

datatype error =
    Runtime_error string
  | Execution_error string
  | IO_error string
  | Not_implemented string
  | Bad_optional_access
  | Out_of_range
  | Bad_alloc
  | Invalid_argument
  | Undefined string

type_synonym 'a result = "error + 'a"

named_theorems result_simps \<open>unfolding of sequenced results\<close>

definition bindE :: "'a result \<Rightarrow> ('a \<Rightarrow> 'b result) \<Rightarrow> 'b result" where
  "bindE r f = (case r of Inl e \<Rightarrow> Inl e | Inr x \<Rightarrow> f x)"

definition ensure :: "bool \<Rightarrow> string \<Rightarrow> unit result" where
  "ensure c msg = (if c then Inr () else Inl (Runtime_error msg))"

fun foldE :: "('a \<Rightarrow> 's \<Rightarrow> 's result) \<Rightarrow> 'a list \<Rightarrow> 's \<Rightarrow> 's result" where
  "foldE f [] s = Inr s"
| "foldE f (x # xs) s = bindE (f x s) (foldE f xs)"

fun mapE :: "('a \<Rightarrow> 'b result) \<Rightarrow> 'a list \<Rightarrow> 'b list result" where
  "mapE f [] = Inr []"
| "mapE f (x # xs) = bindE (f x) (\<lambda>y. bindE (mapE f xs) (\<lambda>ys. Inr (y # ys)))"

lemma bindE_Inl [simp, result_simps]: "bindE (Inl e) f = Inl e"
  by (simp add: bindE_def)

lemma bindE_Inr [simp, result_simps]: "bindE (Inr x) f = f x"
  by (simp add: bindE_def)

lemma bindE_eq_Inr_iff [result_simps]:
  "bindE r f = Inr y \<longleftrightarrow> (\<exists>x. r = Inr x \<and> f x = Inr y)"
  by (auto simp: bindE_def split: sum.splits)

lemma bindE_cong [fundef_cong]:
  "r = r' \<Longrightarrow> (\<And>x. r' = Inr x \<Longrightarrow> f x = g x) \<Longrightarrow> bindE r f = bindE r' g"
  by (auto simp: bindE_def split: sum.splits)

lemma ensure_eq_Inr_iff [simp, result_simps]: "ensure c msg = Inr u \<longleftrightarrow> c"
  by (simp add: ensure_def)

lemma ensure_True [simp]: "ensure True msg = Inr ()"
  by (simp add: ensure_def)

lemma ensure_False [simp]: "ensure False msg = Inl (Runtime_error msg)"
  by (simp add: ensure_def)

lemma foldE_append: "foldE f (xs @ ys) s = bindE (foldE f xs s) (foldE f ys)"
  by (induction xs arbitrary: s) (auto simp: bindE_def split: sum.splits)

text \<open>An invariant that every successful step keeps is kept by a successful run.\<close>

lemma foldE_invariant:
  assumes "foldE f xs s = Inr t" "P s"
    and "\<And>x s t. x \<in> set xs \<Longrightarrow> P s \<Longrightarrow> f x s = Inr t \<Longrightarrow> P t"
  shows "P t"
  using assms
proof (induction xs arbitrary: s)
  case (Cons x xs)
  from Cons.prems(1) obtain u where u: "f x s = Inr u" "foldE f xs u = Inr t"
    by (auto simp: bindE_eq_Inr_iff)
  have "P u" using Cons.prems(2,3) u(1) by (meson list.set_intros(1))
  with u(2) show ?case
    by (rule Cons.IH) (meson Cons.prems(3) list.set_intros(2))
qed simp

text \<open>A step that always succeeds makes the run a plain fold.\<close>

lemma foldE_total:
  assumes "\<And>x s. x \<in> set xs \<Longrightarrow> f x s = Inr (g x s)"
  shows "foldE f xs s = Inr (fold g xs s)"
  using assms by (induction xs arbitrary: s) auto

lemma mapE_eq_Inr_iff:
  "mapE f xs = Inr ys \<longleftrightarrow> list_all2 (\<lambda>x y. f x = Inr y) xs ys"
  by (induction xs arbitrary: ys) (auto simp: bindE_eq_Inr_iff list_all2_Cons1)

lemma mapE_length: "mapE f xs = Inr ys \<Longrightarrow> length ys = length xs"
  by (auto simp: mapE_eq_Inr_iff dest: list_all2_lengthD)

lemma mapE_total:
  assumes "\<And>x. x \<in> set xs \<Longrightarrow> f x = Inr (g x)"
  shows "mapE f xs = Inr (map g xs)"
  using assms by (induction xs) auto

lemma mapE_Inl:
  assumes "x \<in> set xs" "f x = Inl e0" "\<And>y e. y \<in> set xs \<Longrightarrow> f y = Inl e \<Longrightarrow> P e"
  shows "\<exists>e. mapE f xs = Inl e \<and> P e"
  using assms
proof (induction xs)
  case (Cons y ys)
  show ?case
  proof (cases "f y")
    case (Inl e)
    then show ?thesis using Cons.prems(3) [of y e] by simp
  next
    case (Inr z)
    then have "x \<in> set ys" using Cons.prems(1,2) by auto
    then obtain e where "mapE f ys = Inl e" "P e"
      using Cons.IH Cons.prems(2,3) by (meson list.set_intros(2))
    then show ?thesis using Inr by simp
  qed
qed simp

section \<open>Ordered maps\<close>

text \<open>
  The interface the planner uses of \<open>std::map\<close>: \<open>alter k d f m\<close> is
  \<open>m[k]\<close> (which inserts the default \<open>d\<close> when the key is absent) followed by an
  update of the referenced value by \<open>f\<close>, and \<open>entries\<close> is the iteration order.
\<close>

locale ordered_map =
  fixes empty :: "'m"
    and get :: "'m \<Rightarrow> 'k::linorder \<Rightarrow> 'v option"
    and alter :: "'k \<Rightarrow> 'v \<Rightarrow> ('v \<Rightarrow> 'v) \<Rightarrow> 'm \<Rightarrow> 'm"
    and entries :: "'m \<Rightarrow> ('k \<times> 'v) list"
    and invar :: "'m \<Rightarrow> bool"
  assumes get_empty: "get empty k = None"
    and get_alter: "invar m \<Longrightarrow>
      get (alter k d f m) k' =
        (if k' = k then Some (f (case get m k of None \<Rightarrow> d | Some v \<Rightarrow> v)) else get m k')"
    and get_entries: "invar m \<Longrightarrow> get m = map_of (entries m)"
    and entries_sorted: "invar m \<Longrightarrow> sorted_wrt (<) (map fst (entries m))"
    and invar_empty: "invar empty"
    and invar_alter: "invar m \<Longrightarrow> invar (alter k d f m)"
begin

lemma entries_distinct: "invar m \<Longrightarrow> distinct (map fst (entries m))"
  using entries_sorted strict_sorted_iff by blast

lemma entries_determined:
  assumes "invar m" "invar m'" "get m = get m'"
  shows "entries m = entries m'"
proof -
  have d: "distinct (map fst (entries m))" "distinct (map fst (entries m'))"
    using assms(1,2) by (simp_all add: entries_distinct)
  have eq: "map_of (entries m) = map_of (entries m')"
    using assms by (simp add: get_entries [symmetric])
  then have "set (entries m) = set (entries m')"
    using d by (metis map_of_inject_set)
  moreover have "sorted (map fst (entries m))" "sorted (map fst (entries m'))"
    using assms(1,2) by (simp_all add: entries_sorted strict_sorted_imp_sorted)
  moreover have "inj_on fst (set (entries m) \<union> set (entries m'))"
    using d(1) calculation(1) by (simp add: distinct_map)
  ultimately show ?thesis
    using d by (meson map_sorted_distinct_set_unique)
qed

lemma alter_commute:
  assumes "invar m" "k \<noteq> k'"
  shows "entries (alter k d f (alter k' d' g m)) = entries (alter k' d' g (alter k d f m))"
  by (rule entries_determined)
    (use assms in \<open>auto simp: invar_alter get_alter fun_eq_iff\<close>)

lemma alter_same_commute:
  assumes "invar m" "\<And>v. f (g v) = g (f v)"
  shows "entries (alter k d f (alter k d g m)) = entries (alter k d g (alter k d f m))"
  by (rule entries_determined)
    (use assms in \<open>auto simp: invar_alter get_alter fun_eq_iff\<close>)

lemma alter_key: "invar m \<Longrightarrow> k \<in> fst ` set (entries (alter k d f m))"
  using get_alter [of m k d f k] get_entries [OF invar_alter [of m k d f]]
  by (metis map_of_eq_None_iff option.distinct(1))

end

fun omap_alter :: "'k::linorder \<Rightarrow> 'v \<Rightarrow> ('v \<Rightarrow> 'v) \<Rightarrow> ('k \<times> 'v) list \<Rightarrow> ('k \<times> 'v) list" where
  "omap_alter k d f [] = [(k, f d)]"
| "omap_alter k d f ((k', v) # m) =
     (if k < k' then (k, f d) # (k', v) # m
      else if k = k' then (k, f v) # m
      else (k', v) # omap_alter k d f m)"

definition omap :: "('k::linorder \<times> 'v) list \<Rightarrow> bool" where
  "omap m \<longleftrightarrow> sorted_wrt (<) (map fst m)"

lemma set_keys_omap_alter [simp]:
  "fst ` set (omap_alter k d f m) = insert k (fst ` set m)"
  by (induction k d f m rule: omap_alter.induct) auto

lemma omap_Nil [simp]: "omap []"
  by (simp add: omap_def)

lemma omap_Cons: "omap ((k, v) # m) \<longleftrightarrow> (\<forall>k' \<in> fst ` set m. k < k') \<and> omap m"
  by (simp add: omap_def)

lemma omap_omap_alter [simp]: "omap m \<Longrightarrow> omap (omap_alter k d f m)"
  by (induction k d f m rule: omap_alter.induct) (auto simp: omap_Cons)

lemma omap_map_values [simp]: "omap (map (\<lambda>(k, v). (k, f k v)) m) = omap m"
  by (simp add: omap_def comp_def case_prod_beta)

lemma map_of_omap_alter:
  "omap m \<Longrightarrow> map_of (omap_alter k d f m) k' =
     (if k' = k then Some (f (case map_of m k of None \<Rightarrow> d | Some v \<Rightarrow> v)) else map_of m k')"
proof (induction k d f m rule: omap_alter.induct)
  case (2 k d f k1 v m)
  then have "k < k1 \<Longrightarrow> map_of m k = None"
    by (force simp: omap_Cons map_of_eq_None_iff)
  with 2 show ?case by (auto simp: omap_Cons)
qed simp

interpretation om: ordered_map "[]" map_of omap_alter "\<lambda>m. m" omap
proof unfold_locales
  fix m :: "('a \<times> 'b) list"
  assume "omap m"
  then show "sorted_wrt (<) (map fst m)" by (simp add: omap_def)
qed (simp_all add: map_of_omap_alter)

text \<open>The value stored under a key, or the value \<open>operator[]\<close> would create.\<close>

definition omap_find :: "'v \<Rightarrow> ('k \<times> 'v) list \<Rightarrow> 'k \<Rightarrow> 'v" where
  "omap_find d m k = (case map_of m k of None \<Rightarrow> d | Some v \<Rightarrow> v)"

lemma omap_find_alter:
  "omap m \<Longrightarrow> omap_find d (omap_alter k d f m) k' =
     (if k' = k then f (omap_find d m k) else omap_find d m k')"
  by (simp add: omap_find_def om.get_alter)

lemma omap_find_in:
  "omap m \<Longrightarrow> (k, v) \<in> set m \<Longrightarrow> omap_find d m k = v"
  by (simp add: omap_find_def om.entries_distinct map_of_eq_Some_iff)

lemma in_omap_iff: "omap m \<Longrightarrow> (k, v) \<in> set m \<longleftrightarrow> map_of m k = Some v"
  by (simp add: om.entries_distinct map_of_eq_Some_iff)

lemma map_of_map_values: "map_of (map (\<lambda>(k, v). (k, f k v)) m) k = map_option (f k) (map_of m k)"
  by (induction m) auto

lemma omap_find_map_values:
  "f k d = d \<Longrightarrow> omap_find d (map (\<lambda>(k, v). (k, f k v)) m) k = f k (omap_find d m k)"
  by (simp add: omap_find_def map_of_map_values split: option.split)

section \<open>Lists\<close>

lemma product_Nil2 [simp]: "List.product xs [] = []"
  by (induction xs) auto

lemma in_concat_map_nth:
  "x \<in> set (concat (map f p)) \<longleftrightarrow> (\<exists>j < length p. x \<in> set (f (p ! j)))"
proof -
  have "x \<in> set (concat (map f p)) \<longleftrightarrow> (\<exists>l \<in> set p. x \<in> set (f l))" by auto
  then show ?thesis by (metis in_set_conv_nth)
qed

section \<open>Decimal numbers\<close>

text \<open>\<open>std::to_string\<close> on integers.\<close>

definition digit :: "nat \<Rightarrow> char" where
  "digit n = char_of (48 + n)"

fun nat_to_string :: "nat \<Rightarrow> string" where
  "nat_to_string n = (if n < 10 then [digit n] else nat_to_string (n div 10) @ [digit (n mod 10)])"

declare nat_to_string.simps [simp del]

definition to_string :: "int \<Rightarrow> string" where
  "to_string i = (if i < 0 then ''-'' @ nat_to_string (nat (- i)) else nat_to_string (nat i))"

definition is_digit :: "char \<Rightarrow> bool" where
  "is_digit c \<longleftrightarrow> 48 \<le> (of_char c :: nat) \<and> (of_char c :: nat) \<le> 57"

definition digits_value :: "string \<Rightarrow> nat" where
  "digits_value s = foldl (\<lambda>v c. 10 * v + (of_char c - 48)) 0 s"

lemma of_char_digit [simp]: "n < 10 \<Longrightarrow> (of_char (digit n) :: nat) = 48 + n"
  by (simp add: digit_def of_char_of)

lemma nat_to_string_digits: "c \<in> set (nat_to_string n) \<Longrightarrow> is_digit c"
proof (induction n rule: nat_to_string.induct)
  case (1 n)
  then show ?case
    by (cases "n < 10") (auto simp: is_digit_def nat_to_string.simps [of n])
qed

lemma digits_value_nat_to_string [simp]: "digits_value (nat_to_string n) = n"
proof (induction n rule: nat_to_string.induct)
  case (1 n)
  then show ?case
    by (cases "n < 10") (auto simp: digits_value_def nat_to_string.simps [of n])
qed

lemma nat_to_string_inject [simp]: "nat_to_string m = nat_to_string n \<longleftrightarrow> m = n"
  by (metis digits_value_nat_to_string)

lemma nat_to_string_not_Nil [simp]: "nat_to_string n \<noteq> []"
  by (subst nat_to_string.simps) simp

lemma length_nat_to_string_mono: "m \<le> n \<Longrightarrow> length (nat_to_string m) \<le> length (nat_to_string n)"
proof (induction n arbitrary: m rule: nat_to_string.induct)
  case (1 n)
  show ?case
  proof (cases "m < 10")
    case True
    then have "length (nat_to_string m) = 1" by (simp add: nat_to_string.simps)
    then show ?thesis by (simp add: Suc_leI)
  next
    case False
    then have "\<not> n < 10" "m div 10 \<le> n div 10" using 1(2) by (auto intro: div_le_mono)
    then show ?thesis
      using 1(1) False by (simp add: nat_to_string.simps [of n] nat_to_string.simps [of m])
  qed
qed

lemma is_digit_minus [simp]: "\<not> is_digit (CHR ''-'')"
  by (simp add: is_digit_def)

lemma to_string_inject [simp]: "to_string i = to_string j \<longleftrightarrow> i = j"
proof -
  have "''-'' @ s \<noteq> nat_to_string n" for s n
    using nat_to_string_digits [of "CHR ''-''" n] by (metis append_Cons is_digit_minus list.set_intros(1))
  then show ?thesis by (auto simp: to_string_def split: if_splits) (metis append_Cons append_Nil)+
qed

lemma to_string_chars: "c \<in> set (to_string i) \<Longrightarrow> is_digit c \<or> c = CHR ''-''"
  by (auto simp: to_string_def nat_to_string_digits split: if_splits)

section \<open>Byte images\<close>

text \<open>The memory image of a \<open>k\<close>-byte integer on a little-endian machine.\<close>

fun le_bytes :: "nat \<Rightarrow> nat \<Rightarrow> string" where
  "le_bytes 0 n = []"
| "le_bytes (Suc k) n = char_of (n mod 256) # le_bytes k (n div 256)"

fun le_value :: "string \<Rightarrow> nat" where
  "le_value [] = 0"
| "le_value (c # s) = of_char c + 256 * le_value s"

lemma length_le_bytes [simp]: "length (le_bytes k n) = k"
  by (induction k arbitrary: n) auto

lemma le_value_bytes: "n < 256 ^ k \<Longrightarrow> le_value (le_bytes k n) = n"
proof (induction k arbitrary: n)
  case (Suc k)
  then have "n div 256 < 256 ^ k" by (simp add: less_mult_imp_div_less mult.commute)
  with Suc.IH show ?case by (simp add: of_char_of mod_mod_trivial)
qed simp

lemma le_bytes_inject: "m < 256 ^ k \<Longrightarrow> n < 256 ^ k \<Longrightarrow> le_bytes k m = le_bytes k n \<longleftrightarrow> m = n"
  by (metis le_value_bytes)

lemma of_char_less_256 [simp]: "(of_char c :: nat) < 256"
  by (metis of_char_mod_256 mod_less_divisor zero_less_numeral)

lemma le_value_bound: "le_value s < 256 ^ length s"
proof (induction s)
  case (Cons c s)
  have "(of_char c :: nat) < 256" by simp
  then show ?case using Cons by (simp add: numeral_eq_Suc)
qed simp

text \<open>A byte string is the image of the number it stands for.\<close>

lemma le_bytes_le_value: "le_bytes (length s) (le_value s) = s"
  by (induction s) simp_all

lemma le_value_inject: "length s = length s' \<Longrightarrow> le_value s = le_value s' \<longleftrightarrow> s = s'"
  by (metis le_bytes_le_value)

definition word_bytes :: "nat \<Rightarrow> 'w::len word \<Rightarrow> string" where
  "word_bytes k w = le_bytes k (unat w)"

lemma length_word_bytes [simp]: "length (word_bytes k w) = k"
  by (simp add: word_bytes_def)

lemma word_bytes_inject:
  fixes v w :: "'w::len word"
  assumes "LENGTH('w) \<le> 8 * k"
  shows "word_bytes k v = word_bytes k w \<longleftrightarrow> v = w"
proof -
  have "unat x < 256 ^ k" for x :: "'w word"
  proof -
    have "unat x < 2 ^ LENGTH('w)" by (rule unsigned_less)
    also have "\<dots> \<le> (2::nat) ^ (8 * k)" using assms by (intro power_increasing) auto
    finally show ?thesis by (simp add: power_mult)
  qed
  then show ?thesis by (simp add: word_bytes_def le_bytes_inject word_unat_eq_iff)
qed

end
