(* ===== verification/Iceberg_Types.thy ===== *)
theory Iceberg_Types
  imports Prelude
begin

text \<open>
  The types of columns (\<open>iceberg/type.h\<close>, \<open>iceberg/type.cpp\<close>), fields
  (\<open>iceberg/nested_field.h\<close>) and schemas (\<open>iceberg/schema.h\<close>, first part of
  \<open>iceberg/schema.cpp\<close>): the table of primitive type names with its two lookups, the
  printed form of a type, which is what the planner compares types by, and the
  column searches of a schema.  The lemmas show that the two lookups are inverse,
  when printing a type throws, and that printing is injective on the types that
  print.
\<close>

section \<open>Type identifiers\<close>

datatype TypeID =
    kBoolean | kInt | kLong | kFloat | kDouble | kDecimal | kDate | kTime
  | kTimestamp | kTimestamptz | kTimestampNs | kTimestamptzNs | kString | kUuid
  | kFixed | kBinary | kStruct | kList | kMap | kUnknown

definition kStringToPrimitiveTypeId :: "(string \<times> TypeID) list" where
  "kStringToPrimitiveTypeId =
     [(''boolean'', kBoolean), (''int'', kInt), (''long'', kLong), (''float'', kFloat),
      (''double'', kDouble), (''date'', kDate), (''time'', kTime), (''timestamp'', kTimestamp),
      (''timestamptz'', kTimestamptz), (''timestamp_ns'', kTimestampNs),
      (''timestamptz_ns'', kTimestamptzNs), (''string'', kString), (''uuid'', kUuid),
      (''binary'', kBinary)]"

definition NameToPrimitiveType :: "string \<Rightarrow> TypeID option" where
  "NameToPrimitiveType name_to_find =
     map_option snd (find (\<lambda>(name, _). name = name_to_find) kStringToPrimitiveTypeId)"

definition PrimitiveTypeToName :: "TypeID \<Rightarrow> string option" where
  "PrimitiveTypeToName type =
     map_option fst (find (\<lambda>(_, entry_type). entry_type = type) kStringToPrimitiveTypeId)"

section \<open>Types\<close>

datatype itype =
    PrimitiveType TypeID
  | DecimalType (d_precision: int) (d_scale: int)
  | FixedType (f_size: int)
  | ListType (element_id: int) (element_required: bool) (element_type: itype)

definition mk_DecimalType :: "int \<Rightarrow> int \<Rightarrow> itype result" where
  "mk_DecimalType precision scale =
     bindE (ensure (precision > 0 \<and> precision \<le> 38) ''DecimalType: precision = '')
       (\<lambda>_. Inr (DecimalType precision scale))"

definition mk_FixedType :: "int \<Rightarrow> itype result" where
  "mk_FixedType sz = bindE (ensure (sz > 0) ''FixedType: size = '') (\<lambda>_. Inr (FixedType sz))"

fun TypeId :: "itype \<Rightarrow> TypeID" where
  "TypeId (PrimitiveType t) = t"
| "TypeId (DecimalType _ _) = kDecimal"
| "TypeId (FixedType _) = kFixed"
| "TypeId (ListType _ _ _) = kList"

fun IsPrimitiveType :: "itype \<Rightarrow> bool" where
  "IsPrimitiveType (ListType _ _ _) = False"
| "IsPrimitiveType _ = True"

fun IsListType :: "itype \<Rightarrow> bool" where
  "IsListType (ListType _ _ _) = True"
| "IsListType _ = False"

text \<open>\<open>PrimitiveTypeToName(id_).value()\<close> throws for an identifier without a name.\<close>

fun type_ToString :: "itype \<Rightarrow> string result" where
  "type_ToString (PrimitiveType t) =
     (case PrimitiveTypeToName t of None \<Rightarrow> Inl Bad_optional_access | Some s \<Rightarrow> Inr s)"
| "type_ToString (DecimalType p s) =
     Inr (''decimal('' @ to_string p @ '', '' @ to_string s @ '')'')"
| "type_ToString (FixedType n) = Inr (''fixed('' @ to_string n @ '')'')"
| "type_ToString (ListType _ _ e) =
     bindE (type_ToString e) (\<lambda>s. Inr (''list('' @ s @ '')''))"

section \<open>Literals\<close>

text \<open>
  The alternatives of \<open>arrow::Type\<close> the conversion looks at; \<open>A_other\<close> stands for
  every other alternative.  The time unit and the presence of a time zone are the two
  observations made of a timestamp type.
\<close>

datatype arrow_unit = SECOND | MILLI | MICRO | NANO

datatype arrow_type =
    A_BOOL | A_INT8 | A_INT16 | A_INT32 | A_INT64 | A_FLOAT | A_DOUBLE
  | A_DECIMAL int int | A_DATE32 | A_DATE64 | A_TIME32 | A_TIME64
  | A_TIMESTAMP arrow_unit bool | A_STRING | A_LIST arrow_type
  | A_BINARY | A_FIXED_SIZE_BINARY int | A_other

text \<open>
  A literal holds an Arrow scalar.  Floating-point numbers are their bit patterns,
  binary values their bytes; a timestamp carries its unit and whether its time zone is
  \<open>UTC\<close> (or absent), a fixed-size value carries the size of its type,
  a list the type of its elements.
\<close>

datatype scalar =
    S_bool bool | S_int int | S_long int | S_float "32 word" | S_double "64 word"
  | S_decimal (dec_value: int) (dec_precision: int) (dec_scale: int)
  | S_date int | S_time int | S_timestamp int arrow_unit bool
  | S_string string | S_fixed int string | S_binary string | S_list arrow_type "scalar list"

section \<open>Fields and schemas\<close>

record nested_field =
  nf_name :: string
  nf_field_id :: int
  nf_is_required :: bool
  nf_type :: itype
  nf_initial_default :: "scalar option"
  nf_write_default :: "scalar option"

record schema =
  s_schema_id :: int
  s_fields :: "nested_field list"

definition nested_field_eq :: "nested_field \<Rightarrow> nested_field \<Rightarrow> bool result" where
  "nested_field_eq a b =
     bindE (type_ToString (nf_type a)) (\<lambda>left_type.
       bindE (type_ToString (nf_type b)) (\<lambda>right_type.
         Inr (nf_name a = nf_name b \<and> nf_field_id a = nf_field_id b \<and>
              nf_is_required a = nf_is_required b \<and> left_type = right_type)))"

definition FindMatchingColumn :: "schema \<Rightarrow> (nested_field \<Rightarrow> bool) \<Rightarrow> int option" where
  "FindMatchingColumn s predicate = map_option nf_field_id (find predicate (s_fields s))"

definition FindColumn :: "schema \<Rightarrow> string \<Rightarrow> int option" where
  "FindColumn s column_name = FindMatchingColumn s (\<lambda>field. nf_name field = column_name)"

text \<open>\<open>std::tolower\<close> in the C locale.\<close>

definition to_lower :: "char \<Rightarrow> char" where
  "to_lower c = (let n = (of_char c :: nat) in if 65 \<le> n \<and> n \<le> 90 then char_of (n + 32) else c)"

definition EqualIgnoreCase :: "string \<Rightarrow> string \<Rightarrow> bool" where
  "EqualIgnoreCase a b = list_all2 (\<lambda>x y. to_lower x = to_lower y) a b"

definition FindColumnIgnoreCase :: "schema \<Rightarrow> string \<Rightarrow> int option" where
  "FindColumnIgnoreCase s column_name =
     FindMatchingColumn s (\<lambda>field. EqualIgnoreCase (nf_name field) column_name)"

definition FilterColumns :: "schema \<Rightarrow> int set \<Rightarrow> schema" where
  "FilterColumns s ids_to_remove =
     (if ids_to_remove = {} then s
      else s\<lparr>s_fields := filter (\<lambda>field. nf_field_id field \<notin> ids_to_remove) (s_fields s)\<rparr>)"

definition MaxColumnId :: "schema \<Rightarrow> int" where
  "MaxColumnId s = fold (\<lambda>field id. if nf_field_id field > id then nf_field_id field else id)
     (s_fields s) (- 1)"

definition FindColumnIds :: "schema \<Rightarrow> string list \<Rightarrow> int set" where
  "FindColumnIds s flt =
     (if flt = [] then {}
      else fold (\<lambda>col_name ids. case FindColumnIgnoreCase s col_name of
                   None \<Rightarrow> ids | Some i \<Rightarrow> insert i ids) flt {})"

section \<open>Arrow types\<close>

fun ConvertArrowTypeToIceberg :: "arrow_type \<Rightarrow> int \<Rightarrow> itype result" where
  "ConvertArrowTypeToIceberg A_BOOL _ = Inr (PrimitiveType kBoolean)"
| "ConvertArrowTypeToIceberg A_INT8 _ = Inr (PrimitiveType kInt)"
| "ConvertArrowTypeToIceberg A_INT16 _ = Inr (PrimitiveType kInt)"
| "ConvertArrowTypeToIceberg A_INT32 _ = Inr (PrimitiveType kInt)"
| "ConvertArrowTypeToIceberg A_INT64 _ = Inr (PrimitiveType kLong)"
| "ConvertArrowTypeToIceberg A_FLOAT _ = Inr (PrimitiveType kFloat)"
| "ConvertArrowTypeToIceberg A_DOUBLE _ = Inr (PrimitiveType kDouble)"
| "ConvertArrowTypeToIceberg (A_DECIMAL p s) _ = mk_DecimalType p s"
| "ConvertArrowTypeToIceberg A_DATE32 _ =
     Inl (Runtime_error ''arrow::Type::DATE32 is not supported in iceberg-cpp'')"
| "ConvertArrowTypeToIceberg A_DATE64 _ = Inr (PrimitiveType kDate)"
| "ConvertArrowTypeToIceberg A_TIME32 _ =
     Inl (Runtime_error ''arrow::Type::TIME32 is not supported in iceberg-cpp'')"
| "ConvertArrowTypeToIceberg A_TIME64 _ = Inr (PrimitiveType kTime)"
| "ConvertArrowTypeToIceberg (A_TIMESTAMP u timezone_empty) _ =
     (if u = NANO then Inr (PrimitiveType (if timezone_empty then kTimestampNs else kTimestamptzNs))
      else if u = MICRO then Inr (PrimitiveType (if timezone_empty then kTimestamp else kTimestamptz))
      else Inl (Runtime_error ''arrow::Type::TIMESTAMP with TimeUnit::type != MICRO or NANO''))"
| "ConvertArrowTypeToIceberg A_STRING _ = Inr (PrimitiveType kString)"
| "ConvertArrowTypeToIceberg (A_LIST v) field_id =
     bindE (ConvertArrowTypeToIceberg v field_id) (\<lambda>t. Inr (ListType field_id True t))"
| "ConvertArrowTypeToIceberg A_BINARY _ = Inr (PrimitiveType kUnknown)"
| "ConvertArrowTypeToIceberg (A_FIXED_SIZE_BINARY _) _ = Inr (PrimitiveType kUnknown)"
| "ConvertArrowTypeToIceberg A_other _ = Inr (PrimitiveType kUnknown)"

section \<open>Names\<close>

lemma NameToPrimitiveType_map_of: "NameToPrimitiveType n = map_of kStringToPrimitiveTypeId n"
  by (simp add: NameToPrimitiveType_def kStringToPrimitiveTypeId_def)

lemma PrimitiveTypeToName_cases:
  "PrimitiveTypeToName t = Some n \<longleftrightarrow> (n, t) \<in> set kStringToPrimitiveTypeId"
  by (cases t) (auto simp: PrimitiveTypeToName_def kStringToPrimitiveTypeId_def)

lemma distinct_type_names: "distinct (map fst kStringToPrimitiveTypeId)"
  by (simp add: kStringToPrimitiveTypeId_def)

lemma primitive_names_inverse:
  "PrimitiveTypeToName t = Some n \<Longrightarrow> NameToPrimitiveType n = Some t"
  by (simp add: NameToPrimitiveType_map_of PrimitiveTypeToName_cases distinct_type_names
      map_of_eq_Some_iff)

lemma type_name_no_paren:
  "PrimitiveTypeToName t = Some n \<Longrightarrow> CHR ''('' \<notin> set n"
  by (auto simp: PrimitiveTypeToName_cases kStringToPrimitiveTypeId_def)

lemma type_name_starts_alpha:
  "PrimitiveTypeToName t = Some n \<Longrightarrow> n \<noteq> [] \<and> \<not> is_digit (hd n)"
  by (auto simp: PrimitiveTypeToName_cases kStringToPrimitiveTypeId_def is_digit_def)

lemma prim_ToString:
  "type_ToString (PrimitiveType t) = Inr s \<longleftrightarrow> PrimitiveTypeToName t = Some s"
  by (simp split: option.split)

lemma append_delim_inject:
  assumes "s @ c # t = s' @ c # t'" "c \<notin> set s" "c \<notin> set s'"
  shows "s = s' \<and> t = t'"
  using assms
proof (induction s arbitrary: s')
  case Nil
  then show ?case by (cases s') auto
next
  case (Cons x s)
  then show ?case by (cases s') auto
qed

lemma to_string_no_comma: "CHR '','' \<notin> set (to_string i)" "CHR '')'' \<notin> set (to_string i)"
  using to_string_chars [of "CHR '',''" i] to_string_chars [of "CHR '')''" i]
  by (auto simp: is_digit_def)

lemma decimal_inject:
  assumes "to_string p @ CHR '','' # CHR '' '' # to_string s = to_string q @ CHR '','' # CHR '' '' # to_string t"
  shows "p = q \<and> s = t"
  using append_delim_inject [OF assms] by (simp add: to_string_no_comma)

lemma type_ToString_starts_alpha:
  "type_ToString t = Inr s \<Longrightarrow> s \<noteq> [] \<and> \<not> is_digit (hd s)"
proof (cases t)
  case (PrimitiveType x1)
  assume "type_ToString t = Inr s"
  then show ?thesis
    using PrimitiveType type_name_starts_alpha by (auto split: option.splits)
qed (auto simp: bindE_eq_Inr_iff is_digit_def)

section \<open>Properties\<close>

text \<open>
  The two lookups in the table of primitive type names are inverse to each other,
  and exactly decimal, fixed, the nested types and the unknown type have no name there.
\<close>

lemma primitive_names_roundtrip:
  "(NameToPrimitiveType n = Some t \<longleftrightarrow> PrimitiveTypeToName t = Some n) \<and>
   (PrimitiveTypeToName t = None \<longleftrightarrow> t \<in> {kDecimal, kFixed, kStruct, kList, kMap, kUnknown})"
proof
  show "NameToPrimitiveType n = Some t \<longleftrightarrow> PrimitiveTypeToName t = Some n"
    by (simp add: NameToPrimitiveType_map_of PrimitiveTypeToName_cases distinct_type_names
        map_of_eq_Some_iff)
  show "PrimitiveTypeToName t = None \<longleftrightarrow> t \<in> {kDecimal, kFixed, kStruct, kList, kMap, kUnknown}"
    by (cases t) (simp_all add: PrimitiveTypeToName_def kStringToPrimitiveTypeId_def)
qed

text \<open>
  The printed form identifies a type: two types other than lists that print and
  print the same are the same type.  (Lists print without their element identifier.)
\<close>

lemma type_ToString_inject:
  assumes "type_ToString a = Inr s" "\<not> IsListType a" "\<not> IsListType b"
  shows "type_ToString a = type_ToString b \<longleftrightarrow> a = b"
proof
  assume eq: "type_ToString a = type_ToString b"
  have same: "x = y" if "PrimitiveTypeToName x = Some s" "PrimitiveTypeToName y = Some s" for x y
    using that by (metis option.inject primitive_names_inverse)
  have "type_ToString b = Inr s" using eq assms(1) by simp
  then show "a = b"
    using assms by (cases a; cases b)
      (auto simp: prim_ToString simp del: type_ToString.simps(1) dest: same type_name_no_paren
        decimal_inject)
qed simp

lemma type_ToString_inject_witness:
  "type_ToString (DecimalType 10 2) \<noteq> type_ToString (DecimalType 1 2)"
proof -
  have "type_ToString (DecimalType 10 2) = Inr ''decimal(10, 2)''" by code_simp
  then show ?thesis using type_ToString_inject [of "DecimalType 10 2" "''decimal(10, 2)''"] by simp
qed

end
