(* ===== verification/Partition_Keys.thy ===== *)
theory Partition_Keys
  imports Iceberg_Types
begin

text \<open>
  Partition tuples of manifest entries: \<open>ContentFile::PartitionKey\<close> with its
  \<open>Validate\<close> (\<open>iceberg/manifest_entry.h\<close>), the serialized form that the planner uses as
  the key of its map of partitions (\<open>SerializeValue\<close>, \<open>SerializePartitionKey\<close>,
  \<open>SerializePartitionTuple\<close> of \<open>iceberg/tea_scan.cpp\<close>), the fields a partition
  specification promises (\<open>GetFieldsFromPartitionSpec\<close>, \<open>Transforms\<close>,
  \<open>GetPartitionSpecById\<close>) and the check of a tuple against the specifications
  (\<open>MatchesSpecification\<close>, \<open>CheckPartitionTupleIsCorrect\<close>).  The lemmas show when the
  serialized form identifies the tuple and when it does not.  Numbers are kept as
  their bit patterns: the code copies them byte by byte and never computes on them
  here; the images are those of a little-endian machine.
\<close>

section \<open>Keys\<close>

type_synonym byte = "8 word"

datatype avro_value =
    V_null
  | V_bool bool
  | V_int "32 word"
  | V_long "64 word"
  | V_float "32 word"
  | V_double "64 word"
  | V_string string
  | V_bytes "byte list"
  | V_fixed "byte list"

record partition_key =
  pk_name :: string
  pk_value :: avro_value
  pk_type :: "itype option"

type_synonym partition_tuple = "partition_key list"

text \<open>\<open>std::variant::index\<close>.\<close>

fun variant_index :: "avro_value \<Rightarrow> nat" where
  "variant_index V_null = 0"
| "variant_index (V_bool _) = 1"
| "variant_index (V_int _) = 2"
| "variant_index (V_long _) = 3"
| "variant_index (V_float _) = 4"
| "variant_index (V_double _) = 5"
| "variant_index (V_string _) = 6"
| "variant_index (V_bytes _) = 7"
| "variant_index (V_fixed _) = 8"

fun value_types :: "avro_value \<Rightarrow> TypeID list" where
  "value_types V_null = []"
| "value_types (V_bool _) = [kBoolean]"
| "value_types (V_int _) = [kInt, kDate]"
| "value_types (V_long _) = [kLong, kTime, kTimestamp, kTimestamptz, kTimestampNs, kTimestamptzNs]"
| "value_types (V_float _) = [kFloat]"
| "value_types (V_double _) = [kDouble]"
| "value_types (V_string _) = [kString]"
| "value_types (V_bytes _) = [kBinary]"
| "value_types (V_fixed _) = [kFixed, kUuid, kDecimal]"

text \<open>The message is built first, so a type that does not print throws before any check.\<close>

definition Validate :: "avro_value \<Rightarrow> itype \<Rightarrow> unit result" where
  "Validate v t =
     bindE (type_ToString t) (\<lambda>_.
       if v = V_null then Inl (Runtime_error '': internal error. Unexpected data type with iceberg type '')
       else ensure (TypeId t \<in> set (value_types v)) '': internal error. Iceberg type '')"

definition mk_PartitionKey :: "string \<Rightarrow> avro_value \<Rightarrow> itype option \<Rightarrow> partition_key result" where
  "mk_PartitionKey n v t =
     (case t of
        None \<Rightarrow> Inl (Runtime_error ''PartitionInfoField: type must be set'')
      | Some ty \<Rightarrow> bindE (Validate v ty)
          (\<lambda>_. Inr \<lparr>pk_name = n, pk_value = v, pk_type = Some ty\<rparr>))"

definition null_PartitionKey :: "string \<Rightarrow> partition_key" where
  "null_PartitionKey n = \<lparr>pk_name = n, pk_value = V_null, pk_type = None\<rparr>"

section \<open>Serialized form\<close>

definition bytes_string :: "byte list \<Rightarrow> string" where
  "bytes_string bs = map (\<lambda>b. char_of (unat b)) bs"

fun SerializeValue :: "avro_value \<Rightarrow> string" where
  "SerializeValue V_null = ''null''"
| "SerializeValue (V_bool b) = [char_of (if b then 1 else 0 :: nat)]"
| "SerializeValue (V_int i) = word_bytes 4 i"
| "SerializeValue (V_long i) = word_bytes 8 i"
| "SerializeValue (V_float x) = word_bytes 4 x"
| "SerializeValue (V_double x) = word_bytes 8 x"
| "SerializeValue (V_string s) = s"
| "SerializeValue (V_bytes bs) = bytes_string bs"
| "SerializeValue (V_fixed bs) = bytes_string bs"

definition SerializePartitionKey :: "partition_key \<Rightarrow> string result" where
  "SerializePartitionKey key =
     bindE (case pk_type key of None \<Rightarrow> Inr '''' | Some t \<Rightarrow> type_ToString t) (\<lambda>type_str.
       Inr (pk_name key @ type_str @ nat_to_string (variant_index (pk_value key)) @
            SerializeValue (pk_value key)))"

definition SerializePartitionTuple :: "partition_tuple \<Rightarrow> string result" where
  "SerializePartitionTuple tuple =
     (if tuple = [] then Inr ''''
      else bindE (mapE SerializePartitionKey tuple) (\<lambda>serialized_keys.
        Inr (concat (map (\<lambda>key. key @ nat_to_string (length key)) serialized_keys))))"

section \<open>Partition specifications\<close>

record partition_field =
  pf_source_id :: int
  pf_field_id :: int
  pf_name :: string
  pf_transform :: string

record partition_spec =
  ps_spec_id :: int
  ps_fields :: "partition_field list"

record partition_key_field =
  pkf_name :: string
  pkf_type :: "itype option"

definition starts_with :: "string \<Rightarrow> string \<Rightarrow> bool" where
  "starts_with s p \<longleftrightarrow> take (length p) s = p"

definition GetTypeFromSourceType :: "int \<Rightarrow> schema \<Rightarrow> itype result" where
  "GetTypeFromSourceType source_id s =
     (case find (\<lambda>column. nf_field_id column = source_id) (s_fields s) of
        Some column \<Rightarrow>
          Inr (if TypeId (nf_type column) = kTimestamptz then PrimitiveType kTimestamp else nf_type column)
      | None \<Rightarrow> Inl (Execution_error ''Partition spec expects column with field id ''))"

definition partition_field_type :: "partition_field \<Rightarrow> schema \<Rightarrow> itype option option" where
  "partition_field_type v s =
     (let transform = pf_transform v in
      if starts_with transform ''bucket'' \<or> transform = ''year'' \<or> transform = ''month'' \<or>
         transform = ''hour''
      then Some (Some (PrimitiveType kInt))
      else if transform = ''day'' then Some (Some (PrimitiveType kDate))
      else if transform = ''identity'' \<or> starts_with transform ''truncate'' then
        (case GetTypeFromSourceType (pf_source_id v) s of Inl _ \<Rightarrow> None | Inr t \<Rightarrow> Some (Some t))
      else if transform = ''void'' then Some None
      else None)"

fun fields_loop :: "partition_field list \<Rightarrow> schema \<Rightarrow> partition_key_field list option" where
  "fields_loop [] s = Some []"
| "fields_loop (v # vs) s =
     (case partition_field_type v s of
        None \<Rightarrow> None
      | Some t \<Rightarrow> (case fields_loop vs s of
          None \<Rightarrow> None
        | Some fs \<Rightarrow> Some (\<lparr>pkf_name = pf_name v, pkf_type = t\<rparr> # fs)))"

definition GetFieldsFromPartitionSpec ::
  "partition_spec \<Rightarrow> schema \<Rightarrow> partition_key_field list option" where
  "GetFieldsFromPartitionSpec spec s = fields_loop (ps_fields spec) s"

definition GetPartitionSpecById :: "partition_spec list \<Rightarrow> int \<Rightarrow> partition_spec result" where
  "GetPartitionSpecById specs partition_spec_id =
     (case find (\<lambda>spec. ps_spec_id spec = partition_spec_id) specs of
        None \<Rightarrow> Inl (Runtime_error '': partition spec id is not found: '')
      | Some spec \<Rightarrow> Inr spec)"

text \<open>
  The loop over the fields of the tuple for one expected field: \<open>None\<close> is the early
  \<open>return false\<close>, \<open>Some is_found\<close> the value of the flag after the loop.
\<close>

fun match_field ::
  "partition_key_field \<Rightarrow> partition_key list \<Rightarrow> bool \<Rightarrow> bool option result" where
  "match_field expected [] is_found = Inr (Some is_found)"
| "match_field expected (actual # rest) is_found =
     (if pk_name actual = pkf_name expected then
        if is_found then Inr None
        else bindE (case (pk_type actual, pkf_type expected) of
                      (Some a, Some e) \<Rightarrow>
                        bindE (type_ToString a) (\<lambda>sa. bindE (type_ToString e) (\<lambda>se. Inr (sa \<noteq> se)))
                    | _ \<Rightarrow> Inr False)
          (\<lambda>types_differ.
            if types_differ then Inr None
            else if pkf_type expected = None \<and> pk_value actual \<noteq> V_null then Inr None
            else match_field expected rest True)
      else match_field expected rest is_found)"

fun match_fields :: "partition_key_field list \<Rightarrow> partition_tuple \<Rightarrow> bool result" where
  "match_fields [] tuple = Inr True"
| "match_fields (expected # es) tuple =
     bindE (match_field expected tuple False) (\<lambda>r.
       case r of
         None \<Rightarrow> Inr False
       | Some is_found \<Rightarrow> if \<not> is_found then Inr False else match_fields es tuple)"

definition MatchesSpecification ::
  "partition_spec \<Rightarrow> schema \<Rightarrow> partition_tuple \<Rightarrow> bool result" where
  "MatchesSpecification spec s tuple =
     (case GetFieldsFromPartitionSpec spec s of
        None \<Rightarrow> Inr False
      | Some partition_fields \<Rightarrow>
          if length partition_fields \<noteq> length tuple then Inr False
          else match_fields partition_fields tuple)"

definition count_matching ::
  "partition_spec list \<Rightarrow> schema \<Rightarrow> partition_tuple \<Rightarrow> nat result" where
  "count_matching specs s tuple =
     foldE (\<lambda>spec n. bindE (MatchesSpecification spec s tuple)
              (\<lambda>m. Inr (if m then Suc n else n))) specs 0"

definition CheckPartitionTupleIsCorrect ::
  "partition_spec list \<Rightarrow> schema \<Rightarrow> partition_tuple \<Rightarrow> unit result" where
  "CheckPartitionTupleIsCorrect specs s tuple =
     bindE (count_matching specs s tuple) (\<lambda>matching_specifications.
       if matching_specifications = 0 then
         Inl (Execution_error ''Partiton specification for entry is not found'')
       else if matching_specifications > 1 then
         Inl (Execution_error ''Multiple partiton specifications for entry are found'')
       else Inr ())"

section \<open>Serialized keys identify keys\<close>

text \<open>The keys the two constructors can build for a field of a given name and type.\<close>

definition key_of_field :: "string \<times> itype \<Rightarrow> partition_key \<Rightarrow> bool" where
  "key_of_field f k \<longleftrightarrow> k = null_PartitionKey (fst f) \<or>
     mk_PartitionKey (fst f) (pk_value k) (Some (snd f)) = Inr k"

definition fixed_width :: "itype \<Rightarrow> bool" where
  "fixed_width t \<longleftrightarrow> TypeId t \<in> {kBoolean, kInt, kLong, kFloat, kDouble, kDate, kTime, kTimestamp,
     kTimestamptz, kTimestampNs, kTimestamptzNs}"

lemma byte_char_inject: "char_of (unat v) = char_of (unat w) \<longleftrightarrow> v = w" for v w :: byte
proof -
  have "unat x < 256" for x :: byte
    using unsigned_less [of x] by simp
  then have "(of_char (char_of (unat x)) :: nat) = unat x" for x :: byte
    by (simp add: of_char_of)
  then show ?thesis by (metis word_unat_eq_iff)
qed

lemma bytes_string_inject [simp]: "bytes_string a = bytes_string b \<longleftrightarrow> a = b"
proof -
  have "inj (\<lambda>b :: byte. char_of (unat b))" using byte_char_inject by (intro injI) blast
  then show ?thesis by (simp add: bytes_string_def inj_map_eq_map)
qed

lemma SerializeValue_inject:
  "variant_index v = variant_index w \<Longrightarrow> SerializeValue v = SerializeValue w \<Longrightarrow> v = w"
  by (cases v; cases w) (auto simp: word_bytes_inject split: if_splits)

lemma value_types_index:
  "t \<in> set (value_types v) \<Longrightarrow> t \<in> set (value_types w) \<Longrightarrow> variant_index v = variant_index w"
  by (cases v; cases w) auto

lemma fixed_width_length:
  "fixed_width t \<Longrightarrow> TypeId t \<in> set (value_types v) \<Longrightarrow> TypeId t \<in> set (value_types w) \<Longrightarrow>
     length (SerializeValue v) = length (SerializeValue w)"
  by (cases v; cases w) (auto simp: fixed_width_def)

lemma digit_0: "digit 0 = CHR ''0''"
  by code_simp

lemma key_of_field_cases:
  assumes "key_of_field (n, t) k"
  obtains (null) "k = null_PartitionKey n" "SerializePartitionKey k = Inr (n @ ''0null'')"
  | (typed) s v where "k = \<lparr>pk_name = n, pk_value = v, pk_type = Some t\<rparr>" "type_ToString t = Inr s"
      "TypeId t \<in> set (value_types v)"
      "SerializePartitionKey k = Inr (n @ s @ nat_to_string (variant_index v) @ SerializeValue v)"
proof (cases "k = null_PartitionKey n")
  case True
  then show ?thesis
    by (intro null) (simp_all add: SerializePartitionKey_def null_PartitionKey_def nat_to_string.simps digit_0)
next
  case False
  then have "mk_PartitionKey n (pk_value k) (Some t) = Inr k"
    using assms by (simp add: key_of_field_def)
  then obtain s where k: "k = \<lparr>pk_name = n, pk_value = pk_value k, pk_type = Some t\<rparr>"
      "type_ToString t = Inr s" "TypeId t \<in> set (value_types (pk_value k))"
    by (auto simp: mk_PartitionKey_def Validate_def bindE_eq_Inr_iff split: if_splits)
  show ?thesis
    by (rule typed [OF k]) (subst k(1), simp add: SerializePartitionKey_def k(2))
qed

lemma key_strings_nonempty:
  assumes "key_of_field f k"
  shows "\<exists>s. SerializePartitionKey k = Inr s"
  using assms by (cases f) (auto elim: key_of_field_cases)

text \<open>The null key and a typed key of a field differ right after the name.\<close>

lemma null_typed_differ:
  assumes "type_ToString t = Inr s"
  shows "''0null'' @ r \<noteq> s @ r'"
proof
  assume eq: "''0null'' @ r = s @ r'"
  have "s \<noteq> []" "\<not> is_digit (hd s)" using type_ToString_starts_alpha [OF assms] by simp_all
  moreover from eq this(1) have "hd s = CHR ''0''" by (cases s) simp_all
  ultimately show False by (simp add: is_digit_def)
qed

lemma serialized_key_prefix_free:
  assumes "key_of_field (n, t) a" "key_of_field (n, t) b"
    and "SerializePartitionKey a = Inr sa" "SerializePartitionKey b = Inr sb"
    and eq: "sa @ r = sb @ r'" and w: "fixed_width t \<or> r = [] \<and> r' = []"
  shows "a = b"
  using assms(1)
proof (cases rule: key_of_field_cases)
  case null
  note a = this
  show ?thesis using assms(2)
  proof (cases rule: key_of_field_cases)
    case (typed s v)
    then have "n @ (''0null'' @ r) = n @ (s @ nat_to_string (variant_index v) @ SerializeValue v @ r')"
      using a eq [symmetric] assms(3,4) by auto
    then show ?thesis using null_typed_differ [OF typed(2)] by (metis same_append_eq)
  qed (use a in simp)
next
  case (typed s v)
  note a = this
  show ?thesis using assms(2)
  proof (cases rule: key_of_field_cases)
    case null
    then have "n @ (''0null'' @ r') = n @ (s @ nat_to_string (variant_index v) @ SerializeValue v @ r)"
      using a eq assms(3,4) by auto
    then show ?thesis using null_typed_differ [OF a(2)] by (metis same_append_eq)
  next
    case (typed s' v')
    have idx: "variant_index v = variant_index v'" using a(3) typed(3) by (rule value_types_index)
    have "SerializeValue v @ r = SerializeValue v' @ r'"
      using eq a typed assms(3,4) idx by auto
    then have "SerializeValue v = SerializeValue v'"
      using w fixed_width_length [OF _ a(3) typed(3)] by auto
    then show ?thesis using a typed idx SerializeValue_inject by blast
  qed
qed

lemma length_suffix_inject:
  assumes "s @ nat_to_string (length s) = t @ nat_to_string (length t)"
  shows "s = t"
proof (rule ccontr)
  assume "s \<noteq> t"
  have len: "length s + length (nat_to_string (length s)) = length t + length (nat_to_string (length t))"
    using arg_cong [OF assms, of length] by simp
  have "length s = length t"
    using len length_nat_to_string_mono [of "length s" "length t"]
      length_nat_to_string_mono [of "length t" "length s"] by linarith
  with assms \<open>s \<noteq> t\<close> show False by simp
qed

lemma serialized_keys_inject:
  assumes "list_all2 key_of_field fs a" "list_all2 key_of_field fs b"
    and "\<forall>f \<in> set (butlast fs). fixed_width (snd f)"
    and "mapE SerializePartitionKey a = Inr sa" "mapE SerializePartitionKey b = Inr sb"
    and "concat (map (\<lambda>k. k @ nat_to_string (length k)) sa) =
         concat (map (\<lambda>k. k @ nat_to_string (length k)) sb)"
  shows "a = b"
  using assms
proof (induction fs arbitrary: a b sa sb)
  case (Cons f fs)
  obtain n t where f: "f = (n, t)" by (cases f)
  obtain x xs y ys where ab: "a = x # xs" "b = y # ys" and
    k: "key_of_field (n, t) x" "key_of_field (n, t) y" and
    ks: "list_all2 key_of_field fs xs" "list_all2 key_of_field fs ys"
    using Cons.prems(1,2) f by (auto simp: list_all2_Cons1)
  obtain s ss u us where sab: "sa = s # ss" "sb = u # us" and
    sx: "SerializePartitionKey x = Inr s" "SerializePartitionKey y = Inr u" and
    sxs: "mapE SerializePartitionKey xs = Inr ss" "mapE SerializePartitionKey ys = Inr us"
    using Cons.prems(4,5) ab by (auto simp: bindE_eq_Inr_iff)
  let ?cat = "\<lambda>ss. concat (map (\<lambda>k. k @ nat_to_string (length k)) ss)"
  have eq: "(s @ nat_to_string (length s)) @ ?cat ss = (u @ nat_to_string (length u)) @ ?cat us"
    using Cons.prems(6) sab by simp
  show ?case
  proof (cases fs)
    case Nil
    then have "ss = []" "us = []" using ks sxs by simp_all
    then have "s @ nat_to_string (length s) = u @ nat_to_string (length u)"
      using eq by (simp only: list.map concat.simps append_Nil2)
    then have "s = u" by (rule length_suffix_inject)
    then have "x = y" using serialized_key_prefix_free [OF k sx, of "[]" "[]"] by simp
    then show ?thesis using ab ks Nil by simp
  next
    case (Cons f' fs')
    then have fw: "fixed_width t" "\<forall>f \<in> set (butlast fs). fixed_width (snd f)"
      using Cons.prems(3) f by simp_all
    have "x = y"
      by (rule serialized_key_prefix_free [OF k sx, of "nat_to_string (length s) @ ?cat ss"
            "nat_to_string (length u) @ ?cat us"]) (use eq fw(1) in simp_all)
    moreover from this have "?cat ss = ?cat us" using eq sx by simp
    ultimately show ?thesis using Cons.IH [OF ks fw(2) sxs] ab by simp
  qed
qed simp

section \<open>Matching a specification\<close>

definition prints :: "itype option \<Rightarrow> bool" where
  "prints t \<longleftrightarrow> (case t of None \<Rightarrow> True | Some ty \<Rightarrow> (\<exists>s. type_ToString ty = Inr s))"

definition compatible :: "partition_key_field \<Rightarrow> partition_key \<Rightarrow> bool" where
  "compatible e a \<longleftrightarrow>
     (case (pk_type a, pkf_type e) of
        (Some ta, Some te) \<Rightarrow> type_ToString ta = type_ToString te
      | _ \<Rightarrow> True) \<and>
     (pkf_type e = None \<longrightarrow> pk_value a = V_null)"

lemma match_field_eq:
  assumes "prints (pkf_type e)" "\<forall>a \<in> set tuple. prints (pk_type a)"
  shows "match_field e tuple found =
     Inr (case filter (\<lambda>a. pk_name a = pkf_name e) tuple of
            [] \<Rightarrow> Some found
          | a # as \<Rightarrow> if \<not> found \<and> compatible e a \<and> as = [] then Some True else None)"
  using assms
proof (induction tuple arbitrary: found)
  case (Cons a tuple)
  show ?case
  proof (cases "pk_name a = pkf_name e \<and> \<not> found")
    case True
    have "bindE (case (pk_type a, pkf_type e) of
             (Some a, Some e) \<Rightarrow>
               bindE (type_ToString a) (\<lambda>sa. bindE (type_ToString e) (\<lambda>se. Inr (sa \<noteq> se)))
           | _ \<Rightarrow> Inr False)
          (\<lambda>types_differ.
            if types_differ then Inr None
            else if pkf_type e = None \<and> pk_value a \<noteq> V_null then Inr None
            else match_field e tuple True) =
        (if compatible e a then match_field e tuple True else Inr None)"
      using Cons.prems by (auto simp: compatible_def prints_def split: option.splits)
    then show ?thesis
      using True Cons by (auto split: list.splits)
  next
    case False
    then show ?thesis using Cons by (auto split: list.splits)
  qed
qed simp

lemma match_fields_eq:
  assumes "\<forall>e \<in> set es. prints (pkf_type e)" "\<forall>a \<in> set tuple. prints (pk_type a)"
  shows "match_fields es tuple =
     Inr (\<forall>e \<in> set es. \<exists>a. filter (\<lambda>a. pk_name a = pkf_name e) tuple = [a] \<and> compatible e a)"
  using assms
proof (induction es)
  case (Cons e es)
  have "match_field e tuple False = Inr (case filter (\<lambda>a. pk_name a = pkf_name e) tuple of
      [] \<Rightarrow> Some False | a # as \<Rightarrow> if compatible e a \<and> as = [] then Some True else None)"
    using Cons.prems by (simp add: match_field_eq split: list.split)
  then show ?case using Cons by (auto split: list.splits)
qed simp

lemma count_matching_eq:
  assumes "\<forall>spec \<in> set specs. MatchesSpecification spec s tuple = Inr (m spec)"
  shows "count_matching specs s tuple = Inr (length (filter m specs))"
proof -
  have "foldE (\<lambda>spec n. bindE (MatchesSpecification spec s tuple)
      (\<lambda>m. Inr (if m then Suc n else n))) specs k = Inr (k + length (filter m specs))" for k
    using assms by (induction specs arbitrary: k) auto
  then show ?thesis by (simp add: count_matching_def)
qed

section \<open>Properties\<close>

text \<open>
  C36. The serialized tuple identifies the partition when every field but the last has a
  type of fixed width: two tuples built for the same fields with the same serialized
  form are equal, null values included.  In particular this holds for one field of any
  type.
\<close>

theorem SerializePartitionTuple_inject:
  assumes "list_all2 key_of_field fs a" "list_all2 key_of_field fs b"
    and "\<forall>f \<in> set (butlast fs). fixed_width (snd f)"
  shows "SerializePartitionTuple a = SerializePartitionTuple b \<longleftrightarrow> a = b"
proof
  assume eq: "SerializePartitionTuple a = SerializePartitionTuple b"
  show "a = b"
  proof (cases fs)
    case (Cons f fs')
    have "\<exists>ss. mapE SerializePartitionKey k = Inr ss" if "list_all2 key_of_field fs k" for k
      using that by (induction rule: list_all2_induct) (use key_strings_nonempty in \<open>force+\<close>)
    then obtain sa sb where s: "mapE SerializePartitionKey a = Inr sa" "mapE SerializePartitionKey b = Inr sb"
      using assms(1,2) by blast
    have "a \<noteq> []" "b \<noteq> []" using assms(1,2) Cons by auto
    then have "concat (map (\<lambda>k. k @ nat_to_string (length k)) sa) =
        concat (map (\<lambda>k. k @ nat_to_string (length k)) sb)"
      using eq s by (simp only: SerializePartitionTuple_def if_False bindE_Inr sum.inject)
    then show ?thesis by (rule serialized_keys_inject [OF assms(1-3) s])
  qed (use assms in simp)
qed simp

definition example_fields :: "(string \<times> itype) list" where
  "example_fields = [(''d'', PrimitiveType kDate), (''s'', PrimitiveType kString)]"

definition example_tuple :: partition_tuple where
  "example_tuple = [\<lparr>pk_name = ''d'', pk_value = V_int 7, pk_type = Some (PrimitiveType kDate)\<rparr>,
     null_PartitionKey ''s'']"

theorem SerializePartitionTuple_inject_witness:
  "SerializePartitionTuple example_tuple \<noteq>
     SerializePartitionTuple [null_PartitionKey ''d'', null_PartitionKey ''s'']"
proof -
  have "list_all2 key_of_field example_fields example_tuple"
    "list_all2 key_of_field example_fields [null_PartitionKey ''d'', null_PartitionKey ''s'']"
    by (simp_all add: example_fields_def example_tuple_def key_of_field_def mk_PartitionKey_def
        Validate_def null_PartitionKey_def PrimitiveTypeToName_def kStringToPrimitiveTypeId_def)
  moreover have "\<forall>f \<in> set (butlast example_fields). fixed_width (snd f)"
    by (simp add: example_fields_def fixed_width_def)
  moreover have "example_tuple \<noteq> [null_PartitionKey ''d'', null_PartitionKey ''s'']"
    by (simp add: example_tuple_def null_PartitionKey_def)
  ultimately show ?thesis using SerializePartitionTuple_inject by blast
qed

text \<open>
  With two fields of variable width the serialized form does not identify the
  partition: the length of a key stands after the key, so that two different tuples of
  two string fields have the same serialized form and are planned as one partition.
\<close>

lemma SerializePartitionTuple_collision:
  "\<exists>a b. a \<noteq> b \<and>
     list_all2 key_of_field [(''a'', PrimitiveType kString), (''b'', PrimitiveType kString)] a \<and>
     list_all2 key_of_field [(''a'', PrimitiveType kString), (''b'', PrimitiveType kString)] b \<and>
     SerializePartitionTuple a = SerializePartitionTuple b"
proof -
  define key where "key n v =
    \<lparr>pk_name = n, pk_value = V_string v, pk_type = Some (PrimitiveType kString)\<rparr>" for n v
  let ?a = "[key ''a'' [], key ''b'' ''x18bstring6'']"
  let ?b = "[key ''a'' ''8bstring6x'', key ''b'' ''1'']"
  have ok: "key_of_field (n, PrimitiveType kString) (key n v)" for n v
    by (simp add: key_def key_of_field_def mk_PartitionKey_def Validate_def PrimitiveTypeToName_def
        kStringToPrimitiveTypeId_def)
  have "SerializePartitionTuple ?a = SerializePartitionTuple ?b" unfolding key_def by code_simp
  moreover have "?a \<noteq> ?b" by (simp add: key_def)
  ultimately show ?thesis using ok by (intro exI [of _ ?a] exI [of _ ?b]) simp
qed

text \<open>
  A tuple matches a specification exactly when the specification's transforms are
  known, the numbers of fields agree, and every expected field occurs exactly once in
  the tuple, with the same printed type where both are known and with null under the
  void transform; when all types print, the check itself never throws.
\<close>

lemma MatchesSpecification_iff:
  assumes "\<forall>k \<in> set tuple. prints (pk_type k)"
    and "\<forall>fs. GetFieldsFromPartitionSpec spec s = Some fs \<longrightarrow> (\<forall>e \<in> set fs. prints (pkf_type e))"
  shows "MatchesSpecification spec s tuple =
     Inr (\<exists>fs. GetFieldsFromPartitionSpec spec s = Some fs \<and> length fs = length tuple \<and>
       (\<forall>e \<in> set fs. \<exists>a. filter (\<lambda>a. pk_name a = pkf_name e) tuple = [a] \<and> compatible e a))"
proof (cases "GetFieldsFromPartitionSpec spec s")
  case (Some fs)
  then show ?thesis
    using assms match_fields_eq [of fs tuple] by (simp add: MatchesSpecification_def)
qed (simp add: MatchesSpecification_def)

definition example_schema :: schema where
  "example_schema = \<lparr>s_schema_id = 0, s_fields =
     [\<lparr>nf_name = ''t'', nf_field_id = 1, nf_is_required = False, nf_type = PrimitiveType kTimestamp,
        nf_initial_default = None, nf_write_default = None\<rparr>,
      \<lparr>nf_name = ''s'', nf_field_id = 2, nf_is_required = False, nf_type = PrimitiveType kString,
        nf_initial_default = None, nf_write_default = None\<rparr>]\<rparr>"

definition example_spec :: partition_spec where
  "example_spec = \<lparr>ps_spec_id = 0, ps_fields =
     [\<lparr>pf_source_id = 1, pf_field_id = 1000, pf_name = ''d'', pf_transform = ''day''\<rparr>,
      \<lparr>pf_source_id = 2, pf_field_id = 1001, pf_name = ''s'', pf_transform = ''identity''\<rparr>]\<rparr>"

lemma example_spec_fields:
  "GetFieldsFromPartitionSpec example_spec example_schema =
     Some [\<lparr>pkf_name = ''d'', pkf_type = Some (PrimitiveType kDate)\<rparr>,
           \<lparr>pkf_name = ''s'', pkf_type = Some (PrimitiveType kString)\<rparr>]"
  by (simp add: GetFieldsFromPartitionSpec_def example_spec_def example_schema_def
      partition_field_type_def starts_with_def GetTypeFromSourceType_def)

lemma MatchesSpecification_iff_witness:
  "MatchesSpecification example_spec example_schema example_tuple = Inr True"
  by (subst MatchesSpecification_iff)
    (simp_all add: example_spec_fields, simp_all add: example_tuple_def prints_def compatible_def
      null_PartitionKey_def PrimitiveTypeToName_def kStringToPrimitiveTypeId_def)

text \<open>
  When matching against each specification of the table is decided, the check of an
  entry's tuple succeeds exactly when one and only one of the specifications matches.
\<close>

lemma CheckPartitionTupleIsCorrect_iff:
  assumes "\<forall>spec \<in> set specs. MatchesSpecification spec s tuple = Inr (m spec)"
  shows "CheckPartitionTupleIsCorrect specs s tuple = Inr () \<longleftrightarrow>
     (\<exists>xs spec ys. specs = xs @ spec # ys \<and> m spec \<and> (\<forall>o' \<in> set xs \<union> set ys. \<not> m o'))"
proof -
  have "CheckPartitionTupleIsCorrect specs s tuple = Inr () \<longleftrightarrow> length (filter m specs) = 1"
    using count_matching_eq [OF assms]
    by (cases "filter m specs") (auto simp: CheckPartitionTupleIsCorrect_def)
  also have "\<dots> \<longleftrightarrow> (\<exists>spec. filter m specs = [spec])" by (auto simp: length_Suc_conv)
  also have "\<dots> \<longleftrightarrow> (\<exists>xs spec ys. specs = xs @ spec # ys \<and> m spec \<and> (\<forall>o' \<in> set xs \<union> set ys. \<not> m o'))"
  proof
    assume "\<exists>spec. filter m specs = [spec]"
    then obtain spec xs ys where "specs = xs @ spec # ys" "\<forall>u \<in> set xs. \<not> m u" "m spec"
        "filter m ys = []"
      unfolding filter_eq_Cons_iff by metis
    then show "\<exists>xs spec ys. specs = xs @ spec # ys \<and> m spec \<and> (\<forall>o' \<in> set xs \<union> set ys. \<not> m o')"
      by (metis Un_iff filter_empty_conv)
  next
    assume "\<exists>xs spec ys. specs = xs @ spec # ys \<and> m spec \<and> (\<forall>o' \<in> set xs \<union> set ys. \<not> m o')"
    then show "\<exists>spec. filter m specs = [spec]" by (auto simp: filter_empty_conv)
  qed
  finally show ?thesis .
qed

lemma CheckPartitionTupleIsCorrect_iff_witness:
  "CheckPartitionTupleIsCorrect [example_spec] example_schema example_tuple = Inr ()"
proof -
  have "MatchesSpecification example_spec example_schema example_tuple = Inr True" by code_simp
  then show ?thesis
    using CheckPartitionTupleIsCorrect_iff [of "[example_spec]" example_schema example_tuple "\<lambda>_. True"]
    by (auto simp: Cons_eq_append_conv)
qed

end
