(* ===== verification/Segments.thy ===== *)
theory Segments
  imports Prelude
begin

text \<open>
  Data entries of a plan and their file segments: \<open>DataEntry\<close>,
  \<open>DataEntry::Segment\<close> and \<open>DeletionVectorInfo\<close> of \<open>iceberg/tea_scan.h\<close>, the sum
  of two entries of one file (\<open>operator+\<close> and \<open>operator+=\<close> of
  \<open>iceberg/tea_scan.cpp\<close>) and the segment union of
  \<open>iceberg/experimental_representations.cpp\<close>.  The lemmas show that the union
  covers the same bytes, is a normal form and is the only normal form of its
  bytes, so that comparing united segments compares what is read.  Offsets and
  lengths are \<open>int64_t\<close> in the source and \<^typ>\<open>int\<close> here: their sums do not wrap
  for the offsets of a file, and an overflow is undefined behaviour in the source.
\<close>

record dv_info =
  dv_path :: string
  dv_offset :: int
  dv_length :: int
  dv_referenced_data_file :: string

record segment =
  seg_offset :: int
  seg_length :: int

record data_entry =
  de_path :: string
  de_parts :: "segment list"
  de_dv :: "dv_info option"

definition mk_segment :: "int \<Rightarrow> int \<Rightarrow> segment" where
  "mk_segment off len = \<lparr>seg_offset = off, seg_length = len\<rparr>"

section \<open>Union of segments\<close>

fun ValidateSegments :: "segment list \<Rightarrow> bool" where
  "ValidateSegments [] = True"
| "ValidateSegments [s] = True"
| "ValidateSegments (s # t # ss) =
     (if seg_offset t < seg_offset s then False else ValidateSegments (t # ss))"

fun unite_loop :: "segment list \<Rightarrow> segment option \<Rightarrow> segment list \<Rightarrow> segment list" where
  "unite_loop result None [] = result"
| "unite_loop result (Some b) [] = result @ [b]"
| "unite_loop result None (part # ps) = unite_loop result (Some part) ps"
| "unite_loop result (Some b) (part # ps) =
     (if seg_length b = 0 then result @ [b]
      else if seg_offset b + seg_length b \<ge> seg_offset part then
        if seg_length part \<noteq> 0 then
          unite_loop result
            (Some (b\<lparr>seg_length := max (seg_offset b + seg_length b)
                                      (seg_offset part + seg_length part) - seg_offset b\<rparr>)) ps
        else unite_loop result (Some (b\<lparr>seg_length := 0\<rparr>)) ps
      else unite_loop (result @ [b]) (Some part) ps)"

definition UniteSegments :: "segment list \<Rightarrow> segment list result" where
  "UniteSegments segments =
     bindE (ensure (ValidateSegments segments) ''Segments should be sorted'')
       (\<lambda>_. Inr (unite_loop [] None segments))"

text \<open>
  \<open>std::sort\<close> by offset.  It is not stable, so entries with one offset may come in
  any order; \<open>unite_perm_invariant\<close> below shows that the order does not matter.
\<close>

definition sort_parts :: "segment list \<Rightarrow> segment list" where
  "sort_parts ss = sort_key seg_offset ss"

definition data_entry_plus :: "data_entry \<Rightarrow> data_entry \<Rightarrow> data_entry result" where
  "data_entry_plus lhs rhs =
     bindE (ensure (de_path lhs = de_path rhs) ''Pathes of left and right entries are not equals'')
       (\<lambda>_. bindE (UniteSegments (sort_parts (de_parts lhs @ de_parts rhs)))
         (\<lambda>segs. Inr \<lparr>de_path = de_path lhs, de_parts = segs, de_dv = None\<rparr>))"

definition data_entry_add :: "data_entry \<Rightarrow> data_entry \<Rightarrow> data_entry result" where
  "data_entry_add self other =
     bindE (ensure (de_path self = de_path other) ''Pathes of left and right entries are not equals'')
       (\<lambda>_. bindE (UniteSegments (sort_parts (de_parts self @ de_parts other)))
         (\<lambda>segs. Inr (self\<lparr>de_parts := segs\<rparr>)))"

definition AreDataEntriesEqual :: "data_entry \<Rightarrow> data_entry \<Rightarrow> bool result" where
  "AreDataEntriesEqual lhs rhs =
     bindE (UniteSegments (de_parts lhs)) (\<lambda>l.
       bindE (UniteSegments (de_parts rhs)) (\<lambda>r.
         Inr (de_path lhs = de_path rhs \<and> set l = set r)))"

section \<open>Bytes covered\<close>

text \<open>A segment of length 0 runs until the end of the file.\<close>

definition seg_bytes :: "segment \<Rightarrow> int set" where
  "seg_bytes s = (if seg_length s = 0 then {seg_offset s..}
                  else {seg_offset s..<seg_offset s + seg_length s})"

definition covered :: "segment list \<Rightarrow> int set" where
  "covered ss = (\<Union>s \<in> set ss. seg_bytes s)"

definition seg_ok :: "segment \<Rightarrow> bool" where
  "seg_ok s \<longleftrightarrow> 0 \<le> seg_length s"

text \<open>Normal form: ascending, with a gap between neighbours, only the last open.\<close>

fun normal_segments :: "segment list \<Rightarrow> bool" where
  "normal_segments [] = True"
| "normal_segments [s] = seg_ok s"
| "normal_segments (s # t # ss) =
     (0 < seg_length s \<and> seg_offset s + seg_length s < seg_offset t \<and> normal_segments (t # ss))"

lemma ValidateSegments_iff: "ValidateSegments ss \<longleftrightarrow> sorted (map seg_offset ss)"
  by (induction ss rule: ValidateSegments.induct)
    (auto simp: not_less sorted1 sorted2 simp del: sorted_wrt.simps(2))

lemma covered_Nil [simp]: "covered [] = {}"
  by (simp add: covered_def)

lemma covered_Cons [simp]: "covered (s # ss) = seg_bytes s \<union> covered ss"
  by (simp add: covered_def)

lemma covered_append [simp]: "covered (ss @ ts) = covered ss \<union> covered ts"
  by (simp add: covered_def)

lemma covered_sort_parts [simp]: "covered (sort_parts ss) = covered ss"
  by (simp add: covered_def sort_parts_def)

lemma ValidateSegments_sort_parts [simp]: "ValidateSegments (sort_parts ss)"
  by (simp add: ValidateSegments_iff sort_parts_def)

lemma seg_bytes_lower: "x \<in> seg_bytes s \<Longrightarrow> seg_offset s \<le> x"
  by (auto simp: seg_bytes_def split: if_splits)

lemma covered_lower:
  "\<forall>s \<in> set ss. b \<le> seg_offset s \<Longrightarrow> x \<in> covered ss \<Longrightarrow> b \<le> x"
  by (auto simp: covered_def dest: seg_bytes_lower intro: order_trans)

lemma offset_in_seg_bytes: "seg_ok s \<Longrightarrow> seg_offset s \<in> seg_bytes s"
  by (auto simp: seg_bytes_def seg_ok_def)

section \<open>Correctness of the union\<close>

lemma unite_loop_result: "unite_loop result b ss = result @ unite_loop [] b ss"
proof (induction ss arbitrary: result b)
  case Nil
  show ?case by (cases b) simp_all
next
  case (Cons p ps)
  show ?case
  proof (cases b)
    case None
    then show ?thesis using Cons.IH [of result "Some p"] by simp
  next
    case (Some b0)
    have "unite_loop (result @ [b0]) (Some p) ps = result @ unite_loop [b0] (Some p) ps"
      using Cons.IH [of "result @ [b0]" "Some p"] Cons.IH [of "[b0]" "Some p"] by simp
    moreover have "unite_loop result (Some c) ps = result @ unite_loop [] (Some c) ps" for c
      by (rule Cons.IH)
    ultimately show ?thesis using Some by simp
  qed
qed

lemma unite_loop_covered:
  assumes "sorted (map seg_offset (b # ss))" "\<forall>s \<in> set (b # ss). seg_ok s"
  shows "covered (unite_loop [] (Some b) ss) = seg_bytes b \<union> covered ss"
  using assms
proof (induction ss arbitrary: b)
  case (Cons p ps)
  show ?case
  proof (cases "seg_length b = 0")
    case True
    have "\<forall>s \<in> set (p # ps). seg_offset b \<le> seg_offset s" using Cons.prems(1) by simp
    then have "covered (p # ps) \<subseteq> {seg_offset b..}"
      using covered_lower by blast
    moreover have "seg_bytes b = {seg_offset b..}"
      using True by (simp add: seg_bytes_def)
    moreover have "unite_loop [] (Some b) (p # ps) = [b]"
      using True by simp
    ultimately show ?thesis by (simp add: Un_absorb2 del: unite_loop.simps covered_Cons add: covered_Cons [of b])
  next
    case open_end: False
    then have bl: "0 < seg_length b" using Cons.prems(2) by (auto simp: seg_ok_def)
    show ?thesis
    proof (cases "seg_offset b + seg_length b \<ge> seg_offset p")
      case False
      then have "unite_loop [] (Some b) (p # ps) = b # unite_loop [] (Some p) ps"
        using open_end unite_loop_result [of "[b]"] by simp
      then show ?thesis using Cons.IH [of p] Cons.prems by auto
    next
      case True
      define b' where "b' = (if seg_length p \<noteq> 0
        then b\<lparr>seg_length := max (seg_offset b + seg_length b)
                 (seg_offset p + seg_length p) - seg_offset b\<rparr>
        else b\<lparr>seg_length := 0\<rparr>)"
      have step: "unite_loop [] (Some b) (p # ps) = unite_loop [] (Some b') ps"
        using open_end True by (simp add: b'_def)
      have "seg_offset b \<le> seg_offset p" "0 \<le> seg_length p"
        using Cons.prems by (auto simp: seg_ok_def)
      then have bytes: "seg_bytes b' = seg_bytes b \<union> seg_bytes p"
        using True bl by (auto simp: b'_def seg_bytes_def)
      have "seg_ok b'" "seg_offset b' = seg_offset b"
        using bl \<open>seg_offset b \<le> seg_offset p\<close> by (auto simp: b'_def seg_ok_def)
      then have "covered (unite_loop [] (Some b') ps) = seg_bytes b' \<union> covered ps"
        using Cons.prems by (intro Cons.IH) auto
      then show ?thesis using step bytes by auto
    qed
  qed
qed simp

text \<open>The first united segment starts where the first segment starts.\<close>

lemma unite_loop_Cons:
  assumes "sorted (map seg_offset (b # ss))" "\<forall>s \<in> set (b # ss). seg_ok s"
  shows "\<exists>r rs. unite_loop [] (Some b) ss = r # rs \<and> seg_offset r = seg_offset b
           \<and> normal_segments (r # rs)"
  using assms
proof (induction ss arbitrary: b)
  case (Cons p ps)
  show ?case
  proof (cases "seg_length b = 0")
    case False
    then have bl: "0 < seg_length b" using Cons.prems(2) by (auto simp: seg_ok_def)
    show ?thesis
    proof (cases "seg_offset b + seg_length b \<ge> seg_offset p")
      case gap: False
      obtain r rs where "unite_loop [] (Some p) ps = r # rs" "seg_offset r = seg_offset p"
          "normal_segments (r # rs)"
        using Cons.IH [of p] Cons.prems by auto
      then show ?thesis
        using False gap bl unite_loop_result [of "[b]" "Some p" ps] by auto
    next
      case True
      define b' where "b' = (if seg_length p \<noteq> 0
        then b\<lparr>seg_length := max (seg_offset b + seg_length b)
                 (seg_offset p + seg_length p) - seg_offset b\<rparr>
        else b\<lparr>seg_length := 0\<rparr>)"
      have "seg_ok b'" "seg_offset b' = seg_offset b"
        using bl by (auto simp: b'_def seg_ok_def)
      then have "\<exists>r rs. unite_loop [] (Some b') ps = r # rs \<and> seg_offset r = seg_offset b'
           \<and> normal_segments (r # rs)"
        using Cons.prems by (intro Cons.IH) auto
      then show ?thesis
        using False True \<open>seg_offset b' = seg_offset b\<close> by (auto simp: b'_def)
    qed
  qed (use Cons.prems in auto)
qed simp

lemma unite_loop_normal:
  "sorted (map seg_offset ss) \<Longrightarrow> \<forall>s \<in> set ss. seg_ok s \<Longrightarrow>
     normal_segments (unite_loop [] None ss)"
  by (cases ss) (use unite_loop_Cons in fastforce)+

lemma unite_loop_None_covered:
  "sorted (map seg_offset ss) \<Longrightarrow> \<forall>s \<in> set ss. seg_ok s \<Longrightarrow>
     covered (unite_loop [] None ss) = covered ss"
  by (cases ss) (simp_all add: unite_loop_covered)

section \<open>The normal form is unique\<close>

lemma normal_Cons:
  "normal_segments (s # ss) \<longleftrightarrow>
     seg_ok s \<and> normal_segments ss \<and>
     (ss \<noteq> [] \<longrightarrow> 0 < seg_length s \<and> seg_offset s + seg_length s < seg_offset (hd ss))"
  by (cases ss) (auto simp: seg_ok_def)

lemma normal_lower:
  "normal_segments (s # ss) \<Longrightarrow> x \<in> covered (s # ss) \<Longrightarrow> seg_offset s \<le> x"
proof (induction ss arbitrary: s)
  case (Cons t ts)
  then show ?case using seg_bytes_lower [of x s] by force
qed (simp add: seg_bytes_lower)

lemma normal_gap:
  assumes "normal_segments (s # ss)" "x \<in> covered ss"
  shows "0 < seg_length s \<and> seg_offset s + seg_length s < x"
proof (cases ss)
  case (Cons t ts)
  then have "seg_offset t \<le> x" using assms normal_lower [of t ts x] by simp
  then show ?thesis using assms(1) Cons by simp
qed (use assms in simp)

text \<open>The first offset is the least byte, and the end of the first segment is a gap.\<close>

lemma normal_offset_eq:
  assumes "normal_segments (s # ss)" "normal_segments (t # ts)"
    and "covered (s # ss) = covered (t # ts)"
  shows "seg_offset s = seg_offset t"
proof (rule antisym)
  have "seg_offset t \<in> covered (t # ts)" "seg_offset s \<in> covered (s # ss)"
    using assms(1,2) by (simp_all add: normal_Cons offset_in_seg_bytes)
  then show "seg_offset s \<le> seg_offset t" "seg_offset t \<le> seg_offset s"
    using assms normal_lower by blast+
qed

lemma normal_end_gap:
  assumes "normal_segments (s # ss)" "0 < seg_length s"
  shows "seg_offset s + seg_length s \<notin> covered (s # ss)"
  using assms normal_gap [OF assms(1)] by (force simp: seg_bytes_def)

lemma normal_covers_prefix:
  assumes "normal_segments (s # ss)" "seg_offset s \<le> x"
    and "seg_length s = 0 \<or> x < seg_offset s + seg_length s"
  shows "x \<in> covered (s # ss)"
  using assms by (auto simp: seg_bytes_def)

lemma normal_length_le:
  assumes "normal_segments (s # ss)" "normal_segments (t # ts)"
    and "covered (s # ss) = covered (t # ts)" "0 < seg_length s"
  shows "0 < seg_length t \<and> seg_length t \<le> seg_length s"
proof -
  have off: "seg_offset s = seg_offset t" using assms(1-3) by (rule normal_offset_eq)
  have "seg_offset s + seg_length s \<notin> covered (t # ts)"
    using normal_end_gap [OF assms(1,4)] assms(3) by metis
  then have "\<not> (seg_length t = 0 \<or> seg_offset s + seg_length s < seg_offset t + seg_length t)"
    using normal_covers_prefix [OF assms(2), of "seg_offset s + seg_length s"] off assms(4)
    by fastforce
  moreover have "0 \<le> seg_length t" using assms(2) by (simp add: normal_Cons seg_ok_def)
  ultimately show ?thesis using off by auto
qed

lemma normal_length_eq:
  assumes "normal_segments (s # ss)" "normal_segments (t # ts)"
    and "covered (s # ss) = covered (t # ts)"
  shows "seg_length s = seg_length t"
proof -
  have "0 \<le> seg_length s" "0 \<le> seg_length t"
    using assms(1,2) by (simp_all add: normal_Cons seg_ok_def)
  then show ?thesis
    using normal_length_le [OF assms] normal_length_le [OF assms(2,1) assms(3) [symmetric]]
    by fastforce
qed

lemma normal_rest_covered:
  "normal_segments (s # ss) \<Longrightarrow> covered ss = covered (s # ss) - seg_bytes s"
  using normal_gap [of s ss] by (force simp: seg_bytes_def)

lemma normal_covered_empty: "normal_segments ss \<Longrightarrow> covered ss = {} \<Longrightarrow> ss = []"
  by (cases ss) (use offset_in_seg_bytes in \<open>auto simp: normal_Cons\<close>)

lemma normal_unique:
  "normal_segments ss \<Longrightarrow> normal_segments ts \<Longrightarrow> covered ss = covered ts \<Longrightarrow> ss = ts"
proof (induction ss arbitrary: ts)
  case Nil
  then show ?case using normal_covered_empty by auto
next
  case (Cons s ss)
  then obtain t ts' where ts: "ts = t # ts'"
    using normal_covered_empty by (metis covered_Nil list.exhaust)
  have "s = t"
    using normal_offset_eq [of s ss t ts'] normal_length_eq [of s ss t ts'] Cons.prems
    unfolding ts by (intro segment.equality) simp_all
  moreover have "covered ss = covered ts'"
    using Cons.prems normal_rest_covered \<open>s = t\<close> unfolding ts by metis
  ultimately show ?case
    using Cons.IH [of ts'] Cons.prems unfolding ts by (simp add: normal_Cons)
qed

lemma normal_set_eq_iff:
  "normal_segments ss \<Longrightarrow> normal_segments ts \<Longrightarrow> set ss = set ts \<longleftrightarrow> covered ss = covered ts"
  using normal_unique by (auto simp: covered_def)

lemma unite_perm_invariant:
  assumes "mset ss = mset ts" "sorted (map seg_offset ss)" "sorted (map seg_offset ts)"
    and "\<forall>s \<in> set ss. seg_ok s"
  shows "unite_loop [] None ss = unite_loop [] None ts"
proof -
  have "set ss = set ts" using assms(1) by (rule mset_eq_setD)
  then have "covered ss = covered ts" "\<forall>s \<in> set ts. seg_ok s"
    using assms(4) by (simp_all add: covered_def)
  then show ?thesis
    using assms by (intro normal_unique) (simp_all add: unite_loop_normal unite_loop_None_covered)
qed

section \<open>Properties\<close>

text \<open>
  C35. \<open>UniteSegments\<close> on sorted segments succeeds, covers exactly the bytes of its
  input, and returns the one normal form (ascending, separated by gaps, only the
  last segment open-ended) of these bytes: every normal list with the same bytes
  is the result.
\<close>

theorem UniteSegments_normal_form:
  assumes "ValidateSegments ss" "\<forall>s \<in> set ss. seg_ok s"
  shows "\<exists>rs. UniteSegments ss = Inr rs \<and> covered rs = covered ss \<and> normal_segments rs \<and>
           (\<forall>ts. normal_segments ts \<and> covered ts = covered ss \<longrightarrow> ts = rs)"
proof -
  have "sorted (map seg_offset ss)" using assms(1) by (simp add: ValidateSegments_iff)
  then show ?thesis
    using assms normal_unique
    by (auto simp: UniteSegments_def unite_loop_normal unite_loop_None_covered)
qed

theorem UniteSegments_normal_form_witness:
  "\<exists>rs. UniteSegments [mk_segment 4 6, mk_segment 10 5, mk_segment 20 0] = Inr rs \<and>
     covered rs = covered [mk_segment 4 6, mk_segment 10 5, mk_segment 20 0] \<and>
     normal_segments rs \<and>
     (\<forall>ts. normal_segments ts \<and>
        covered ts = covered [mk_segment 4 6, mk_segment 10 5, mk_segment 20 0] \<longrightarrow> ts = rs)"
  by (rule UniteSegments_normal_form) (simp_all add: mk_segment_def seg_ok_def)

text \<open>
  Two data entries with sorted segments compare equal exactly when they name the
  same file and cover the same bytes of it.
\<close>

lemma AreDataEntriesEqual_iff:
  assumes "ValidateSegments (de_parts a)" "ValidateSegments (de_parts b)"
    and "\<forall>s \<in> set (de_parts a) \<union> set (de_parts b). seg_ok s"
  shows "AreDataEntriesEqual a b =
           Inr (de_path a = de_path b \<and> covered (de_parts a) = covered (de_parts b))"
proof -
  have s: "sorted (map seg_offset (de_parts a))" "sorted (map seg_offset (de_parts b))"
    using assms(1,2) by (simp_all add: ValidateSegments_iff)
  have ok: "\<forall>s \<in> set (de_parts a). seg_ok s" "\<forall>s \<in> set (de_parts b). seg_ok s"
    using assms(3) by simp_all
  have "AreDataEntriesEqual a b = Inr (de_path a = de_path b \<and>
      set (unite_loop [] None (de_parts a)) = set (unite_loop [] None (de_parts b)))"
    using assms(1,2) by (simp add: AreDataEntriesEqual_def UniteSegments_def)
  then show ?thesis
    using s ok by (simp add: normal_set_eq_iff unite_loop_normal unite_loop_None_covered)
qed

lemma AreDataEntriesEqual_iff_witness:
  "AreDataEntriesEqual
     \<lparr>de_path = ''a'', de_parts = [mk_segment 4 6, mk_segment 10 5], de_dv = None\<rparr>
     \<lparr>de_path = ''a'', de_parts = [mk_segment 4 11], de_dv = None\<rparr> = Inr True"
proof -
  let ?a = "\<lparr>de_path = ''a'', de_parts = [mk_segment 4 6, mk_segment 10 5], de_dv = None\<rparr>"
  let ?b = "\<lparr>de_path = ''a'', de_parts = [mk_segment 4 11], de_dv = None\<rparr>"
  have "AreDataEntriesEqual ?a ?b =
      Inr (de_path ?a = de_path ?b \<and> covered (de_parts ?a) = covered (de_parts ?b))"
    by (rule AreDataEntriesEqual_iff) (simp_all add: mk_segment_def seg_ok_def)
  then show ?thesis by (auto simp: mk_segment_def seg_bytes_def)
qed

text \<open>
  Adding an entry of the same file to a data entry in place keeps its path and its
  deletion vector and covers the bytes of both entries in normal form.
\<close>

lemma data_entry_add_covers:
  assumes "de_path a = de_path b" "\<forall>s \<in> set (de_parts a) \<union> set (de_parts b). seg_ok s"
  shows "\<exists>c. data_entry_add a b = Inr c \<and> de_path c = de_path a \<and> de_dv c = de_dv a \<and>
           covered (de_parts c) = covered (de_parts a) \<union> covered (de_parts b) \<and>
           normal_segments (de_parts c)"
proof -
  let ?ss = "sort_parts (de_parts a @ de_parts b)"
  have "sorted (map seg_offset ?ss)" "\<forall>s \<in> set ?ss. seg_ok s"
    using assms(2) by (simp_all add: sort_parts_def)
  then show ?thesis
    using assms(1) unite_loop_normal unite_loop_None_covered
    by (simp add: data_entry_add_def UniteSegments_def)
qed

lemma data_entry_add_covers_witness:
  "\<exists>c. data_entry_add
       \<lparr>de_path = ''f'', de_parts = [mk_segment 4 0], de_dv = None\<rparr>
       \<lparr>de_path = ''f'', de_parts = [mk_segment 0 9], de_dv = None\<rparr> = Inr c \<and>
     de_path c = ''f'' \<and> de_dv c = None \<and>
     covered (de_parts c) = covered [mk_segment 4 0] \<union> covered [mk_segment 0 9] \<and>
     normal_segments (de_parts c)"
  using data_entry_add_covers
    [of "\<lparr>de_path = ''f'', de_parts = [mk_segment 4 0], de_dv = None\<rparr>"
        "\<lparr>de_path = ''f'', de_parts = [mk_segment 0 9], de_dv = None\<rparr>"]
  by (simp add: mk_segment_def seg_ok_def)

end
