(* ===== verification/Plan_Layers.thy ===== *)
theory Plan_Layers
  imports Segments
begin

text \<open>
  Layers of a plan (\<open>iceberg/tea_scan.h\<close>): \<open>PositionalDeleteInfo\<close>,
  \<open>EqualityDeleteInfo\<close>, \<open>ScanMetadata::Layer\<close> and the builder's
  \<open>LayerWithExtraInfo\<close>, whose positional deletes carry the range of data file
  paths they refer to.  A partition is a list of layers, oldest first; a delete of
  layer \<open>j\<close> applies to the data of the layers \<open>i \<le> j\<close>.  The specification side is
  the order of items: flattening a partition (per layer the data, then the
  deletes) turns "applies to" into "comes later", which is how the lemmas on
  splitting and on dropping deletes are proved.
\<close>

record pos_delete = pd_path :: string

record eq_delete =
  ed_path :: string
  ed_field_ids :: "int list"

record pos_delete_x =
  pdx_delete :: pos_delete
  pdx_min_max :: "(string \<times> string) option"

record layer_x =
  lx_data :: "data_entry list"
  lx_pos :: "pos_delete_x list"
  lx_eq :: "eq_delete list"
  lx_dv :: "(string \<times> dv_info) list"

record layer =
  l_data :: "data_entry list"
  l_pos :: "pos_delete list"
  l_eq :: "eq_delete list"

definition empty_layer_x :: layer_x where
  "empty_layer_x = \<lparr>lx_data = [], lx_pos = [], lx_eq = [], lx_dv = []\<rparr>"

definition layer_x_Empty :: "layer_x \<Rightarrow> bool" where
  "layer_x_Empty l \<longleftrightarrow> lx_data l = [] \<and> lx_pos l = [] \<and> lx_eq l = [] \<and> lx_dv l = []"

definition layer_Empty :: "layer \<Rightarrow> bool" where
  "layer_Empty l \<longleftrightarrow> l_data l = [] \<and> l_pos l = [] \<and> l_eq l = []"

definition partition_data :: "layer_x list \<Rightarrow> data_entry list" where
  "partition_data p = concat (map lx_data p)"

definition partition_pos :: "layer_x list \<Rightarrow> pos_delete_x list" where
  "partition_pos p = concat (map lx_pos p)"

section \<open>Which delete applies to which data file\<close>

text \<open>
  \<open>applied data deletes p\<close> lists every pair of a data item and a delete item of the
  partition such that the delete stands in the same or a later layer.
\<close>

fun applied :: "('l \<Rightarrow> 'd list) \<Rightarrow> ('l \<Rightarrow> 'x list) \<Rightarrow> 'l list \<Rightarrow> ('d \<times> 'x) list" where
  "applied data dels [] = []"
| "applied data dels (l # ls) =
     List.product (data l) (concat (map dels (l # ls))) @ applied data dels ls"

abbreviation applied_pos_x :: "layer_x list \<Rightarrow> (data_entry \<times> pos_delete_x) list" where
  "applied_pos_x \<equiv> applied lx_data lx_pos"

abbreviation applied_eq_x :: "layer_x list \<Rightarrow> (data_entry \<times> eq_delete) list" where
  "applied_eq_x \<equiv> applied lx_data lx_eq"

abbreviation applied_pos :: "layer list \<Rightarrow> (data_entry \<times> pos_delete) list" where
  "applied_pos \<equiv> applied l_data l_pos"

abbreviation applied_eq :: "layer list \<Rightarrow> (data_entry \<times> eq_delete) list" where
  "applied_eq \<equiv> applied l_data l_eq"

lemma applied_iff:
  "(d, x) \<in> set (applied data dels p) \<longleftrightarrow>
     (\<exists>i j. i \<le> j \<and> j < length p \<and> d \<in> set (data (p ! i)) \<and> x \<in> set (dels (p ! j)))"
proof (induction p)
  case (Cons l ls)
  have "(d, x) \<in> set (applied data dels (l # ls)) \<longleftrightarrow>
      (d \<in> set (data l) \<and> (\<exists>j < length (l # ls). x \<in> set (dels ((l # ls) ! j)))) \<or>
      (\<exists>i j. i \<le> j \<and> j < length ls \<and> d \<in> set (data (ls ! i)) \<and> x \<in> set (dels (ls ! j)))"
    by (simp only: applied.simps set_append Un_iff Cons.IH set_product mem_Sigma_iff
        in_concat_map_nth)
  also have "\<dots> \<longleftrightarrow> (\<exists>i j. i \<le> j \<and> j < length (l # ls) \<and> d \<in> set (data ((l # ls) ! i)) \<and>
      x \<in> set (dels ((l # ls) ! j)))" (is "?L \<longleftrightarrow> ?R")
  proof
    show "?L \<Longrightarrow> ?R" by (metis Suc_le_mono Suc_less_eq length_Cons nth_Cons_0 nth_Cons_Suc zero_le)
  next
    assume ?R
    then obtain i j where ij: "i \<le> j" "j < length (l # ls)" "d \<in> set (data ((l # ls) ! i))"
        "x \<in> set (dels ((l # ls) ! j))" by blast
    show ?L
    proof (cases i)
      case 0
      then show ?thesis using ij by auto
    next
      case (Suc i')
      with ij(1) obtain j' where "j = Suc j'" by (cases j) auto
      then show ?thesis using ij Suc by auto
    qed
  qed
  finally show ?case .
qed simp

lemma applied_no_data: "\<forall>l \<in> set p. data l = [] \<Longrightarrow> applied data dels p = []"
  by (induction p) auto

lemma applied_no_deletes: "\<forall>l \<in> set p. dels l = [] \<Longrightarrow> applied data dels p = []"
proof (induction p)
  case (Cons l ls)
  then have "concat (map dels (l # ls)) = []" by auto
  with Cons show ?case by (simp only: applied.simps) auto
qed simp

lemma applied_filter_layers:
  assumes "\<And>l. l \<in> set p \<Longrightarrow> \<not> keep l \<Longrightarrow> data l = [] \<and> dels l = []"
  shows "applied data dels (filter keep p) = applied data dels p"
  using assms
proof (induction p)
  case (Cons l ls)
  have "concat (map dels (filter keep ls)) = concat (map dels ls)"
    using Cons.prems by (induction ls) auto
  with Cons show ?case by auto
qed simp

section \<open>Item sequences\<close>

datatype ('d, 'x) item = Data 'd | Del 'x

fun items :: "('l \<Rightarrow> 'd list) \<Rightarrow> ('l \<Rightarrow> 'x list) \<Rightarrow> 'l list \<Rightarrow> ('d, 'x) item list" where
  "items data dels [] = []"
| "items data dels (l # ls) = map Data (data l) @ map Del (dels l) @ items data dels ls"

fun item_dels :: "('d, 'x) item list \<Rightarrow> 'x list" where
  "item_dels [] = []"
| "item_dels (Data d # s) = item_dels s"
| "item_dels (Del x # s) = x # item_dels s"

fun item_datas :: "('d, 'x) item list \<Rightarrow> 'd list" where
  "item_datas [] = []"
| "item_datas (Data d # s) = d # item_datas s"
| "item_datas (Del x # s) = item_datas s"

fun later :: "('d, 'x) item list \<Rightarrow> ('d \<times> 'x) list" where
  "later [] = []"
| "later (Data d # s) = map (Pair d) (item_dels s) @ later s"
| "later (Del x # s) = later s"

lemma item_dels_append [simp]: "item_dels (s @ t) = item_dels s @ item_dels t"
  by (induction s rule: item_dels.induct) auto

lemma item_datas_append [simp]: "item_datas (s @ t) = item_datas s @ item_datas t"
  by (induction s rule: item_datas.induct) auto

lemma item_dels_map [simp]: "item_dels (map Del xs) = xs" "item_dels (map Data ds) = []"
  by (induction xs) (auto, induction ds, auto)

lemma item_datas_map [simp]: "item_datas (map Del xs) = []" "item_datas (map Data ds) = ds"
  by (induction xs) (auto, induction ds, auto)

lemma items_append: "items data dels (p @ q) = items data dels p @ items data dels q"
  by (induction p) auto

lemma item_dels_items [simp]: "item_dels (items data dels p) = concat (map dels p)"
  by (induction p) auto

lemma item_datas_items [simp]: "item_datas (items data dels p) = concat (map data p)"
  by (induction p) auto

lemma Data_in_items [simp]: "Data d \<in> set (items data dels p) \<longleftrightarrow> d \<in> set (concat (map data p))"
  by (induction p) auto

lemma Del_in_items [simp]: "Del x \<in> set (items data dels p) \<longleftrightarrow> x \<in> set (concat (map dels p))"
  by (induction p) auto

lemma later_Dels [simp]: "later (map Del xs @ s) = later s"
  by (induction xs) auto

lemma later_Datas: "later (map Data ds @ s) = List.product ds (item_dels s) @ later s"
  by (induction ds) (auto simp: product_concat_map)

lemma later_items: "later (items data dels p) = applied data dels p"
  by (induction p) (auto simp: later_Datas)

text \<open>
  Splitting a sequence by a class of its items loses no pair whose two items have
  the same class, and creates none.
\<close>

lemma item_dels_filter:
  "item_dels (filter P s) = filter (\<lambda>x. P (Del x)) (item_dels s)"
  by (induction s rule: item_dels.induct) auto

lemma item_datas_filter:
  "item_datas (filter P s) = filter (\<lambda>d. P (Data d)) (item_datas s)"
  by (induction s rule: item_datas.induct) auto

lemma later_split_class:
  fixes cls :: "('d, 'x) item \<Rightarrow> nat"
  assumes "\<And>d x. R d x \<Longrightarrow> Data d \<in> set s \<Longrightarrow> Del x \<in> set s \<Longrightarrow> cls (Data d) = cls (Del x)"
    and "\<And>it. it \<in> set s \<Longrightarrow> cls it < n"
  shows "(\<Sum>g<n. filter_mset (\<lambda>(d, x). R d x) (mset (later (filter (\<lambda>it. cls it = g) s))))
       = filter_mset (\<lambda>(d, x). R d x) (mset (later s))"
  using assms
proof (induction s rule: later.induct)
  case (2 d s)
  let ?F = "filter_mset (\<lambda>(d, x). R d x)"
  let ?h = "\<lambda>g. if cls (Data d) = g then
      mset (map (Pair d) (filter (\<lambda>x. cls (Del x) = g \<and> R d x) (item_dels s))) else {#}"
  have step: "?F (mset (later (filter (\<lambda>it. cls it = g) (Data d # s)))) =
      ?h g + ?F (mset (later (filter (\<lambda>it. cls it = g) s)))" for g
    by (auto simp: item_dels_filter filter_mset_image_mset mset_map mset_filter
        filter_filter_mset comp_def conj_commute intro!: arg_cong [where f = "image_mset (Pair d)"]
        filter_mset_cong)
  have rel: "x \<in> set (item_dels s) \<Longrightarrow> R d x \<Longrightarrow> cls (Del x) = cls (Data d)" for x
  proof -
    assume "x \<in> set (item_dels s)" "R d x"
    then have "Del x \<in> set s" by (induction s rule: item_dels.induct) auto
    then show "cls (Del x) = cls (Data d)"
      using 2(2) [of d x] \<open>R d x\<close> by simp
  qed
  have "(\<Sum>g<n. ?h g) = mset (map (Pair d) (filter (\<lambda>x. cls (Del x) = cls (Data d) \<and> R d x) (item_dels s)))"
    using 2(3) by (simp add: sum.delta')
  also have "filter (\<lambda>x. cls (Del x) = cls (Data d) \<and> R d x) (item_dels s) = filter (R d) (item_dels s)"
    using rel by (intro filter_cong) auto
  finally have here: "(\<Sum>g<n. ?h g) = ?F (mset (map (Pair d) (item_dels s)))"
    by (simp add: filter_mset_image_mset comp_def)
  have "(\<Sum>g<n. ?F (mset (later (filter (\<lambda>it. cls it = g) (Data d # s))))) =
      (\<Sum>g<n. ?h g) + (\<Sum>g<n. ?F (mset (later (filter (\<lambda>it. cls it = g) s))))"
    unfolding step by (rule sum.distrib)
  also have "\<dots> = ?F (mset (later (Data d # s)))"
    using 2 here by simp
  finally show ?case .
next
  case (3 x s)
  have "later (filter (\<lambda>it. cls it = g) (Del x # s)) = later (filter (\<lambda>it. cls it = g) s)" for g
    by simp
  with 3 show ?case by simp
qed simp

lemma set_later_filter_subset: "set (later (filter P s)) \<subseteq> set (later s)"
  by (induction s rule: later.induct) (auto simp: item_dels_filter)

end
