(* ===== verification/Delete_Buckets.thy ===== *)
theory Delete_Buckets
  imports Plan_Layers "HOL-Library.Product_Lexorder"
begin

text \<open>
  The scanline optimizer \<open>PositonalDeleteOptimizer\<close> of \<open>iceberg/tea_scan.cpp\<close>,
  which splits a partition into buckets so that a positional delete shares its
  bucket with every data file its path range covers.  The lemmas show that the scan
  never trips its internal checks when every range is ordered, that no bucket
  boundary falls inside a range, and that the split keeps exactly the pairs of data
  file and covering delete.
\<close>

section \<open>Events\<close>

datatype event_type = kStartPositionalDelete | kDataFile | kEndPositionalDelete

fun event_rank :: "event_type \<Rightarrow> nat" where
  "event_rank kStartPositionalDelete = 0"
| "event_rank kDataFile = 1"
| "event_rank kEndPositionalDelete = 2"

lemma event_rank_inject [simp]: "event_rank a = event_rank b \<longleftrightarrow> a = b"
  by (cases a; cases b) simp_all

instantiation event_type :: linorder
begin

definition less_eq_event_type :: "event_type \<Rightarrow> event_type \<Rightarrow> bool" where
  "a \<le> b \<longleftrightarrow> event_rank a \<le> event_rank b"

definition less_event_type :: "event_type \<Rightarrow> event_type \<Rightarrow> bool" where
  "a < b \<longleftrightarrow> event_rank a < event_rank b"

instance
  by standard (auto simp: less_eq_event_type_def less_event_type_def)

end


lemmas event_type_order = less_eq_event_type_def less_event_type_def

text \<open>\<open>Event::operator<\<close> compares the path, then the type: the order of pairs.\<close>

type_synonym event = "string \<times> event_type"

definition CreateFromDelete :: "pos_delete_x \<Rightarrow> (event \<times> event) result" where
  "CreateFromDelete del = (case pdx_min_max del of
     None \<Rightarrow> Inl (Runtime_error ''internal error'')
   | Some (mn, mx) \<Rightarrow> Inr ((mn, kStartPositionalDelete), (mx, kEndPositionalDelete)))"

definition CreateFromData :: "data_entry \<Rightarrow> event" where
  "CreateFromData d = (de_path d, kDataFile)"

definition GetEventsInPartition :: "layer_x list \<Rightarrow> event list result" where
  "GetEventsInPartition part =
     foldE (\<lambda>layer events.
       bindE (foldE (\<lambda>del evs. bindE (CreateFromDelete del) (\<lambda>(st, en). Inr (evs @ [st, en])))
                (lx_pos layer) events)
         (\<lambda>evs. Inr (evs @ map CreateFromData (lx_data layer))))
       part []"

fun scan_events :: "event list \<Rightarrow> nat \<Rightarrow> string list \<Rightarrow> string list result" where
  "scan_events [] balance bounds =
     bindE (ensure (balance = 0) ''internal error'') (\<lambda>_. Inr bounds)"
| "scan_events ((path, t) # es) balance bounds =
     (let bounds' = (if balance = 0 then bounds @ [path] else bounds)
      in case t of
           kStartPositionalDelete \<Rightarrow> scan_events es (balance + 1) bounds'
         | kDataFile \<Rightarrow> scan_events es balance bounds'
         | kEndPositionalDelete \<Rightarrow>
             bindE (ensure (balance > 0) ''internal error'')
               (\<lambda>_. scan_events es (balance - 1) bounds'))"

definition FindBucketLowerBounds :: "layer_x list \<Rightarrow> string list result" where
  "FindBucketLowerBounds part =
     bindE (GetEventsInPartition part) (\<lambda>events. scan_events (sort events) 0 [])"

text \<open>\<open>std::upper_bound\<close> on a sorted range: the position of the first greater element.\<close>

definition upper_bound :: "'a::linorder list \<Rightarrow> 'a \<Rightarrow> nat" where
  "upper_bound xs v = length (takeWhile (\<lambda>x. x \<le> v) xs)"

definition CalculateBucketByPath :: "string list \<Rightarrow> string \<Rightarrow> nat result" where
  "CalculateBucketByPath bounds path =
     (let it = upper_bound bounds path
      in bindE (ensure (it \<noteq> 0) ''internal error'') (\<lambda>_. Inr (it - 1)))"

definition AppendDataFileToBucket :: "layer_x list \<Rightarrow> data_entry \<Rightarrow> layer_x list" where
  "AppendDataFileToBucket bucket d =
     (let bucket' = (if bucket = [] \<or> lx_pos (last bucket) \<noteq> [] then bucket @ [empty_layer_x]
                     else bucket);
          back = last bucket'
      in butlast bucket' @ [back\<lparr>lx_data := lx_data back @ [d]\<rparr>])"

definition AppendDeleteFileToBucket :: "layer_x list \<Rightarrow> pos_delete_x \<Rightarrow> layer_x list" where
  "AppendDeleteFileToBucket bucket del =
     (let bucket' = (if bucket = [] then bucket @ [empty_layer_x] else bucket);
          back = last bucket'
      in butlast bucket' @ [back\<lparr>lx_pos := lx_pos back @ [del]\<rparr>])"

definition redistribute_data ::
  "string list \<Rightarrow> data_entry \<Rightarrow> layer_x list list \<Rightarrow> layer_x list list result" where
  "redistribute_data bounds d parts =
     bindE (CalculateBucketByPath bounds (de_path d)) (\<lambda>g.
       Inr (parts[g := AppendDataFileToBucket (parts ! g) d]))"

definition redistribute_delete ::
  "string list \<Rightarrow> pos_delete_x \<Rightarrow> layer_x list list \<Rightarrow> layer_x list list result" where
  "redistribute_delete bounds del parts = (case pdx_min_max del of
     None \<Rightarrow> Inl Bad_optional_access
   | Some (mn, mx) \<Rightarrow>
       bindE (CalculateBucketByPath bounds mn) (\<lambda>b1.
       bindE (CalculateBucketByPath bounds mx) (\<lambda>b2.
       bindE (ensure (b1 = b2) ''internal error'') (\<lambda>_.
         Inr (parts[b1 := AppendDeleteFileToBucket (parts ! b1) del])))))"

definition RedistributeDataIntoBuckets ::
  "string list \<Rightarrow> layer_x list \<Rightarrow> layer_x list list result" where
  "RedistributeDataIntoBuckets bounds part =
     foldE (\<lambda>layer parts.
       bindE (foldE (redistribute_data bounds) (lx_data layer) parts)
         (foldE (redistribute_delete bounds) (lx_pos layer)))
       part (replicate (length bounds) [])"

definition CanOptimizePartition :: "layer_x list \<Rightarrow> bool" where
  "CanOptimizePartition p =
     (let has_positional_delete = (\<exists>l \<in> set p. lx_pos l \<noteq> []);
          has_positional_delete_without_stats =
            (\<exists>l \<in> set p. \<exists>x \<in> set (lx_pos l). pdx_min_max x = None);
          has_equality_delete = (\<exists>l \<in> set p. lx_eq l \<noteq> [])
      in has_positional_delete \<and> \<not> has_positional_delete_without_stats \<and> \<not> has_equality_delete)"

definition OptimizePartition :: "layer_x list \<Rightarrow> layer_x list list result" where
  "OptimizePartition part =
     bindE (FindBucketLowerBounds part) (\<lambda>bounds. RedistributeDataIntoBuckets bounds part)"

definition CanOptimize :: "layer_x list list \<Rightarrow> bool" where
  "CanOptimize partitions = (\<exists>p \<in> set partitions. CanOptimizePartition p)"

definition Optimize :: "layer_x list list \<Rightarrow> layer_x list list result" where
  "Optimize partitions =
     foldE (\<lambda>part result.
       if CanOptimizePartition part then
         bindE (OptimizePartition part) (\<lambda>new_partitions. Inr (result @ new_partitions))
       else Inr (result @ [part]))
       partitions []"

section \<open>Ranges\<close>

definition range_of :: "pos_delete_x \<Rightarrow> string \<times> string" where
  "range_of x = the (pdx_min_max x)"

definition range_ok :: "pos_delete_x \<Rightarrow> bool" where
  "range_ok x = (case pdx_min_max x of None \<Rightarrow> False | Some (mn, mx) \<Rightarrow> mn \<le> mx)"

text \<open>The data files a delete may refer to, by its path range.\<close>

definition covers :: "pos_delete_x \<Rightarrow> string \<Rightarrow> bool" where
  "covers x p = (case pdx_min_max x of None \<Rightarrow> True | Some (mn, mx) \<Rightarrow> mn \<le> p \<and> p \<le> mx)"

definition delete_events :: "pos_delete_x list \<Rightarrow> event list" where
  "delete_events xs = map (\<lambda>x. (fst (range_of x), kStartPositionalDelete)) xs @
                      map (\<lambda>x. (snd (range_of x), kEndPositionalDelete)) xs"

lemma create_events_fold:
  "\<forall>x \<in> set xs. range_ok x \<Longrightarrow>
   \<exists>evs'. foldE (\<lambda>del evs. bindE (CreateFromDelete del) (\<lambda>(st, en). Inr (evs @ [st, en]))) xs evs
      = Inr evs' \<and> mset evs' = mset evs + mset (delete_events xs)"
proof (induction xs arbitrary: evs)
  case (Cons x xs)
  obtain mn mx where r: "pdx_min_max x = Some (mn, mx)"
    using Cons.prems by (auto simp: range_ok_def split: option.splits)
  then show ?case
    using Cons.IH [of "evs @ [(mn, kStartPositionalDelete), (mx, kEndPositionalDelete)]"] Cons.prems
    by (auto simp: CreateFromDelete_def delete_events_def range_of_def)
qed (simp add: delete_events_def)

lemma GetEventsInPartition_ok:
  assumes "\<forall>x \<in> set (partition_pos p). range_ok x"
  shows "\<exists>evs. GetEventsInPartition p = Inr evs \<and>
     mset evs = mset (delete_events (partition_pos p)) + mset (map CreateFromData (partition_data p))"
proof -
  have "\<exists>evs. foldE (\<lambda>layer events.
       bindE (foldE (\<lambda>del evs. bindE (CreateFromDelete del) (\<lambda>(st, en). Inr (evs @ [st, en])))
                (lx_pos layer) events)
         (\<lambda>evs. Inr (evs @ map CreateFromData (lx_data layer)))) p acc = Inr evs \<and>
     mset evs = mset acc + mset (delete_events (partition_pos p)) +
       mset (map CreateFromData (partition_data p))" for acc
    using assms
  proof (induction p arbitrary: acc)
    case (Cons l ls)
    obtain e1 where e1: "foldE (\<lambda>del evs. bindE (CreateFromDelete del) (\<lambda>(st, en). Inr (evs @ [st, en])))
        (lx_pos l) acc = Inr e1" "mset e1 = mset acc + mset (delete_events (lx_pos l))"
      using create_events_fold [of "lx_pos l" acc] Cons.prems by (auto simp: partition_pos_def)
    have "mset (delete_events (partition_pos (l # ls))) =
        mset (delete_events (lx_pos l)) + mset (delete_events (partition_pos ls))"
      by (simp add: delete_events_def partition_pos_def)
    then show ?case
      using Cons.IH [of "e1 @ map CreateFromData (lx_data l)"] Cons.prems e1
      by (auto simp: partition_pos_def partition_data_def)
  qed (simp add: delete_events_def partition_pos_def partition_data_def)
  from this [of "[]"] show ?thesis by (simp add: GetEventsInPartition_def)
qed

section \<open>The balance of the scan\<close>

definition ev_start :: "pos_delete_x \<Rightarrow> event" where
  "ev_start x = (fst (range_of x), kStartPositionalDelete)"

definition ev_end :: "pos_delete_x \<Rightarrow> event" where
  "ev_end x = (snd (range_of x), kEndPositionalDelete)"

definition n_start :: "event list \<Rightarrow> nat" where
  "n_start es = length (filter (\<lambda>e. snd e = kStartPositionalDelete) es)"

definition n_end :: "event list \<Rightarrow> nat" where
  "n_end es = length (filter (\<lambda>e. snd e = kEndPositionalDelete) es)"

text \<open>The events of deletes \<open>xs\<close> with ordered ranges and of data files, sorted.\<close>

definition events_of :: "pos_delete_x list \<Rightarrow> data_entry list \<Rightarrow> event list \<Rightarrow> bool" where
  "events_of xs ds evs \<longleftrightarrow> sorted evs \<and> (\<forall>x \<in> set xs. range_ok x) \<and>
     mset evs = mset (delete_events xs) + mset (map CreateFromData ds)"

lemma ev_start_less_end: "range_ok x \<Longrightarrow> ev_start x < ev_end x"
  by (auto simp: range_ok_def ev_start_def ev_end_def range_of_def less_prod_def event_type_order
      split: option.splits)

lemma length_filter_mset: "length (filter P xs) = size (filter_mset P (mset xs))"
  by (metis mset_filter size_mset)

lemma length_filter_le_imp:
  "(\<And>x. x \<in> set xs \<Longrightarrow> P x \<Longrightarrow> Q x) \<Longrightarrow> length (filter P xs) \<le> length (filter Q xs)"
  by (induction xs) (auto simp: le_SucI)

lemma length_filter_less_imp:
  assumes "\<And>x. x \<in> set xs \<Longrightarrow> P x \<Longrightarrow> Q x" "y \<in> set xs" "Q y" "\<not> P y"
  shows "length (filter P xs) < length (filter Q xs)"
  using assms
proof (induction xs)
  case (Cons z zs)
  then have "length (filter P zs) \<le> length (filter Q zs)"
    by (intro length_filter_le_imp) auto
  with Cons show ?case by (cases "z = y") auto
qed simp

lemma count_starts:
  "events_of xs ds evs \<Longrightarrow>
   length (filter (\<lambda>v. snd v = kStartPositionalDelete \<and> Q v) evs) = length (filter (\<lambda>x. Q (ev_start x)) xs)"
  unfolding length_filter_mset events_of_def delete_events_def ev_start_def CreateFromData_def
  by (simp add: filter_mset_image_mset comp_def)

lemma count_ends:
  "events_of xs ds evs \<Longrightarrow>
   length (filter (\<lambda>v. snd v = kEndPositionalDelete \<and> Q v) evs) = length (filter (\<lambda>x. Q (ev_end x)) xs)"
  unfolding length_filter_mset events_of_def delete_events_def ev_end_def CreateFromData_def
  by (simp add: filter_mset_image_mset comp_def)

lemma sorted_prefix_less:
  "sorted (pre @ e # post) \<Longrightarrow> v \<in> set (pre @ e # post) \<Longrightarrow> v < e \<Longrightarrow> v \<in> set pre"
  by (auto simp: sorted_append)

lemma starts_before:
  assumes "events_of xs ds (pre @ e # post)"
  shows "length (filter (\<lambda>x. ev_start x < e) xs) \<le> n_start pre"
proof -
  have "filter (\<lambda>v. snd v = kStartPositionalDelete \<and> v < e) (e # post) = []"
    using assms by (auto simp: events_of_def sorted_append filter_empty_conv)
  then have "length (filter (\<lambda>x. ev_start x < e) xs) =
      length (filter (\<lambda>v. snd v = kStartPositionalDelete \<and> v < e) pre)"
    using count_starts [OF assms, of "\<lambda>v. v < e"] by (simp only: filter_append append_Nil2)
  also have "\<dots> \<le> n_start pre"
    unfolding n_start_def by (rule length_filter_le_imp) simp
  finally show ?thesis .
qed

lemma ends_before:
  assumes "events_of xs ds (pre @ post)" "\<forall>v \<in> set pre. v \<le> l"
  shows "n_end pre \<le> length (filter (\<lambda>x. ev_end x \<le> l) xs)"
proof -
  have "n_end pre \<le> length (filter (\<lambda>v. snd v = kEndPositionalDelete \<and> v \<le> l) pre)"
    unfolding n_end_def using assms(2) by (intro length_filter_le_imp) simp
  also have "\<dots> \<le> length (filter (\<lambda>v. snd v = kEndPositionalDelete \<and> v \<le> l) (pre @ post))"
    by simp
  finally show ?thesis
    using count_ends [OF assms(1), of "\<lambda>v. v \<le> l"] by simp
qed

lemma balance_nonneg:
  assumes "events_of xs ds (pre @ post)"
  shows "n_end pre \<le> n_start pre"
proof (cases pre rule: rev_cases)
  case (snoc pre' l)
  have le: "\<forall>v \<in> set pre. v \<le> l"
    using assms snoc by (auto simp: events_of_def sorted_append)
  have "n_end pre \<le> length (filter (\<lambda>x. ev_end x \<le> l) xs)"
    by (rule ends_before [OF assms le])
  also have "\<dots> \<le> length (filter (\<lambda>x. ev_start x < l) xs)"
    using assms ev_start_less_end
    by (intro length_filter_le_imp) (auto simp: events_of_def dest: less_le_trans)
  also have "\<dots> \<le> n_start pre'"
    using starts_before [of xs ds pre' l post] assms snoc by simp
  finally show ?thesis using snoc by (simp add: n_start_def)
qed (simp add: n_end_def)

lemma balance_at_end:
  assumes "events_of xs ds (pre @ e # post)" "snd e = kEndPositionalDelete"
  shows "n_end pre < n_start pre"
  using balance_nonneg [of xs ds "pre @ [e]" post] assms by (simp add: n_end_def n_start_def)

text \<open>No range is active where the balance is zero: a boundary is never inside a range.\<close>

lemma zero_balance_outside_ranges:
  assumes ev: "events_of xs ds (pre @ e # post)" and zero: "n_start pre = n_end pre"
    and x: "x \<in> set xs" "fst (range_of x) < fst e"
  shows "snd (range_of x) < fst e"
proof (rule ccontr)
  assume "\<not> snd (range_of x) < fst e"
  then have inside: "fst e \<le> snd (range_of x)" by simp
  have not_end: "snd e \<noteq> kEndPositionalDelete"
    using balance_at_end [OF ev] zero by auto
  have "\<forall>v \<in> set pre. v \<le> e"
    using ev by (auto simp: events_of_def sorted_append)
  then have "n_end pre \<le> length (filter (\<lambda>y. ev_end y \<le> e) xs)"
    by (rule ends_before [OF ev])
  also have "\<dots> < length (filter (\<lambda>y. ev_start y < e) xs)"
  proof (rule length_filter_less_imp)
    show "x \<in> set xs" by (rule x(1))
    show "ev_start x < e" using x(2) by (simp add: ev_start_def less_prod_def)
    show "\<not> ev_end x \<le> e"
      using inside not_end
      by (cases "snd e") (auto simp: ev_end_def less_eq_prod_def event_type_order)
    show "ev_start y < e" if "y \<in> set xs" "ev_end y \<le> e" for y
      using that ev ev_start_less_end by (meson events_of_def less_le_trans)
  qed
  also have "\<dots> \<le> n_start pre" by (rule starts_before [OF ev])
  finally show False using zero by simp
qed

section \<open>The boundaries\<close>

lemma n_start_snoc [simp]:
  "n_start (es @ [e]) = n_start es + (if snd e = kStartPositionalDelete then 1 else 0)"
  by (simp add: n_start_def)

lemma n_end_snoc [simp]:
  "n_end (es @ [e]) = n_end es + (if snd e = kEndPositionalDelete then 1 else 0)"
  by (simp add: n_end_def)

lemma scan_events_step:
  assumes "events_of xs ds (pre @ (path, t) # es)"
  shows "scan_events ((path, t) # es) (n_start pre - n_end pre) acc =
     scan_events es (n_start (pre @ [(path, t)]) - n_end (pre @ [(path, t)]))
       (if n_start pre = n_end pre then acc @ [path] else acc)"
proof -
  have "n_end pre \<le> n_start pre" by (rule balance_nonneg [OF assms])
  moreover have "t = kEndPositionalDelete \<Longrightarrow> n_end pre < n_start pre"
    using balance_at_end [OF assms] by simp
  ultimately show ?thesis by (cases t) (auto simp: Suc_diff_le)
qed

definition boundary :: "event list \<Rightarrow> string \<Rightarrow> bool" where
  "boundary evs b \<longleftrightarrow> (\<exists>pre e post. evs = pre @ e # post \<and> fst e = b \<and> n_start pre = n_end pre)"

lemma scan_events_ok:
  assumes "events_of xs ds (pre @ es)"
  shows "\<exists>ns. scan_events es (n_start pre - n_end pre) acc = Inr (acc @ ns) \<and> sorted ns \<and>
     set ns \<subseteq> fst ` set es \<and> (\<forall>b \<in> set ns. boundary (pre @ es) b) \<and>
     (es \<noteq> [] \<and> n_start pre = n_end pre \<longrightarrow> ns \<noteq> [] \<and> hd ns = fst (hd es))"
  using assms
proof (induction es arbitrary: pre acc)
  case Nil
  then have "n_start pre = n_end pre"
    using count_starts [of xs ds pre "\<lambda>_. True"] count_ends [of xs ds pre "\<lambda>_. True"]
    by (simp add: n_start_def n_end_def)
  then show ?case by simp
next
  case (Cons e es)
  obtain path t where e: "e = (path, t)" by (cases e)
  let ?z = "n_start pre = n_end pre"
  have ev': "events_of xs ds ((pre @ [e]) @ es)" using Cons.prems by simp
  obtain ns where ns: "scan_events es (n_start (pre @ [e]) - n_end (pre @ [e]))
      (if ?z then acc @ [path] else acc) = Inr ((if ?z then acc @ [path] else acc) @ ns)"
      "sorted ns" "set ns \<subseteq> fst ` set es" "\<forall>b \<in> set ns. boundary ((pre @ [e]) @ es) b"
    using Cons.IH [OF ev'] by blast
  have scan: "scan_events (e # es) (n_start pre - n_end pre) acc =
      Inr (acc @ (if ?z then path # ns else ns))"
    using scan_events_step [of xs ds pre path t es acc] Cons.prems ns(1) e by simp
  have "\<forall>v \<in> set es. e \<le> v" using Cons.prems by (simp add: events_of_def sorted_append)
  then have "\<forall>b \<in> set ns. path \<le> b"
    using ns(3) e by (force simp: less_eq_prod_def)
  moreover have "boundary (pre @ e # es) path" if ?z
    using that e by (auto simp: boundary_def)
  ultimately show ?case
    using scan ns e by (intro exI [of _ "if ?z then path # ns else ns"]) auto
qed

lemma fst_mono_event: "(e :: event) \<le> v \<Longrightarrow> fst e \<le> fst v"
  by (auto simp: less_eq_prod_def)

text \<open>
  What the redistribution needs of the boundaries: they are sorted, none lies inside a
  range, and every path of the partition has a boundary at or below it.
\<close>

definition bounds_ok :: "layer_x list \<Rightarrow> string list \<Rightarrow> bool" where
  "bounds_ok p bs \<longleftrightarrow> sorted bs \<and>
     (\<forall>x \<in> set (partition_pos p). \<forall>b \<in> set bs.
        fst (range_of x) < b \<longrightarrow> snd (range_of x) < b) \<and>
     (\<forall>d \<in> set (partition_data p). \<exists>b \<in> set bs. b \<le> de_path d) \<and>
     (\<forall>x \<in> set (partition_pos p). \<exists>b \<in> set bs. b \<le> fst (range_of x))"

lemma FindBucketLowerBounds_ok:
  assumes "\<forall>x \<in> set (partition_pos p). range_ok x"
  shows "\<exists>bs. FindBucketLowerBounds p = Inr bs \<and> bounds_ok p bs"
proof -
  obtain evs where evs: "GetEventsInPartition p = Inr evs"
      "mset evs = mset (delete_events (partition_pos p)) + mset (map CreateFromData (partition_data p))"
    using GetEventsInPartition_ok [OF assms] by blast
  let ?es = "sort evs"
  have ev: "events_of (partition_pos p) (partition_data p) ([] @ ?es)"
    using assms evs(2) by (simp add: events_of_def)
  obtain bs where bs: "scan_events ?es 0 [] = Inr bs" "sorted bs"
      "\<forall>b \<in> set bs. boundary ?es b" "?es \<noteq> [] \<longrightarrow> bs \<noteq> [] \<and> hd bs = fst (hd ?es)"
    using scan_events_ok [OF ev, of "[]"] by (auto simp: n_start_def n_end_def)
  have below: "\<exists>b \<in> set bs. b \<le> fst e" if "e \<in> set evs" for e
  proof -
    have "?es \<noteq> []" using that by (metis empty_iff list.set(1) set_sort)
    moreover have "\<forall>v \<in> set ?es. hd ?es \<le> v"
      using \<open>?es \<noteq> []\<close> by (metis list.collapse order_refl set_ConsD sorted_simps(2) sorted_sort)
    ultimately have "fst (hd ?es) \<le> fst e" using that by (simp add: fst_mono_event)
    with bs(4) \<open>?es \<noteq> []\<close> show ?thesis by (metis list.set_sel(1))
  qed
  have mem: "set evs = set (delete_events (partition_pos p)) \<union> CreateFromData ` set (partition_data p)"
    using arg_cong [OF evs(2), of set_mset] by simp
  have "snd (range_of x) < b"
    if "x \<in> set (partition_pos p)" "b \<in> set bs" "fst (range_of x) < b" for x b
    using that bs(3) ev zero_balance_outside_ranges by (fastforce simp: boundary_def)
  moreover have "\<exists>b \<in> set bs. b \<le> de_path d" if "d \<in> set (partition_data p)" for d
    using below [of "CreateFromData d"] that mem by (simp add: CreateFromData_def)
  moreover have "\<exists>b \<in> set bs. b \<le> fst (range_of x)" if "x \<in> set (partition_pos p)" for x
    using below [of "(fst (range_of x), kStartPositionalDelete)"] that mem
    by (simp add: delete_events_def)
  ultimately show ?thesis
    using evs(1) bs(1,2) by (simp add: FindBucketLowerBounds_def bounds_ok_def)
qed

section \<open>Buckets\<close>

definition bucket_of :: "string list \<Rightarrow> string \<Rightarrow> nat" where
  "bucket_of bs v = upper_bound bs v - 1"

fun item_bucket :: "string list \<Rightarrow> (data_entry, pos_delete_x) item \<Rightarrow> nat" where
  "item_bucket bs (Data d) = bucket_of bs (de_path d)"
| "item_bucket bs (Del x) = bucket_of bs (fst (range_of x))"

lemma upper_bound_filter: "sorted xs \<Longrightarrow> upper_bound xs v = length (filter (\<lambda>x. x \<le> v) xs)"
  unfolding upper_bound_def
proof (induction xs)
  case (Cons x xs)
  then show ?case by (cases "x \<le> v") (auto simp: filter_empty_conv)
qed simp

lemma upper_bound_same:
  assumes "sorted bs" "lo \<le> v" "v \<le> hi" "\<forall>b \<in> set bs. lo < b \<longrightarrow> hi < b"
  shows "upper_bound bs v = upper_bound bs lo"
proof -
  have "filter (\<lambda>b. b \<le> v) bs = filter (\<lambda>b. b \<le> lo) bs"
    using assms(2-4) by (intro filter_cong refl) (meson leD leI order_trans)
  then show ?thesis using assms(1) by (simp add: upper_bound_filter)
qed

lemma upper_bound_pos: "sorted bs \<Longrightarrow> b \<in> set bs \<Longrightarrow> b \<le> v \<Longrightarrow> 0 < upper_bound bs v"
  by (auto simp: upper_bound_filter filter_empty_conv)

lemma upper_bound_le_length: "upper_bound bs v \<le> length bs"
  by (simp add: upper_bound_def length_takeWhile_le)

lemma CalculateBucketByPath_ok:
  assumes "sorted bs" "b \<in> set bs" "b \<le> v"
  shows "CalculateBucketByPath bs v = Inr (bucket_of bs v) \<and> bucket_of bs v < length bs"
  using upper_bound_pos [OF assms] upper_bound_le_length [of bs v]
  by (simp add: CalculateBucketByPath_def bucket_of_def Let_def)

lemma items_AppendDataFileToBucket [simp]:
  "items lx_data lx_pos (AppendDataFileToBucket b d) = items lx_data lx_pos b @ [Data d]"
  by (cases b rule: rev_cases)
    (auto simp: AppendDataFileToBucket_def items_append empty_layer_x_def butlast_append)

lemma items_AppendDeleteFileToBucket [simp]:
  "items lx_data lx_pos (AppendDeleteFileToBucket b x) = items lx_data lx_pos b @ [Del x]"
  by (cases b rule: rev_cases)
    (auto simp: AppendDeleteFileToBucket_def items_append empty_layer_x_def butlast_append)

text \<open>
  The state of the redistribution after the items \<open>s\<close>: bucket \<open>g\<close> holds the items of
  class \<open>g\<close>, in their order, and no equality delete.
\<close>

definition buckets_hold ::
  "string list \<Rightarrow> (data_entry, pos_delete_x) item list \<Rightarrow> layer_x list list \<Rightarrow> bool" where
  "buckets_hold bs s parts \<longleftrightarrow> length parts = length bs \<and>
     (\<forall>g < length bs. items lx_data lx_pos (parts ! g) = filter (\<lambda>it. item_bucket bs it = g) s) \<and>
     (\<forall>q \<in> set parts. \<forall>l \<in> set q. lx_eq l = [])"

lemma no_eq_AppendData:
  "\<forall>l \<in> set b. lx_eq l = [] \<Longrightarrow> \<forall>l \<in> set (AppendDataFileToBucket b d). lx_eq l = []"
  by (cases b rule: rev_cases)
    (auto simp: AppendDataFileToBucket_def empty_layer_x_def butlast_append)

lemma no_eq_AppendDelete:
  "\<forall>l \<in> set b. lx_eq l = [] \<Longrightarrow> \<forall>l \<in> set (AppendDeleteFileToBucket b x). lx_eq l = []"
  by (cases b rule: rev_cases)
    (auto simp: AppendDeleteFileToBucket_def empty_layer_x_def butlast_append)

lemma buckets_hold_update:
  assumes "buckets_hold bs s parts" "item_bucket bs it = g" "g < length bs"
    and "items lx_data lx_pos b = items lx_data lx_pos (parts ! g) @ [it]"
    and "\<forall>l \<in> set b. lx_eq l = []"
  shows "buckets_hold bs (s @ [it]) (parts[g := b])"
proof -
  have "\<forall>q \<in> set (parts[g := b]). \<forall>l \<in> set q. lx_eq l = []"
    using assms(1,5) set_update_subset_insert [of parts g b] by (auto simp: buckets_hold_def)
  then show ?thesis
    using assms by (auto simp: buckets_hold_def nth_list_update)
qed

lemma redistribute_data_step:
  assumes "bounds_ok p bs" "buckets_hold bs s parts" "d \<in> set (partition_data p)"
  shows "\<exists>parts'. redistribute_data bs d parts = Inr parts' \<and> buckets_hold bs (s @ [Data d]) parts'"
proof -
  let ?g = "bucket_of bs (de_path d)"
  have g: "CalculateBucketByPath bs (de_path d) = Inr ?g" "?g < length bs"
    using assms(1,3) CalculateBucketByPath_ok by (auto simp: bounds_ok_def)
  then have "\<forall>l \<in> set (parts ! ?g). lx_eq l = []"
    using assms(2) by (metis buckets_hold_def nth_mem)
  then have "buckets_hold bs (s @ [Data d]) (parts[?g := AppendDataFileToBucket (parts ! ?g) d])"
    using assms(2) g(2) by (intro buckets_hold_update no_eq_AppendData) simp_all
  then show ?thesis using g(1) by (simp add: redistribute_data_def)
qed

lemma redistribute_delete_step:
  assumes "bounds_ok p bs" "buckets_hold bs s parts" "x \<in> set (partition_pos p)" "range_ok x"
  shows "\<exists>parts'. redistribute_delete bs x parts = Inr parts' \<and> buckets_hold bs (s @ [Del x]) parts'"
proof -
  obtain mn mx where r: "pdx_min_max x = Some (mn, mx)" "mn \<le> mx"
    using assms(4) by (auto simp: range_ok_def split: option.splits)
  then have range: "range_of x = (mn, mx)" by (simp add: range_of_def)
  let ?g = "bucket_of bs mn"
  have b: "sorted bs" "\<exists>b \<in> set bs. b \<le> mn" "\<forall>b \<in> set bs. mn < b \<longrightarrow> mx < b"
    using assms(1,3) range by (simp_all add: bounds_ok_def) (metis fst_conv, metis fst_conv snd_conv)
  then have g: "CalculateBucketByPath bs mn = Inr ?g" "?g < length bs"
    using CalculateBucketByPath_ok by blast+
  have "\<exists>b \<in> set bs. b \<le> mx" using b(2) r(2) by (meson order_trans)
  then have mx: "CalculateBucketByPath bs mx = Inr (bucket_of bs mx)"
    using b(1) CalculateBucketByPath_ok by blast
  have same: "bucket_of bs mx = ?g"
    using upper_bound_same [of bs mn mx mx] b r(2) by (simp add: bucket_of_def)
  have "\<forall>l \<in> set (parts ! ?g). lx_eq l = []"
    using assms(2) g(2) by (metis buckets_hold_def nth_mem)
  then have "buckets_hold bs (s @ [Del x]) (parts[?g := AppendDeleteFileToBucket (parts ! ?g) x])"
    using assms(2) g(2) range by (intro buckets_hold_update no_eq_AppendDelete) simp_all
  then show ?thesis using g(1) mx same r(1) by (simp add: redistribute_delete_def)
qed

text \<open>A run of steps that each append one item appends them all.\<close>

lemma foldE_items:
  assumes "\<And>v s parts. v \<in> set vs \<Longrightarrow> buckets_hold bs s parts \<Longrightarrow>
      \<exists>parts'. f v parts = Inr parts' \<and> buckets_hold bs (s @ [c v]) parts'"
    and "buckets_hold bs s parts"
  shows "\<exists>parts'. foldE f vs parts = Inr parts' \<and> buckets_hold bs (s @ map c vs) parts'"
  using assms
proof (induction vs arbitrary: s parts)
  case (Cons v vs)
  obtain p1 where p1: "f v parts = Inr p1" "buckets_hold bs (s @ [c v]) p1"
    using Cons.prems by (meson list.set_intros(1))
  have "\<exists>parts'. foldE f vs p1 = Inr parts' \<and> buckets_hold bs ((s @ [c v]) @ map c vs) parts'"
    using Cons.prems(1) p1(2) by (intro Cons.IH) simp_all
  then show ?case using p1(1) by auto
qed simp

lemma RedistributeDataIntoBuckets_ok:
  assumes "bounds_ok p bs" "\<forall>x \<in> set (partition_pos p). range_ok x"
  shows "\<exists>parts. RedistributeDataIntoBuckets bs p = Inr parts \<and>
           buckets_hold bs (items lx_data lx_pos p) parts"
proof -
  let ?f = "\<lambda>layer parts. bindE (foldE (redistribute_data bs) (lx_data layer) parts)
         (foldE (redistribute_delete bs) (lx_pos layer))"
  have "\<exists>parts'. foldE ?f q parts = Inr parts' \<and> buckets_hold bs (s @ items lx_data lx_pos q) parts'"
    if "set q \<subseteq> set p" "buckets_hold bs s parts" for q s parts
    using that
  proof (induction q arbitrary: s parts)
    case (Cons l ls)
    have sub: "set (lx_data l) \<subseteq> set (partition_data p)" "set (lx_pos l) \<subseteq> set (partition_pos p)"
      using Cons.prems(1) by (auto simp: partition_data_def partition_pos_def)
    obtain p1 where p1: "foldE (redistribute_data bs) (lx_data l) parts = Inr p1"
        "buckets_hold bs (s @ map Data (lx_data l)) p1"
      using foldE_items [of "lx_data l" bs "redistribute_data bs" Data s parts] Cons.prems(2) sub(1)
        redistribute_data_step [OF assms(1)] by blast
    obtain p2 where p2: "foldE (redistribute_delete bs) (lx_pos l) p1 = Inr p2"
        "buckets_hold bs ((s @ map Data (lx_data l)) @ map Del (lx_pos l)) p2"
      using foldE_items [of "lx_pos l" bs "redistribute_delete bs" Del _ p1] p1(2) sub(2)
        redistribute_delete_step [OF assms(1)] assms(2) by blast
    have "\<exists>parts'. foldE ?f ls p2 = Inr parts' \<and>
        buckets_hold bs (((s @ map Data (lx_data l)) @ map Del (lx_pos l)) @ items lx_data lx_pos ls) parts'"
      using Cons.prems(1) p2(2) by (intro Cons.IH) simp_all
    then show ?case using p1(1) p2(1) by simp
  qed simp
  moreover have "buckets_hold bs [] (replicate (length bs) [])"
    by (simp add: buckets_hold_def)
  ultimately show ?thesis
    by (force simp: RedistributeDataIntoBuckets_def)
qed

section \<open>Correctness of the split\<close>

text \<open>What a split \<open>qs\<close> of the partition \<open>p\<close> keeps.\<close>

definition split_keeps :: "layer_x list \<Rightarrow> layer_x list list \<Rightarrow> bool" where
  "split_keeps p qs \<longleftrightarrow>
     (\<Sum>q\<leftarrow>qs. mset (partition_data q)) = mset (partition_data p) \<and>
     (\<Sum>q\<leftarrow>qs. mset (partition_pos q)) = mset (partition_pos p) \<and>
     (\<Sum>q\<leftarrow>qs. filter_mset (\<lambda>(d, x). covers x (de_path d)) (mset (applied_pos_x q))) =
       filter_mset (\<lambda>(d, x). covers x (de_path d)) (mset (applied_pos_x p)) \<and>
     (\<forall>q \<in> set qs. set (applied_pos_x q) \<subseteq> set (applied_pos_x p)) \<and>
     (\<forall>q \<in> set qs. \<forall>l \<in> set q. lx_eq l = [])"

lemma sum_list_nth: "(\<Sum>q\<leftarrow>qs. f q) = (\<Sum>g<length qs. f (qs ! g))"
  for f :: "'a \<Rightarrow> 'b::comm_monoid_add"
  by (simp add: sum_list_sum_nth atLeast0LessThan)

lemma sum_classes:
  fixes c :: "'a \<Rightarrow> nat"
  assumes "\<And>v. v \<in> set vs \<Longrightarrow> c v < n"
  shows "(\<Sum>g<n. mset (filter (\<lambda>v. c v = g) vs)) = mset vs"
  using assms
proof (induction vs)
  case (Cons v vs)
  have "(\<Sum>g<n. mset (filter (\<lambda>w. c w = g) (v # vs))) =
      (\<Sum>g<n. (if c v = g then {#v#} else {#}) + mset (filter (\<lambda>w. c w = g) vs))"
    by (intro sum.cong) auto
  also have "\<dots> = (\<Sum>g<n. if c v = g then {#v#} else {#}) + mset vs"
    using Cons by (simp add: sum.distrib)
  also have "(\<Sum>g<n. if c v = g then {#v#} else {#}) = {#v#}"
    by (subst sum.delta') (simp_all add: Cons.prems)
  finally show ?case by simp
qed simp

lemma item_bucket_less:
  assumes "bounds_ok p bs" "it \<in> set (items lx_data lx_pos p)"
  shows "item_bucket bs it < length bs"
proof (cases it)
  case (Data d)
  then have "d \<in> set (partition_data p)" using assms(2) by (simp add: partition_data_def)
  then show ?thesis
    using assms(1) Data CalculateBucketByPath_ok by (fastforce simp: bounds_ok_def)
next
  case (Del x)
  then have "x \<in> set (partition_pos p)" using assms(2) by (simp add: partition_pos_def)
  then show ?thesis
    using assms(1) Del CalculateBucketByPath_ok by (fastforce simp: bounds_ok_def)
qed

lemma covering_same_bucket:
  assumes "bounds_ok p bs" "x \<in> set (partition_pos p)" "range_ok x" "covers x (de_path d)"
  shows "item_bucket bs (Data d) = item_bucket bs (Del x)"
proof -
  have "fst (range_of x) \<le> de_path d" "de_path d \<le> snd (range_of x)"
    using assms(3,4) by (auto simp: range_ok_def covers_def range_of_def split: option.splits)
  then show ?thesis
    using upper_bound_same [of bs "fst (range_of x)" "de_path d" "snd (range_of x)"] assms(1,2)
    by (simp add: bounds_ok_def bucket_of_def)
qed

lemma buckets_hold_split:
  assumes bo: "bounds_ok p bs" and ok: "\<forall>x \<in> set (partition_pos p). range_ok x"
    and h: "buckets_hold bs (items lx_data lx_pos p) qs"
  shows "split_keeps p qs"
proof -
  let ?s = "items lx_data lx_pos p" and ?c = "item_bucket bs"
  have len: "length qs = length bs" using h by (simp add: buckets_hold_def)
  have q: "items lx_data lx_pos (qs ! g) = filter (\<lambda>it. ?c it = g) ?s" if "g < length qs" for g
    using h that len by (simp add: buckets_hold_def)
  have data: "partition_data (qs ! g) = filter (\<lambda>d. ?c (Data d) = g) (partition_data p)"
    if "g < length qs" for g
    using arg_cong [OF q [OF that], of item_datas] by (simp add: partition_data_def item_datas_filter)
  have pos: "partition_pos (qs ! g) = filter (\<lambda>x. ?c (Del x) = g) (partition_pos p)"
    if "g < length qs" for g
    using arg_cong [OF q [OF that], of item_dels] by (simp add: partition_pos_def item_dels_filter)
  have app: "applied_pos_x (qs ! g) = later (filter (\<lambda>it. ?c it = g) ?s)" if "g < length qs" for g
    using q [OF that] by (metis later_items)
  have less: "it \<in> set ?s \<Longrightarrow> ?c it < length qs" for it
    using item_bucket_less [OF bo] len by simp
  have "(\<Sum>g<length qs. mset (partition_data (qs ! g))) =
      (\<Sum>g<length qs. mset (filter (\<lambda>d. ?c (Data d) = g) (partition_data p)))"
    by (intro sum.cong refl) (simp add: data)
  also have "\<dots> = mset (partition_data p)"
    by (rule sum_classes, rule less) (simp add: partition_data_def)
  finally have "(\<Sum>q\<leftarrow>qs. mset (partition_data q)) = mset (partition_data p)"
    unfolding sum_list_nth .
  moreover have "(\<Sum>g<length qs. mset (partition_pos (qs ! g))) =
      (\<Sum>g<length qs. mset (filter (\<lambda>x. ?c (Del x) = g) (partition_pos p)))"
    by (intro sum.cong refl) (simp add: pos)
  then have "(\<Sum>q\<leftarrow>qs. mset (partition_pos q)) = mset (partition_pos p)"
    unfolding sum_list_nth
    by (simp only:) (rule sum_classes, rule less, simp add: partition_pos_def)
  moreover have "(\<Sum>q\<leftarrow>qs. filter_mset (\<lambda>(d, x). covers x (de_path d)) (mset (applied_pos_x q))) =
       filter_mset (\<lambda>(d, x). covers x (de_path d)) (mset (later ?s))"
    unfolding sum_list_nth
    using later_split_class [of "\<lambda>d x. covers x (de_path d)" ?s ?c "length qs"] less
      covering_same_bucket [OF bo] ok
    by (simp add: app partition_pos_def cong: sum.cong_simp)
  moreover have "\<forall>q \<in> set qs. set (applied_pos_x q) \<subseteq> set (later ?s)"
    using app set_later_filter_subset by (metis in_set_conv_nth)
  ultimately show ?thesis
    using h by (simp add: split_keeps_def later_items buckets_hold_def)
qed

lemma OptimizePartition_ok:
  assumes "\<forall>x \<in> set (partition_pos p). range_ok x"
  shows "\<exists>qs. OptimizePartition p = Inr qs \<and> split_keeps p qs"
proof -
  obtain bs where bs: "FindBucketLowerBounds p = Inr bs" "bounds_ok p bs"
    using FindBucketLowerBounds_ok [OF assms] by blast
  obtain qs where "RedistributeDataIntoBuckets bs p = Inr qs"
      "buckets_hold bs (items lx_data lx_pos p) qs"
    using RedistributeDataIntoBuckets_ok [OF bs(2) assms] by blast
  then show ?thesis
    using bs assms buckets_hold_split by (auto simp: OptimizePartition_def)
qed

section \<open>All partitions\<close>

lemma Optimize_fold:
  assumes "\<forall>p \<in> set ps. CanOptimizePartition p \<longrightarrow> (\<forall>x \<in> set (partition_pos p). range_ok x)"
  shows "\<exists>qss. Optimize ps = Inr (concat qss) \<and>
     list_all2 (\<lambda>p qs. if CanOptimizePartition p then split_keeps p qs else qs = [p]) ps qss"
proof -
  let ?f = "\<lambda>part result. if CanOptimizePartition part then
         bindE (OptimizePartition part) (\<lambda>new_partitions. Inr (result @ new_partitions))
       else Inr (result @ [part])"
  let ?R = "\<lambda>p qs. if CanOptimizePartition p then split_keeps p qs else qs = [p]"
  have "\<exists>qss. foldE ?f ps acc = Inr (acc @ concat qss) \<and> list_all2 ?R ps qss" for acc
    using assms
  proof (induction ps arbitrary: acc)
    case (Cons p ps)
    obtain qs where qs: "?f p acc = Inr (acc @ qs)" "?R p qs"
      using Cons.prems OptimizePartition_ok [of p] by (cases "CanOptimizePartition p") auto
    obtain qss where "foldE ?f ps (acc @ qs) = Inr ((acc @ qs) @ concat qss)" "list_all2 ?R ps qss"
      using Cons.IH [of "acc @ qs"] Cons.prems by auto
    then show ?case
      using qs by (intro exI [of _ "qs # qss"]) (simp del: if_split_asm)
  qed simp
  from this [of "[]"] show ?thesis by (simp add: Optimize_def)
qed

section \<open>Properties\<close>

text \<open>
  C25. When every positional delete of an optimizable partition has an ordered path
  range, the scanline split succeeds (none of its internal checks fails), keeps every
  data file and every delete once, keeps each pair of a data file and a delete that
  covers its path and applies to it, and lets no delete apply to a data file it did
  not apply to before.
\<close>

theorem OptimizePartition_correct:
  assumes "CanOptimizePartition p" "\<forall>x \<in> set (partition_pos p). range_ok x"
  shows "\<exists>qs. OptimizePartition p = Inr qs \<and> split_keeps p qs"
  using assms(2) by (rule OptimizePartition_ok)

definition example_partition :: "layer_x list" where
  "example_partition =
     [\<lparr>lx_data = [\<lparr>de_path = ''b'', de_parts = [], de_dv = None\<rparr>,
                  \<lparr>de_path = ''d'', de_parts = [], de_dv = None\<rparr>],
       lx_pos = [\<lparr>pdx_delete = \<lparr>pd_path = ''x''\<rparr>, pdx_min_max = Some (''a'', ''c'')\<rparr>],
       lx_eq = [], lx_dv = []\<rparr>,
      \<lparr>lx_data = [\<lparr>de_path = ''f'', de_parts = [], de_dv = None\<rparr>],
       lx_pos = [\<lparr>pdx_delete = \<lparr>pd_path = ''y''\<rparr>, pdx_min_max = Some (''e'', ''g'')\<rparr>],
       lx_eq = [], lx_dv = []\<rparr>]"

theorem OptimizePartition_correct_witness:
  "\<exists>qs. OptimizePartition example_partition = Inr qs \<and> split_keeps example_partition qs"
  by (rule OptimizePartition_correct)
    (simp_all add: example_partition_def CanOptimizePartition_def partition_pos_def range_ok_def
      list_less_def list_le_def)

text \<open>
  The example of the source's comment: ranges \<open>[a, c]\<close> and \<open>[e, g]\<close> with data
  files \<open>b\<close>, \<open>d\<close> and \<open>f\<close> give the bucket boundaries \<open>a\<close>, \<open>d\<close>, \<open>e\<close>, and one
  bucket per group.
\<close>

lemma FindBucketLowerBounds_comment_example:
  "FindBucketLowerBounds example_partition = Inr [''a'', ''d'', ''e'']"
  by code_simp

end
