(* ===== verification/Plan_Pruning.thy ===== *)
theory Plan_Pruning
  imports Delete_Buckets
begin

text \<open>
  \<open>RemoveDanglingDeletes\<close>, \<open>MapToVec\<close> and \<open>GetPartitions\<close> of the builder
  (\<open>iceberg/tea_scan.cpp\<close>): positional deletes whose path range meets no data file
  of their own or an earlier layer are dropped, partitions without data are
  dropped, and the optimizer runs first when some partition allows it.  The lemmas
  show that the final plan keeps every data file, every equality delete pair and
  every positional delete pair that can matter, and adds none.
\<close>

section \<open>Definitions\<close>

text \<open>\<open>std::set\<close> of paths as an ascending list; its \<open>lower_bound\<close> as a position.\<close>

definition lower_bound :: "'a::linorder list \<Rightarrow> 'a \<Rightarrow> nat" where
  "lower_bound xs v = length (takeWhile (\<lambda>x. x < v) xs)"

definition add_paths :: "data_entry list \<Rightarrow> string list \<Rightarrow> string list" where
  "add_paths ds paths = fold (\<lambda>d. insort_insert (de_path d)) ds paths"

definition keeps_delete :: "string list \<Rightarrow> pos_delete_x \<Rightarrow> bool" where
  "keeps_delete paths x = (case pdx_min_max x of
     None \<Rightarrow> True
   | Some (mn, mx) \<Rightarrow> lower_bound paths mn \<noteq> upper_bound paths mx)"

definition result_layer :: "string list \<Rightarrow> layer_x \<Rightarrow> layer" where
  "result_layer paths l =
     \<lparr>l_data = lx_data l,
      l_pos = map pdx_delete (filter (keeps_delete paths) (lx_pos l)),
      l_eq = lx_eq l\<rparr>"

fun result_layers :: "string list \<Rightarrow> layer_x list \<Rightarrow> layer list" where
  "result_layers paths [] = []"
| "result_layers paths (l # ls) =
     (let paths' = add_paths (lx_data l) paths;
          r = result_layer paths' l
      in if layer_Empty r then result_layers paths' ls else r # result_layers paths' ls)"

fun RemoveDanglingDeletes :: "layer_x list list \<Rightarrow> layer list list" where
  "RemoveDanglingDeletes [] = []"
| "RemoveDanglingDeletes (layers # ps) =
     (if list_all (\<lambda>l. lx_data l = []) layers then RemoveDanglingDeletes ps
      else result_layers [] layers # RemoveDanglingDeletes ps)"

definition MapToVec :: "(string \<times> (int \<times> layer_x) list) list \<Rightarrow> layer_x list list" where
  "MapToVec partitions = map (\<lambda>(_, layers). map snd layers) partitions"

definition GetPartitions :: "(string \<times> (int \<times> layer_x) list) list \<Rightarrow> layer list list result" where
  "GetPartitions partitions =
     (let meta_as_vec = MapToVec partitions
      in bindE (if CanOptimize meta_as_vec then Optimize meta_as_vec else Inr meta_as_vec)
           (\<lambda>vec. Inr (RemoveDanglingDeletes vec)))"

section \<open>Dropping deletes\<close>

lemma insort_insert_set [simp]: "set (insort_insert x xs) = insert x (set xs)"
  by (simp add: insort_insert_key_def set_insort_key) blast

lemma set_add_paths: "set (add_paths ds paths) = set paths \<union> de_path ` set ds"
  unfolding add_paths_def by (induction ds arbitrary: paths) auto

lemma sorted_add_paths: "sorted paths \<Longrightarrow> sorted (add_paths ds paths)"
  unfolding add_paths_def
  by (induction ds arbitrary: paths) (auto simp: sorted_insort_insert)

lemma lower_bound_filter: "sorted xs \<Longrightarrow> lower_bound xs v = length (filter (\<lambda>x. x < v) xs)"
  unfolding lower_bound_def
proof (induction xs)
  case (Cons x xs)
  then show ?case by (cases "x < v") (auto simp: filter_empty_conv not_less)
qed simp

text \<open>A delete with an ordered range is kept exactly when some path lies in the range.\<close>

lemma bounds_differ_iff:
  assumes "sorted paths" "mn \<le> mx"
  shows "lower_bound paths mn \<noteq> upper_bound paths mx \<longleftrightarrow> (\<exists>v \<in> set paths. mn \<le> v \<and> v \<le> mx)"
proof -
  have lb: "lower_bound paths mn = length (filter (\<lambda>v. v < mn) paths)"
    and ub: "upper_bound paths mx = length (filter (\<lambda>v. v \<le> mx) paths)"
    using assms(1) by (simp_all add: lower_bound_filter upper_bound_filter)
  show ?thesis
  proof
    assume "\<exists>v \<in> set paths. mn \<le> v \<and> v \<le> mx"
    then obtain v where "v \<in> set paths" "mn \<le> v" "v \<le> mx" by blast
    then have "length (filter (\<lambda>v. v < mn) paths) < length (filter (\<lambda>v. v \<le> mx) paths)"
      using assms(2) by (intro length_filter_less_imp [of _ _ _ v]) auto
    then show "lower_bound paths mn \<noteq> upper_bound paths mx" using lb ub by simp
  next
    assume diff: "lower_bound paths mn \<noteq> upper_bound paths mx"
    show "\<exists>v \<in> set paths. mn \<le> v \<and> v \<le> mx"
    proof (rule ccontr)
      assume none: "\<not> (\<exists>v \<in> set paths. mn \<le> v \<and> v \<le> mx)"
      have "filter (\<lambda>v. v < mn) paths = filter (\<lambda>v. v \<le> mx) paths"
        using none assms(2) by (intro filter_cong refl) (meson leI less_imp_le order_less_le_trans)
      then show False using diff lb ub by simp
    qed
  qed
qed

lemma covers_keeps:
  assumes "sorted paths" "covers x v" "v \<in> set paths"
  shows "keeps_delete paths x"
proof (cases "pdx_min_max x")
  case (Some r)
  obtain mn mx where r: "r = (mn, mx)" by (cases r)
  then have "mn \<le> v" "v \<le> mx" using assms(2) Some by (simp_all add: covers_def)
  then show ?thesis
    using bounds_differ_iff [of paths mn mx] assms(1,3) Some r by (auto simp: keeps_delete_def)
qed (simp add: keeps_delete_def)

text \<open>The layers before empty ones are left out, position by position.\<close>

fun all_layers :: "string list \<Rightarrow> layer_x list \<Rightarrow> layer list" where
  "all_layers paths [] = []"
| "all_layers paths (l # ls) =
     result_layer (add_paths (lx_data l) paths) l # all_layers (add_paths (lx_data l) paths) ls"

lemma result_layers_filter:
  "result_layers paths p = filter (\<lambda>l. \<not> layer_Empty l) (all_layers paths p)"
  by (induction p arbitrary: paths) (auto simp: Let_def)

lemma length_all_layers [simp]: "length (all_layers paths p) = length p"
  by (induction p arbitrary: paths) auto

lemma add_paths_append: "add_paths (ds @ es) paths = add_paths es (add_paths ds paths)"
  by (simp add: add_paths_def)

lemma nth_all_layers:
  "j < length p \<Longrightarrow> all_layers paths p ! j =
     result_layer (add_paths (partition_data (take (Suc j) p)) paths) (p ! j)"
proof (induction p arbitrary: j paths)
  case (Cons l ls)
  then show ?case by (cases j) (simp_all add: partition_data_def add_paths_append)
qed simp

lemma map_data_all_layers [simp]: "map l_data (all_layers paths p) = map lx_data p"
  by (induction p arbitrary: paths) (auto simp: result_layer_def)

lemma map_eq_all_layers [simp]: "map l_eq (all_layers paths p) = map lx_eq p"
  by (induction p arbitrary: paths) (auto simp: result_layer_def)

lemma applied_map_cong:
  "map data p = map data' q \<Longrightarrow> map dels p = map dels' q \<Longrightarrow>
     applied data dels p = applied data' dels' q"
proof (induction p arbitrary: q)
  case (Cons l ls)
  then show ?case by (cases q) auto
qed simp

lemma applied_result_layers:
  assumes "\<And>l. layer_Empty l \<Longrightarrow> data l = [] \<and> dels l = []"
  shows "applied data dels (result_layers paths p) = applied data dels (all_layers paths p)"
  unfolding result_layers_filter using assms by (intro applied_filter_layers) auto

lemma result_layers_eq [simp]: "applied_eq (result_layers paths p) = applied_eq_x p"
proof -
  have "applied_eq (result_layers paths p) = applied_eq (all_layers paths p)"
    by (rule applied_result_layers) (simp add: layer_Empty_def)
  also have "\<dots> = applied_eq_x p" by (rule applied_map_cong) simp_all
  finally show ?thesis .
qed

lemma result_layers_data: "concat (map l_data (result_layers paths p)) = partition_data p"
proof -
  have "concat (map l_data (filter (\<lambda>l. \<not> layer_Empty l) ls)) = concat (map l_data ls)" for ls
    by (induction ls) (auto simp: layer_Empty_def)
  then show ?thesis
    by (simp add: result_layers_filter partition_data_def)
qed

lemma in_take_data:
  "i \<le> j \<Longrightarrow> j < length p \<Longrightarrow> d \<in> set (lx_data (p ! i)) \<Longrightarrow> d \<in> set (partition_data (take (Suc j) p))"
  unfolding partition_data_def in_concat_map_nth by (rule exI [of _ i]) simp

lemma result_layers_pos:
  shows "(d, y) \<in> set (applied_pos (result_layers [] p)) \<Longrightarrow>
      \<exists>x. (d, x) \<in> set (applied_pos_x p) \<and> pdx_delete x = y"
    and "(d, x) \<in> set (applied_pos_x p) \<Longrightarrow> covers x (de_path d) \<Longrightarrow>
      (d, pdx_delete x) \<in> set (applied_pos (result_layers [] p))"
proof -
  have all: "applied_pos (result_layers [] p) = applied_pos (all_layers [] p)"
    by (rule applied_result_layers) (simp add: layer_Empty_def)
  show "\<exists>x. (d, x) \<in> set (applied_pos_x p) \<and> pdx_delete x = y"
    if "(d, y) \<in> set (applied_pos (result_layers [] p))"
    using that unfolding all applied_iff
    by (force simp: nth_all_layers result_layer_def)
  show "(d, pdx_delete x) \<in> set (applied_pos (result_layers [] p))"
    if dx: "(d, x) \<in> set (applied_pos_x p)" and cov: "covers x (de_path d)"
  proof -
    obtain i j where ij: "i \<le> j" "j < length p" "d \<in> set (lx_data (p ! i))" "x \<in> set (lx_pos (p ! j))"
      using dx unfolding applied_iff by blast
    let ?paths = "add_paths (partition_data (take (Suc j) p)) []"
    have "de_path d \<in> set ?paths"
      using in_take_data [OF ij(1-3)] by (simp add: set_add_paths)
    then have "keeps_delete ?paths x"
      using cov by (intro covers_keeps sorted_add_paths) auto
    then have "pdx_delete x \<in> set (l_pos (all_layers [] p ! j))"
      using ij(2,4) by (simp add: nth_all_layers result_layer_def)
    moreover have "d \<in> set (l_data (all_layers [] p ! i))"
      using ij(1-3) by (simp add: nth_all_layers result_layer_def)
    ultimately show ?thesis
      unfolding all applied_iff using ij(1,2) by auto
  qed
qed

lemma result_layers_deletes:
  assumes "l \<in> set (result_layers paths p)" "y \<in> set (l_pos l)"
  shows "\<exists>x \<in> set (partition_pos p). pdx_delete x = y"
proof -
  have "l \<in> set (all_layers paths p)" using assms(1) by (simp add: result_layers_filter)
  then obtain j where j: "j < length p" "l = all_layers paths p ! j"
    by (metis in_set_conv_nth length_all_layers)
  then have "y \<in> pdx_delete ` set (lx_pos (p ! j))"
    using assms(2) by (auto simp: nth_all_layers result_layer_def)
  then show ?thesis using nth_mem [OF j(1)] by (auto simp: partition_pos_def)
qed

section \<open>The whole pass\<close>

text \<open>
  What a plan \<open>res\<close> keeps of the partitions \<open>ps\<close>: the data files with their
  multiplicities, the equality pairs, the positional pairs whose range holds the
  path of the data file, and it adds no positional pair and no delete file.
\<close>

definition plan_keeps :: "layer_x list list \<Rightarrow> layer list list \<Rightarrow> bool" where
  "plan_keeps ps res \<longleftrightarrow>
     (\<Sum>r\<leftarrow>res. mset (concat (map l_data r))) = (\<Sum>p\<leftarrow>ps. mset (partition_data p)) \<and>
     (\<Union>r \<in> set res. set (applied_eq r)) = (\<Union>p \<in> set ps. set (applied_eq_x p)) \<and>
     (\<forall>p \<in> set ps. \<forall>(d, x) \<in> set (applied_pos_x p). covers x (de_path d) \<longrightarrow>
        (\<exists>r \<in> set res. (d, pdx_delete x) \<in> set (applied_pos r))) \<and>
     (\<forall>r \<in> set res. \<forall>(d, y) \<in> set (applied_pos r).
        \<exists>p \<in> set ps. \<exists>x. (d, x) \<in> set (applied_pos_x p) \<and> pdx_delete x = y) \<and>
     (\<forall>r \<in> set res. \<forall>l \<in> set r. \<forall>y \<in> set (l_pos l).
        \<exists>p \<in> set ps. \<exists>x \<in> set (partition_pos p). pdx_delete x = y)"

lemma plan_keepsI:
  assumes "(\<Sum>r\<leftarrow>res. mset (concat (map l_data r))) = (\<Sum>p\<leftarrow>ps. mset (partition_data p))"
    and "(\<Union>r \<in> set res. set (applied_eq r)) = (\<Union>p \<in> set ps. set (applied_eq_x p))"
    and "\<And>p d x. p \<in> set ps \<Longrightarrow> (d, x) \<in> set (applied_pos_x p) \<Longrightarrow> covers x (de_path d) \<Longrightarrow>
       \<exists>r \<in> set res. (d, pdx_delete x) \<in> set (applied_pos r)"
    and "\<And>r d y. r \<in> set res \<Longrightarrow> (d, y) \<in> set (applied_pos r) \<Longrightarrow>
       \<exists>p \<in> set ps. \<exists>x. (d, x) \<in> set (applied_pos_x p) \<and> pdx_delete x = y"
    and "\<And>r l y. r \<in> set res \<Longrightarrow> l \<in> set r \<Longrightarrow> y \<in> set (l_pos l) \<Longrightarrow>
       \<exists>p \<in> set ps. \<exists>x \<in> set (partition_pos p). pdx_delete x = y"
  shows "plan_keeps ps res"
  unfolding plan_keeps_def using assms by fast

lemma plan_keepsD:
  assumes "plan_keeps ps res"
  shows "(\<Sum>r\<leftarrow>res. mset (concat (map l_data r))) = (\<Sum>p\<leftarrow>ps. mset (partition_data p))"
    and "(\<Union>r \<in> set res. set (applied_eq r)) = (\<Union>p \<in> set ps. set (applied_eq_x p))"
    and "p \<in> set ps \<Longrightarrow> (d, x) \<in> set (applied_pos_x p) \<Longrightarrow> covers x (de_path d) \<Longrightarrow>
       \<exists>r \<in> set res. (d, pdx_delete x) \<in> set (applied_pos r)"
    and "r \<in> set res \<Longrightarrow> (d, y) \<in> set (applied_pos r) \<Longrightarrow>
       \<exists>p \<in> set ps. \<exists>x. (d, x) \<in> set (applied_pos_x p) \<and> pdx_delete x = y"
    and "r \<in> set res \<Longrightarrow> l \<in> set r \<Longrightarrow> z \<in> set (l_pos l) \<Longrightarrow>
       \<exists>p \<in> set ps. \<exists>x \<in> set (partition_pos p). pdx_delete x = z"
  using assms unfolding plan_keeps_def by - (simp only:, simp only:, fast, fast, blast)

lemma no_data_applied: "list_all (\<lambda>l. lx_data l = []) p \<Longrightarrow> applied lx_data dels p = []"
  by (rule applied_no_data) (simp add: list_all_iff)

lemma RemoveDanglingDeletes_eq:
  "RemoveDanglingDeletes ps =
     map (result_layers []) (filter (\<lambda>p. \<not> list_all (\<lambda>l. lx_data l = []) p) ps)"
  by (induction ps) auto

lemma RemoveDanglingDeletes_keeps: "plan_keeps ps (RemoveDanglingDeletes ps)"
proof (rule plan_keepsI)
  show "(\<Sum>r\<leftarrow>RemoveDanglingDeletes ps. mset (concat (map l_data r))) =
      (\<Sum>p\<leftarrow>ps. mset (partition_data p))"
  proof (induction ps)
    case (Cons p ps)
    have "list_all (\<lambda>l. lx_data l = []) p \<Longrightarrow> partition_data p = []"
      by (simp add: partition_data_def list_all_iff)
    with Cons show ?case by (simp del: mset_concat add: result_layers_data)
  qed simp
  have "set (applied_eq_x p) = {}" if "list_all (\<lambda>l. lx_data l = []) p" for p
    by (simp add: no_data_applied [OF that])
  then show "(\<Union>r \<in> set (RemoveDanglingDeletes ps). set (applied_eq r)) =
      (\<Union>p \<in> set ps. set (applied_eq_x p))"
    unfolding RemoveDanglingDeletes_eq by (auto; blast)
next
  fix p d x
  assume p: "p \<in> set ps" and dx: "(d, x) \<in> set (applied_pos_x p)" and c: "covers x (de_path d)"
  have "\<not> list_all (\<lambda>l. lx_data l = []) p"
    using dx no_data_applied [of p lx_pos] by fastforce
  then have "result_layers [] p \<in> set (RemoveDanglingDeletes ps)"
    using p by (simp add: RemoveDanglingDeletes_eq)
  with result_layers_pos(2) [OF dx c]
  show "\<exists>r \<in> set (RemoveDanglingDeletes ps). (d, pdx_delete x) \<in> set (applied_pos r)" by blast
next
  fix r d y
  assume r: "r \<in> set (RemoveDanglingDeletes ps)" and dy: "(d, y) \<in> set (applied_pos r)"
  obtain p where "p \<in> set ps" "r = result_layers [] p"
    using r by (auto simp: RemoveDanglingDeletes_eq)
  then show "\<exists>p \<in> set ps. \<exists>x. (d, x) \<in> set (applied_pos_x p) \<and> pdx_delete x = y"
    using dy result_layers_pos(1) by blast
next
  fix r l y
  assume "r \<in> set (RemoveDanglingDeletes ps)" and l: "l \<in> set r" "y \<in> set (l_pos l)"
  then obtain p where "p \<in> set ps" "r = result_layers [] p"
    by (auto simp: RemoveDanglingDeletes_eq)
  moreover from this l obtain x where "x \<in> set (partition_pos p)" "pdx_delete x = y"
    using result_layers_deletes by blast
  ultimately show "\<exists>p \<in> set ps. \<exists>x \<in> set (partition_pos p). pdx_delete x = y" by blast
qed

text \<open>The same four facts for the optimizer's output, layers with ranges.\<close>

lemma covered_pairs_sum:
  assumes "split_keeps p qs" "(d, x) \<in> set (applied_pos_x p)" "covers x (de_path d)"
  shows "\<exists>q \<in> set qs. (d, x) \<in> set (applied_pos_x q)"
proof -
  let ?F = "\<lambda>q. filter_mset (\<lambda>(d, x). covers x (de_path d)) (mset (applied_pos_x q))"
  have "(d, x) \<in># ?F p" using assms(2,3) by simp
  also have "?F p = (\<Sum>q\<leftarrow>qs. ?F q)" using assms(1) by (simp add: split_keeps_def)
  finally obtain q where "q \<in> set qs" "(d, x) \<in># ?F q"
    by (induction qs) auto
  then show ?thesis by auto
qed

lemma split_keeps_deletes:
  assumes "split_keeps p qs" "q \<in> set qs" "x \<in> set (partition_pos q)"
  shows "x \<in> set (partition_pos p)"
proof -
  have "x \<in># (\<Sum>q\<leftarrow>qs. mset (partition_pos q))"
    using assms(2,3) by (induction qs) auto
  also have "(\<Sum>q\<leftarrow>qs. mset (partition_pos q)) = mset (partition_pos p)"
    using assms(1) unfolding split_keeps_def by blast
  finally show ?thesis by simp
qed

lemma split_keeps_eq:
  assumes "CanOptimizePartition p" "split_keeps p qs" "q \<in> set (p # qs)"
  shows "applied_eq_x q = []"
  using assms by (intro applied_no_deletes)
    (auto simp: CanOptimizePartition_def split_keeps_def)

lemma list_all2_partner1: "list_all2 R ps qss \<Longrightarrow> p \<in> set ps \<Longrightarrow> \<exists>qs \<in> set qss. R p qs"
  by (metis in_set_conv_nth list_all2_conv_all_nth)

lemma list_all2_partner2: "list_all2 R ps qss \<Longrightarrow> qs \<in> set qss \<Longrightarrow> \<exists>p \<in> set ps. R p qs"
  by (metis in_set_conv_nth list_all2_conv_all_nth)

lemma list_all2_Union:
  assumes "list_all2 R ps qss" "\<And>p qs. R p qs \<Longrightarrow> (\<Union>q \<in> set qs. f q) = f p"
  shows "(\<Union>q \<in> set (concat qss). f q) = (\<Union>p \<in> set ps. f p)"
  using assms(1) by induction (simp_all add: assms(2))

lemma list_all2_sum:
  fixes f :: "'a \<Rightarrow> 'b multiset"
  assumes "list_all2 R ps qss" "\<And>p qs. R p qs \<Longrightarrow> (\<Sum>q\<leftarrow>qs. f q) = f p"
  shows "(\<Sum>q\<leftarrow>concat qss. f q) = (\<Sum>p\<leftarrow>ps. f p)"
  using assms(1) by induction (simp_all add: assms(2))

lemma plan_keeps_after_Optimize:
  assumes R: "list_all2 (\<lambda>p qs. if CanOptimizePartition p then split_keeps p qs else qs = [p]) ps qss"
    (is "list_all2 ?R ps qss")
    and k: "plan_keeps (concat qss) res"
  shows "plan_keeps ps res"
proof (rule plan_keepsI)
  have data: "(\<Sum>q\<leftarrow>concat qss. mset (partition_data q)) = (\<Sum>p\<leftarrow>ps. mset (partition_data p))"
    by (rule list_all2_sum [OF R]) (simp add: split_keeps_def split: if_splits)
  show "(\<Sum>r\<leftarrow>res. mset (concat (map l_data r))) = (\<Sum>p\<leftarrow>ps. mset (partition_data p))"
    using plan_keepsD(1) [OF k] data by (rule trans)
  have eq: "(\<Union>q \<in> set (concat qss). set (applied_eq_x q)) = (\<Union>p \<in> set ps. set (applied_eq_x p))"
    by (rule list_all2_Union [OF R]) (auto simp: split_keeps_eq split: if_splits)
  show "(\<Union>r \<in> set res. set (applied_eq r)) = (\<Union>p \<in> set ps. set (applied_eq_x p))"
    using plan_keepsD(2) [OF k] eq by (rule trans)
next
  fix p d x
  assume p: "p \<in> set ps" and dx: "(d, x) \<in> set (applied_pos_x p)" and c: "covers x (de_path d)"
  obtain qs where qs: "qs \<in> set qss" "?R p qs"
    using list_all2_partner1 [OF R p] by blast
  then have "\<exists>q \<in> set qs. (d, x) \<in> set (applied_pos_x q)"
    using dx c covered_pairs_sum [of p qs d x] by (auto split: if_splits)
  then obtain q where "q \<in> set (concat qss)" "(d, x) \<in> set (applied_pos_x q)"
    using qs(1) by auto
  then show "\<exists>r \<in> set res. (d, pdx_delete x) \<in> set (applied_pos r)"
    using plan_keepsD(3) [OF k] c by blast
next
  fix r d y
  assume "r \<in> set res" "(d, y) \<in> set (applied_pos r)"
  then obtain q x where q: "q \<in> set (concat qss)" "(d, x) \<in> set (applied_pos_x q)" "pdx_delete x = y"
    using plan_keepsD(4) [OF k] by blast
  obtain qs where qs: "qs \<in> set qss" "q \<in> set qs" using q(1) by auto
  obtain p where p: "p \<in> set ps" "?R p qs" using list_all2_partner2 [OF R qs(1)] by blast
  have "(d, x) \<in> set (applied_pos_x p)"
    using p(2) q(2) qs(2) by (auto simp: split_keeps_def split: if_splits)
  then show "\<exists>p \<in> set ps. \<exists>x. (d, x) \<in> set (applied_pos_x p) \<and> pdx_delete x = y"
    using p(1) q(3) by blast
next
  fix r l y
  assume "r \<in> set res" "l \<in> set r" "y \<in> set (l_pos l)"
  then obtain q x where q: "q \<in> set (concat qss)" "x \<in> set (partition_pos q)" "pdx_delete x = y"
    using plan_keepsD(5) [OF k] by blast
  obtain qs where qs: "qs \<in> set qss" "q \<in> set qs" using q(1) by auto
  obtain p where p: "p \<in> set ps" "?R p qs" using list_all2_partner2 [OF R qs(1)] by blast
  have "x \<in> set (partition_pos p)"
    using p(2) q(2) qs(2) split_keeps_deletes [of p qs q x] by (auto split: if_splits)
  then show "\<exists>p \<in> set ps. \<exists>x \<in> set (partition_pos p). pdx_delete x = y"
    using p(1) q(3) by blast
qed

lemma GetPartitions_keeps:
  assumes "\<forall>p \<in> set (MapToVec partitions). CanOptimizePartition p \<longrightarrow>
      (\<forall>x \<in> set (partition_pos p). range_ok x)"
  shows "\<exists>res. GetPartitions partitions = Inr res \<and> plan_keeps (MapToVec partitions) res"
proof (cases "CanOptimize (MapToVec partitions)")
  case True
  obtain qss where "Optimize (MapToVec partitions) = Inr (concat qss)"
      "list_all2 (\<lambda>p qs. if CanOptimizePartition p then split_keeps p qs else qs = [p])
         (MapToVec partitions) qss"
    using Optimize_fold [OF assms] by blast
  then show ?thesis
    using True plan_keeps_after_Optimize RemoveDanglingDeletes_keeps
    by (auto simp: GetPartitions_def Let_def)
qed (simp add: GetPartitions_def Let_def RemoveDanglingDeletes_keeps)

section \<open>Properties\<close>

text \<open>
  C24. The planning pass over the partitions (bucket splitting, then dropping of
  dangling deletes) succeeds when the recorded path ranges are ordered, and the final
  plan keeps every data file with its multiplicity, exactly the applicable equality
  deletes, every positional delete whose range holds the data file it applies to, and
  no positional delete for a data file it did not apply to.
\<close>

theorem GetPartitions_correct:
  assumes "\<forall>p \<in> set (MapToVec partitions). CanOptimizePartition p \<longrightarrow>
      (\<forall>x \<in> set (partition_pos p). range_ok x)"
  shows "\<exists>res. GetPartitions partitions = Inr res \<and> plan_keeps (MapToVec partitions) res"
  using assms by (rule GetPartitions_keeps)

theorem GetPartitions_correct_witness:
  "\<exists>res. GetPartitions [(''key'', [(1, example_partition ! 0), (2, example_partition ! 1)])] = Inr res \<and>
     plan_keeps [example_partition] res"
  using GetPartitions_correct
    [of "[(''key'', [(1, example_partition ! 0), (2, example_partition ! 1)])]"]
  by (simp add: MapToVec_def example_partition_def partition_pos_def range_ok_def
      list_less_def list_le_def)

text \<open>
  What the removal of dangling deletes is meant to compute: a positional delete file
  stays when it has no recorded range or some data file of its own or an earlier layer
  lies in the range, data and equality deletes stay, and layers left empty go.
\<close>

definition needed_delete :: "layer_x list \<Rightarrow> nat \<Rightarrow> pos_delete_x \<Rightarrow> bool" where
  "needed_delete p j x \<longleftrightarrow> pdx_min_max x = None \<or>
     (\<exists>i \<le> j. \<exists>d \<in> set (lx_data (p ! i)). covers x (de_path d))"

definition needed_layer :: "layer_x list \<Rightarrow> nat \<Rightarrow> layer" where
  "needed_layer p j =
     \<lparr>l_data = lx_data (p ! j),
      l_pos = map pdx_delete (filter (needed_delete p j) (lx_pos (p ! j))),
      l_eq = lx_eq (p ! j)\<rparr>"

definition needed_layers :: "layer_x list \<Rightarrow> layer list" where
  "needed_layers p = filter (\<lambda>l. \<not> layer_Empty l) (map (needed_layer p) [0..<length p])"

lemma set_partition_data_take:
  assumes "j < length p"
  shows "set (partition_data (take (Suc j) p)) = (\<Union>i \<in> {..j}. set (lx_data (p ! i)))"
proof -
  have "take (Suc j) p = map ((!) p) [0..<Suc j]"
    using assms by (metis Suc_leI map_nth take_map take_upt add_0)
  then show ?thesis
    by (simp add: partition_data_def atLeast0LessThan lessThan_Suc_atMost del: upt_Suc)
qed

lemma keeps_delete_needed:
  assumes "j < length p" "pdx_min_max x = None \<or> range_ok x"
  shows "keeps_delete (add_paths (partition_data (take (Suc j) p)) []) x \<longleftrightarrow> needed_delete p j x"
proof (cases "pdx_min_max x")
  case (Some r)
  let ?ds = "partition_data (take (Suc j) p)"
  obtain mn mx where r: "r = (mn, mx)" "mn \<le> mx"
    using assms(2) Some by (cases r) (simp add: range_ok_def)
  have "keeps_delete (add_paths ?ds []) x \<longleftrightarrow> (\<exists>d \<in> set ?ds. covers x (de_path d))"
    using bounds_differ_iff [OF _ r(2), of "add_paths ?ds []"] r(1) Some
    by (simp add: keeps_delete_def covers_def set_add_paths sorted_add_paths)
  also have "\<dots> \<longleftrightarrow> (\<exists>i \<le> j. \<exists>d \<in> set (lx_data (p ! i)). covers x (de_path d))"
    unfolding set_partition_data_take [OF assms(1)] by blast
  finally show ?thesis using Some by (simp add: needed_delete_def)
qed (simp add: keeps_delete_def needed_delete_def)

lemma all_layers_needed:
  assumes "\<forall>x \<in> set (partition_pos p). pdx_min_max x = None \<or> range_ok x"
  shows "all_layers [] p = map (needed_layer p) [0..<length p]"
proof (rule nth_equalityI)
  fix j assume "j < length (all_layers [] p)"
  then have j: "j < length p" by simp
  have "set (lx_pos (p ! j)) \<subseteq> set (partition_pos p)"
    using nth_mem [OF j] by (auto simp: partition_pos_def)
  then have "filter (keeps_delete (add_paths (partition_data (take (Suc j) p)) [])) (lx_pos (p ! j)) =
      filter (needed_delete p j) (lx_pos (p ! j))"
    using assms by (intro filter_cong refl keeps_delete_needed [OF j]) blast
  then show "all_layers [] p ! j = map (needed_layer p) [0..<length p] ! j"
    using j by (simp add: nth_all_layers result_layer_def needed_layer_def)
qed simp

text \<open>
  C30. The removal of dangling deletes is exact: with ordered ranges, the pass over the
  growing set of paths with two binary searches computes for every partition with data
  precisely the layers of the specification above, so a delete file is dropped if and
  only if no data file it could apply to lies in its range.
\<close>

theorem RemoveDanglingDeletes_exact:
  assumes "\<forall>p \<in> set ps. \<forall>x \<in> set (partition_pos p). pdx_min_max x = None \<or> range_ok x"
  shows "RemoveDanglingDeletes ps =
     map needed_layers (filter (\<lambda>p. partition_data p \<noteq> []) ps)"
proof -
  have "list_all (\<lambda>l. lx_data l = []) p \<longleftrightarrow> partition_data p = []" for p
    by (auto simp: partition_data_def list_all_iff)
  moreover have "result_layers [] p = needed_layers p" if "p \<in> set ps" for p
    using assms that by (simp add: result_layers_filter needed_layers_def all_layers_needed)
  ultimately show ?thesis
    by (auto simp: RemoveDanglingDeletes_eq intro!: map_cong)
qed

theorem RemoveDanglingDeletes_exact_witness:
  "RemoveDanglingDeletes [example_partition] = [needed_layers example_partition]"
  using RemoveDanglingDeletes_exact [of "[example_partition]"]
  by (simp add: example_partition_def partition_pos_def partition_data_def range_ok_def
      list_less_def list_le_def)

end
