(* ===== verification/Scan_Builder.thy ===== *)
theory Scan_Builder
  imports Partition_Keys Plan_Pruning
begin

text \<open>
  Manifest entries (\<open>ContentFile\<close>, \<open>DataFile\<close>, \<open>ManifestEntry\<close> of
  \<open>iceberg/manifest_entry.h\<close>) and \<open>ScanMetadataBuilder\<close> (\<open>iceberg/tea_scan.cpp\<close>): its
  state is the ordered map from serialized partition key to the ordered map from
  sequence number to layer, and the ordered map of global equality deletes.
  \<open>AddEntry\<close> files an entry under its key and sequence number, \<open>GetResult\<close>
  distributes the global equality deletes, attaches deletion vectors and runs the
  planning pass.  The lemmas describe every layer of the builder by the list of entries
  added so far.  The logger's counters are left out; they do not affect the plan.
\<close>

section \<open>Manifest entries\<close>

datatype file_content = kData | kPositionDeletes | kEqualityDeletes

datatype entry_status = kExisting | kAdded | kDeleted

record data_file =
  df_content :: file_content
  df_file_path :: string
  df_file_format :: string
  df_partition_tuple :: partition_tuple
  df_record_count :: int
  df_file_size_in_bytes :: int
  df_column_sizes :: "(int \<times> int) list"
  df_value_counts :: "(int \<times> int) list"
  df_null_value_counts :: "(int \<times> int) list"
  df_nan_value_counts :: "(int \<times> int) list"
  df_distinct_counts :: "(int \<times> int) list"
  df_lower_bounds :: "(int \<times> byte list) list"
  df_upper_bounds :: "(int \<times> byte list) list"
  df_key_metadata :: "byte list"
  df_split_offsets :: "int list"
  df_equality_ids :: "int list"
  df_sort_order_id :: "int option"
  df_referenced_data_file :: "string option"
  df_content_offset :: "int option"
  df_content_size_in_bytes :: "int option"

record manifest_entry =
  me_status :: entry_status
  me_snapshot_id :: "int option"
  me_sequence_number :: "int option"
  me_file_sequence_number :: "int option"
  me_data_file :: data_file

definition kDeletionVectorFormat :: string where
  "kDeletionVectorFormat = ''PUFFIN''"

section \<open>The builder\<close>

record builder =
  b_partitions :: "(string \<times> (int \<times> layer_x) list) list"
  b_global_equality_deletes :: "(int \<times> eq_delete list) list"

definition empty_builder :: builder where
  "empty_builder = \<lparr>b_partitions = [], b_global_equality_deletes = []\<rparr>"

text \<open>\<open>partitions[key][sequence_number]\<close> followed by an update of the layer.\<close>

definition update_layer :: "string \<Rightarrow> int \<Rightarrow> (layer_x \<Rightarrow> layer_x) \<Rightarrow> builder \<Rightarrow> builder" where
  "update_layer key seq f b =
     b\<lparr>b_partitions := omap_alter key [] (omap_alter seq empty_layer_x f) (b_partitions b)\<rparr>"

definition AddDataFile :: "string \<Rightarrow> int \<Rightarrow> string \<Rightarrow> segment list \<Rightarrow> builder \<Rightarrow> builder" where
  "AddDataFile key seq path segments =
     update_layer key seq (\<lambda>l. l\<lparr>lx_data := lx_data l @
       [\<lparr>de_path = path, de_parts = segments, de_dv = None\<rparr>]\<rparr>)"

definition AddPositionDeletes ::
  "string \<Rightarrow> int \<Rightarrow> string \<Rightarrow> (string \<times> string) option \<Rightarrow> builder \<Rightarrow> builder" where
  "AddPositionDeletes key seq path min_max =
     update_layer key seq (\<lambda>l. l\<lparr>lx_pos := lx_pos l @
       [\<lparr>pdx_delete = \<lparr>pd_path = path\<rparr>, pdx_min_max = min_max\<rparr>]\<rparr>)"

definition AddGlobalEqualityDeletes :: "int \<Rightarrow> string \<Rightarrow> int list \<Rightarrow> builder \<Rightarrow> builder" where
  "AddGlobalEqualityDeletes seq path ids b =
     b\<lparr>b_global_equality_deletes :=
         omap_alter (seq - 1) [] (\<lambda>ds. ds @ [\<lparr>ed_path = path, ed_field_ids = ids\<rparr>])
           (b_global_equality_deletes b)\<rparr>"

definition AddEqualityDeletes :: "string \<Rightarrow> int \<Rightarrow> string \<Rightarrow> int list \<Rightarrow> builder \<Rightarrow> builder" where
  "AddEqualityDeletes key seq path ids =
     update_layer key (seq - 1) (\<lambda>l. l\<lparr>lx_eq := lx_eq l @
       [\<lparr>ed_path = path, ed_field_ids = ids\<rparr>]\<rparr>)"

text \<open>
  \<open>dv_entries_\<close> is an unordered map; it is kept as an ordered one, and nothing below
  depends on its order.
\<close>

definition AddDeletionVector ::
  "string \<Rightarrow> int \<Rightarrow> string \<Rightarrow> string \<Rightarrow> int \<Rightarrow> int \<Rightarrow> builder \<Rightarrow> builder" where
  "AddDeletionVector key seq path referenced offset len =
     (let dv = \<lparr>dv_path = path, dv_offset = offset, dv_length = len,
                dv_referenced_data_file = referenced\<rparr>
      in update_layer key seq (\<lambda>l. l\<lparr>lx_dv := omap_alter referenced dv (\<lambda>_. dv) (lx_dv l)\<rparr>))"

fun offsets_segments :: "int list \<Rightarrow> segment list" where
  "offsets_segments [] = []"
| "offsets_segments [o1] = [mk_segment o1 0]"
| "offsets_segments (o1 # o2 # os) = mk_segment o1 (o2 - o1) # offsets_segments (o2 # os)"

definition segments_of :: "int list \<Rightarrow> segment list" where
  "segments_of split_offsets =
     (if split_offsets = [] then [mk_segment 4 0] else offsets_segments split_offsets)"

definition kFilePathId :: int where
  "kFilePathId = 2147483546"

definition min_max_path :: "data_file \<Rightarrow> (string \<times> string) option" where
  "min_max_path df =
     (case (map_of (df_lower_bounds df) kFilePathId, map_of (df_upper_bounds df) kFilePathId) of
        (Some min_bytes, Some max_bytes) \<Rightarrow> Some (bytes_string min_bytes, bytes_string max_bytes)
      | _ \<Rightarrow> None)"

definition StoreEntry :: "string \<Rightarrow> manifest_entry \<Rightarrow> builder \<Rightarrow> builder result" where
  "StoreEntry key entry b =
     (case me_sequence_number entry of
        None \<Rightarrow> Inl Bad_optional_access
      | Some seq \<Rightarrow>
          let df = me_data_file entry in
          (case df_content df of
             kData \<Rightarrow> Inr (AddDataFile key seq (df_file_path df) (segments_of (df_split_offsets df)) b)
           | kPositionDeletes \<Rightarrow>
               if df_file_format df = kDeletionVectorFormat then
                 (case df_referenced_data_file df of
                    None \<Rightarrow> Inl (Runtime_error ''Deletion Vector must have referenced_data_file set'')
                  | Some referenced \<Rightarrow> (case df_content_offset df of
                      None \<Rightarrow> Inl (Runtime_error ''Deletion Vector must have content_offset set'')
                    | Some offset \<Rightarrow> (case df_content_size_in_bytes df of
                        None \<Rightarrow> Inl (Runtime_error ''Deletion Vector must have content_size_in_bytes set'')
                      | Some len \<Rightarrow> Inr (AddDeletionVector key seq (df_file_path df) referenced offset len b))))
               else Inr (AddPositionDeletes key seq (df_file_path df) (min_max_path df) b)
           | kEqualityDeletes \<Rightarrow>
               if key = [] then Inr (AddGlobalEqualityDeletes seq (df_file_path df) (df_equality_ids df) b)
               else Inr (AddEqualityDeletes key seq (df_file_path df) (df_equality_ids df) b)))"

definition AddEntry ::
  "partition_spec list \<Rightarrow> schema \<Rightarrow> manifest_entry \<Rightarrow> builder \<Rightarrow> builder result" where
  "AddEntry specs s entry b =
     (if me_status entry = kDeleted then Inr b
      else bindE (CheckPartitionTupleIsCorrect specs s (df_partition_tuple (me_data_file entry)))
        (\<lambda>_. bindE (SerializePartitionTuple (df_partition_tuple (me_data_file entry)))
          (\<lambda>key. StoreEntry key entry b)))"

section \<open>The result\<close>

definition ApplyGlobalEqualityDeletes ::
  "(int \<times> eq_delete list) list \<Rightarrow> (int \<times> layer_x) list \<Rightarrow> (int \<times> layer_x) list" where
  "ApplyGlobalEqualityDeletes global layers =
     fold (\<lambda>(seqnum, ds). omap_alter seqnum empty_layer_x (\<lambda>l. l\<lparr>lx_eq := lx_eq l @ ds\<rparr>)) global layers"

definition current_dvs :: "(int \<times> layer_x) list \<Rightarrow> (string \<times> dv_info \<times> int) list" where
  "current_dvs layers =
     fold (\<lambda>(seqnum, l). fold (\<lambda>(path, dv). omap_alter path (dv, seqnum) (\<lambda>_. (dv, seqnum))) (lx_dv l))
       layers []"

definition resolve_entry ::
  "(string \<times> dv_info \<times> int) list \<Rightarrow> int \<Rightarrow> layer_x \<Rightarrow> data_entry \<Rightarrow> data_entry result" where
  "resolve_entry dvs seqnum l data =
     (case map_of dvs (de_path data) of
        None \<Rightarrow> Inr data
      | Some (dv, dv_seqnum) \<Rightarrow>
          if seqnum > dv_seqnum then Inr data
          else bindE (ensure (lx_eq l = []) ''Consistency error: Data file has Deletion Vector, but layer also contains Equality Deletes. Mixed deletes are not allowed.'')
            (\<lambda>_. bindE (ensure (lx_pos l = []) ''Consistency error: Data file has Deletion Vector, but layer also contains Positional Deletes. Mixed deletes are not allowed.'')
              (\<lambda>_. Inr (data\<lparr>de_dv := Some dv\<rparr>))))"

definition resolve_layer ::
  "(string \<times> dv_info \<times> int) list \<Rightarrow> int \<times> layer_x \<Rightarrow> (int \<times> layer_x) result" where
  "resolve_layer dvs sl =
     (case sl of (seqnum, l) \<Rightarrow>
        if dvs = [] then Inr (seqnum, l)
        else bindE (mapE (resolve_entry dvs seqnum l) (lx_data l))
          (\<lambda>ds. Inr (seqnum, l\<lparr>lx_data := ds\<rparr>)))"

definition ResolveDeletionVectors :: "(int \<times> layer_x) list \<Rightarrow> (int \<times> layer_x) list result" where
  "ResolveDeletionVectors layers = mapE (resolve_layer (current_dvs layers)) layers"

definition finish_partition ::
  "(int \<times> eq_delete list) list \<Rightarrow> string \<times> (int \<times> layer_x) list \<Rightarrow>
     (string \<times> (int \<times> layer_x) list) result" where
  "finish_partition global kl =
     (case kl of (k, layers) \<Rightarrow>
        bindE (ResolveDeletionVectors (ApplyGlobalEqualityDeletes global layers)) (\<lambda>ls. Inr (k, ls)))"

definition GetResult :: "builder \<Rightarrow> layer list list result" where
  "GetResult b =
     bindE (mapE (finish_partition (b_global_equality_deletes b)) (b_partitions b)) GetPartitions"

section \<open>The layers by the entries added\<close>

definition entry_key :: "manifest_entry \<Rightarrow> string" where
  "entry_key e = (case SerializePartitionTuple (df_partition_tuple (me_data_file e)) of
     Inl _ \<Rightarrow> [] | Inr k \<Rightarrow> k)"

definition entry_seq :: "manifest_entry \<Rightarrow> int" where
  "entry_seq e = the (me_sequence_number e)"

definition is_data :: "manifest_entry \<Rightarrow> bool" where
  "is_data e \<longleftrightarrow> me_status e \<noteq> kDeleted \<and> df_content (me_data_file e) = kData"

definition is_dv :: "manifest_entry \<Rightarrow> bool" where
  "is_dv e \<longleftrightarrow> me_status e \<noteq> kDeleted \<and> df_content (me_data_file e) = kPositionDeletes \<and>
     df_file_format (me_data_file e) = kDeletionVectorFormat"

definition is_pos :: "manifest_entry \<Rightarrow> bool" where
  "is_pos e \<longleftrightarrow> me_status e \<noteq> kDeleted \<and> df_content (me_data_file e) = kPositionDeletes \<and>
     df_file_format (me_data_file e) \<noteq> kDeletionVectorFormat"

definition is_eq :: "manifest_entry \<Rightarrow> bool" where
  "is_eq e \<longleftrightarrow> me_status e \<noteq> kDeleted \<and> df_content (me_data_file e) = kEqualityDeletes"

definition data_of :: "manifest_entry \<Rightarrow> data_entry" where
  "data_of e = \<lparr>de_path = df_file_path (me_data_file e),
     de_parts = segments_of (df_split_offsets (me_data_file e)), de_dv = None\<rparr>"

definition pos_of :: "manifest_entry \<Rightarrow> pos_delete_x" where
  "pos_of e = \<lparr>pdx_delete = \<lparr>pd_path = df_file_path (me_data_file e)\<rparr>,
     pdx_min_max = min_max_path (me_data_file e)\<rparr>"

definition eq_of :: "manifest_entry \<Rightarrow> eq_delete" where
  "eq_of e = \<lparr>ed_path = df_file_path (me_data_file e), ed_field_ids = df_equality_ids (me_data_file e)\<rparr>"

definition dv_of :: "manifest_entry \<Rightarrow> dv_info" where
  "dv_of e = \<lparr>dv_path = df_file_path (me_data_file e),
     dv_offset = the (df_content_offset (me_data_file e)),
     dv_length = the (df_content_size_in_bytes (me_data_file e)),
     dv_referenced_data_file = the (df_referenced_data_file (me_data_file e))\<rparr>"

definition at :: "string \<Rightarrow> int \<Rightarrow> manifest_entry \<Rightarrow> bool" where
  "at k q e \<longleftrightarrow> entry_key e = k \<and> entry_seq e = q"

definition dv_map :: "manifest_entry list \<Rightarrow> (string \<times> dv_info) list" where
  "dv_map es = fold (\<lambda>e. omap_alter (dv_referenced_data_file (dv_of e)) (dv_of e) (\<lambda>_. dv_of e)) es []"

definition spec_layer :: "manifest_entry list \<Rightarrow> string \<Rightarrow> int \<Rightarrow> layer_x" where
  "spec_layer es k q =
     \<lparr>lx_data = map data_of (filter (\<lambda>e. is_data e \<and> at k q e) es),
      lx_pos = map pos_of (filter (\<lambda>e. is_pos e \<and> at k q e) es),
      lx_eq = map eq_of (filter (\<lambda>e. is_eq e \<and> k \<noteq> [] \<and> at k (q + 1) e) es),
      lx_dv = dv_map (filter (\<lambda>e. is_dv e \<and> at k q e) es)\<rparr>"

definition spec_global :: "manifest_entry list \<Rightarrow> int \<Rightarrow> eq_delete list" where
  "spec_global es q = map eq_of (filter (\<lambda>e. is_eq e \<and> at [] (q + 1) e) es)"

definition layer_at :: "builder \<Rightarrow> string \<Rightarrow> int \<Rightarrow> layer_x" where
  "layer_at b k q = omap_find empty_layer_x (omap_find [] (b_partitions b) k) q"

definition builder_invar :: "builder \<Rightarrow> bool" where
  "builder_invar b \<longleftrightarrow> omap (b_partitions b) \<and> (\<forall>k. omap (omap_find [] (b_partitions b) k)) \<and>
     omap (b_global_equality_deletes b)"

definition builder_holds :: "manifest_entry list \<Rightarrow> builder \<Rightarrow> bool" where
  "builder_holds es b \<longleftrightarrow> builder_invar b \<and> (\<forall>k q. layer_at b k q = spec_layer es k q) \<and>
     (\<forall>q. omap_find [] (b_global_equality_deletes b) q = spec_global es q)"

lemma layer_at_update:
  assumes "builder_invar b"
  shows "layer_at (update_layer k q f b) k' q' =
     (if k' = k \<and> q' = q then f (layer_at b k q) else layer_at b k' q')"
  using assms by (auto simp: layer_at_def update_layer_def builder_invar_def omap_find_alter)

lemma builder_invar_update: "builder_invar b \<Longrightarrow> builder_invar (update_layer k q f b)"
  by (auto simp: builder_invar_def update_layer_def omap_find_alter)

lemma update_layer_global [simp]:
  "b_global_equality_deletes (update_layer k q f b) = b_global_equality_deletes b"
  by (simp add: update_layer_def)

lemma builder_holds_update:
  assumes "builder_holds es b" "f (spec_layer es k q) = spec_layer (es @ [e]) k q"
    and "\<And>k' q'. \<not> (k' = k \<and> q' = q) \<Longrightarrow> spec_layer (es @ [e]) k' q' = spec_layer es k' q'"
    and "spec_global (es @ [e]) = spec_global es"
  shows "builder_holds (es @ [e]) (update_layer k q f b)"
  using assms by (auto simp: builder_holds_def builder_invar_update layer_at_update)

lemma builder_holds_empty: "builder_holds [] empty_builder"
  by (simp add: builder_holds_def builder_invar_def empty_builder_def layer_at_def omap_find_def
      spec_layer_def spec_global_def empty_layer_x_def dv_map_def)

lemmas entry_class_defs = is_data_def is_pos_def is_dv_def is_eq_def

lemma dv_map_snoc:
  "dv_map (es @ [e]) = omap_alter (dv_referenced_data_file (dv_of e)) (dv_of e) (\<lambda>_. dv_of e) (dv_map es)"
  by (simp add: dv_map_def)

lemma StoreEntry_step:
  assumes "builder_holds es b" "StoreEntry (entry_key e) e b = Inr b'" "me_status e \<noteq> kDeleted"
  shows "builder_holds (es @ [e]) b'"
proof -
  obtain seq where seq: "me_sequence_number e = Some seq"
    using assms(2) by (auto simp: StoreEntry_def Let_def split: option.splits)
  then have es: "entry_seq e = seq" by (simp add: entry_seq_def)
  show ?thesis
  proof (cases "df_content (me_data_file e)")
    case kData
    then have "b' = AddDataFile (entry_key e) seq (df_file_path (me_data_file e))
        (segments_of (df_split_offsets (me_data_file e))) b"
      using assms(2) seq by (simp add: StoreEntry_def Let_def)
    then show ?thesis
      unfolding AddDataFile_def using assms(1,3) kData es
      by (simp, intro builder_holds_update)
        (auto simp: spec_layer_def spec_global_def entry_class_defs at_def data_of_def fun_eq_iff)
  next
    case kPositionDeletes
    show ?thesis
    proof (cases "df_file_format (me_data_file e) = kDeletionVectorFormat")
      case True
      then obtain r off len where "df_referenced_data_file (me_data_file e) = Some r"
          "df_content_offset (me_data_file e) = Some off"
          "df_content_size_in_bytes (me_data_file e) = Some len"
        and b': "b' = AddDeletionVector (entry_key e) seq (df_file_path (me_data_file e)) r off len b"
        using assms(2) seq kPositionDeletes by (auto simp: StoreEntry_def Let_def split: option.splits)
      then have "b' = update_layer (entry_key e) seq
          (\<lambda>l. l\<lparr>lx_dv := omap_alter (dv_referenced_data_file (dv_of e)) (dv_of e) (\<lambda>_. dv_of e) (lx_dv l)\<rparr>) b"
        by (simp add: AddDeletionVector_def dv_of_def Let_def)
      then show ?thesis
        using assms(1,3) kPositionDeletes True es
        by (simp, intro builder_holds_update)
          (auto simp: spec_layer_def spec_global_def entry_class_defs at_def dv_map_snoc fun_eq_iff)
    next
      case False
      then have "b' = AddPositionDeletes (entry_key e) seq (df_file_path (me_data_file e))
          (min_max_path (me_data_file e)) b"
        using assms(2) seq kPositionDeletes by (simp add: StoreEntry_def Let_def)
      then show ?thesis
        unfolding AddPositionDeletes_def using assms(1,3) kPositionDeletes False es
        by (simp, intro builder_holds_update)
          (auto simp: spec_layer_def spec_global_def entry_class_defs at_def pos_of_def fun_eq_iff)
    qed
  next
    case kEqualityDeletes
    show ?thesis
    proof (cases "entry_key e = []")
      case True
      then have b': "b' = AddGlobalEqualityDeletes seq (df_file_path (me_data_file e))
          (df_equality_ids (me_data_file e)) b"
        using assms(2) seq kEqualityDeletes by (simp add: StoreEntry_def Let_def)
      have "spec_layer (es @ [e]) = spec_layer es"
        using kEqualityDeletes True by (auto simp: spec_layer_def entry_class_defs at_def fun_eq_iff)
      moreover have "spec_global (es @ [e]) q = (if q = seq - 1 then spec_global es q @ [eq_of e] else spec_global es q)"
        for q using kEqualityDeletes True es assms(3)
        by (auto simp: spec_global_def entry_class_defs at_def)
      ultimately show ?thesis
        using assms(1) b'
        by (auto simp: builder_holds_def builder_invar_def AddGlobalEqualityDeletes_def layer_at_def
            omap_find_alter eq_of_def)
    next
      case False
      then have "b' = AddEqualityDeletes (entry_key e) seq (df_file_path (me_data_file e))
          (df_equality_ids (me_data_file e)) b"
        using assms(2) seq kEqualityDeletes by (simp add: StoreEntry_def Let_def)
      then show ?thesis
        unfolding AddEqualityDeletes_def using assms(1,3) kEqualityDeletes False es
        by (simp, intro builder_holds_update)
          (auto simp: spec_layer_def spec_global_def entry_class_defs at_def eq_of_def fun_eq_iff)
    qed
  qed
qed

lemma AddEntry_step:
  assumes "builder_holds es b" "AddEntry specs s e b = Inr b'"
  shows "builder_holds (es @ [e]) b'"
proof (cases "me_status e = kDeleted")
  case True
  then have "b' = b" using assms(2) by (simp add: AddEntry_def)
  moreover have "spec_layer (es @ [e]) = spec_layer es" "spec_global (es @ [e]) = spec_global es"
    using True by (auto simp: spec_layer_def spec_global_def entry_class_defs fun_eq_iff)
  ultimately show ?thesis using assms(1) by (simp add: builder_holds_def)
next
  case False
  then obtain key where "SerializePartitionTuple (df_partition_tuple (me_data_file e)) = Inr key"
      "StoreEntry key e b = Inr b'"
    using assms(2) by (auto simp: AddEntry_def bindE_eq_Inr_iff)
  then show ?thesis
    using StoreEntry_step [OF assms(1) _ False] by (simp add: entry_key_def)
qed

lemma AddEntries_holds:
  "foldE (AddEntry specs s) es empty_builder = Inr b \<Longrightarrow> builder_holds es b"
proof (induction es arbitrary: b rule: rev_induct)
  case Nil
  then show ?case using builder_holds_empty by simp
next
  case (snoc e es)
  then show ?case using AddEntry_step by (auto simp: foldE_append bindE_eq_Inr_iff)
qed

end
