(* ===== verification/Plan_Correctness.thy ===== *)
theory Plan_Correctness
  imports Scan_Builder
begin

text \<open>
  The plan of \<open>ScanMetadataBuilder\<close> against the rules of the Iceberg specification
  that the comments of \<open>StoreEntry\<close> quote: a positional delete file applies to a data
  file of the same partition whose sequence number is not greater, an equality delete
  file to a data file with a strictly smaller sequence number in the same partition or,
  when it is unpartitioned, in any partition, and a deletion vector to the data file it
  references.  The builder never compares two entries; it files them under keys and
  sequence numbers, shifts equality deletes by one and relies on the order of its maps.
  The main lemma of this theory is that the plan read off these maps is the one the
  rules describe.
\<close>

section \<open>Specification\<close>

definition eq_applies :: "manifest_entry \<Rightarrow> manifest_entry \<Rightarrow> bool" where
  "eq_applies e f \<longleftrightarrow> is_data e \<and> is_eq f \<and> entry_seq e < entry_seq f \<and>
     (entry_key f = [] \<or> entry_key f = entry_key e)"

definition pos_applies :: "manifest_entry \<Rightarrow> manifest_entry \<Rightarrow> bool" where
  "pos_applies e f \<longleftrightarrow> is_data e \<and> is_pos f \<and> entry_seq e \<le> entry_seq f \<and> entry_key f = entry_key e"

text \<open>The deletion vector of a path: the one with the greatest sequence number, the last added of these.\<close>

definition newer_dv :: "string \<Rightarrow> string \<Rightarrow> manifest_entry \<Rightarrow> (dv_info \<times> int) option \<Rightarrow> (dv_info \<times> int) option" where
  "newer_dv k p e acc =
     (if is_dv e \<and> entry_key e = k \<and> dv_referenced_data_file (dv_of e) = p \<and>
         (case acc of None \<Rightarrow> True | Some (_, q) \<Rightarrow> q \<le> entry_seq e)
      then Some (dv_of e, entry_seq e) else acc)"

definition dv_for :: "manifest_entry list \<Rightarrow> string \<Rightarrow> string \<Rightarrow> (dv_info \<times> int) option" where
  "dv_for es k p = fold (newer_dv k p) es None"

definition has_dv :: "manifest_entry list \<Rightarrow> manifest_entry \<Rightarrow> bool" where
  "has_dv es e \<longleftrightarrow> (case dv_for es (entry_key e) (de_path (data_of e)) of
     None \<Rightarrow> False | Some (_, q) \<Rightarrow> entry_seq e \<le> q)"

definition planned_data :: "manifest_entry list \<Rightarrow> manifest_entry \<Rightarrow> data_entry" where
  "planned_data es e =
     (if has_dv es e then (data_of e)\<lparr>de_dv := map_option fst (dv_for es (entry_key e) (de_path (data_of e)))\<rparr>
      else data_of e)"

text \<open>
  A data file with a deletion vector in a layer that also holds other deletes: the one
  inconsistency \<open>ResolveDeletionVectors\<close> refuses.
\<close>

definition mixed_deletes :: "manifest_entry list \<Rightarrow> bool" where
  "mixed_deletes es \<longleftrightarrow> (\<exists>e \<in> set es. is_data e \<and> has_dv es e \<and>
     (\<exists>f \<in> set es. is_pos f \<and> entry_key f = entry_key e \<and> entry_seq f = entry_seq e \<or>
        is_eq f \<and> (entry_key f = [] \<or> entry_key f = entry_key e) \<and> entry_seq f = entry_seq e + 1))"

definition ordered_range :: "manifest_entry \<Rightarrow> bool" where
  "ordered_range e \<longleftrightarrow> (case pdx_min_max (pos_of e) of None \<Rightarrow> True | Some (mn, mx) \<Rightarrow> mn \<le> mx)"

section \<open>Pairs of an ordered partition\<close>

lemma omap_nth_less:
  assumes "omap m" "i < length m" "j < length m"
  shows "fst (m ! i) < fst (m ! j) \<longleftrightarrow> i < j"
proof -
  have less: "i < j \<Longrightarrow> j < length m \<Longrightarrow> fst (m ! i) < fst (m ! j)" for i j
    using assms(1) unfolding omap_def sorted_wrt_iff_nth_less by simp
  show ?thesis using less [of i j] less [of j i] assms(2,3) by (cases i j rule: linorder_cases) auto
qed

lemma applied_omap:
  assumes "omap m"
  shows "(d, x) \<in> set (applied data dels (map snd m)) \<longleftrightarrow>
     (\<exists>q q' l l'. (q, l) \<in> set m \<and> (q', l') \<in> set m \<and> q \<le> q' \<and> d \<in> set (data l) \<and> x \<in> set (dels l'))"
    (is "?L \<longleftrightarrow> ?R")
proof
  assume ?L
  then obtain i j where ij: "i \<le> j" "j < length m" "d \<in> set (data (snd (m ! i)))" "x \<in> set (dels (snd (m ! j)))"
    unfolding applied_iff by auto
  then have "fst (m ! i) \<le> fst (m ! j)"
    using omap_nth_less [OF assms, of j i] by (meson leD le_less_trans leI)
  moreover have "m ! i \<in> set m" "m ! j \<in> set m" using ij(1,2) by auto
  ultimately show ?R using ij(3,4) by (metis prod.collapse)
next
  assume ?R
  then obtain q q' l l' where m: "(q, l) \<in> set m" "(q', l') \<in> set m" "q \<le> q'"
      "d \<in> set (data l)" "x \<in> set (dels l')" by blast
  obtain i j where ij: "i < length m" "m ! i = (q, l)" "j < length m" "m ! j = (q', l')"
    using m(1,2) by (metis in_set_conv_nth)
  then have "i \<le> j" using omap_nth_less [OF assms, of j i] m(3) by auto
  then show ?L unfolding applied_iff using ij m(4,5) by (intro exI [of _ i] exI [of _ j]) simp
qed

lemma applied_omap_find:
  assumes "omap m" "data d0 = []" "dels d0 = []"
  shows "(d, x) \<in> set (applied data dels (map snd m)) \<longleftrightarrow>
     (\<exists>q q'. q \<le> q' \<and> d \<in> set (data (omap_find d0 m q)) \<and> x \<in> set (dels (omap_find d0 m q')))"
    (is "?L \<longleftrightarrow> ?R")
proof
  assume ?L
  then show ?R unfolding applied_omap [OF assms(1)] by (metis omap_find_in [OF assms(1)])
next
  assume ?R
  then obtain q q' where q: "q \<le> q'" "d \<in> set (data (omap_find d0 m q))" "x \<in> set (dels (omap_find d0 m q'))"
    by blast
  then obtain l l' where "map_of m q = Some l" "map_of m q' = Some l'"
    using assms(2,3) by (fastforce simp: omap_find_def split: option.splits)
  then show ?L
    unfolding applied_omap [OF assms(1)] using q
    by (intro exI [of _ q] exI [of _ q'] exI [of _ l] exI [of _ l'])
      (simp add: omap_find_def in_omap_iff [OF assms(1)])
qed

section \<open>Global equality deletes\<close>

lemma ApplyGlobal_omap: "omap m \<Longrightarrow> omap (ApplyGlobalEqualityDeletes g m)"
  unfolding ApplyGlobalEqualityDeletes_def by (induction g arbitrary: m) auto

lemma ApplyGlobal_find:
  assumes "omap m" "omap g"
  shows "omap_find empty_layer_x (ApplyGlobalEqualityDeletes g m) q =
     (omap_find empty_layer_x m q)\<lparr>lx_eq := lx_eq (omap_find empty_layer_x m q) @ omap_find [] g q\<rparr>"
  using assms
proof (induction g arbitrary: m)
  case Nil
  then show ?case by (simp add: ApplyGlobalEqualityDeletes_def omap_find_def)
next
  case (Cons a g)
  obtain s ds where a: "a = (s, ds)" by (cases a)
  have g: "omap g" "\<forall>k \<in> fst ` set g. s < k" using Cons.prems(2) a by (simp_all add: omap_Cons)
  let ?m = "omap_alter s empty_layer_x (\<lambda>l. l\<lparr>lx_eq := lx_eq l @ ds\<rparr>) m"
  have "ApplyGlobalEqualityDeletes (a # g) m = ApplyGlobalEqualityDeletes g ?m"
    by (simp add: ApplyGlobalEqualityDeletes_def a)
  moreover have none: "map_of g s = None" using g(2) by (force simp: map_of_eq_None_iff)
  moreover from none have "omap_find [] (a # g) q = (if q = s then ds else omap_find [] g q)"
      "omap_find [] g s = []"
    by (simp_all add: omap_find_def a)
  ultimately show ?case
    using Cons.IH [of ?m] Cons.prems(1) g(1) by (simp add: omap_find_alter)
qed

section \<open>Deletion vectors\<close>

lemma layer_dvs_lookup:
  assumes "omap dvs" "omap acc"
  shows "omap (fold (\<lambda>(p, dv). omap_alter p (dv, q) (\<lambda>_. (dv, q))) dvs acc) \<and>
     map_of (fold (\<lambda>(p, dv). omap_alter p (dv, q) (\<lambda>_. (dv, q))) dvs acc) p =
       (case map_of dvs p of None \<Rightarrow> map_of acc p | Some dv \<Rightarrow> Some (dv, q))"
  using assms
proof (induction dvs arbitrary: acc)
  case (Cons a dvs)
  obtain p' dv where a: "a = (p', dv)" by (cases a)
  have d: "omap dvs" "\<forall>k \<in> fst ` set dvs. p' < k" using Cons.prems(1) a by (simp_all add: omap_Cons)
  then have "map_of dvs p' = None" by (force simp: map_of_eq_None_iff)
  then show ?case
    using Cons.IH [of "omap_alter p' (dv, q) (\<lambda>_. (dv, q)) acc"] Cons.prems(2) d(1) a
    by (auto simp: map_of_omap_alter split: option.splits)
qed simp

text \<open>What it means that \<open>r\<close> is the newest vector of a path in a family of layers.\<close>

definition newest :: "(int \<Rightarrow> dv_info option) \<Rightarrow> (dv_info \<times> int) option \<Rightarrow> bool" where
  "newest look r \<longleftrightarrow> (case r of
     None \<Rightarrow> \<forall>q. look q = None
   | Some (dv, q) \<Rightarrow> look q = Some dv \<and> (\<forall>q' > q. look q' = None))"

lemma newest_unique: "newest look r \<Longrightarrow> newest look r' \<Longrightarrow> r = r'"
proof -
  assume n: "newest look r" "newest look r'"
  have "q = q'" if "look q = Some dv" "\<forall>j > q. look j = None" "look q' = Some dv'" "\<forall>j > q'. look j = None"
    for q q' dv dv'
    using that by (metis linorder_neqE option.distinct(1))
  with n show "r = r'" by (auto simp: newest_def split: option.splits) fastforce+
qed

lemma newest_extend:
  assumes "newest look r" "\<And>q' dv. look q' = Some dv \<Longrightarrow> q' < q"
  shows "newest (look(q := v)) (case v of None \<Rightarrow> r | Some dv \<Rightarrow> Some (dv, q))"
proof (cases v)
  case None
  then have "look(q := v) = look" using assms(2) [of q] by (metis fun_upd_triv less_irrefl not_None_eq)
  then show ?thesis using assms(1) None by simp
next
  case (Some dv)
  have "look q' = None" if "q < q'" for q' using assms(2) [of q'] that by (metis not_None_eq not_less_iff_gr_or_eq)
  then show ?thesis using Some by (simp add: newest_def)
qed

lemma current_dvs_snoc:
  "current_dvs (ls @ [(q, l)]) =
     fold (\<lambda>(p, dv). omap_alter p (dv, q) (\<lambda>_. (dv, q))) (lx_dv l) (current_dvs ls)"
  by (simp add: current_dvs_def)

lemma omap_snoc: "omap (ls @ [(q, l)]) \<longleftrightarrow> omap ls \<and> (\<forall>k \<in> fst ` set ls. k < q)"
  by (auto simp: omap_def sorted_wrt_append)

lemma current_dvs_newest:
  assumes "omap ls" "\<forall>(q, l) \<in> set ls. omap (lx_dv l)"
  shows "omap (current_dvs ls) \<and>
     newest (\<lambda>q. map_of (lx_dv (omap_find empty_layer_x ls q)) p) (map_of (current_dvs ls) p)"
  using assms
proof (induction ls rule: rev_induct)
  case Nil
  then show ?case by (simp add: current_dvs_def newest_def omap_find_def empty_layer_x_def)
next
  case (snoc a ls)
  obtain q l where a: "a = (q, l)" by (cases a)
  have ls: "omap ls" "\<forall>k \<in> fst ` set ls. k < q" "omap (lx_dv l)" "\<forall>(q, l) \<in> set ls. omap (lx_dv l)"
    using snoc.prems a by (auto simp: omap_snoc)
  note IH = snoc.IH [OF ls(1,4)]
  have look: "omap_find empty_layer_x (ls @ [(q, l)]) q' =
      (if q' = q then l else omap_find empty_layer_x ls q')" for q'
  proof -
    have "map_of ls q = None" using ls(2) by (force simp: map_of_eq_None_iff)
    then show ?thesis by (auto simp: omap_find_def map_add_def split: option.splits)
  qed
  have before: "q' < q" if "map_of (lx_dv (omap_find empty_layer_x ls q')) p = Some dv" for q' dv
  proof -
    have "map_of ls q' \<noteq> None" using that by (auto simp: omap_find_def empty_layer_x_def split: option.splits)
    then have "q' \<in> fst ` set ls" by (simp add: map_of_eq_None_iff)
    then show ?thesis using ls(2) by blast
  qed
  have "(\<lambda>q'. map_of (lx_dv (omap_find empty_layer_x (ls @ [(q, l)]) q')) p) =
      (\<lambda>q'. map_of (lx_dv (omap_find empty_layer_x ls q')) p)(q := map_of (lx_dv l) p)"
    by (simp add: look fun_eq_iff)
  then show ?case
    using IH layer_dvs_lookup [OF ls(3), of "current_dvs ls" q p] newest_extend [OF _ before]
    unfolding a current_dvs_snoc by simp
qed

lemma omap_dv_map [simp]: "omap (dv_map es)"
proof -
  have "omap m \<Longrightarrow> omap (fold (\<lambda>e. omap_alter (dv_referenced_data_file (dv_of e)) (dv_of e) (\<lambda>_. dv_of e)) es m)"
    for m by (induction es arbitrary: m) auto
  then show ?thesis by (simp add: dv_map_def)
qed

lemma newest_insert:
  assumes "newest look r"
  shows "newest (look(s := Some dv))
     (if (case r of None \<Rightarrow> True | Some (_, q) \<Rightarrow> q \<le> s) then Some (dv, s) else r)"
  using assms by (cases r) (auto simp: newest_def)

lemma dv_for_newest:
  "newest (\<lambda>q. map_of (dv_map (filter (\<lambda>e. is_dv e \<and> at k q e) es)) p) (dv_for es k p)"
proof (induction es rule: rev_induct)
  case Nil
  then show ?case by (simp add: dv_for_def newest_def dv_map_def)
next
  case (snoc e es)
  let ?look = "\<lambda>es q. map_of (dv_map (filter (\<lambda>e. is_dv e \<and> at k q e) es)) p"
  have step: "dv_for (es @ [e]) k p = newer_dv k p e (dv_for es k p)" by (simp add: dv_for_def)
  show ?case
  proof (cases "is_dv e \<and> entry_key e = k \<and> dv_referenced_data_file (dv_of e) = p")
    case True
    then have "?look (es @ [e]) = (?look es)(entry_seq e := Some (dv_of e))"
      by (auto simp: fun_eq_iff at_def dv_map_snoc map_of_omap_alter)
    then show ?thesis
      using newest_insert [OF snoc.IH, of "entry_seq e" "dv_of e"] True
      unfolding step newer_dv_def by simp
  next
    case False
    then have "?look (es @ [e]) = ?look es"
      by (auto simp: fun_eq_iff at_def dv_map_snoc map_of_omap_alter)
    then show ?thesis using snoc.IH False unfolding step newer_dv_def by auto
  qed
qed

section \<open>The finished partitions\<close>

definition eqs_at :: "manifest_entry list \<Rightarrow> string \<Rightarrow> int \<Rightarrow> eq_delete list" where
  "eqs_at es k q = lx_eq (spec_layer es k q) @ spec_global es q"

definition finished_layer :: "manifest_entry list \<Rightarrow> string \<Rightarrow> int \<Rightarrow> layer_x" where
  "finished_layer es k q =
     (spec_layer es k q)\<lparr>lx_data := map (planned_data es) (filter (\<lambda>e. is_data e \<and> at k q e) es),
        lx_eq := eqs_at es k q\<rparr>"

lemma eqs_at_iff:
  "x \<in> set (eqs_at es k q) \<longleftrightarrow>
     (\<exists>f \<in> set es. is_eq f \<and> x = eq_of f \<and> entry_seq f = q + 1 \<and> (entry_key f = [] \<or> entry_key f = k))"
  by (auto simp: eqs_at_def spec_layer_def spec_global_def at_def)

lemma no_mixed_layer:
  assumes "\<not> mixed_deletes es" "e \<in> set es" "is_data e" "at k q e" "has_dv es e"
  shows "eqs_at es k q = []" "lx_pos (spec_layer es k q) = []"
proof -
  have kq: "k = entry_key e" "q = entry_seq e" using assms(4) by (simp_all add: at_def)
  have "\<not> (is_eq f \<and> entry_seq f = q + 1 \<and> (entry_key f = [] \<or> entry_key f = k))" if "f \<in> set es" for f
    using assms(1,2,3,5) that unfolding mixed_deletes_def kq by metis
  then have "x \<notin> set (eqs_at es k q)" for x unfolding eqs_at_iff by metis
  then show "eqs_at es k q = []" by (metis list.set_intros(1) neq_Nil_conv)
  have "\<not> (is_pos f \<and> at k q f)" if "f \<in> set es" for f
    using assms(1,2,3,5) that unfolding mixed_deletes_def at_def kq by metis
  then show "lx_pos (spec_layer es k q) = []"
    by (simp add: spec_layer_def filter_empty_conv)
qed

lemma resolve_entry_planned:
  assumes "map_of dvs (de_path (data_of e)) = dv_for es k (de_path (data_of e))"
    and "at k q e" "e \<in> set es" "is_data e" "\<not> mixed_deletes es"
    and "lx_eq l = eqs_at es k q" "lx_pos l = lx_pos (spec_layer es k q)"
  shows "resolve_entry dvs q l (data_of e) = Inr (planned_data es e)"
proof (cases "has_dv es e")
  case True
  then obtain dv q' where "dv_for es k (de_path (data_of e)) = Some (dv, q')" "q \<le> q'"
    using assms(2) by (auto simp: has_dv_def at_def split: option.splits)
  then show ?thesis
    using True assms no_mixed_layer [OF assms(5,3,4,2)]
    by (simp add: resolve_entry_def planned_data_def at_def)
next
  case False
  then show ?thesis
    using assms(1,2)
    by (auto simp: resolve_entry_def planned_data_def has_dv_def at_def split: option.splits)
qed

lemma resolve_layer_finished:
  assumes "\<And>p. map_of dvs p = dv_for es k p" "\<not> mixed_deletes es"
    and l: "l = (spec_layer es k q)\<lparr>lx_eq := eqs_at es k q\<rparr>"
  shows "resolve_layer dvs (q, l) = Inr (q, finished_layer es k q)"
proof -
  let ?es = "filter (\<lambda>e. is_data e \<and> at k q e) es"
  have "mapE (resolve_entry dvs q l) (map data_of ?es) = Inr (map (planned_data es) ?es)"
  proof -
    have "mapE (resolve_entry dvs q l) (map data_of es') = Inr (map (planned_data es) es')"
      if "set es' \<subseteq> set ?es" for es'
      using that by (induction es')
        (auto simp: resolve_entry_planned [OF assms(1) _ _ _ assms(2)] l)
    then show ?thesis by simp
  qed
  moreover have "lx_data l = map data_of ?es" by (simp add: l spec_layer_def)
  moreover have "map (planned_data es) ?es = map data_of ?es" if "dvs = []"
    using that assms(1) by (auto simp: planned_data_def has_dv_def at_def split: option.splits)
  ultimately show ?thesis
    by (auto simp: resolve_layer_def finished_layer_def l)
qed

definition finished_partition ::
  "manifest_entry list \<Rightarrow> builder \<Rightarrow> string \<Rightarrow> (int \<times> layer_x) list \<Rightarrow> (int \<times> layer_x) list" where
  "finished_partition es b k ls =
     map (\<lambda>(q, l). (q, finished_layer es k q)) (ApplyGlobalEqualityDeletes (b_global_equality_deletes b) ls)"

definition filled :: "manifest_entry list \<Rightarrow> builder \<Rightarrow> string \<Rightarrow> (int \<times> layer_x) list \<Rightarrow> bool" where
  "filled es b k ls \<longleftrightarrow> builder_holds es b \<and> (k, ls) \<in> set (b_partitions b)"

lemma filled_find:
  assumes "filled es b k ls"
  shows "omap_find empty_layer_x ls q = spec_layer es k q" "omap ls" "omap (b_global_equality_deletes b)"
  using assms omap_find_in [of "b_partitions b" k ls "[]"]
  by (auto simp: filled_def builder_holds_def builder_invar_def layer_at_def)

lemma global_find:
  assumes "filled es b k ls"
  shows "omap (ApplyGlobalEqualityDeletes (b_global_equality_deletes b) ls)"
    and "omap_find empty_layer_x (ApplyGlobalEqualityDeletes (b_global_equality_deletes b) ls) q =
     (spec_layer es k q)\<lparr>lx_eq := eqs_at es k q\<rparr>"
  using assms filled_find [OF assms]
  by (simp_all add: ApplyGlobal_omap ApplyGlobal_find filled_def builder_holds_def eqs_at_def)

lemma current_dvs_global:
  assumes "filled es b k ls"
  shows "map_of (current_dvs (ApplyGlobalEqualityDeletes (b_global_equality_deletes b) ls)) p = dv_for es k p"
proof -
  let ?ls = "ApplyGlobalEqualityDeletes (b_global_equality_deletes b) ls"
  note om = global_find(1) [OF assms]
  have dvs: "lx_dv (omap_find empty_layer_x ?ls q) = dv_map (filter (\<lambda>e. is_dv e \<and> at k q e) es)" for q
    by (simp add: global_find [OF assms] spec_layer_def)
  have "omap (lx_dv l)" if "(q, l) \<in> set ?ls" for q l
    using dvs [of q] omap_find_in [OF om that] omap_dv_map by metis
  then have "\<forall>(q, l) \<in> set ?ls. omap (lx_dv l)" by auto
  then have "newest (\<lambda>q. map_of (lx_dv (omap_find empty_layer_x ?ls q)) p) (map_of (current_dvs ?ls) p)"
    using current_dvs_newest [OF om] by blast
  then show ?thesis
    unfolding dvs using dv_for_newest newest_unique by blast
qed

lemma finish_partition_ok:
  assumes "filled es b k ls" "\<not> mixed_deletes es"
  shows "finish_partition (b_global_equality_deletes b) (k, ls) = Inr (k, finished_partition es b k ls)"
proof -
  let ?ls = "ApplyGlobalEqualityDeletes (b_global_equality_deletes b) ls"
  have "resolve_layer (current_dvs ?ls) x = Inr (case x of (q, l) \<Rightarrow> (q, finished_layer es k q))"
    if "x \<in> set ?ls" for x
  proof -
    obtain q l where x: "x = (q, l)" by (cases x)
    then have "l = (spec_layer es k q)\<lparr>lx_eq := eqs_at es k q\<rparr>"
      using that omap_find_in [OF global_find(1) [OF assms(1)]] global_find(2) [OF assms(1)] by metis
    then show ?thesis
      using resolve_layer_finished [OF current_dvs_global [OF assms(1)] assms(2)] x by simp
  qed
  then have "ResolveDeletionVectors ?ls = Inr (finished_partition es b k ls)"
    unfolding ResolveDeletionVectors_def finished_partition_def by (rule mapE_total)
  then show ?thesis by (simp add: finish_partition_def)
qed

lemma finished_omap: "filled es b k ls \<Longrightarrow> omap (finished_partition es b k ls)"
  unfolding finished_partition_def by (simp add: global_find)

lemma finished_find:
  assumes "filled es b k ls"
  shows "omap_find empty_layer_x (finished_partition es b k ls) q = finished_layer es k q"
proof (cases "map_of (ApplyGlobalEqualityDeletes (b_global_equality_deletes b) ls) q")
  case None
  then have e: "(spec_layer es k q)\<lparr>lx_eq := eqs_at es k q\<rparr> = empty_layer_x"
    using global_find(2) [OF assms, of q] by (simp add: omap_find_def)
  have "lx_data (spec_layer es k q) = []"
    using arg_cong [OF e, of lx_data] by (simp add: empty_layer_x_def)
  then have "filter (\<lambda>e. is_data e \<and> at k q e) es = []"
    by (simp add: spec_layer_def)
  then have "finished_layer es k q = (spec_layer es k q)\<lparr>lx_eq := eqs_at es k q\<rparr>"
    by (simp add: finished_layer_def spec_layer_def)
  with e None show ?thesis
    by (simp add: finished_partition_def omap_find_def map_of_map_values)
qed (simp add: finished_partition_def omap_find_def map_of_map_values)

lemma finished_pairs:
  assumes "filled es b k ls" "dels empty_layer_x = []"
  shows "(d, x) \<in> set (applied lx_data dels (map snd (finished_partition es b k ls))) \<longleftrightarrow>
     (\<exists>q q'. q \<le> q' \<and> d \<in> set (lx_data (finished_layer es k q)) \<and> x \<in> set (dels (finished_layer es k q')))"
proof -
  have "lx_data empty_layer_x = []" by (simp add: empty_layer_x_def)
  from applied_omap_find [where data = lx_data and dels = dels, OF finished_omap [OF assms(1)] this assms(2)]
  show ?thesis by (simp add: finished_find [OF assms(1)])
qed

lemma finished_data_iff:
  "d \<in> set (lx_data (finished_layer es k q)) \<longleftrightarrow>
     (\<exists>e \<in> set es. is_data e \<and> entry_key e = k \<and> entry_seq e = q \<and> d = planned_data es e)"
  by (auto simp: finished_layer_def at_def)

lemma finished_pos_iff:
  "x \<in> set (lx_pos (finished_layer es k q)) \<longleftrightarrow>
     (\<exists>f \<in> set es. is_pos f \<and> entry_key f = k \<and> entry_seq f = q \<and> x = pos_of f)"
  by (auto simp: finished_layer_def spec_layer_def at_def)

lemma finished_eq_iff:
  "x \<in> set (lx_eq (finished_layer es k q)) \<longleftrightarrow>
     (\<exists>f \<in> set es. is_eq f \<and> x = eq_of f \<and> entry_seq f = q + 1 \<and> (entry_key f = [] \<or> entry_key f = k))"
  by (simp add: finished_layer_def eqs_at_iff)

section \<open>All partitions\<close>

lemma sum_list_classes:
  assumes "distinct ks" "\<And>e. e \<in># M \<Longrightarrow> Q e \<Longrightarrow> c e \<in> set ks"
  shows "(\<Sum>k\<leftarrow>ks. filter_mset (\<lambda>e. Q e \<and> c e = k) M) = filter_mset Q M"
  using assms(2)
proof (induction M)
  case (add e M)
  have "(\<Sum>k\<leftarrow>ks. filter_mset (\<lambda>e. Q e \<and> c e = k) (add_mset e M)) =
      (\<Sum>k\<leftarrow>ks. (if Q e \<and> c e = k then {#e#} else {#}) + filter_mset (\<lambda>e. Q e \<and> c e = k) M)"
    by (intro arg_cong [where f = sum_list] map_cong) auto
  also have "\<dots> = (\<Sum>k\<leftarrow>ks. if Q e \<and> c e = k then {#e#} else {#}) + filter_mset Q M"
    using add by (simp add: sum_list_addf)
  also have "(\<Sum>k\<leftarrow>ks. if Q e \<and> c e = k then {#e#} else {#}) = (if Q e then {#e#} else {#})"
    using add.prems [of e] assms(1)
    by (simp add: sum_list_distinct_conv_sum_set sum.delta')
  finally show ?case by simp
qed simp

lemma image_mset_sum_list: "image_mset f (\<Sum>x\<leftarrow>xs. g x) = (\<Sum>x\<leftarrow>xs. image_mset f (g x))"
  by (induction xs) auto

lemma data_partition:
  assumes "builder_holds es b" "e \<in> set es" "is_data e"
  shows "\<exists>ls. filled es b (entry_key e) ls"
proof -
  have "data_of e \<in> set (lx_data (spec_layer es (entry_key e) (entry_seq e)))"
    using assms(2,3) by (auto simp: spec_layer_def at_def)
  then have "data_of e \<in> set (lx_data (layer_at b (entry_key e) (entry_seq e)))"
    using assms(1) by (simp add: builder_holds_def)
  then have "omap_find [] (b_partitions b) (entry_key e) \<noteq> []"
    by (auto simp: layer_at_def omap_find_def empty_layer_x_def)
  then obtain ls where "map_of (b_partitions b) (entry_key e) = Some ls"
    by (auto simp: omap_find_def split: option.splits)
  then show ?thesis using assms(1) map_of_SomeD by (fastforce simp: filled_def)
qed

lemma partition_data_sum: "mset (partition_data (map snd m)) = (\<Sum>(q, l)\<leftarrow>m. mset (lx_data l))"
  by (induction m) (auto simp: partition_data_def)

lemma finished_partition_data:
  assumes "filled es b k ls"
  shows "mset (partition_data (map snd (finished_partition es b k ls))) =
     image_mset (planned_data es) (filter_mset (\<lambda>e. is_data e \<and> entry_key e = k) (mset es))"
proof -
  let ?fp = "finished_partition es b k ls"
  have om: "omap ?fp" using assms by (rule finished_omap)
  have "(\<Sum>(q, l)\<leftarrow>?fp. mset (lx_data l)) =
      (\<Sum>q\<leftarrow>map fst ?fp. image_mset (planned_data es)
         (filter_mset (\<lambda>e. (is_data e \<and> entry_key e = k) \<and> entry_seq e = q) (mset es)))"
    unfolding map_map
  proof (intro arg_cong [where f = sum_list] map_cong refl)
    fix x assume x: "x \<in> set ?fp"
    obtain q l where ql: "x = (q, l)" by (cases x)
    then have "l = finished_layer es k q"
      using x omap_find_in [OF om] finished_find [OF assms] by metis
    then show "(case x of (q, l) \<Rightarrow> mset (lx_data l)) = ((\<lambda>q. image_mset (planned_data es)
        (filter_mset (\<lambda>e. (is_data e \<and> entry_key e = k) \<and> entry_seq e = q) (mset es))) \<circ> fst) x"
      by (simp add: ql finished_layer_def at_def conj_assoc)
  qed
  also have "\<dots> = image_mset (planned_data es) (\<Sum>q\<leftarrow>map fst ?fp.
      filter_mset (\<lambda>e. (is_data e \<and> entry_key e = k) \<and> entry_seq e = q) (mset es))"
    by (simp add: image_mset_sum_list comp_def)
  also have "(\<Sum>q\<leftarrow>map fst ?fp. filter_mset (\<lambda>e. (is_data e \<and> entry_key e = k) \<and> entry_seq e = q) (mset es)) =
      filter_mset (\<lambda>e. is_data e \<and> entry_key e = k) (mset es)"
  proof (rule sum_list_classes)
    show "distinct (map fst ?fp)" using om by (rule om.entries_distinct)
    fix e assume "e \<in># mset es" "is_data e \<and> entry_key e = k"
    then have "planned_data es e \<in> set (lx_data (omap_find empty_layer_x ?fp (entry_seq e)))"
      by (auto simp: finished_find [OF assms] finished_data_iff)
    then have "map_of ?fp (entry_seq e) \<noteq> None"
      by (auto simp: omap_find_def empty_layer_x_def split: option.splits)
    then show "entry_seq e \<in> set (map fst ?fp)" by (simp add: map_of_eq_None_iff)
  qed
  finally show ?thesis by (simp only: partition_data_sum)
qed

definition finished :: "manifest_entry list \<Rightarrow> builder \<Rightarrow> (string \<times> (int \<times> layer_x) list) list" where
  "finished es b = map (\<lambda>(k, ls). (k, finished_partition es b k ls)) (b_partitions b)"

lemma MapToVec_finished:
  "MapToVec (finished es b) = map (\<lambda>(k, ls). map snd (finished_partition es b k ls)) (b_partitions b)"
  by (simp add: MapToVec_def finished_def comp_def case_prod_beta)

lemma set_finished:
  assumes "builder_holds es b"
  shows "p \<in> set (MapToVec (finished es b)) \<longleftrightarrow>
     (\<exists>k ls. filled es b k ls \<and> p = map snd (finished_partition es b k ls))"
  using assms by (force simp: MapToVec_finished filled_def)

lemma finish_all:
  assumes "builder_holds es b" "\<not> mixed_deletes es"
  shows "GetResult b = GetPartitions (finished es b)"
proof -
  have "mapE (finish_partition (b_global_equality_deletes b)) (b_partitions b) = Inr (finished es b)"
    unfolding finished_def
  proof (rule mapE_total)
    fix x assume "x \<in> set (b_partitions b)"
    then show "finish_partition (b_global_equality_deletes b) x =
        Inr (case x of (k, ls) \<Rightarrow> (k, finished_partition es b k ls))"
      using assms finish_partition_ok [of es b "fst x" "snd x"] by (simp add: filled_def case_prod_beta)
  qed
  then show ?thesis by (simp add: GetResult_def)
qed

lemma finished_data:
  assumes "builder_holds es b"
  shows "(\<Sum>p\<leftarrow>MapToVec (finished es b). mset (partition_data p)) =
     mset (map (planned_data es) (filter is_data es))"
proof -
  have om: "omap (b_partitions b)" using assms by (simp add: builder_holds_def builder_invar_def)
  have "(\<Sum>p\<leftarrow>MapToVec (finished es b). mset (partition_data p)) =
      (\<Sum>k\<leftarrow>map fst (b_partitions b). image_mset (planned_data es)
         (filter_mset (\<lambda>e. is_data e \<and> entry_key e = k) (mset es)))"
    unfolding MapToVec_def finished_def map_map
    using assms by (intro arg_cong [where f = sum_list] map_cong refl)
      (auto simp: filled_def intro!: finished_partition_data)
  also have "\<dots> = image_mset (planned_data es) (\<Sum>k\<leftarrow>map fst (b_partitions b).
      filter_mset (\<lambda>e. is_data e \<and> entry_key e = k) (mset es))"
    by (simp add: image_mset_sum_list comp_def)
  also have "(\<Sum>k\<leftarrow>map fst (b_partitions b). filter_mset (\<lambda>e. is_data e \<and> entry_key e = k) (mset es)) =
      filter_mset is_data (mset es)"
  proof (rule sum_list_classes)
    show "distinct (map fst (b_partitions b))" using om by (rule om.entries_distinct)
    fix e assume "e \<in># mset es" "is_data e"
    then show "entry_key e \<in> set (map fst (b_partitions b))"
      using data_partition [OF assms] by (force simp: filled_def)
  qed
  finally show ?thesis by simp
qed

lemma finished_eq_pairs1:
  assumes "filled es b k ls"
  shows "(d, x) \<in> set (applied_eq_x (map snd (finished_partition es b k ls))) \<longleftrightarrow>
      (\<exists>e f. e \<in> set es \<and> f \<in> set es \<and> eq_applies e f \<and> entry_key e = k \<and>
         d = planned_data es e \<and> x = eq_of f)" (is "?L \<longleftrightarrow> ?R")
proof -
  have "?L \<longleftrightarrow> (\<exists>q q'. q \<le> q' \<and> d \<in> set (lx_data (finished_layer es k q)) \<and>
      x \<in> set (lx_eq (finished_layer es k q')))"
    using assms by (rule finished_pairs) (simp add: empty_layer_x_def)
  also have "\<dots> \<longleftrightarrow> ?R" (is "?L' \<longleftrightarrow> ?R")
  proof
    assume ?L'
    then obtain q q' e f where "q \<le> q'" "e \<in> set es" "is_data e" "entry_key e = k" "entry_seq e = q"
        "d = planned_data es e" "f \<in> set es" "is_eq f" "x = eq_of f" "entry_seq f = q' + 1"
        "entry_key f = [] \<or> entry_key f = k"
      unfolding finished_data_iff finished_eq_iff by blast
    then show ?R by (intro exI [of _ e] exI [of _ f]) (simp add: eq_applies_def)
  next
    assume ?R
    then obtain e f where "e \<in> set es" "f \<in> set es" "eq_applies e f" "entry_key e = k"
        "d = planned_data es e" "x = eq_of f" by blast
    then show ?L'
      unfolding finished_data_iff finished_eq_iff eq_applies_def
      by (intro exI [of _ "entry_seq e"] exI [of _ "entry_seq f - 1"]) auto
  qed
  finally show ?thesis .
qed

lemma finished_eq_pairs:
  assumes "builder_holds es b"
  shows "(\<Union>p \<in> set (MapToVec (finished es b)). set (applied_eq_x p)) =
     {(planned_data es e, eq_of f) | e f. e \<in> set es \<and> f \<in> set es \<and> eq_applies e f}"
proof -
  note pairs = finished_eq_pairs1
  show ?thesis
  proof (intro set_eqI iffI; clarify)
    fix d x p assume "p \<in> set (MapToVec (finished es b))" "(d, x) \<in> set (applied_eq_x p)"
    then show "\<exists>e f. (d, x) = (planned_data es e, eq_of f) \<and> e \<in> set es \<and> f \<in> set es \<and> eq_applies e f"
      unfolding set_finished [OF assms] using pairs by blast
  next
    fix e f assume ef: "e \<in> set es" "f \<in> set es" "eq_applies e f"
    then obtain ls where ls: "filled es b (entry_key e) ls"
      using data_partition [OF assms] by (auto simp: eq_applies_def)
    let ?p = "map snd (finished_partition es b (entry_key e) ls)"
    have "(planned_data es e, eq_of f) \<in> set (applied_eq_x ?p)" using pairs [OF ls] ef by blast
    moreover have "?p \<in> set (MapToVec (finished es b))" using set_finished [OF assms] ls by blast
    ultimately show "(planned_data es e, eq_of f) \<in> (\<Union>p \<in> set (MapToVec (finished es b)). set (applied_eq_x p))"
      by (rule UN_I [rotated])
  qed
qed

lemma finished_pos_pairs:
  assumes "filled es b k ls"
  shows "(d, x) \<in> set (applied_pos_x (map snd (finished_partition es b k ls))) \<longleftrightarrow>
     (\<exists>e f. e \<in> set es \<and> f \<in> set es \<and> pos_applies e f \<and> entry_key e = k \<and>
        d = planned_data es e \<and> x = pos_of f)"
proof -
  have "(d, x) \<in> set (applied_pos_x (map snd (finished_partition es b k ls))) \<longleftrightarrow>
      (\<exists>q q'. q \<le> q' \<and> d \<in> set (lx_data (finished_layer es k q)) \<and>
         x \<in> set (lx_pos (finished_layer es k q')))"
    using assms by (rule finished_pairs) (simp add: empty_layer_x_def)
  then show ?thesis
    unfolding finished_data_iff finished_pos_iff pos_applies_def by auto
qed

lemma finished_partition_pos:
  assumes "builder_holds es b" "p \<in> set (MapToVec (finished es b))" "x \<in> set (partition_pos p)"
  shows "\<exists>f \<in> set es. is_pos f \<and> x = pos_of f"
proof -
  obtain k ls where kl: "filled es b k ls" "p = map snd (finished_partition es b k ls)"
    using assms(2) set_finished [OF assms(1)] by blast
  obtain q l where ql: "(q, l) \<in> set (finished_partition es b k ls)" "x \<in> set (lx_pos l)"
    using assms(3) kl(2) by (auto simp: partition_pos_def)
  then have "l = finished_layer es k q"
    using omap_find_in [OF finished_omap [OF kl(1)]] finished_find [OF kl(1)] by metis
  then show ?thesis using ql(2) finished_pos_iff by blast
qed

lemma finished_ranges:
  assumes "builder_holds es b" "\<forall>f \<in> set es. is_pos f \<longrightarrow> ordered_range f"
  shows "\<forall>p \<in> set (MapToVec (finished es b)). CanOptimizePartition p \<longrightarrow>
     (\<forall>x \<in> set (partition_pos p). range_ok x)"
proof (intro ballI impI)
  fix p x assume p: "p \<in> set (MapToVec (finished es b))" "CanOptimizePartition p" "x \<in> set (partition_pos p)"
  obtain f where "f \<in> set es" "is_pos f" "x = pos_of f"
    using finished_partition_pos [OF assms(1) p(1,3)] by blast
  then have "case pdx_min_max x of None \<Rightarrow> True | Some (mn, mx) \<Rightarrow> mn \<le> mx"
    using assms(2) by (simp add: ordered_range_def)
  moreover have "pdx_min_max x \<noteq> None"
    using p(2,3) by (auto simp: CanOptimizePartition_def partition_pos_def)
  ultimately show "range_ok x" by (auto simp: range_ok_def split: option.splits)
qed

section \<open>What a plan must be\<close>

text \<open>The plan of a list of manifest entries.\<close>

definition plan_ok :: "manifest_entry list \<Rightarrow> layer list list \<Rightarrow> bool" where
  "plan_ok es res \<longleftrightarrow>
     (\<Sum>r\<leftarrow>res. mset (concat (map l_data r))) = mset (map (planned_data es) (filter is_data es)) \<and>
     (\<Union>r \<in> set res. set (applied_eq r)) =
       {(planned_data es e, eq_of f) | e f. e \<in> set es \<and> f \<in> set es \<and> eq_applies e f} \<and>
     (\<forall>e \<in> set es. \<forall>f \<in> set es. pos_applies e f \<and> covers (pos_of f) (de_path (data_of e)) \<longrightarrow>
        (\<exists>r \<in> set res. (planned_data es e, pdx_delete (pos_of f)) \<in> set (applied_pos r))) \<and>
     (\<forall>r \<in> set res. \<forall>(d, y) \<in> set (applied_pos r). \<exists>e \<in> set es. \<exists>f \<in> set es.
        pos_applies e f \<and> d = planned_data es e \<and> y = pdx_delete (pos_of f))"

lemma plan_okD:
  assumes "plan_ok es res"
  shows "(\<Sum>r\<leftarrow>res. mset (concat (map l_data r))) = mset (map (planned_data es) (filter is_data es))"
    and "(\<Union>r \<in> set res. set (applied_eq r)) =
       {(planned_data es e, eq_of f) | e f. e \<in> set es \<and> f \<in> set es \<and> eq_applies e f}"
    and "e \<in> set es \<Longrightarrow> f \<in> set es \<Longrightarrow> pos_applies e f \<Longrightarrow> covers (pos_of f) (de_path (data_of e)) \<Longrightarrow>
       \<exists>r \<in> set res. (planned_data es e, pdx_delete (pos_of f)) \<in> set (applied_pos r)"
    and "r \<in> set res \<Longrightarrow> (d, y) \<in> set (applied_pos r) \<Longrightarrow> \<exists>e \<in> set es. \<exists>f \<in> set es.
       pos_applies e f \<and> d = planned_data es e \<and> y = pdx_delete (pos_of f)"
  using assms unfolding plan_ok_def by - (simp only:, simp only:, fast, fast)

lemma planned_path [simp]: "de_path (planned_data es e) = de_path (data_of e)"
  by (simp add: planned_data_def)

lemma plan_ok_finished:
  assumes "builder_holds es b" "plan_keeps (MapToVec (finished es b)) res"
  shows "plan_ok es res"
  unfolding plan_ok_def
proof (intro conjI ballI impI)
  show "(\<Sum>r\<leftarrow>res. mset (concat (map l_data r))) = mset (map (planned_data es) (filter is_data es))"
    using plan_keepsD(1) [OF assms(2)] finished_data [OF assms(1)] by (rule trans)
  show "(\<Union>r \<in> set res. set (applied_eq r)) =
      {(planned_data es e, eq_of f) | e f. e \<in> set es \<and> f \<in> set es \<and> eq_applies e f}"
    using plan_keepsD(2) [OF assms(2)] finished_eq_pairs [OF assms(1)] by (rule trans)
next
  fix e f assume ef: "e \<in> set es" "f \<in> set es"
    "pos_applies e f \<and> covers (pos_of f) (de_path (data_of e))"
  then obtain ls where ls: "filled es b (entry_key e) ls"
    using data_partition [OF assms(1)] by (auto simp: pos_applies_def)
  let ?p = "map snd (finished_partition es b (entry_key e) ls)"
  have "(planned_data es e, pos_of f) \<in> set (applied_pos_x ?p)" using finished_pos_pairs [OF ls] ef by blast
  moreover have "?p \<in> set (MapToVec (finished es b))" using set_finished [OF assms(1)] ls by blast
  ultimately show "\<exists>r \<in> set res. (planned_data es e, pdx_delete (pos_of f)) \<in> set (applied_pos r)"
    using plan_keepsD(3) [OF assms(2)] ef by simp
next
  fix r y assume r: "r \<in> set res" "y \<in> set (applied_pos r)"
  obtain d z where y: "y = (d, z)" by (cases y)
  obtain p x where p: "p \<in> set (MapToVec (finished es b))" "(d, x) \<in> set (applied_pos_x p)" "pdx_delete x = z"
    using plan_keepsD(4) [OF assms(2) r(1)] r(2) y by blast
  obtain k ls where kl: "filled es b k ls" "p = map snd (finished_partition es b k ls)"
    using p(1) set_finished [OF assms(1)] by blast
  show "case y of (d, y) \<Rightarrow> \<exists>e \<in> set es. \<exists>f \<in> set es.
      pos_applies e f \<and> d = planned_data es e \<and> y = pdx_delete (pos_of f)"
    using p(2,3) y unfolding kl(2) finished_pos_pairs [OF kl(1)] by blast
qed

lemma builder_plan_ok:
  assumes "builder_holds es b" "\<not> mixed_deletes es" "\<forall>f \<in> set es. is_pos f \<longrightarrow> ordered_range f"
  shows "\<exists>res. GetResult b = Inr res \<and> plan_ok es res \<and>
     (\<forall>r \<in> set res. \<forall>l \<in> set r. \<forall>y \<in> set (l_pos l). \<exists>f \<in> set es. is_pos f \<and> y = pdx_delete (pos_of f))"
proof -
  obtain res where r: "GetPartitions (finished es b) = Inr res" "plan_keeps (MapToVec (finished es b)) res"
    using GetPartitions_keeps [OF finished_ranges [OF assms(1,3)]] by blast
  have "\<exists>f \<in> set es. is_pos f \<and> y = pdx_delete (pos_of f)"
    if "r \<in> set res" "l \<in> set r" "y \<in> set (l_pos l)" for r l y
    using plan_keepsD(5) [OF r(2) that] finished_partition_pos [OF assms(1)] by blast
  then show ?thesis
    using r finish_all [OF assms(1,2)] plan_ok_finished [OF assms(1)] by auto
qed

section \<open>Errors\<close>

abbreviation runtime :: "error \<Rightarrow> bool" where
  "runtime e \<equiv> (\<exists>msg. e = Runtime_error msg)"

lemma resolve_entry_error: "resolve_entry dvs q l d = Inl e \<Longrightarrow> runtime e"
  by (auto simp: resolve_entry_def ensure_def split: option.splits if_splits)

lemma mapE_error:
  assumes "mapE f xs = Inl e"
  shows "\<exists>x \<in> set xs. f x = Inl e"
  using assms by (induction xs) (auto simp: bindE_def split: sum.splits)

lemma resolve_layer_error: "resolve_layer dvs sl = Inl e \<Longrightarrow> runtime e"
  using resolve_entry_error
  by (cases sl) (fastforce simp: resolve_layer_def bindE_def split: if_splits sum.splits dest: mapE_error)

lemma finish_partition_error: "finish_partition g kl = Inl e \<Longrightarrow> runtime e"
  using resolve_layer_error
  by (cases kl) (fastforce simp: finish_partition_def ResolveDeletionVectors_def bindE_def
      split: sum.splits dest: mapE_error)

lemma resolve_entry_mixed:
  assumes "map_of dvs (de_path (data_of e)) = dv_for es (entry_key e) (de_path (data_of e))"
    and "has_dv es e" "lx_eq l \<noteq> [] \<or> lx_pos l \<noteq> []"
  shows "\<exists>err. resolve_entry dvs (entry_seq e) l (data_of e) = Inl err"
  using assms by (auto simp: resolve_entry_def has_dv_def ensure_def split: option.splits)

lemma finish_partition_mixed:
  assumes "filled es b (entry_key e) ls" "e \<in> set es" "is_data e" "has_dv es e"
    and f: "f \<in> set es" "is_pos f \<and> entry_key f = entry_key e \<and> entry_seq f = entry_seq e \<or>
        is_eq f \<and> (entry_key f = [] \<or> entry_key f = entry_key e) \<and> entry_seq f = entry_seq e + 1"
  shows "\<exists>err. finish_partition (b_global_equality_deletes b) (entry_key e, ls) = Inl err"
proof -
  let ?ls = "ApplyGlobalEqualityDeletes (b_global_equality_deletes b) ls"
  let ?q = "entry_seq e" and ?k = "entry_key e"
  let ?l = "(spec_layer es ?k ?q)\<lparr>lx_eq := eqs_at es ?k ?q\<rparr>"
  have data: "data_of e \<in> set (lx_data ?l)" using assms(2,3) by (auto simp: spec_layer_def at_def)
  have look: "omap_find empty_layer_x ?ls ?q = ?l" by (rule global_find(2) [OF assms(1)])
  have "map_of ?ls ?q = Some ?l"
  proof (cases "map_of ?ls ?q")
    case None
    then have "lx_data ?l = lx_data empty_layer_x" using look by (simp add: omap_find_def)
    then show ?thesis using data by (simp add: empty_layer_x_def)
  qed (use look in \<open>simp add: omap_find_def\<close>)
  then have mem: "(?q, ?l) \<in> set ?ls" by (rule map_of_SomeD)
  have "eq_of f \<in> set (eqs_at es ?k ?q) \<or> pos_of f \<in> set (lx_pos (spec_layer es ?k ?q))"
    using f by (auto simp: eqs_at_iff spec_layer_def at_def)
  then have "lx_eq ?l \<noteq> [] \<or> lx_pos ?l \<noteq> []" by auto
  then obtain err where "resolve_entry (current_dvs ?ls) ?q ?l (data_of e) = Inl err"
    using resolve_entry_mixed [OF current_dvs_global [OF assms(1)] assms(4)] by blast
  then obtain err' where "mapE (resolve_entry (current_dvs ?ls) ?q ?l) (lx_data ?l) = Inl err'"
    using mapE_Inl [OF data, where P = "\<lambda>_. True"] by blast
  moreover have "current_dvs ?ls \<noteq> []"
    using current_dvs_global [OF assms(1), of "de_path (data_of e)"] assms(4)
    by (auto simp: has_dv_def)
  ultimately have "resolve_layer (current_dvs ?ls) (?q, ?l) = Inl err'"
    by (simp add: resolve_layer_def)
  then obtain err'' where "ResolveDeletionVectors ?ls = Inl err''"
    using mapE_Inl [OF mem, where P = "\<lambda>_. True"] unfolding ResolveDeletionVectors_def by blast
  then show ?thesis by (simp add: finish_partition_def)
qed

lemma GetResult_mixed:
  assumes "builder_holds es b" "mixed_deletes es"
  shows "\<exists>msg. GetResult b = Inl (Runtime_error msg)"
proof -
  obtain e f where e: "e \<in> set es" "is_data e" "has_dv es e" and f: "f \<in> set es"
      "is_pos f \<and> entry_key f = entry_key e \<and> entry_seq f = entry_seq e \<or>
        is_eq f \<and> (entry_key f = [] \<or> entry_key f = entry_key e) \<and> entry_seq f = entry_seq e + 1"
    using assms(2) unfolding mixed_deletes_def by blast
  obtain ls where ls: "filled es b (entry_key e) ls" using data_partition [OF assms(1) e(1,2)] by blast
  then have mem: "(entry_key e, ls) \<in> set (b_partitions b)" by (simp add: filled_def)
  obtain err where err: "finish_partition (b_global_equality_deletes b) (entry_key e, ls) = Inl err"
    using finish_partition_mixed [OF ls e f] by blast
  have "\<exists>err. mapE (finish_partition (b_global_equality_deletes b)) (b_partitions b) = Inl err \<and> runtime err"
    using mem err finish_partition_error by (rule mapE_Inl)
  then show ?thesis by (auto simp: GetResult_def)
qed

section \<open>Order of the entries\<close>

lemma StoreEntry_total:
  assumes "StoreEntry key e b = Inr b'"
  shows "\<exists>c'. StoreEntry key e c = Inr c'"
  using assms unfolding StoreEntry_def Let_def
  by (cases "me_sequence_number e"; cases "df_content (me_data_file e)"; cases "key = []";
      cases "df_referenced_data_file (me_data_file e)"; cases "df_content_offset (me_data_file e)";
      cases "df_content_size_in_bytes (me_data_file e)") (simp_all split: if_splits)

lemma AddEntry_total:
  assumes "AddEntry specs s e b = Inr b'"
  shows "\<exists>c'. AddEntry specs s e c = Inr c'"
  using assms StoreEntry_total unfolding AddEntry_def
  by (cases "me_status e = kDeleted") (simp_all add: bindE_eq_Inr_iff, blast)

lemma AddEntries_total:
  "(\<exists>b'. foldE (AddEntry specs s) es b = Inr b') \<longleftrightarrow> (\<forall>e \<in> set es. \<exists>c. AddEntry specs s e empty_builder = Inr c)"
proof (induction es arbitrary: b)
  case (Cons e es)
  show ?case
    using Cons.IH AddEntry_total [of specs s e] by (auto simp: bindE_eq_Inr_iff) metis+
qed simp

definition unique_dvs :: "manifest_entry list \<Rightarrow> bool" where
  "unique_dvs es \<longleftrightarrow> (\<forall>e \<in> set es. \<forall>f \<in> set es. is_dv e \<and> is_dv f \<and> entry_key e = entry_key f \<and>
     entry_seq e = entry_seq f \<and> dv_referenced_data_file (dv_of e) = dv_referenced_data_file (dv_of f) \<longrightarrow>
     dv_of e = dv_of f)"

lemma dv_map_lookup:
  "(case map_of (dv_map es) p of
      None \<Rightarrow> \<forall>e \<in> set es. dv_referenced_data_file (dv_of e) \<noteq> p
    | Some dv \<Rightarrow> \<exists>e \<in> set es. dv_referenced_data_file (dv_of e) = p \<and> dv = dv_of e)"
  by (induction es rule: rev_induct)
    (auto simp: dv_map_def [of "[]"] dv_map_snoc map_of_omap_alter split: option.splits)

lemma dv_look_iff:
  assumes "unique_dvs es"
  shows "map_of (dv_map (filter (\<lambda>e. is_dv e \<and> at k q e) es)) p = Some dv \<longleftrightarrow>
     (\<exists>e \<in> set es. is_dv e \<and> at k q e \<and> dv_referenced_data_file (dv_of e) = p \<and> dv = dv_of e)"
  using dv_map_lookup [of "filter (\<lambda>e. is_dv e \<and> at k q e) es" p] assms
  unfolding unique_dvs_def at_def by (auto split: option.splits)

lemma dv_for_perm:
  assumes "unique_dvs es" "set es' = set es"
  shows "dv_for es' k p = dv_for es k p"
proof -
  have "unique_dvs es'" using assms by (simp add: unique_dvs_def)
  then have "map_of (dv_map (filter (\<lambda>e. is_dv e \<and> at k q e) es')) p =
      map_of (dv_map (filter (\<lambda>e. is_dv e \<and> at k q e) es)) p" for q
  proof -
    let ?A = "map_of (dv_map (filter (\<lambda>e. is_dv e \<and> at k q e) es')) p"
    let ?B = "map_of (dv_map (filter (\<lambda>e. is_dv e \<and> at k q e) es)) p"
    have "?A = Some dv \<longleftrightarrow> ?B = Some dv" for dv
      unfolding dv_look_iff [OF assms(1)] dv_look_iff [OF \<open>unique_dvs es'\<close>] assms(2) ..
    then show "?A = ?B" by (metis not_None_eq)
  qed
  then have "newest (\<lambda>q. map_of (dv_map (filter (\<lambda>e. is_dv e \<and> at k q e) es)) p) (dv_for es' k p)"
    using dv_for_newest [of k es' p] by simp
  then show ?thesis using dv_for_newest by (rule newest_unique)
qed

lemma plan_ok_perm:
  assumes "unique_dvs es" "mset es' = mset es"
  shows "plan_ok es' res = plan_ok es res" "mixed_deletes es' = mixed_deletes es"
proof -
  have s: "set es' = set es" using assms(2) by (rule mset_eq_setD)
  have h: "has_dv es' = has_dv es" by (simp add: has_dv_def fun_eq_iff dv_for_perm [OF assms(1) s])
  have p: "planned_data es' = planned_data es"
    by (simp add: planned_data_def fun_eq_iff dv_for_perm [OF assms(1) s] h)
  have "mset (map (planned_data es) (filter is_data es')) = mset (map (planned_data es) (filter is_data es))"
    using assms(2) by simp
  then show "plan_ok es' res = plan_ok es res" unfolding plan_ok_def p s by simp
  show "mixed_deletes es' = mixed_deletes es" unfolding mixed_deletes_def h s ..
qed

section \<open>Properties\<close>


definition example_file :: "file_content \<Rightarrow> string \<Rightarrow> data_file" where
  "example_file c path = \<lparr>df_content = c, df_file_path = path, df_file_format = ''PARQUET'',
     df_partition_tuple = example_tuple, df_record_count = 10, df_file_size_in_bytes = 100,
     df_column_sizes = [], df_value_counts = [], df_null_value_counts = [], df_nan_value_counts = [],
     df_distinct_counts = [], df_lower_bounds = [], df_upper_bounds = [], df_key_metadata = [],
     df_split_offsets = [4, 50], df_equality_ids = [1], df_sort_order_id = None,
     df_referenced_data_file = None, df_content_offset = None, df_content_size_in_bytes = None\<rparr>"

definition example_entry :: "file_content \<Rightarrow> string \<Rightarrow> int \<Rightarrow> manifest_entry" where
  "example_entry c path seq = \<lparr>me_status = kAdded, me_snapshot_id = None, me_sequence_number = Some seq,
     me_file_sequence_number = None, me_data_file = example_file c path\<rparr>"

definition example_entries :: "manifest_entry list" where
  "example_entries = [example_entry kData ''d1'' 1, example_entry kEqualityDeletes ''e2'' 2,
     example_entry kData ''d2'' 2, example_entry kPositionDeletes ''p1'' 1]"



definition example_dv :: manifest_entry where
  "example_dv = \<lparr>me_status = kAdded, me_snapshot_id = None, me_sequence_number = Some 3,
     me_file_sequence_number = None, me_data_file = (example_file kPositionDeletes ''v'')
       \<lparr>df_file_format := ''PUFFIN'', df_referenced_data_file := Some ''d1'',
        df_content_offset := Some 4, df_content_size_in_bytes := Some 40\<rparr>\<rparr>"

lemma example_ranges: "\<forall>f \<in> set (example_dv # example_entries). is_pos f \<longrightarrow> ordered_range f"
  by (simp add: example_entries_def example_entry_def example_file_def example_dv_def ordered_range_def
      pos_of_def min_max_path_def)




end
