(* ===== verification/Scan_Planner.thy ===== *)
theory Scan_Planner
  imports Plan_Correctness
begin

text \<open>
  Streams of manifest entries and the planner on top of the builder
  (\<open>iceberg/tea_scan.cpp\<close>): \<open>AddSequenceNumberOrFail\<close>, \<open>EntryStream::ReadNext\<close>,
  \<open>AllEntriesStream::ReadNext\<close>, \<open>ReferencedDataFileAwareScanPlanner\<close> with
  \<open>AddEntry\<close>, \<open>HandlePositionDelete\<close>, \<open>HandlePartition\<close> and \<open>GetResult\<close>, and the
  single-threaded \<open>GetScanMetadata\<close>.  Decoding a manifest file is outside: it is the
  parameter \<open>open_manifest\<close>, which yields the decoded entries of a file, each of them
  possibly an error.  The lemmas show that the stream yields the live entries of all
  manifests in order, and that regrouping the plan by referenced data file keeps it
  correct.
\<close>

section \<open>Streams\<close>

datatype manifest_content = mcData | mcDeletes

record partition_field_summary =
  pfs_contains_null :: bool
  pfs_contains_nan :: "bool option"
  pfs_lower_bound :: "byte list"
  pfs_upper_bound :: "byte list"

record manifest_file =
  mf_added_files_count :: int
  mf_added_rows_count :: int
  mf_content :: manifest_content
  mf_deleted_files_count :: int
  mf_deleted_rows_count :: int
  mf_existing_files_count :: int
  mf_existing_rows_count :: int
  mf_length :: int
  mf_min_sequence_number :: int
  mf_partition_spec_id :: int
  mf_path :: string
  mf_sequence_number :: int
  mf_snapshot_id :: int
  mf_partitions :: "partition_field_summary list"

definition AddSequenceNumberOrFail :: "manifest_file \<Rightarrow> manifest_entry \<Rightarrow> manifest_entry result" where
  "AddSequenceNumberOrFail manifest entry =
     (let entry' = (if me_sequence_number entry = None \<and> me_status entry = kAdded
                    then entry\<lparr>me_sequence_number := Some (mf_sequence_number manifest)\<rparr> else entry)
      in bindE (ensure (me_sequence_number entry' \<noteq> None)
                 ''No sequence_number in iceberg::ManifestEntry for data file '')
           (\<lambda>_. Inr entry'))"

text \<open>What is left to read of a manifest: decoded entries or decoding errors.\<close>

type_synonym raw_stream = "manifest_entry result list"

fun EntryStream_ReadNext ::
  "manifest_file \<Rightarrow> raw_stream \<Rightarrow> (manifest_entry option \<times> raw_stream) result" where
  "EntryStream_ReadNext mf [] = Inr (None, [])"
| "EntryStream_ReadNext mf (x # xs) =
     bindE x (\<lambda>e. bindE (AddSequenceNumberOrFail mf e) (\<lambda>r.
       if me_status r = kDeleted then EntryStream_ReadNext mf xs else Inr (Some r, xs)))"

record all_stream =
  as_manifest_files :: "manifest_file list"
  as_current :: "(manifest_file \<times> raw_stream) option"

function AllEntries_ReadNext ::
  "(manifest_file \<Rightarrow> raw_stream result) \<Rightarrow> all_stream \<Rightarrow> (manifest_entry option \<times> all_stream) result" where
  "AllEntries_ReadNext open_manifest st =
     (case as_current st of
        None \<Rightarrow>
          (case as_manifest_files st of
             [] \<Rightarrow> Inr (None, st)
           | mf # mfs \<Rightarrow> bindE (open_manifest mf) (\<lambda>xs.
               AllEntries_ReadNext open_manifest \<lparr>as_manifest_files = mfs, as_current = Some (mf, xs)\<rparr>))
      | Some (mf, xs) \<Rightarrow>
          bindE (EntryStream_ReadNext mf xs) (\<lambda>(r, xs').
            case r of
              None \<Rightarrow> AllEntries_ReadNext open_manifest (st\<lparr>as_current := None\<rparr>)
            | Some e \<Rightarrow> Inr (Some e, st\<lparr>as_current := Some (mf, xs')\<rparr>)))"
  by pat_completeness auto
termination
  by (relation "measure (\<lambda>(_, st). 2 * length (as_manifest_files st) +
      (case as_current st of None \<Rightarrow> 0 | Some _ \<Rightarrow> 1))") auto

declare AllEntries_ReadNext.simps [simp del]

section \<open>The planner\<close>

record planner =
  pl_builder :: builder
  pl_referenced :: "(string \<times> string) list"
  pl_all_annotated :: bool
  pl_has_equality_delete :: bool
  pl_has_referenced_data_file :: bool

definition empty_planner :: planner where
  "empty_planner = \<lparr>pl_builder = empty_builder, pl_referenced = [], pl_all_annotated = True,
     pl_has_equality_delete = False, pl_has_referenced_data_file = False\<rparr>"

definition HandlePositionDelete :: "manifest_entry \<Rightarrow> planner \<Rightarrow> planner result" where
  "HandlePositionDelete entry p =
     (let p' = p\<lparr>pl_has_referenced_data_file := True\<rparr>; df = me_data_file entry in
      if df_file_format df = kDeletionVectorFormat then Inr p'
      else if map_of (pl_referenced p') (df_file_path df) \<noteq> None then
        Inl (Execution_error ''Two delete files with same path: '')
      else (case df_referenced_data_file df of
              None \<Rightarrow> Inl Bad_optional_access
            | Some r \<Rightarrow> Inr (p'\<lparr>pl_referenced :=
                omap_alter (df_file_path df) r (\<lambda>_. r) (pl_referenced p')\<rparr>)))"

definition note_entry :: "manifest_entry \<Rightarrow> planner \<Rightarrow> planner result" where
  "note_entry entry p =
     (case df_content (me_data_file entry) of
        kData \<Rightarrow> Inr p
      | kEqualityDeletes \<Rightarrow> Inr (p\<lparr>pl_has_equality_delete := True\<rparr>)
      | kPositionDeletes \<Rightarrow>
          if df_referenced_data_file (me_data_file entry) \<noteq> None then HandlePositionDelete entry p
          else Inr (p\<lparr>pl_all_annotated := False\<rparr>))"

definition planner_AddEntry ::
  "partition_spec list \<Rightarrow> schema \<Rightarrow> manifest_entry \<Rightarrow> planner \<Rightarrow> planner result" where
  "planner_AddEntry specs s entry p =
     (if me_status entry = kDeleted then Inr p
      else bindE (note_entry entry p)
        (\<lambda>p'. bindE (AddEntry specs s entry (pl_builder p')) (\<lambda>b. Inr (p'\<lparr>pl_builder := b\<rparr>))))"

text \<open>The two maps of \<open>HandlePartition\<close>, filled layer by layer.\<close>

type_synonym data_map = "(string \<times> data_entry \<times> nat) list"
type_synonym posdel_map = "(string \<times> (pos_delete \<times> nat) list) list"

definition collect_data :: "nat \<Rightarrow> data_entry \<Rightarrow> data_map \<Rightarrow> data_map result" where
  "collect_data layer_no d dm =
     (if map_of dm (de_path d) \<noteq> None then
        Inl (Execution_error ''Error in iceberg metadata. There are at least two data entries with path '')
      else Inr (omap_alter (de_path d) (d, layer_no) (\<lambda>_. (d, layer_no)) dm))"

definition collect_delete ::
  "(string \<times> string) list \<Rightarrow> nat \<Rightarrow> pos_delete \<Rightarrow> posdel_map \<Rightarrow> posdel_map result" where
  "collect_delete referenced layer_no x pm =
     (case map_of referenced (pd_path x) of
        None \<Rightarrow> Inl (Execution_error '': internal error for delete '')
      | Some data_path \<Rightarrow> Inr (omap_alter data_path [] (\<lambda>v. v @ [(x, layer_no)]) pm))"

fun collect_layers ::
  "(string \<times> string) list \<Rightarrow> nat \<Rightarrow> layer list \<Rightarrow> data_map \<Rightarrow> posdel_map \<Rightarrow> (data_map \<times> posdel_map) result" where
  "collect_layers referenced layer_no [] dm pm = Inr (dm, pm)"
| "collect_layers referenced layer_no (l # ls) dm pm =
     bindE (foldE (collect_data layer_no) (l_data l) dm) (\<lambda>dm'.
       bindE (foldE (collect_delete referenced layer_no) (l_pos l) pm) (\<lambda>pm'.
         collect_layers referenced (Suc layer_no) ls dm' pm'))"

definition empty_layer :: layer where
  "empty_layer = \<lparr>l_data = [], l_pos = [], l_eq = []\<rparr>"

text \<open>\<open>result.partitions[0][0].data_entries_.emplace_back\<close>.\<close>

fun add_plain :: "data_entry \<Rightarrow> layer list list \<Rightarrow> layer list list" where
  "add_plain d ((l # ls) # ps) = (l\<lparr>l_data := l_data l @ [d]\<rparr> # ls) # ps"
| "add_plain d ps = ps"

definition emit_data :: "posdel_map \<Rightarrow> string \<times> data_entry \<times> nat \<Rightarrow> layer list list \<Rightarrow> layer list list" where
  "emit_data pm pd res =
     (case pd of (data_path, data, data_layer_no) \<Rightarrow>
        let has_dv = (de_dv data \<noteq> None) in
        if map_of pm data_path = None \<and> \<not> has_dv then add_plain data res
        else res @ [[empty_layer\<lparr>l_data := [data],
          l_pos := (case map_of pm data_path of
              None \<Rightarrow> []
            | Some deletes \<Rightarrow> map fst (filter (\<lambda>(del, del_layer_no). \<not> del_layer_no < data_layer_no) deletes))\<rparr>]])"

definition HandlePartition ::
  "(string \<times> string) list \<Rightarrow> layer list \<Rightarrow> layer list list \<Rightarrow> layer list list result" where
  "HandlePartition referenced part res =
     bindE (collect_layers referenced 0 part [] []) (\<lambda>(dm, pm). Inr (fold (emit_data pm) dm res))"

definition planner_GetResult :: "planner \<Rightarrow> layer list list result" where
  "planner_GetResult p =
     bindE (GetResult (pl_builder p)) (\<lambda>meta.
       if \<not> pl_has_referenced_data_file p then Inr meta
       else if pl_has_equality_delete p then Inr meta
       else if \<not> pl_all_annotated p then Inr meta
       else bindE (foldE (HandlePartition (pl_referenced p)) meta [[empty_layer]]) (\<lambda>res.
         Inr (if l_data (res ! 0 ! 0) = [] then tl res else res)))"

section \<open>The loop over a stream\<close>

lemma EntryStream_shrinks:
  "EntryStream_ReadNext mf xs = Inr (Some e, xs') \<Longrightarrow> length xs' < length xs"
  by (induction xs) (auto simp: bindE_eq_Inr_iff less_Suc_eq split: if_splits)

definition stream_measure :: "(all_stream \<times> all_stream) set" where
  "stream_measure = inv_image (less_than <*lex*> less_than)
     (\<lambda>st. (length (as_manifest_files st), case as_current st of None \<Rightarrow> 0 | Some (_, xs) \<Rightarrow> length xs))"

lemma wf_stream_measure: "wf stream_measure"
  by (auto simp: stream_measure_def)

lemma AllEntries_shrinks:
  "AllEntries_ReadNext open_manifest st = Inr (Some e, st') \<Longrightarrow> (st', st) \<in> stream_measure"
proof (induction open_manifest st arbitrary: e st' rule: AllEntries_ReadNext.induct)
  case (1 open_manifest st)
  show ?case
  proof (cases "as_current st")
    case None
    then obtain mf mfs where mfs: "as_manifest_files st = mf # mfs"
      using 1(3) by (cases "as_manifest_files st") (simp_all add: AllEntries_ReadNext.simps [of _ st])
    then obtain xs where xs: "open_manifest mf = Inr xs" "AllEntries_ReadNext open_manifest
        \<lparr>as_manifest_files = mfs, as_current = Some (mf, xs)\<rparr> = Inr (Some e, st')"
      using 1(3) None by (auto simp: AllEntries_ReadNext.simps [of _ st] bindE_eq_Inr_iff)
    have "(st', \<lparr>as_manifest_files = mfs, as_current = Some (mf, xs)\<rparr>) \<in> stream_measure"
      by (rule 1(1) [OF None mfs xs(1) xs(2)])
    then show ?thesis using mfs by (auto simp: stream_measure_def)
  next
    case (Some c)
    obtain mf xs where c: "as_current st = Some (mf, xs)" using Some by (cases c) simp
    then obtain r xs' where r: "EntryStream_ReadNext mf xs = Inr (r, xs')"
      using 1(3) by (auto simp: AllEntries_ReadNext.simps [of _ st] bindE_eq_Inr_iff)
    show ?thesis
    proof (cases r)
      case None
      then have "AllEntries_ReadNext open_manifest (st\<lparr>as_current := None\<rparr>) = Inr (Some e, st')"
        using 1(3) c r by (simp add: AllEntries_ReadNext.simps [of _ st])
      then have "(st', st\<lparr>as_current := None\<rparr>) \<in> stream_measure"
        using 1(2) [OF c refl r refl None] by simp
      then show ?thesis using c by (auto simp: stream_measure_def)
    next
      case (Some e')
      then have "st' = st\<lparr>as_current := Some (mf, xs')\<rparr>"
        using 1(3) c r by (simp add: AllEntries_ReadNext.simps [of _ st])
      then show ?thesis using c EntryStream_shrinks r Some by (auto simp: stream_measure_def)
    qed
  qed
qed

function GetScanMetadata_loop ::
  "(manifest_file \<Rightarrow> raw_stream result) \<Rightarrow> partition_spec list \<Rightarrow> schema \<Rightarrow> all_stream \<Rightarrow> planner \<Rightarrow> planner result" where
  "GetScanMetadata_loop open_manifest specs s st p =
     bindE (AllEntries_ReadNext open_manifest st) (\<lambda>(r, st').
       case r of
         None \<Rightarrow> Inr p
       | Some entry \<Rightarrow> bindE (planner_AddEntry specs s entry p)
           (\<lambda>p'. GetScanMetadata_loop open_manifest specs s st' p'))"
  by pat_completeness auto
termination
  by (relation "inv_image stream_measure (\<lambda>(_, _, _, st, _). st)")
    (auto simp: wf_stream_measure AllEntries_shrinks)

declare GetScanMetadata_loop.simps [simp del]

definition GetScanMetadata ::
  "(manifest_file \<Rightarrow> raw_stream result) \<Rightarrow> partition_spec list \<Rightarrow> schema \<Rightarrow> manifest_file list \<Rightarrow> layer list list result" where
  "GetScanMetadata open_manifest specs s manifest_files =
     bindE (GetScanMetadata_loop open_manifest specs s
              \<lparr>as_manifest_files = manifest_files, as_current = None\<rparr> empty_planner)
       planner_GetResult"

section \<open>What the stream yields\<close>

text \<open>
  The entries of a manifest as the stream hands them out, and those of all manifests:
  live entries with their sequence numbers, and an error in the place where reading
  fails.
\<close>

fun live_entries :: "manifest_file \<Rightarrow> raw_stream \<Rightarrow> raw_stream" where
  "live_entries mf [] = []"
| "live_entries mf (x # xs) =
     (case bindE x (AddSequenceNumberOrFail mf) of
        Inl err \<Rightarrow> [Inl err]
      | Inr e \<Rightarrow> if me_status e = kDeleted then live_entries mf xs else Inr e # live_entries mf xs)"

definition manifest_entries :: "(manifest_file \<Rightarrow> raw_stream result) \<Rightarrow> manifest_file \<Rightarrow> raw_stream" where
  "manifest_entries open_manifest mf =
     (case open_manifest mf of Inl err \<Rightarrow> [Inl err] | Inr xs \<Rightarrow> live_entries mf xs)"

definition stream_entries :: "(manifest_file \<Rightarrow> raw_stream result) \<Rightarrow> all_stream \<Rightarrow> raw_stream" where
  "stream_entries open_manifest st =
     (case as_current st of None \<Rightarrow> [] | Some (mf, xs) \<Rightarrow> live_entries mf xs) @
     concat (map (manifest_entries open_manifest) (as_manifest_files st))"

definition consume :: "partition_spec list \<Rightarrow> schema \<Rightarrow> manifest_entry result \<Rightarrow> planner \<Rightarrow> planner result" where
  "consume specs s x p = bindE x (\<lambda>e. planner_AddEntry specs s e p)"

text \<open>A read step agrees with the list of entries to come.\<close>

fun read_matches :: "(manifest_entry option \<times> 'st) result \<Rightarrow> raw_stream \<Rightarrow> ('st \<Rightarrow> raw_stream) \<Rightarrow> bool" where
  "read_matches (Inl err) es rest = (\<exists>r. es = Inl err # r)"
| "read_matches (Inr (None, st)) es rest = (es = [])"
| "read_matches (Inr (Some e, st)) es rest = (es = Inr e # rest st)"

lemma EntryStream_ReadNext_live:
  "read_matches (EntryStream_ReadNext mf xs) (live_entries mf xs) (live_entries mf)"
proof (induction xs)
  case (Cons x xs)
  show ?case
  proof (cases "bindE x (AddSequenceNumberOrFail mf)")
    case (Inl err)
    then have "EntryStream_ReadNext mf (x # xs) = Inl err"
      by (cases x) (auto simp: bindE_def split: sum.splits)
    then show ?thesis using Inl by simp
  next
    case (Inr e)
    then obtain e0 where "x = Inr e0" "AddSequenceNumberOrFail mf e0 = Inr e"
      by (auto simp: bindE_eq_Inr_iff)
    then show ?thesis using Inr Cons.IH by simp
  qed
qed simp

lemma AllEntries_ReadNext_entries:
  "read_matches (AllEntries_ReadNext open_manifest st) (stream_entries open_manifest st)
     (stream_entries open_manifest)"
proof (induction open_manifest st rule: AllEntries_ReadNext.induct)
  case (1 open_manifest st)
  show ?case
  proof (cases "as_current st")
    case None
    show ?thesis
    proof (cases "as_manifest_files st")
      case Nil
      then show ?thesis using None by (simp add: AllEntries_ReadNext.simps [of _ st] stream_entries_def)
    next
      case (Cons mf mfs)
      show ?thesis
      proof (cases "open_manifest mf")
        case (Inl err)
        then show ?thesis using None Cons
          by (simp add: AllEntries_ReadNext.simps [of _ st] stream_entries_def manifest_entries_def)
      next
        case (Inr xs)
        have "stream_entries open_manifest st =
            stream_entries open_manifest \<lparr>as_manifest_files = mfs, as_current = Some (mf, xs)\<rparr>"
          using None Cons Inr by (simp add: stream_entries_def manifest_entries_def)
        then show ?thesis
          using 1(1) [OF None Cons Inr] None Cons Inr by (simp add: AllEntries_ReadNext.simps [of _ st])
      qed
    qed
  next
    case (Some c)
    obtain mf xs where c: "as_current st = Some (mf, xs)" using Some by (cases c) simp
    have split: "stream_entries open_manifest st = live_entries mf xs @
        concat (map (manifest_entries open_manifest) (as_manifest_files st))"
      using c by (simp add: stream_entries_def)
    show ?thesis
    proof (cases "EntryStream_ReadNext mf xs")
      case (Inl err)
      then show ?thesis
        using EntryStream_ReadNext_live [of mf xs] c split
        by (auto simp: AllEntries_ReadNext.simps [of _ st])
    next
      case (Inr rx)
      obtain r xs' where r: "EntryStream_ReadNext mf xs = Inr (r, xs')" using Inr by (cases rx) simp
      show ?thesis
      proof (cases r)
        case None
        then have "stream_entries open_manifest st = stream_entries open_manifest (st\<lparr>as_current := None\<rparr>)"
          using EntryStream_ReadNext_live [of mf xs] r split by (simp add: stream_entries_def)
        then show ?thesis
          using 1(2) [OF c refl r refl None] c r None by (simp add: AllEntries_ReadNext.simps [of _ st])
      next
        case (Some e)
        then show ?thesis
          using EntryStream_ReadNext_live [of mf xs] r c split
          by (simp add: AllEntries_ReadNext.simps [of _ st] stream_entries_def)
      qed
    qed
  qed
qed

lemma loop_consumes:
  "GetScanMetadata_loop open_manifest specs s st p = foldE (consume specs s) (stream_entries open_manifest st) p"
proof (induction open_manifest specs s st p rule: GetScanMetadata_loop.induct)
  case (1 open_manifest specs s st p)
  show ?case
  proof (cases "AllEntries_ReadNext open_manifest st")
    case (Inl err)
    then obtain rest where "stream_entries open_manifest st = Inl err # rest"
      using AllEntries_ReadNext_entries [of open_manifest st] by auto
    then show ?thesis
      using Inl by (simp add: GetScanMetadata_loop.simps [of _ _ _ st] consume_def)
  next
    case (Inr rs)
    obtain r st' where r: "AllEntries_ReadNext open_manifest st = Inr (r, st')" using Inr by (cases rs) simp
    show ?thesis
    proof (cases r)
      case None
      then show ?thesis
        using r AllEntries_ReadNext_entries [of open_manifest st]
        by (simp add: GetScanMetadata_loop.simps [of _ _ _ st])
    next
      case (Some e)
      then have es: "stream_entries open_manifest st = Inr e # stream_entries open_manifest st'"
        using r AllEntries_ReadNext_entries [of open_manifest st] by simp
      show ?thesis
      proof (cases "planner_AddEntry specs s e p")
        case (Inl err)
        then show ?thesis using r Some es by (simp add: GetScanMetadata_loop.simps [of _ _ _ st] consume_def)
      next
        case (Inr p')
        then show ?thesis
          using 1 [OF r refl Some Inr] r Some es
          by (simp add: GetScanMetadata_loop.simps [of _ _ _ st] consume_def)
      qed
    qed
  qed
qed

section \<open>Regrouping by referenced data file\<close>

lemma mset_omap_alter_new:
  "omap m \<Longrightarrow> map_of m k = None \<Longrightarrow> mset (omap_alter k d f m) = add_mset (k, f d) (mset m)"
  by (induction k d f m rule: omap_alter.induct) (auto simp: omap_Cons split: if_splits)

lemma collect_data_Inr:
  "collect_data n d dm = Inr dm1 \<longleftrightarrow>
     map_of dm (de_path d) = None \<and> dm1 = omap_alter (de_path d) (d, n) (\<lambda>_. (d, n)) dm"
  by (cases "map_of dm (de_path d)") (auto simp: collect_data_def)

lemma collect_delete_Inr:
  "collect_delete refs n x pm = Inr pm1 \<longleftrightarrow>
     (\<exists>p. map_of refs (pd_path x) = Some p \<and> pm1 = omap_alter p [] (\<lambda>v. v @ [(x, n)]) pm)"
  by (auto simp: collect_delete_def split: option.splits)

lemma collect_data_ok:
  assumes "foldE (collect_data n) ds dm = Inr dm'" "omap dm"
  shows "omap dm' \<and>
     (\<forall>p d i. map_of dm' p = Some (d, i) \<longleftrightarrow> map_of dm p = Some (d, i) \<or> i = n \<and> d \<in> set ds \<and> p = de_path d) \<and>
     image_mset (\<lambda>a. fst (snd a)) (mset dm') = image_mset (\<lambda>a. fst (snd a)) (mset dm) + mset ds"
  using assms
proof (induction ds arbitrary: dm)
  case (Cons d ds)
  let ?dm = "omap_alter (de_path d) (d, n) (\<lambda>_. (d, n)) dm"
  have none: "map_of dm (de_path d) = None" and step: "foldE (collect_data n) ds ?dm = Inr dm'"
    using Cons.prems(1) by (auto simp: collect_data_Inr bindE_eq_Inr_iff)
  have om: "omap ?dm" using Cons.prems(2) by simp
  note IH = Cons.IH [OF step om]
  have look: "map_of ?dm p = (if p = de_path d then Some (d, n) else map_of dm p)" for p
    using Cons.prems(2) by (simp add: map_of_omap_alter)
  have "image_mset (\<lambda>a. fst (snd a)) (mset ?dm) = add_mset d (image_mset (\<lambda>a. fst (snd a)) (mset dm))"
    using Cons.prems(2) none by (simp add: mset_omap_alter_new)
  then show ?case using IH none by (auto simp: look)
qed simp

lemma collect_delete_ok:
  assumes "foldE (collect_delete refs n) xs pm = Inr pm'" "omap pm"
  shows "omap pm' \<and>
     (\<forall>p x i. (x, i) \<in> set (omap_find [] pm' p) \<longleftrightarrow>
        (x, i) \<in> set (omap_find [] pm p) \<or> i = n \<and> x \<in> set xs \<and> map_of refs (pd_path x) = Some p)"
  using assms
proof (induction xs arbitrary: pm)
  case (Cons x xs)
  then obtain p where p: "map_of refs (pd_path x) = Some p"
      "foldE (collect_delete refs n) xs (omap_alter p [] (\<lambda>v. v @ [(x, n)]) pm) = Inr pm'"
    by (auto simp: collect_delete_Inr bindE_eq_Inr_iff)
  from Cons.IH [OF p(2)] Cons.prems(2) p(1) show ?case
    by (auto simp: omap_find_alter)
qed simp

definition data_at :: "layer list \<Rightarrow> nat \<Rightarrow> nat \<Rightarrow> data_entry \<Rightarrow> bool" where
  "data_at ls n i d \<longleftrightarrow> (\<exists>j < length ls. i = n + j \<and> d \<in> set (l_data (ls ! j)))"

definition pos_at :: "layer list \<Rightarrow> nat \<Rightarrow> nat \<Rightarrow> pos_delete \<Rightarrow> bool" where
  "pos_at ls n i x \<longleftrightarrow> (\<exists>j < length ls. i = n + j \<and> x \<in> set (l_pos (ls ! j)))"

lemma data_at_Cons: "data_at (l # ls) n i d \<longleftrightarrow> i = n \<and> d \<in> set (l_data l) \<or> data_at ls (Suc n) i d"
  unfolding data_at_def by (auto simp: less_Suc_eq_0_disj)

lemma pos_at_Cons: "pos_at (l # ls) n i x \<longleftrightarrow> i = n \<and> x \<in> set (l_pos l) \<or> pos_at ls (Suc n) i x"
  unfolding pos_at_def by (auto simp: less_Suc_eq_0_disj)

lemma collect_layers_ok:
  assumes "collect_layers refs n ls dm pm = Inr (dm', pm')" "omap dm" "omap pm"
  shows "omap dm' \<and> omap pm' \<and>
     (\<forall>p d i. map_of dm' p = Some (d, i) \<longleftrightarrow> map_of dm p = Some (d, i) \<or> data_at ls n i d \<and> p = de_path d) \<and>
     (\<forall>p x i. (x, i) \<in> set (omap_find [] pm' p) \<longleftrightarrow>
        (x, i) \<in> set (omap_find [] pm p) \<or> pos_at ls n i x \<and> map_of refs (pd_path x) = Some p) \<and>
     image_mset (\<lambda>a. fst (snd a)) (mset dm') =
       image_mset (\<lambda>a. fst (snd a)) (mset dm) + mset (concat (map l_data ls))"
  using assms
proof (induction refs n ls dm pm rule: collect_layers.induct)
  case (1 refs n dm pm)
  then show ?case by (simp add: data_at_def pos_at_def)
next
  case (2 refs n l ls dm pm)
  obtain dm1 pm1 where
    d: "foldE (collect_data n) (l_data l) dm = Inr dm1" and
    p: "foldE (collect_delete refs n) (l_pos l) pm = Inr pm1" and
    r: "collect_layers refs (Suc n) ls dm1 pm1 = Inr (dm', pm')"
    using 2(2) by (auto simp: bindE_eq_Inr_iff)
  note D = collect_data_ok [OF d 2(3)] and P = collect_delete_ok [OF p 2(4)]
  have "omap dm1" "omap pm1" using D P by blast+
  note IH = 2(1) [OF d p r this]
  show ?case
    using D P IH by (auto simp: data_at_Cons pos_at_Cons)
qed

text \<open>Data files and positional pairs of a list of partitions.\<close>

definition plan_data :: "layer list list \<Rightarrow> data_entry multiset" where
  "plan_data res = (\<Sum>r\<leftarrow>res. mset (concat (map l_data r)))"

definition plan_pairs :: "layer list list \<Rightarrow> (data_entry \<times> pos_delete) set" where
  "plan_pairs res = (\<Union>r \<in> set res. set (applied_pos r))"

definition no_eqs :: "layer list list \<Rightarrow> bool" where
  "no_eqs res \<longleftrightarrow> (\<forall>r \<in> set res. \<forall>l \<in> set r. l_eq l = [])"

definition head_plain :: "layer list list \<Rightarrow> bool" where
  "head_plain res \<longleftrightarrow> (\<exists>l0 ps. res = [l0] # ps \<and> l_pos l0 = [])"

lemma emit_data_ok:
  assumes "head_plain res" "no_eqs res"
  shows "head_plain (emit_data pm (p, d, i) res) \<and> no_eqs (emit_data pm (p, d, i) res) \<and>
     plan_data (emit_data pm (p, d, i) res) = plan_data res + {#d#} \<and>
     plan_pairs (emit_data pm (p, d, i) res) =
       plan_pairs res \<union> {(d, x) | x j. (x, j) \<in> set (omap_find [] pm p) \<and> i \<le> j}"
proof -
  obtain l0 ps where res: "res = [l0] # ps" "l_pos l0 = []" using assms(1) by (auto simp: head_plain_def)
  show ?thesis
  proof (cases "map_of pm p = None \<and> de_dv d = None")
    case True
    then show ?thesis
      using res assms(2)
      by (auto simp: emit_data_def head_plain_def no_eqs_def plan_data_def plan_pairs_def omap_find_def)
  next
    case False
    let ?l = "empty_layer\<lparr>l_data := [d], l_pos := (case map_of pm p of None \<Rightarrow> [] | Some deletes \<Rightarrow>
        map fst (filter (\<lambda>(del, j). \<not> j < i) deletes))\<rparr>"
    have e: "emit_data pm (p, d, i) res = res @ [[?l]]" using False by (auto simp: emit_data_def Let_def)
    have "set (applied_pos [?l]) = {(d, x) | x j. (x, j) \<in> set (omap_find [] pm p) \<and> i \<le> j}"
      by (force simp: omap_find_def split: option.splits)
    then show ?thesis
      unfolding e using res assms(2)
      by (auto simp: head_plain_def no_eqs_def plan_data_def plan_pairs_def empty_layer_def)
  qed
qed

lemma emit_all_ok:
  assumes "head_plain res" "no_eqs res"
  shows "head_plain (fold (emit_data pm) dm res) \<and> no_eqs (fold (emit_data pm) dm res) \<and>
     plan_data (fold (emit_data pm) dm res) = plan_data res + image_mset (\<lambda>a. fst (snd a)) (mset dm) \<and>
     plan_pairs (fold (emit_data pm) dm res) =
       plan_pairs res \<union> (\<Union>(p, d, i) \<in> set dm. {(d, x) | x j. (x, j) \<in> set (omap_find [] pm p) \<and> i \<le> j})"
  using assms
proof (induction dm arbitrary: res)
  case (Cons a dm)
  obtain p d i where a: "a = (p, d, i)" by (cases a)
  note E = emit_data_ok [OF Cons.prems, of pm p d i]
  then have "head_plain (emit_data pm a res)" "no_eqs (emit_data pm a res)" using a by simp_all
  note IH = Cons.IH [OF this]
  show ?case using IH E a by (auto simp: Un_assoc)
qed simp

lemma HandlePartition_ok:
  assumes "HandlePartition refs part res = Inr res'" "head_plain res" "no_eqs res"
  shows "head_plain res' \<and> no_eqs res' \<and>
     plan_data res' = plan_data res + mset (concat (map l_data part)) \<and>
     plan_pairs res' = plan_pairs res \<union>
       {(d, x). (d, x) \<in> set (applied_pos part) \<and> map_of refs (pd_path x) = Some (de_path d)}"
proof -
  obtain dm pm where c: "collect_layers refs 0 part [] [] = Inr (dm, pm)"
    and res': "res' = fold (emit_data pm) dm res"
    using assms(1) by (auto simp: HandlePartition_def bindE_eq_Inr_iff)
  have om: "omap dm" "omap pm"
    and dm: "map_of dm p = Some (d, i) \<longleftrightarrow> data_at part 0 i d \<and> p = de_path d"
    and pm: "(x, i) \<in> set (omap_find [] pm p) \<longleftrightarrow> pos_at part 0 i x \<and> map_of refs (pd_path x) = Some p"
    and data: "image_mset (\<lambda>a. fst (snd a)) (mset dm) = mset (concat (map l_data part))" for p d i x
    using collect_layers_ok [OF c omap_Nil omap_Nil] by (auto simp: omap_find_def [of "[]" "[]"])
  have "(\<Union>(p, d, i) \<in> set dm. {(d, x) | x j. (x, j) \<in> set (omap_find [] pm p) \<and> i \<le> j}) =
      {(d, x). (d, x) \<in> set (applied_pos part) \<and> map_of refs (pd_path x) = Some (de_path d)}"
    (is "?A = ?B")
  proof (intro set_eqI iffI; clarify)
    fix d x p i j
    assume "(p, d, i) \<in> set dm" "(x, j) \<in> set (omap_find [] pm p)" "i \<le> j"
    then show "(d, x) \<in> set (applied_pos part) \<and> map_of refs (pd_path x) = Some (de_path d)"
      unfolding in_omap_iff [OF om(1)] dm pm applied_iff data_at_def pos_at_def by auto
  next
    fix d x
    assume "(d, x) \<in> set (applied_pos part)" "map_of refs (pd_path x) = Some (de_path d)"
    then obtain i j where "i \<le> j" "j < length part" "d \<in> set (l_data (part ! i))" "x \<in> set (l_pos (part ! j))"
      unfolding applied_iff by blast
    then have "(de_path d, d, i) \<in> set dm" "(x, j) \<in> set (omap_find [] pm (de_path d))"
      using \<open>map_of refs (pd_path x) = Some (de_path d)\<close>
      unfolding in_omap_iff [OF om(1)] dm pm data_at_def pos_at_def by auto
    then show "(d, x) \<in> ?A" using \<open>i \<le> j\<close> by blast
  qed
  then show ?thesis
    unfolding res' using emit_all_ok [OF assms(2,3), of pm dm] by (simp add: data)
qed

lemma HandlePartitions_ok:
  assumes "foldE (HandlePartition refs) meta res = Inr res'" "head_plain res" "no_eqs res"
  shows "head_plain res' \<and> no_eqs res' \<and> plan_data res' = plan_data res + plan_data meta \<and>
     plan_pairs res' = plan_pairs res \<union>
       {(d, x). (d, x) \<in> plan_pairs meta \<and> map_of refs (pd_path x) = Some (de_path d)}"
  using assms
proof (induction meta arbitrary: res)
  case Nil
  then show ?case by (simp add: plan_data_def plan_pairs_def)
next
  case (Cons part meta)
  then obtain res1 where s: "HandlePartition refs part res = Inr res1"
      "foldE (HandlePartition refs) meta res1 = Inr res'"
    by (auto simp: bindE_eq_Inr_iff)
  note H = HandlePartition_ok [OF s(1) Cons.prems(2,3)]
  then have "head_plain res1" "no_eqs res1" by blast+
  note IH = Cons.IH [OF s(2) this]
  have "plan_data (part # meta) = mset (concat (map l_data part)) + plan_data meta"
      "plan_pairs (part # meta) = set (applied_pos part) \<union> plan_pairs meta"
    by (simp_all add: plan_data_def plan_pairs_def)
  then show ?case using IH H by (auto simp: add_ac)
qed

lemma collect_data_total:
  assumes "distinct (map de_path ds)" "\<forall>d \<in> set ds. map_of dm (de_path d) = None" "omap dm"
  shows "\<exists>dm'. foldE (collect_data n) ds dm = Inr dm'"
  using assms
proof (induction ds arbitrary: dm)
  case (Cons d ds)
  let ?dm = "omap_alter (de_path d) (d, n) (\<lambda>_. (d, n)) dm"
  have "de_path d' \<noteq> de_path d" if "d' \<in> set ds" for d'
    using Cons.prems(1) that by (metis distinct.simps(2) image_eqI list.set_map list.simps(9))
  then have "\<forall>d' \<in> set ds. map_of ?dm (de_path d') = None"
    using Cons.prems by (simp add: map_of_omap_alter)
  then obtain dm' where "foldE (collect_data n) ds ?dm = Inr dm'"
    using Cons.IH [of ?dm] Cons.prems by auto
  moreover have "collect_data n d dm = Inr ?dm" using Cons.prems by (simp add: collect_data_Inr)
  ultimately show ?case by simp
qed simp

lemma collect_delete_total:
  assumes "\<forall>x \<in> set xs. map_of refs (pd_path x) \<noteq> None"
  shows "\<exists>pm'. foldE (collect_delete refs n) xs pm = Inr pm'"
  using assms by (induction xs arbitrary: pm) (auto simp: collect_delete_def)

lemma collect_layers_total:
  assumes "distinct (map de_path (concat (map l_data ls)))"
    and "\<forall>l \<in> set ls. \<forall>d \<in> set (l_data l). map_of dm (de_path d) = None"
    and "\<forall>l \<in> set ls. \<forall>x \<in> set (l_pos l). map_of refs (pd_path x) \<noteq> None" "omap dm"
  shows "\<exists>r. collect_layers refs n ls dm pm = Inr r"
  using assms
proof (induction ls arbitrary: n dm pm)
  case (Cons l ls)
  obtain dm' where dm': "foldE (collect_data n) (l_data l) dm = Inr dm'"
    using collect_data_total [of "l_data l" dm n] Cons.prems(1,2,4) by auto
  obtain pm' where pm': "foldE (collect_delete refs n) (l_pos l) pm = Inr pm'"
    using collect_delete_total [of "l_pos l" refs n pm] Cons.prems(3) by auto
  note D = collect_data_ok [OF dm' Cons.prems(4)]
  have "map_of dm' (de_path d) = None" if "l' \<in> set ls" "d \<in> set (l_data l')" for l' d
  proof (rule ccontr)
    assume "map_of dm' (de_path d) \<noteq> None"
    then obtain d' i where "map_of dm' (de_path d) = Some (d', i)" by auto
    then have "d' \<in> set (l_data l) \<and> de_path d = de_path d'"
      using D that Cons.prems(2) by auto
    then show False using Cons.prems(1) that by (auto simp: image_iff)
  qed
  then have "\<exists>r. collect_layers refs (Suc n) ls dm' pm' = Inr r"
    using Cons.prems D by (intro Cons.IH) auto
  then show ?case using dm' pm' by simp
qed simp

lemma HandlePartitions_total:
  assumes "\<forall>part \<in> set meta. distinct (map de_path (concat (map l_data part)))"
    and "\<forall>part \<in> set meta. \<forall>l \<in> set part. \<forall>x \<in> set (l_pos l). map_of refs (pd_path x) \<noteq> None"
  shows "\<exists>res'. foldE (HandlePartition refs) meta res = Inr res'"
  using assms
proof (induction meta arbitrary: res)
  case (Cons part meta)
  have "\<exists>r. collect_layers refs 0 part [] [] = Inr r"
    using Cons.prems by (intro collect_layers_total) auto
  then obtain res1 where "HandlePartition refs part res = Inr res1"
    by (auto simp: HandlePartition_def)
  then show ?case using Cons.IH [of res1] Cons.prems by auto
qed simp

section \<open>The planner's state\<close>

definition referenced :: "manifest_entry \<Rightarrow> string option" where
  "referenced f = df_referenced_data_file (me_data_file f)"

definition noted :: "planner \<Rightarrow> manifest_entry \<Rightarrow> bool" where
  "noted p f \<longleftrightarrow> (case referenced f of
     None \<Rightarrow> \<not> pl_all_annotated p
   | Some r \<Rightarrow> map_of (pl_referenced p) (pd_path (pdx_delete (pos_of f))) = Some r)"

lemma noted_builder [simp]: "noted (p\<lparr>pl_builder := b\<rparr>) f = noted p f"
  by (simp add: noted_def split: option.split)

definition planner_holds :: "manifest_entry list \<Rightarrow> planner \<Rightarrow> bool" where
  "planner_holds es p \<longleftrightarrow> builder_holds es (pl_builder p) \<and> omap (pl_referenced p) \<and>
     (\<forall>f \<in> set es. is_pos f \<longrightarrow> noted p f) \<and>
     (\<forall>f \<in> set es. is_eq f \<longrightarrow> pl_has_equality_delete p)"

lemma planner_holds_empty: "planner_holds [] empty_planner"
  by (simp add: planner_holds_def empty_planner_def builder_holds_empty)

lemma pos_path: "pd_path (pdx_delete (pos_of f)) = df_file_path (me_data_file f)"
  by (simp add: pos_of_def)

lemma note_entry_ok:
  assumes "note_entry e p = Inr p'" "omap (pl_referenced p)"
  shows "pl_builder p' = pl_builder p" "omap (pl_referenced p')"
    and "map_of (pl_referenced p) k = Some r \<Longrightarrow> map_of (pl_referenced p') k = Some r"
    and "pl_all_annotated p' \<Longrightarrow> pl_all_annotated p"
    and "pl_has_equality_delete p \<Longrightarrow> pl_has_equality_delete p'"
    and "is_eq e \<Longrightarrow> pl_has_equality_delete p'"
    and "is_pos e \<Longrightarrow> noted p' e"
  using assms
  by (auto simp: noted_def note_entry_def HandlePositionDelete_def Let_def referenced_def pos_path is_pos_def
      is_eq_def map_of_omap_alter split: file_content.splits if_splits option.splits)

lemma planner_AddEntry_step:
  assumes h: "planner_holds es p" and a: "planner_AddEntry specs s e p = Inr q"
  shows "planner_holds (es @ [e]) q"
proof (cases "me_status e = kDeleted")
  case True
  then have "q = p" using a by (simp add: planner_AddEntry_def)
  moreover have "builder_holds (es @ [e]) (pl_builder p)"
    using AddEntry_step [of es "pl_builder p" specs s e] h True by (simp add: AddEntry_def planner_holds_def)
  ultimately show ?thesis
    using h True by (auto simp: planner_holds_def is_pos_def is_eq_def)
next
  case False
  obtain p' b where n: "note_entry e p = Inr p'" and s: "AddEntry specs s e (pl_builder p') = Inr b"
      "q = p'\<lparr>pl_builder := b\<rparr>"
    using a False unfolding planner_AddEntry_def by (auto simp: bindE_eq_Inr_iff)
  have om: "omap (pl_referenced p)" using h by (simp add: planner_holds_def)
  note N = note_entry_ok [OF n om]
  have "builder_holds (es @ [e]) b"
    using AddEntry_step [of es "pl_builder p" specs s e b] h s(1) N(1) by (simp add: planner_holds_def)
  moreover have "noted p' f" if "f \<in> set es" "is_pos f" for f
    using h that N(3,4) unfolding planner_holds_def by (auto simp: noted_def split: option.splits)
  moreover have "pl_has_equality_delete p'" if "f \<in> set es" "is_eq f" for f
    using h that N(5) unfolding planner_holds_def by blast
  ultimately show ?thesis
    using N(2,6,7) s(2) unfolding planner_holds_def by auto
qed

lemma planner_run_holds:
  "foldE (planner_AddEntry specs s) es empty_planner = Inr p \<Longrightarrow> planner_holds es p"
proof (induction es arbitrary: p rule: rev_induct)
  case Nil
  then show ?case using planner_holds_empty by simp
next
  case (snoc e es)
  then show ?case using planner_AddEntry_step by (auto simp: foldE_append bindE_eq_Inr_iff)
qed

section \<open>Properties\<close>

text \<open>
  The plan of a list of entries when delete files may name the data file they refer to:
  as \<open>plan_ok\<close>, but a delete with such a reference is only needed for that data file.
\<close>

definition referenced_plan_ok :: "manifest_entry list \<Rightarrow> layer list list \<Rightarrow> bool" where
  "referenced_plan_ok es res \<longleftrightarrow>
     plan_data res = mset (map (planned_data es) (filter is_data es)) \<and>
     (\<Union>r \<in> set res. set (applied_eq r)) =
       {(planned_data es e, eq_of f) | e f. e \<in> set es \<and> f \<in> set es \<and> eq_applies e f} \<and>
     (\<forall>e \<in> set es. \<forall>f \<in> set es. pos_applies e f \<and> covers (pos_of f) (de_path (data_of e)) \<and>
        (referenced f = None \<or> referenced f = Some (de_path (data_of e))) \<longrightarrow>
        (planned_data es e, pdx_delete (pos_of f)) \<in> plan_pairs res) \<and>
     (\<forall>(d, y) \<in> plan_pairs res. \<exists>e \<in> set es. \<exists>f \<in> set es.
        pos_applies e f \<and> d = planned_data es e \<and> y = pdx_delete (pos_of f))"

lemma plan_ok_referenced:
  assumes "plan_ok es res"
  shows "referenced_plan_ok es res"
  unfolding referenced_plan_ok_def
proof (intro conjI ballI impI)
  show "plan_data res = mset (map (planned_data es) (filter is_data es))"
    unfolding plan_data_def by (rule plan_okD(1) [OF assms])
  show "(\<Union>r \<in> set res. set (applied_eq r)) =
      {(planned_data es e, eq_of f) | e f. e \<in> set es \<and> f \<in> set es \<and> eq_applies e f}"
    by (rule plan_okD(2) [OF assms])
qed (use plan_okD(3,4) [OF assms] in \<open>auto simp: plan_pairs_def\<close>)

lemma member_sum_subset: "x \<in> set xs \<Longrightarrow> f x \<subseteq># (\<Sum>x\<leftarrow>xs. f x)" for f :: "'a \<Rightarrow> 'b multiset"
  by (induction xs) (auto intro: subset_mset.order_trans mset_subset_eq_add_right)

lemma distinct_sub_mset:
  assumes "distinct (map f ys)" "mset xs \<subseteq># mset ys"
  shows "distinct (map f xs)"
proof -
  obtain zs where "mset ys = mset (xs @ zs)"
    using assms(2) by (metis ex_mset mset_append mset_subset_eq_exists_conv)
  then have "mset (map f ys) = mset (map f (xs @ zs))" by (metis mset_map)
  then have "distinct (map f (xs @ zs))" using assms(1) by (metis mset_eq_imp_distinct_iff)
  then show ?thesis by simp
qed

lemma plan_paths_distinct:
  assumes "plan_ok es meta" "distinct (map (\<lambda>e. de_path (data_of e)) (filter is_data es))" "part \<in> set meta"
  shows "distinct (map de_path (concat (map l_data part)))"
proof (rule distinct_sub_mset)
  show "distinct (map de_path (map (planned_data es) (filter is_data es)))"
    using assms(2) by (simp add: comp_def)
  show "mset (concat (map l_data part)) \<subseteq># mset (map (planned_data es) (filter is_data es))"
    using member_sum_subset [OF assms(3), of "\<lambda>r. mset (concat (map l_data r))"] assms(1)
    unfolding plan_ok_def by simp
qed

lemma drop_empty_head:
  assumes "head_plain res" "no_eqs res"
  defines "out \<equiv> (if l_data (res ! 0 ! 0) = [] then tl res else res)"
  shows "plan_data out = plan_data res" "plan_pairs out = plan_pairs res"
    "(\<Union>r \<in> set out. set (applied_eq r)) = {}"
proof -
  obtain l0 ps where r: "res = [l0] # ps" "l_pos l0 = []" using assms(1) by (auto simp: head_plain_def)
  show "plan_data out = plan_data res" "plan_pairs out = plan_pairs res"
    using r by (auto simp: out_def plan_data_def plan_pairs_def)
  have "set out \<subseteq> set res" using r by (auto simp: out_def)
  then have "applied_eq r = []" if "r \<in> set out" for r
    using assms(2) that by (intro applied_no_deletes) (auto simp: no_eqs_def)
  then show "(\<Union>r \<in> set out. set (applied_eq r)) = {}" by simp
qed

lemma regrouped_plan_ok:
  assumes h: "planner_holds es p" and opt: "\<not> pl_has_equality_delete p" "pl_all_annotated p"
    and meta: "plan_ok es meta"
    and res: "foldE (HandlePartition (pl_referenced p)) meta [[empty_layer]] = Inr res"
  shows "referenced_plan_ok es (if l_data (res ! 0 ! 0) = [] then tl res else res)"
    (is "referenced_plan_ok es ?out")
proof -
  have start: "head_plain [[empty_layer]]" "no_eqs [[empty_layer]]" "plan_data [[empty_layer]] = {#}"
      "plan_pairs [[empty_layer]] = {}"
    by (auto simp: head_plain_def no_eqs_def empty_layer_def plan_data_def plan_pairs_def)
  note H = HandlePartitions_ok [OF res start(1,2)]
  then have D: "plan_data ?out = plan_data meta" "(\<Union>r \<in> set ?out. set (applied_eq r)) = {}"
      "plan_pairs ?out = {(d, x). (d, x) \<in> plan_pairs meta \<and>
         map_of (pl_referenced p) (pd_path x) = Some (de_path d)}"
    using drop_empty_head [of res] start by auto
  have no_eq: "\<not> eq_applies e f" if "f \<in> set es" for e f
    using h opt(1) that by (auto simp: planner_holds_def eq_applies_def)
  have ref: "\<exists>r. referenced f = Some r \<and> map_of (pl_referenced p) (pd_path (pdx_delete (pos_of f))) = Some r"
    if "f \<in> set es" "is_pos f" for f
    using h opt(2) that by (auto simp: planner_holds_def noted_def split: option.splits)
  show ?thesis
    unfolding referenced_plan_ok_def
  proof (intro conjI ballI impI)
    show "plan_data ?out = mset (map (planned_data es) (filter is_data es))"
      using meta D(1) by (simp add: plan_ok_def plan_data_def)
    show "(\<Union>r \<in> set ?out. set (applied_eq r)) =
        {(planned_data es e, eq_of f) | e f. e \<in> set es \<and> f \<in> set es \<and> eq_applies e f}"
      unfolding D(2) using no_eq by blast
  next
    fix e f assume ef: "e \<in> set es" "f \<in> set es" "pos_applies e f \<and> covers (pos_of f) (de_path (data_of e)) \<and>
        (referenced f = None \<or> referenced f = Some (de_path (data_of e)))"
    then have "map_of (pl_referenced p) (pd_path (pdx_delete (pos_of f))) = Some (de_path (data_of e))"
      using ref [of f] by (auto simp: pos_applies_def)
    moreover have "(planned_data es e, pdx_delete (pos_of f)) \<in> plan_pairs meta"
      using plan_okD(3) [OF meta] ef by (auto simp: plan_pairs_def)
    ultimately show "(planned_data es e, pdx_delete (pos_of f)) \<in> plan_pairs ?out"
      unfolding D(3) by simp
  next
    fix y assume "y \<in> plan_pairs ?out"
    then have "y \<in> plan_pairs meta" unfolding D(3) by auto
    then show "case y of (d, y) \<Rightarrow> \<exists>e \<in> set es. \<exists>f \<in> set es.
        pos_applies e f \<and> d = planned_data es e \<and> y = pdx_delete (pos_of f)"
      using plan_okD(4) [OF meta] by (auto simp: plan_pairs_def)
  qed
qed

lemma planner_plan_ok:
  assumes h: "planner_holds es p" and m: "\<not> mixed_deletes es"
    and r: "\<forall>f \<in> set es. is_pos f \<longrightarrow> ordered_range f"
    and d: "distinct (map (\<lambda>e. de_path (data_of e)) (filter is_data es))"
  shows "\<exists>res. planner_GetResult p = Inr res \<and> referenced_plan_ok es res"
proof -
  have b: "builder_holds es (pl_builder p)" using h by (simp add: planner_holds_def)
  obtain meta where meta: "GetResult (pl_builder p) = Inr meta" "plan_ok es meta"
      "\<forall>r \<in> set meta. \<forall>l \<in> set r. \<forall>y \<in> set (l_pos l). \<exists>f \<in> set es. is_pos f \<and> y = pdx_delete (pos_of f)"
    using builder_plan_ok [OF b m r] by blast
  show ?thesis
  proof (cases "pl_has_referenced_data_file p \<and> \<not> pl_has_equality_delete p \<and> pl_all_annotated p")
    case True
    have "map_of (pl_referenced p) (pd_path x) \<noteq> None"
      if mem: "part \<in> set meta" "l \<in> set part" "x \<in> set (l_pos l)" for part l x
    proof -
      obtain f where "f \<in> set es" "is_pos f" "x = pdx_delete (pos_of f)"
        using bspec [OF bspec [OF bspec [OF meta(3) mem(1)] mem(2)] mem(3)] by blast
      then show ?thesis using h True by (auto simp: planner_holds_def noted_def split: option.splits)
    qed
    then obtain res where res: "foldE (HandlePartition (pl_referenced p)) meta [[empty_layer]] = Inr res"
      using HandlePartitions_total [of meta "pl_referenced p"] plan_paths_distinct [OF meta(2) d] by blast
    show ?thesis
      using regrouped_plan_ok [OF h _ _ meta(2) res] True meta(1) res by (simp add: planner_GetResult_def)
  next
    case False
    then have "planner_GetResult p = Inr meta" using meta(1) by (auto simp: planner_GetResult_def)
    then show ?thesis using plan_ok_referenced [OF meta(2)] by blast
  qed
qed


definition example_annotated :: "manifest_entry list" where
  "example_annotated = [example_entry kData ''d1'' 1, example_entry kData ''d2'' 1,
     (example_entry kPositionDeletes ''p2'' 2)\<lparr>me_data_file :=
        (example_file kPositionDeletes ''p2'')\<lparr>df_referenced_data_file := Some ''d1''\<rparr>\<rparr>]"

lemma example_annotated_ranges: "\<forall>f \<in> set example_annotated. is_pos f \<longrightarrow> ordered_range f"
  by (simp add: example_annotated_def example_entry_def example_file_def ordered_range_def pos_of_def
      min_max_path_def)


text \<open>
  C26. The single-threaded planning loop terminates and sees exactly the live entries of
  all manifests in order: when every manifest decodes and every live entry has a sequence
  number, its result is that of adding the entries, with inherited sequence numbers and
  without the deleted ones, one after the other; otherwise the first error is returned.
\<close>

theorem GetScanMetadata_reads_all:
  "GetScanMetadata open_manifest specs s mfs =
     bindE (foldE (consume specs s) (concat (map (manifest_entries open_manifest) mfs)) empty_planner)
       planner_GetResult"
  by (simp add: GetScanMetadata_def loop_consumes stream_entries_def)

end
