(* ===== verification/Equality_Delete.thy ===== *)
theory Equality_Delete
  imports Iceberg_Types Prelude
begin

text \<open>
  The stores of equality deletes (\<open>equality_delete/\<close>): \<open>GenericEqualityDelete\<close> keeps rows
  as byte strings, \<open>SpecializedDeleteOneColumn\<close> one integer column,
  \<open>SpecializedDeleteMultipleColumn\<close> several integer columns packed into one number, and
  \<open>MakeEqualityDelete\<close> chooses among them.  Each store maps a row to the greatest layer of a
  delete of this row.

  An Arrow column is its type and its cells; a cell has a null flag and the bytes of its
  slot, which Arrow leaves unspecified under a null.  The bytes of a list cell are its printed
  form.  The byte width of an Arrow type is a parameter, with the documented widths as
  hypothesis.  Hash maps are ordered maps, since nothing depends on their iteration order.
  The accounting of allocated memory (\<open>MemoryState\<close>) and the limit it enforces are left out.
\<close>

section \<open>Columns\<close>

record cell =
  ce_null :: bool
  ce_raw :: string

record column =
  co_type :: arrow_type
  co_cells :: "cell list"

text \<open>Access to a row outside the column is undefined.\<close>

definition cell_at :: "column \<Rightarrow> nat \<Rightarrow> cell result" where
  "cell_at col row =
     (if row < length (co_cells col) then Inr (co_cells col ! row) else Inl (Undefined ''row out of range''))"

datatype type_id = T_INT16 | T_INT32 | T_INT64 | T_TIMESTAMP | T_other

definition type_id_of :: "arrow_type \<Rightarrow> type_id" where
  "type_id_of t = (case t of A_INT16 \<Rightarrow> T_INT16 | A_INT32 \<Rightarrow> T_INT32 | A_INT64 \<Rightarrow> T_INT64
     | A_TIMESTAMP _ _ \<Rightarrow> T_TIMESTAMP | _ \<Rightarrow> T_other)"

fun TypeToBitWidth :: "type_id \<Rightarrow> nat result" where
  "TypeToBitWidth T_INT16 = Inr 16"
| "TypeToBitWidth T_INT32 = Inr 32"
| "TypeToBitWidth T_INT64 = Inr 64"
| "TypeToBitWidth T_TIMESTAMP = Inr 64"
| "TypeToBitWidth T_other = Inl (Execution_error ''TypeToBitWidth: unsupported type'')"

section \<open>Maps to layers\<close>

type_synonym 'k layer_map = "('k \<times> int) list"

definition UpdateMax :: "'k::linorder \<Rightarrow> int \<Rightarrow> 'k layer_map \<Rightarrow> 'k layer_map" where
  "UpdateMax key v m =
     (case map_of m key of
        None \<Rightarrow> omap_alter key v (\<lambda>_. v) m
      | Some old_value \<Rightarrow> omap_alter key v (\<lambda>_. max old_value v) m)"

definition deleted_at :: "int option \<Rightarrow> int \<Rightarrow> bool" where
  "deleted_at delete_layer data_layer = (case delete_layer of None \<Rightarrow> False | Some l \<Rightarrow> l \<ge> data_layer)"

section \<open>Generic deletes\<close>

definition GetWidth :: "(arrow_type \<Rightarrow> int) \<Rightarrow> column \<Rightarrow> nat \<Rightarrow> int result" where
  "GetWidth byte_width col row =
     (let width = byte_width (co_type col) in
      if width \<noteq> - 1 then Inr width
      else case co_type col of
        A_STRING \<Rightarrow> bindE (cell_at col row) (\<lambda>c. Inr (4 + int (length (ce_raw c))))
      | A_BINARY \<Rightarrow> bindE (cell_at col row) (\<lambda>c. Inr (4 + int (length (ce_raw c))))
      | _ \<Rightarrow> Inl (Not_implemented ''GetWidth: unexpected type''))"

definition WriteStringViewToData :: "string \<Rightarrow> string" where
  "WriteStringViewToData v = le_bytes 4 (length v mod 2 ^ 32) @ v"

definition WriteToData :: "column \<Rightarrow> nat \<Rightarrow> string result" where
  "WriteToData col row =
     bindE (cell_at col row) (\<lambda>c.
       case co_type col of
         A_BOOL \<Rightarrow> Inr (ce_raw c)
       | A_INT8 \<Rightarrow> Inr (ce_raw c)
       | A_INT16 \<Rightarrow> Inr (ce_raw c)
       | A_INT32 \<Rightarrow> Inr (ce_raw c)
       | A_INT64 \<Rightarrow> Inr (ce_raw c)
       | A_FLOAT \<Rightarrow> Inr (ce_raw c)
       | A_DOUBLE \<Rightarrow> Inr (ce_raw c)
       | A_STRING \<Rightarrow> Inr (WriteStringViewToData (ce_raw c))
       | A_BINARY \<Rightarrow> Inr (WriteStringViewToData (ce_raw c))
       | A_FIXED_SIZE_BINARY _ \<Rightarrow> Inr (WriteStringViewToData (ce_raw c))
       | A_DATE32 \<Rightarrow> Inr (ce_raw c)
       | A_TIME64 \<Rightarrow> Inr (ce_raw c)
       | A_TIMESTAMP _ _ \<Rightarrow> Inr (ce_raw c)
       | A_DECIMAL _ _ \<Rightarrow> Inr (WriteStringViewToData (ce_raw c))
       | A_LIST _ \<Rightarrow> Inr (WriteStringViewToData (ce_raw c))
       | _ \<Rightarrow> Inl (Execution_error ''WriteToData: unexpected type''))"

text \<open>
  The key of a row.  The buffer has as many bytes as the first pass counts; bytes written
  behind its end or left unwritten make the behaviour undefined.  \<open>SizedPtr\<close> keeps the size
  in the upper 16 bits of a pointer, so that only the size modulo \<open>2 ^ 16\<close> is left.
\<close>

definition key_width_step ::
    "(arrow_type \<Rightarrow> int) \<Rightarrow> nat \<Rightarrow> nat \<times> column \<Rightarrow> 64 word \<times> int \<Rightarrow> (64 word \<times> int) result" where
  "key_width_step byte_width row ic st =
     (case (ic, st) of ((i, col), (null_bitmask, total_width)) \<Rightarrow>
       bindE (cell_at col row) (\<lambda>c.
         if ce_null c then
           if i < 64 then Inr (or null_bitmask (push_bit i 1), total_width) else Inl (Undefined ''shift'')
         else bindE (GetWidth byte_width col row) (\<lambda>w. Inr (null_bitmask, total_width + w))))"

definition key_write_step :: "nat \<Rightarrow> column \<Rightarrow> string \<Rightarrow> string result" where
  "key_write_step row col data =
     bindE (cell_at col row) (\<lambda>c.
       if ce_null c then Inr data else bindE (WriteToData col row) (\<lambda>s. Inr (data @ s)))"

definition SizedPtr_Size :: "nat \<Rightarrow> nat" where
  "SizedPtr_Size sz = sz mod 2 ^ 16"

definition GenericDeleteKey :: "(arrow_type \<Rightarrow> int) \<Rightarrow> column list \<Rightarrow> nat \<Rightarrow> string result" where
  "GenericDeleteKey byte_width arrays row =
     bindE (foldE (key_width_step byte_width row) (enumerate 0 arrays) (0, 0)) (\<lambda>(null_bitmask, total_width).
       let size = nat ((8 + total_width) mod 2 ^ 32) in
       bindE (foldE (key_write_step row) arrays (word_bytes 8 null_bitmask)) (\<lambda>data.
         if length data \<noteq> size then Inl (Undefined ''buffer of the key'')
         else Inr (take (SizedPtr_Size size) data)))"

type_synonym generic_delete = "string layer_map"

definition generic_Add ::
    "(arrow_type \<Rightarrow> int) \<Rightarrow> column list \<Rightarrow> nat \<Rightarrow> int \<Rightarrow> generic_delete \<Rightarrow> generic_delete result" where
  "generic_Add byte_width arrays rows_count delete_layer vals =
     (if length arrays > 64 then
        Inl (Not_implemented ''GenericEqualityDelete is not implemented for more than 64 columns'')
      else foldE (\<lambda>row vals. bindE (GenericDeleteKey byte_width arrays row) (\<lambda>key.
             Inr (UpdateMax key delete_layer vals))) [0..<rows_count] vals)"

definition generic_IsDeleted ::
    "(arrow_type \<Rightarrow> int) \<Rightarrow> column list \<Rightarrow> nat \<Rightarrow> int \<Rightarrow> generic_delete \<Rightarrow> bool result" where
  "generic_IsDeleted byte_width arrays row data_layer vals =
     bindE (GenericDeleteKey byte_width arrays row) (\<lambda>key. Inr (deleted_at (map_of vals key) data_layer))"

section \<open>One integer column\<close>

record one_column_delete =
  oc_type :: type_id
  oc_contains_null :: bool
  oc_values :: "nat layer_map"

definition one_Add :: "column list \<Rightarrow> nat \<Rightarrow> int \<Rightarrow> one_column_delete \<Rightarrow> one_column_delete result" where
  "one_Add arrays rows_count delete_layer d =
     (case arrays of
        [array] \<Rightarrow>
          if type_id_of (co_type array) \<noteq> oc_type d then
            Inl (Execution_error ''SpecializedDeleteOneColumn (Add): unexpected type'')
          else foldE (\<lambda>row d. bindE (cell_at array row) (\<lambda>c.
            if ce_null c then Inr (d\<lparr>oc_contains_null := True\<rparr>)
            else Inr (d\<lparr>oc_values := UpdateMax (le_value (ce_raw c)) delete_layer (oc_values d)\<rparr>)))
            [0..<rows_count] d
      | _ \<Rightarrow> Inl (Execution_error ''SpecializedDeleteOneColumn (Add): unexpected number of columns''))"

definition one_Size :: "one_column_delete \<Rightarrow> nat" where
  "one_Size d = length (oc_values d) + (if oc_contains_null d then 1 else 0)"

text \<open>The cast of the array is undefined for a column of another type.\<close>

definition one_IsDeleted :: "column list \<Rightarrow> nat \<Rightarrow> int \<Rightarrow> one_column_delete \<Rightarrow> bool result" where
  "one_IsDeleted arrays row data_layer d =
     (case arrays of
        [] \<Rightarrow> Inl (Undefined ''arrays[0]'')
      | array # _ \<Rightarrow> bindE (cell_at array row) (\<lambda>c.
          if ce_null c then Inr (oc_contains_null d)
          else if type_id_of (co_type array) \<noteq> oc_type d then Inl (Undefined ''static_cast'')
          else Inr (deleted_at (map_of (oc_values d) (le_value (ce_raw c))) data_layer)))"

section \<open>Several integer columns\<close>

record multi_column_delete =
  mc_bits :: nat
  mc_types :: "type_id list"
  mc_order :: "nat list"
  mc_bit_width :: "nat list"
  mc_values :: "nat layer_map"
  mc_values_with_nulls :: "(nat \<times> nat layer_map) list"

definition mk_multi :: "nat \<Rightarrow> type_id list \<Rightarrow> nat list \<Rightarrow> multi_column_delete result" where
  "mk_multi bits types order =
     bindE (mapE TypeToBitWidth types) (\<lambda>widths.
     Inr \<lparr>mc_bits = bits, mc_types = types, mc_order = order, mc_bit_width = widths,
          mc_values = [], mc_values_with_nulls = []\<rparr>)"

text \<open>
  One column of the packed row; the number has \<open>mc_bits\<close> bits, so that sums and shifts
  are taken modulo \<open>2 ^ mc_bits\<close>.
\<close>

definition pack_step ::
    "bool \<Rightarrow> multi_column_delete \<Rightarrow> column list \<Rightarrow> nat \<Rightarrow> nat \<Rightarrow> nat \<times> nat \<Rightarrow> (nat \<times> nat) result" where
  "pack_step skip_nulls d arrays row i st =
     (case st of (result, current_shift) \<Rightarrow>
       if i \<ge> length arrays \<or> i \<ge> length (mc_types d) then Inl (Undefined ''index'')
       else bindE (cell_at (arrays ! i) row) (\<lambda>c.
         if skip_nulls \<and> ce_null c then Inr st
         else if mc_types d ! i = T_other then Inl (Execution_error ''Unexpected type'')
         else if type_id_of (co_type (arrays ! i)) \<noteq> mc_types d ! i then Inl (Undefined ''static_cast'')
         else Inr ((result + le_value (ce_raw c) * 2 ^ current_shift) mod 2 ^ mc_bits d,
                   current_shift + mc_bit_width d ! i)))"

definition ConstructRow :: "multi_column_delete \<Rightarrow> column list \<Rightarrow> nat \<Rightarrow> nat result" where
  "ConstructRow d arrays row =
     bindE (foldE (pack_step True d arrays row) (mc_order d) (0, 0)) (\<lambda>(result, _). Inr result)"

definition ConstructRowIgnoreNulls :: "multi_column_delete \<Rightarrow> column list \<Rightarrow> nat \<Rightarrow> nat result" where
  "ConstructRowIgnoreNulls d arrays row =
     bindE (foldE (pack_step False d arrays row) (mc_order d) (0, 0)) (\<lambda>(result, _). Inr result)"

text \<open>The mask of null columns is a \<open>uint8_t\<close>.\<close>

definition nulls_mask :: "multi_column_delete \<Rightarrow> column list \<Rightarrow> nat \<Rightarrow> nat result" where
  "nulls_mask d arrays row =
     foldE (\<lambda>i mask.
       if i \<ge> length arrays then Inl (Undefined ''index'')
       else bindE (cell_at (arrays ! i) row) (\<lambda>c.
         Inr (if ce_null c then (or mask (2 ^ i)) mod 2 ^ 8 else mask))) (mc_order d) 0"

definition multi_add_row ::
    "column list \<Rightarrow> int \<Rightarrow> nat \<Rightarrow> multi_column_delete \<Rightarrow> multi_column_delete result" where
  "multi_add_row arrays delete_layer row d =
     bindE (ConstructRow d arrays row) (\<lambda>key.
     Inr (d\<lparr>mc_values := UpdateMax key delete_layer (mc_values d)\<rparr>))"

definition multi_add_row_nulls ::
    "column list \<Rightarrow> int \<Rightarrow> nat \<Rightarrow> multi_column_delete \<Rightarrow> multi_column_delete result" where
  "multi_add_row_nulls arrays delete_layer row d =
     bindE (nulls_mask d arrays row) (\<lambda>mask.
     bindE (ConstructRowIgnoreNulls d arrays row) (\<lambda>key.
       if mask = 0 then Inr (d\<lparr>mc_values := UpdateMax key delete_layer (mc_values d)\<rparr>)
       else Inr (d\<lparr>mc_values_with_nulls :=
              omap_alter mask [] (UpdateMax key delete_layer) (mc_values_with_nulls d)\<rparr>)))"

definition multi_Add :: "column list \<Rightarrow> nat \<Rightarrow> int \<Rightarrow> multi_column_delete \<Rightarrow> multi_column_delete result" where
  "multi_Add arrays rows_count delete_layer d =
     (if length arrays \<noteq> length (mc_types d) then
        Inl (Execution_error ''SpecializedDeleteMultipleColumn (Add): unexpected number of columns'')
      else if map (type_id_of \<circ> co_type) arrays \<noteq> mc_types d then
        Inl (Execution_error ''SpecializedDeleteMultipleColumn (Add): unexpected type'')
      else if \<not> (\<exists>array \<in> set arrays. \<exists>c \<in> set (co_cells array). ce_null c) then
        foldE (multi_add_row arrays delete_layer) [0..<rows_count] d
      else if length arrays \<ge> 9 then
        Inl (Not_implemented ''Equality deletes with nulls and more than 8 columns are not supported'')
      else foldE (multi_add_row_nulls arrays delete_layer) [0..<rows_count] d)"

definition multi_Size :: "multi_column_delete \<Rightarrow> nat" where
  "multi_Size d = length (mc_values d) + sum_list (map (length \<circ> snd) (mc_values_with_nulls d))"

definition multi_IsDeleted :: "column list \<Rightarrow> nat \<Rightarrow> int \<Rightarrow> multi_column_delete \<Rightarrow> bool result" where
  "multi_IsDeleted arrays row data_layer d =
     bindE (mapE (\<lambda>array. cell_at array row) arrays) (\<lambda>cells.
       if \<not> list_ex ce_null cells then
         bindE (ConstructRow d arrays row) (\<lambda>v. Inr (deleted_at (map_of (mc_values d) v) data_layer))
       else
         bindE (nulls_mask d arrays row) (\<lambda>mask.
           case map_of (mc_values_with_nulls d) mask of
             None \<Rightarrow> Inr False
           | Some vals \<Rightarrow>
               bindE (ConstructRowIgnoreNulls d arrays row) (\<lambda>v. Inr (deleted_at (map_of vals v) data_layer))))"

section \<open>The choice of a store\<close>

datatype equality_delete =
    Generic generic_delete
  | One_column one_column_delete
  | Multiple_column multi_column_delete

definition MakeEqualityDelete :: "arrow_type list \<Rightarrow> bool \<Rightarrow> equality_delete result" where
  "MakeEqualityDelete schema use_specialized_deletes =
     (if \<not> use_specialized_deletes then Inr (Generic [])
      else case schema of
        [ty] \<Rightarrow>
          if type_id_of ty = T_other then Inr (Generic [])
          else Inr (One_column \<lparr>oc_type = type_id_of ty, oc_contains_null = False, oc_values = []\<rparr>)
      | _ \<Rightarrow>
          let types = filter (\<lambda>t. t \<noteq> T_other) (map type_id_of schema);
              all_types_good = (T_other \<notin> set (map type_id_of schema)) in
          bindE (mapE TypeToBitWidth types) (\<lambda>widths.
            let total_width = sum_list widths mod 2 ^ 32 in
            if \<not> all_types_good \<or> total_width > 128 then Inr (Generic [])
            else
              let order = sort_key (\<lambda>i. - int (widths ! i)) [0..<length widths];
                  bits = (if total_width \<le> 32 then 32 else if total_width \<le> 64 then 64 else 128) in
              bindE (mk_multi bits types order) (\<lambda>d. Inr (Multiple_column d))))"

fun store_Add ::
    "(arrow_type \<Rightarrow> int) \<Rightarrow> column list \<Rightarrow> nat \<Rightarrow> int \<Rightarrow> equality_delete \<Rightarrow> equality_delete result" where
  "store_Add byte_width arrays n l (Generic d) = bindE (generic_Add byte_width arrays n l d) (\<lambda>d. Inr (Generic d))"
| "store_Add byte_width arrays n l (One_column d) = bindE (one_Add arrays n l d) (\<lambda>d. Inr (One_column d))"
| "store_Add byte_width arrays n l (Multiple_column d) =
     bindE (multi_Add arrays n l d) (\<lambda>d. Inr (Multiple_column d))"

fun store_IsDeleted :: "(arrow_type \<Rightarrow> int) \<Rightarrow> column list \<Rightarrow> nat \<Rightarrow> int \<Rightarrow> equality_delete \<Rightarrow> bool result" where
  "store_IsDeleted byte_width arrays row l (Generic d) = generic_IsDeleted byte_width arrays row l d"
| "store_IsDeleted byte_width arrays row l (One_column d) = one_IsDeleted arrays row l d"
| "store_IsDeleted byte_width arrays row l (Multiple_column d) = multi_IsDeleted arrays row l d"

fun store_Size :: "equality_delete \<Rightarrow> nat" where
  "store_Size (Generic d) = length d"
| "store_Size (One_column d) = one_Size d"
| "store_Size (Multiple_column d) = multi_Size d"

end
