(* ===== verification/Equality_Stores.thy ===== *)
theory Equality_Stores
  imports Equality_Delete
begin

text \<open>
  The contract of a store of equality deletes as a locale, and its implementations.  A row
  of delete columns is a list of optional values; a store represents a set of rows with the
  layers of their deletes, and answers for a row and the layer of its data file whether the
  set has the row in that layer or a later one.
\<close>

section \<open>The contract\<close>

type_synonym row_key = "string option list"

definition cell_value :: "cell \<Rightarrow> string option" where
  "cell_value c = (if ce_null c then None else Some (ce_raw c))"

definition row_key :: "column list \<Rightarrow> nat \<Rightarrow> row_key" where
  "row_key cols row = map (\<lambda>c. cell_value (co_cells c ! row)) cols"

definition batch_rows :: "column list \<Rightarrow> nat \<Rightarrow> bool" where
  "batch_rows cols n \<longleftrightarrow> (\<forall>c \<in> set cols. length (co_cells c) = n)"

definition raise_layer :: "int \<Rightarrow> int option \<Rightarrow> int option" where
  "raise_layer l m = Some (case m of None \<Rightarrow> l | Some l' \<Rightarrow> max l' l)"

text \<open>A row of values with the layers of its deletes.\<close>

type_synonym row_deletes = "(row_key \<times> int) set"

definition row_is_deleted :: "row_deletes \<Rightarrow> row_key \<Rightarrow> int \<Rightarrow> bool" where
  "row_is_deleted D k data_layer \<longleftrightarrow> (\<exists>l \<ge> data_layer. (k, l) \<in> D)"

definition batch_deletes :: "column list \<Rightarrow> nat \<Rightarrow> int \<Rightarrow> row_deletes" where
  "batch_deletes cols n l = (\<lambda>row. (row_key cols row, l)) ` {..<n}"

locale equality_store =
  fixes Add :: "column list \<Rightarrow> nat \<Rightarrow> int \<Rightarrow> 's \<Rightarrow> 's result"
    and IsDeleted :: "column list \<Rightarrow> nat \<Rightarrow> int \<Rightarrow> 's \<Rightarrow> bool result"
    and Size :: "'s \<Rightarrow> nat"
    and layer_of :: "'s \<Rightarrow> row_key \<Rightarrow> int option"
    and fits :: "'s \<Rightarrow> column list \<Rightarrow> bool"
    and invar :: "'s \<Rightarrow> bool"
  assumes Add_law: "invar s \<Longrightarrow> fits s cols \<Longrightarrow> batch_rows cols n \<Longrightarrow>
      \<exists>s'. Add cols n l s = Inr s' \<and> invar s' \<and> fits s' = fits s \<and>
        (\<forall>k. layer_of s' k = (if k \<in> row_key cols ` {..<n} then raise_layer l (layer_of s k) else layer_of s k))"
    and IsDeleted_law: "invar s \<Longrightarrow> fits s cols \<Longrightarrow> batch_rows cols n \<Longrightarrow> row < n \<Longrightarrow>
      IsDeleted cols row data_layer s = Inr (deleted_at (layer_of s (row_key cols row)) data_layer)"
    and Size_law: "invar s \<Longrightarrow> Size s = 0 \<Longrightarrow> layer_of s k = None"
begin

definition represents :: "'s \<Rightarrow> row_deletes \<Rightarrow> bool" where
  "represents s D \<longleftrightarrow> invar s \<and> (\<forall>k dl. deleted_at (layer_of s k) dl \<longleftrightarrow> row_is_deleted D k dl)"

lemma represents_Add:
  assumes "represents s D" "fits s cols" "batch_rows cols n"
  shows "\<exists>s'. Add cols n l s = Inr s' \<and> represents s' (D \<union> batch_deletes cols n l) \<and> fits s' = fits s"
proof -
  obtain s' where s': "Add cols n l s = Inr s'" "invar s'" "fits s' = fits s"
      "\<And>k. layer_of s' k = (if k \<in> row_key cols ` {..<n} then raise_layer l (layer_of s k) else layer_of s k)"
    using Add_law [of s cols n l] assms by (auto simp: represents_def)
  have "deleted_at (layer_of s' k) dl \<longleftrightarrow> row_is_deleted (D \<union> batch_deletes cols n l) k dl" for k dl
  proof -
    have old: "deleted_at (layer_of s k) dl \<longleftrightarrow> row_is_deleted D k dl"
      using assms(1) by (simp add: represents_def)
    have new: "row_is_deleted (D \<union> batch_deletes cols n l) k dl \<longleftrightarrow>
        row_is_deleted D k dl \<or> (k \<in> row_key cols ` {..<n} \<and> dl \<le> l)"
      by (auto simp: row_is_deleted_def batch_deletes_def)
    have "deleted_at (raise_layer l m) dl \<longleftrightarrow> deleted_at m dl \<or> dl \<le> l" for m
      by (auto simp: deleted_at_def raise_layer_def split: option.splits)
    then show ?thesis using old new s'(4) by auto
  qed
  then show ?thesis using s'(1-3) by (auto simp: represents_def)
qed

lemma represents_IsDeleted:
  assumes "represents s D" "fits s cols" "batch_rows cols n" "row < n"
  shows "IsDeleted cols row data_layer s = Inr (row_is_deleted D (row_key cols row) data_layer)"
  using IsDeleted_law [OF _ assms(2-4)] assms(1) by (simp add: represents_def)

lemma represents_Size:
  assumes "represents s D" "Size s = 0"
  shows "\<not> row_is_deleted D k data_layer"
proof -
  have "\<not> deleted_at (layer_of s k) data_layer"
    using assms Size_law [of s k] by (simp add: represents_def deleted_at_def)
  then show ?thesis using assms(1) by (simp add: represents_def)
qed

end

section \<open>Layer maps\<close>

lemma map_of_UpdateMax:
  "omap m \<Longrightarrow> map_of (UpdateMax k l m) k' = (if k' = k then raise_layer l (map_of m k) else map_of m k')"
  by (auto simp: UpdateMax_def map_of_omap_alter raise_layer_def split: option.splits)

lemma omap_UpdateMax [simp]: "omap m \<Longrightarrow> omap (UpdateMax k l m)"
  by (simp add: UpdateMax_def split: option.splits)

lemma raise_layer_idem [simp]: "raise_layer l (raise_layer l m) = raise_layer l m"
  by (auto simp: raise_layer_def split: option.split)

text \<open>A pass over the rows that raises the layer of one key per row.\<close>

lemma foldE_rows:
  assumes step: "\<And>row s. row < n \<Longrightarrow> I s \<Longrightarrow> \<exists>s'. f row s = Inr s' \<and> I s' \<and>
      (\<forall>k. look s' k = (if k = key row then raise_layer l (look s k) else look s k))"
    and "I s"
  shows "\<exists>s'. foldE f [0..<n] s = Inr s' \<and> I s' \<and>
    (\<forall>k. look s' k = (if k \<in> key ` {..<n} then raise_layer l (look s k) else look s k))"
  using step
proof (induction n)
  case (Suc n)
  obtain s1 where s1: "foldE f [0..<n] s = Inr s1" "I s1"
      "\<And>k. look s1 k = (if k \<in> key ` {..<n} then raise_layer l (look s k) else look s k)"
    using Suc.IH Suc.prems by (metis less_SucI)
  obtain s2 where s2: "f n s1 = Inr s2" "I s2"
      "\<And>k. look s2 k = (if k = key n then raise_layer l (look s1 k) else look s1 k)"
    using Suc.prems [of n s1] s1(2) by auto
  have "look s2 k = (if k \<in> key ` {..<Suc n} then raise_layer l (look s k) else look s k)" for k
    using s1(3) [of k] s2(3) [of k] by (auto simp: lessThan_Suc)
  then show ?case using s1(1) s2(1,2) by (auto simp: foldE_append)
qed (use assms(2) in simp)

section \<open>Generic deletes\<close>

text \<open>The documented byte widths of Arrow types; \<open>- 1\<close> for types without a fixed width.\<close>

definition byte_width_ok :: "(arrow_type \<Rightarrow> int) \<Rightarrow> bool" where
  "byte_width_ok byte_width \<longleftrightarrow>
     byte_width A_BOOL = 0 \<and> byte_width A_INT8 = 1 \<and> byte_width A_INT16 = 2 \<and> byte_width A_INT32 = 4 \<and>
     byte_width A_INT64 = 8 \<and> byte_width A_FLOAT = 4 \<and> byte_width A_DOUBLE = 8 \<and> byte_width A_DATE32 = 4 \<and>
     byte_width A_TIME64 = 8 \<and> (\<forall>u z. byte_width (A_TIMESTAMP u z) = 8) \<and>
     byte_width A_STRING = - 1 \<and> byte_width A_BINARY = - 1 \<and>
     (\<forall>p s. byte_width (A_DECIMAL p s) = 16) \<and> (\<forall>n. byte_width (A_FIXED_SIZE_BINARY n) = n) \<and>
     (\<forall>t. byte_width (A_LIST t) = - 1)"

definition fixed_width :: "arrow_type \<Rightarrow> nat option" where
  "fixed_width t = (case t of A_INT8 \<Rightarrow> Some 1 | A_INT16 \<Rightarrow> Some 2 | A_INT32 \<Rightarrow> Some 4 | A_INT64 \<Rightarrow> Some 8
     | A_FLOAT \<Rightarrow> Some 4 | A_DOUBLE \<Rightarrow> Some 8 | A_DATE32 \<Rightarrow> Some 4 | A_TIME64 \<Rightarrow> Some 8
     | A_TIMESTAMP _ _ \<Rightarrow> Some 8 | _ \<Rightarrow> None)"

definition variable_width :: "arrow_type \<Rightarrow> bool" where
  "variable_width t \<longleftrightarrow> t = A_STRING \<or> t = A_BINARY"

text \<open>The types and values a generic key represents faithfully.\<close>

definition raw_ok :: "arrow_type \<Rightarrow> string \<Rightarrow> bool" where
  "raw_ok t s \<longleftrightarrow> fixed_width t = Some (length s) \<or> (variable_width t \<and> length s < 2 ^ 32)"

definition key_ok :: "arrow_type list \<Rightarrow> row_key \<Rightarrow> bool" where
  "key_ok tys k \<longleftrightarrow> list_all2 (\<lambda>t v. pred_option (raw_ok t) v) tys k"

definition enc :: "arrow_type \<Rightarrow> string \<Rightarrow> string" where
  "enc t s = (if variable_width t then WriteStringViewToData s else s)"

fun enc_cells :: "arrow_type list \<Rightarrow> row_key \<Rightarrow> string" where
  "enc_cells (t # tys) (None # k) = enc_cells tys k"
| "enc_cells (t # tys) (Some s # k) = enc t s @ enc_cells tys k"
| "enc_cells _ _ = []"

fun null_mask :: "nat \<Rightarrow> row_key \<Rightarrow> 64 word" where
  "null_mask i [] = 0"
| "null_mask i (v # k) = or (if v = None then push_bit i 1 else 0) (null_mask (Suc i) k)"

definition encode_row :: "arrow_type list \<Rightarrow> row_key \<Rightarrow> string" where
  "encode_row tys k = word_bytes 8 (null_mask 0 k) @ enc_cells tys k"

lemma bit_null_mask:
  "j < 64 \<Longrightarrow> bit (null_mask i k) j \<longleftrightarrow> i \<le> j \<and> j < i + length k \<and> k ! (j - i) = None"
proof (induction k arbitrary: i)
  case (Cons v k)
  have "bit (if v = None then push_bit i 1 else 0 :: 64 word) j \<longleftrightarrow> v = None \<and> j = i"
    using Cons.prems by (auto simp: bit_simps)
  then show ?case
    using Cons by (cases "j = i") (auto simp: bit_or_iff nth_Cons' Suc_diff_le Suc_le_eq)
qed simp

lemma null_mask_inject:
  assumes "length k \<le> 64" "length k = length k'" "null_mask 0 k = null_mask 0 k'" "j < length k"
  shows "k ! j = None \<longleftrightarrow> k' ! j = None"
  using assms bit_null_mask [of j 0 k] bit_null_mask [of j 0 k'] by simp

lemma enc_inject:
  assumes "raw_ok t s" "raw_ok t s'" "enc t s @ r = enc t s' @ r'"
  shows "s = s' \<and> r = r'"
proof (cases "variable_width t")
  case True
  then have "fixed_width t = None" by (auto simp: variable_width_def fixed_width_def)
  then have len: "length s < 2 ^ 32" "length s' < 2 ^ 32" using assms by (auto simp: raw_ok_def)
  have "le_bytes 4 (length s mod 2 ^ 32) = le_bytes 4 (length s' mod 2 ^ 32)" "s @ r = s' @ r'"
    using assms(3) True by (simp_all add: enc_def WriteStringViewToData_def)
  then have "length s = length s'" using len le_bytes_inject [of "length s" 4 "length s'"] by simp
  then show ?thesis using \<open>s @ r = s' @ r'\<close> by simp
next
  case False
  then show ?thesis using assms by (auto simp: raw_ok_def enc_def)
qed

lemma enc_cells_inject:
  assumes "key_ok tys k" "key_ok tys k'" "list_all2 (\<lambda>v v'. v = None \<longleftrightarrow> v' = None) k k'"
    and "enc_cells tys k = enc_cells tys k'"
  shows "k = k'"
  using assms unfolding key_ok_def
proof (induction tys k arbitrary: k' rule: list_all2_induct)
  case (Cons t tys v k)
  from Cons.prems(1) obtain v' l where k': "k' = v' # l" by (cases k') auto
  show ?case
  proof (cases v)
    case (Some s)
    then obtain s' where s': "v' = Some s'" using Cons.prems(2) k' by auto
    then have "s = s' \<and> enc_cells tys k = enc_cells tys l"
      using enc_inject [of t s s'] Cons.hyps(1) Cons.prems(1,3) k' Some by auto
    then show ?thesis using Cons.IH [of l] Cons.prems k' Some s' by auto
  qed (use Cons.IH Cons.prems k' in auto)
qed simp

lemma encode_row_inject:
  assumes "key_ok tys k" "key_ok tys k'" "length tys \<le> 64" "encode_row tys k = encode_row tys k'"
  shows "k = k'"
proof -
  have len: "length k = length tys" "length k' = length tys"
    using assms(1,2) by (auto simp: key_ok_def dest: list_all2_lengthD)
  have "null_mask 0 k = null_mask 0 k'" "enc_cells tys k = enc_cells tys k'"
    using assms(4) word_bytes_inject [of 8 "null_mask 0 k" "null_mask 0 k'"] by (simp_all add: encode_row_def)
  then show ?thesis
    using enc_cells_inject [OF assms(1,2)] null_mask_inject [of k k'] len assms(3)
    by (simp add: list_all2_conv_all_nth)
qed

text \<open>Columns a generic store handles: matching types and values, and keys below \<open>2 ^ 16\<close> bytes.\<close>

definition columns_ok :: "arrow_type list \<Rightarrow> column list \<Rightarrow> bool" where
  "columns_ok tys cols \<longleftrightarrow> length tys \<le> 64 \<and> map co_type cols = tys \<and>
     (\<forall>col \<in> set cols. \<forall>c \<in> set (co_cells col). ce_null c \<or> raw_ok (co_type col) (ce_raw c)) \<and>
     (\<forall>row. (\<forall>col \<in> set cols. row < length (co_cells col)) \<longrightarrow>
        length (encode_row tys (row_key cols row)) < 2 ^ 16)"

lemma cell_at_in [simp]: "row < length (co_cells col) \<Longrightarrow> cell_at col row = Inr (co_cells col ! row)"
  by (simp add: cell_at_def)

lemma GetWidth_enc:
  assumes "byte_width_ok bw" "row < length (co_cells col)" "raw_ok (co_type col) (ce_raw (co_cells col ! row))"
  shows "GetWidth bw col row = Inr (int (length (enc (co_type col) (ce_raw (co_cells col ! row)))))"
    and "WriteToData col row = Inr (enc (co_type col) (ce_raw (co_cells col ! row)))"
  using assms by (cases "co_type col"; auto simp: GetWidth_def WriteToData_def Let_def byte_width_ok_def raw_ok_def
      fixed_width_def variable_width_def enc_def WriteStringViewToData_def)+

lemma key_width_fold:
  assumes bw: "byte_width_ok bw" and "\<forall>col \<in> set cols. row < length (co_cells col) \<and>
      (ce_null (co_cells col ! row) \<or> raw_ok (co_type col) (ce_raw (co_cells col ! row)))" "i + length cols \<le> 64"
  shows "foldE (key_width_step bw row) (enumerate i cols) (m, w) =
    Inr (or m (null_mask i (row_key cols row)), w + int (length (enc_cells (map co_type cols) (row_key cols row))))"
  using assms(2,3)
proof (induction cols arbitrary: i m w)
  case (Cons col cols)
  show ?case
  proof (cases "ce_null (co_cells col ! row)")
    case True
    then show ?thesis
      using Cons by (simp add: key_width_step_def row_key_def cell_value_def or.assoc)
  next
    case False
    then show ?thesis
      using Cons GetWidth_enc(1) [OF bw, of row col]
      by (simp add: key_width_step_def row_key_def cell_value_def add.assoc)
  qed
qed (simp add: row_key_def)

lemma key_write_fold:
  assumes bw: "byte_width_ok bw" and "\<forall>col \<in> set cols. row < length (co_cells col) \<and>
      (ce_null (co_cells col ! row) \<or> raw_ok (co_type col) (ce_raw (co_cells col ! row)))"
  shows "foldE (key_write_step row) cols data = Inr (data @ enc_cells (map co_type cols) (row_key cols row))"
  using assms(2)
proof (induction cols arbitrary: data)
  case (Cons col cols)
  then show ?case
    using GetWidth_enc(2) [OF bw, of row col] by (auto simp: key_write_step_def row_key_def cell_value_def)
qed (simp add: row_key_def)

lemma GenericDeleteKey_eq:
  assumes bw: "byte_width_ok bw" and ok: "columns_ok tys cols" "batch_rows cols n" "row < n"
  shows "GenericDeleteKey bw cols row = Inr (encode_row tys (row_key cols row))" "key_ok tys (row_key cols row)"
proof -
  let ?k = "row_key cols row"
  have cells: "\<forall>col \<in> set cols. row < length (co_cells col) \<and>
      (ce_null (co_cells col ! row) \<or> raw_ok (co_type col) (ce_raw (co_cells col ! row)))"
    using ok by (auto simp: columns_ok_def batch_rows_def)
  have tys: "map co_type cols = tys" "length cols \<le> 64" using ok(1) by (auto simp: columns_ok_def)
  have small: "length (encode_row tys ?k) < 2 ^ 16" using ok cells by (auto simp: columns_ok_def)
  then have sz: "nat ((8 + int (length (enc_cells tys ?k))) mod 2 ^ 32) = length (encode_row tys ?k)"
    by (simp add: encode_row_def nat_add_distrib)
  show "GenericDeleteKey bw cols row = Inr (encode_row tys ?k)"
    using key_width_fold [OF bw cells, of 0 0 0] key_write_fold [OF bw cells, of "word_bytes 8 (null_mask 0 ?k)"]
      tys sz small
    by (simp add: GenericDeleteKey_def Let_def SizedPtr_Size_def flip: encode_row_def)
  show "key_ok tys ?k"
    using cells unfolding key_ok_def row_key_def tys(1) [symmetric]
    by (auto simp: list_all2_map1 list_all2_map2 list_all2_same cell_value_def)
qed

definition generic_layer :: "arrow_type list \<Rightarrow> generic_delete \<Rightarrow> row_key \<Rightarrow> int option" where
  "generic_layer tys vals k = (if key_ok tys k then map_of vals (encode_row tys k) else None)"

lemma generic_Add_ok:
  assumes "byte_width_ok bw" "columns_ok tys cols" "batch_rows cols n" "omap vals"
  shows "\<exists>vals'. generic_Add bw cols n l vals = Inr vals' \<and> omap vals' \<and>
    (\<forall>k. generic_layer tys vals' k =
       (if k \<in> row_key cols ` {..<n} then raise_layer l (generic_layer tys vals k) else generic_layer tys vals k))"
proof -
  have len: "length tys \<le> 64" "length cols \<le> 64" using assms(2) by (auto simp: columns_ok_def)
  have "\<exists>vals'. foldE (\<lambda>row vals. bindE (GenericDeleteKey bw cols row) (\<lambda>key. Inr (UpdateMax key l vals)))
      [0..<n] vals = Inr vals' \<and> omap vals' \<and>
    (\<forall>k. generic_layer tys vals' k =
       (if k \<in> row_key cols ` {..<n} then raise_layer l (generic_layer tys vals k) else generic_layer tys vals k))"
  proof (rule foldE_rows [where I = omap])
    fix row m
    assume row: "row < n" and m: "omap (m :: generic_delete)"
    note key = GenericDeleteKey_eq [OF assms(1-3) row]
    have "generic_layer tys (UpdateMax (encode_row tys (row_key cols row)) l m) k =
        (if k = row_key cols row then raise_layer l (generic_layer tys m k) else generic_layer tys m k)" for k
      using key(2) encode_row_inject [of tys k "row_key cols row"] len m
      by (auto simp: generic_layer_def map_of_UpdateMax)
    then show "\<exists>m'. bindE (GenericDeleteKey bw cols row) (\<lambda>key. Inr (UpdateMax key l m)) = Inr m' \<and> omap m' \<and>
        (\<forall>k. generic_layer tys m' k =
          (if k = row_key cols row then raise_layer l (generic_layer tys m k) else generic_layer tys m k))"
      using key(1) m by simp
  qed (rule assms(4))
  then show ?thesis using len by (simp add: generic_Add_def)
qed

interpretation gd: equality_store "generic_Add bw" "generic_IsDeleted bw" length "generic_layer tys"
    "\<lambda>_ cols. byte_width_ok bw \<and> columns_ok tys cols" omap
  for bw tys
proof unfold_locales
  fix s cols n l
  assume "omap (s :: generic_delete)" "byte_width_ok bw \<and> columns_ok tys cols" "batch_rows cols n"
  then show "\<exists>s'. generic_Add bw cols n l s = Inr s' \<and> omap s' \<and>
      (\<lambda>cols. byte_width_ok bw \<and> columns_ok tys cols) = (\<lambda>cols. byte_width_ok bw \<and> columns_ok tys cols) \<and>
      (\<forall>k. generic_layer tys s' k =
        (if k \<in> row_key cols ` {..<n} then raise_layer l (generic_layer tys s k) else generic_layer tys s k))"
    using generic_Add_ok [of bw tys cols n s l] by blast
next
  fix s cols n row dl
  assume "omap (s :: generic_delete)" "byte_width_ok bw \<and> columns_ok tys cols" "batch_rows cols n" "row < n"
  then show "generic_IsDeleted bw cols row dl s = Inr (deleted_at (generic_layer tys s (row_key cols row)) dl)"
    using GenericDeleteKey_eq [of bw tys cols n row] by (simp add: generic_IsDeleted_def generic_layer_def)
qed (simp add: generic_layer_def)

section \<open>One integer column\<close>

text \<open>
  A column of integers without nulls.  A null in this store deletes null rows of every layer,
  so that the contract does not hold for them.
\<close>

definition int_width :: "type_id \<Rightarrow> nat" where
  "int_width t = (case t of T_INT16 \<Rightarrow> 2 | T_INT32 \<Rightarrow> 4 | T_INT64 \<Rightarrow> 8 | T_TIMESTAMP \<Rightarrow> 8 | T_other \<Rightarrow> 0)"

definition one_fits :: "one_column_delete \<Rightarrow> column list \<Rightarrow> bool" where
  "one_fits d cols \<longleftrightarrow> (\<exists>col. cols = [col] \<and> type_id_of (co_type col) = oc_type d \<and>
     (\<forall>c \<in> set (co_cells col). \<not> ce_null c \<and> length (ce_raw c) = int_width (oc_type d)))"

definition one_layer :: "one_column_delete \<Rightarrow> row_key \<Rightarrow> int option" where
  "one_layer d k = (case k of [Some s] \<Rightarrow> if length s = int_width (oc_type d)
       then map_of (oc_values d) (le_value s) else None | _ \<Rightarrow> None)"

definition one_invar :: "one_column_delete \<Rightarrow> bool" where
  "one_invar d \<longleftrightarrow> omap (oc_values d)"

lemma one_row:
  assumes "one_fits d cols" "batch_rows cols n" "row < n"
  obtains col where "cols = [col]" "type_id_of (co_type col) = oc_type d" "row < length (co_cells col)"
    "\<not> ce_null (co_cells col ! row)" "length (ce_raw (co_cells col ! row)) = int_width (oc_type d)"
    "row_key cols row = [Some (ce_raw (co_cells col ! row))]"
  using assms by (auto simp: one_fits_def batch_rows_def row_key_def cell_value_def)

lemma one_Add_ok:
  assumes "one_invar d" "one_fits d cols" "batch_rows cols n"
  shows "\<exists>d'. one_Add cols n l d = Inr d' \<and> one_invar d' \<and> one_fits d' = one_fits d \<and>
    (\<forall>k. one_layer d' k = (if k \<in> row_key cols ` {..<n} then raise_layer l (one_layer d k) else one_layer d k))"
proof -
  obtain col where col: "cols = [col]" "type_id_of (co_type col) = oc_type d" using assms(2) by (auto simp: one_fits_def)
  let ?f = "\<lambda>row d. bindE (cell_at col row) (\<lambda>c.
      if ce_null c then Inr (d\<lparr>oc_contains_null := True\<rparr>)
      else Inr (d\<lparr>oc_values := UpdateMax (le_value (ce_raw c)) l (oc_values d)\<rparr>))"
  have "\<exists>d'. foldE ?f [0..<n] d = Inr d' \<and> (one_invar d' \<and> oc_type d' = oc_type d) \<and>
    (\<forall>k. one_layer d' k = (if k \<in> row_key cols ` {..<n} then raise_layer l (one_layer d k) else one_layer d k))"
  proof (rule foldE_rows [where I = "\<lambda>d'. one_invar d' \<and> oc_type d' = oc_type d"])
    fix row e
    assume row: "row < n" and e: "one_invar e \<and> oc_type e = oc_type d"
    from one_row [OF assms(2,3) row] col(1) obtain
      r: "row < length (co_cells col)" "\<not> ce_null (co_cells col ! row)"
        "length (ce_raw (co_cells col ! row)) = int_width (oc_type d)"
        "row_key cols row = [Some (ce_raw (co_cells col ! row))]" by auto
    let ?e = "e\<lparr>oc_values := UpdateMax (le_value (ce_raw (co_cells col ! row))) l (oc_values e)\<rparr>"
    have "one_layer ?e k = (if k = row_key cols row then raise_layer l (one_layer e k) else one_layer e k)" for k
    proof (cases "\<exists>s. k = [Some s] \<and> length s = int_width (oc_type d)")
      case True
      then obtain s where s: "k = [Some s]" "length s = int_width (oc_type d)" by blast
      then show ?thesis
        using e r(3,4) le_value_inject [of s "ce_raw (co_cells col ! row)"]
        by (simp add: one_layer_def one_invar_def map_of_UpdateMax)
    next
      case False
      then have "one_layer x k = None" if "oc_type x = oc_type d" for x
        using that by (auto simp: one_layer_def split: list.splits option.splits)
      then show ?thesis using False e r(3,4) by auto
    qed
    then show "\<exists>s'. ?f row e = Inr s' \<and> (one_invar s' \<and> oc_type s' = oc_type d) \<and>
        (\<forall>k. one_layer s' k = (if k = row_key cols row then raise_layer l (one_layer e k) else one_layer e k))"
      using r e by (simp add: one_invar_def)
  qed (use assms(1) in simp)
  then obtain d' where d': "foldE ?f [0..<n] d = Inr d'" "one_invar d'" "oc_type d' = oc_type d"
    "\<forall>k. one_layer d' k = (if k \<in> row_key cols ` {..<n} then raise_layer l (one_layer d k) else one_layer d k)" by blast
  moreover have "one_fits d' = one_fits d" using d'(3) by (simp add: one_fits_def fun_eq_iff)
  ultimately show ?thesis using col by (simp add: one_Add_def)
qed

interpretation oc: equality_store one_Add one_IsDeleted one_Size one_layer one_fits one_invar
proof unfold_locales
  fix s cols n row dl
  assume "one_invar s" and f: "one_fits s cols" "batch_rows cols n" "row < n"
  show "one_IsDeleted cols row dl s = Inr (deleted_at (one_layer s (row_key cols row)) dl)"
    by (rule one_row [OF f]) (simp add: one_IsDeleted_def one_layer_def)
qed (rule one_Add_ok, auto simp: one_Size_def one_layer_def split: list.splits option.splits if_splits)

section \<open>Several integer columns\<close>

text \<open>The packed value of a list of numbers with their widths in bits.\<close>

fun pack :: "(nat \<times> nat) list \<Rightarrow> nat" where
  "pack [] = 0"
| "pack ((v, w) # vs) = v + 2 ^ w * pack vs"

lemma pack_bound: "\<forall>(v, w) \<in> set vs. v < 2 ^ w \<Longrightarrow> pack vs < 2 ^ sum_list (map snd vs)"
proof (induction vs)
  case (Cons x vs)
  obtain v w where x: "x = (v, w)" by (cases x)
  have "v < 2 ^ w" "pack vs + 1 \<le> 2 ^ sum_list (map snd vs)" using Cons x by auto
  then have "v + 2 ^ w * pack vs < 2 ^ w * (pack vs + 1)" "2 ^ w * (pack vs + 1) \<le> 2 ^ w * 2 ^ sum_list (map snd vs)"
    by (simp_all only: mult_le_mono2) (simp add: algebra_simps)
  then show ?case using x by (simp add: power_add)
qed simp

lemma pack_inject:
  assumes "map snd vs = map snd us" "\<forall>(v, w) \<in> set vs. v < 2 ^ w" "\<forall>(v, w) \<in> set us. v < 2 ^ w" "pack vs = pack us"
  shows "vs = us"
  using assms
proof (induction vs arbitrary: us)
  case (Cons x vs)
  obtain v w where x: "x = (v, w)" by (cases x)
  obtain u us' where us: "us = (u, w) # us'" using Cons.prems(1) x by (cases us) auto
  have lt: "v < 2 ^ w" "u < 2 ^ w" using Cons.prems(2,3) x us by auto
  have eq: "v + 2 ^ w * pack vs = u + 2 ^ w * pack us'" using Cons.prems(4) x us by simp
  then have "(v + 2 ^ w * pack vs) mod 2 ^ w = (u + 2 ^ w * pack us') mod 2 ^ w" by simp
  then have "v = u" using lt by simp
  moreover from this eq have "pack vs = pack us'" by simp
  ultimately show ?case using Cons.IH [of us'] Cons.prems x us by auto
qed simp

text \<open>Slots of a row: a null column counts as zero bytes.\<close>

definition slot :: "multi_column_delete \<Rightarrow> row_key \<Rightarrow> nat \<Rightarrow> string" where
  "slot d k i = (case k ! i of None \<Rightarrow> replicate (int_width (mc_types d ! i)) (CHR 0x00) | Some s \<Rightarrow> s)"

definition packed :: "multi_column_delete \<Rightarrow> row_key \<Rightarrow> nat" where
  "packed d k = pack (map (\<lambda>i. (le_value (slot d k i), mc_bit_width d ! i)) (mc_order d))"

fun mask_of :: "row_key \<Rightarrow> nat list \<Rightarrow> nat" where
  "mask_of k [] = 0"
| "mask_of k (i # is) = or (if k ! i = None then 2 ^ i else 0) (mask_of k is)"

definition multi_key_ok :: "multi_column_delete \<Rightarrow> row_key \<Rightarrow> bool" where
  "multi_key_ok d k \<longleftrightarrow> list_all2 (\<lambda>t v. pred_option (\<lambda>s. length s = int_width t) v) (mc_types d) k \<and>
     (None \<in> set k \<longrightarrow> length k \<le> 8)"

definition multi_layer :: "multi_column_delete \<Rightarrow> row_key \<Rightarrow> int option" where
  "multi_layer d k =
     (if \<not> multi_key_ok d k then None
      else if None \<notin> set k then map_of (mc_values d) (packed d k)
      else map_of (omap_find [] (mc_values_with_nulls d) (mask_of k (mc_order d))) (packed d k))"

definition multi_invar :: "multi_column_delete \<Rightarrow> bool" where
  "multi_invar d \<longleftrightarrow> T_other \<notin> set (mc_types d) \<and> mc_bit_width d = map (\<lambda>t. 8 * int_width t) (mc_types d) \<and>
     distinct (mc_order d) \<and> set (mc_order d) = {..<length (mc_types d)} \<and>
     sum_list (map (\<lambda>t. 8 * int_width t) (mc_types d)) \<le> mc_bits d \<and> omap (mc_values d) \<and>
     omap (mc_values_with_nulls d) \<and> (\<forall>(mask, m) \<in> set (mc_values_with_nulls d). omap m)"

definition multi_fits :: "multi_column_delete \<Rightarrow> column list \<Rightarrow> bool" where
  "multi_fits d cols \<longleftrightarrow> map (type_id_of \<circ> co_type) cols = mc_types d \<and>
     (\<forall>col \<in> set cols. \<forall>c \<in> set (co_cells col). length (ce_raw c) = int_width (type_id_of (co_type col)) \<and>
        (ce_null c \<longrightarrow> set (ce_raw c) \<subseteq> {CHR 0x00} \<and> length cols \<le> 8))"

lemma mc_widths:
  assumes "multi_invar d" "i \<in> set (mc_order d)"
  shows "i < length (mc_types d)" "mc_bit_width d ! i = 8 * int_width (mc_types d ! i)"
  using assms by (auto simp: multi_invar_def)

lemma le_value_width: "length s = w \<Longrightarrow> le_value s < 2 ^ (8 * w)"
  using le_value_bound [of s] by (simp add: power_mult)

lemma slot_length:
  "multi_key_ok d k \<Longrightarrow> i < length (mc_types d) \<Longrightarrow> length (slot d k i) = int_width (mc_types d ! i)"
  by (auto simp: slot_def multi_key_ok_def list_all2_conv_all_nth split: option.split)

lemma slot_bound:
  assumes "multi_invar d" "multi_key_ok d k" "i \<in> set (mc_order d)"
  shows "le_value (slot d k i) < 2 ^ (mc_bit_width d ! i)"
  using mc_widths [OF assms(1,3)] le_value_width [OF slot_length [OF assms(2), of i]] by simp

text \<open>Mask and packed number determine the row.\<close>

lemma bit_mask_of: "bit (mask_of k is) j \<longleftrightarrow> j \<in> set is \<and> k ! j = None"
  by (induction "is") (auto simp: bit_or_iff bit_exp_iff)

lemma mask_of_zero: "mask_of k is = 0 \<longleftrightarrow> (\<forall>i \<in> set is. k ! i \<noteq> None)"
  using bit_mask_of [of k "is"] by (metis bit_0_eq bot_apply bot_bool_def bit_eq_iff)

lemma packed_inject:
  assumes inv: "multi_invar d" and ok: "multi_key_ok d k" "multi_key_ok d k'"
    and eq: "packed d k = packed d k'" "\<And>i. i < length (mc_types d) \<Longrightarrow> k ! i = None \<longleftrightarrow> k' ! i = None"
  shows "k = k'"
proof (rule nth_equalityI)
  let ?vs = "\<lambda>k. map (\<lambda>i. (le_value (slot d k i), mc_bit_width d ! i)) (mc_order d)"
  have len: "length k = length (mc_types d)" "length k' = length (mc_types d)"
    using ok by (auto simp: multi_key_ok_def dest: list_all2_lengthD)
  then show "length k = length k'" by simp
  have "?vs k = ?vs k'"
  proof (rule pack_inject)
    show "\<forall>(v, w) \<in> set (?vs k). v < 2 ^ w" "\<forall>(v, w) \<in> set (?vs k'). v < 2 ^ w"
      using slot_bound [OF inv ok(1)] slot_bound [OF inv ok(2)] by auto
  qed (use eq(1) in \<open>simp_all add: packed_def\<close>)
  then have slots: "le_value (slot d k i) = le_value (slot d k' i)" if "i < length (mc_types d)" for i
    using inv that by (auto simp: multi_invar_def)
  fix i
  assume "i < length k"
  then have i: "i < length (mc_types d)" using len by simp
  have "slot d k i = slot d k' i"
    using slots [OF i] le_value_inject [of "slot d k i" "slot d k' i"] slot_length [OF ok(1) i] slot_length [OF ok(2) i] by simp
  then show "k ! i = k' ! i" using eq(2) [OF i] by (auto simp: slot_def split: option.splits)
qed

lemma multi_row:
  assumes "multi_fits d cols" "batch_rows cols n" "row < n"
  shows "multi_key_ok d (row_key cols row)"
    and "length cols = length (mc_types d)"
    and "i < length cols \<Longrightarrow> cell_at (cols ! i) row = Inr (co_cells (cols ! i) ! row)"
    and "i < length cols \<Longrightarrow> type_id_of (co_type (cols ! i)) = mc_types d ! i"
    and "i < length cols \<Longrightarrow> ce_raw (co_cells (cols ! i) ! row) = slot d (row_key cols row) i"
    and "i < length cols \<Longrightarrow> ce_null (co_cells (cols ! i) ! row) \<longleftrightarrow> row_key cols row ! i = None"
proof -
  let ?c = "\<lambda>i. co_cells (cols ! i) ! row"
  show len: "length cols = length (mc_types d)"
    using assms(1) unfolding multi_fits_def by (metis length_map)
  have ty: "type_id_of (co_type (cols ! i)) = mc_types d ! i" if "i < length cols" for i
    using assms(1) that unfolding multi_fits_def by (metis comp_apply nth_map)
  then show "i < length cols \<Longrightarrow> type_id_of (co_type (cols ! i)) = mc_types d ! i" .
  have rl: "row < length (co_cells (cols ! i))" if "i < length cols" for i
    using assms(2,3) that by (simp add: batch_rows_def)
  then show "i < length cols \<Longrightarrow> cell_at (cols ! i) row = Inr (?c i)" by simp
  have cell: "length (ce_raw (?c i)) = int_width (mc_types d ! i)"
      "ce_null (?c i) \<Longrightarrow> set (ce_raw (?c i)) \<subseteq> {CHR 0x00} \<and> length cols \<le> 8" if "i < length cols" for i
    using assms(1) that rl [OF that] ty [OF that] nth_mem [OF rl [OF that]] nth_mem [OF that]
    unfolding multi_fits_def by metis+
  have zero: "ce_raw (?c i) = replicate (int_width (mc_types d ! i)) (CHR 0x00)" if "i < length cols" "ce_null (?c i)" for i
    using cell [OF that(1)] that(2) by (metis replicate_eqI singletonD subsetD)
  have k: "row_key cols row ! i = cell_value (?c i)" if "i < length cols" for i
    using that by (simp add: row_key_def)
  show "i < length cols \<Longrightarrow> ce_raw (?c i) = slot d (row_key cols row) i"
    using zero [of i] k [of i] by (auto simp: slot_def cell_value_def)
  show "i < length cols \<Longrightarrow> ce_null (?c i) \<longleftrightarrow> row_key cols row ! i = None"
    using k [of i] by (simp add: cell_value_def)
  have "length cols \<le> 8" if none: "None \<in> set (row_key cols row)"
  proof -
    obtain i where "i < length cols" "cell_value (?c i) = None"
      using none k by (auto simp: in_set_conv_nth row_key_def)
    then show ?thesis using cell(2) [of i] by (simp add: cell_value_def split: if_splits)
  qed
  moreover have "list_all2 (\<lambda>t v. pred_option (\<lambda>s. length s = int_width t) v) (mc_types d) (row_key cols row)"
    using len cell(1) k by (auto simp: list_all2_conv_all_nth row_key_def cell_value_def)
  ultimately show "multi_key_ok d (row_key cols row)"
    by (simp add: multi_key_ok_def row_key_def)
qed

lemma pack_fold:
  assumes inv: "multi_invar d" and f: "multi_fits d cols" "batch_rows cols n" "row < n"
    and skip: "skip \<longrightarrow> None \<notin> set (row_key cols row)"
  shows "set is \<subseteq> set (mc_order d) \<Longrightarrow> res < 2 ^ sh \<Longrightarrow>
    sh + sum_list (map (\<lambda>i. mc_bit_width d ! i) is) \<le> mc_bits d \<Longrightarrow>
    foldE (pack_step skip d cols row) is (res, sh) =
      Inr (res + 2 ^ sh * pack (map (\<lambda>i. (le_value (slot d (row_key cols row) i), mc_bit_width d ! i)) is),
           sh + sum_list (map (\<lambda>i. mc_bit_width d ! i) is))"
proof (induction "is" arbitrary: res sh)
  case (Cons i "is")
  let ?k = "row_key cols row"
  note r = multi_row [OF f]
  have i: "i \<in> set (mc_order d)" "i < length (mc_types d)" "i < length cols"
    using Cons.prems(1) mc_widths(1) [OF inv, of i] r(2) by auto
  let ?v = "le_value (slot d ?k i)" and ?w = "mc_bit_width d ! i"
  have v: "?v < 2 ^ ?w" by (rule slot_bound [OF inv r(1) i(1)])
  have new: "res + 2 ^ sh * ?v < 2 ^ (sh + ?w)"
  proof -
    have "res + 2 ^ sh * ?v < 2 ^ sh * (?v + 1)" using Cons.prems(2) by (simp add: algebra_simps)
    also have "\<dots> \<le> 2 ^ sh * 2 ^ ?w" using v by (intro mult_le_mono2) simp
    finally show ?thesis by (simp add: power_add)
  qed
  also have "(2 :: nat) ^ (sh + ?w) \<le> 2 ^ mc_bits d" using Cons.prems(3) by (intro power_increasing) auto
  finally have "(res + ?v * 2 ^ sh) mod 2 ^ mc_bits d = res + 2 ^ sh * ?v" by (simp add: mult.commute)
  moreover have "mc_types d ! i \<noteq> T_other" using inv i(2) nth_mem by (fastforce simp: multi_invar_def)
  moreover have "\<not> (skip \<and> ce_null (co_cells (cols ! i) ! row))"
  proof -
    have "?k ! i \<in> set ?k" using i(3) by (intro nth_mem) (simp add: row_key_def)
    then show ?thesis using skip r(6) [OF i(3)] by auto
  qed
  ultimately have "pack_step skip d cols row i (res, sh) = Inr (res + 2 ^ sh * ?v, sh + ?w)"
    using i r(3-5) [OF i(3)] by (auto simp: pack_step_def)
  then show ?case
    using Cons.IH [of "res + 2 ^ sh * ?v" "sh + ?w"] Cons.prems new by (simp add: power_add algebra_simps)
qed simp

lemma sum_widths_order:
  assumes "multi_invar d"
  shows "sum_list (map (\<lambda>i. mc_bit_width d ! i) (mc_order d)) = sum_list (mc_bit_width d)"
proof -
  have "sum_list (map (\<lambda>i. mc_bit_width d ! i) (mc_order d)) = (\<Sum>i \<in> {..<length (mc_bit_width d)}. mc_bit_width d ! i)"
    using assms by (simp add: multi_invar_def sum_list_distinct_conv_sum_set)
  then show ?thesis by (simp add: sum_list_sum_nth atLeast0LessThan)
qed

lemma ConstructRow_eq:
  assumes "multi_invar d" "multi_fits d cols" "batch_rows cols n" "row < n"
  shows "ConstructRowIgnoreNulls d cols row = Inr (packed d (row_key cols row))"
    and "None \<notin> set (row_key cols row) \<Longrightarrow> ConstructRow d cols row = Inr (packed d (row_key cols row))"
proof -
  have fits: "sum_list (map (\<lambda>i. mc_bit_width d ! i) (mc_order d)) \<le> mc_bits d"
    unfolding sum_widths_order [OF assms(1)] using assms(1) by (simp add: multi_invar_def)
  show "ConstructRowIgnoreNulls d cols row = Inr (packed d (row_key cols row))"
    using pack_fold [OF assms, of False "mc_order d" 0 0] fits
    by (simp add: ConstructRowIgnoreNulls_def packed_def)
  show "ConstructRow d cols row = Inr (packed d (row_key cols row))" if "None \<notin> set (row_key cols row)"
    using pack_fold [OF assms, of True "mc_order d" 0 0] fits that by (simp add: ConstructRow_def packed_def)
qed

lemma or_less_exp: "a < 2 ^ n \<Longrightarrow> b < 2 ^ n \<Longrightarrow> or a b < (2 :: nat) ^ n"
  by (metis take_bit_nat_eq_self take_bit_nat_less_exp take_bit_or)

lemma nulls_mask_eq:
  assumes "multi_invar d" and f: "multi_fits d cols" "batch_rows cols n" "row < n" and "length cols \<le> 8"
  shows "nulls_mask d cols row = Inr (mask_of (row_key cols row) (mc_order d))"
proof -
  let ?k = "row_key cols row"
  let ?f = "\<lambda>i mask. if i \<ge> length cols then Inl (Undefined ''index'')
       else bindE (cell_at (cols ! i) row) (\<lambda>c. Inr (if ce_null c then (or mask (2 ^ i)) mod 2 ^ 8 else mask))"
  have "foldE ?f is m = Inr (or m (mask_of ?k is))" if "set is \<subseteq> {..<length cols}" "m < 2 ^ 8" for "is" m
    using that
  proof (induction "is" arbitrary: m)
    case (Cons i "is")
    have i: "i < length cols" "i < 8" using Cons.prems(1) assms(5) by auto
    have lt: "or m (2 ^ i) < 2 ^ 8"
    proof -
      have "(2 :: nat) ^ i < 2 ^ 8" using i(2) by (intro power_strict_increasing) auto
      then show ?thesis using Cons.prems(2) or_less_exp [of m 8 "2 ^ i"] by simp
    qed
    then have "?f i m = Inr (or m (if ?k ! i = None then 2 ^ i else 0))"
      using i(1) multi_row(3,6) [OF f i(1)] by simp
    then show ?case using Cons.IH [of "or m (if ?k ! i = None then 2 ^ i else 0)"] Cons.prems lt
      by (simp add: or.assoc)
  qed simp
  from this [of "mc_order d" 0] show ?thesis
    using assms(1) multi_row(2) [OF f] by (simp add: nulls_mask_def multi_invar_def)
qed

text \<open>What adding one row does to the store, with and without nulls.\<close>

definition multi_put :: "row_key \<Rightarrow> int \<Rightarrow> multi_column_delete \<Rightarrow> multi_column_delete" where
  "multi_put k l d =
     (if None \<notin> set k then d\<lparr>mc_values := UpdateMax (packed d k) l (mc_values d)\<rparr>
      else d\<lparr>mc_values_with_nulls :=
             omap_alter (mask_of k (mc_order d)) [] (UpdateMax (packed d k) l) (mc_values_with_nulls d)\<rparr>)"

definition same_shape :: "multi_column_delete \<Rightarrow> multi_column_delete \<Rightarrow> bool" where
  "same_shape d e \<longleftrightarrow> mc_bits e = mc_bits d \<and> mc_types e = mc_types d \<and> mc_order e = mc_order d \<and>
     mc_bit_width e = mc_bit_width d"

lemma slot_cong: "mc_types e = mc_types d \<Longrightarrow> slot e = slot d"
proof (intro ext)
  fix k i
  assume "mc_types e = mc_types d"
  then show "slot e k i = slot d k i" by (cases "k ! i") (simp_all add: slot_def)
qed

lemma same_shape_cong:
  assumes "same_shape d e"
  shows "multi_fits e = multi_fits d" "multi_key_ok e = multi_key_ok d" "packed e = packed d"
  using assms slot_cong [of e d] by (auto simp: same_shape_def multi_fits_def multi_key_ok_def packed_def fun_eq_iff)

lemma same_shape_updates [simp]:
  "packed (d\<lparr>mc_values := x\<rparr>) = packed d" "packed (d\<lparr>mc_values_with_nulls := y\<rparr>) = packed d"
  "multi_key_ok (d\<lparr>mc_values := x\<rparr>) = multi_key_ok d" "multi_key_ok (d\<lparr>mc_values_with_nulls := y\<rparr>) = multi_key_ok d"
  by (rule same_shape_cong; simp add: same_shape_def)+

lemma omap_find_omap:
  "omap m \<Longrightarrow> \<forall>(k, v) \<in> set m. omap v \<Longrightarrow> omap (omap_find [] m k)"
  by (auto simp: omap_find_def split: option.splits dest: map_of_SomeD)

lemma multi_put_ok:
  assumes inv: "multi_invar d" and k: "multi_key_ok d k"
  shows "multi_invar (multi_put k l d)" "same_shape d (multi_put k l d)"
    and "multi_layer (multi_put k l d) k' = (if k' = k then raise_layer l (multi_layer d k') else multi_layer d k')"
proof -
  show sh: "same_shape d (multi_put k l d)" by (simp add: same_shape_def multi_put_def)
  have om: "omap (mc_values d)" "omap (mc_values_with_nulls d)" "\<forall>(mask, m) \<in> set (mc_values_with_nulls d). omap m"
    using inv by (auto simp: multi_invar_def)
  have inner: "omap (omap_find [] (mc_values_with_nulls d) mask)" for mask using omap_find_omap [OF om(2,3)] .
  have "\<forall>(mask, m) \<in> set (omap_alter a [] (UpdateMax b l) (mc_values_with_nulls d)). omap m" for a b
  proof clarify
    fix mask m
    assume "(mask, m) \<in> set (omap_alter a [] (UpdateMax b l) (mc_values_with_nulls d))"
    then have "omap_find [] (omap_alter a [] (UpdateMax b l) (mc_values_with_nulls d)) mask = m"
      using om(2) by (intro omap_find_in) simp_all
    then show "omap m" using inner om(2) by (auto simp: omap_find_alter split: if_splits)
  qed
  then show "multi_invar (multi_put k l d)"
    using inv om by (simp add: multi_invar_def multi_put_def)
  have pk: "packed (multi_put k l d) = packed d" "multi_key_ok (multi_put k l d) = multi_key_ok d"
    using same_shape_cong [OF sh] by simp_all
  have ord: "set (mc_order d) = {..<length (mc_types d)}" using inv by (simp add: multi_invar_def)
  have nulls: "k ! i = None \<longleftrightarrow> k' ! i = None"
    if "i < length (mc_types d)" "mask_of k (mc_order d) = mask_of k' (mc_order d)" for i
    using that ord bit_mask_of [of k "mc_order d" i] bit_mask_of [of k' "mc_order d" i] by simp
  show "multi_layer (multi_put k l d) k' = (if k' = k then raise_layer l (multi_layer d k') else multi_layer d k')"
  proof (cases "multi_key_ok d k'")
    case ok: True
    have len: "length k = length (mc_types d)" "length k' = length (mc_types d)"
      using k ok by (auto simp: multi_key_ok_def dest: list_all2_lengthD)
    have eq: "packed d k' = packed d k \<longleftrightarrow> k' = k"
      if "(None \<notin> set k \<and> None \<notin> set k') \<or> mask_of k (mc_order d) = mask_of k' (mc_order d)"
    proof
      assume p: "packed d k' = packed d k"
      have "k' ! i = None \<longleftrightarrow> k ! i = None" if "i < length (mc_types d)" for i
        using nulls [OF that] \<open>(None \<notin> set k \<and> None \<notin> set k') \<or> _\<close> len that by (metis nth_mem)
      then show "k' = k" using packed_inject [OF inv ok k p] by blast
    qed simp
    show ?thesis
      using eq k ok om inner
      by (auto simp: multi_layer_def multi_put_def map_of_UpdateMax omap_find_alter)
  qed (use k pk in \<open>auto simp: multi_layer_def\<close>)
qed

lemma no_null_row:
  assumes "\<not> (\<exists>array \<in> set cols. \<exists>c \<in> set (co_cells array). ce_null c)" "batch_rows cols n" "row < n"
  shows "None \<notin> set (row_key cols row)"
  using assms by (auto simp: row_key_def cell_value_def batch_rows_def split: if_splits)

lemma multi_add_row_eq:
  assumes inv: "multi_invar d" and f: "multi_fits d cols" "batch_rows cols n" "row < n"
  shows "None \<notin> set (row_key cols row) \<Longrightarrow> multi_add_row cols l row d = Inr (multi_put (row_key cols row) l d)"
    and "length cols \<le> 8 \<Longrightarrow> multi_add_row_nulls cols l row d = Inr (multi_put (row_key cols row) l d)"
proof -
  let ?k = "row_key cols row"
  show "None \<notin> set ?k \<Longrightarrow> multi_add_row cols l row d = Inr (multi_put ?k l d)"
    using ConstructRow_eq(2) [OF inv f] by (simp add: multi_add_row_def multi_put_def)
  assume "length cols \<le> 8"
  then have mask: "nulls_mask d cols row = Inr (mask_of ?k (mc_order d))" by (rule nulls_mask_eq [OF inv f])
  have "length ?k = length (mc_types d)" using multi_row(2) [OF f] by (simp add: row_key_def)
  then have "mask_of ?k (mc_order d) = 0 \<longleftrightarrow> None \<notin> set ?k"
    using inv by (auto simp: mask_of_zero multi_invar_def in_set_conv_nth)
  then show "multi_add_row_nulls cols l row d = Inr (multi_put ?k l d)"
    using mask ConstructRow_eq(1) [OF inv f] by (simp add: multi_add_row_nulls_def multi_put_def)
qed

lemma multi_Add_ok:
  assumes inv: "multi_invar d" and f: "multi_fits d cols" "batch_rows cols n"
  shows "\<exists>d'. multi_Add cols n l d = Inr d' \<and> multi_invar d' \<and> multi_fits d' = multi_fits d \<and>
    (\<forall>k. multi_layer d' k = (if k \<in> row_key cols ` {..<n} then raise_layer l (multi_layer d k) else multi_layer d k))"
proof -
  let ?nulls = "\<exists>array \<in> set cols. \<exists>c \<in> set (co_cells array). ce_null c"
  let ?f = "if ?nulls then multi_add_row_nulls cols l else multi_add_row cols l"
  have tys: "map (type_id_of \<circ> co_type) cols = mc_types d" using f(1) by (simp add: multi_fits_def)
  have small: "?nulls \<Longrightarrow> length cols \<le> 8" using f(1) by (auto simp: multi_fits_def)
  have Add: "multi_Add cols n l d = foldE ?f [0..<n] d"
  proof (cases ?nulls)
    case True
    then have "\<not> 9 \<le> length cols" using small by simp
    then show ?thesis unfolding multi_Add_def tys [symmetric] using True by simp
  next
    case False
    then show ?thesis unfolding multi_Add_def tys [symmetric] by simp
  qed
  have "\<exists>d'. foldE ?f [0..<n] d = Inr d' \<and> (multi_invar d' \<and> same_shape d d') \<and>
    (\<forall>k. multi_layer d' k = (if k \<in> row_key cols ` {..<n} then raise_layer l (multi_layer d k) else multi_layer d k))"
  proof (rule foldE_rows [where I = "\<lambda>e. multi_invar e \<and> same_shape d e"])
    fix row e
    assume row: "row < n" and e: "multi_invar e \<and> same_shape d e"
    have fe: "multi_fits e cols" using f(1) same_shape_cong(1) e by metis
    have "?f row e = Inr (multi_put (row_key cols row) l e)"
      using multi_add_row_eq [OF _ fe f(2) row, of l] e small no_null_row [OF _ f(2) row] by auto
    moreover have "multi_key_ok e (row_key cols row)" by (rule multi_row(1) [OF fe f(2) row])
    ultimately show "\<exists>s'. ?f row e = Inr s' \<and> (multi_invar s' \<and> same_shape d s') \<and>
        (\<forall>k. multi_layer s' k = (if k = row_key cols row then raise_layer l (multi_layer e k) else multi_layer e k))"
      using multi_put_ok [of e "row_key cols row" l] e by (auto simp: same_shape_def)
  qed (use inv in \<open>simp add: same_shape_def\<close>)
  then show ?thesis using Add same_shape_cong(1) by metis
qed

lemma multi_IsDeleted_ok:
  assumes inv: "multi_invar d" and f: "multi_fits d cols" "batch_rows cols n" "row < n"
  shows "multi_IsDeleted cols row dl d = Inr (deleted_at (multi_layer d (row_key cols row)) dl)"
proof -
  let ?k = "row_key cols row"
  have "mapE (\<lambda>array. cell_at array row) cols = Inr (map (\<lambda>col. co_cells col ! row) cols)"
    using f(2,3) by (intro mapE_total) (simp add: batch_rows_def)
  moreover have "list_ex ce_null (map (\<lambda>col. co_cells col ! row) cols) \<longleftrightarrow> None \<in> set ?k"
    by (auto simp: list_ex_iff row_key_def cell_value_def image_iff)
  moreover have "nulls_mask d cols row = Inr (mask_of ?k (mc_order d))" if "None \<in> set ?k"
    using nulls_mask_eq [OF inv f] multi_row(1) [OF f] that by (simp add: multi_key_ok_def row_key_def)
  ultimately show ?thesis
    using ConstructRow_eq [OF inv f] multi_row(1) [OF f]
    by (auto simp: multi_IsDeleted_def multi_layer_def omap_find_def deleted_at_def split: option.splits)
qed

lemma multi_Size_zero: "multi_Size d = 0 \<Longrightarrow> multi_layer d k = None"
  by (auto simp: multi_Size_def multi_layer_def omap_find_def split: option.splits dest!: map_of_SomeD)

interpretation mc: equality_store multi_Add multi_IsDeleted multi_Size multi_layer multi_fits multi_invar
  by unfold_locales (rule multi_Add_ok multi_IsDeleted_ok multi_Size_zero; assumption)+

section \<open>The chosen store\<close>

text \<open>
  The contract for whatever \<open>MakeEqualityDelete\<close> chose, for delete columns of the types \<open>tys\<close>.
\<close>

fun store_layer :: "arrow_type list \<Rightarrow> equality_delete \<Rightarrow> row_key \<Rightarrow> int option" where
  "store_layer tys (Generic d) = generic_layer tys d"
| "store_layer tys (One_column d) = one_layer d"
| "store_layer tys (Multiple_column d) = multi_layer d"

fun store_fits :: "(arrow_type \<Rightarrow> int) \<Rightarrow> arrow_type list \<Rightarrow> equality_delete \<Rightarrow> column list \<Rightarrow> bool" where
  "store_fits bw tys (Generic d) cols = (byte_width_ok bw \<and> columns_ok tys cols)"
| "store_fits bw tys (One_column d) cols = one_fits d cols"
| "store_fits bw tys (Multiple_column d) cols = multi_fits d cols"

fun store_invar :: "equality_delete \<Rightarrow> bool" where
  "store_invar (Generic d) = omap d"
| "store_invar (One_column d) = one_invar d"
| "store_invar (Multiple_column d) = multi_invar d"

interpretation st: equality_store "store_Add bw" "store_IsDeleted bw" store_Size "store_layer tys"
    "store_fits bw tys" store_invar
  for bw tys
proof unfold_locales
  fix s cols n l
  assume a: "store_invar s" "store_fits bw tys s cols" "batch_rows cols n"
  show "\<exists>s'. store_Add bw cols n l s = Inr s' \<and> store_invar s' \<and> store_fits bw tys s' = store_fits bw tys s \<and>
      (\<forall>k. store_layer tys s' k = (if k \<in> row_key cols ` {..<n} then raise_layer l (store_layer tys s k) else store_layer tys s k))"
  proof (cases s)
    case (Generic d)
    then show ?thesis using gd.Add_law [of d bw tys cols n l] a by (auto simp: fun_eq_iff)
  next
    case (One_column d)
    then obtain d' where d': "one_Add cols n l d = Inr d'" "one_invar d'" "one_fits d' = one_fits d"
        "\<forall>k. one_layer d' k = (if k \<in> row_key cols ` {..<n} then raise_layer l (one_layer d k) else one_layer d k)"
      using oc.Add_law [of d cols n l] a by auto
    then show ?thesis using One_column by (intro exI [of _ "One_column d'"]) (simp add: fun_eq_iff)
  next
    case (Multiple_column d)
    then obtain d' where d': "multi_Add cols n l d = Inr d'" "multi_invar d'" "multi_fits d' = multi_fits d"
        "\<forall>k. multi_layer d' k = (if k \<in> row_key cols ` {..<n} then raise_layer l (multi_layer d k) else multi_layer d k)"
      using mc.Add_law [of d cols n l] a by auto
    then show ?thesis using Multiple_column by (intro exI [of _ "Multiple_column d'"]) (simp add: fun_eq_iff)
  qed
next
  fix s cols n row dl
  assume "store_invar s" "store_fits bw tys s cols" "batch_rows cols n" "row < n"
  then show "store_IsDeleted bw cols row dl s = Inr (deleted_at (store_layer tys s (row_key cols row)) dl)"
    using gd.IsDeleted_law oc.IsDeleted_law mc.IsDeleted_law by (cases s) auto
next
  fix s k
  assume "store_invar s" "store_Size s = 0"
  then show "store_layer tys s k = None"
    using gd.Size_law oc.Size_law mc.Size_law by (cases s) auto
qed

text \<open>
  Columns every store handles faithfully: the types and values of generic keys; and, where
  nulls occur, at most eight columns, zero bytes in the slots of null integers, and not a
  single integer column.
\<close>

definition faithful_columns :: "arrow_type list \<Rightarrow> column list \<Rightarrow> bool" where
  "faithful_columns tys cols \<longleftrightarrow> columns_ok tys cols \<and>
     (\<forall>col \<in> set cols. \<forall>c \<in> set (co_cells col). ce_null c \<longrightarrow> length cols \<le> 8 \<and>
        (type_id_of (co_type col) \<noteq> T_other \<longrightarrow> length cols \<noteq> 1 \<and>
           length (ce_raw c) = int_width (type_id_of (co_type col)) \<and> set (ce_raw c) \<subseteq> {CHR 0x00}))"

lemma raw_ok_int_width:
  "type_id_of t \<noteq> T_other \<Longrightarrow> raw_ok t s \<Longrightarrow> length s = int_width (type_id_of t)"
  by (cases t) (auto simp: type_id_of_def raw_ok_def fixed_width_def variable_width_def int_width_def)

lemma faithful_widths:
  assumes "faithful_columns tys cols" "col \<in> set cols" "c \<in> set (co_cells col)" "type_id_of (co_type col) \<noteq> T_other"
  shows "length (ce_raw c) = int_width (type_id_of (co_type col))"
proof (cases "ce_null c")
  case True
  then show ?thesis using assms unfolding faithful_columns_def by blast
next
  case False
  then have "raw_ok (co_type col) (ce_raw c)" using assms(1-3) unfolding faithful_columns_def columns_ok_def by blast
  then show ?thesis by (rule raw_ok_int_width [OF assms(4)])
qed

lemma multi_fits_faithful:
  assumes "faithful_columns tys cols" "T_other \<notin> set (map type_id_of tys)" "mc_types d = map type_id_of tys"
  shows "multi_fits d cols"
proof -
  have tys: "map co_type cols = tys" using assms(1) by (simp add: faithful_columns_def columns_ok_def)
  then have ids: "\<forall>col \<in> set cols. type_id_of (co_type col) \<noteq> T_other" using assms(2) by (metis image_eqI list.set_map)
  have "map (type_id_of \<circ> co_type) cols = mc_types d" using tys assms(3) by (simp flip: tys)
  moreover have "length (ce_raw c) = int_width (type_id_of (co_type col))"
      "ce_null c \<Longrightarrow> set (ce_raw c) \<subseteq> {CHR 0x00} \<and> length cols \<le> 8"
    if "col \<in> set cols" "c \<in> set (co_cells col)" for col c
    using that ids faithful_widths [OF assms(1) that] assms(1) unfolding faithful_columns_def by blast+
  ultimately show ?thesis unfolding multi_fits_def by blast
qed

lemma mapE_TypeToBitWidth:
  "T_other \<notin> set ts \<Longrightarrow> mapE TypeToBitWidth ts = Inr (map (\<lambda>t. 8 * int_width t) ts)"
proof (induction ts)
  case (Cons t ts)
  then show ?case by (cases t) (auto simp: int_width_def)
qed simp

lemma one_fits_faithful:
  assumes "faithful_columns [ty] cols" "type_id_of ty \<noteq> T_other" "oc_type d = type_id_of ty"
  shows "one_fits d cols"
proof -
  obtain col where col: "cols = [col]" "co_type col = ty"
    using assms(1) by (auto simp: faithful_columns_def columns_ok_def)
  then have "\<forall>c \<in> set (co_cells col). \<not> ce_null c" using assms(1,2) by (auto simp: faithful_columns_def)
  then show ?thesis using col assms faithful_widths [OF assms(1)] by (simp add: one_fits_def)
qed

text \<open>The empty store of each kind represents no deletes and handles all faithful columns.\<close>

definition fresh_store :: "(arrow_type \<Rightarrow> int) \<Rightarrow> arrow_type list \<Rightarrow> equality_delete \<Rightarrow> bool" where
  "fresh_store bw tys s \<longleftrightarrow> st.represents tys s {} \<and>
     (byte_width_ok bw \<longrightarrow> (\<forall>cols. faithful_columns tys cols \<longrightarrow> store_fits bw tys s cols))"

lemma represents_empty: "store_invar s \<Longrightarrow> store_layer tys s = (\<lambda>_. None) \<Longrightarrow> st.represents tys s {}"
  by (simp add: st.represents_def deleted_at_def row_is_deleted_def)

lemma fresh_Generic: "fresh_store bw tys (Generic [])"
  unfolding fresh_store_def
  by (auto intro: represents_empty simp: generic_layer_def fun_eq_iff faithful_columns_def)

lemma fresh_One_column:
  assumes "type_id_of ty \<noteq> T_other"
  shows "fresh_store bw [ty] (One_column \<lparr>oc_type = type_id_of ty, oc_contains_null = False, oc_values = []\<rparr>)"
  unfolding fresh_store_def using assms one_fits_faithful
  by (auto intro!: represents_empty simp: one_layer_def one_invar_def fun_eq_iff split: list.splits option.splits)

lemma fresh_Multiple_column:
  assumes "T_other \<notin> set (map type_id_of tys)" "length tys \<le> 64"
    and "sum_list (map (\<lambda>t. 8 * int_width t) (map type_id_of tys)) \<le> bits"
    and "distinct order" "set order = {..<length tys}"
  shows "\<exists>d. mk_multi bits (map type_id_of tys) order = Inr d \<and> fresh_store bw tys (Multiple_column d)"
proof -
  let ?d = "\<lparr>mc_bits = bits, mc_types = map type_id_of tys, mc_order = order,
    mc_bit_width = map (\<lambda>t. 8 * int_width t) (map type_id_of tys), mc_values = [], mc_values_with_nulls = []\<rparr>"
  have "mk_multi bits (map type_id_of tys) order = Inr ?d"
    using mapE_TypeToBitWidth [OF assms(1)] by (simp add: mk_multi_def)
  moreover have "multi_invar ?d" using assms by (simp add: multi_invar_def)
  then have "st.represents tys (Multiple_column ?d) {}"
    by (intro represents_empty) (simp_all add: multi_layer_def omap_find_def fun_eq_iff)
  moreover have "multi_fits ?d cols" if "faithful_columns tys cols" for cols
    using multi_fits_faithful [OF that assms(1)] by simp
  ultimately show ?thesis by (auto simp: fresh_store_def)
qed

lemma MakeEqualityDelete_fresh:
  assumes "length tys \<le> 64"
  shows "\<exists>s. MakeEqualityDelete tys use_specialized = Inr s \<and> fresh_store bw tys s"
proof (cases "use_specialized \<and> (\<forall>ty. tys \<noteq> [ty])")
  case False
  then show ?thesis
    using fresh_Generic fresh_One_column by (auto simp: MakeEqualityDelete_def)
next
  case True
  let ?ids = "map type_id_of tys"
  let ?types = "filter (\<lambda>t. t \<noteq> T_other) ?ids"
  let ?ws = "map (\<lambda>t. 8 * int_width t) ?types"
  have ws: "mapE TypeToBitWidth ?types = Inr ?ws" by (rule mapE_TypeToBitWidth) simp
  have "sum_list ?ws \<le> length ?ws * 64"
  proof -
    have "sum_list (map (\<lambda>t. 8 * int_width t) ts) \<le> length ts * 64" for ts
      by (induction ts) (auto simp: int_width_def split: type_id.splits)
    then show ?thesis by (metis length_map)
  qed
  also have "\<dots> \<le> 64 * 64" by (simp add: le_trans [OF length_filter_le assms])
  finally have sum: "sum_list ?ws mod 2 ^ 32 = sum_list ?ws" by simp
  let ?order = "sort_key (\<lambda>i. - int (?ws ! i)) [0..<length ?ws]"
  let ?bits = "if sum_list ?ws \<le> 32 then 32 else if sum_list ?ws \<le> 64 then 64 else 128"
  have make: "MakeEqualityDelete tys use_specialized =
      (if T_other \<in> set ?ids \<or> sum_list ?ws > 128 then Inr (Generic [])
       else bindE (mk_multi ?bits ?types ?order) (\<lambda>d. Inr (Multiple_column d)))"
    using True ws sum by (auto simp: MakeEqualityDelete_def Let_def split: list.splits)
  show ?thesis
  proof (cases "T_other \<in> set ?ids \<or> sum_list ?ws > 128")
    case True
    then show ?thesis using fresh_Generic make by auto
  next
    case False
    then have "T_other \<notin> set ?ids" by blast
    then have "?types = ?ids" by (metis (mono_tags, lifting) filter_True)
    moreover have "sum_list ?ws \<le> ?bits" using False by simp
    moreover have "set ?order = {..<length tys}" "distinct ?order" using \<open>?types = ?ids\<close> by auto
    ultimately obtain d where "mk_multi ?bits ?types ?order = Inr d" "fresh_store bw tys (Multiple_column d)"
      using fresh_Multiple_column [of tys ?bits ?order bw] False assms by auto
    then show ?thesis using make False by auto
  qed
qed

section \<open>Properties\<close>

text \<open>A run of additions to a store: columns, number of rows and layer of each delete batch.\<close>

definition AddAll ::
    "(arrow_type \<Rightarrow> int) \<Rightarrow> (column list \<times> nat \<times> int) list \<Rightarrow> equality_delete \<Rightarrow> equality_delete result" where
  "AddAll bw adds s = foldE (\<lambda>(cols, n, l). store_Add bw cols n l) adds s"

lemma AddAll_represents:
  assumes "byte_width_ok bw" "\<forall>(cols, n, l) \<in> set adds. faithful_columns tys cols \<and> batch_rows cols n"
    and "st.represents tys s D" "\<forall>cols. faithful_columns tys cols \<longrightarrow> store_fits bw tys s cols"
  shows "\<exists>s'. AddAll bw adds s = Inr s' \<and>
    st.represents tys s' (D \<union> (\<Union>(cols, n, l) \<in> set adds. batch_deletes cols n l)) \<and>
    (\<forall>cols. faithful_columns tys cols \<longrightarrow> store_fits bw tys s' cols)"
  using assms(2-4) unfolding AddAll_def
proof (induction adds arbitrary: s D)
  case (Cons a adds)
  obtain cols n l where a: "a = (cols, n, l)" by (cases a)
  have ok: "faithful_columns tys cols" "batch_rows cols n" using Cons.prems(1) a by auto
  then obtain s1 where s1: "store_Add bw cols n l s = Inr s1"
      "st.represents tys s1 (D \<union> batch_deletes cols n l)" "store_fits bw tys s1 = store_fits bw tys s"
    using st.represents_Add [OF Cons.prems(2), of bw cols n l] Cons.prems(3) by blast
  then show ?case
    using Cons.IH [of s1 "D \<union> batch_deletes cols n l"] Cons.prems(1,3) a by (simp add: Un_assoc)
qed simp

lemma row_is_deleted_Union:
  "row_is_deleted (\<Union>(cols, n, l) \<in> S. batch_deletes cols n l) k dl \<longleftrightarrow>
     (\<exists>(cols, n, l) \<in> S. dl \<le> l \<and> (\<exists>row < n. row_key cols row = k))"
proof
  assume "row_is_deleted (\<Union>(cols, n, l) \<in> S. batch_deletes cols n l) k dl"
  then obtain cols n l row where "(cols, n, l) \<in> S" "dl \<le> l" "row < n" "row_key cols row = k"
    by (auto simp: row_is_deleted_def batch_deletes_def)
  then show "\<exists>(cols, n, l) \<in> S. dl \<le> l \<and> (\<exists>row < n. row_key cols row = k)" by blast
next
  assume "\<exists>(cols, n, l) \<in> S. dl \<le> l \<and> (\<exists>row < n. row_key cols row = k)"
  then obtain cols n l row where "(cols, n, l) \<in> S" "dl \<le> l" "row < n" "row_key cols row = k" by auto
  then show "row_is_deleted (\<Union>(cols, n, l) \<in> S. batch_deletes cols n l) k dl"
    unfolding row_is_deleted_def batch_deletes_def by blast
qed


definition example_width :: "arrow_type \<Rightarrow> int" where
  "example_width t = (case t of A_BOOL \<Rightarrow> 0 | A_DECIMAL _ _ \<Rightarrow> 16 | A_FIXED_SIZE_BINARY n \<Rightarrow> n
     | _ \<Rightarrow> (case fixed_width t of Some w \<Rightarrow> int w | None \<Rightarrow> - 1))"

lemma example_width_ok: "byte_width_ok example_width"
  by (simp add: byte_width_ok_def example_width_def fixed_width_def)

definition example_column :: "string list \<Rightarrow> column" where
  "example_column vs = \<lparr>co_type = A_STRING, co_cells = map (\<lambda>v. \<lparr>ce_null = False, ce_raw = v\<rparr>) vs\<rparr>"

lemma example_column_ok:
  assumes "\<forall>v \<in> set vs. length v < 100" "vs \<noteq> []"
  shows "faithful_columns [A_STRING] [example_column vs]" "batch_rows [example_column vs] (length vs)"
proof -
  have "length (encode_row [A_STRING] (row_key [example_column vs] row)) < 2 ^ 16" if "row < length vs" for row
  proof -
    have "length (vs ! row) < 100" using assms(1) that by simp
    then show ?thesis
      using that by (simp add: encode_row_def row_key_def example_column_def cell_value_def enc_def variable_width_def
        WriteStringViewToData_def)
  qed
  then show "faithful_columns [A_STRING] [example_column vs]"
    using assms(1) by (auto simp: faithful_columns_def columns_ok_def example_column_def raw_ok_def variable_width_def)
qed (simp add: batch_rows_def example_column_def)


text \<open>
  A null in a single integer column is deleted in every layer: once any batch added a
  null, in whatever layer, null rows count as deleted for data of all layers, also of layers
  after the delete.
\<close>

lemma OneColumn_null_ignores_layer:
  assumes "one_Add [col] n l d = Inr d'" "row < n" "n = length (co_cells col)" "ce_null (co_cells col ! row)"
    and "cell_at data_col data_row = Inr c" "ce_null c"
  shows "one_IsDeleted [data_col] data_row data_layer d' = Inr True"
proof -
  let ?f = "\<lambda>row d. bindE (cell_at col row) (\<lambda>c.
      if ce_null c then Inr (d\<lparr>oc_contains_null := True\<rparr>)
      else Inr (d\<lparr>oc_values := UpdateMax (le_value (ce_raw c)) l (oc_values d)\<rparr>))"
  have f: "foldE ?f [0..<n] d = Inr d'"
    using assms(1) by (simp add: one_Add_def split: if_splits)
  have keep: "oc_contains_null d2" if "foldE ?f rows d1 = Inr d2" "oc_contains_null d1" for rows d1 d2
    using that by (rule foldE_invariant) (auto simp: bindE_eq_Inr_iff split: if_splits)
  have "[0..<n] = [0..<row] @ row # [Suc row..<n]"
    using assms(2) by (metis less_imp_le_nat upt_add_eq_append le_add_diff_inverse upt_conv_Cons zero_le)
  then obtain d1 where "foldE ?f [0..<row] d = Inr d1" "bindE (?f row d1) (foldE ?f [Suc row..<n]) = Inr d'"
    using f by (auto simp: foldE_append bindE_eq_Inr_iff)
  then have "foldE ?f [Suc row..<n] (d1\<lparr>oc_contains_null := True\<rparr>) = Inr d'" using assms(2-4) by simp
  then have "oc_contains_null d'" by (rule keep) simp
  then show ?thesis using assms(5,6) by (simp add: one_IsDeleted_def)
qed

lemma OneColumn_null_ignores_layer_witness:
  "one_IsDeleted [\<lparr>co_type = A_INT16, co_cells = [\<lparr>ce_null = True, ce_raw = []\<rparr>]\<rparr>] 0 100
     \<lparr>oc_type = T_INT16, oc_contains_null = True, oc_values = []\<rparr> = Inr True"
  by (rule OneColumn_null_ignores_layer [of "\<lparr>co_type = A_INT16, co_cells = [\<lparr>ce_null = True, ce_raw = []\<rparr>]\<rparr>" 1 2
        "\<lparr>oc_type = T_INT16, oc_contains_null = False, oc_values = []\<rparr>" _ 0 _ _ "\<lparr>ce_null = True, ce_raw = []\<rparr>"])
    (simp_all add: one_Add_def type_id_of_def cell_at_def)

text \<open>
  Two limits of generic keys.  A boolean, fixed-size binary or decimal column makes the second
  pass write more bytes than the first one counted, and keys that are longer than a 16-bit
  number are cut: all rows whose key has exactly \<open>2 ^ 16\<close> bytes share one key.
\<close>

lemma GenericDeleteKey_overflow:
  assumes "byte_width_ok bw" "row < length (co_cells col)" "\<not> ce_null (co_cells col ! row)"
    and "co_type col = A_BOOL \<and> length (ce_raw (co_cells col ! row)) = 1 \<or>
      co_type col = A_FIXED_SIZE_BINARY (int (length (ce_raw (co_cells col ! row)))) \<and>
        length (ce_raw (co_cells col ! row)) < 2 ^ 31"
  shows "GenericDeleteKey bw [col] row = Inl (Undefined ''buffer of the key'')"
  using assms by (auto simp: GenericDeleteKey_def key_width_step_def key_write_step_def GetWidth_def WriteToData_def
      byte_width_ok_def Let_def WriteStringViewToData_def nat_add_distrib)

lemma GenericDeleteKey_long_collide:
  assumes "byte_width_ok bw" "co_type col = A_STRING" "row < length (co_cells col)" "\<not> ce_null (co_cells col ! row)"
    and "length (ce_raw (co_cells col ! row)) = 2 ^ 16 - 12"
  shows "GenericDeleteKey bw [col] row = Inr []"
  using assms by (simp add: GenericDeleteKey_def key_width_step_def key_write_step_def GetWidth_def WriteToData_def
      byte_width_ok_def Let_def WriteStringViewToData_def SizedPtr_Size_def)

end
