(* ===== verification/Positional_Delete.thy ===== *)
theory Positional_Delete
  imports Prelude "HOL-Library.Product_Lexorder" "HOL-Library.Option_ord"
begin

text \<open>
  \<open>PositionalDeleteStream\<close> (\<open>iceberg/positional_delete/positional_delete.cpp\<close>): the
  merge of several positional delete files into one stream that answers ascending
  queries for the deleted rows of a range of a data file.  A reader walks over the row
  groups of one delete file; a priority queue orders the readers by the least record
  they can still deliver; row groups are skipped by their statistics.  A delete file is
  the list of its row groups, as the Parquet library decodes them; what is assumed of it
  is what the format promises: records sorted by path and position, and statistics that
  bound the records.  \<open>std::priority_queue\<close> leaves open which of several least elements
  it hands out, so the queue is an interface here and the answers are proved for every
  implementation of it; a sorted list implements it below.
\<close>

section \<open>Delete files and readers\<close>

type_synonym record_id = "string \<times> int"

record row_group =
  rg_records :: "record_id list"
  rg_path_stats :: "(string \<times> string) option option"
  rg_pos_stats :: "(int \<times> int) option option"

text \<open>
  Statistics: \<open>None\<close> when they are not set, \<open>Some None\<close> when they are set without
  minimum and maximum.
\<close>

record reader =
  rd_layer :: int
  rd_group :: row_group
  rd_rest :: "record_id list"
  rd_next :: "row_group list"
  rd_path :: "string option"
  rd_pos :: "int option"

definition NextRowGroup :: "reader \<Rightarrow> bool \<times> reader" where
  "NextRowGroup r =
     (case rd_next r of
        [] \<Rightarrow> (False, r\<lparr>rd_rest := []\<rparr>)
      | g # gs \<Rightarrow> (True, r\<lparr>rd_group := g, rd_rest := rg_records g, rd_next := gs,
                           rd_path := None, rd_pos := None\<rparr>))"

text \<open>
  \<open>current_file_path_value_\<close> is never assigned, so that the comparison with it keeps the
  old path exactly when the new one is empty.
\<close>

definition Next :: "reader \<Rightarrow> bool \<times> reader" where
  "Next r =
     (case rd_rest r of
        [] \<Rightarrow> NextRowGroup r
      | (path, pos) # rest \<Rightarrow>
          (True, r\<lparr>rd_rest := rest, rd_path := (if path = [] then rd_path r else Some path),
                   rd_pos := Some pos\<rparr>))"

definition IsStarted :: "reader \<Rightarrow> bool" where
  "IsStarted r \<longleftrightarrow> rd_pos r \<noteq> None"

definition GetPosition :: "reader \<Rightarrow> string option \<times> int option" where
  "GetPosition r =
     (if IsStarted r then (rd_path r, rd_pos r)
      else case (rg_path_stats (rd_group r), rg_pos_stats (rd_group r)) of
        (Some (Some (mn, _)), Some (Some (mn', _))) \<Rightarrow> (Some mn, Some mn')
      | (Some (Some (mn, _)), Some None) \<Rightarrow> (Some mn, None)
      | _ \<Rightarrow> (None, None))"

datatype filter_result = kLess | kInter | kGreater

record pos_query =
  q_url :: string
  q_begin :: int
  q_end :: int

definition State :: "row_group \<Rightarrow> pos_query \<Rightarrow> filter_result" where
  "State g query =
     (case (rg_path_stats g, rg_pos_stats g) of
        (Some (Some (min_value, max_value)), Some int_stats) \<Rightarrow>
          if max_value < q_url query then kLess
          else if min_value > q_url query then kGreater
          else if min_value \<noteq> max_value then kInter
          else (case int_stats of
                  None \<Rightarrow> kInter
                | Some (mn, mx) \<Rightarrow>
                    if mx < q_begin query then kLess
                    else if mn \<ge> q_end query then kGreater
                    else kInter)
      | _ \<Rightarrow> kInter)"

section \<open>Answering a query\<close>

text \<open>
  One pass of the loop of \<open>GetDeleted\<close> takes the least reader from the queue; it stops
  with the rows and the queue, or goes on.  \<open>pop\<close> and \<open>push\<close> are the operations of the
  priority queue.  The counter bounds the number of passes; \<open>None\<close> is running out of it.
\<close>

datatype 'q pass = Stop 'q "int list" | Continue 'q "int list" | Fail error

definition EnqueueIf :: "(reader \<Rightarrow> 'q \<Rightarrow> 'q) \<Rightarrow> bool \<times> reader \<Rightarrow> 'q \<Rightarrow> 'q" where
  "EnqueueIf push cr q = (if fst cr then push (snd cr) q else q)"

definition one_pass ::
  "(reader \<Rightarrow> 'q \<Rightarrow> 'q) \<Rightarrow> pos_query \<Rightarrow> int \<Rightarrow> reader \<Rightarrow> 'q \<Rightarrow> int list \<Rightarrow> 'q pass" where
  "one_pass push query data_layer r q rows =
     (case rd_pos r of
        None \<Rightarrow>
          (case State (rd_group r) query of
             kLess \<Rightarrow> Continue (EnqueueIf push (NextRowGroup r) q) rows
           | kGreater \<Rightarrow> Stop (push r q) rows
           | kInter \<Rightarrow> Continue (EnqueueIf push (Next r) q) rows)
      | Some pos \<Rightarrow>
          (case rd_path r of
             None \<Rightarrow> Fail Bad_optional_access
           | Some path \<Rightarrow>
               if q_url query < path then Stop (push r q) rows
               else if q_url query = path \<and> pos \<ge> q_begin query then
                 if pos < q_end query then
                   Continue (EnqueueIf push (Next r) q)
                     (if (rows = [] \<or> last rows \<noteq> pos) \<and> rd_layer r \<ge> data_layer
                      then rows @ [pos] else rows)
                 else Stop (push r q) rows
               else Continue (EnqueueIf push (Next r) q) rows))"

fun deleted_loop ::
  "('q \<Rightarrow> (reader \<times> 'q) option) \<Rightarrow> (reader \<Rightarrow> 'q \<Rightarrow> 'q) \<Rightarrow> nat \<Rightarrow> pos_query \<Rightarrow> int \<Rightarrow> 'q \<Rightarrow> int list \<Rightarrow>
     (int list \<times> 'q) result option" where
  "deleted_loop pop push 0 query data_layer q rows = None"
| "deleted_loop pop push (Suc n) query data_layer q rows =
     (case pop q of
        None \<Rightarrow> Some (Inr (rows, q))
      | Some (r, q') \<Rightarrow>
          (case one_pass push query data_layer r q' rows of
             Fail err \<Rightarrow> Some (Inl err)
           | Stop q'' rows' \<Rightarrow> Some (Inr (rows', q''))
           | Continue q'' rows' \<Rightarrow> deleted_loop pop push n query data_layer q'' rows'))"

record 'q delete_stream =
  ds_queue :: 'q
  ds_last_query :: "pos_query option"

definition GetDeleted ::
  "('q \<Rightarrow> (reader \<times> 'q) option) \<Rightarrow> (reader \<Rightarrow> 'q \<Rightarrow> 'q) \<Rightarrow> nat \<Rightarrow> string \<Rightarrow> int \<Rightarrow> int \<Rightarrow> int \<Rightarrow>
     'q delete_stream \<Rightarrow> (int list \<times> 'q delete_stream) result option" where
  "GetDeleted pop push fuel url b e data_layer st =
     (if (case ds_last_query st of None \<Rightarrow> True | Some lq \<Rightarrow> (q_url lq, q_end lq) \<le> (url, b)) then
        let query = \<lparr>q_url = url, q_begin = b, q_end = e\<rparr> in
        (case deleted_loop pop push fuel query data_layer (ds_queue st) [] of
           None \<Rightarrow> None
         | Some (Inl err) \<Rightarrow> Some (Inl err)
         | Some (Inr (rows, q)) \<Rightarrow> Some (Inr (rows, \<lparr>ds_queue = q, ds_last_query = Some query\<rparr>)))
      else Some (Inl (Runtime_error ''Internal error: queries must be disjoint and in ascending order'')))"

text \<open>The constructor: a reader per delete file, positioned at its first row group.\<close>

definition open_reader :: "int \<Rightarrow> row_group list \<Rightarrow> bool \<times> reader" where
  "open_reader layer groups =
     NextRowGroup \<lparr>rd_layer = layer, rd_group = \<lparr>rg_records = [], rg_path_stats = None, rg_pos_stats = None\<rparr>,
       rd_rest = [], rd_next = groups, rd_path = None, rd_pos = None\<rparr>"

definition mk_stream :: "(reader \<Rightarrow> 'q \<Rightarrow> 'q) \<Rightarrow> 'q \<Rightarrow> (int \<times> row_group list) list \<Rightarrow> 'q delete_stream" where
  "mk_stream push emp files =
     \<lparr>ds_queue = fold (\<lambda>(layer, groups). EnqueueIf push (open_reader layer groups)) files emp,
      ds_last_query = None\<rparr>"

section \<open>What a reader can still deliver\<close>

definition remaining :: "reader \<Rightarrow> record_id list" where
  "remaining r =
     (case rd_pos r of None \<Rightarrow> [] | Some pos \<Rightarrow> [(the (rd_path r), pos)]) @
     rd_rest r @ concat (map rg_records (rd_next r))"

definition group_ok :: "row_group \<Rightarrow> bool" where
  "group_ok g \<longleftrightarrow>
     (rg_records g = [] \<longrightarrow> rg_path_stats g = None \<or> rg_path_stats g = Some None) \<and>
     (\<forall>(path, pos) \<in> set (rg_records g). path \<noteq> [] \<and>
        (case rg_path_stats g of Some (Some (mn, mx)) \<Rightarrow> mn \<le> path \<and> path \<le> mx | _ \<Rightarrow> True) \<and>
        (case rg_pos_stats g of Some (Some (mn, mx)) \<Rightarrow> mn \<le> pos \<and> pos \<le> mx | _ \<Rightarrow> True))"

definition reader_ok :: "reader \<Rightarrow> bool" where
  "reader_ok r \<longleftrightarrow> sorted (remaining r) \<and> group_ok (rd_group r) \<and> (\<forall>g \<in> set (rd_next r). group_ok g) \<and>
     set (rd_rest r) \<subseteq> set (rg_records (rd_group r)) \<and>
     (rd_pos r = None \<longrightarrow> rd_rest r = rg_records (rd_group r)) \<and>
     (rd_pos r \<noteq> None \<longrightarrow> rd_path r \<noteq> None)"

definition key_of :: "record_id \<Rightarrow> string option \<times> int option" where
  "key_of x = (Some (fst x), Some (snd x))"

lemma key_of_le [simp]: "key_of x \<le> key_of y \<longleftrightarrow> x \<le> y"
  by (cases x; cases y) (auto simp: key_of_def less_eq_prod_def)

lemma position_first:
  assumes "reader_ok r" "x \<in> set (rg_records (rd_group r))" "rd_pos r = None"
  shows "GetPosition r \<le> key_of x"
  using assms by (cases x) (auto simp: reader_ok_def group_ok_def GetPosition_def IsStarted_def key_of_def
      less_eq_prod_def split: option.splits)

lemma least_None [simp]: "(None, None) \<le> (x :: 'a::linorder option \<times> 'b::linorder option)"
  by (cases x) (auto simp: less_eq_prod_def less_option_def less_eq_option_def split: option.splits)

text \<open>The position of a reader bounds everything it can still deliver.\<close>

lemma position_le:
  assumes ok: "reader_ok r" and x: "x \<in> set (remaining r)"
  shows "GetPosition r \<le> key_of x"
proof (cases "rd_pos r")
  case (Some pos)
  then obtain path where path: "rd_path r = Some path" using ok by (auto simp: reader_ok_def)
  then have "remaining r = (path, pos) # rd_rest r @ concat (map rg_records (rd_next r))"
    using Some by (simp add: remaining_def)
  then have "(path, pos) \<le> x" using ok x by (auto simp: reader_ok_def)
  then have "key_of (path, pos) \<le> key_of x" by simp
  then show ?thesis using Some path by (simp add: GetPosition_def IsStarted_def key_of_def)
next
  case None
  have rest: "remaining r = rg_records (rd_group r) @ concat (map rg_records (rd_next r))"
    using None ok by (simp add: remaining_def reader_ok_def)
  show ?thesis
  proof (cases "rg_records (rd_group r)")
    case Nil
    then have "GetPosition r = (None, None)"
      using ok None by (auto simp: reader_ok_def group_ok_def GetPosition_def IsStarted_def)
    then show ?thesis by simp
  next
    case (Cons y ys)
    then have "y \<le> x" using ok x rest by (auto simp: reader_ok_def)
    then have "key_of y \<le> key_of x" by simp
    moreover have "GetPosition r \<le> key_of y" using position_first [OF ok _ None] Cons by simp
    ultimately show ?thesis by (rule order_trans [rotated])
  qed
qed

definition reader_work :: "reader \<Rightarrow> nat" where
  "reader_work r = Suc (length (rd_rest r) + (\<Sum>g\<leftarrow>rd_next r. Suc (length (rg_records g))))"

text \<open>What stays available after a step: the flag says whether the reader goes on.\<close>

definition step_ok :: "reader \<Rightarrow> record_id list \<Rightarrow> bool \<times> reader \<Rightarrow> bool" where
  "step_ok r xs cr \<longleftrightarrow> (if fst cr then reader_ok (snd cr) \<and> remaining (snd cr) = xs \<and>
       rd_layer (snd cr) = rd_layer r \<and> reader_work (snd cr) < reader_work r
     else xs = [])"

lemma reader_ok_sorted:
  assumes "reader_ok r"
  shows "sorted (rd_rest r @ concat (map rg_records (rd_next r)))"
    "sorted (concat (map rg_records (rd_next r)))"
proof -
  have "sorted (remaining r)" using assms by (simp add: reader_ok_def)
  then show "sorted (rd_rest r @ concat (map rg_records (rd_next r)))"
    unfolding remaining_def using sorted_append by blast
  then show "sorted (concat (map rg_records (rd_next r)))" using sorted_append by blast
qed

lemma NextRowGroup_ok:
  assumes "reader_ok r"
  shows "step_ok r (concat (map rg_records (rd_next r))) (NextRowGroup r)"
proof (cases "rd_next r")
  case (Cons g gs)
  have "sorted (concat (map rg_records (rd_next r)))" by (rule reader_ok_sorted(2) [OF assms])
  then show ?thesis
    using assms Cons by (auto simp: step_ok_def NextRowGroup_def reader_ok_def remaining_def reader_work_def)
qed (simp add: step_ok_def NextRowGroup_def)

lemma Next_ok:
  assumes "reader_ok r"
  shows "step_ok r (rd_rest r @ concat (map rg_records (rd_next r))) (Next r)"
proof (cases "rd_rest r")
  case Nil
  then show ?thesis using NextRowGroup_ok [OF assms] by (simp add: Next_def)
next
  case (Cons x rest)
  obtain path pos where x: "x = (path, pos)" by (cases x)
  have "path \<noteq> []"
    using assms Cons x by (fastforce simp: reader_ok_def group_ok_def)
  then have n: "Next r = (True, r\<lparr>rd_rest := rest, rd_path := Some path, rd_pos := Some pos\<rparr>)"
    using Cons x by (simp add: Next_def)
  have "sorted (rd_rest r @ concat (map rg_records (rd_next r)))" by (rule reader_ok_sorted(1) [OF assms])
  then show ?thesis
    using assms Cons x by (auto simp: step_ok_def n reader_ok_def remaining_def reader_work_def)
qed

section \<open>Available records\<close>

definition avail :: "reader multiset \<Rightarrow> (int \<times> record_id) set" where
  "avail Q = {(rd_layer r, x) | r x. r \<in># Q \<and> x \<in> set (remaining r)}"

definition answer :: "pos_query \<Rightarrow> int \<Rightarrow> (int \<times> record_id) set \<Rightarrow> int set" where
  "answer query data_layer A =
     {k. \<exists>l \<ge> data_layer. (l, q_url query, k) \<in> A \<and> q_begin query \<le> k \<and> k < q_end query}"

definition beyond :: "pos_query \<Rightarrow> (int \<times> record_id) set \<Rightarrow> (int \<times> record_id) set" where
  "beyond query A = {(l, x) \<in> A. (q_url query, q_end query) \<le> x}"

definition rows_ok :: "pos_query \<Rightarrow> int list \<Rightarrow> (int \<times> record_id) set \<Rightarrow> bool" where
  "rows_ok query rows A \<longleftrightarrow> sorted_wrt (<) rows \<and>
     (\<forall>k \<in> set rows. \<forall>(l, x) \<in> A. (q_url query, k) \<le> x)"

lemma avail_add: "avail (add_mset r Q) = Pair (rd_layer r) ` set (remaining r) \<union> avail Q"
  by (auto simp: avail_def)

lemma avail_step:
  assumes "step_ok r xs cr"
  shows "avail (if fst cr then add_mset (snd cr) Q else Q) = Pair (rd_layer r) ` set xs \<union> avail Q"
  using assms by (auto simp: step_ok_def avail_add)

text \<open>What one pass must do, by its three outcomes.\<close>

definition queue_ok :: "reader multiset \<Rightarrow> bool" where
  "queue_ok Q \<longleftrightarrow> (\<forall>r \<in># Q. reader_ok r)"

definition work :: "reader multiset \<Rightarrow> nat" where
  "work Q = (\<Sum>r\<in>#Q. reader_work r)"

lemma work_step:
  "step_ok r xs cr \<Longrightarrow> work (if fst cr then add_mset (snd cr) Q else Q) < work (add_mset r Q)"
  by (auto simp: step_ok_def work_def reader_work_def)

definition progress :: "pos_query \<Rightarrow> int \<Rightarrow> reader multiset \<Rightarrow> int list \<Rightarrow> reader multiset \<Rightarrow> int list \<Rightarrow> bool" where
  "progress query data_layer Q rows Q' rows' \<longleftrightarrow> queue_ok Q' \<and> work Q' < work Q \<and>
     rows_ok query rows' (avail Q') \<and> beyond query (avail Q') = beyond query (avail Q) \<and>
     set rows' \<union> answer query data_layer (avail Q') = set rows \<union> answer query data_layer (avail Q)"

lemma rows_ok_mono: "rows_ok query rows A \<Longrightarrow> B \<subseteq> A \<Longrightarrow> rows_ok query rows B"
  unfolding rows_ok_def by blast

text \<open>Leaving out records below the query changes nothing of what matters.\<close>

lemma progress_drop:
  assumes "queue_ok (add_mset r Q)" "step_ok r xs cr" "rows_ok query rows (avail (add_mset r Q))"
    and "set xs \<subseteq> set (remaining r)" "q_begin query \<le> q_end query"
    and "\<And>x. x \<in> set (remaining r) \<Longrightarrow> x \<notin> set xs \<Longrightarrow> x < (q_url query, q_begin query)"
  shows "progress query data_layer (add_mset r Q) rows (if fst cr then add_mset (snd cr) Q else Q) rows"
proof -
  let ?Q = "if fst cr then add_mset (snd cr) Q else Q"
  have A: "avail ?Q = Pair (rd_layer r) ` set xs \<union> avail Q" using assms(2) by (rule avail_step)
  have sub: "avail ?Q \<subseteq> avail (add_mset r Q)" using assms(4) by (auto simp: A avail_add)
  have low: "x < (q_url query, q_begin query)" if "(l, x) \<in> avail (add_mset r Q)" "(l, x) \<notin> avail ?Q" for l x
    using that assms(6) by (auto simp: A avail_add)
  have "(q_url query, q_begin query) \<le> (q_url query, q_end query)" using assms(5) by simp
  then have not_high: "\<not> (q_url query, q_end query) \<le> x" if "x < (q_url query, q_begin query)" for x
    using that by (meson leD order_le_less_trans order_less_le_trans)
  have "beyond query (avail ?Q) = beyond query (avail (add_mset r Q))"
    using sub low not_high unfolding beyond_def by blast
  moreover have "\<not> (q_url query, k) < (q_url query, q_begin query)" if "q_begin query \<le> k" for k
    using that by (simp add: less_prod_def)
  then have "answer query data_layer (avail ?Q) = answer query data_layer (avail (add_mset r Q))"
    using sub low unfolding answer_def by blast
  moreover have "queue_ok ?Q" using assms(1,2) by (auto simp: queue_ok_def step_ok_def)
  moreover have "rows_ok query rows (avail ?Q)" using assms(3) sub by (rule rows_ok_mono)
  ultimately show ?thesis using work_step [OF assms(2)] by (simp add: progress_def)
qed

lemma group_ok_path:
  assumes "group_ok g" "(path, pos) \<in> set (rg_records g)" "rg_path_stats g = Some (Some (mn, mx))"
  shows "mn \<le> path" "path \<le> mx"
  using assms unfolding group_ok_def by fastforce+

lemma group_ok_pos:
  assumes "group_ok g" "(path, pos) \<in> set (rg_records g)" "rg_pos_stats g = Some (Some (mn, mx))"
  shows "mn \<le> pos" "pos \<le> mx"
  using assms unfolding group_ok_def by fastforce+

lemma State_kLess_stats:
  assumes "State g query = kLess"
  shows "\<exists>mn mx. rg_path_stats g = Some (Some (mn, mx)) \<and> (mx < q_url query \<or>
     mx = q_url query \<and> (\<exists>m M. rg_pos_stats g = Some (Some (m, M)) \<and> M < q_begin query))"
  using assms by (auto simp: State_def split: option.splits if_splits prod.splits)

lemma State_kLess:
  assumes "State g query = kLess" "group_ok g" "x \<in> set (rg_records g)"
  shows "x < (q_url query, q_begin query)"
proof -
  obtain path pos where x: "x = (path, pos)" by (cases x)
  obtain mn mx where s: "rg_path_stats g = Some (Some (mn, mx))" and d: "mx < q_url query \<or>
     mx = q_url query \<and> (\<exists>m M. rg_pos_stats g = Some (Some (m, M)) \<and> M < q_begin query)"
    using State_kLess_stats [OF assms(1)] by blast
  have "path \<le> mx" using group_ok_path(2) [OF assms(2) _ s] assms(3) x by blast
  moreover have "pos < q_begin query" if "rg_pos_stats g = Some (Some (m, M))" "M < q_begin query" for m M
    using group_ok_pos(2) [OF assms(2) _ that(1)] assms(3) x that(2) by fastforce
  ultimately show ?thesis using d x by (auto simp: less_prod_def)
qed

lemma State_kGreater_position:
  assumes "State (rd_group r) query = kGreater" "rd_pos r = None"
  shows "(Some (q_url query), Some (q_end query)) \<le> GetPosition r \<or> (\<exists>p k. GetPosition r = (Some p, k) \<and> q_url query < p)"
  using assms by (auto simp: State_def GetPosition_def IsStarted_def less_eq_prod_def
      split: option.splits if_splits prod.splits)

text \<open>When the least position is beyond the query, nothing in the queue answers it.\<close>

lemma beyond_answer:
  assumes "queue_ok Q" "\<And>r. r \<in># Q \<Longrightarrow> pos \<le> GetPosition r"
    and "(Some (q_url query), Some (q_end query)) \<le> pos \<or> (\<exists>p k. pos = (Some p, k) \<and> q_url query < p)"
  shows "answer query data_layer (avail Q) = {}"
proof -
  have "\<not> (q_begin query \<le> k \<and> k < q_end query)" if mem: "(l, q_url query, k) \<in> avail Q" for l k
  proof -
    obtain r where "r \<in># Q" "(q_url query, k) \<in> set (remaining r)" using mem by (auto simp: avail_def)
    then have le: "pos \<le> key_of (q_url query, k)"
      using assms(1,2) position_le by (metis order_trans queue_ok_def)
    from assms(3) show ?thesis
    proof
      assume "(Some (q_url query), Some (q_end query)) \<le> pos"
      then have "key_of (q_url query, q_end query) \<le> key_of (q_url query, k)"
        using le by (simp add: key_of_def [of "(q_url query, q_end query)"] order_trans)
      then have "(q_url query, q_end query) \<le> (q_url query, k)" by (simp only: key_of_le)
      then show ?thesis by (simp add: less_eq_prod_def)
    next
      assume "\<exists>p k. pos = (Some p, k) \<and> q_url query < p"
      then show ?thesis using le by (auto simp: key_of_def less_eq_prod_def)
    qed
  qed
  then show ?thesis by (auto simp: answer_def)
qed

lemma strict_sorted_last: "sorted_wrt (<) xs \<Longrightarrow> k \<in> set xs \<Longrightarrow> k \<le> last xs" for k :: "'a::linorder"
  by (induction xs) (auto intro: less_imp_le)

text \<open>Taking the least record of the queue.\<close>

lemma progress_take:
  assumes "queue_ok (add_mset r Q)" "rows_ok query rows (avail (add_mset r Q))"
    and pos: "rd_pos r = Some pos" "rd_path r = Some (q_url query)"
    and rng: "q_begin query \<le> pos" "pos < q_end query"
    and least: "\<And>l x. (l, x) \<in> avail (add_mset r Q) \<Longrightarrow> (q_url query, pos) \<le> x"
    and st: "step_ok r (rd_rest r @ concat (map rg_records (rd_next r))) cr"
    and rows': "rows' = (if (rows = [] \<or> last rows \<noteq> pos) \<and> rd_layer r \<ge> data_layer then rows @ [pos] else rows)"
  shows "progress query data_layer (add_mset r Q) rows (if fst cr then add_mset (snd cr) Q else Q) rows'"
proof -
  let ?Q = "if fst cr then add_mset (snd cr) Q else Q"
  let ?A = "avail (add_mset r Q)" and ?B = "avail ?Q"
  have B: "?B = Pair (rd_layer r) ` set (rd_rest r @ concat (map rg_records (rd_next r))) \<union> avail Q"
    using st by (rule avail_step)
  have A: "?A = insert (rd_layer r, q_url query, pos) ?B"
    unfolding B avail_add using pos by (auto simp: remaining_def)
  have high: "beyond query ?B = beyond query ?A"
    using rng(2) by (auto simp: A beyond_def less_eq_prod_def)
  have ans: "answer query data_layer ?A =
      (if rd_layer r \<ge> data_layer then {pos} else {}) \<union> answer query data_layer ?B"
    using rng by (auto simp: A answer_def)
  have le: "k \<le> pos" if "k \<in> set rows" for k
    using assms(2) that unfolding rows_ok_def A by (auto simp: less_eq_prod_def)
  have srt: "sorted_wrt (<) rows" using assms(2) by (simp add: rows_ok_def)
  have last: "last rows = pos" if "pos \<in> set rows"
  proof -
    have ne: "rows \<noteq> []" using that by auto
    have "pos \<le> last rows" using strict_sorted_last [OF srt that] .
    then show ?thesis using le [of "last rows"] ne by simp
  qed
  have "sorted_wrt (<) rows'"
    using srt le last unfolding rows' by (auto simp: sorted_wrt_append order_less_le)
  moreover have "(q_url query, k) \<le> x" if k: "k \<in> set rows'" and x: "(l, x) \<in> ?B" for k l x
  proof -
    have x': "(l, x) \<in> ?A" using x A by blast
    show ?thesis
    proof (cases "k = pos")
      case True
      then show ?thesis using least [OF x'] by simp
    next
      case False
      then have "k \<in> set rows" using k unfolding rows' by (auto split: if_splits)
      then show ?thesis using assms(2) x' unfolding rows_ok_def by blast
    qed
  qed
  then have "\<forall>k \<in> set rows'. \<forall>(l, x) \<in> ?B. (q_url query, k) \<le> x" by blast
  moreover have "set rows' \<union> answer query data_layer ?B = set rows \<union> answer query data_layer ?A"
    unfolding ans rows' using last by (auto dest: last_in_set)
  moreover have "queue_ok ?Q" using assms(1) st by (auto simp: queue_ok_def step_ok_def)
  ultimately show ?thesis
    using work_step [OF st] high unfolding progress_def rows_ok_def by blast
qed

section \<open>The priority queue\<close>

text \<open>
  The interface of \<open>std::priority_queue\<close> with the comparison by \<open>key\<close>: \<open>pop\<close> is
  \<open>top\<close> followed by \<open>pop\<close> and hands out an element with the least key.
\<close>

locale min_queue =
  fixes emp :: "'q"
    and pop :: "'q \<Rightarrow> ('a \<times> 'q) option"
    and push :: "'a \<Rightarrow> 'q \<Rightarrow> 'q"
    and elems :: "'q \<Rightarrow> 'a multiset"
    and key :: "'a \<Rightarrow> 'k::linorder"
  assumes elems_emp: "elems emp = {#}"
    and elems_push: "elems (push x q) = add_mset x (elems q)"
    and pop_None: "pop q = None \<longleftrightarrow> elems q = {#}"
    and pop_elems: "pop q = Some (x, q') \<Longrightarrow> elems q = add_mset x (elems q')"
    and pop_least: "pop q = Some (x, q') \<Longrightarrow> y \<in># elems q' \<Longrightarrow> key x \<le> key y"
begin

lemma pop_least_all: "pop q = Some (x, q') \<Longrightarrow> y \<in># elems q \<Longrightarrow> key x \<le> key y"
  using pop_elems pop_least by fastforce

end

locale reader_queue = min_queue emp pop push elems GetPosition
  for emp :: "'q" and pop :: "'q \<Rightarrow> (reader \<times> 'q) option" and push :: "reader \<Rightarrow> 'q \<Rightarrow> 'q"
    and elems :: "'q \<Rightarrow> reader multiset"
begin

lemma elems_EnqueueIf:
  "elems (EnqueueIf push cr q) = (if fst cr then add_mset (snd cr) (elems q) else elems q)"
  by (simp add: EnqueueIf_def elems_push)

lemma avail_least:
  assumes "queue_ok (elems q)" "pop q = Some (r, q')" "(l, x) \<in> avail (elems q)"
  shows "GetPosition r \<le> key_of x"
proof -
  obtain r' where r': "r' \<in># elems q" "x \<in> set (remaining r')" using assms(3) by (auto simp: avail_def)
  have "GetPosition r \<le> GetPosition r'" using pop_least_all [OF assms(2) r'(1)] .
  also have "\<dots> \<le> key_of x" using assms(1) r' by (intro position_le) (auto simp: queue_ok_def)
  finally show ?thesis .
qed

lemma pass_unstarted:
  assumes "queue_ok (elems q)" "pop q = Some (r, q')" "rows_ok query rows (avail (elems q))"
    and "q_begin query \<le> q_end query" "rd_pos r = None"
  shows "case one_pass push query data_layer r q' rows of
     Fail err \<Rightarrow> False
   | Stop q'' rows' \<Rightarrow> rows' = rows \<and> elems q'' = elems q \<and> answer query data_layer (avail (elems q)) = {}
   | Continue q'' rows' \<Rightarrow> progress query data_layer (elems q) rows (elems q'') rows'"
proof -
  have e: "elems q = add_mset r (elems q')" using assms(2) by (rule pop_elems)
  have ok: "reader_ok r" using assms(1) e by (simp add: queue_ok_def)
  have rest: "remaining r = rg_records (rd_group r) @ concat (map rg_records (rd_next r))"
    using ok assms(5) by (simp add: reader_ok_def remaining_def)
  show ?thesis
  proof (cases "State (rd_group r) query")
    case kLess
    have "progress query data_layer (add_mset r (elems q')) rows
        (if fst (NextRowGroup r) then add_mset (snd (NextRowGroup r)) (elems q') else elems q') rows"
    proof (rule progress_drop [OF _ NextRowGroup_ok [OF ok] _ _ assms(4)])
      fix x assume "x \<in> set (remaining r)" "x \<notin> set (concat (map rg_records (rd_next r)))"
      then have "x \<in> set (rg_records (rd_group r))" using rest by auto
      then show "x < (q_url query, q_begin query)"
        using State_kLess [OF kLess] ok by (simp add: reader_ok_def)
    qed (use assms(1,3) e rest in auto)
    then show ?thesis using kLess assms(5) e by (simp add: one_pass_def elems_EnqueueIf)
  next
    case kInter
    have "progress query data_layer (add_mset r (elems q')) rows
        (if fst (Next r) then add_mset (snd (Next r)) (elems q') else elems q') rows"
    proof (rule progress_drop [OF _ Next_ok [OF ok] _ _ assms(4)])
    qed (use assms(1,3,5) e in \<open>auto simp: remaining_def\<close>)
    then show ?thesis using kInter assms(5) e by (simp add: one_pass_def elems_EnqueueIf)
  next
    case kGreater
    have "answer query data_layer (avail (elems q)) = {}"
      by (rule beyond_answer [OF assms(1) pop_least_all [OF assms(2)]
            State_kGreater_position [OF kGreater assms(5)]])
    then show ?thesis using kGreater assms(5) e by (simp add: one_pass_def elems_push)
  qed
qed

lemma pass_started:
  assumes "queue_ok (elems q)" "pop q = Some (r, q')" "rows_ok query rows (avail (elems q))"
    and "q_begin query \<le> q_end query" "rd_pos r = Some pos"
  shows "case one_pass push query data_layer r q' rows of
     Fail err \<Rightarrow> False
   | Stop q'' rows' \<Rightarrow> rows' = rows \<and> elems q'' = elems q \<and> answer query data_layer (avail (elems q)) = {}
   | Continue q'' rows' \<Rightarrow> progress query data_layer (elems q) rows (elems q'') rows'"
proof -
  have e: "elems q = add_mset r (elems q')" using assms(2) by (rule pop_elems)
  have ok: "reader_ok r" using assms(1) e by (simp add: queue_ok_def)
  obtain path where path: "rd_path r = Some path" using ok assms(5) by (auto simp: reader_ok_def)
  have gp: "GetPosition r = (Some path, Some pos)"
    using assms(5) path by (simp add: GetPosition_def IsStarted_def)
  have rest: "remaining r = (path, pos) # rd_rest r @ concat (map rg_records (rd_next r))"
    using assms(5) path by (simp add: remaining_def)
  have stop: "answer query data_layer (avail (elems q)) = {}"
    if "(Some (q_url query), Some (q_end query)) \<le> GetPosition r \<or> (\<exists>p k. GetPosition r = (Some p, k) \<and> q_url query < p)"
    by (rule beyond_answer [OF assms(1) pop_least_all [OF assms(2)] that])
  consider (greater) "q_url query < path"
    | (take) "q_url query = path" "q_begin query \<le> pos" "pos < q_end query"
    | (after) "q_url query = path" "q_begin query \<le> pos" "\<not> pos < q_end query"
    | (before) "(path, pos) < (q_url query, q_begin query)"
    by (cases "q_url query" path rule: linorder_cases; cases "q_begin query \<le> pos")
      (auto simp: less_prod_def not_le)
  then show ?thesis
  proof cases
    case greater
    then show ?thesis using stop assms(5) path gp e by (simp add: one_pass_def elems_push)
  next
    case take
    let ?rows = "if (rows = [] \<or> last rows \<noteq> pos) \<and> rd_layer r \<ge> data_layer then rows @ [pos] else rows"
    have "progress query data_layer (add_mset r (elems q')) rows
        (if fst (Next r) then add_mset (snd (Next r)) (elems q') else elems q') ?rows"
    proof (rule progress_take [OF _ _ assms(5) _ take(2,3) _ Next_ok [OF ok] refl])
      fix l x assume "(l, x) \<in> avail (add_mset r (elems q'))"
      then have "key_of (path, pos) \<le> key_of x"
        using avail_least [OF assms(1,2)] e gp by (simp add: key_of_def [of "(path, pos)"])
      then show "(q_url query, pos) \<le> x" using take(1) by simp
    qed (use assms(1,3) e path take in auto)
    then show ?thesis using take assms(5) path e by (simp add: one_pass_def elems_EnqueueIf)
  next
    case after
    then show ?thesis using stop assms(5) path gp e by (simp add: one_pass_def elems_push less_eq_prod_def)
  next
    case before
    then have n: "\<not> q_url query < path" "\<not> (q_url query = path \<and> pos \<ge> q_begin query)"
      by (auto simp: less_prod_def)
    have "progress query data_layer (add_mset r (elems q')) rows
        (if fst (Next r) then add_mset (snd (Next r)) (elems q') else elems q') rows"
    proof (rule progress_drop [OF _ Next_ok [OF ok] _ _ assms(4)])
      fix x assume "x \<in> set (remaining r)" "x \<notin> set (rd_rest r @ concat (map rg_records (rd_next r)))"
      then show "x < (q_url query, q_begin query)" using rest before by auto
    qed (use assms(1,3) e rest in auto)
    moreover have "one_pass push query data_layer r q' rows = Continue (EnqueueIf push (Next r) q') rows"
      using n assms(5) path by (auto simp: one_pass_def)
    ultimately show ?thesis using e by (simp add: elems_EnqueueIf)
  qed
qed

lemma deleted_loop_ok:
  assumes "queue_ok (elems q)" "rows_ok query rows (avail (elems q))" "q_begin query \<le> q_end query"
    and "work (elems q) < n"
  shows "\<exists>rows' q'. deleted_loop pop push n query data_layer q rows = Some (Inr (rows', q')) \<and>
     sorted_wrt (<) rows' \<and> set rows' = set rows \<union> answer query data_layer (avail (elems q)) \<and>
     queue_ok (elems q') \<and> beyond query (avail (elems q')) = beyond query (avail (elems q)) \<and>
     work (elems q') \<le> work (elems q)"
  using assms
proof (induction n arbitrary: q rows)
  case (Suc n)
  show ?case
  proof (cases "pop q")
    case None
    then have "elems q = {#}" by (simp add: pop_None)
    then have "answer query data_layer (avail (elems q)) = {}" by (auto simp: answer_def avail_def)
    then show ?thesis using None Suc.prems by (simp add: rows_ok_def)
  next
    case (Some rq)
    obtain r q' where rq: "pop q = Some (r, q')" using Some by (cases rq) simp
    have pass: "case one_pass push query data_layer r q' rows of
       Fail err \<Rightarrow> False
     | Stop q'' rows' \<Rightarrow> rows' = rows \<and> elems q'' = elems q \<and> answer query data_layer (avail (elems q)) = {}
     | Continue q'' rows' \<Rightarrow> progress query data_layer (elems q) rows (elems q'') rows'"
      using pass_unstarted [OF Suc.prems(1) rq Suc.prems(2,3)] pass_started [OF Suc.prems(1) rq Suc.prems(2,3)]
      by (cases "rd_pos r") blast+
    show ?thesis
    proof (cases "one_pass push query data_layer r q' rows")
      case (Stop q'' rows')
      then show ?thesis using pass rq Suc.prems by (simp add: rows_ok_def)
    next
      case (Continue q'' rows')
      then have p: "progress query data_layer (elems q) rows (elems q'') rows'" using pass by simp
      have "queue_ok (elems q'')" "rows_ok query rows' (avail (elems q''))" "work (elems q'') < n"
        using p Suc.prems(4) by (auto simp: progress_def)
      from Suc.IH [OF this(1,2) Suc.prems(3) this(3)]
      show ?thesis using p rq Continue by (auto simp: progress_def)
    next
      case (Fail err)
      then show ?thesis using pass by simp
    qed
  qed
qed simp

end

section \<open>A list as the queue\<close>

text \<open>Elements in any order; \<open>pop\<close> selects a least one.\<close>

fun list_pop :: "('a \<Rightarrow> 'k::linorder) \<Rightarrow> 'a list \<Rightarrow> ('a \<times> 'a list) option" where
  "list_pop key [] = None"
| "list_pop key (x # xs) =
     (case list_pop key xs of
        None \<Rightarrow> Some (x, xs)
      | Some (y, ys) \<Rightarrow> if key x \<le> key y then Some (x, xs) else Some (y, x # ys))"

lemma list_pop_None [simp]: "list_pop key xs = None \<longleftrightarrow> xs = []"
  by (cases xs) (auto split: option.splits)

lemma list_pop_ok:
  "list_pop key xs = Some (y, ys) \<Longrightarrow> mset xs = add_mset y (mset ys) \<and> (\<forall>z \<in> set ys. key y \<le> key z)"
proof (induction xs arbitrary: y ys)
  case (Cons x xs)
  show ?case
  proof (cases "list_pop key xs")
    case None
    then show ?thesis using Cons.prems by auto
  next
    case (Some v)
    obtain z zs where v: "list_pop key xs = Some (z, zs)" using Some by (cases v) simp
    note IH = Cons.IH [OF v]
    then have "set xs = insert z (set zs)" by (metis set_mset_add_mset_insert set_mset_mset)
    then show ?thesis using Cons.prems v IH by (auto split: if_splits)
  qed
qed simp

interpretation lq: reader_queue "[]" "list_pop GetPosition" "(#)" mset
proof unfold_locales
  fix q x q' y
  assume "list_pop GetPosition q = Some (x, q')" "y \<in># mset q'"
  then show "GetPosition x \<le> GetPosition y" using list_pop_ok by fastforce
qed (auto dest: list_pop_ok)

text \<open>The stream over a list and the number of passes that is always enough.\<close>

abbreviation list_GetDeleted ::
  "nat \<Rightarrow> string \<Rightarrow> int \<Rightarrow> int \<Rightarrow> int \<Rightarrow> reader list delete_stream \<Rightarrow> (int list \<times> reader list delete_stream) result option" where
  "list_GetDeleted \<equiv> GetDeleted (list_pop GetPosition) (#)"

definition stream_ok :: "reader list delete_stream \<Rightarrow> bool" where
  "stream_ok st \<longleftrightarrow> queue_ok (mset (ds_queue st))"

definition file_ok :: "row_group list \<Rightarrow> bool" where
  "file_ok gs \<longleftrightarrow> sorted (concat (map rg_records gs)) \<and> (\<forall>g \<in> set gs. group_ok g)"

definition contents :: "(int \<times> row_group list) list \<Rightarrow> (int \<times> record_id) set" where
  "contents files = (\<Union>(layer, gs) \<in> set files. Pair layer ` set (concat (map rg_records gs)))"

definition file_work :: "(int \<times> row_group list) list \<Rightarrow> nat" where
  "file_work files = (\<Sum>(layer, gs)\<leftarrow>files. Suc (\<Sum>g\<leftarrow>gs. Suc (length (rg_records g))))"

lemma open_reader_ok:
  assumes "file_ok gs"
  shows "if fst (open_reader layer gs) then reader_ok (snd (open_reader layer gs)) \<and>
       remaining (snd (open_reader layer gs)) = concat (map rg_records gs) \<and>
       rd_layer (snd (open_reader layer gs)) = layer \<and>
       reader_work (snd (open_reader layer gs)) \<le> Suc (\<Sum>g\<leftarrow>gs. Suc (length (rg_records g)))
     else concat (map rg_records gs) = []"
  using assms
  by (cases gs) (auto simp: open_reader_def NextRowGroup_def reader_ok_def remaining_def file_ok_def
      reader_work_def)

lemma mk_stream_ok:
  assumes "\<forall>(layer, gs) \<in> set files. file_ok gs"
  shows "stream_ok (mk_stream (#) [] files)"
    "avail (mset (ds_queue (mk_stream (#) [] files))) = contents files"
    "work (mset (ds_queue (mk_stream (#) [] files))) \<le> file_work files"
proof -
  let ?f = "\<lambda>(layer, groups). EnqueueIf (#) (open_reader layer groups)"
  have "queue_ok (mset q) \<Longrightarrow> queue_ok (mset (fold ?f files q)) \<and>
      avail (mset (fold ?f files q)) = contents files \<union> avail (mset q) \<and>
      work (mset (fold ?f files q)) \<le> file_work files + work (mset q)" for q
    using assms
  proof (induction files arbitrary: q)
    case (Cons f files)
    obtain layer gs where f: "f = (layer, gs)" by (cases f)
    note o = open_reader_ok [of gs layer]
    let ?q = "EnqueueIf (#) (open_reader layer gs) q"
    have q: "queue_ok (mset ?q)" "avail (mset ?q) = Pair layer ` set (concat (map rg_records gs)) \<union> avail (mset q)"
        "work (mset ?q) \<le> Suc (\<Sum>g\<leftarrow>gs. Suc (length (rg_records g))) + work (mset q)"
      using o Cons.prems f
      by (auto simp: EnqueueIf_def queue_ok_def avail_add work_def split: if_splits)
    have ok: "\<forall>(layer, gs) \<in> set files. file_ok gs" using Cons.prems(2) by simp
    show ?case
      using Cons.IH [OF q(1) ok] q(2,3) f by (auto simp: contents_def file_work_def)
  qed (simp add: contents_def file_work_def)
  from this [of "[]"] show "stream_ok (mk_stream (#) [] files)"
    "avail (mset (ds_queue (mk_stream (#) [] files))) = contents files"
    "work (mset (ds_queue (mk_stream (#) [] files))) \<le> file_work files"
    by (auto simp: stream_ok_def mk_stream_def queue_ok_def avail_def work_def)
qed

lemma GetDeleted_ok:
  assumes "stream_ok st" "b \<le> e" "work (mset (ds_queue st)) < fuel"
    and "case ds_last_query st of None \<Rightarrow> True | Some lq \<Rightarrow> (q_url lq, q_end lq) \<le> (url, b)"
  shows "\<exists>rows st'. list_GetDeleted fuel url b e data_layer st = Some (Inr (rows, st')) \<and>
     sorted_wrt (<) rows \<and>
     set rows = {k. b \<le> k \<and> k < e \<and> (\<exists>l \<ge> data_layer. (l, url, k) \<in> avail (mset (ds_queue st)))} \<and>
     stream_ok st' \<and> ds_last_query st' = Some \<lparr>q_url = url, q_begin = b, q_end = e\<rparr> \<and>
     {(l, x) \<in> avail (mset (ds_queue st')). (url, e) \<le> x} =
       {(l, x) \<in> avail (mset (ds_queue st)). (url, e) \<le> x} \<and>
     work (mset (ds_queue st')) \<le> work (mset (ds_queue st))"
proof -
  let ?query = "\<lparr>q_url = url, q_begin = b, q_end = e\<rparr>"
  obtain rows q' where "deleted_loop (list_pop GetPosition) (#) fuel ?query data_layer (ds_queue st) [] =
        Some (Inr (rows, q'))" "sorted_wrt (<) rows"
      "set rows = answer ?query data_layer (avail (mset (ds_queue st)))"
      "queue_ok (mset q')" "beyond ?query (avail (mset q')) = beyond ?query (avail (mset (ds_queue st)))"
      "work (mset q') \<le> work (mset (ds_queue st))"
    using lq.deleted_loop_ok [of "ds_queue st" ?query "[]" fuel data_layer] assms(1-3)
    by (auto simp: stream_ok_def rows_ok_def)
  then show ?thesis
    using assms(4) by (auto simp: GetDeleted_def Let_def stream_ok_def answer_def beyond_def)
qed

section \<open>Properties\<close>

type_synonym row_query = "string \<times> int \<times> int \<times> int"

text \<open>A run of queries against one stream.\<close>

fun run_queries ::
  "nat \<Rightarrow> row_query list \<Rightarrow> reader list delete_stream \<Rightarrow> int list list result option" where
  "run_queries fuel [] st = Some (Inr [])"
| "run_queries fuel ((url, b, e, data_layer) # qs) st =
     (case list_GetDeleted fuel url b e data_layer st of
        None \<Rightarrow> None
      | Some (Inl err) \<Rightarrow> Some (Inl err)
      | Some (Inr (rows, st')) \<Rightarrow>
          (case run_queries fuel qs st' of
             None \<Rightarrow> None
           | Some (Inl err) \<Rightarrow> Some (Inl err)
           | Some (Inr rs) \<Rightarrow> Some (Inr (rows # rs))))"

definition deleted_rows :: "(int \<times> record_id) set \<Rightarrow> row_query \<Rightarrow> int set" where
  "deleted_rows C q = (case q of (url, b, e, data_layer) \<Rightarrow>
     {k. b \<le> k \<and> k < e \<and> (\<exists>l \<ge> data_layer. (l, url, k) \<in> C)})"

fun ascending :: "record_id option \<Rightarrow> row_query list \<Rightarrow> bool" where
  "ascending lo [] = True"
| "ascending lo ((url, b, e, data_layer) # qs) =
     ((case lo of None \<Rightarrow> True | Some x \<Rightarrow> x \<le> (url, b)) \<and> b \<le> e \<and> ascending (Some (url, e)) qs)"

definition agrees_above :: "record_id option \<Rightarrow> (int \<times> record_id) set \<Rightarrow> (int \<times> record_id) set \<Rightarrow> bool" where
  "agrees_above lo A C \<longleftrightarrow> (\<forall>l x. (case lo of None \<Rightarrow> True | Some y \<Rightarrow> y \<le> x) \<longrightarrow> (l, x) \<in> A \<longleftrightarrow> (l, x) \<in> C)"

text \<open>
  A stream that still holds, from the end of its last query on, everything the delete
  files have to say, and needs fewer passes than the given number.
\<close>

definition last_end :: "'q delete_stream \<Rightarrow> record_id option" where
  "last_end st = map_option (\<lambda>lq. (q_url lq, q_end lq)) (ds_last_query st)"

definition stream_holds :: "(int \<times> record_id) set \<Rightarrow> nat \<Rightarrow> reader list delete_stream \<Rightarrow> bool" where
  "stream_holds C fuel st \<longleftrightarrow> stream_ok st \<and> agrees_above (last_end st) (avail (mset (ds_queue st))) C \<and>
     work (mset (ds_queue st)) < fuel"

lemma GetDeleted_step:
  assumes h: "stream_holds C fuel st" and be: "b \<le> e"
    and lo: "case last_end st of None \<Rightarrow> True | Some x \<Rightarrow> x \<le> (url, b)"
  shows "\<exists>rows st'. list_GetDeleted fuel url b e dl st = Some (Inr (rows, st')) \<and> sorted_wrt (<) rows \<and>
    set rows = deleted_rows C (url, b, e, dl) \<and> stream_holds C fuel st' \<and> last_end st' = Some (url, e)"
proof -
  have last: "case ds_last_query st of None \<Rightarrow> True | Some lq \<Rightarrow> (q_url lq, q_end lq) \<le> (url, b)"
    using lo by (simp add: last_end_def split: option.splits)
  obtain rows st' where r: "list_GetDeleted fuel url b e dl st = Some (Inr (rows, st'))"
      "sorted_wrt (<) rows"
      "set rows = {k. b \<le> k \<and> k < e \<and> (\<exists>l \<ge> dl. (l, url, k) \<in> avail (mset (ds_queue st)))}"
      "stream_ok st'" "ds_last_query st' = Some \<lparr>q_url = url, q_begin = b, q_end = e\<rparr>"
      "{(l, x) \<in> avail (mset (ds_queue st')). (url, e) \<le> x} =
         {(l, x) \<in> avail (mset (ds_queue st)). (url, e) \<le> x}"
      "work (mset (ds_queue st')) \<le> work (mset (ds_queue st))"
    using GetDeleted_ok [OF _ be _ last, of fuel dl] h unfolding stream_holds_def by blast
  have above: "case last_end st of None \<Rightarrow> True | Some y \<Rightarrow> y \<le> x" if "(url, b) \<le> x" for x
    using lo that by (auto split: option.splits intro: order_trans)
  have same: "(l, x) \<in> avail (mset (ds_queue st)) \<longleftrightarrow> (l, x) \<in> C" if "(url, b) \<le> x" for l x
    using h above [OF that] unfolding stream_holds_def agrees_above_def by blast
  have rows: "set rows = deleted_rows C (url, b, e, dl)"
    unfolding r(3) deleted_rows_def using same by (auto simp: less_eq_prod_def)
  have "(url, b) \<le> (url, e)" using be by simp
  then have "(l, x) \<in> avail (mset (ds_queue st')) \<longleftrightarrow> (l, x) \<in> C" if "(url, e) \<le> x" for l x
    using same [of x l] that order_trans r(6) by blast
  then have "stream_holds C fuel st' \<and> last_end st' = Some (url, e)"
    using r(4,5,7) h by (auto simp: stream_holds_def agrees_above_def last_end_def)
  then show ?thesis using r(1,2) rows by blast
qed

lemma run_queries_ok:
  assumes "stream_holds C fuel st" "ascending (last_end st) qs"
  shows "\<exists>rs. run_queries fuel qs st = Some (Inr rs) \<and>
     list_all2 (\<lambda>q rows. sorted_wrt (<) rows \<and> set rows = deleted_rows C q) qs rs"
  using assms
proof (induction qs arbitrary: st)
  case (Cons q qs)
  obtain url b e dl where q: "q = (url, b, e, dl)" by (cases q)
  obtain rows st' where r: "list_GetDeleted fuel url b e dl st = Some (Inr (rows, st'))" "sorted_wrt (<) rows"
      "set rows = deleted_rows C q" "stream_holds C fuel st'" "last_end st' = Some (url, e)"
    using GetDeleted_step [OF Cons.prems(1), of b e url dl] Cons.prems(2) q by auto
  then obtain rs where "run_queries fuel qs st' = Some (Inr rs)"
      "list_all2 (\<lambda>q rows. sorted_wrt (<) rows \<and> set rows = deleted_rows C q) qs rs"
    using Cons.IH [of st'] Cons.prems(2) q by auto
  then show ?case using q r(1-3) by simp
qed simp

lemma mk_stream_holds:
  assumes "\<forall>(layer, gs) \<in> set files. file_ok gs" "file_work files < fuel"
  shows "stream_holds (contents files) fuel (mk_stream (#) [] files)" "last_end (mk_stream (#) [] files) = None"
proof -
  note m = mk_stream_ok [OF assms(1)]
  show "last_end (mk_stream (#) [] files) = None" by (simp add: last_end_def mk_stream_def)
  then show "stream_holds (contents files) fuel (mk_stream (#) [] files)"
    using m assms(2) by (simp add: stream_holds_def agrees_above_def)
qed

text \<open>
  C14. For delete files with sorted records and truthful statistics, every ascending
  sequence of queries is answered, and each answer is exactly the strictly ascending
  list of the rows of the requested range that some delete file of the data file's layer
  or a later layer deletes: the merge by the priority queue, the skipping of row groups
  by statistics and the removal of duplicates lose and invent nothing.  One pass of the
  loop per record and row group is enough.
\<close>

theorem PositionalDeleteStream_correct:
  assumes "\<forall>(layer, gs) \<in> set files. file_ok gs" "ascending None queries" "file_work files < fuel"
  shows "\<exists>rs. run_queries fuel queries (mk_stream (#) [] files) = Some (Inr rs) \<and>
     list_all2 (\<lambda>q rows. sorted_wrt (<) rows \<and> set rows = deleted_rows (contents files) q) queries rs"
  using run_queries_ok [OF mk_stream_holds(1) [OF assms(1,3)]] mk_stream_holds(2) [OF assms(1,3)] assms(2) by simp

definition example_files :: "(int \<times> row_group list) list" where
  "example_files =
     [(1, [\<lparr>rg_records = [(''a'', 2), (''a'', 5)], rg_path_stats = Some (Some (''a'', ''a'')),
            rg_pos_stats = Some (Some (2, 5))\<rparr>,
           \<lparr>rg_records = [(''b'', 0)], rg_path_stats = None, rg_pos_stats = None\<rparr>]),
      (3, [\<lparr>rg_records = [(''a'', 5), (''a'', 7)], rg_path_stats = Some (Some (''a'', ''a'')),
            rg_pos_stats = Some (Some (5, 7))\<rparr>])]"

theorem PositionalDeleteStream_correct_witness:
  "\<exists>rs. run_queries 20 [(''a'', 0, 6, 1), (''a'', 6, 9, 2), (''b'', 0, 9, 1)] (mk_stream (#) [] example_files) =
       Some (Inr rs) \<and>
     list_all2 (\<lambda>q rows. sorted_wrt (<) rows \<and> set rows = deleted_rows (contents example_files) q)
       [(''a'', 0, 6, 1), (''a'', 6, 9, 2), (''b'', 0, 9, 1)] rs"
  by (rule PositionalDeleteStream_correct)
    (simp_all add: example_files_def file_ok_def group_ok_def file_work_def less_eq_prod_def
      list_less_def list_le_def)

text \<open>
  A query that does not lie after the previous one is refused with an error and
  leaves no answer, so that a wrong order of queries cannot silently lose rows.
\<close>

lemma GetDeleted_rejects_overlap:
  assumes "ds_last_query st = Some lq" "\<not> (q_url lq, q_end lq) \<le> (url, b)"
  shows "\<exists>msg. list_GetDeleted fuel url b e data_layer st = Some (Inl (Runtime_error msg))"
  unfolding GetDeleted_def assms(1) using assms(2) by (simp del: less_eq_prod_simp)

lemma GetDeleted_rejects_overlap_witness:
  "\<exists>msg. list_GetDeleted 5 ''a'' 3 9 0
       \<lparr>ds_queue = [], ds_last_query = Some \<lparr>q_url = ''a'', q_begin = 0, q_end = 4\<rparr>\<rparr> =
     Some (Inl (Runtime_error msg))"
  by (rule GetDeleted_rejects_overlap [of _ "\<lparr>q_url = ''a'', q_begin = 0, q_end = 4\<rparr>"])
    (simp_all add: less_eq_prod_def)

end
