(* ===== verification/Selection_Vector.thy ===== *)
theory Selection_Vector
  imports Prelude
begin

text \<open>
  The selection vector of a batch (\<open>common/selection_vector.h\<close>): the ascending indices
  of the rows that are still selected.  \<open>KeepIfEqual\<close> and \<open>DeleteIfEqual\<close> run over the
  vector and a sorted range at once and compact the vector in place; they are written
  here on the array, with the read index \<open>i\<close>, the write index \<open>r\<close> and the rest of the
  range as the state of the loop, and shown equal to filters.
\<close>

section \<open>Operations\<close>

type_synonym selection = "int list"

definition sv_Set :: "nat \<Rightarrow> selection" where
  "sv_Set n = map int [0..<n]"

text \<open>The vector after \<open>resize(result_index)\<close> and the number of removed elements.\<close>

definition sv_resize :: "selection \<times> nat \<Rightarrow> nat \<times> selection" where
  "sv_resize p = (case p of (indices, r) \<Rightarrow> (length indices - r, take r indices))"

function keep_loop :: "selection \<Rightarrow> nat \<Rightarrow> nat \<Rightarrow> int list \<Rightarrow> selection \<times> nat" where
  "keep_loop indices i r iter =
     (if i < length indices then
        let row_to_check = indices ! i;
            current = dropWhile (\<lambda>x. x < row_to_check) iter in
        (case current of
           [] \<Rightarrow> (indices, r)
         | x # _ \<Rightarrow>
             if x = row_to_check then keep_loop (indices[r := indices ! i]) (Suc i) (Suc r) current
             else keep_loop indices (Suc i) r current)
      else (indices, r))"
  by pat_completeness auto
termination by (relation "measure (\<lambda>(indices, i, _, _). length indices - i)") auto

declare keep_loop.simps [simp del]

definition KeepIfEqual :: "int list \<Rightarrow> selection \<Rightarrow> nat \<times> selection" where
  "KeepIfEqual rng indices = sv_resize (keep_loop indices 0 0 rng)"

fun copy_rest :: "selection \<Rightarrow> nat \<Rightarrow> nat \<Rightarrow> nat \<Rightarrow> selection \<times> nat" where
  "copy_rest indices i r 0 = (indices, r)"
| "copy_rest indices i r (Suc n) = copy_rest (indices[r := indices ! i]) (Suc i) (Suc r) n"

function delete_loop :: "selection \<Rightarrow> nat \<Rightarrow> nat \<Rightarrow> int list \<Rightarrow> selection \<times> nat" where
  "delete_loop indices i r iter =
     (if i < length indices then
        let row_to_check = indices ! i;
            current = dropWhile (\<lambda>x. x < row_to_check) iter in
        (case current of
           [] \<Rightarrow> copy_rest indices i r (length indices - i)
         | x # _ \<Rightarrow>
             if x = row_to_check then delete_loop indices (Suc i) r current
             else delete_loop (indices[r := indices ! i]) (Suc i) (Suc r) current)
      else (indices, r))"
  by pat_completeness auto
termination by (relation "measure (\<lambda>(indices, i, _, _). length indices - i)") auto

declare delete_loop.simps [simp del]

definition DeleteIfEqual :: "int list \<Rightarrow> selection \<Rightarrow> nat \<times> selection" where
  "DeleteIfEqual rng indices = sv_resize (delete_loop indices 0 0 rng)"

definition EraseIf :: "(int \<Rightarrow> bool) \<Rightarrow> selection \<Rightarrow> nat \<times> selection" where
  "EraseIf pred indices =
     (length indices - length (filter (\<lambda>x. \<not> pred x) indices), filter (\<lambda>x. \<not> pred x) indices)"

section \<open>The loops compute filters\<close>

text \<open>
  A loop that has written \<open>kept\<close> below the write index and still reads \<open>rest\<close> works on
  an array of the form \<open>kept @ gap @ rest\<close>, where the read index is behind the gap.
\<close>

lemma compact_step:
  assumes "length kept = r" "r + length gap = i"
  shows "(kept @ gap @ x # rest) ! i = x"
    and "(kept @ gap @ x # rest)[r := x] = (kept @ [x]) @ (tl (gap @ [x])) @ rest"
  using assms by (cases gap; auto simp: nth_append list_update_append)+

lemma dropWhile_less_mem:
  assumes "sorted iter" "row \<le> y"
  shows "y \<in> set (dropWhile (\<lambda>x. x < row) iter) \<longleftrightarrow> y \<in> set iter"
  using assms by (induction iter) auto

lemma dropWhile_less_hd:
  fixes iter :: "int list"
  assumes s: "sorted iter"
  shows "row \<in> set iter \<longleftrightarrow> (\<exists>ys. dropWhile (\<lambda>x. x < row) iter = row # ys)"
proof -
  show "row \<in> set iter \<longleftrightarrow> (\<exists>ys. dropWhile (\<lambda>x. x < row) iter = row # ys)"
  proof
    assume "row \<in> set iter"
    then have m: "row \<in> set (dropWhile (\<lambda>x. x < row) iter)" using dropWhile_less_mem [OF s, of row row] by simp
    then obtain y ys where d: "dropWhile (\<lambda>x. x < row) iter = y # ys" by (cases "dropWhile (\<lambda>x. x < row) iter") auto
    then have "\<not> y < row" by (metis dropWhile_eq_Cons_conv)
    moreover have "sorted (y # ys)" using s d by (metis sorted_dropWhile)
    ultimately show "\<exists>ys. dropWhile (\<lambda>x. x < row) iter = row # ys" using m d by force
  next
    assume "\<exists>ys. dropWhile (\<lambda>x. x < row) iter = row # ys"
    then show "row \<in> set iter" by (metis list.set_intros(1) set_dropWhileD)
  qed
qed

lemma copy_rest_correct:
  "length kept = r \<Longrightarrow> r + length gap = i \<Longrightarrow>
   \<exists>tail. copy_rest (kept @ gap @ rest) i r (length rest) = (kept @ rest @ tail, r + length rest)"
proof (induction rest arbitrary: kept gap i r)
  case (Cons x rest)
  note step = compact_step [OF Cons.prems, of x rest]
  have len: "length (kept @ [x]) = Suc r" "Suc r + length (tl (gap @ [x])) = Suc i" using Cons.prems by simp_all
  obtain tl' where "copy_rest ((kept @ [x]) @ tl (gap @ [x]) @ rest) (Suc i) (Suc r) (length rest) =
      ((kept @ [x]) @ rest @ tl', Suc r + length rest)"
    using Cons.IH [OF len] by blast
  then show ?case using step by (intro exI [of _ tl']) (simp add: step)
qed auto

lemma filter_later_eq:
  assumes "sorted_wrt (<) (row # rest)" "sorted iter"
  shows "filter (\<lambda>y. y \<in> set (dropWhile (\<lambda>x. x < row) iter)) rest = filter (\<lambda>y. y \<in> set iter) rest"
    and "filter (\<lambda>y. y \<notin> set (dropWhile (\<lambda>x. x < row) iter)) rest = filter (\<lambda>y. y \<notin> set iter) rest"
  using assms dropWhile_less_mem [OF assms(2)] by (auto intro!: filter_cong)

lemma delete_loop_correct:
  assumes "length kept = r" "r + length gap = i" "sorted_wrt (<) rest" "sorted iter"
  shows "\<exists>tail. delete_loop (kept @ gap @ rest) i r iter =
    (kept @ filter (\<lambda>x. x \<notin> set iter) rest @ tail, r + length (filter (\<lambda>x. x \<notin> set iter) rest))"
  using assms
proof (induction rest arbitrary: kept gap i r iter)
  case Nil
  then show ?case by (simp add: delete_loop.simps [of _ i])
next
  case (Cons x rest)
  note step = compact_step [OF Cons.prems(1,2), of x rest]
  let ?cur = "dropWhile (\<lambda>y. y < x) iter"
  note later = filter_later_eq(2) [OF Cons.prems(3,4)]
  have srt: "sorted_wrt (<) rest" "sorted ?cur" using Cons.prems(3,4) by (auto simp: sorted_dropWhile)
  have i: "i < length (kept @ gap @ x # rest)" using Cons.prems(1,2) by simp
  show ?case
  proof (cases ?cur)
    case Nil
    have "filter (\<lambda>y. y \<notin> set iter) rest = rest" using later unfolding Nil by simp
    moreover have "x \<notin> set iter" using dropWhile_less_hd [OF Cons.prems(4), of x] unfolding Nil by simp
    ultimately have none: "filter (\<lambda>y. y \<notin> set iter) (x # rest) = x # rest" by simp
    have "delete_loop (kept @ gap @ x # rest) i r iter =
        copy_rest (kept @ gap @ x # rest) i r (length (x # rest))"
    proof -
      have "length (kept @ gap @ x # rest) - i = length (x # rest)" using Cons.prems(1,2) by simp
      then show ?thesis
        using i by (subst delete_loop.simps)
          (simp only: Let_def step(1) Nil list.case if_True)
    qed
    then show ?thesis using copy_rest_correct [OF Cons.prems(1,2), of "x # rest"] none by metis
  next
    case (Cons y ys)
    show ?thesis
    proof (cases "y = x")
      case True
      then have mem: "x \<in> set iter" using Cons dropWhile_less_hd [OF Cons.prems(4), of x] by blast
      have "delete_loop (kept @ gap @ x # rest) i r iter = delete_loop (kept @ (gap @ [x]) @ rest) (Suc i) r ?cur"
        using i step Cons True by (subst delete_loop.simps) (simp add: Let_def)
      moreover have "r + length (gap @ [x]) = Suc i" using Cons.prems(2) by simp
      ultimately show ?thesis
        using Cons.IH [OF Cons.prems(1) _ srt, of "gap @ [x]" "Suc i"] later mem by simp
    next
      case False
      then have mem: "x \<notin> set iter" using Cons dropWhile_less_hd [OF Cons.prems(4), of x] by auto
      have "delete_loop (kept @ gap @ x # rest) i r iter =
          delete_loop ((kept @ [x]) @ tl (gap @ [x]) @ rest) (Suc i) (Suc r) ?cur"
        using i step Cons False by (subst delete_loop.simps) (simp add: Let_def)
      moreover have "length (kept @ [x]) = Suc r" "Suc r + length (tl (gap @ [x])) = Suc i"
        using Cons.prems(1,2) by simp_all
      ultimately show ?thesis
        using Cons.IH [of "kept @ [x]" "Suc r" "tl (gap @ [x])" "Suc i" ?cur] srt later mem by simp
    qed
  qed
qed

lemma keep_loop_correct:
  assumes "length kept = r" "r + length gap = i" "sorted_wrt (<) rest" "sorted iter"
  shows "\<exists>tail. keep_loop (kept @ gap @ rest) i r iter =
    (kept @ filter (\<lambda>x. x \<in> set iter) rest @ tail, r + length (filter (\<lambda>x. x \<in> set iter) rest))"
  using assms
proof (induction rest arbitrary: kept gap i r iter)
  case Nil
  then show ?case by (simp add: keep_loop.simps [of _ i])
next
  case (Cons x rest)
  note step = compact_step [OF Cons.prems(1,2), of x rest]
  let ?cur = "dropWhile (\<lambda>y. y < x) iter"
  note later = filter_later_eq(1) [OF Cons.prems(3,4)]
  have srt: "sorted_wrt (<) rest" "sorted ?cur" using Cons.prems(3,4) by (auto simp: sorted_dropWhile)
  have i: "i < length (kept @ gap @ x # rest)" using Cons.prems(1,2) by simp
  show ?case
  proof (cases ?cur)
    case Nil
    have "filter (\<lambda>y. y \<in> set iter) rest = []" using later unfolding Nil by simp
    moreover have "x \<notin> set iter" using dropWhile_less_hd [OF Cons.prems(4), of x] unfolding Nil by simp
    ultimately have none: "filter (\<lambda>y. y \<in> set iter) (x # rest) = []" by simp
    have "keep_loop (kept @ gap @ x # rest) i r iter = (kept @ gap @ x # rest, r)"
      using i by (subst keep_loop.simps) (simp add: Let_def step(1) Nil del: dropWhile_eq_Nil_conv)
    then show ?thesis using none by auto
  next
    case (Cons y ys)
    show ?thesis
    proof (cases "y = x")
      case False
      then have mem: "x \<notin> set iter" using Cons dropWhile_less_hd [OF Cons.prems(4), of x] by auto
      have "keep_loop (kept @ gap @ x # rest) i r iter = keep_loop (kept @ (gap @ [x]) @ rest) (Suc i) r ?cur"
        using i step Cons False by (subst keep_loop.simps) (simp add: Let_def)
      moreover have "r + length (gap @ [x]) = Suc i" using Cons.prems(2) by simp
      ultimately show ?thesis
        using Cons.IH [OF Cons.prems(1) _ srt, of "gap @ [x]" "Suc i"] later mem by simp
    next
      case True
      then have mem: "x \<in> set iter" using Cons dropWhile_less_hd [OF Cons.prems(4), of x] by blast
      have "keep_loop (kept @ gap @ x # rest) i r iter =
          keep_loop ((kept @ [x]) @ tl (gap @ [x]) @ rest) (Suc i) (Suc r) ?cur"
        using i step Cons True by (subst keep_loop.simps) (simp add: Let_def)
      moreover have "length (kept @ [x]) = Suc r" "Suc r + length (tl (gap @ [x])) = Suc i"
        using Cons.prems(1,2) by simp_all
      ultimately show ?thesis
        using Cons.IH [of "kept @ [x]" "Suc r" "tl (gap @ [x])" "Suc i" ?cur] srt later mem by simp
    qed
  qed
qed

lemma loop_lengths:
  "length (fst (copy_rest indices i r n)) = length indices"
  "length (fst (delete_loop indices i r iter)) = length indices"
  "length (fst (keep_loop indices i r iter)) = length indices"
proof -
  show c: "length (fst (copy_rest indices i r n)) = length indices" for indices i r n
    by (induction indices i r n rule: copy_rest.induct) auto
  show "length (fst (delete_loop indices i r iter)) = length indices"
    by (induction indices i r iter rule: delete_loop.induct)
      (subst delete_loop.simps, auto simp: Let_def c split: list.split)
  show "length (fst (keep_loop indices i r iter)) = length indices"
    by (induction indices i r iter rule: keep_loop.induct)
      (subst keep_loop.simps, auto simp: Let_def split: list.split)
qed

lemma DeleteIfEqual_filter:
  assumes "sorted_wrt (<) indices" "sorted rng"
  shows "DeleteIfEqual rng indices = EraseIf (\<lambda>x. x \<in> set rng) indices"
  using delete_loop_correct [of "[]" 0 "[]" 0 indices rng] assms loop_lengths(2) [of indices 0 0 rng]
  by (auto simp: DeleteIfEqual_def sv_resize_def EraseIf_def)

lemma KeepIfEqual_filter:
  assumes "sorted_wrt (<) indices" "sorted rng"
  shows "KeepIfEqual rng indices = EraseIf (\<lambda>x. x \<notin> set rng) indices"
  using keep_loop_correct [of "[]" 0 "[]" 0 indices rng] assms loop_lengths(3) [of indices 0 0 rng]
  by (auto simp: KeepIfEqual_def sv_resize_def EraseIf_def)

section \<open>Properties\<close>

text \<open>
  On a strictly ascending selection and a sorted range, the in-place one-pass
  algorithms are the filters they stand for: \<open>DeleteIfEqual\<close> removes exactly the rows of
  the range, \<open>KeepIfEqual\<close> exactly the others; both report the number of removed rows
  and leave a strictly ascending selection.
\<close>

lemma SelectionVector_filters:
  assumes "sorted_wrt (<) indices" "sorted rng"
  shows "DeleteIfEqual rng indices = EraseIf (\<lambda>x. x \<in> set rng) indices \<and>
    KeepIfEqual rng indices = EraseIf (\<lambda>x. x \<notin> set rng) indices \<and>
    sorted_wrt (<) (snd (DeleteIfEqual rng indices)) \<and> sorted_wrt (<) (snd (KeepIfEqual rng indices))"
  using DeleteIfEqual_filter [OF assms] KeepIfEqual_filter [OF assms] assms(1)
  by (simp add: EraseIf_def sorted_wrt_filter)

lemma SelectionVector_filters_witness:
  "DeleteIfEqual [1, 1, 4, 9] [0, 1, 2, 4, 5] = EraseIf (\<lambda>x. x \<in> set [1, 1, 4, 9]) [0, 1, 2, 4, 5]"
  using SelectionVector_filters [of "[0, 1, 2, 4, 5]" "[1, 1, 4, 9]"] by simp

end
