(* ===== verification/Json.thy ===== *)
theory Json
  imports Prelude
begin

text \<open>
  JSON documents and the typed access to their members (\<open>common/json_parse.cpp\<close>), the
  extraction of integers from a string stream, and hexadecimal text.  A
  \<open>rapidjson::Value\<close> is a tree; an object is the list of its members in document order,
  and a look-up by name finds the first member of that name.  A double is its bit
  pattern.  Parsing and printing of JSON text belong to rapidjson and appear as
  parameters of the theories that use them.
\<close>

section \<open>Documents\<close>

datatype json =
    J_null | J_bool bool | J_int int | J_double "64 word" | J_string string
  | J_array "json list" | J_object "(string \<times> json) list"

type_synonym members = "(string \<times> json) list"

definition int32 :: "int \<Rightarrow> bool" where
  "int32 n \<longleftrightarrow> - (2 ^ 31) \<le> n \<and> n < 2 ^ 31"

definition int64 :: "int \<Rightarrow> bool" where
  "int64 n \<longleftrightarrow> - (2 ^ 63) \<le> n \<and> n < 2 ^ 63"

text \<open>\<open>FindMember\<close> asserts that the value is an object.\<close>

fun HasMember :: "json \<Rightarrow> string \<Rightarrow> bool result" where
  "HasMember (J_object ms) name = Inr (map_of ms name \<noteq> None)"
| "HasMember _ name = Inl (Undefined ''IsObject()'')"

text \<open>\<open>operator[]\<close> asserts that the member exists.\<close>

fun member_at :: "json \<Rightarrow> string \<Rightarrow> json result" where
  "member_at (J_object ms) name =
     (case map_of ms name of None \<Rightarrow> Inl (Undefined ''member not found'') | Some v \<Rightarrow> Inr v)"
| "member_at _ name = Inl (Undefined ''IsObject()'')"

definition IsObject :: "json \<Rightarrow> bool" where
  "IsObject v = (case v of J_object _ \<Rightarrow> True | _ \<Rightarrow> False)"

fun GetString :: "json \<Rightarrow> string result" where
  "GetString (J_string s) = Inr s"
| "GetString _ = Inl (Runtime_error ''!IsString()'')"

fun GetInt64 :: "json \<Rightarrow> int result" where
  "GetInt64 (J_int n) = (if int64 n then Inr n else Inl (Runtime_error ''!IsInt64()''))"
| "GetInt64 _ = Inl (Runtime_error ''!IsInt64()'')"

fun GetInt :: "json \<Rightarrow> int result" where
  "GetInt (J_int n) = (if int32 n then Inr n else Inl (Runtime_error ''!IsInt()''))"
| "GetInt _ = Inl (Runtime_error ''!IsInt()'')"

fun GetBool :: "json \<Rightarrow> bool result" where
  "GetBool (J_bool b) = Inr b"
| "GetBool _ = Inl (Runtime_error ''!IsBool()'')"

text \<open>A string passed on as \<open>const char*\<close> ends at its first zero byte.\<close>

definition c_str :: "string \<Rightarrow> string" where
  "c_str s = takeWhile (\<lambda>c. c \<noteq> CHR 0x00) s"

section \<open>Extraction of members\<close>

definition ExtractField :: "(json \<Rightarrow> 'a result) \<Rightarrow> json \<Rightarrow> string \<Rightarrow> 'a result" where
  "ExtractField get document field_name =
     bindE (HasMember document field_name) (\<lambda>has.
     bindE (ensure has ''!document.HasMember(field_name)'') (\<lambda>_.
     bindE (member_at document field_name) get))"

definition ExtractStringField :: "json \<Rightarrow> string \<Rightarrow> string result" where
  "ExtractStringField = ExtractField GetString"

definition ExtractInt64Field :: "json \<Rightarrow> string \<Rightarrow> int result" where
  "ExtractInt64Field = ExtractField GetInt64"

definition ExtractInt32Field :: "json \<Rightarrow> string \<Rightarrow> int result" where
  "ExtractInt32Field = ExtractField GetInt"

definition ExtractBooleanField :: "json \<Rightarrow> string \<Rightarrow> bool result" where
  "ExtractBooleanField = ExtractField GetBool"

text \<open>An optional number that is absent or of another kind is no number.\<close>

definition ExtractOptionalField :: "(json \<Rightarrow> 'a result) \<Rightarrow> json \<Rightarrow> string \<Rightarrow> 'a option result" where
  "ExtractOptionalField get document field_name =
     bindE (HasMember document field_name) (\<lambda>has.
       if \<not> has then Inr None
       else bindE (member_at document field_name) (\<lambda>v.
         case get v of Inl _ \<Rightarrow> Inr None | Inr n \<Rightarrow> Inr (Some n)))"

definition ExtractOptionalInt32Field :: "json \<Rightarrow> string \<Rightarrow> int option result" where
  "ExtractOptionalInt32Field = ExtractOptionalField GetInt"

definition ExtractOptionalInt64Field :: "json \<Rightarrow> string \<Rightarrow> int option result" where
  "ExtractOptionalInt64Field = ExtractOptionalField GetInt64"

text \<open>\<open>std::map::emplace\<close> keeps the value of a key that is already there.\<close>

definition omap_emplace :: "'k::linorder \<Rightarrow> 'v \<Rightarrow> ('k \<times> 'v) list \<Rightarrow> ('k \<times> 'v) list" where
  "omap_emplace k v m = omap_alter k v id m"

fun JsonToStringMap :: "json \<Rightarrow> (string \<times> string) list result" where
  "JsonToStringMap (J_object ms) =
     foldE (\<lambda>(name, v) m. bindE (GetString v) (\<lambda>s. Inr (omap_emplace (c_str name) (c_str s) m))) ms []"
| "JsonToStringMap _ = Inl (Runtime_error ''!document.IsObject()'')"

definition ExtractStringMap :: "json \<Rightarrow> string \<Rightarrow> (string \<times> string) list result" where
  "ExtractStringMap = ExtractField JsonToStringMap"

section \<open>Integers from a stream\<close>

text \<open>
  The part of \<open>std::stringstream\<close> in use: the characters that are left and the two
  state bits.  Formatted and unformatted input begin with a sentry that fails unless
  both bits are clear; \<open>operator>>\<close> skips white space first.  A conversion without
  digits stores zero, one out of range the nearest value of the type, both with
  \<open>failbit\<close>; a failed sentry leaves the variable alone.
\<close>

record istream =
  is_rest :: string
  is_eof :: bool
  is_fail :: bool

definition stringstream :: "string \<Rightarrow> istream" where
  "stringstream s = \<lparr>is_rest = s, is_eof = False, is_fail = False\<rparr>"

definition ignore :: "nat \<Rightarrow> istream \<Rightarrow> istream" where
  "ignore n ss =
     (if is_eof ss \<or> is_fail ss then ss\<lparr>is_fail := True\<rparr>
      else if length (is_rest ss) < n then ss\<lparr>is_rest := [], is_eof := True\<rparr>
      else ss\<lparr>is_rest := drop n (is_rest ss)\<rparr>)"

definition is_space :: "char \<Rightarrow> bool" where
  "is_space c \<longleftrightarrow> c \<in> {CHR '' '', CHR 0x09, CHR 0x0A, CHR 0x0B, CHR 0x0C, CHR 0x0D}"

definition sign_split :: "string \<Rightarrow> bool \<times> string" where
  "sign_split s = (case s of [] \<Rightarrow> (False, [])
     | c # s' \<Rightarrow> if c = CHR ''-'' then (True, s') else if c = CHR ''+'' then (False, s') else (False, s))"

definition read_int32 :: "int \<Rightarrow> istream \<Rightarrow> int \<times> istream" where
  "read_int32 old ss =
     (if is_eof ss \<or> is_fail ss then (old, ss\<lparr>is_fail := True\<rparr>)
      else let s = dropWhile is_space (is_rest ss) in
        if s = [] then (old, \<lparr>is_rest = [], is_eof = True, is_fail = True\<rparr>)
        else let (neg, s1) = sign_split s;
                 ds = takeWhile is_digit s1;
                 rest = dropWhile is_digit s1;
                 v = (if neg then - int (digits_value ds) else int (digits_value ds)) in
          if ds = [] then (0, \<lparr>is_rest = rest, is_eof = rest = [], is_fail = True\<rparr>)
          else if v < - (2 ^ 31) then (- (2 ^ 31), \<lparr>is_rest = rest, is_eof = rest = [], is_fail = True\<rparr>)
          else if v \<ge> 2 ^ 31 then (2 ^ 31 - 1, \<lparr>is_rest = rest, is_eof = rest = [], is_fail = True\<rparr>)
          else (v, \<lparr>is_rest = rest, is_eof = rest = [], is_fail = False\<rparr>))"

section \<open>Hexadecimal text\<close>

definition hex_digit :: "nat \<Rightarrow> char" where
  "hex_digit n = (if n < 10 then char_of (48 + n) else char_of (87 + n))"

definition hex_value :: "char \<Rightarrow> nat option" where
  "hex_value c =
     (let n = (of_char c :: nat) in
      if 48 \<le> n \<and> n \<le> 57 then Some (n - 48)
      else if 97 \<le> n \<and> n \<le> 102 then Some (n - 87)
      else if 65 \<le> n \<and> n \<le> 70 then Some (n - 55)
      else None)"

definition ConvertBinaryToHexadecimal :: "string \<Rightarrow> string" where
  "ConvertBinaryToHexadecimal binary =
     concat (map (\<lambda>b. let n = (of_char b :: nat) in [hex_digit (n div 16), hex_digit (n mod 16)]) binary)"

text \<open>\<open>std::stoi(s, nullptr, 16)\<close> as \<open>strtol\<close> reads it: white space, a sign, an optional
  prefix \<open>0x\<close> that is followed by a digit, then as many digits as there are.\<close>

definition hex_digits :: "string \<Rightarrow> nat list" where
  "hex_digits s = map (\<lambda>c. the (hex_value c)) (takeWhile (\<lambda>c. hex_value c \<noteq> None) s)"

definition stoi16 :: "string \<Rightarrow> int result" where
  "stoi16 s =
     (let (neg, s1) = sign_split (dropWhile is_space s);
          s2 = (if length s1 > 2 \<and> s1 ! 0 = CHR ''0'' \<and> s1 ! 1 \<in> {CHR ''x'', CHR ''X''} \<and> hex_value (s1 ! 2) \<noteq> None
                then drop 2 s1 else s1);
          ds = hex_digits s2;
          m = foldl (\<lambda>v d. 16 * v + int d) 0 ds;
          v = (if neg then - m else m) in
      if ds = [] then Inl Invalid_argument
      else if int32 v then Inr v else Inl Out_of_range)"

fun hex_pairs :: "string \<Rightarrow> string result" where
  "hex_pairs (a # b # s) =
     bindE (stoi16 [a, b]) (\<lambda>n. bindE (hex_pairs s) (\<lambda>r. Inr (char_of (nat (n mod 256)) # r)))"
| "hex_pairs _ = Inr []"

definition DeserializeHexadecimal :: "string \<Rightarrow> string result" where
  "DeserializeHexadecimal s =
     bindE (ensure (even (length s)) ''Expected even number of characters'') (\<lambda>_. hex_pairs s)"

section \<open>Laws of the accessors\<close>

named_theorems json_simps \<open>reading of members out of an object\<close>

lemma ExtractField_object [json_simps]:
  "ExtractField get (J_object ms) name =
     (case map_of ms name of None \<Rightarrow> Inl (Runtime_error ''!document.HasMember(field_name)'')
      | Some v \<Rightarrow> get v)"
  by (simp add: ExtractField_def split: option.splits)

lemma ExtractOptionalField_object [json_simps]:
  "ExtractOptionalField get (J_object ms) name =
     (case map_of ms name of None \<Rightarrow> Inr None
      | Some v \<Rightarrow> (case get v of Inl _ \<Rightarrow> Inr None | Inr n \<Rightarrow> Inr (Some n)))"
  by (simp add: ExtractOptionalField_def split: option.splits)

lemmas extract_defs [json_simps] =
  ExtractStringField_def ExtractInt64Field_def ExtractInt32Field_def ExtractBooleanField_def
  ExtractOptionalInt32Field_def ExtractOptionalInt64Field_def ExtractStringMap_def

lemma omap_emplace_last:
  "\<forall>k' \<in> fst ` set m. k' < k \<Longrightarrow> omap_emplace k v m = m @ [(k, v)]"
  unfolding omap_emplace_def by (induction m) auto

text \<open>Reading back the entries of an ordered map in their order restores the map.\<close>

lemma foldE_emplace:
  assumes "omap (acc @ m)" "\<And>k v. (k, v) \<in> set m \<Longrightarrow> f (k, g k v) = Inr (k, v)"
  shows "foldE (\<lambda>x m. bindE (f x) (\<lambda>(k, v). Inr (omap_emplace k v m))) (map (\<lambda>(k, v). (k, g k v)) m) acc =
    Inr (acc @ m)"
  using assms
proof (induction m arbitrary: acc)
  case (Cons x m)
  obtain k v where x: "x = (k, v)" by (cases x)
  have "\<forall>k' \<in> fst ` set acc. k' < k"
    using Cons.prems(1) x by (auto simp: omap_def sorted_wrt_append)
  then have "omap_emplace k v acc = acc @ [(k, v)]" by (rule omap_emplace_last)
  moreover have "omap ((acc @ [(k, v)]) @ m)" using Cons.prems(1) x by simp
  ultimately show ?case using Cons.IH [of "acc @ [(k, v)]"] Cons.prems(2) x by simp
qed simp

definition no_nul :: "string \<Rightarrow> bool" where
  "no_nul s \<longleftrightarrow> CHR 0x00 \<notin> set s"

lemma c_str_id [simp]: "no_nul s \<Longrightarrow> c_str s = s"
  by (auto simp: no_nul_def c_str_def takeWhile_eq_all_conv)

definition string_map_ok :: "(string \<times> string) list \<Rightarrow> bool" where
  "string_map_ok m \<longleftrightarrow> omap m \<and> (\<forall>(k, v) \<in> set m. no_nul k \<and> no_nul v)"

lemma JsonToStringMap_roundtrip:
  assumes "string_map_ok m"
  shows "JsonToStringMap (J_object (map (\<lambda>(k, v). (k, J_string v)) m)) = Inr m"
proof -
  have "foldE (\<lambda>x m. bindE ((\<lambda>(name, v). bindE (GetString v) (\<lambda>s. Inr (c_str name, c_str s))) x)
      (\<lambda>(k, v). Inr (omap_emplace k v m))) (map (\<lambda>(k, v). (k, J_string v)) m) [] = Inr ([] @ m)"
    using assms by (intro foldE_emplace) (auto simp: string_map_ok_def)
  moreover have "(\<lambda>x m. bindE ((\<lambda>(name, v). bindE (GetString v) (\<lambda>s. Inr (c_str name, c_str s))) x)
      (\<lambda>(k, v). Inr (omap_emplace k v m))) =
      (\<lambda>(name, v) m. bindE (GetString v) (\<lambda>s. Inr (omap_emplace (c_str name) (c_str s) m)))"
    by (auto simp: fun_eq_iff bindE_def split: sum.splits)
  ultimately show ?thesis by simp
qed

section \<open>Numbers read back\<close>

lemma takeWhile_append_stop:
  "(\<And>c. c \<in> set s \<Longrightarrow> P c) \<Longrightarrow> r = [] \<or> \<not> P (hd r) \<Longrightarrow> takeWhile P (s @ r) = s"
  "(\<And>c. c \<in> set s \<Longrightarrow> P c) \<Longrightarrow> r = [] \<or> \<not> P (hd r) \<Longrightarrow> dropWhile P (s @ r) = r"
  by (induction s) (cases r; auto)+

lemma is_digit_not_space: "is_digit c \<Longrightarrow> \<not> is_space c"
  by (auto simp: is_digit_def is_space_def)

lemma read_int32_to_string:
  assumes "int32 n" "r = [] \<or> \<not> is_digit (hd r)" "\<forall>c \<in> set w. is_space c"
  shows "read_int32 old \<lparr>is_rest = w @ to_string n @ r, is_eof = False, is_fail = False\<rparr> =
    (n, \<lparr>is_rest = r, is_eof = (r = []), is_fail = False\<rparr>)"
proof -
  have sp: "\<not> is_space (CHR ''-'')" by (simp add: is_space_def)
  obtain c s where cs: "to_string n = c # s" "\<not> is_space c"
    using to_string_chars [of "hd (to_string n)" n] is_digit_not_space sp
    by (cases "to_string n") (auto simp: to_string_def split: if_splits)
  have dw: "dropWhile is_space (w @ to_string n @ r) = to_string n @ r"
    using takeWhile_append_stop(2) [of w is_space "to_string n @ r"] assms(3) cs by simp
  obtain neg ds where ds: "sign_split (to_string n @ r) = (neg, ds @ r)" "ds \<noteq> []" "\<forall>c \<in> set ds. is_digit c"
      "(if neg then - int (digits_value ds) else int (digits_value ds)) = n"
  proof (cases "n < 0")
    case True
    then show ?thesis
      using that [of True "nat_to_string (nat (- n))"] nat_to_string_digits
      by (auto simp: to_string_def sign_split_def)
  next
    case False
    obtain d ds where d: "nat_to_string (nat n) = d # ds" by (cases "nat_to_string (nat n)") auto
    have "is_digit d" using nat_to_string_digits [of d "nat n"] d by simp
    then have "d \<noteq> CHR ''-''" "d \<noteq> CHR ''+''" by (auto simp: is_digit_def)
    then have "sign_split (to_string n @ r) = (False, nat_to_string (nat n) @ r)"
      using False d by (simp add: to_string_def sign_split_def)
    then show ?thesis
      using that [of False "nat_to_string (nat n)"] nat_to_string_digits False by auto
  qed
  have tw: "takeWhile is_digit (ds @ r) = ds" "dropWhile is_digit (ds @ r) = r"
    using takeWhile_append_stop [of ds is_digit r] ds(3) assms(2) by auto
  have "to_string n @ r \<noteq> []" using cs(1) by simp
  then show ?thesis
    unfolding read_int32_def istream.simps dw Let_def ds(1) prod.case tw
    using assms(1) ds(2,4) by (simp add: int32_def)
qed

section \<open>Hexadecimal text read back\<close>

lemma hex_value_digit [simp]: "n < 16 \<Longrightarrow> hex_value (hex_digit n) = Some n"
  by (auto simp: hex_value_def hex_digit_def of_char_of)

lemma hex_digit_plain:
  assumes "n < 16"
  shows "\<not> is_space (hex_digit n)" "hex_digit n \<noteq> CHR ''-''" "hex_digit n \<noteq> CHR ''+''"
  using hex_value_digit [OF assms] by (auto simp: is_space_def hex_value_def)

lemma stoi16_pair:
  assumes "a < 16" "b < 16"
  shows "stoi16 [hex_digit a, hex_digit b] = Inr (int (16 * a + b))"
  using assms hex_digit_plain [OF assms(1)] hex_digit_plain [OF assms(2)]
  by (simp add: stoi16_def Let_def sign_split_def hex_digits_def int32_def)

lemma length_ConvertBinaryToHexadecimal [simp]:
  "length (ConvertBinaryToHexadecimal s) = 2 * length s"
  by (induction s) (simp_all add: ConvertBinaryToHexadecimal_def Let_def)

lemma hexadecimal_roundtrip: "DeserializeHexadecimal (ConvertBinaryToHexadecimal s) = Inr s"
proof -
  have "hex_pairs (ConvertBinaryToHexadecimal s) = Inr s"
  proof (induction s)
    case (Cons c s)
    have c: "(of_char c :: nat) < 256" by (metis of_char_mod_256 mod_less_divisor zero_less_numeral)
    then have "stoi16 [hex_digit (of_char c div 16), hex_digit (of_char c mod 16)] = Inr (int (of_char c))"
      using stoi16_pair [of "of_char c div 16" "of_char c mod 16"] by (simp add: less_mult_imp_div_less)
    then show ?case using Cons c by (simp add: ConvertBinaryToHexadecimal_def Let_def nat_mod_distrib)
  qed (simp add: ConvertBinaryToHexadecimal_def)
  then show ?thesis by (simp add: DeserializeHexadecimal_def)
qed

end
