(* ===== verification/Puffin.thy ===== *)
theory Puffin
  imports Json
begin

text \<open>
  Puffin files (\<open>puffin.h\<close>, \<open>puffin.cpp\<close>): a magic word, the blobs, and a footer of magic,
  JSON payload, payload size, flags and magic.  The builder, the two readers of the footer
  (from a string and from a random access file), the JSON form of the footer and the access
  to blobs are modelled on byte strings.  Printing and parsing of JSON text belong to
  rapidjson and are the parameters \<open>print\<close> and \<open>parse\<close>; a parse that fails leaves a null
  document.  A random access file of Arrow is its two operations.
\<close>

section \<open>Data\<close>

definition kPuffinMagicBytes :: string where
  "kPuffinMagicBytes = ''PFA1''"

record puffin_blob =
  pb_type :: string
  pb_fields :: "int list"
  pb_snapshot_id :: int
  pb_sequence_number :: int
  pb_offset :: int
  pb_length :: int
  pb_compression_codec :: "string option"
  pb_properties :: "(string \<times> string) list"

record deserialized_footer =
  df_blobs :: "puffin_blob list"
  df_properties :: "(string \<times> string) list"

text \<open>The footer object: its payload and the cache of the deserialized form.\<close>

record puffin_footer =
  pf_payload :: string
  pf_cache :: "deserialized_footer option"

record puffin_file =
  pu_data :: string
  pu_footer :: puffin_footer

definition Footer :: "string \<Rightarrow> puffin_footer" where
  "Footer payload = \<lparr>pf_payload = payload, pf_cache = None\<rparr>"

section \<open>The JSON form of the footer\<close>

definition Serialize_string :: "string \<Rightarrow> json" where
  "Serialize_string s = J_string (c_str s)"

definition Serialize_optional :: "('a \<Rightarrow> json) \<Rightarrow> 'a option \<Rightarrow> json" where
  "Serialize_optional f v = (case v of None \<Rightarrow> J_null | Some x \<Rightarrow> f x)"

definition Serialize_vector :: "('a \<Rightarrow> json) \<Rightarrow> 'a list \<Rightarrow> json" where
  "Serialize_vector f arr = J_array (map f arr)"

definition AddMember :: "members \<Rightarrow> string \<Rightarrow> json \<Rightarrow> members" where
  "AddMember result key v = result @ [(c_str key, v)]"

definition Serialize_map :: "(string \<times> string) list \<Rightarrow> json" where
  "Serialize_map props =
     J_object (fold (\<lambda>(key, v) result. AddMember result key (Serialize_string v)) props [])"

definition Serialize_blob :: "puffin_blob \<Rightarrow> json" where
  "Serialize_blob blob =
     (let result = [];
          result = AddMember result ''fields'' (Serialize_vector J_int (pb_fields blob));
          result = AddMember result ''type'' (Serialize_string (pb_type blob));
          result = AddMember result ''compression-codec''
                     (Serialize_optional Serialize_string (pb_compression_codec blob));
          result = AddMember result ''length'' (J_int (pb_length blob));
          result = AddMember result ''offset'' (J_int (pb_offset blob));
          result = AddMember result ''properties'' (Serialize_map (pb_properties blob));
          result = AddMember result ''sequence-number'' (J_int (pb_sequence_number blob));
          result = AddMember result ''snapshot-id'' (J_int (pb_snapshot_id blob))
      in J_object result)"

definition Serialize_footer :: "deserialized_footer \<Rightarrow> json" where
  "Serialize_footer footer =
     (let result = AddMember [] ''blobs'' (Serialize_vector Serialize_blob (df_blobs footer));
          result = AddMember result ''properties'' (Serialize_map (df_properties footer))
      in J_object result)"

definition CreateFooter :: "(json \<Rightarrow> string) \<Rightarrow> deserialized_footer \<Rightarrow> string" where
  "CreateFooter print footer = c_str (print (Serialize_footer footer))"

fun Deserialize_int32 :: "json \<Rightarrow> int result" where
  "Deserialize_int32 (J_int n) =
     (if int32 n then Inr n else Inl (Runtime_error ''Deserialize (primitive): wrong type''))"
| "Deserialize_int32 _ = Inl (Runtime_error ''Deserialize (primitive): wrong type'')"

fun Deserialize_int64 :: "json \<Rightarrow> int result" where
  "Deserialize_int64 (J_int n) =
     (if int64 n then Inr n else Inl (Runtime_error ''Deserialize (primitive): wrong type''))"
| "Deserialize_int64 _ = Inl (Runtime_error ''Deserialize (primitive): wrong type'')"

fun Deserialize_string :: "json \<Rightarrow> string result" where
  "Deserialize_string (J_string s) = Inr s"
| "Deserialize_string _ = Inl (Runtime_error ''Deserialize (string): wrong type'')"

fun Deserialize_optional :: "(json \<Rightarrow> 'a result) \<Rightarrow> json \<Rightarrow> 'a option result" where
  "Deserialize_optional f J_null = Inr None"
| "Deserialize_optional f document = bindE (f document) (\<lambda>x. Inr (Some x))"

fun Deserialize_vector :: "(json \<Rightarrow> 'a result) \<Rightarrow> json \<Rightarrow> 'a list result" where
  "Deserialize_vector f (J_array elements) = mapE f elements"
| "Deserialize_vector f _ = Inl (Runtime_error ''Deserialize (array): wrong type'')"

definition Extract :: "(json \<Rightarrow> 'a result) \<Rightarrow> json \<Rightarrow> string \<Rightarrow> 'a result" where
  "Extract f document field_name =
     bindE (HasMember document field_name) (\<lambda>has.
     bindE (ensure has ''ExtractPrimitive: !document.HasMember(field_name)'') (\<lambda>_.
     bindE (member_at document field_name) f))"

definition Extract_optional :: "(json \<Rightarrow> 'a result) \<Rightarrow> json \<Rightarrow> string \<Rightarrow> 'a option result" where
  "Extract_optional f document field_name =
     bindE (HasMember document field_name) (\<lambda>has.
       if \<not> has then Inr None
       else bindE (member_at document field_name) (Deserialize_optional f))"

text \<open>Members that are no strings are skipped.\<close>

fun Deserialize_map :: "json \<Rightarrow> (string \<times> string) list result" where
  "Deserialize_map (J_object ms) =
     Inr (fold (\<lambda>(name, v) result.
       case v of J_string s \<Rightarrow> omap_emplace (c_str name) (c_str s) result | _ \<Rightarrow> result) ms [])"
| "Deserialize_map _ = Inl (Runtime_error ''Deserialize'')"

definition Deserialize_blob :: "json \<Rightarrow> puffin_blob result" where
  "Deserialize_blob document =
     bindE (ensure (IsObject document) ''Deserialize'') (\<lambda>_.
     bindE (Extract Deserialize_string document ''type'') (\<lambda>ty.
     bindE (Extract (Deserialize_vector Deserialize_int32) document ''fields'') (\<lambda>fs.
     bindE (Extract Deserialize_int64 document ''snapshot-id'') (\<lambda>snapshot_id.
     bindE (Extract Deserialize_int64 document ''sequence-number'') (\<lambda>sequence_number.
     bindE (Extract Deserialize_int64 document ''offset'') (\<lambda>offset.
     bindE (Extract Deserialize_int64 document ''length'') (\<lambda>len.
     bindE (Extract_optional Deserialize_string document ''compression-codec'') (\<lambda>codec.
     bindE (Extract Deserialize_map document ''properties'') (\<lambda>properties.
     Inr \<lparr>pb_type = ty, pb_fields = fs, pb_snapshot_id = snapshot_id,
          pb_sequence_number = sequence_number, pb_offset = offset, pb_length = len,
          pb_compression_codec = codec, pb_properties = properties\<rparr>)))))))))"

definition Deserialize_footer :: "json \<Rightarrow> deserialized_footer result" where
  "Deserialize_footer document =
     bindE (ensure (IsObject document) ''Deserialize'') (\<lambda>_.
     bindE (Extract (Deserialize_vector Deserialize_blob) document ''blobs'') (\<lambda>blobs.
     bindE (Extract Deserialize_map document ''properties'') (\<lambda>properties.
     Inr \<lparr>df_blobs = blobs, df_properties = properties\<rparr>)))"

section \<open>Reading\<close>

definition int_of_bytes32 :: "string \<Rightarrow> int" where
  "int_of_bytes32 s = (let n = int (le_value s) in if n < 2 ^ 31 then n else n - 2 ^ 32)"

definition ParseTrailerView :: "string \<Rightarrow> int result" where
  "ParseTrailerView trailer =
     (if length trailer < 12 then Inl (Execution_error ''Failed to read Puffin trailer'')
      else if take 4 (drop 8 trailer) \<noteq> kPuffinMagicBytes then
        Inl (Execution_error ''PuffinFile is incorrect: magic bytes after footer are incorrect'')
      else if odd (le_value (take 4 (drop 4 trailer))) then
        Inl (Execution_error ''Compressed puffin files are not supported yet'')
      else Inr (int_of_bytes32 (take 4 trailer)))"

definition ExtractPayload :: "string \<Rightarrow> string result" where
  "ExtractPayload payload_with_magic =
     (if length payload_with_magic < 4 \<or> take 4 payload_with_magic \<noteq> kPuffinMagicBytes then
        Inl (Execution_error ''PuffinFile is incorrect: magic bytes before footer are incorrect'')
      else Inr (drop 4 payload_with_magic))"

text \<open>
  The sum of an \<open>int\<close> and the payload size is an \<open>int\<close>; its overflow is undefined.  A negative
  payload size becomes a number close to \<open>2 ^ 64\<close> when it is cast to \<open>size_t\<close>, and a
  negative count of characters takes the rest of the string.
\<close>

definition MakeFooter :: "string \<Rightarrow> puffin_footer result" where
  "MakeFooter data =
     (if length data < 16 then Inl (Execution_error ''PuffinFile is incorrect: file is too small'')
      else bindE (ParseTrailerView (drop (length data - 12) data)) (\<lambda>footer_payload_size.
        if int (length data) < (16 + footer_payload_size mod 2 ^ 64) mod 2 ^ 64 then
          Inl (Execution_error ''PuffinFile is incorrect: file is too small'')
        else if \<not> int32 (16 + footer_payload_size) then Inl (Undefined ''signed overflow'')
        else
          let rest = drop (length data - nat (16 + footer_payload_size)) data;
              payload_with_magic =
                (if 4 + footer_payload_size < 0 then rest else take (nat (4 + footer_payload_size)) rest) in
          bindE (ExtractPayload payload_with_magic) (\<lambda>footer_payload. Inr (Footer footer_payload))))"

definition Make :: "string \<Rightarrow> puffin_file result" where
  "Make data =
     (if length data < 4 then Inl (Execution_error ''PuffinFile is incorrect: file is too small'')
      else if take 4 data \<noteq> kPuffinMagicBytes then
        Inl (Execution_error ''PuffinFile is incorrect: magic bytes are incorrect'')
      else bindE (MakeFooter data) (\<lambda>footer. Inr \<lparr>pu_data = data, pu_footer = footer\<rparr>))"

record random_access_file =
  GetSize :: "int result"
  ReadAt :: "int \<Rightarrow> int \<Rightarrow> string result"

definition ReadFooter :: "random_access_file \<Rightarrow> puffin_footer result" where
  "ReadFooter file =
     bindE (GetSize file) (\<lambda>file_size.
       if file_size < 16 then Inl (Execution_error ''PuffinFile is incorrect: file is too small'')
       else bindE (ReadAt file (file_size - 12) 12) (\<lambda>trailer_buffer.
       bindE (ParseTrailerView trailer_buffer) (\<lambda>footer_payload_size.
         if \<not> int32 (16 + footer_payload_size) then Inl (Undefined ''signed overflow'')
         else if file_size < 16 + footer_payload_size then
           Inl (Execution_error ''PuffinFile is incorrect: file is too small'')
         else
           bindE (ReadAt file (file_size - 16 - footer_payload_size) (4 + footer_payload_size)) (\<lambda>payload_buffer.
           bindE (ExtractPayload payload_buffer) (\<lambda>footer_payload. Inr (Footer footer_payload))))))"

section \<open>Access to the footer and the blobs\<close>

text \<open>The first access parses the payload and fills the cache.\<close>

definition GetDeserializedFooter ::
    "(string \<Rightarrow> json option) \<Rightarrow> puffin_footer \<Rightarrow> (deserialized_footer \<times> puffin_footer) result" where
  "GetDeserializedFooter parse f =
     (case pf_cache f of
        Some d \<Rightarrow> Inr (d, f)
      | None \<Rightarrow>
          let document = (case parse (pf_payload f) of None \<Rightarrow> J_null | Some j \<Rightarrow> j) in
          bindE (Deserialize_footer document) (\<lambda>d. Inr (d, f\<lparr>pf_cache := Some d\<rparr>)))"

definition GetBlobsCount :: "(string \<Rightarrow> json option) \<Rightarrow> puffin_footer \<Rightarrow> (nat \<times> puffin_footer) result" where
  "GetBlobsCount parse f =
     bindE (GetDeserializedFooter parse f) (\<lambda>(footer, f'). Inr (length (df_blobs footer), f'))"

definition GetBlobMetadata ::
    "(string \<Rightarrow> json option) \<Rightarrow> nat \<Rightarrow> puffin_footer \<Rightarrow> (puffin_blob \<times> puffin_footer) result" where
  "GetBlobMetadata parse blob_number f =
     bindE (GetDeserializedFooter parse f) (\<lambda>(footer, f').
     bindE (ensure (blob_number < length (df_blobs footer)) ''requested blob number does not exist'') (\<lambda>_.
     Inr (df_blobs footer ! blob_number, f')))"

text \<open>\<open>offset + length\<close> of two 64-bit integers may overflow, which is undefined.\<close>

definition GetBlob :: "(string \<Rightarrow> json option) \<Rightarrow> nat \<Rightarrow> puffin_file \<Rightarrow> (string \<times> puffin_file) result" where
  "GetBlob parse blob_number file =
     bindE (GetBlobMetadata parse blob_number (pu_footer file)) (\<lambda>(blob_meta, f').
       let offset = pb_offset blob_meta; len = pb_length blob_meta in
       if 0 \<le> offset \<and> 0 \<le> len \<and> \<not> int64 (offset + len) then Inl (Undefined ''signed overflow'')
       else
         bindE (ensure (0 \<le> offset \<and> 0 \<le> len \<and> offset + len < int (length (pu_data file)))
           ''unexpected blob request'') (\<lambda>_.
         Inr (take (nat len) (drop (nat offset) (pu_data file)), file\<lparr>pu_footer := f'\<rparr>)))"

section \<open>The builder\<close>

record puffin_builder_blob =
  bb_data :: string
  bb_properties :: "(string \<times> string) list"
  bb_fields :: "int list"
  bb_type :: string

record puffin_builder =
  bu_blobs :: "puffin_builder_blob list"
  bu_sequence_number :: "int option"
  bu_snapshot_id :: "int option"

definition PuffinFileBuilder :: puffin_builder where
  "PuffinFileBuilder = \<lparr>bu_blobs = [], bu_sequence_number = None, bu_snapshot_id = None\<rparr>"

definition SetSequenceNumber :: "int \<Rightarrow> puffin_builder \<Rightarrow> puffin_builder" where
  "SetSequenceNumber n b = b\<lparr>bu_sequence_number := Some n\<rparr>"

definition SetSnapshotId :: "int \<Rightarrow> puffin_builder \<Rightarrow> puffin_builder" where
  "SetSnapshotId n b = b\<lparr>bu_snapshot_id := Some n\<rparr>"

definition AppendBlob ::
    "string \<Rightarrow> (string \<times> string) list \<Rightarrow> int list \<Rightarrow> string \<Rightarrow> puffin_builder \<Rightarrow> puffin_builder" where
  "AppendBlob blob_data properties fs blob_type b =
     b\<lparr>bu_blobs := bu_blobs b @
       [\<lparr>bb_data = blob_data, bb_properties = properties, bb_fields = fs, bb_type = blob_type\<rparr>]\<rparr>"

definition build_blob :: "int \<Rightarrow> int \<Rightarrow> puffin_builder_blob \<Rightarrow> string \<times> puffin_blob list \<Rightarrow> string \<times> puffin_blob list" where
  "build_blob sequence_number snapshot_id blob st =
     (case st of (result, blob_meta) \<Rightarrow>
       (result @ bb_data blob,
        blob_meta @
          [\<lparr>pb_type = bb_type blob, pb_fields = bb_fields blob, pb_snapshot_id = snapshot_id,
            pb_sequence_number = sequence_number, pb_offset = int (length result),
            pb_length = int (length (bb_data blob)), pb_compression_codec = None,
            pb_properties = bb_properties blob\<rparr>]))"

definition build_bytes :: "(json \<Rightarrow> string) \<Rightarrow> puffin_builder_blob list \<Rightarrow> int \<Rightarrow> int \<Rightarrow> string" where
  "build_bytes print blobs sequence_number snapshot_id =
     (let (result, blob_meta) = fold (build_blob sequence_number snapshot_id) blobs (kPuffinMagicBytes, []);
          result = result @ kPuffinMagicBytes;
          footer = CreateFooter print \<lparr>df_blobs = blob_meta, df_properties = [(''created-by'', ''iceberg-cpp'')]\<rparr>;
          result = result @ footer;
          result = result @ le_bytes 4 (length footer mod 2 ^ 32);
          result = result @ ''0000''
      in result @ kPuffinMagicBytes)"

definition puffin_Build :: "(json \<Rightarrow> string) \<Rightarrow> puffin_builder \<Rightarrow> puffin_file result" where
  "puffin_Build print b =
     bindE (ensure (bu_blobs b \<noteq> []) ''PuffinFileBuilder: building puffin file without blobs is not supported'') (\<lambda>_.
     bindE (ensure (bu_sequence_number b \<noteq> None) ''PuffinFileBuilder: sequence_number is not set'') (\<lambda>_.
     bindE (ensure (bu_snapshot_id b \<noteq> None) ''PuffinFileBuilder: snapshot_id is not set'') (\<lambda>_.
       case Make (build_bytes print (bu_blobs b) (the (bu_sequence_number b)) (the (bu_snapshot_id b))) of
         Inl e \<Rightarrow> Inl (Runtime_error ''PuffinFile::Make'')
       | Inr file \<Rightarrow> Inr file)))"

section \<open>The JSON form is read back\<close>

lemma fold_AddMember:
  "fold (\<lambda>(key, v) result. AddMember result key (Serialize_string v)) props acc =
     acc @ map (\<lambda>(k, v). (c_str k, J_string (c_str v))) props"
  by (induction props arbitrary: acc) (auto simp: AddMember_def Serialize_string_def)

lemma fold_omap_emplace:
  "omap (acc @ m) \<Longrightarrow> fold (\<lambda>(k, v) r. omap_emplace k v r) m acc = acc @ m"
proof (induction m arbitrary: acc)
  case (Cons x m)
  obtain k v where x: "x = (k, v)" by (cases x)
  have "\<forall>k' \<in> fst ` set acc. k' < k"
    using Cons.prems x by (auto simp: omap_def sorted_wrt_append)
  then have "omap_emplace k v acc = acc @ [(k, v)]" by (rule omap_emplace_last)
  moreover have "omap ((acc @ [(k, v)]) @ m)" using Cons.prems x by simp
  ultimately show ?case using Cons.IH [of "acc @ [(k, v)]"] x by simp
qed simp

lemma Deserialize_map_roundtrip [simp]:
  assumes "string_map_ok m"
  shows "Deserialize_map (Serialize_map m) = Inr m"
proof -
  have ids: "map (\<lambda>(k, v). (c_str k, J_string (c_str v))) m = map (\<lambda>(k, v). (k, J_string v)) m"
    using assms by (auto simp: string_map_ok_def)
  have "fold (\<lambda>(name, v) result. case v of J_string s \<Rightarrow> omap_emplace (c_str name) (c_str s) result | _ \<Rightarrow> result)
      (map (\<lambda>(k, v). (k, J_string v)) m) acc = fold (\<lambda>(k, v) r. omap_emplace (c_str k) (c_str v) r) m acc" for acc
    by (induction m arbitrary: acc) auto
  also have "\<dots> acc = fold (\<lambda>(k, v) r. omap_emplace k v r) m acc" for acc
    using assms by (intro fold_cong) (auto simp: string_map_ok_def)
  finally have "fold (\<lambda>(name, v) result. case v of J_string s \<Rightarrow> omap_emplace (c_str name) (c_str s) result | _ \<Rightarrow> result)
      (map (\<lambda>(k, v). (k, J_string v)) m) [] = [] @ m"
    using fold_omap_emplace [of "[]" m] assms by (simp add: string_map_ok_def)
  then show ?thesis by (simp add: Serialize_map_def fold_AddMember ids)
qed

definition puffin_blob_ok :: "puffin_blob \<Rightarrow> bool" where
  "puffin_blob_ok b \<longleftrightarrow>
     no_nul (pb_type b) \<and> list_all int32 (pb_fields b) \<and> int64 (pb_snapshot_id b) \<and>
     int64 (pb_sequence_number b) \<and> int64 (pb_offset b) \<and> int64 (pb_length b) \<and>
     pred_option no_nul (pb_compression_codec b) \<and> string_map_ok (pb_properties b)"

lemma Extract_object [simp]:
  "Extract f (J_object ms) name =
     (case map_of ms name of None \<Rightarrow> Inl (Runtime_error ''ExtractPrimitive: !document.HasMember(field_name)'')
      | Some v \<Rightarrow> f v)"
  by (simp add: Extract_def split: option.splits)

lemma Extract_optional_object [simp]:
  "Extract_optional f (J_object ms) name =
     (case map_of ms name of None \<Rightarrow> Inr None | Some v \<Rightarrow> Deserialize_optional f v)"
  by (simp add: Extract_optional_def split: option.splits)

lemma Deserialize_vector_roundtrip:
  assumes "\<And>x. x \<in> set xs \<Longrightarrow> f (g x) = Inr x"
  shows "Deserialize_vector f (Serialize_vector g xs) = Inr xs"
proof -
  have "mapE f (map g xs) = Inr xs"
    using assms by (induction xs) auto
  then show ?thesis by (simp add: Serialize_vector_def)
qed

lemma c_str_literals:
  "c_str ''fields'' = ''fields''" "c_str ''type'' = ''type''"
  "c_str ''compression-codec'' = ''compression-codec''" "c_str ''length'' = ''length''"
  "c_str ''offset'' = ''offset''" "c_str ''properties'' = ''properties''"
  "c_str ''sequence-number'' = ''sequence-number''" "c_str ''snapshot-id'' = ''snapshot-id''"
  "c_str ''blobs'' = ''blobs''"
  by (simp_all add: c_str_def)

lemma Deserialize_blob_roundtrip:
  assumes "puffin_blob_ok b"
  shows "Deserialize_blob (Serialize_blob b) = Inr b"
proof -
  have "Deserialize_vector Deserialize_int32 (Serialize_vector J_int (pb_fields b)) = Inr (pb_fields b)"
    using assms by (intro Deserialize_vector_roundtrip) (auto simp: puffin_blob_ok_def list_all_iff)
  then show ?thesis
    using assms
    by (cases b; cases "pb_compression_codec b")
      (simp_all add: Deserialize_blob_def Serialize_blob_def AddMember_def IsObject_def
        Serialize_optional_def Serialize_string_def c_str_literals puffin_blob_ok_def)
qed

definition puffin_footer_ok :: "deserialized_footer \<Rightarrow> bool" where
  "puffin_footer_ok d \<longleftrightarrow> list_all puffin_blob_ok (df_blobs d) \<and> string_map_ok (df_properties d)"

lemma Deserialize_footer_roundtrip:
  assumes "puffin_footer_ok d"
  shows "Deserialize_footer (Serialize_footer d) = Inr d"
proof -
  have "Deserialize_vector Deserialize_blob (Serialize_vector Serialize_blob (df_blobs d)) = Inr (df_blobs d)"
    using assms by (intro Deserialize_vector_roundtrip Deserialize_blob_roundtrip)
      (auto simp: puffin_footer_ok_def list_all_iff)
  then show ?thesis
    using assms by (cases d)
      (simp add: Deserialize_footer_def Serialize_footer_def AddMember_def IsObject_def c_str_literals
        puffin_footer_ok_def)
qed

section \<open>The bytes are read back\<close>

lemma length_magic [simp]: "length kPuffinMagicBytes = 4"
  by (simp add: kPuffinMagicBytes_def)

lemma int_of_bytes32_le_bytes: "n < 2 ^ 31 \<Longrightarrow> int_of_bytes32 (le_bytes 4 n) = int n"
  using le_value_bytes [of n 4] by (simp add: int_of_bytes32_def Let_def)

lemma ParseTrailerView_bound:
  assumes "ParseTrailerView tr = Inr n"
  shows "n < 2 ^ 31"
proof -
  have "le_value (take 4 tr) < 256 ^ 4"
    using le_value_bound [of "take 4 tr"] assms by (auto simp: ParseTrailerView_def split: if_splits)
  then show ?thesis
    using assms by (auto simp: ParseTrailerView_def int_of_bytes32_def Let_def split: if_splits)
qed

text \<open>A string that ends in a well-formed footer with the given payload.\<close>

definition puffin_tail :: "string \<Rightarrow> string" where
  "puffin_tail footer =
     kPuffinMagicBytes @ footer @ le_bytes 4 (length footer) @ ''0000'' @ kPuffinMagicBytes"

lemma length_puffin_tail [simp]: "length (puffin_tail footer) = length footer + 16"
  by (simp add: puffin_tail_def)

lemma ParseTrailerView_tail:
  assumes "length footer < 2 ^ 31"
  shows "ParseTrailerView (le_bytes 4 (length footer) @ ''0000'' @ kPuffinMagicBytes) = Inr (int (length footer))"
  using assms by (simp add: ParseTrailerView_def int_of_bytes32_le_bytes)

lemma drop_puffin_tail:
  "drop (length (pre @ puffin_tail footer) - 12) (pre @ puffin_tail footer) =
     le_bytes 4 (length footer) @ ''0000'' @ kPuffinMagicBytes"
proof -
  have "length (pre @ puffin_tail footer) - 12 = length (pre @ kPuffinMagicBytes @ footer)" by simp
  moreover have "pre @ puffin_tail footer =
      (pre @ kPuffinMagicBytes @ footer) @ le_bytes 4 (length footer) @ ''0000'' @ kPuffinMagicBytes"
    by (simp add: puffin_tail_def)
  ultimately show ?thesis by (metis append_eq_conv_conj)
qed

lemma ExtractPayload_magic [simp]: "ExtractPayload (kPuffinMagicBytes @ footer) = Inr footer"
  by (simp add: ExtractPayload_def)

lemma MakeFooter_tail:
  assumes "length footer + 16 < 2 ^ 31"
  shows "MakeFooter (pre @ puffin_tail footer) = Inr (Footer footer)"
proof -
  have sz: "(16 + int (length footer) mod 2 ^ 64) mod 2 ^ 64 = 16 + int (length footer)"
    using assms by simp
  have i32: "int32 (16 + int (length footer))" using assms by (simp add: int32_def)
  have n: "length (pre @ puffin_tail footer) - nat (16 + int (length footer)) = length pre" by simp
  have t: "take (nat (4 + int (length footer))) (puffin_tail footer) = kPuffinMagicBytes @ footer"
    by (simp add: puffin_tail_def nat_add_distrib)
  have "ParseTrailerView (drop (length (pre @ puffin_tail footer) - 12) (pre @ puffin_tail footer)) =
      Inr (int (length footer))"
    unfolding drop_puffin_tail using assms ParseTrailerView_tail [of footer] by simp
  then show ?thesis
    unfolding MakeFooter_def using sz i32 t by (simp add: n Let_def)
qed

text \<open>A random access file over the given bytes, as \<open>arrow::io::BufferReader\<close> is one.\<close>

definition reads_from :: "random_access_file \<Rightarrow> string \<Rightarrow> bool" where
  "reads_from file data \<longleftrightarrow> GetSize file = Inr (int (length data)) \<and>
     (\<forall>pos n. 0 \<le> pos \<longrightarrow> 0 \<le> n \<longrightarrow> pos + n \<le> int (length data) \<longrightarrow>
        ReadAt file pos n = Inr (take (nat n) (drop (nat pos) data)))"

definition buffer_reader :: "string \<Rightarrow> random_access_file" where
  "buffer_reader data =
     \<lparr>GetSize = Inr (int (length data)),
      ReadAt = (\<lambda>pos n. if pos < 0 \<or> n < 0 \<or> int (length data) < pos then Inl (Execution_error ''ReadAt'')
                        else Inr (take (nat n) (drop (nat pos) data)))\<rparr>"

lemma reads_from_buffer_reader [simp]: "reads_from (buffer_reader data) data"
  by (simp add: reads_from_def buffer_reader_def)

lemma ReadAt_reads_from:
  "reads_from file data \<Longrightarrow> 0 \<le> pos \<Longrightarrow> 0 \<le> n \<Longrightarrow> pos + n \<le> int (length data) \<Longrightarrow>
   ReadAt file pos n = Inr (take (nat n) (drop (nat pos) data))"
  by (simp add: reads_from_def)

lemma ReadFooter_MakeFooter:
  assumes "reads_from file data"
    and "\<And>n. ParseTrailerView (drop (length data - 12) data) = Inr n \<Longrightarrow> 0 \<le> n"
  shows "ReadFooter file = Inr f \<longleftrightarrow> MakeFooter data = Inr f"
proof (cases "length data < 16")
  case True
  then show ?thesis using assms(1) by (simp add: ReadFooter_def MakeFooter_def reads_from_def)
next
  case False
  let ?tr = "drop (length data - 12) data"
  have tr: "ReadAt file (int (length data) - 12) 12 = Inr ?tr"
    using ReadAt_reads_from [OF assms(1), of "int (length data) - 12" 12] False
    by (simp add: nat_diff_distrib)
  show ?thesis
  proof (cases "ParseTrailerView ?tr")
    case (Inr n)
    then have n: "0 \<le> n" "n < 2 ^ 31"
      using assms(2) ParseTrailerView_bound [OF Inr] by auto
    have w: "(16 + n mod 2 ^ 64) mod 2 ^ 64 = 16 + n" using n by simp
    have pl: "ReadAt file (int (length data) - 16 - n) (4 + n) =
        Inr (take (nat (4 + n)) (drop (length data - nat (16 + n)) data))"
      if "\<not> int (length data) < 16 + n"
    proof -
      have "nat (int (length data) - 16 - n) = length data - nat (16 + n)" using n that by linarith
      then show ?thesis
        using ReadAt_reads_from [OF assms(1), of "int (length data) - 16 - n" "4 + n"] n that by simp
    qed
    show ?thesis
      using assms(1) False Inr n w tr pl
      by (auto simp: ReadFooter_def MakeFooter_def reads_from_def Let_def int32_def)
  qed (use assms(1) False tr in \<open>simp add: ReadFooter_def MakeFooter_def reads_from_def\<close>)
qed

lemma ReadFooter_tail:
  assumes "length footer + 16 < 2 ^ 31" "reads_from file (pre @ puffin_tail footer)"
  shows "ReadFooter file = Inr (Footer footer)"
  using ReadFooter_MakeFooter [OF assms(2), of "Footer footer"] MakeFooter_tail [OF assms(1), of pre]
    drop_puffin_tail [of pre footer] ParseTrailerView_tail [of footer] assms(1) by auto

text \<open>
  The two readers of the footer agree: a random access file whose payload size is not
  negative has exactly the footer that \<open>MakeFooter\<close> finds in the same bytes.
\<close>

lemma ReadFooter_eq_MakeFooter:
  assumes "reads_from file data"
    and "\<And>n. ParseTrailerView (drop (length data - 12) data) = Inr n \<Longrightarrow> 0 \<le> n"
  shows "ReadFooter file = Inr f \<longleftrightarrow> MakeFooter data = Inr f"
  using assms by (rule ReadFooter_MakeFooter)

lemma ReadFooter_eq_MakeFooter_witness:
  "ReadFooter (buffer_reader (puffin_tail ''{}'')) = Inr (Footer ''{}'') \<longleftrightarrow>
   MakeFooter (puffin_tail ''{}'') = Inr (Footer ''{}'')"
proof (rule ReadFooter_eq_MakeFooter)
  fix n
  assume "ParseTrailerView (drop (length (puffin_tail ''{}'') - 12) (puffin_tail ''{}'')) = Inr n"
  then show "0 \<le> n"
    using drop_puffin_tail [of "[]" "''{}''"] ParseTrailerView_tail [of "''{}''"] by simp
qed simp_all

section \<open>What the builder writes\<close>

fun blob_metas :: "int \<Rightarrow> int \<Rightarrow> nat \<Rightarrow> puffin_builder_blob list \<Rightarrow> puffin_blob list" where
  "blob_metas seq snap off [] = []"
| "blob_metas seq snap off (blob # blobs) =
     \<lparr>pb_type = bb_type blob, pb_fields = bb_fields blob, pb_snapshot_id = snap,
      pb_sequence_number = seq, pb_offset = int off,
      pb_length = int (length (bb_data blob)), pb_compression_codec = None,
      pb_properties = bb_properties blob\<rparr> # blob_metas seq snap (off + length (bb_data blob)) blobs"

lemma fold_build_blob:
  "fold (build_blob seq snap) blobs (result, metas) =
     (result @ concat (map bb_data blobs), metas @ blob_metas seq snap (length result) blobs)"
  by (induction blobs arbitrary: result metas) (auto simp: build_blob_def)

lemma length_blob_metas [simp]: "length (blob_metas seq snap off blobs) = length blobs"
  by (induction blobs arbitrary: off) auto

lemma blob_metas_nth:
  "i < length blobs \<Longrightarrow> blob_metas seq snap off blobs ! i =
     \<lparr>pb_type = bb_type (blobs ! i), pb_fields = bb_fields (blobs ! i), pb_snapshot_id = snap,
      pb_sequence_number = seq, pb_offset = int (off + length (concat (map bb_data (take i blobs)))),
      pb_length = int (length (bb_data (blobs ! i))), pb_compression_codec = None,
      pb_properties = bb_properties (blobs ! i)\<rparr>"
proof (induction blobs arbitrary: off i)
  case (Cons b blobs)
  then show ?case by (cases i) auto
qed simp

definition build_footer :: "puffin_builder \<Rightarrow> deserialized_footer" where
  "build_footer b =
     \<lparr>df_blobs = blob_metas (the (bu_sequence_number b)) (the (bu_snapshot_id b)) 4 (bu_blobs b),
      df_properties = [(''created-by'', ''iceberg-cpp'')]\<rparr>"

lemma build_bytes_eq:
  assumes "length (CreateFooter print (build_footer b)) < 2 ^ 32"
  shows "build_bytes print (bu_blobs b) (the (bu_sequence_number b)) (the (bu_snapshot_id b)) =
    (kPuffinMagicBytes @ concat (map bb_data (bu_blobs b))) @ puffin_tail (CreateFooter print (build_footer b))"
  using assms by (simp add: build_bytes_def fold_build_blob build_footer_def puffin_tail_def Let_def)

text \<open>A blob of the builder lies between the blobs before it and those after it.\<close>

lemma blob_slice:
  assumes "i < length blobs"
  shows "take (length (bb_data (blobs ! i)))
      (drop (4 + length (concat (map bb_data (take i blobs))))
        ((kPuffinMagicBytes @ concat (map bb_data blobs)) @ rest)) = bb_data (blobs ! i)"
proof -
  have "blobs = take i blobs @ blobs ! i # drop (Suc i) blobs" using assms by (rule id_take_nth_drop)
  then have "concat (map bb_data blobs) =
      concat (map bb_data (take i blobs)) @ bb_data (blobs ! i) @ concat (map bb_data (drop (Suc i) blobs))"
    by (metis concat.simps(2) concat_append list.simps(9) map_append)
  then show ?thesis by simp
qed

lemma blob_inside:
  assumes "i < length blobs"
  shows "length (concat (map bb_data (take i blobs))) + length (bb_data (blobs ! i)) \<le>
    length (concat (map bb_data blobs))"
proof -
  have "concat (map bb_data blobs) = concat (map bb_data (take i blobs)) @ concat (map bb_data (drop i blobs))"
    by (metis append_take_drop_id concat_append map_append)
  moreover have "length (concat (map bb_data (drop i blobs))) \<ge> length (bb_data (blobs ! i))"
    using Cons_nth_drop_Suc [OF assms] by (metis concat.simps(2) le_add1 length_append list.simps(9))
  ultimately show ?thesis by simp
qed

lemma ReadAt_slice:
  assumes "reads_from file data" "off + len \<le> length data"
  shows "ReadAt file (int off) (int len) = Inr (take len (drop off data))"
  using ReadAt_reads_from [OF assms(1), of "int off" "int len"] assms(2) by simp

section \<open>Files of the builder\<close>

text \<open>What the text of a document has to satisfy: it is read back, and holds no zero byte.\<close>

definition text_ok :: "(json \<Rightarrow> string) \<Rightarrow> (string \<Rightarrow> json option) \<Rightarrow> json \<Rightarrow> bool" where
  "text_ok print parse j \<longleftrightarrow> parse (print j) = Some j \<and> no_nul (print j)"

definition builder_ok :: "puffin_builder \<Rightarrow> bool" where
  "builder_ok b \<longleftrightarrow> bu_blobs b \<noteq> [] \<and>
     (\<exists>n. bu_sequence_number b = Some n \<and> int64 n) \<and> (\<exists>n. bu_snapshot_id b = Some n \<and> int64 n) \<and>
     (\<forall>blob \<in> set (bu_blobs b). no_nul (bb_type blob) \<and> list_all int32 (bb_fields blob) \<and>
        string_map_ok (bb_properties blob))"

definition puffin_sizes_ok :: "(json \<Rightarrow> string) \<Rightarrow> puffin_builder \<Rightarrow> bool" where
  "puffin_sizes_ok print b \<longleftrightarrow>
     length (print (Serialize_footer (build_footer b))) + 16 < 2 ^ 31 \<and>
     4 + length (concat (map bb_data (bu_blobs b))) < 2 ^ 63"

lemma puffin_sizes_ok_offsets:
  assumes "4 + length (concat (map bb_data blobs)) < 2 ^ 63" "i < length blobs"
  shows "4 + length (concat (map bb_data (take i blobs))) + length (bb_data (blobs ! i)) < 2 ^ 63"
  using assms(1) blob_inside [OF assms(2)] by linarith

lemma build_footer_ok:
  assumes "builder_ok b" "puffin_sizes_ok print b"
  shows "puffin_footer_ok (build_footer b)"
proof -
  have "puffin_blob_ok (df_blobs (build_footer b) ! i)" if i: "i < length (bu_blobs b)" for i
    using puffin_sizes_ok_offsets [OF _ i] assms nth_mem [OF i]
    by (auto simp: build_footer_def blob_metas_nth [OF i] puffin_blob_ok_def builder_ok_def puffin_sizes_ok_def int64_def)
  then have "list_all puffin_blob_ok (df_blobs (build_footer b))"
    by (simp add: list_all_length build_footer_def)
  moreover have "string_map_ok (df_properties (build_footer b))"
    by (simp add: build_footer_def string_map_ok_def omap_def no_nul_def)
  ultimately show ?thesis by (simp add: puffin_footer_ok_def)
qed

text \<open>The file of a builder: its bytes, its footer and the contents of the footer.\<close>

lemma CreateFooter_text: "text_ok print parse (Serialize_footer d) \<Longrightarrow> CreateFooter print d = print (Serialize_footer d)"
  by (simp add: CreateFooter_def text_ok_def)

lemma puffin_Build_eq:
  assumes "builder_ok b" "puffin_sizes_ok print b" "text_ok print parse (Serialize_footer (build_footer b))"
  shows "puffin_Build print b =
    Inr \<lparr>pu_data = (kPuffinMagicBytes @ concat (map bb_data (bu_blobs b))) @
                     puffin_tail (print (Serialize_footer (build_footer b))),
         pu_footer = Footer (print (Serialize_footer (build_footer b)))\<rparr>"
proof -
  let ?t = "print (Serialize_footer (build_footer b))"
  have len: "length ?t + 16 < 2 ^ 31" using assms(2) by (simp add: puffin_sizes_ok_def)
  have bytes: "build_bytes print (bu_blobs b) (the (bu_sequence_number b)) (the (bu_snapshot_id b)) =
      (kPuffinMagicBytes @ concat (map bb_data (bu_blobs b))) @ puffin_tail ?t"
    using build_bytes_eq [of print b] CreateFooter_text [OF assms(3)] len by simp
  have "Make ((kPuffinMagicBytes @ concat (map bb_data (bu_blobs b))) @ puffin_tail ?t) =
      Inr \<lparr>pu_data = (kPuffinMagicBytes @ concat (map bb_data (bu_blobs b))) @ puffin_tail ?t,
           pu_footer = Footer ?t\<rparr>"
    using MakeFooter_tail [OF len, of "kPuffinMagicBytes @ concat (map bb_data (bu_blobs b))"]
    by (simp add: Make_def)
  then show ?thesis
    using assms(1) bytes by (auto simp: puffin_Build_def builder_ok_def)
qed

text \<open>A footer object whose cache, once filled, holds what the payload says.\<close>

definition footer_holds :: "(string \<Rightarrow> json option) \<Rightarrow> deserialized_footer \<Rightarrow> puffin_footer \<Rightarrow> bool" where
  "footer_holds parse d f \<longleftrightarrow>
     (\<exists>j. parse (pf_payload f) = Some j \<and> Deserialize_footer j = Inr d) \<and> (pf_cache f = None \<or> pf_cache f = Some d)"

lemma GetDeserializedFooter_holds:
  assumes "footer_holds parse d f"
  shows "\<exists>f'. GetDeserializedFooter parse f = Inr (d, f') \<and> footer_holds parse d f' \<and> pf_payload f' = pf_payload f"
  using assms by (auto simp: footer_holds_def GetDeserializedFooter_def Let_def)

lemma build_footer_holds:
  assumes "builder_ok b" "puffin_sizes_ok print b" "text_ok print parse (Serialize_footer (build_footer b))"
  shows "footer_holds parse (build_footer b) (Footer (print (Serialize_footer (build_footer b))))"
  using assms Deserialize_footer_roundtrip [OF build_footer_ok]
  by (auto simp: footer_holds_def Footer_def text_ok_def)

text \<open>A run of requests: the blobs in the order they are asked for.\<close>

definition GetBlobs :: "(string \<Rightarrow> json option) \<Rightarrow> nat list \<Rightarrow> puffin_file \<Rightarrow> (string list \<times> puffin_file) result" where
  "GetBlobs parse ns file =
     foldE (\<lambda>n (blobs, file). bindE (GetBlob parse n file) (\<lambda>(s, file'). Inr (blobs @ [s], file'))) ns ([], file)"

lemma GetBlobs_run:
  assumes "\<And>n f. n \<in> set ns \<Longrightarrow> I f \<Longrightarrow> \<exists>f'. GetBlob parse n f = Inr (g n, f') \<and> I f'" "I file"
  shows "\<exists>file'. GetBlobs parse ns file = Inr (map g ns, file') \<and> I file'"
proof -
  have "\<exists>file'. foldE (\<lambda>n (blobs, file). bindE (GetBlob parse n file) (\<lambda>(s, file'). Inr (blobs @ [s], file')))
      ns (acc, file) = Inr (acc @ map g ns, file') \<and> I file'" if "I file" for acc "file"
    using assms(1) that
  proof (induction ns arbitrary: acc "file")
    case (Cons n ns)
    obtain f' where f': "GetBlob parse n file = Inr (g n, f')" "I f'"
      using Cons.prems(1) [of n "file"] Cons.prems(2) by auto
    then show ?case using Cons.IH [of f' "acc @ [g n]"] Cons.prems(1) by fastforce
  qed simp
  from this [OF assms(2), of "[]"] show ?thesis by (simp add: GetBlobs_def)
qed

lemma GetBlob_build:
  assumes ok: "builder_ok b" "puffin_sizes_ok print b" and i: "i < length (bu_blobs b)"
    and data: "pu_data file = (kPuffinMagicBytes @ concat (map bb_data (bu_blobs b))) @ puffin_tail t"
    and holds: "footer_holds parse (build_footer b) (pu_footer file)"
  shows "\<exists>f'. GetBlob parse i file = Inr (bb_data (bu_blobs b ! i), file\<lparr>pu_footer := f'\<rparr>) \<and>
    footer_holds parse (build_footer b) f'"
proof -
  obtain f' where f': "GetDeserializedFooter parse (pu_footer file) = Inr (build_footer b, f')"
      "footer_holds parse (build_footer b) f'"
    using GetDeserializedFooter_holds [OF holds] by blast
  let ?off = "4 + length (concat (map bb_data (take i (bu_blobs b))))" and ?len = "length (bb_data (bu_blobs b ! i))"
  have bound: "?off + ?len < 2 ^ 63"
    using puffin_sizes_ok_offsets [OF _ i] ok(2) by (simp add: puffin_sizes_ok_def)
  have inside: "?off + ?len < length (pu_data file)"
    unfolding data using blob_inside [OF i] by simp
  have slice: "take ?len (drop ?off (pu_data file)) = bb_data (bu_blobs b ! i)"
    unfolding data by (rule blob_slice [OF i])
  have nat_off: "nat (4 + int (length (concat (map bb_data (take i (bu_blobs b)))))) = ?off" by (simp add: nat_add_distrib)
  have meta: "GetBlobMetadata parse i (pu_footer file) = Inr (df_blobs (build_footer b) ! i, f')"
    using f'(1) i by (simp add: GetBlobMetadata_def build_footer_def)
  have "GetBlob parse i file = Inr (bb_data (bu_blobs b ! i), file\<lparr>pu_footer := f'\<rparr>)"
    unfolding GetBlob_def meta bindE_Inr prod.case Let_def
    using bound inside slice nat_off by (simp add: build_footer_def blob_metas_nth [OF i] int64_def)
  then show ?thesis using f'(2) by blast
qed

text \<open>
  C31. A file the builder makes gives everything back: the footer, read from the string or
  from a random access file over the same bytes, describes one blob per appended blob with
  its type, fields and properties, and any sequence of requests for blobs returns exactly
  the data that was appended.
\<close>

theorem puffin_file_roundtrip:
  assumes "builder_ok b" "puffin_sizes_ok print b"
    and "text_ok print parse (Serialize_footer (build_footer b))"
  shows "\<exists>file. puffin_Build print b = Inr file \<and>
    (\<forall>raf. reads_from raf (pu_data file) \<longrightarrow> ReadFooter raf = Inr (pu_footer file)) \<and>
    (\<exists>f'. GetDeserializedFooter parse (pu_footer file) = Inr (build_footer b, f')) \<and>
    (\<forall>ns. (\<forall>n \<in> set ns. n < length (bu_blobs b)) \<longrightarrow>
       (\<exists>file'. GetBlobs parse ns file = Inr (map (\<lambda>n. bb_data (bu_blobs b ! n)) ns, file')))"
proof -
  let ?t = "print (Serialize_footer (build_footer b))"
  let ?pre = "kPuffinMagicBytes @ concat (map bb_data (bu_blobs b))"
  let ?file = "\<lparr>pu_data = ?pre @ puffin_tail ?t, pu_footer = Footer ?t\<rparr>"
  have len: "length ?t + 16 < 2 ^ 31" using assms(2) by (simp add: puffin_sizes_ok_def)
  have holds: "footer_holds parse (build_footer b) (Footer ?t)" using assms by (rule build_footer_holds)
  have "ReadFooter raf = Inr (Footer ?t)" if "reads_from raf (?pre @ puffin_tail ?t)" for raf
    using len that by (rule ReadFooter_tail)
  moreover have "\<exists>file'. GetBlobs parse ns ?file = Inr (map (\<lambda>n. bb_data (bu_blobs b ! n)) ns, file')"
    if "\<forall>n \<in> set ns. n < length (bu_blobs b)" for ns
    using GetBlobs_run [of ns "\<lambda>f. pu_data f = pu_data ?file \<and> footer_holds parse (build_footer b) (pu_footer f)"
        parse "\<lambda>n. bb_data (bu_blobs b ! n)" ?file] GetBlob_build [OF assms(1,2)] that holds
    by fastforce
  moreover have "\<exists>f'. GetDeserializedFooter parse (Footer ?t) = Inr (build_footer b, f')"
    using GetDeserializedFooter_holds [OF holds] by blast
  ultimately show ?thesis using puffin_Build_eq [OF assms] by force
qed

definition example_puffin :: puffin_builder where
  "example_puffin =
     AppendBlob ''second'' [(''cardinality'', ''2'')] [1, 2] ''deletion-vector-v1''
       (AppendBlob ''first'' [] [3] ''theta'' (SetSnapshotId 7 (SetSequenceNumber 5 PuffinFileBuilder)))"

definition example_puffin_print :: "json \<Rightarrow> string" where
  "example_puffin_print j = (if j = Serialize_footer (build_footer example_puffin) then ''footer'' else ''?'')"

definition example_puffin_parse :: "string \<Rightarrow> json option" where
  "example_puffin_parse s = (if s = ''footer'' then Some (Serialize_footer (build_footer example_puffin)) else None)"

lemma example_puffin_ok:
  "builder_ok example_puffin" "puffin_sizes_ok example_puffin_print example_puffin"
  "text_ok example_puffin_print example_puffin_parse (Serialize_footer (build_footer example_puffin))"
  by (simp_all add: builder_ok_def example_puffin_def AppendBlob_def SetSnapshotId_def SetSequenceNumber_def
      PuffinFileBuilder_def int64_def int32_def no_nul_def string_map_ok_def omap_def puffin_sizes_ok_def
      example_puffin_print_def text_ok_def example_puffin_parse_def)

theorem puffin_file_roundtrip_witness:
  "\<exists>file file'. puffin_Build example_puffin_print example_puffin = Inr file \<and>
     GetBlobs example_puffin_parse [1, 0, 1] file = Inr ([''second'', ''first'', ''second''], file')"
proof -
  obtain pfile where f: "puffin_Build example_puffin_print example_puffin = Inr pfile"
      "\<forall>ns. (\<forall>n \<in> set ns. n < length (bu_blobs example_puffin)) \<longrightarrow>
       (\<exists>file'. GetBlobs example_puffin_parse ns pfile = Inr (map (\<lambda>n. bb_data (bu_blobs example_puffin ! n)) ns, file'))"
    using puffin_file_roundtrip [OF example_puffin_ok] by blast
  from f(2) [rule_format, of "[1, 0, 1]"] f(1) show ?thesis
    by (auto simp: example_puffin_def AppendBlob_def SetSnapshotId_def SetSequenceNumber_def PuffinFileBuilder_def)
qed

end
