(* ===== verification/Deletion_Vector.thy ===== *)
theory Deletion_Vector
  imports Puffin
begin

text \<open>
  Deletion vectors (\<open>deletion_vector.h\<close>, \<open>deletion_vector.cpp\<close>) and their access through a
  file reader provider (\<open>common/fs/file_reader_provider_impl.h\<close>).  The bitmap of the Roaring
  library is a parameter: a record of the operations in use, with its documented behaviour
  (each operation acts on a set of 64-bit numbers) as the hypothesis \<open>roaring_ok\<close>; the checksum
  \<open>crc32\<close> of zlib is a parameter without any hypothesis.
\<close>

section \<open>The bitmap library\<close>

record 'b roaring_api =
  r_addChecked :: "64 word \<Rightarrow> 'b \<Rightarrow> bool \<times> 'b"
  r_removeChecked :: "64 word \<Rightarrow> 'b \<Rightarrow> bool \<times> 'b"
  r_contains :: "64 word \<Rightarrow> 'b \<Rightarrow> bool"
  r_addMany :: "64 word list \<Rightarrow> 'b \<Rightarrow> 'b"
  r_addRangeClosed :: "64 word \<Rightarrow> 64 word \<Rightarrow> 'b \<Rightarrow> 'b"
  r_removeRangeClosed :: "64 word \<Rightarrow> 64 word \<Rightarrow> 'b \<Rightarrow> 'b"
  r_clear :: "'b \<Rightarrow> 'b"
  r_isEmpty :: "'b \<Rightarrow> bool"
  r_maximum :: "'b \<Rightarrow> 64 word"
  r_minimum :: "'b \<Rightarrow> 64 word"
  r_rank :: "64 word \<Rightarrow> 'b \<Rightarrow> 64 word"
  r_begin_move :: "64 word \<Rightarrow> 'b \<Rightarrow> 64 word list"
  r_getSizeInBytes :: "'b \<Rightarrow> nat"
  r_shrinkToFit :: "'b \<Rightarrow> 'b"
  r_write :: "'b \<Rightarrow> string"
  r_readSafe :: "string \<Rightarrow> 'b option"

text \<open>
  The documented behaviour, for an abstraction of bitmaps to sets: an iterator moved to
  a value runs over the elements from there on in ascending order, \<open>rank\<close> counts the
  elements up to its argument, and a written bitmap is read back.
\<close>

definition roaring_ok :: "'b roaring_api \<Rightarrow> ('b \<Rightarrow> 64 word set) \<Rightarrow> bool" where
  "roaring_ok api elems \<longleftrightarrow>
     (\<forall>b x. fst (r_addChecked api x b) = (x \<notin> elems b)) \<and>
     (\<forall>b x. elems (snd (r_addChecked api x b)) = insert x (elems b)) \<and>
     (\<forall>b x. fst (r_removeChecked api x b) = (x \<in> elems b)) \<and>
     (\<forall>b x. elems (snd (r_removeChecked api x b)) = elems b - {x}) \<and>
     (\<forall>b x. r_contains api x b = (x \<in> elems b)) \<and>
     (\<forall>b x. r_rank api x b = of_nat (card {y \<in> elems b. y \<le> x})) \<and>
     (\<forall>b x. r_begin_move api x b = sorted_list_of_set {y \<in> elems b. x \<le> y}) \<and>
     (\<forall>b l r. elems (r_addRangeClosed api l r b) = elems b \<union> {l..r}) \<and>
     (\<forall>b l r. elems (r_removeRangeClosed api l r b) = elems b - {l..r}) \<and>
     (\<forall>b xs. elems (r_addMany api xs b) = elems b \<union> set xs) \<and>
     (\<forall>b. elems (r_clear api b) = {}) \<and>
     (\<forall>b. r_isEmpty api b = (elems b = {})) \<and>
     (\<forall>b. elems b \<noteq> {} \<longrightarrow> r_maximum api b = Max (elems b)) \<and>
     (\<forall>b. elems b \<noteq> {} \<longrightarrow> r_minimum api b = Min (elems b)) \<and>
     (\<forall>b. elems (r_shrinkToFit api b) = elems b) \<and>
     (\<forall>b. length (r_write api b) = r_getSizeInBytes api b) \<and>
     (\<forall>b. \<exists>b'. r_readSafe api (r_write api b) = Some b' \<and> elems b' = elems b)"

section \<open>State and byte order\<close>

record 'b deletion_vector =
  dv_bitmap :: 'b
  dv_properties :: "(string \<times> string) list"
  dv_fields :: "int list"

definition kMagicSequence :: string where
  "kMagicSequence = [CHR 0xD1, CHR 0xD3, CHR 0x39, CHR 0x64]"

definition kBlobType :: string where
  "kBlobType = ''deletion-vector-v1''"

definition kReferencedDataFile :: string where
  "kReferencedDataFile = ''referenced-data-file''"

definition kCardinality :: string where
  "kCardinality = ''cardinality''"

text \<open>Despite its name the function gives the most significant byte first.\<close>

definition UItoLittleEndianBytes :: "32 word \<Rightarrow> string" where
  "UItoLittleEndianBytes v = rev (word_bytes 4 v)"

definition GetLen :: "string \<Rightarrow> nat result" where
  "GetLen data =
     (let len = le_value (rev (take 4 data)) in
      bindE (ensure (len + 2 * 4 = length data) ''deletion vector blob's length doesn't match expected'') (\<lambda>_.
      Inr len))"

definition ValidateMagicSequence :: "string \<Rightarrow> unit result" where
  "ValidateMagicSequence data =
     ensure (take 4 (drop 4 data) = kMagicSequence) ''blob data contains wrong magic sequence''"

definition GetCheckSum :: "string \<Rightarrow> 32 word" where
  "GetCheckSum data = of_nat (le_value (rev (drop (length data - 4) data)))"

text \<open>\<open>std::stoull\<close>: white space, a sign, digits; a negative number wraps around.\<close>

definition stoull :: "string \<Rightarrow> 64 word result" where
  "stoull s =
     (let (neg, s1) = sign_split (dropWhile is_space s);
          ds = takeWhile is_digit s1;
          n = digits_value ds in
      if ds = [] then Inl Invalid_argument
      else if n \<ge> 2 ^ 64 then Inl Out_of_range
      else Inr (if neg then - of_nat n else of_nat n))"

section \<open>Operations\<close>

definition dv_Contains :: "'b roaring_api \<Rightarrow> 64 word \<Rightarrow> 'b deletion_vector \<Rightarrow> bool" where
  "dv_Contains api x dv = r_contains api x (dv_bitmap dv)"

definition dv_Add :: "'b roaring_api \<Rightarrow> 64 word \<Rightarrow> 'b deletion_vector \<Rightarrow> bool \<times> 'b deletion_vector" where
  "dv_Add api x dv = (case r_addChecked api x (dv_bitmap dv) of (c, b) \<Rightarrow> (c, dv\<lparr>dv_bitmap := b\<rparr>))"

definition dv_Remove :: "'b roaring_api \<Rightarrow> 64 word \<Rightarrow> 'b deletion_vector \<Rightarrow> bool \<times> 'b deletion_vector" where
  "dv_Remove api x dv = (case r_removeChecked api x (dv_bitmap dv) of (c, b) \<Rightarrow> (c, dv\<lparr>dv_bitmap := b\<rparr>))"

definition dv_AddMany :: "'b roaring_api \<Rightarrow> 64 word list \<Rightarrow> 'b deletion_vector \<Rightarrow> 'b deletion_vector" where
  "dv_AddMany api vals dv = dv\<lparr>dv_bitmap := r_addMany api vals (dv_bitmap dv)\<rparr>"

definition dv_AddRange :: "'b roaring_api \<Rightarrow> 64 word \<Rightarrow> 64 word \<Rightarrow> 'b deletion_vector \<Rightarrow> 'b deletion_vector" where
  "dv_AddRange api l r dv = dv\<lparr>dv_bitmap := r_addRangeClosed api l r (dv_bitmap dv)\<rparr>"

definition dv_RemoveRange :: "'b roaring_api \<Rightarrow> 64 word \<Rightarrow> 64 word \<Rightarrow> 'b deletion_vector \<Rightarrow> 'b deletion_vector" where
  "dv_RemoveRange api l r dv = dv\<lparr>dv_bitmap := r_removeRangeClosed api l r (dv_bitmap dv)\<rparr>"

definition dv_Clear :: "'b roaring_api \<Rightarrow> 'b deletion_vector \<Rightarrow> 'b deletion_vector" where
  "dv_Clear api dv = dv\<lparr>dv_bitmap := r_clear api (dv_bitmap dv)\<rparr>"

definition dv_Empty :: "'b roaring_api \<Rightarrow> 'b deletion_vector \<Rightarrow> bool" where
  "dv_Empty api dv = r_isEmpty api (dv_bitmap dv)"

definition dv_Max :: "'b roaring_api \<Rightarrow> 'b deletion_vector \<Rightarrow> 64 word option" where
  "dv_Max api dv = (if dv_Empty api dv then None else Some (r_maximum api (dv_bitmap dv)))"

definition dv_Min :: "'b roaring_api \<Rightarrow> 'b deletion_vector \<Rightarrow> 64 word option" where
  "dv_Min api dv = (if dv_Empty api dv then None else Some (r_minimum api (dv_bitmap dv)))"

definition Cardinality :: "'b roaring_api \<Rightarrow> 64 word \<Rightarrow> 64 word \<Rightarrow> 'b deletion_vector \<Rightarrow> 64 word" where
  "Cardinality api l r dv =
     r_rank api r (dv_bitmap dv) - r_rank api l (dv_bitmap dv) + of_bool (r_contains api l (dv_bitmap dv))"

abbreviation full_cardinality :: "'b roaring_api \<Rightarrow> 'b deletion_vector \<Rightarrow> 64 word" where
  "full_cardinality api dv \<equiv> Cardinality api 0 (- 1) dv"

definition GetElems :: "'b roaring_api \<Rightarrow> 64 word \<Rightarrow> 64 word \<Rightarrow> 'b deletion_vector \<Rightarrow> 64 word list" where
  "GetElems api l r dv = takeWhile (\<lambda>x. x \<le> r) (r_begin_move api l (dv_bitmap dv))"

definition GetProperties ::
    "'b roaring_api \<Rightarrow> 'b deletion_vector \<Rightarrow> (string \<times> string) list \<times> 'b deletion_vector" where
  "GetProperties api dv =
     (let c = to_string (uint (full_cardinality api dv));
          props = omap_alter kCardinality [] (\<lambda>_. c) (dv_properties dv)
      in (props, dv\<lparr>dv_properties := props\<rparr>))"

text \<open>The constructor from a blob: the checks before the bitmap is read, then the others.\<close>

definition check_blob :: "puffin_blob \<Rightarrow> string \<Rightarrow> nat result" where
  "check_blob blob_metadata blob =
     bindE (ensure (pb_type blob_metadata = kBlobType) ''Invalid blob type'') (\<lambda>_.
     bindE (ensure (map_of (pb_properties blob_metadata) kReferencedDataFile \<noteq> None)
       ''referenced-data-file not found'') (\<lambda>_.
     bindE (ensure (map_of (pb_properties blob_metadata) ''compression-codec'' = None)
       ''deletion vector blob must omit compession-codec in properties'') (\<lambda>_.
     bindE (ensure (pb_compression_codec blob_metadata = None)
       ''deletion vector blob must omit compression-codec in metadata'') (\<lambda>_.
     bindE (ensure (pb_length blob_metadata mod 2 ^ 64 = int (length blob))
       ''deletion vector blob's length doesn't match metadata length'') (\<lambda>_.
     bindE (ensure (length blob \<ge> 2 * 4 + 4) ''deletion vector blob is too small'') (\<lambda>_.
     bindE (GetLen blob) (\<lambda>len.
     bindE (ValidateMagicSequence blob) (\<lambda>_. Inr len))))))))"

definition DeletionVector ::
    "'b roaring_api \<Rightarrow> (string \<Rightarrow> 32 word) \<Rightarrow> puffin_blob \<Rightarrow> string \<Rightarrow> 'b deletion_vector result" where
  "DeletionVector api crc32 blob_metadata blob =
     bindE (check_blob blob_metadata blob) (\<lambda>len.
     case r_readSafe api (take (len - 4) (drop 8 blob)) of
       None \<Rightarrow> Inl (Runtime_error ''Failed to deserialize deletion vector'')
     | Some bitmap \<Rightarrow>
         let dv = \<lparr>dv_bitmap = bitmap, dv_properties = pb_properties blob_metadata,
                   dv_fields = pb_fields blob_metadata\<rparr> in
         (case map_of (pb_properties blob_metadata) kCardinality of
            None \<Rightarrow> Inl (Runtime_error ''cardinality not found'')
          | Some c \<Rightarrow>
              bindE (stoull c) (\<lambda>expected.
              bindE (ensure (expected = full_cardinality api dv) ''cardinality doesn't match'') (\<lambda>_.
              bindE (ensure (crc32 (take len (drop 4 blob)) = GetCheckSum blob)
                ''crc32 checksum doesn't match'') (\<lambda>_. Inr dv)))))"

definition DeletionVector_of_bitmap :: "puffin_blob \<Rightarrow> 'b \<Rightarrow> 'b deletion_vector" where
  "DeletionVector_of_bitmap blob_metadata bitmap =
     \<lparr>dv_bitmap = bitmap, dv_properties = pb_properties blob_metadata, dv_fields = pb_fields blob_metadata\<rparr>"

text \<open>The bitmap is mutable: serialization may shrink it.\<close>

definition dv_GetBlob ::
    "'b roaring_api \<Rightarrow> (string \<Rightarrow> 32 word) \<Rightarrow> 'b deletion_vector \<Rightarrow> (string \<times> 'b deletion_vector) result" where
  "dv_GetBlob api crc32 dv =
     (let len = 4 + r_getSizeInBytes api (dv_bitmap dv);
          big = len > 2 ^ 32 - 1;
          dv = (if big then dv\<lparr>dv_bitmap := r_shrinkToFit api (dv_bitmap dv)\<rparr> else dv);
          len = 4 + r_getSizeInBytes api (dv_bitmap dv) in
      bindE (if big then ensure (len \<le> 2 ^ 32 - 1) ''deletion vector is too big to be serialized'' else Inr ()) (\<lambda>_.
        let body = kMagicSequence @ r_write api (dv_bitmap dv) in
        Inr (UItoLittleEndianBytes (of_nat len) @ body @ UItoLittleEndianBytes (crc32 (take len body)), dv)))"

section \<open>Opening a deletion vector\<close>

definition OpenDeletionVector ::
    "'b roaring_api \<Rightarrow> (string \<Rightarrow> 32 word) \<Rightarrow> (string \<Rightarrow> json option) \<Rightarrow>
     (string \<Rightarrow> random_access_file result) \<Rightarrow> string \<Rightarrow> int \<Rightarrow> int \<Rightarrow> 'b deletion_vector result" where
  "OpenDeletionVector api crc32 parse opener path offset len =
     bindE (opener path) (\<lambda>input_file.
     bindE (ReadFooter input_file) (\<lambda>footer.
     bindE (GetDeserializedFooter parse footer) (\<lambda>(deserialized_footer, _).
       case find (\<lambda>blob. pb_offset blob = offset \<and> pb_length blob = len) (df_blobs deserialized_footer) of
         None \<Rightarrow> Inl (IO_error ''Deletion vector blob not found at offset'')
       | Some it \<Rightarrow>
           bindE (ReadAt input_file offset len) (\<lambda>blob_data.
           DeletionVector api crc32 it blob_data))))"

text \<open>The scheme of a location ends at the first \<open>://\<close>.\<close>

fun after_scheme :: "string \<Rightarrow> string option" where
  "after_scheme [] = None"
| "after_scheme (c # s) = (if take 3 (c # s) = ''://'' then Some (drop 3 (c # s)) else after_scheme s)"

definition MakeFileReaderProvider ::
    "(string \<Rightarrow> 'fs result) \<Rightarrow> ('fs \<Rightarrow> string \<Rightarrow> random_access_file result) \<Rightarrow> string \<Rightarrow> random_access_file result" where
  "MakeFileReaderProvider GetFileSystem OpenInputFile url =
     bindE (GetFileSystem url) (\<lambda>fs.
       case after_scheme url of
         None \<Rightarrow> Inl (Execution_error ''FileReaderProvider: file does not contain schema'')
       | Some path \<Rightarrow> OpenInputFile fs path)"

section \<open>Bitmap operations are set operations\<close>

abbreviation dv_elems :: "('b \<Rightarrow> 64 word set) \<Rightarrow> 'b deletion_vector \<Rightarrow> 64 word set" where
  "dv_elems elems dv \<equiv> elems (dv_bitmap dv)"

lemma roaring_laws:
  assumes "roaring_ok api elems"
  shows "fst (r_addChecked api x b) = (x \<notin> elems b)" "elems (snd (r_addChecked api x b)) = insert x (elems b)"
    and "fst (r_removeChecked api x b) = (x \<in> elems b)" "elems (snd (r_removeChecked api x b)) = elems b - {x}"
    and "r_contains api x b = (x \<in> elems b)"
    and "r_rank api x b = of_nat (card {y \<in> elems b. y \<le> x})"
    and "r_begin_move api x b = sorted_list_of_set {y \<in> elems b. x \<le> y}"
    and "elems (r_addRangeClosed api l r b) = elems b \<union> {l..r}"
    and "elems (r_removeRangeClosed api l r b) = elems b - {l..r}"
    and "elems (r_addMany api xs b) = elems b \<union> set xs"
    and "elems (r_clear api b) = {}" "r_isEmpty api b = (elems b = {})"
    and "elems b \<noteq> {} \<Longrightarrow> r_maximum api b = Max (elems b)" "elems b \<noteq> {} \<Longrightarrow> r_minimum api b = Min (elems b)"
    and "elems (r_shrinkToFit api b) = elems b" "length (r_write api b) = r_getSizeInBytes api b"
    and "\<exists>b'. r_readSafe api (r_write api b) = Some b' \<and> elems b' = elems b"
  using assms unfolding roaring_ok_def by simp_all

lemma finite_words [simp]: "finite (A :: 64 word set)"
  by (rule finite_subset [OF subset_UNIV finite])

text \<open>The difference of two ranks counts a closed interval.\<close>

lemma Cardinality_interval:
  assumes "roaring_ok api elems" "l \<le> r"
  shows "Cardinality api l r dv = of_nat (card (dv_elems elems dv \<inter> {l..r}))"
proof -
  let ?E = "dv_elems elems dv"
  have "card {y \<in> ?E. y \<le> r} + (if l \<in> ?E then 1 else 0) = card (?E \<inter> {l..r}) + card {y \<in> ?E. y \<le> l}"
  proof -
    have "card (?E \<inter> {l..r}) + card {y \<in> ?E. y \<le> l} =
        card ((?E \<inter> {l..r}) \<union> {y \<in> ?E. y \<le> l}) + card ((?E \<inter> {l..r}) \<inter> {y \<in> ?E. y \<le> l})"
      by (rule card_Un_Int) simp_all
    moreover have "(?E \<inter> {l..r}) \<union> {y \<in> ?E. y \<le> l} = {y \<in> ?E. y \<le> r}" using assms(2) by auto
    moreover have "(?E \<inter> {l..r}) \<inter> {y \<in> ?E. y \<le> l} = ?E \<inter> {l}" using assms(2) by auto
    moreover have "card (?E \<inter> {l}) = (if l \<in> ?E then 1 else 0)" by auto
    ultimately show ?thesis by simp
  qed
  then have "(of_nat (card {y \<in> ?E. y \<le> r} + (if l \<in> ?E then 1 else 0)) :: 64 word) =
      of_nat (card (?E \<inter> {l..r}) + card {y \<in> ?E. y \<le> l})"
    by (rule arg_cong)
  then have "(of_nat (card {y \<in> ?E. y \<le> r}) :: 64 word) + of_bool (l \<in> ?E) =
      of_nat (card (?E \<inter> {l..r})) + of_nat (card {y \<in> ?E. y \<le> l})"
    by (cases "l \<in> ?E") (simp_all add: add.commute)
  then show ?thesis
    by (simp add: Cardinality_def roaring_laws [OF assms(1)] algebra_simps)
qed

lemma takeWhile_sorted_le:
  fixes r :: "'a::linorder"
  shows "sorted xs \<Longrightarrow> takeWhile (\<lambda>x. x \<le> r) xs = filter (\<lambda>x. x \<le> r) xs"
proof (induction xs)
  case (Cons a xs)
  then have "\<not> a \<le> r \<Longrightarrow> filter (\<lambda>x. x \<le> r) xs = []"
    by (intro filter_False) (metis order_trans sorted_simps(2))
  with Cons show ?case by (cases "a \<le> r") auto
qed simp

lemma GetElems_interval:
  assumes "roaring_ok api elems"
  shows "GetElems api l r dv = sorted_list_of_set (dv_elems elems dv \<inter> {l..r})"
proof (rule sorted_distinct_set_unique)
  show "set (GetElems api l r dv) = set (sorted_list_of_set (dv_elems elems dv \<inter> {l..r}))"
    by (auto simp: GetElems_def roaring_laws [OF assms] takeWhile_sorted_le)
qed (auto simp: GetElems_def roaring_laws [OF assms] takeWhile_sorted_le sorted_wrt_filter)

text \<open>
  A deletion vector behaves as a set of row numbers: every update acts on the set as
  its name says and reports whether it changed anything, the number of deleted rows of an
  interval is the size of its intersection with the set (modulo \<open>2 ^ 64\<close>), and the listed
  rows are exactly that intersection in ascending order.
\<close>

lemma DeletionVector_is_a_set:
  assumes "roaring_ok api elems"
  shows "dv_Contains api x dv = (x \<in> dv_elems elems dv) \<and>
    fst (dv_Add api x dv) = (x \<notin> dv_elems elems dv) \<and>
    dv_elems elems (snd (dv_Add api x dv)) = insert x (dv_elems elems dv) \<and>
    fst (dv_Remove api x dv) = (x \<in> dv_elems elems dv) \<and>
    dv_elems elems (snd (dv_Remove api x dv)) = dv_elems elems dv - {x} \<and>
    dv_elems elems (dv_AddMany api xs dv) = dv_elems elems dv \<union> set xs \<and>
    dv_elems elems (dv_AddRange api l r dv) = dv_elems elems dv \<union> {l..r} \<and>
    dv_elems elems (dv_RemoveRange api l r dv) = dv_elems elems dv - {l..r} \<and>
    dv_elems elems (dv_Clear api dv) = {} \<and>
    dv_Max api dv = (if dv_elems elems dv = {} then None else Some (Max (dv_elems elems dv))) \<and>
    dv_Min api dv = (if dv_elems elems dv = {} then None else Some (Min (dv_elems elems dv))) \<and>
    (l \<le> r \<longrightarrow> Cardinality api l r dv = of_nat (card (dv_elems elems dv \<inter> {l..r}))) \<and>
    GetElems api l r dv = sorted_list_of_set (dv_elems elems dv \<inter> {l..r})"
  using Cardinality_interval [OF assms, of l r dv] GetElems_interval [OF assms, of l r dv]
  by (simp add: roaring_laws [OF assms] dv_Contains_def dv_Add_def dv_Remove_def dv_AddMany_def
      dv_AddRange_def dv_RemoveRange_def dv_Clear_def dv_Max_def dv_Min_def dv_Empty_def split_beta)

section \<open>A bitmap library of sorted lists\<close>

text \<open>A concrete instance of the interface: bitmaps are sets, written as 8-byte numbers.\<close>

fun read_words :: "string \<Rightarrow> 64 word list" where
  "read_words [] = []"
| "read_words (c # s) = of_nat (le_value (take 8 (c # s))) # read_words (drop 7 s)"

definition write_words :: "64 word list \<Rightarrow> string" where
  "write_words ws = concat (map (word_bytes 8) ws)"

lemma le_value_word_bytes: "of_nat (le_value (word_bytes 8 (w :: 64 word))) = w"
proof -
  have "unat w < 256 ^ 8" using unsigned_less [of w] by simp
  then show ?thesis by (simp add: word_bytes_def le_value_bytes)
qed

lemma read_write_words: "read_words (write_words ws) = ws"
proof (induction ws)
  case (Cons w ws)
  obtain c s where cs: "word_bytes 8 w = c # s" "length s = 7"
    using length_word_bytes [of 8 w] by (cases "word_bytes 8 w") simp_all
  have "read_words (write_words (w # ws)) = of_nat (le_value (c # s)) # read_words (write_words ws)"
    using cs by (simp add: write_words_def)
  then show ?case using Cons cs le_value_word_bytes [of w] by simp
qed (simp add: write_words_def)

definition set_api :: "64 word set roaring_api" where
  "set_api =
     \<lparr>r_addChecked = (\<lambda>x b. (x \<notin> b, insert x b)), r_removeChecked = (\<lambda>x b. (x \<in> b, b - {x})),
      r_contains = (\<lambda>x b. x \<in> b), r_addMany = (\<lambda>xs b. b \<union> set xs),
      r_addRangeClosed = (\<lambda>l r b. b \<union> {l..r}), r_removeRangeClosed = (\<lambda>l r b. b - {l..r}),
      r_clear = (\<lambda>b. {}), r_isEmpty = (\<lambda>b. b = {}), r_maximum = Max, r_minimum = Min,
      r_rank = (\<lambda>x b. of_nat (card {y \<in> b. y \<le> x})),
      r_begin_move = (\<lambda>x b. sorted_list_of_set {y \<in> b. x \<le> y}),
      r_getSizeInBytes = (\<lambda>b. length (write_words (sorted_list_of_set b))), r_shrinkToFit = (\<lambda>b. b),
      r_write = (\<lambda>b. write_words (sorted_list_of_set b)),
      r_readSafe = (\<lambda>s. if length s mod 8 = 0 then Some (set (read_words s)) else None)\<rparr>"

lemma length_write_words: "length (write_words ws) = 8 * length ws"
  by (induction ws) (auto simp: write_words_def)

lemma set_api_ok: "roaring_ok set_api id"
  by (simp add: roaring_ok_def set_api_def read_write_words length_write_words)

lemma DeletionVector_is_a_set_witness:
  "GetElems set_api 2 9 \<lparr>dv_bitmap = set [1, 7, 9, 12], dv_properties = [], dv_fields = []\<rparr> = [7, 9]"
proof -
  have "set [1, 7, 9, 12] \<inter> {2..9} = {7, 9 :: 64 word}"
    by (auto simp: word_le_nat_alt)
  then show ?thesis
    using DeletionVector_is_a_set [OF set_api_ok, of _ "\<lparr>dv_bitmap = set [1, 7, 9, 12], dv_properties = [], dv_fields = []\<rparr>"
        _ 2 9] by simp
qed

section \<open>Blobs are read back\<close>

lemma length_UItoLittleEndianBytes [simp]: "length (UItoLittleEndianBytes v) = 4"
  by (simp add: UItoLittleEndianBytes_def)

lemma length_kMagicSequence [simp]: "length kMagicSequence = 4"
  by (simp add: kMagicSequence_def)

lemma le_value_rev_UItoLittleEndianBytes [simp]: "le_value (rev (UItoLittleEndianBytes v)) = unat v"
proof -
  have "unat v < 256 ^ 4" using unsigned_less [of v] by simp
  then show ?thesis by (simp add: UItoLittleEndianBytes_def word_bytes_def le_value_bytes)
qed

lemma stoull_to_string: "stoull (to_string (uint c)) = Inr c"
proof -
  let ?s = "nat_to_string (unat c)"
  have s: "to_string (uint c) = ?s" by (simp add: to_string_def)
  obtain d ds where d: "?s = d # ds" by (cases ?s) auto
  have dig: "\<And>x. x \<in> set ?s \<Longrightarrow> is_digit x" by (rule nat_to_string_digits)
  then have "is_digit d" using d by simp
  then have "\<not> is_space d" "d \<noteq> CHR ''-''" "d \<noteq> CHR ''+''" by (auto simp: is_digit_not_space is_digit_def)
  then have sp: "sign_split (dropWhile is_space ?s) = (False, ?s)" by (simp add: d sign_split_def)
  have tw: "takeWhile is_digit ?s = ?s" using dig by (simp add: takeWhile_eq_all_conv)
  have "unat c < 2 ^ 64" using unsigned_less [of c] by simp
  then show ?thesis unfolding stoull_def Let_def s sp prod.case tw by simp
qed

lemma map_of_cardinality_alter:
  "omap m \<Longrightarrow> map_of (omap_alter kCardinality [] (\<lambda>_. c) m) k = (if k = kCardinality then Some c else map_of m k)"
  by (simp add: map_of_omap_alter)

text \<open>
  The metadata under which a deletion vector is stored: the type, the properties with the
  cardinality and the length of the blob.
\<close>

definition dv_meta_ok :: "'b roaring_api \<Rightarrow> 'b deletion_vector \<Rightarrow> string \<Rightarrow> puffin_blob \<Rightarrow> bool" where
  "dv_meta_ok api dv blob m \<longleftrightarrow>
     pb_type m = kBlobType \<and> pb_compression_codec m = None \<and> pb_length m = int (length blob) \<and>
     pb_properties m = fst (GetProperties api dv) \<and> pb_fields m = dv_fields dv"

definition dv_storable :: "'b roaring_api \<Rightarrow> 'b deletion_vector \<Rightarrow> bool" where
  "dv_storable api dv \<longleftrightarrow> omap (dv_properties dv) \<and> map_of (dv_properties dv) kReferencedDataFile \<noteq> None \<and>
     map_of (dv_properties dv) ''compression-codec'' = None \<and>
     4 + r_getSizeInBytes api (dv_bitmap dv) \<le> 2 ^ 32 - 1"

lemma names_distinct: "kReferencedDataFile \<noteq> kCardinality" "''compression-codec'' \<noteq> kCardinality"
  by (simp_all add: kReferencedDataFile_def kCardinality_def)

lemma dv_GetBlob_eq:
  assumes "roaring_ok api elems" "dv_storable api dv"
  shows "dv_GetBlob api crc32 dv =
    Inr (UItoLittleEndianBytes (of_nat (4 + r_getSizeInBytes api (dv_bitmap dv))) @
           (kMagicSequence @ r_write api (dv_bitmap dv)) @
           UItoLittleEndianBytes (crc32 (kMagicSequence @ r_write api (dv_bitmap dv))), dv)"
  using assms(2) roaring_laws(16) [OF assms(1), of "dv_bitmap dv"]
  by (simp add: dv_GetBlob_def dv_storable_def Let_def)

lemma DeletionVector_reads_blob:
  assumes ok: "roaring_ok api elems" "dv_storable api dv"
    and blob: "dv_GetBlob api crc32 dv = Inr (blob, dv')" and meta: "dv_meta_ok api dv blob m"
  shows "\<exists>dv''. DeletionVector api crc32 m blob = Inr dv'' \<and> dv_elems elems dv'' = dv_elems elems dv \<and>
    dv_properties dv'' = fst (GetProperties api dv) \<and> dv_fields dv'' = dv_fields dv"
proof -
  let ?n = "4 + r_getSizeInBytes api (dv_bitmap dv)" and ?body = "kMagicSequence @ r_write api (dv_bitmap dv)"
  have b: "blob = UItoLittleEndianBytes (of_nat ?n) @ ?body @ UItoLittleEndianBytes (crc32 ?body)"
    using blob unfolding dv_GetBlob_eq [OF ok] by auto
  have lw: "length (r_write api (dv_bitmap dv)) = r_getSizeInBytes api (dv_bitmap dv)"
    by (rule roaring_laws(16) [OF ok(1)])
  have n: "unat (of_nat ?n :: 32 word) = ?n"
    using ok(2) by (simp add: dv_storable_def unat_of_nat take_bit_nat_eq_self_iff del: of_nat_add)
  have len: "GetLen blob = Inr ?n"
    unfolding GetLen_def using n lw by (simp add: b del: of_nat_add)
  have magic: "ValidateMagicSequence blob = Inr ()"
    by (simp add: ValidateMagicSequence_def b)
  obtain bm where bm: "r_readSafe api (take (?n - 4) (drop 8 blob)) = Some bm" "elems bm = dv_elems elems dv"
    using roaring_laws(17) [OF ok(1), of "dv_bitmap dv"] lw by (auto simp: b)
  have crc: "crc32 (take ?n (drop 4 blob)) = GetCheckSum blob"
    by (simp add: GetCheckSum_def b lw)
  have props: "map_of (pb_properties m) k =
      (if k = kCardinality then Some (to_string (uint (full_cardinality api dv))) else map_of (dv_properties dv) k)" for k
    using meta ok(2) by (simp add: dv_meta_ok_def GetProperties_def Let_def map_of_cardinality_alter dv_storable_def)
  have card: "full_cardinality api \<lparr>dv_bitmap = bm, dv_properties = p, dv_fields = fs\<rparr> = full_cardinality api dv" for p fs
    by (simp add: Cardinality_def roaring_laws [OF ok(1)] bm(2))
  have size: "length blob = ?n + 8" by (simp add: b lw)
  have len64: "pb_length m mod 2 ^ 64 = int (length blob)"
    using meta ok(2) size by (simp add: dv_meta_ok_def dv_storable_def)
  have "check_blob m blob = Inr ?n"
    using meta ok(2) len magic size len64 names_distinct
    unfolding check_blob_def props by (simp add: dv_meta_ok_def dv_storable_def)
  then have "DeletionVector api crc32 m blob =
      Inr \<lparr>dv_bitmap = bm, dv_properties = pb_properties m, dv_fields = pb_fields m\<rparr>"
    using bm(1) crc unfolding DeletionVector_def props by (simp add: stoull_to_string card)
  then show ?thesis using bm(2) meta by (simp add: dv_meta_ok_def)
qed

text \<open>
  C33. A deletion vector that is serialized and read again with its own properties is the
  same set of rows: the reader accepts the blob, and rows, fields and properties (with the
  cardinality filled in) are the original ones.
\<close>

theorem deletion_vector_roundtrip:
  assumes "roaring_ok api elems" "dv_storable api dv"
  shows "\<exists>blob. dv_GetBlob api crc32 dv = Inr (blob, dv) \<and>
    (\<forall>m. dv_meta_ok api dv blob m \<longrightarrow>
      (\<exists>dv'. DeletionVector api crc32 m blob = Inr dv' \<and> dv_elems elems dv' = dv_elems elems dv \<and>
        dv_properties dv' = fst (GetProperties api dv) \<and> dv_fields dv' = dv_fields dv))"
  using dv_GetBlob_eq [OF assms, of crc32] DeletionVector_reads_blob [OF assms, of crc32] by blast

definition example_dv :: "64 word set deletion_vector" where
  "example_dv = \<lparr>dv_bitmap = {1, 7}, dv_properties = [(kReferencedDataFile, ''s3://a'')], dv_fields = [2]\<rparr>"

lemma example_dv_storable: "dv_storable set_api example_dv"
  by (simp add: dv_storable_def example_dv_def omap_def set_api_def length_write_words kReferencedDataFile_def)

theorem deletion_vector_roundtrip_witness:
  "\<exists>blob. dv_GetBlob set_api (\<lambda>s. of_nat (length s)) example_dv = Inr (blob, example_dv) \<and>
    (\<exists>dv'. DeletionVector set_api (\<lambda>s. of_nat (length s))
      \<lparr>pb_type = kBlobType, pb_fields = [2], pb_snapshot_id = 1, pb_sequence_number = 1, pb_offset = 4,
       pb_length = int (length blob), pb_compression_codec = None,
       pb_properties = fst (GetProperties set_api example_dv)\<rparr> blob = Inr dv' \<and> dv_bitmap dv' = {1, 7})"
proof -
  let ?crc = "\<lambda>s. of_nat (length s) :: 32 word"
  obtain blob where blob: "dv_GetBlob set_api ?crc example_dv = Inr (blob, example_dv)"
      "\<And>m. dv_meta_ok set_api example_dv blob m \<Longrightarrow>
        \<exists>dv'. DeletionVector set_api ?crc m blob = Inr dv' \<and> dv_elems id dv' = dv_elems id example_dv"
    using deletion_vector_roundtrip [OF set_api_ok example_dv_storable, of ?crc] by blast
  have "\<exists>dv'. DeletionVector set_api ?crc
      \<lparr>pb_type = kBlobType, pb_fields = [2], pb_snapshot_id = 1, pb_sequence_number = 1, pb_offset = 4,
       pb_length = int (length blob), pb_compression_codec = None,
       pb_properties = fst (GetProperties set_api example_dv)\<rparr> blob = Inr dv' \<and> dv_elems id dv' = dv_elems id example_dv"
    by (rule blob(2)) (simp add: dv_meta_ok_def example_dv_def)
  then show ?thesis using blob(1) by (auto simp: example_dv_def)
qed

lemma bytes_of_checksum:
  assumes "length blob \<ge> 4"
  shows "UItoLittleEndianBytes (GetCheckSum blob) = drop (length blob - 4) blob"
proof -
  let ?t = "drop (length blob - 4) blob"
  have l: "length (rev ?t) = 4" using assms by simp
  then have "le_value (rev ?t) < 2 ^ 32" using le_value_bound [of "rev ?t"] by simp
  then have "word_bytes 4 (GetCheckSum blob) = rev ?t"
    using le_bytes_le_value [of "rev ?t"] l
    by (simp add: word_bytes_def GetCheckSum_def unat_of_nat take_bit_nat_eq_self)
  then show ?thesis by (simp add: UItoLittleEndianBytes_def)
qed

lemma blob_layout:
  assumes "length blob \<ge> 12" "GetLen blob = Inr len" "ValidateMagicSequence blob = Inr u"
  shows "blob = rev (le_bytes 4 len) @ kMagicSequence @ take (len - 4) (drop 8 blob) @
      UItoLittleEndianBytes (GetCheckSum blob)"
    and "take len (drop 4 blob) = kMagicSequence @ take (len - 4) (drop 8 blob)" "len \<ge> 4"
    and "length (take (len - 4) (drop 8 blob)) + 4 = len"
proof -
  have len: "len = le_value (rev (take 4 blob))" "len + 8 = length blob"
    using assms(2) by (auto simp: GetLen_def Let_def bindE_eq_Inr_iff)
  then show l4: "len \<ge> 4" "length (take (len - 4) (drop 8 blob)) + 4 = len" using assms(1) by simp_all
  have "rev (le_bytes 4 len) = take 4 blob"
    using le_bytes_le_value [of "rev (take 4 blob)"] assms(1) len(1) by simp
  moreover have m: "kMagicSequence = take 4 (drop 4 blob)"
    using assms(3) by (simp add: ValidateMagicSequence_def)
  moreover have "UItoLittleEndianBytes (GetCheckSum blob) = drop (len - 4) (drop 8 blob)"
  proof -
    have "length blob - 4 = len - 4 + 8" using len(2) l4(1) by linarith
    then show ?thesis using bytes_of_checksum [of blob] assms(1) by simp
  qed
  moreover have "blob = take 4 blob @ take 4 (drop 4 blob) @ take (len - 4) (drop 8 blob) @ drop (len - 4) (drop 8 blob)"
  proof -
    have "drop 8 blob = drop 4 (drop 4 blob)" by simp
    then show ?thesis by (simp only: append_take_drop_id)
  qed
  ultimately show "blob = rev (le_bytes 4 len) @ kMagicSequence @ take (len - 4) (drop 8 blob) @
      UItoLittleEndianBytes (GetCheckSum blob)" by metis
  have "take len (drop 4 blob) = take 4 (drop 4 blob) @ take (len - 4) (drop 4 (drop 4 blob))"
    using l4(1) by (metis le_add_diff_inverse take_add)
  then show "take len (drop 4 blob) = kMagicSequence @ take (len - 4) (drop 8 blob)" by (simp add: m)
qed

text \<open>
  C32. A blob is accepted only when everything about it is right: the type, the length in the
  metadata and in the first four bytes, the magic sequence, the checksum of the bytes between
  and a cardinality property that equals the number of rows in the bitmap.
\<close>

theorem DeletionVector_accepts:
  assumes "roaring_ok api elems" "DeletionVector api crc32 m blob = Inr dv"
  shows "pb_type m = kBlobType \<and> map_of (pb_properties m) kReferencedDataFile \<noteq> None \<and>
    pb_compression_codec m = None \<and> pb_length m mod 2 ^ 64 = int (length blob) \<and>
    (\<exists>data c. blob = rev (le_bytes 4 (length data + 4)) @ kMagicSequence @ data @ UItoLittleEndianBytes (GetCheckSum blob) \<and>
       crc32 (kMagicSequence @ data) = GetCheckSum blob \<and> r_readSafe api data = Some (dv_bitmap dv) \<and>
       map_of (pb_properties m) kCardinality = Some c \<and>
       stoull c = Inr (of_nat (card (dv_elems elems dv))))"
proof -
  from assms(2) obtain len where cb: "check_blob m blob = Inr len"
    by (auto simp: DeletionVector_def bindE_eq_Inr_iff)
  then have basic: "pb_type m = kBlobType" "map_of (pb_properties m) kReferencedDataFile \<noteq> None"
        "pb_compression_codec m = None" "pb_length m mod 2 ^ 64 = int (length blob)" "length blob \<ge> 12"
    and len: "GetLen blob = Inr len" "ValidateMagicSequence blob = Inr ()"
    by (auto simp: check_blob_def bindE_eq_Inr_iff)
  from assms(2) obtain bm c where
      bm: "r_readSafe api (take (len - 4) (drop 8 blob)) = Some bm" "dv_bitmap dv = bm"
    and c: "map_of (pb_properties m) kCardinality = Some c" "stoull c = Inr (full_cardinality api dv)"
    and crc: "crc32 (take len (drop 4 blob)) = GetCheckSum blob"
    unfolding DeletionVector_def cb by (auto simp: bindE_eq_Inr_iff Let_def split: option.splits)
  note l = blob_layout [OF basic(5) len]
  have "full_cardinality api dv = of_nat (card (dv_elems elems dv \<inter> {0..-1}))"
    by (rule Cardinality_interval [OF assms(1)]) simp
  moreover have "dv_elems elems dv \<inter> {0..-1} = dv_elems elems dv" by (auto simp: word_order.extremum)
  ultimately show ?thesis using basic(1-4) l bm c crc by metis
qed

lemma dv_GetBlob_example:
  "\<exists>blob. dv_GetBlob set_api crc32 example_dv = Inr (blob, example_dv) \<and>
     (\<exists>dv. DeletionVector set_api crc32
      \<lparr>pb_type = kBlobType, pb_fields = [2], pb_snapshot_id = 1, pb_sequence_number = 1, pb_offset = 4,
       pb_length = int (length blob), pb_compression_codec = None,
       pb_properties = fst (GetProperties set_api example_dv)\<rparr> blob = Inr dv)"
proof -
  obtain blob where blob: "dv_GetBlob set_api crc32 example_dv = Inr (blob, example_dv)"
    using dv_GetBlob_eq [OF set_api_ok example_dv_storable, of crc32] by blast
  show ?thesis
    using DeletionVector_reads_blob [OF set_api_ok example_dv_storable blob] blob
    by (force simp: dv_meta_ok_def example_dv_def)
qed

theorem DeletionVector_accepts_witness:
  "\<exists>m blob dv. DeletionVector set_api (\<lambda>s. of_nat (length s)) m blob = Inr dv \<and> pb_type m = kBlobType \<and>
     (\<exists>c. map_of (pb_properties m) kCardinality = Some c \<and> stoull c = Inr (of_nat (card (dv_bitmap dv))))"
proof -
  obtain m blob dv where dv: "DeletionVector set_api (\<lambda>s. of_nat (length s)) m blob = Inr dv"
    using dv_GetBlob_example by blast
  then show ?thesis using DeletionVector_accepts [OF set_api_ok dv] by auto
qed

section \<open>Deletion vectors in a Puffin file\<close>

text \<open>A blob that is not empty is found by its offset and length.\<close>

lemma find_blob_meta:
  assumes "i < length blobs" "bb_data (blobs ! i) \<noteq> []"
  shows "find (\<lambda>m. pb_offset m = pb_offset (blob_metas seq snap off blobs ! i) \<and>
      pb_length m = pb_length (blob_metas seq snap off blobs ! i)) (blob_metas seq snap off blobs) =
    Some (blob_metas seq snap off blobs ! i)"
proof -
  have "\<not> (pb_offset (blob_metas seq snap off blobs ! j) = pb_offset (blob_metas seq snap off blobs ! i) \<and>
      pb_length (blob_metas seq snap off blobs ! j) = pb_length (blob_metas seq snap off blobs ! i))" if "j < i" for j
  proof -
    have j: "j < length blobs" using that assms(1) by simp
    have "take i blobs = take j blobs @ blobs ! j # take (i - Suc j) (drop (Suc j) blobs)"
      using that j by (metis Suc_leI append.assoc append_Cons append_Nil le_add_diff_inverse take_Suc_conv_app_nth take_add)
    then have "length (concat (map bb_data (take i blobs))) \<ge>
        length (concat (map bb_data (take j blobs))) + length (bb_data (blobs ! j))" by simp
    then show ?thesis using assms by (auto simp: blob_metas_nth j)
  qed
  then show ?thesis unfolding find_Some_iff using assms(1) by (intro exI [of _ i]) simp
qed

text \<open>
  C23. Opening a deletion vector finds what was stored: when a builder that holds the blob of a
  deletion vector, appended with its own properties, makes a file, then a reader provider that
  opens these bytes returns, for the offset and length recorded in the footer, a deletion
  vector of exactly the same rows.
\<close>

theorem OpenDeletionVector_roundtrip:
  assumes "roaring_ok api elems" "dv_storable api dv"
    and "dv_GetBlob api crc32 dv = Inr (blob, dv)"
    and "builder_ok b" "puffin_sizes_ok print b" "text_ok print parse (Serialize_footer (build_footer b))"
    and "i < length (bu_blobs b)"
    and "bu_blobs b ! i = \<lparr>bb_data = blob, bb_properties = fst (GetProperties api dv),
           bb_fields = dv_fields dv, bb_type = kBlobType\<rparr>"
    and "puffin_Build print b = Inr pfile" "opener path = Inr raf" "reads_from raf (pu_data pfile)"
  shows "\<exists>dv'. OpenDeletionVector api crc32 parse opener path
      (pb_offset (df_blobs (build_footer b) ! i)) (int (length blob)) = Inr dv' \<and>
    dv_elems elems dv' = dv_elems elems dv \<and> dv_fields dv' = dv_fields dv"
proof -
  let ?t = "print (Serialize_footer (build_footer b))" and ?m = "df_blobs (build_footer b) ! i"
  let ?pre = "kPuffinMagicBytes @ concat (map bb_data (bu_blobs b))"
  have pfile: "pfile = \<lparr>pu_data = ?pre @ puffin_tail ?t, pu_footer = Footer ?t\<rparr>"
    using puffin_Build_eq [OF assms(4,5,6)] assms(9) by simp
  have len: "length ?t + 16 < 2 ^ 31" using assms(5) by (simp add: puffin_sizes_ok_def)
  have footer: "ReadFooter raf = Inr (Footer ?t)"
    using ReadFooter_tail [OF len, of raf ?pre] assms(11) pfile by simp
  obtain f' where d: "GetDeserializedFooter parse (Footer ?t) = Inr (build_footer b, f')"
    using GetDeserializedFooter_holds [OF build_footer_holds [OF assms(4,5,6)]] by blast
  have m: "?m = \<lparr>pb_type = kBlobType, pb_fields = dv_fields dv, pb_snapshot_id = the (bu_snapshot_id b),
      pb_sequence_number = the (bu_sequence_number b),
      pb_offset = int (4 + length (concat (map bb_data (take i (bu_blobs b))))),
      pb_length = int (length blob), pb_compression_codec = None,
      pb_properties = fst (GetProperties api dv)\<rparr>"
    using assms(7,8) by (simp add: build_footer_def blob_metas_nth)
  have "blob \<noteq> []" using assms(3) by (auto simp: dv_GetBlob_eq [OF assms(1,2)] kMagicSequence_def)
  then have "find (\<lambda>blob. pb_offset blob = pb_offset ?m \<and> pb_length blob = pb_length ?m)
      (df_blobs (build_footer b)) = Some ?m"
    using find_blob_meta [OF assms(7)] assms(8) by (simp add: build_footer_def)
  then have found: "find (\<lambda>x. pb_offset x = pb_offset ?m \<and> pb_length x = int (length blob))
      (df_blobs (build_footer b)) = Some ?m" by (simp add: m)
  have data: "ReadAt raf (pb_offset ?m) (int (length blob)) = Inr blob"
  proof -
    let ?off = "4 + length (concat (map bb_data (take i (bu_blobs b))))"
    have "?off + length blob \<le> length (pu_data pfile)"
      using blob_inside [OF assms(7)] by (simp add: pfile assms(8))
    from ReadAt_slice [OF assms(11) this] show ?thesis
      using blob_slice [OF assms(7), of "puffin_tail ?t"] by (simp add: m pfile assms(8))
  qed
  have "dv_meta_ok api dv blob ?m" by (simp add: m dv_meta_ok_def)
  from DeletionVector_reads_blob [OF assms(1,2,3) this] show ?thesis
    by (auto simp: OpenDeletionVector_def assms(10) footer d found data)
qed

definition example_dv_builder :: "string \<Rightarrow> puffin_builder" where
  "example_dv_builder blob =
     AppendBlob blob (fst (GetProperties set_api example_dv)) (dv_fields example_dv) kBlobType
       (AppendBlob ''first'' [] [3] ''theta'' (SetSnapshotId 7 (SetSequenceNumber 5 PuffinFileBuilder)))"

lemma example_dv_properties: "string_map_ok (fst (GetProperties set_api example_dv))"
proof -
  have c: "no_nul (to_string n)" for n
    using to_string_chars [of "CHR 0x00" n] by (auto simp: no_nul_def is_digit_def)
  have "kCardinality < kReferencedDataFile" by (simp add: kCardinality_def kReferencedDataFile_def less_char_def)
  then show ?thesis
    using c by (auto simp: GetProperties_def Let_def example_dv_def string_map_ok_def omap_def no_nul_def
        kCardinality_def kReferencedDataFile_def)
qed

theorem OpenDeletionVector_roundtrip_witness:
  "\<exists>opener off len dv. OpenDeletionVector set_api (\<lambda>s. of_nat (length s))
     (\<lambda>_. Some (Serialize_footer (build_footer (example_dv_builder (fst (projr (dv_GetBlob set_api (\<lambda>s. of_nat (length s)) example_dv)))))))
     opener ''a'' off len = Inr dv \<and> dv_bitmap dv = {1, 7}"
proof -
  let ?crc = "\<lambda>s. of_nat (length s) :: 32 word"
  obtain blob where blob: "dv_GetBlob set_api ?crc example_dv = Inr (blob, example_dv)" "length blob < 100"
    using dv_GetBlob_eq [OF set_api_ok example_dv_storable, of ?crc]
    by (simp add: set_api_def length_write_words example_dv_def)
  let ?b = "example_dv_builder blob"
  let ?print = "\<lambda>_ :: json. ''footer''" and ?parse = "\<lambda>_ :: string. Some (Serialize_footer (build_footer ?b))"
  have ok: "builder_ok ?b" "puffin_sizes_ok ?print ?b" "text_ok ?print ?parse (Serialize_footer (build_footer ?b))"
    using blob(2) example_dv_properties
    by (simp_all add: builder_ok_def example_dv_builder_def AppendBlob_def SetSnapshotId_def SetSequenceNumber_def
      PuffinFileBuilder_def int64_def int32_def no_nul_def string_map_ok_def [of "[]"] puffin_sizes_ok_def
      text_ok_def kBlobType_def example_dv_def [THEN arg_cong, of dv_fields])
  obtain pfile where p: "puffin_Build ?print ?b = Inr pfile" using puffin_Build_eq [OF ok] by blast
  have at: "1 < length (bu_blobs ?b)" "bu_blobs ?b ! 1 = \<lparr>bb_data = blob,
      bb_properties = fst (GetProperties set_api example_dv), bb_fields = dv_fields example_dv, bb_type = kBlobType\<rparr>"
    by (simp_all add: example_dv_builder_def AppendBlob_def SetSnapshotId_def SetSequenceNumber_def PuffinFileBuilder_def)
  obtain dv where "OpenDeletionVector set_api ?crc ?parse (\<lambda>_. Inr (buffer_reader (pu_data pfile))) ''a''
      (pb_offset (df_blobs (build_footer ?b) ! 1)) (int (length blob)) = Inr dv"
      "dv_elems id dv = dv_elems id example_dv"
    using OpenDeletionVector_roundtrip [OF set_api_ok example_dv_storable blob(1) ok at p, of "\<lambda>_. Inr (buffer_reader (pu_data pfile))" "''a''"
        "buffer_reader (pu_data pfile)"] by auto
  then show ?thesis using blob(1) by (auto simp: example_dv_def)
qed

end
