(* ===== verification/Delete_Appliers.thy ===== *)
theory Delete_Appliers
  imports Positional_Delete Selection_Vector Deletion_Vector
begin

text \<open>
  The streams that apply deletes to batches of rows: \<open>DeletionVectorApplier\<close> and
  \<open>PositionalDeleteApplier\<close> (\<open>streams/iceberg\<close>).  A batch knows its partition, layer, file and
  first row and carries a selection vector; an applier removes the deleted rows from the
  selection.  The input stream is the list of its batches.  Metrics and events that are only
  logged are left out.
\<close>

section \<open>Batches\<close>

record 'c iceberg_batch =
  ib_partition :: int
  ib_layer :: int
  ib_path :: string
  ib_row_position :: int
  ib_num_rows :: int
  ib_columns :: 'c
  ib_selection :: selection

text \<open>The rows of a batch, counted from its first row, and what an applier keeps of them.\<close>

definition batch_ok :: "'c iceberg_batch \<Rightarrow> bool" where
  "batch_ok b \<longleftrightarrow> 0 \<le> ib_row_position b \<and> 0 \<le> ib_num_rows b \<and> ib_num_rows b < 2 ^ 31 \<and>
     ib_row_position b + ib_num_rows b < 2 ^ 63 \<and> sorted_wrt (<) (ib_selection b) \<and>
     (\<forall>i \<in> set (ib_selection b). 0 \<le> i \<and> i < ib_num_rows b)"

definition without_rows :: "(int \<Rightarrow> bool) \<Rightarrow> 'c iceberg_batch \<Rightarrow> 'c iceberg_batch" where
  "without_rows deleted b =
     b\<lparr>ib_selection := filter (\<lambda>i. \<not> deleted (ib_row_position b + i)) (ib_selection b)\<rparr>"

section \<open>Deletion vectors\<close>

definition to_int32 :: "64 word \<Rightarrow> int" where
  "to_int32 w = (let n = uint w mod 2 ^ 32 in if n < 2 ^ 31 then n else n - 2 ^ 32)"

definition GetRelativeElems ::
    "'b roaring_api \<Rightarrow> 'b deletion_vector \<Rightarrow> 64 word \<Rightarrow> 64 word \<Rightarrow> int list result" where
  "GetRelativeElems api dv start end' =
     bindE (ensure (end' - start \<le> 2 ^ 31 - 1) ''batch is too large'') (\<lambda>_.
     Inr (map (\<lambda>pos. to_int32 (pos - start)) (GetElems api start end' dv)))"

definition ApplyDeletionVector ::
    "'b roaring_api \<Rightarrow> 'b deletion_vector \<Rightarrow> 'c iceberg_batch \<Rightarrow> 'c iceberg_batch result" where
  "ApplyDeletionVector api dv batch =
     (let start = word_of_int (ib_row_position batch);
          end' = start + word_of_int (ib_num_rows batch) - 1 in
      bindE (GetRelativeElems api dv start end') (\<lambda>relative.
        if relative \<noteq> [] then Inr (batch\<lparr>ib_selection := snd (DeleteIfEqual relative (ib_selection batch))\<rparr>)
        else Inr batch))"

definition dva_ReadNext ::
    "'b roaring_api \<Rightarrow> 'b deletion_vector \<Rightarrow> 'c iceberg_batch list \<Rightarrow>
     ('c iceberg_batch option \<times> 'c iceberg_batch list) result" where
  "dva_ReadNext api dv input =
     (case input of
        [] \<Rightarrow> Inr (None, [])
      | batch # rest \<Rightarrow> bindE (ApplyDeletionVector api dv batch) (\<lambda>b. Inr (Some b, rest)))"

section \<open>Positional deletes\<close>

text \<open>Per partition and layer the locations of the delete files.\<close>

type_synonym positional_deletes = "(int \<times> (int \<times> string list) list) list"

definition GetDeleteUrls :: "positional_deletes \<Rightarrow> int \<Rightarrow> (int \<times> string list) list result" where
  "GetDeleteUrls delete_entries part =
     (case map_of delete_entries part of
        None \<Rightarrow> Inl Out_of_range
      | Some layers \<Rightarrow>
          Inr (fold (\<lambda>(l, entries) urls. fold (\<lambda>path urls. omap_alter l [] (\<lambda>us. us @ [path]) urls) entries urls)
                 layers []))"

definition open_delete_stream ::
    "(string \<Rightarrow> row_group list result) \<Rightarrow> (int \<times> string list) list \<Rightarrow> reader list delete_stream result" where
  "open_delete_stream open_file urls =
     bindE (mapE (\<lambda>(layer, url). bindE (open_file url) (\<lambda>gs. Inr (layer, gs)))
       (concat (map (\<lambda>(layer, us). map (Pair layer) us) urls)))
     (\<lambda>files. Inr (mk_stream (#) [] files))"

text \<open>
  \<open>current_state_\<close> holds partition, file and position after the last batch; the layer it
  holds too is never read and left out.
\<close>

record pda_state =
  ps_current_state :: "(int \<times> string \<times> int) option"
  ps_positional_delete :: "reader list delete_stream option"

definition can_reuse_state :: "'c iceberg_batch \<Rightarrow> pda_state \<Rightarrow> bool" where
  "can_reuse_state batch st =
     (case ps_current_state st of
        None \<Rightarrow> False
      | Some (part, path, pos) \<Rightarrow>
          part = ib_partition batch \<and>
          (ib_path batch > path \<or> (ib_path batch = path \<and> ib_row_position batch \<ge> pos)))"

definition apply_positional ::
    "nat \<Rightarrow> 'c iceberg_batch \<Rightarrow> pda_state \<Rightarrow> ('c iceberg_batch \<times> pda_state) result option" where
  "apply_positional fuel batch st =
     (case ps_positional_delete st of
        None \<Rightarrow> Some (Inr (batch, st))
      | Some stream \<Rightarrow>
          (case list_GetDeleted fuel (ib_path batch) (ib_row_position batch)
                  (ib_row_position batch + ib_num_rows batch) (ib_layer batch) stream of
             None \<Rightarrow> None
           | Some (Inl err) \<Rightarrow> Some (Inl err)
           | Some (Inr (delete_rows, stream')) \<Rightarrow>
               let delete_rows = map (\<lambda>row. row - ib_row_position batch) delete_rows in
               Some (Inr (batch\<lparr>ib_selection := snd (DeleteIfEqual delete_rows (ib_selection batch))\<rparr>,
                 \<lparr>ps_current_state = Some (ib_partition batch, ib_path batch,
                                           ib_row_position batch + ib_num_rows batch),
                  ps_positional_delete = Some stream'\<rparr>))))"

definition pda_batch ::
    "nat \<Rightarrow> (string \<Rightarrow> row_group list result) \<Rightarrow> positional_deletes \<Rightarrow> 'c iceberg_batch \<Rightarrow> pda_state \<Rightarrow>
     ('c iceberg_batch \<times> pda_state) result option" where
  "pda_batch fuel open_file delete_entries batch st =
     (if can_reuse_state batch st then apply_positional fuel batch st
      else if map_of delete_entries (ib_partition batch) = None then
        Some (Inr (batch, \<lparr>ps_current_state = None, ps_positional_delete = None\<rparr>))
      else
        case bindE (GetDeleteUrls delete_entries (ib_partition batch)) (open_delete_stream open_file) of
          Inl err \<Rightarrow> Some (Inl err)
        | Inr stream \<Rightarrow>
            apply_positional fuel batch \<lparr>ps_current_state = None, ps_positional_delete = Some stream\<rparr>)"

definition pda_ReadNext ::
    "nat \<Rightarrow> (string \<Rightarrow> row_group list result) \<Rightarrow> positional_deletes \<Rightarrow> 'c iceberg_batch list \<times> pda_state \<Rightarrow>
     ('c iceberg_batch option \<times> 'c iceberg_batch list \<times> pda_state) result option" where
  "pda_ReadNext fuel open_file delete_entries s =
     (case s of ([], st) \<Rightarrow> Some (Inr (None, [], st))
      | (batch # rest, st) \<Rightarrow>
          (case pda_batch fuel open_file delete_entries batch st of
             None \<Rightarrow> None
           | Some (Inl err) \<Rightarrow> Some (Inl err)
           | Some (Inr (batch', st')) \<Rightarrow> Some (Inr (Some batch', rest, st'))))"

section \<open>Removing relative rows\<close>

lemma DeleteIfEqual_relative:
  assumes "sorted_wrt (<) (ib_selection b)" "sorted rel"
    and "\<And>i. i \<in> set (ib_selection b) \<Longrightarrow> i \<in> set rel \<longleftrightarrow> deleted (ib_row_position b + i)"
  shows "b\<lparr>ib_selection := snd (DeleteIfEqual rel (ib_selection b))\<rparr> = without_rows deleted b"
proof -
  have "filter (\<lambda>x. x \<notin> set rel) (ib_selection b) =
      filter (\<lambda>i. \<not> deleted (ib_row_position b + i)) (ib_selection b)"
    using assms(3) by (intro filter_cong) auto
  then show ?thesis by (simp add: DeleteIfEqual_filter [OF assms(1,2)] EraseIf_def without_rows_def)
qed

lemma to_int32_small: "uint w < 2 ^ 31 \<Longrightarrow> to_int32 w = uint w"
  by (simp add: to_int32_def Let_def)

lemma uint_word_of_int_id: "0 \<le> n \<Longrightarrow> n < 2 ^ 63 \<Longrightarrow> uint (word_of_int n :: 64 word) = n"
  by (simp add: take_bit_int_eq_self_iff unsigned_of_int)

lemma uint_minus_le: "s \<le> w \<Longrightarrow> uint (w - s) = uint w - uint s" for s w :: "64 word"
  by (simp add: uint_sub_if_size word_le_def)

lemma relative_elems:
  fixes p n :: int
  assumes "roaring_ok api elems" "0 \<le> p" "0 < n" "n < 2 ^ 31" "p + n < 2 ^ 63"
  defines "start \<equiv> word_of_int p" and "end' \<equiv> word_of_int p + word_of_int n - 1"
  shows "\<exists>rel. GetRelativeElems api dv start end' = Inr rel \<and> sorted rel \<and>
    (\<forall>i. 0 \<le> i \<longrightarrow> i < n \<longrightarrow> i \<in> set rel \<longleftrightarrow> word_of_int (p + i) \<in> dv_elems elems dv)"
proof -
  have e: "end' = word_of_int (p + n - 1)" by (simp add: end'_def)
  have us: "uint start = p" using assms(2-5) by (simp add: start_def uint_word_of_int_id)
  have ue: "uint end' = p + n - 1" unfolding e using assms(2-5) by (intro uint_word_of_int_id) simp_all
  have se: "start \<le> end'" using us ue assms(3) by (simp add: word_le_def)
  have "uint (end' - start) = n - 1" using uint_minus_le [OF se] us ue by simp
  then have small: "end' - start \<le> 2 ^ 31 - 1" using assms(4) by (simp add: word_le_def)
  let ?E = "dv_elems elems dv \<inter> {start..end'}"
  have rel: "to_int32 (w - start) = uint w - p" if "w \<in> ?E" for w
  proof -
    have w: "start \<le> w" "w \<le> end'" using that by auto
    then have "uint (w - start) = uint w - p" using uint_minus_le [OF w(1)] us by simp
    moreover have "uint w \<le> p + n - 1" using w(2) ue by (simp add: word_le_def)
    ultimately show ?thesis using assms(4) by (subst to_int32_small) simp_all
  qed
  let ?rel = "map (\<lambda>w. uint w - p) (sorted_list_of_set ?E)"
  have "GetRelativeElems api dv start end' = Inr ?rel"
    using small rel by (simp add: GetRelativeElems_def GetElems_interval [OF assms(1)] cong: map_cong)
  moreover have "sorted ?rel"
    unfolding sorted_map
    by (rule sorted_wrt_mono_rel [OF _ sorted_sorted_list_of_set]) (simp add: word_le_def)
  moreover have "i \<in> set ?rel \<longleftrightarrow> word_of_int (p + i) \<in> dv_elems elems dv" if i: "0 \<le> i" "i < n" for i
  proof -
    have u: "uint (word_of_int (p + i) :: 64 word) = p + i"
      using i assms(2,5) by (intro uint_word_of_int_id) simp_all
    then have "word_of_int (p + i) \<in> {start..end'}" using i us ue by (simp add: word_le_def)
    moreover have "uint w - p = i \<longleftrightarrow> w = word_of_int (p + i)" for w :: "64 word"
      using u by (metis add.commute diff_add_cancel diff_eq_eq word_of_int_uint)
    ultimately show ?thesis by (auto simp: image_iff eq_commute [of i])
  qed
  ultimately show ?thesis by blast
qed

text \<open>
  A deletion vector is applied exactly: of a batch with at least one row those rows leave
  the selection whose number in the data file is in the vector, and nothing else changes.
\<close>

lemma ApplyDeletionVector_exact:
  assumes "roaring_ok api elems" "batch_ok b" "0 < ib_num_rows b"
  shows "ApplyDeletionVector api dv b = Inr (without_rows (\<lambda>row. word_of_int row \<in> dv_elems elems dv) b)"
proof -
  let ?p = "ib_row_position b" and ?n = "ib_num_rows b"
  have ok: "0 \<le> ?p" "?n < 2 ^ 31" "?p + ?n < 2 ^ 63" "sorted_wrt (<) (ib_selection b)"
      "\<And>i. i \<in> set (ib_selection b) \<Longrightarrow> 0 \<le> i \<and> i < ?n"
    using assms(2) by (auto simp: batch_ok_def)
  obtain rel where r: "GetRelativeElems api dv (word_of_int ?p) (word_of_int ?p + word_of_int ?n - 1) = Inr rel"
      "sorted rel" "\<And>i. 0 \<le> i \<Longrightarrow> i < ?n \<Longrightarrow> i \<in> set rel \<longleftrightarrow> word_of_int (?p + i) \<in> dv_elems elems dv"
    using relative_elems [OF assms(1) ok(1) assms(3) ok(2,3), of dv] by blast
  have del: "b\<lparr>ib_selection := snd (DeleteIfEqual rel (ib_selection b))\<rparr> =
      without_rows (\<lambda>row. word_of_int row \<in> dv_elems elems dv) b"
    by (rule DeleteIfEqual_relative) (use ok(4,5) r(2,3) in auto)
  moreover have "b = b\<lparr>ib_selection := snd (DeleteIfEqual rel (ib_selection b))\<rparr>" if "rel = []"
    using that DeleteIfEqual_filter [OF ok(4), of "[]"] by (simp add: EraseIf_def)
  ultimately show ?thesis using r(1) by (auto simp: ApplyDeletionVector_def Let_def)
qed

definition example_batch :: "unit iceberg_batch" where
  "example_batch = \<lparr>ib_partition = 0, ib_layer = 1, ib_path = ''a'', ib_row_position = 5, ib_num_rows = 4,
     ib_columns = (), ib_selection = [0, 2, 3]\<rparr>"

lemma example_batch_ok: "batch_ok example_batch"
  by (simp add: batch_ok_def example_batch_def)

lemma ApplyDeletionVector_exact_witness:
  "ApplyDeletionVector set_api example_dv example_batch = Inr (example_batch\<lparr>ib_selection := [0, 3]\<rparr>)"
  using ApplyDeletionVector_exact [OF set_api_ok example_batch_ok, of example_dv]
  by (simp add: example_batch_def example_dv_def without_rows_def)

text \<open>
  A batch without rows is refused: the last row \<open>start + 0 - 1\<close> wraps around below the
  first one, and the distance looks like a batch that is too large.
\<close>

lemma ApplyDeletionVector_empty_batch:
  assumes "ib_num_rows b = 0"
  shows "ApplyDeletionVector api dv b = Inl (Runtime_error ''batch is too large'')"
proof -
  have "\<not> (- 1 :: 64 word) \<le> 2 ^ 31 - 1" by (simp add: word_le_def unsigned_minus_1_eq_mask mask_eq_exp_minus_1)
  then show ?thesis using assms by (simp add: ApplyDeletionVector_def GetRelativeElems_def Let_def)
qed

lemma ApplyDeletionVector_empty_batch_witness:
  "ApplyDeletionVector set_api example_dv (example_batch\<lparr>ib_num_rows := 0, ib_selection := []\<rparr>) =
     Inl (Runtime_error ''batch is too large'')"
  by (rule ApplyDeletionVector_empty_batch) simp

section \<open>Positional deletes over any sequence of batches\<close>

text \<open>
  The delete files of a partition as \<open>GetDeleteUrls\<close> and the opener give them, and the
  rows they delete.  The opener succeeds on every file, the files are well-formed, and
  the number of passes suffices.
\<close>

definition partition_files ::
    "(string \<Rightarrow> row_group list) \<Rightarrow> positional_deletes \<Rightarrow> int \<Rightarrow> (int \<times> row_group list) list" where
  "partition_files groups delete_entries part =
     (case map_of delete_entries part of None \<Rightarrow> [] | Some layers \<Rightarrow>
        concat (map (\<lambda>(l, urls). map (\<lambda>u. (l, groups u)) urls) layers))"

definition deletes_ok ::
    "nat \<Rightarrow> (string \<Rightarrow> row_group list result) \<Rightarrow> (string \<Rightarrow> row_group list) \<Rightarrow> positional_deletes \<Rightarrow> bool" where
  "deletes_ok fuel open_file groups delete_entries \<longleftrightarrow>
     (\<forall>(part, layers) \<in> set delete_entries. omap layers \<and>
        (\<forall>(l, urls) \<in> set layers. \<forall>u \<in> set urls. open_file u = Inr (groups u) \<and> file_ok (groups u)) \<and>
        file_work (concat (map (\<lambda>(l, urls). map (\<lambda>u. (l, groups u)) urls) layers)) < fuel)"

lemma alter_last:
  assumes "\<forall>k' \<in> fst ` set m. k' < k"
  shows "omap_alter k [] f m = m @ [(k, f [])]" "omap_alter k [] f (m @ [(k, us)]) = m @ [(k, f us)]"
  using assms by (induction m) auto

lemma fold_push_urls:
  assumes "\<forall>k' \<in> fst ` set m. k' < l"
  shows "fold (\<lambda>path urls. omap_alter l [] (\<lambda>us. us @ [path]) urls) entries (m @ [(l, us)]) = m @ [(l, us @ entries)]"
  using assms by (induction entries arbitrary: us) (simp_all add: alter_last)

text \<open>The collected locations are those of the entries; a layer without entries does not occur.\<close>

lemma fold_delete_urls:
  assumes "omap layers" "\<forall>k' \<in> fst ` set m. \<forall>k \<in> fst ` set layers. k' < k"
  shows "fold (\<lambda>(l, entries) urls. fold (\<lambda>path urls. omap_alter l [] (\<lambda>us. us @ [path]) urls) entries urls) layers m =
    m @ filter (\<lambda>(l, entries). entries \<noteq> []) layers"
  using assms
proof (induction layers arbitrary: m)
  case (Cons x layers)
  obtain l entries where x: "x = (l, entries)" by (cases x)
  have lt: "\<forall>k' \<in> fst ` set m. k' < l" using Cons.prems(2) x by simp
  have "fold (\<lambda>path urls. omap_alter l [] (\<lambda>us. us @ [path]) urls) entries m =
      m @ filter (\<lambda>(l, entries). entries \<noteq> []) [(l, entries)]"
  proof (cases entries)
    case (Cons e es)
    then show ?thesis using fold_push_urls [OF lt, of es "[e]"] lt by (simp add: alter_last)
  qed simp
  moreover have "\<forall>k' \<in> fst ` set (m @ filter (\<lambda>(l, entries). entries \<noteq> []) [(l, entries)]). \<forall>k \<in> fst ` set layers. k' < k"
    using Cons.prems x by (auto simp: omap_Cons)
  ultimately show ?case
    using Cons.IH [of "m @ filter (\<lambda>(l, entries). entries \<noteq> []) [(l, entries)]"] Cons.prems(1) x
    by (simp add: omap_Cons)
qed simp

lemma concat_nonempty_layers:
  "concat (map (\<lambda>(l, us). map (f l) us) (filter (\<lambda>(l, us). us \<noteq> []) layers)) = concat (map (\<lambda>(l, us). map (f l) us) layers)"
  by (induction layers) auto

lemma open_partition_stream:
  assumes "deletes_ok fuel open_file groups delete_entries" "map_of delete_entries part \<noteq> None"
  shows "bindE (GetDeleteUrls delete_entries part) (open_delete_stream open_file) =
      Inr (mk_stream (#) [] (partition_files groups delete_entries part))"
    and "\<forall>(layer, gs) \<in> set (partition_files groups delete_entries part). file_ok gs"
    and "file_work (partition_files groups delete_entries part) < fuel"
proof -
  obtain layers where l: "map_of delete_entries part = Some layers" using assms(2) by blast
  then have "(part, layers) \<in> set delete_entries" by (rule map_of_SomeD)
  then have ok: "omap layers" "\<And>l urls u. (l, urls) \<in> set layers \<Longrightarrow> u \<in> set urls \<Longrightarrow> open_file u = Inr (groups u) \<and> file_ok (groups u)"
      "file_work (concat (map (\<lambda>(l, urls). map (\<lambda>u. (l, groups u)) urls) layers)) < fuel"
    using bspec [OF assms(1) [unfolded deletes_ok_def], of "(part, layers)"] by force+
  have urls: "GetDeleteUrls delete_entries part = Inr (filter (\<lambda>(l, entries). entries \<noteq> []) layers)"
    using fold_delete_urls [OF ok(1), of "[]"] by (simp add: GetDeleteUrls_def l)
  have "mapE (\<lambda>(layer, url). bindE (open_file url) (\<lambda>gs. Inr (layer, gs)))
      (concat (map (\<lambda>(layer, us). map (Pair layer) us) layers)) =
      Inr (map (\<lambda>(layer, url). (layer, groups url)) (concat (map (\<lambda>(layer, us). map (Pair layer) us) layers)))"
    using ok(2) by (intro mapE_total) fastforce
  moreover have "map (\<lambda>(layer, url). (layer, groups url)) (concat (map (\<lambda>(layer, us). map (Pair layer) us) layers)) =
      partition_files groups delete_entries part"
    by (simp add: partition_files_def l map_concat comp_def split_def)
  ultimately show "bindE (GetDeleteUrls delete_entries part) (open_delete_stream open_file) =
      Inr (mk_stream (#) [] (partition_files groups delete_entries part))"
    using concat_nonempty_layers [of Pair layers] by (simp add: urls open_delete_stream_def)
  show "\<forall>(layer, gs) \<in> set (partition_files groups delete_entries part). file_ok gs"
    using ok(2) by (auto simp: partition_files_def l)
  show "file_work (partition_files groups delete_entries part) < fuel"
    using ok(3) by (simp add: partition_files_def l)
qed

text \<open>The invariant of the applier: an open stream still holds all deletes after the last batch.\<close>

definition pda_ok :: "nat \<Rightarrow> (string \<Rightarrow> row_group list) \<Rightarrow> positional_deletes \<Rightarrow> pda_state \<Rightarrow> bool" where
  "pda_ok fuel groups delete_entries st \<longleftrightarrow>
     (case ps_current_state st of
        None \<Rightarrow> True
      | Some (part, path, pos) \<Rightarrow>
          \<exists>stream. ps_positional_delete st = Some stream \<and>
            stream_holds (contents (partition_files groups delete_entries part)) fuel stream \<and>
            last_end stream = Some (path, pos))"

definition row_deleted :: "(int \<times> record_id) set \<Rightarrow> 'c iceberg_batch \<Rightarrow> int \<Rightarrow> bool" where
  "row_deleted C b row \<longleftrightarrow> (\<exists>l \<ge> ib_layer b. (l, ib_path b, row) \<in> C)"

lemma apply_positional_ok:
  assumes "batch_ok b" "ps_positional_delete st = Some stream" "stream_holds C fuel stream"
    and "case last_end stream of None \<Rightarrow> True | Some x \<Rightarrow> x \<le> (ib_path b, ib_row_position b)"
  shows "\<exists>stream'. apply_positional fuel b st = Some (Inr (without_rows (row_deleted C b) b,
      \<lparr>ps_current_state = Some (ib_partition b, ib_path b, ib_row_position b + ib_num_rows b),
       ps_positional_delete = Some stream'\<rparr>)) \<and>
    stream_holds C fuel stream' \<and> last_end stream' = Some (ib_path b, ib_row_position b + ib_num_rows b)"
proof -
  let ?p = "ib_row_position b" and ?e = "ib_row_position b + ib_num_rows b"
  have be: "?p \<le> ?e" and sel: "sorted_wrt (<) (ib_selection b)"
      "\<And>i. i \<in> set (ib_selection b) \<Longrightarrow> 0 \<le> i \<and> i < ib_num_rows b"
    using assms(1) by (auto simp: batch_ok_def)
  obtain rows stream' where r: "list_GetDeleted fuel (ib_path b) ?p ?e (ib_layer b) stream = Some (Inr (rows, stream'))"
      "sorted_wrt (<) rows" "set rows = deleted_rows C (ib_path b, ?p, ?e, ib_layer b)"
      "stream_holds C fuel stream'" "last_end stream' = Some (ib_path b, ?e)"
    using GetDeleted_step [OF assms(3) be assms(4), of "ib_layer b"] by blast
  have "sorted (map (\<lambda>row. row - ?p) rows)"
    using r(2) by (auto simp: sorted_map sorted_wrt_iff_nth_less less_imp_le)
  moreover have "i \<in> set (map (\<lambda>row. row - ?p) rows) \<longleftrightarrow> row_deleted C b (?p + i)" if "i \<in> set (ib_selection b)" for i
  proof -
    have "i \<in> set (map (\<lambda>row. row - ?p) rows) \<longleftrightarrow> ?p + i \<in> set rows" by (force simp: image_iff)
    then show ?thesis using sel(2) [OF that] by (simp add: r(3) deleted_rows_def row_deleted_def)
  qed
  ultimately have "b\<lparr>ib_selection := snd (DeleteIfEqual (map (\<lambda>row. row - ?p) rows) (ib_selection b))\<rparr> =
      without_rows (row_deleted C b) b"
    by (intro DeleteIfEqual_relative sel(1))
  then show ?thesis using r(1,4,5) by (simp add: apply_positional_def assms(2) Let_def)
qed

lemma pda_batch_ok:
  assumes ok: "deletes_ok fuel open_file groups delete_entries" and b: "batch_ok b"
    and inv: "pda_ok fuel groups delete_entries st"
  shows "\<exists>st'. pda_batch fuel open_file delete_entries b st =
      Some (Inr (without_rows (row_deleted (contents (partition_files groups delete_entries (ib_partition b))) b) b, st')) \<and>
    pda_ok fuel groups delete_entries st'"
proof -
  let ?C = "contents (partition_files groups delete_entries (ib_partition b))"
  have apply_stream: "\<exists>st'. apply_positional fuel b s = Some (Inr (without_rows (row_deleted ?C b) b, st')) \<and>
      pda_ok fuel groups delete_entries st'"
    if "ps_positional_delete s = Some stream" "stream_holds ?C fuel stream"
      "case last_end stream of None \<Rightarrow> True | Some x \<Rightarrow> x \<le> (ib_path b, ib_row_position b)" for s stream
    using apply_positional_ok [OF b that] by (auto simp: pda_ok_def)
  consider (reuse) "can_reuse_state b st"
    | (none) "\<not> can_reuse_state b st" "map_of delete_entries (ib_partition b) = None"
    | (fresh) "\<not> can_reuse_state b st" "map_of delete_entries (ib_partition b) \<noteq> None" by blast
  then show ?thesis
  proof cases
    case reuse
    then obtain path pos where cs: "ps_current_state st = Some (ib_partition b, path, pos)"
        "(path, pos) \<le> (ib_path b, ib_row_position b)"
      by (auto simp: can_reuse_state_def split: option.splits)
    then obtain stream where "ps_positional_delete st = Some stream" "stream_holds ?C fuel stream"
        "last_end stream = Some (path, pos)" using inv by (auto simp: pda_ok_def)
    then show ?thesis using apply_stream [of st stream] cs(2) reuse by (simp add: pda_batch_def)
  next
    case none
    then have "?C = {}" by (simp add: partition_files_def contents_def)
    then have "without_rows (row_deleted ?C b) b = b" by (simp add: row_deleted_def without_rows_def)
    then show ?thesis using none by (simp add: pda_batch_def pda_ok_def)
  next
    case fresh
    note o = open_partition_stream [OF ok fresh(2)]
    let ?s = "\<lparr>ps_current_state = None, ps_positional_delete = Some (mk_stream (#) []
      (partition_files groups delete_entries (ib_partition b)))\<rparr>"
    have "pda_batch fuel open_file delete_entries b st = apply_positional fuel b ?s"
      using fresh o(1) by (auto simp: pda_batch_def)
    then show ?thesis
      using apply_stream [of ?s] mk_stream_holds [OF o(2,3)] by simp
  qed
qed

text \<open>A run over the input: the batches the stream returns until it is exhausted.\<close>

fun pda_run ::
    "nat \<Rightarrow> (string \<Rightarrow> row_group list result) \<Rightarrow> positional_deletes \<Rightarrow> nat \<Rightarrow> 'c iceberg_batch list \<times> pda_state \<Rightarrow>
     'c iceberg_batch list result option" where
  "pda_run fuel open_file delete_entries 0 s = None"
| "pda_run fuel open_file delete_entries (Suc n) s =
     (case pda_ReadNext fuel open_file delete_entries s of
        None \<Rightarrow> None
      | Some (Inl err) \<Rightarrow> Some (Inl err)
      | Some (Inr (None, s')) \<Rightarrow> Some (Inr [])
      | Some (Inr (Some b, s')) \<Rightarrow>
          map_option (\<lambda>r. bindE r (\<lambda>bs. Inr (b # bs))) (pda_run fuel open_file delete_entries n s'))"

lemma pda_run_ok:
  assumes "deletes_ok fuel open_file groups delete_entries"
  shows "\<forall>b \<in> set batches. batch_ok b \<Longrightarrow> pda_ok fuel groups delete_entries st \<Longrightarrow>
    pda_run fuel open_file delete_entries (Suc (length batches)) (batches, st) =
      Some (Inr (map (\<lambda>b. without_rows (row_deleted (contents (partition_files groups delete_entries (ib_partition b))) b) b) batches))"
proof (induction batches arbitrary: st)
  case (Cons b bs)
  obtain st' where "pda_batch fuel open_file delete_entries b st =
      Some (Inr (without_rows (row_deleted (contents (partition_files groups delete_entries (ib_partition b))) b) b, st'))"
      "pda_ok fuel groups delete_entries st'"
    using pda_batch_ok [OF assms, of b st] Cons.prems by auto
  then show ?case using Cons.IH [of st'] Cons.prems(1) by (simp add: pda_ReadNext_def)
qed (simp add: pda_ReadNext_def)

text \<open>
  C20. Positional deletes are applied exactly, whatever the order in which batches arrive:
  for any sequence of batches of any partitions, files and positions the stream ends without
  an error, and each batch loses exactly the selected rows that a delete file of its partition,
  of the same or a later layer, deletes.  Reusing the open stream while batches ascend and
  opening it again otherwise never skips a delete and never breaks the order the stream
  demands.
\<close>

theorem PositionalDeleteApplier_exact:
  assumes "deletes_ok fuel open_file groups delete_entries" "\<forall>b \<in> set batches. batch_ok b"
  shows "pda_run fuel open_file delete_entries (Suc (length batches))
      (batches, \<lparr>ps_current_state = None, ps_positional_delete = None\<rparr>) =
    Some (Inr (map (\<lambda>b. without_rows
      (\<lambda>row. \<exists>l \<ge> ib_layer b. (l, ib_path b, row) \<in> contents (partition_files groups delete_entries (ib_partition b))) b) batches))"
  using pda_run_ok [OF assms(1,2), of "\<lparr>ps_current_state = None, ps_positional_delete = None\<rparr>"]
  unfolding row_deleted_def [abs_def] by (simp add: pda_ok_def)

theorem PositionalDeleteApplier_exact_witness:
  "pda_run 20 (\<lambda>u. Inr (snd (example_files ! (if u = ''d1'' then 0 else 1)))) [(0, [(1, [''d1'']), (3, [''d2''])])] 4
     ([example_batch, example_batch\<lparr>ib_row_position := 0\<rparr>, example_batch\<lparr>ib_partition := 7\<rparr>],
      \<lparr>ps_current_state = None, ps_positional_delete = None\<rparr>) =
   Some (Inr [example_batch\<lparr>ib_selection := [3]\<rparr>, example_batch\<lparr>ib_row_position := 0, ib_selection := [0, 3]\<rparr>,
     example_batch\<lparr>ib_partition := 7\<rparr>])"
proof -
  let ?g = "\<lambda>u :: string. snd (example_files ! (if u = ''d1'' then 0 else 1))"
  let ?d = "[(0, [(1, [''d1'']), (3, [''d2''])])] :: positional_deletes"
  let ?bs = "[example_batch, example_batch\<lparr>ib_row_position := 0\<rparr>, example_batch\<lparr>ib_partition := 7\<rparr>]"
  have ok: "deletes_ok 20 (\<lambda>u. Inr (?g u)) ?g ?d"
    by (simp add: deletes_ok_def omap_def example_files_def file_ok_def group_ok_def file_work_def less_eq_prod_def
      list_less_def list_le_def)
  have files: "(\<exists>l \<ge> 1. (l, ''a'', row) \<in> contents (partition_files ?g ?d 0)) \<longleftrightarrow> row \<in> {2, 5, 7}"
      "contents (partition_files ?g ?d 7) = {}" for row
    by (auto simp: partition_files_def contents_def example_files_def)
  have "\<forall>b \<in> set ?bs. batch_ok b" by (simp add: batch_ok_def example_batch_def)
  from PositionalDeleteApplier_exact [OF ok this] show ?thesis
    unfolding list.map without_rows_def example_batch_def iceberg_batch.simps files
    by (simp add: numeral_eq_Suc del: pda_run.simps)
qed

end
