(* ===== verification/Equality_Handler.thy ===== *)
theory Equality_Handler
  imports Equality_Stores Delete_Appliers
begin

text \<open>
  \<open>EqualityDeleteHandler\<close> (\<open>equality_delete/handler.cpp\<close>), which reads equality delete files
  into stores, one per set of delete columns, and \<open>EqualityDeleteApplier\<close> and
  \<open>FieldIdMapper\<close> (\<open>streams/iceberg\<close>), which apply them to batches.  An opened delete file is
  what the Parquet reader tells of it: its number of rows, the field identifiers of its top-level
  columns, its number of row groups, and the batches it delivers for a choice of row groups and
  columns.  Memory accounting and logging are left out.
\<close>

section \<open>Delete files\<close>

record eq_reader =
  er_num_rows :: int
  er_field_ids :: "int list"
  er_num_row_groups :: nat
  er_batches :: "nat list \<Rightarrow> nat list \<Rightarrow> (arrow_type list \<times> (column list \<times> nat) list) result"

definition GetParquetFieldIds :: "eq_reader \<Rightarrow> int list" where
  "GetParquetFieldIds reader = er_field_ids reader"

definition position_step :: "int list \<Rightarrow> nat \<times> int \<Rightarrow> (int \<times> nat) list \<Rightarrow> (int \<times> nat) list" where
  "position_step field_ids p m =
     (case p of (i, fid) \<Rightarrow> if fid \<in> set field_ids then omap_alter fid i id m else m)"

definition PrepareRecordBatchReader ::
    "eq_reader \<Rightarrow> int list \<Rightarrow> (arrow_type list \<times> (column list \<times> nat) list) result" where
  "PrepareRecordBatchReader reader field_ids =
     (let field_id_to_position =
            fold (position_step field_ids) (enumerate 0 (GetParquetFieldIds reader)) [] in
      bindE (foldE (\<lambda>fid _. if map_of field_id_to_position fid = None
          then Inl (Execution_error ''Column with field id is not found in equality delete file'') else Inr ())
        field_ids ()) (\<lambda>_.
      let columns = map snd field_id_to_position;
          row_groups = [0..<er_num_row_groups reader] in
      er_batches reader row_groups columns))"

definition ParseEqualityDeleteFile ::
    "(arrow_type \<Rightarrow> int) \<Rightarrow> (column list \<times> nat) list \<Rightarrow> int \<Rightarrow> equality_delete \<Rightarrow> equality_delete result" where
  "ParseEqualityDeleteFile bw batches delete_layer d =
     foldE (\<lambda>(arrays, n). store_Add bw arrays n delete_layer) batches d"

section \<open>The handler\<close>

record eq_config =
  ec_max_rows :: nat
  ec_use_specialized_deletes :: bool

text \<open>
  The stores by the sorted set of their field identifiers, the stores that are relevant for
  the current file (pointers into the first map, by their key), and these with the columns of the
  current batch.
\<close>

record eq_handler =
  eh_current_rows :: nat
  eh_config :: eq_config
  eh_materialized_deletes :: "(int list \<times> equality_delete) list"
  eh_for_current_row_group :: "int list list"
  eh_prepared_batches :: "(int list \<times> column list) list"
  eh_current_data_layer :: "int option"

definition mk_handler :: "eq_config \<Rightarrow> eq_handler" where
  "mk_handler config =
     \<lparr>eh_current_rows = 0, eh_config = config, eh_materialized_deletes = [], eh_for_current_row_group = [],
      eh_prepared_batches = [], eh_current_data_layer = None\<rparr>"

definition AppendDelete ::
    "(arrow_type \<Rightarrow> int) \<Rightarrow> (string \<Rightarrow> eq_reader result) \<Rightarrow> string \<Rightarrow> int list \<Rightarrow> int \<Rightarrow> eq_handler \<Rightarrow> eq_handler result" where
  "AppendDelete bw open_url url field_ids_vec delete_layer h =
     bindE (open_url url) (\<lambda>reader.
       let rows_in_file = er_num_rows reader in
       if (int (eh_current_rows h) + rows_in_file) mod 2 ^ 64 > int (ec_max_rows (eh_config h)) then
         Inl (Execution_error ''Equality delete rows limit exceeded'')
       else
         let field_ids = sort (remdups field_ids_vec) in
         bindE (PrepareRecordBatchReader reader field_ids) (\<lambda>(schema, batches).
         bindE (case map_of (eh_materialized_deletes h) field_ids of
                  Some d \<Rightarrow> Inr d
                | None \<Rightarrow> MakeEqualityDelete schema (ec_use_specialized_deletes (eh_config h))) (\<lambda>d.
         bindE (ParseEqualityDeleteFile bw batches delete_layer d) (\<lambda>d'.
           let mat = omap_alter field_ids d' (\<lambda>_. d') (eh_materialized_deletes h) in
           Inr (h\<lparr>eh_materialized_deletes := mat,
                  eh_current_rows := sum_list (map (store_Size \<circ> snd) mat) mod 2 ^ 64\<rparr>)))))"

definition PrepareDeletesForFile :: "int \<Rightarrow> eq_handler \<Rightarrow> bool \<times> eq_handler" where
  "PrepareDeletesForFile data_layer h =
     (let ks = map fst (filter (\<lambda>(ids, d). store_Size d > 0) (eh_materialized_deletes h)) in
      (ks \<noteq> [], h\<lparr>eh_current_data_layer := Some data_layer, eh_for_current_row_group := ks\<rparr>))"

definition GetEqualityDeleteFieldIds :: "eq_handler \<Rightarrow> int list" where
  "GetEqualityDeleteFieldIds h = remdups (concat (map fst (eh_materialized_deletes h)))"

definition at :: "('k \<times> 'v) list \<Rightarrow> 'k \<Rightarrow> 'v result" where
  "at m k = (case map_of m k of None \<Rightarrow> Inl Out_of_range | Some v \<Rightarrow> Inr v)"

definition PrepareDeletesForBatch :: "(int \<times> column) list \<Rightarrow> eq_handler \<Rightarrow> eq_handler result" where
  "PrepareDeletesForBatch field_id_to_array h =
     bindE (mapE (\<lambda>ids. bindE (mapE (at field_id_to_array) ids) (\<lambda>batch. Inr (ids, batch)))
       (eh_for_current_row_group h)) (\<lambda>prepared.
     Inr (h\<lparr>eh_prepared_batches := prepared\<rparr>))"

fun any_deleted ::
    "(arrow_type \<Rightarrow> int) \<Rightarrow> (int list \<times> equality_delete) list \<Rightarrow> nat \<Rightarrow> int \<Rightarrow> (int list \<times> column list) list \<Rightarrow> bool result" where
  "any_deleted bw mat row data_layer [] = Inr False"
| "any_deleted bw mat row data_layer ((ids, arrays) # prepared) =
     bindE (at mat ids) (\<lambda>d.
     bindE (store_IsDeleted bw arrays row data_layer d) (\<lambda>del.
       if del then Inr True else any_deleted bw mat row data_layer prepared))"

definition handler_IsDeleted :: "(arrow_type \<Rightarrow> int) \<Rightarrow> nat \<Rightarrow> eq_handler \<Rightarrow> bool result" where
  "handler_IsDeleted bw row h =
     (case eh_current_data_layer h of
        None \<Rightarrow> Inl (Runtime_error ''current_data_layer is not set'')
      | Some l \<Rightarrow> any_deleted bw (eh_materialized_deletes h) row l (eh_prepared_batches h))"

section \<open>Column names\<close>

definition unnamed_column :: "nat \<Rightarrow> int \<Rightarrow> string" where
  "unnamed_column c field_id = ''__unnamed_c'' @ nat_to_string c @ ''_f'' @ to_string field_id"

text \<open>The two numbers are recovered from the name, so that names are never shared.\<close>

lemma unnamed_column_inject:
  "unnamed_column c i = unnamed_column c' i' \<longleftrightarrow> c = c' \<and> i = i'"
proof
  assume eq: "unnamed_column c i = unnamed_column c' i'"
  have tw: "takeWhile is_digit (nat_to_string n @ ''_f'' @ to_string j) = nat_to_string n"
    "dropWhile is_digit (nat_to_string n @ ''_f'' @ to_string j) = ''_f'' @ to_string j" for n j
  proof -
    have d: "\<And>x. x \<in> set (nat_to_string n) \<Longrightarrow> is_digit x" by (rule nat_to_string_digits)
    show "takeWhile is_digit (nat_to_string n @ ''_f'' @ to_string j) = nat_to_string n"
      using d by (subst takeWhile_append2) (auto simp: is_digit_def)
    show "dropWhile is_digit (nat_to_string n @ ''_f'' @ to_string j) = ''_f'' @ to_string j"
      using d by (subst dropWhile_append2) (auto simp: is_digit_def)
  qed
  have "nat_to_string c @ ''_f'' @ to_string i = nat_to_string c' @ ''_f'' @ to_string i'"
    using eq by (simp add: unnamed_column_def)
  then have "nat_to_string c = nat_to_string c'" "''_f'' @ to_string i = ''_f'' @ to_string i'"
    using tw by metis+
  then show "c = c' \<and> i = i'" by simp
qed simp

function GenerateNameForUnnamedColumn :: "string list \<Rightarrow> int \<Rightarrow> nat \<Rightarrow> string" where
  "GenerateNameForUnnamedColumn used_names field_id c =
     (if unnamed_column c field_id \<in> set used_names then GenerateNameForUnnamedColumn used_names field_id (Suc c)
      else unnamed_column c field_id)"
  by pat_completeness auto
termination
proof (relation "measure (\<lambda>(used, i, c). card {d. c \<le> d \<and> unnamed_column d i \<in> set used})")
  fix used :: "string list" and i c
  assume used: "unnamed_column c i \<in> set used"
  have "inj_on (\<lambda>d. unnamed_column d i) {d. c \<le> d \<and> unnamed_column d i \<in> set used}"
    by (rule inj_onI) (simp add: unnamed_column_inject)
  moreover have "(\<lambda>d. unnamed_column d i) ` {d. c \<le> d \<and> unnamed_column d i \<in> set used} \<subseteq> set used" by auto
  ultimately have "finite {d. c \<le> d \<and> unnamed_column d i \<in> set used}"
    using inj_on_finite by blast
  moreover have "{d. Suc c \<le> d \<and> unnamed_column d i \<in> set used} \<subset> {d. c \<le> d \<and> unnamed_column d i \<in> set used}"
  proof (rule psubsetI)
    have "c \<in> {d. c \<le> d \<and> unnamed_column d i \<in> set used} - {d. Suc c \<le> d \<and> unnamed_column d i \<in> set used}"
      using used by simp
    then show "{d. Suc c \<le> d \<and> unnamed_column d i \<in> set used} \<noteq> {d. c \<le> d \<and> unnamed_column d i \<in> set used}"
      by blast
  qed auto
  ultimately show "((used, i, Suc c), used, i, c) \<in> measure (\<lambda>(used, i, c). card {d. c \<le> d \<and> unnamed_column d i \<in> set used})"
    by (simp add: psubset_card_mono)
qed simp

declare GenerateNameForUnnamedColumn.simps [simp del]

definition FieldIdToColumnName :: "(int \<times> string) list \<Rightarrow> int \<Rightarrow> string" where
  "FieldIdToColumnName known_field_id_to_name field_id =
     (case map_of known_field_id_to_name field_id of
        Some name \<Rightarrow> name
      | None \<Rightarrow> GenerateNameForUnnamedColumn (map snd known_field_id_to_name) field_id 0)"

section \<open>The applier\<close>

type_synonym equality_deletes = "(int \<times> (int \<times> (string \<times> int list) list) list) list"

definition GetFieldIds :: "equality_deletes \<Rightarrow> int \<Rightarrow> int \<Rightarrow> int list" where
  "GetFieldIds partlayer_to_deletes part layer =
     (case map_of partlayer_to_deletes part of
        None \<Rightarrow> []
      | Some layers \<Rightarrow>
          sort (remdups (concat (map (\<lambda>(layer_id, deletes).
            if layer_id < layer then [] else concat (map snd deletes)) layers))))"

record eda_state =
  ea_handler :: "eq_handler option"
  ea_current_state :: "int option"

definition SetDeletes ::
    "(arrow_type \<Rightarrow> int) \<Rightarrow> (string \<Rightarrow> eq_reader result) \<Rightarrow> equality_deletes \<Rightarrow> int \<Rightarrow> eq_handler \<Rightarrow> eq_handler result" where
  "SetDeletes bw open_url partlayer_to_deletes part h =
     (case map_of partlayer_to_deletes part of
        None \<Rightarrow> Inr h
      | Some layers \<Rightarrow>
          foldE (\<lambda>(layer_id, deletes). foldE (\<lambda>(path, field_ids). AppendDelete bw open_url path field_ids layer_id) deletes)
            layers h)"

definition MakeFieldIdToArray ::
    "('c \<Rightarrow> string \<Rightarrow> column option) \<Rightarrow> (int \<times> string) list \<Rightarrow> 'c iceberg_batch \<Rightarrow> eq_handler \<Rightarrow> (int \<times> column) list result" where
  "MakeFieldIdToArray GetColumnByName mapper batch h =
     foldE (\<lambda>fid m.
       case GetColumnByName (ib_columns batch) (FieldIdToColumnName mapper fid) of
         None \<Rightarrow> Inl (Runtime_error ''EqualityDeleteApplier: column is not found'')
       | Some array \<Rightarrow> Inr (omap_alter fid array id m)) (GetEqualityDeleteFieldIds h) []"

text \<open>\<open>EraseIf\<close> with a predicate that may throw.\<close>

fun erase_if :: "(int \<Rightarrow> bool result) \<Rightarrow> selection \<Rightarrow> selection result" where
  "erase_if p [] = Inr []"
| "erase_if p (x # xs) = bindE (p x) (\<lambda>del. bindE (erase_if p xs) (\<lambda>r. Inr (if del then r else x # r)))"

definition ApplyDeletes ::
    "(arrow_type \<Rightarrow> int) \<Rightarrow> ('c \<Rightarrow> string \<Rightarrow> column option) \<Rightarrow> (int \<times> string) list \<Rightarrow> 'c iceberg_batch \<Rightarrow> eda_state \<Rightarrow>
     ('c iceberg_batch \<times> eda_state) result" where
  "ApplyDeletes bw GetColumnByName mapper batch st =
     (case (ea_handler st, ea_current_state st) of
        (Some h, Some part) \<Rightarrow>
          bindE (ensure (ib_partition batch = part) ''internal error'') (\<lambda>_.
            let (found, h1) = PrepareDeletesForFile (ib_layer batch) h in
            if \<not> found then Inr (batch, st\<lparr>ea_handler := Some h1\<rparr>)
            else
              bindE (MakeFieldIdToArray GetColumnByName mapper batch h1) (\<lambda>arrays.
              bindE (PrepareDeletesForBatch arrays h1) (\<lambda>h2.
              bindE (erase_if (\<lambda>row. handler_IsDeleted bw (nat row) h2) (ib_selection batch)) (\<lambda>sel.
              Inr (batch\<lparr>ib_selection := sel\<rparr>, st\<lparr>ea_handler := Some h2\<rparr>)))))
      | _ \<Rightarrow> Inl Bad_optional_access)"

definition eda_batch ::
    "(arrow_type \<Rightarrow> int) \<Rightarrow> (string \<Rightarrow> eq_reader result) \<Rightarrow> eq_config \<Rightarrow> equality_deletes \<Rightarrow>
     ('c \<Rightarrow> string \<Rightarrow> column option) \<Rightarrow> (int \<times> string) list \<Rightarrow> 'c iceberg_batch \<Rightarrow> eda_state \<Rightarrow>
     ('c iceberg_batch \<times> eda_state) result" where
  "eda_batch bw open_url config deletes GetColumnByName mapper batch st =
     bindE (if ea_current_state st = Some (ib_partition batch) then Inr st
            else bindE (SetDeletes bw open_url deletes (ib_partition batch) (mk_handler config)) (\<lambda>h.
              Inr \<lparr>ea_handler = Some h, ea_current_state = Some (ib_partition batch)\<rparr>))
       (ApplyDeletes bw GetColumnByName mapper batch)"

definition eda_ReadNext ::
    "(arrow_type \<Rightarrow> int) \<Rightarrow> (string \<Rightarrow> eq_reader result) \<Rightarrow> eq_config \<Rightarrow> equality_deletes \<Rightarrow>
     ('c \<Rightarrow> string \<Rightarrow> column option) \<Rightarrow> (int \<times> string) list \<Rightarrow> 'c iceberg_batch list \<times> eda_state \<Rightarrow>
     ('c iceberg_batch option \<times> 'c iceberg_batch list \<times> eda_state) result" where
  "eda_ReadNext bw open_url config deletes GetColumnByName mapper s =
     (case s of ([], st) \<Rightarrow> Inr (None, [], st)
      | (batch # rest, st) \<Rightarrow>
          bindE (eda_batch bw open_url config deletes GetColumnByName mapper batch st) (\<lambda>(b, st').
          Inr (Some b, rest, st')))"

end
