(* ===== verification/Equality_Correctness.thy ===== *)
theory Equality_Correctness
  imports Equality_Handler
begin

text \<open>
  Correctness of the handler and the applier of equality deletes: delete files are read with
  the right columns in the right order, the stores represent exactly the rows of the files
  that were appended, and a batch loses exactly the rows that some delete file of its
  partition, of the same or a later layer, matches on its delete columns.
\<close>

section \<open>Columns of a delete file\<close>

definition index_of :: "int list \<Rightarrow> int \<Rightarrow> nat" where
  "index_of fids fid = length (takeWhile (\<lambda>x. x \<noteq> fid) fids)"

lemma index_of_snoc: "index_of (fids @ [x]) fid = (if fid \<in> set fids then index_of fids fid else if x = fid then length fids else Suc (length fids))"
  by (induction fids) (auto simp: index_of_def)

lemma position_fold:
  "omap (fold (position_step ids) (enumerate 0 fids) []) \<and>
    (\<forall>fid. map_of (fold (position_step ids) (enumerate 0 fids) []) fid =
      (if fid \<in> set ids \<inter> set fids then Some (index_of fids fid) else None))"
proof (induction fids rule: rev_induct)
  case (snoc x fids)
  obtain m where m: "m = fold (position_step ids) (enumerate 0 fids) []" by simp
  then have m': "omap m" "\<And>fid. map_of m fid = (if fid \<in> set ids \<inter> set fids then Some (index_of fids fid) else None)"
    using snoc by auto
  have eq: "fold (position_step ids) (enumerate 0 (fids @ [x])) [] = position_step ids (length fids, x) m"
    by (simp add: enumerate_append_eq m)
  show ?case
    unfolding eq using m'(1) by (auto simp: position_step_def m'(2) map_of_omap_alter index_of_snoc)
qed simp

text \<open>The positions of the wanted columns, in ascending order of their field identifiers.\<close>

lemma PrepareRecordBatchReader_eq:
  assumes "sorted_wrt (<) ids" "set ids \<subseteq> set (er_field_ids reader)"
  shows "PrepareRecordBatchReader reader ids =
    er_batches reader [0..<er_num_row_groups reader] (map (index_of (er_field_ids reader)) ids)"
proof -
  let ?m = "fold (position_step ids) (enumerate 0 (er_field_ids reader)) []"
  let ?m' = "map (\<lambda>i. (i, index_of (er_field_ids reader) i)) ids"
  have m: "omap ?m" "map_of ?m fid = (if fid \<in> set ids \<inter> set (er_field_ids reader) then Some (index_of (er_field_ids reader) fid) else None)" for fid
    using position_fold [of ids "er_field_ids reader"] by (auto simp: Let_def)
  have om: "omap ?m'" using assms(1) by (simp add: omap_def comp_def)
  have "map_of ?m = map_of ?m'"
    using assms(2) by (auto simp: m(2) fun_eq_iff map_of_map_restrict restrict_map_def)
  then have "?m = ?m'" using om.entries_determined [OF m(1) om] by simp
  moreover have "foldE (\<lambda>fid _. if map_of ?m fid = None
      then Inl (Execution_error ''Column with field id is not found in equality delete file'') else Inr ()) ids () = Inr ()"
  proof -
    have "foldE (\<lambda>fid _. if map_of ?m fid = None
      then Inl (Execution_error ''Column with field id is not found in equality delete file'') else Inr ()) ids () =
      Inr (fold (\<lambda>fid u. u) ids ())"
      using assms(2) by (intro foldE_total) (auto simp: m(2))
    then show ?thesis by (metis (full_types) old.unit.exhaust)
  qed
  ultimately show ?thesis
    by (simp add: PrepareRecordBatchReader_def GetParquetFieldIds_def Let_def comp_def)
qed

section \<open>The handler represents the appended files\<close>

definition field_set :: "int list \<Rightarrow> int list" where
  "field_set ids = sort (remdups ids)"

lemma field_set_sorted: "sorted_wrt (<) (field_set ids)" "set (field_set ids) = set ids"
  by (simp_all add: field_set_def strict_sorted_iff)

text \<open>
  A readable delete file: it opens, has the delete columns, and delivers batches of these
  columns, in this order, with the types of the fields.
\<close>

definition delete_file_ok ::
    "(int \<Rightarrow> arrow_type) \<Rightarrow> (string \<Rightarrow> eq_reader result) \<Rightarrow> (string \<Rightarrow> int list \<Rightarrow> (column list \<times> nat) list) \<Rightarrow>
     string \<Rightarrow> int list \<Rightarrow> bool" where
  "delete_file_ok ty open_url rows path ids \<longleftrightarrow>
     (\<exists>reader. open_url path = Inr reader \<and> set ids \<subseteq> set (er_field_ids reader) \<and> length (field_set ids) \<le> 64 \<and>
        er_batches reader [0..<er_num_row_groups reader] (map (index_of (er_field_ids reader)) (field_set ids)) =
          Inr (map ty (field_set ids), rows path (field_set ids)) \<and>
        (\<forall>(cols, n) \<in> set (rows path (field_set ids)). faithful_columns (map ty (field_set ids)) cols \<and> batch_rows cols n))"

definition file_deletes :: "(column list \<times> nat) list \<Rightarrow> int \<Rightarrow> row_deletes" where
  "file_deletes batches l = (\<Union>(cols, n) \<in> set batches. batch_deletes cols n l)"

definition entry_holds ::
    "(arrow_type \<Rightarrow> int) \<Rightarrow> (int \<Rightarrow> arrow_type) \<Rightarrow> row_deletes \<Rightarrow> int list \<Rightarrow> equality_delete option \<Rightarrow> bool" where
  "entry_holds bw ty D ids e =
     (case e of None \<Rightarrow> D = {}
      | Some d \<Rightarrow> st.represents (map ty ids) d D \<and>
          (\<forall>cols. faithful_columns (map ty ids) cols \<longrightarrow> store_fits bw (map ty ids) d cols))"

lemma entry_holds_simps [simp]:
  "entry_holds bw ty D ids None \<longleftrightarrow> D = {}"
  "entry_holds bw ty D ids (Some d) \<longleftrightarrow> st.represents (map ty ids) d D \<and>
     (\<forall>cols. faithful_columns (map ty ids) cols \<longrightarrow> store_fits bw (map ty ids) d cols)"
  by (simp_all add: entry_holds_def)

definition handler_holds ::
    "(arrow_type \<Rightarrow> int) \<Rightarrow> (int \<Rightarrow> arrow_type) \<Rightarrow> (int list \<Rightarrow> row_deletes) \<Rightarrow> eq_handler \<Rightarrow> bool" where
  "handler_holds bw ty D h \<longleftrightarrow> ec_max_rows (eh_config h) = 2 ^ 64 - 1 \<and> omap (eh_materialized_deletes h) \<and>
     (\<forall>ids. entry_holds bw ty (D ids) ids (map_of (eh_materialized_deletes h) ids))"

lemma handler_holds_entry:
  "handler_holds bw ty D h \<Longrightarrow> entry_holds bw ty (D ids) ids (map_of (eh_materialized_deletes h) ids)"
  by (simp add: handler_holds_def)

lemma ParseEqualityDeleteFile_ok:
  assumes "byte_width_ok bw" "\<forall>(cols, n) \<in> set batches. faithful_columns tys cols \<and> batch_rows cols n"
    and "st.represents tys d D" "\<forall>cols. faithful_columns tys cols \<longrightarrow> store_fits bw tys d cols"
  shows "\<exists>d'. ParseEqualityDeleteFile bw batches l d = Inr d' \<and> st.represents tys d' (D \<union> file_deletes batches l) \<and>
    (\<forall>cols. faithful_columns tys cols \<longrightarrow> store_fits bw tys d' cols)"
proof -
  let ?adds = "map (\<lambda>(cols, n). (cols, n, l)) batches"
  have "foldE (\<lambda>(cols, n, l). store_Add bw cols n l) (map (\<lambda>(cols, n). (cols, n, l)) bs) e =
      foldE (\<lambda>(arrays, n). store_Add bw arrays n l) bs e" for bs e
    by (induction bs arbitrary: e) (auto simp: bindE_def split: sum.splits)
  then have eq: "AddAll bw ?adds d = ParseEqualityDeleteFile bw batches l d"
    by (simp add: AddAll_def ParseEqualityDeleteFile_def)
  have "(\<Union>(cols, n, l) \<in> set ?adds. batch_deletes cols n l) = file_deletes batches l"
    by (auto simp: file_deletes_def)
  moreover have "\<forall>(cols, n, l) \<in> set ?adds. faithful_columns tys cols \<and> batch_rows cols n"
    using assms(2) by auto
  ultimately show ?thesis
    using AddAll_represents [OF assms(1) _ assms(3,4), of ?adds] unfolding eq by simp
qed

lemma AppendDelete_ok:
  assumes bw: "byte_width_ok bw" and h: "handler_holds bw ty D h" and f: "delete_file_ok ty open_url rows path ids"
  shows "\<exists>h'. AppendDelete bw open_url path ids l h = Inr h' \<and>
    fst ` set (eh_materialized_deletes h') = insert (field_set ids) (fst ` set (eh_materialized_deletes h)) \<and>
    handler_holds bw ty (D(field_set ids := D (field_set ids) \<union> file_deletes (rows path (field_set ids)) l)) h'"
proof -
  let ?ids = "field_set ids" and ?mat = "eh_materialized_deletes h"
  obtain reader where r: "open_url path = Inr reader" "set ids \<subseteq> set (er_field_ids reader)" "length ?ids \<le> 64"
      "er_batches reader [0..<er_num_row_groups reader] (map (index_of (er_field_ids reader)) ?ids) =
         Inr (map ty ?ids, rows path ?ids)"
      "\<forall>(cols, n) \<in> set (rows path ?ids). faithful_columns (map ty ?ids) cols \<and> batch_rows cols n"
    using f unfolding delete_file_ok_def by blast
  have prep: "PrepareRecordBatchReader reader ?ids = Inr (map ty ?ids, rows path ?ids)"
    using PrepareRecordBatchReader_eq [of ?ids reader] field_set_sorted r(2,4) by simp
  have "(int (eh_current_rows h) + er_num_rows reader) mod 2 ^ 64 < 2 ^ 64" by simp
  then have limit: "\<not> (int (eh_current_rows h) + er_num_rows reader) mod 2 ^ 64 > int (ec_max_rows (eh_config h))"
    using h by (simp add: handler_holds_def)
  obtain d where d: "(case map_of ?mat ?ids of Some d \<Rightarrow> Inr d
        | None \<Rightarrow> MakeEqualityDelete (map ty ?ids) (ec_use_specialized_deletes (eh_config h))) = Inr d"
      "st.represents (map ty ?ids) d (D ?ids)" "\<forall>cols. faithful_columns (map ty ?ids) cols \<longrightarrow> store_fits bw (map ty ?ids) d cols"
  proof (cases "map_of ?mat ?ids")
    case None
    then have D: "D ?ids = {}" using handler_holds_entry [OF h, of ?ids] by simp
    obtain s where "MakeEqualityDelete (map ty ?ids) (ec_use_specialized_deletes (eh_config h)) = Inr s"
        "fresh_store bw (map ty ?ids) s"
      using MakeEqualityDelete_fresh [of "map ty ?ids"] r(3) by (metis length_map)
    then show ?thesis using that [of s] None D bw unfolding fresh_store_def by auto
  next
    case (Some d)
    then have "st.represents (map ty ?ids) d (D ?ids) \<and>
        (\<forall>cols. faithful_columns (map ty ?ids) cols \<longrightarrow> store_fits bw (map ty ?ids) d cols)"
      using handler_holds_entry [OF h, of ?ids] by simp
    then show ?thesis using that [of d] Some by simp
  qed
  obtain d' where d': "ParseEqualityDeleteFile bw (rows path ?ids) l d = Inr d'"
      "st.represents (map ty ?ids) d' (D ?ids \<union> file_deletes (rows path ?ids) l)"
      "\<forall>cols. faithful_columns (map ty ?ids) cols \<longrightarrow> store_fits bw (map ty ?ids) d' cols"
    using ParseEqualityDeleteFile_ok [OF bw r(5) d(2,3), of l] by blast
  let ?mat' = "omap_alter ?ids d' (\<lambda>_. d') ?mat"
  let ?h' = "h\<lparr>eh_materialized_deletes := ?mat', eh_current_rows := sum_list (map (store_Size \<circ> snd) ?mat') mod 2 ^ 64\<rparr>"
  have "AppendDelete bw open_url path ids l h = Inr ?h'"
    using r(1) limit prep d(1) d'(1) by (simp add: AppendDelete_def Let_def flip: field_set_def)
  moreover have om: "omap ?mat" using h by (simp add: handler_holds_def)
  have "handler_holds bw ty (D(?ids := D ?ids \<union> file_deletes (rows path ?ids) l)) ?h'"
    unfolding handler_holds_def
  proof (intro conjI allI)
    fix js
    show "entry_holds bw ty ((D(?ids := D ?ids \<union> file_deletes (rows path ?ids) l)) js) js
        (map_of (eh_materialized_deletes ?h') js)"
      using d' handler_holds_entry [OF h, of js] om by (simp add: map_of_omap_alter)
  qed (use h om in \<open>simp_all add: handler_holds_def\<close>)
  ultimately show ?thesis by auto
qed

section \<open>The deletes of a partition\<close>

text \<open>The delete files of a partition with their layers, in the order they are appended.\<close>

definition delete_files :: "equality_deletes \<Rightarrow> int \<Rightarrow> (int \<times> string \<times> int list) list" where
  "delete_files deletes part =
     (case map_of deletes part of None \<Rightarrow> []
      | Some layers \<Rightarrow> concat (map (\<lambda>(l, ds). map (Pair l) ds) layers))"

definition deletes_of ::
    "(string \<Rightarrow> int list \<Rightarrow> (column list \<times> nat) list) \<Rightarrow> (int \<times> string \<times> int list) list \<Rightarrow> int list \<Rightarrow> row_deletes" where
  "deletes_of rows files ids = (\<Union>(l, path, fids) \<in> set files. if field_set fids = ids then file_deletes (rows path ids) l else {})"

lemma SetDeletes_flat:
  "SetDeletes bw open_url deletes part h =
     foldE (\<lambda>(l, path, ids). AppendDelete bw open_url path ids l) (delete_files deletes part) h"
proof -
  have inner: "foldE (\<lambda>(l, path, ids). g path ids l) (map (Pair l) ds) h =
      foldE (\<lambda>(path, ids). g path ids l) ds h" for g :: "string \<Rightarrow> int list \<Rightarrow> int \<Rightarrow> eq_handler \<Rightarrow> eq_handler result" and l ds h
    by (induction ds arbitrary: h) (auto simp: bindE_def split: sum.splits)
  have "foldE (\<lambda>(l, ds). foldE (\<lambda>(path, ids). g path ids l) ds) layers h =
      foldE (\<lambda>(l, path, ids). g path ids l) (concat (map (\<lambda>(l, ds). map (Pair l) ds) layers)) h"
    for g :: "string \<Rightarrow> int list \<Rightarrow> int \<Rightarrow> eq_handler \<Rightarrow> eq_handler result" and layers h
    by (induction layers arbitrary: h) (auto simp: foldE_append inner bindE_def split: sum.splits)
  then show ?thesis by (simp add: SetDeletes_def delete_files_def split: option.splits)
qed

lemma append_files:
  assumes bw: "byte_width_ok bw"
  shows "\<forall>(l, path, ids) \<in> set files. delete_file_ok ty open_url rows path ids \<Longrightarrow> handler_holds bw ty D h \<Longrightarrow>
    \<exists>h'. foldE (\<lambda>(l, path, ids). AppendDelete bw open_url path ids l) files h = Inr h' \<and>
      fst ` set (eh_materialized_deletes h') =
        fst ` set (eh_materialized_deletes h) \<union> (\<lambda>(l, path, ids). field_set ids) ` set files \<and>
      handler_holds bw ty (\<lambda>ids. D ids \<union> deletes_of rows files ids) h'"
proof (induction files arbitrary: D h)
  case (Cons x files)
  obtain l path ids where x: "x = (l, path, ids)" by (cases x)
  let ?D = "D(field_set ids := D (field_set ids) \<union> file_deletes (rows path (field_set ids)) l)"
  obtain h1 where h1: "AppendDelete bw open_url path ids l h = Inr h1"
      "fst ` set (eh_materialized_deletes h1) = insert (field_set ids) (fst ` set (eh_materialized_deletes h))"
      "handler_holds bw ty ?D h1"
    using AppendDelete_ok [OF bw Cons.prems(2), of open_url rows path ids l] Cons.prems(1) x by auto
  obtain h2 where h2: "foldE (\<lambda>(l, path, ids). AppendDelete bw open_url path ids l) files h1 = Inr h2"
      "fst ` set (eh_materialized_deletes h2) =
        fst ` set (eh_materialized_deletes h1) \<union> (\<lambda>(l, path, ids). field_set ids) ` set files"
      "handler_holds bw ty (\<lambda>ids. ?D ids \<union> deletes_of rows files ids) h2"
    using Cons.IH [OF _ h1(3)] Cons.prems(1) by auto
  have "(\<lambda>is. ?D is \<union> deletes_of rows files is) = (\<lambda>is. D is \<union> deletes_of rows (x # files) is)"
    by (auto simp: deletes_of_def x fun_eq_iff split: if_splits)
  then show ?case using h1(1,2) h2 x by auto
qed (simp add: deletes_of_def)

lemma mk_handler_holds: "ec_max_rows config = 2 ^ 64 - 1 \<Longrightarrow> handler_holds bw ty (\<lambda>_. {}) (mk_handler config)"
  by (simp add: handler_holds_def mk_handler_def)

section \<open>One batch\<close>

definition batch_column :: "('c \<Rightarrow> string \<Rightarrow> column option) \<Rightarrow> (int \<times> string) list \<Rightarrow> 'c iceberg_batch \<Rightarrow> int \<Rightarrow> column" where
  "batch_column GetColumnByName mapper b fid = the (GetColumnByName (ib_columns b) (FieldIdToColumnName mapper fid))"

text \<open>The columns of a batch for every set of delete columns of its partition.\<close>

definition batch_data_ok ::
    "(int \<Rightarrow> arrow_type) \<Rightarrow> ('c \<Rightarrow> string \<Rightarrow> column option) \<Rightarrow> (int \<times> string) list \<Rightarrow> (int \<times> string \<times> int list) list \<Rightarrow>
     'c iceberg_batch \<Rightarrow> bool" where
  "batch_data_ok ty GetColumnByName mapper files b \<longleftrightarrow>
     (\<forall>i \<in> set (ib_selection b). 0 \<le> i \<and> i < ib_num_rows b) \<and>
     (\<forall>(l, path, ids) \<in> set files.
        (\<forall>fid \<in> set ids. GetColumnByName (ib_columns b) (FieldIdToColumnName mapper fid) \<noteq> None) \<and>
        faithful_columns (map ty (field_set ids)) (map (batch_column GetColumnByName mapper b) (field_set ids)) \<and>
        batch_rows (map (batch_column GetColumnByName mapper b) (field_set ids)) (nat (ib_num_rows b)))"

lemma foldE_lookup:
  assumes "\<And>x. x \<in> set xs \<Longrightarrow> f x = Some (g x)"
  shows "\<exists>m'. foldE (\<lambda>x m. case f x of None \<Rightarrow> Inl e | Some v \<Rightarrow> Inr (omap_alter x v id m)) xs m = Inr m' \<and>
    (omap m \<longrightarrow> omap m' \<and> (\<forall>k. map_of m' k = (if map_of m k \<noteq> None then map_of m k else if k \<in> set xs then Some (g k) else None)))"
  using assms
proof (induction xs arbitrary: m)
  case (Cons x xs)
  obtain m' where m': "foldE (\<lambda>x m. case f x of None \<Rightarrow> Inl e | Some v \<Rightarrow> Inr (omap_alter x v id m)) xs (omap_alter x (g x) id m) = Inr m'"
      "omap (omap_alter x (g x) id m) \<longrightarrow> omap m' \<and> (\<forall>k. map_of m' k =
        (if map_of (omap_alter x (g x) id m) k \<noteq> None then map_of (omap_alter x (g x) id m) k else if k \<in> set xs then Some (g k) else None))"
    using Cons.IH [of "omap_alter x (g x) id m"] Cons.prems by auto
  then show ?case
    using Cons.prems by (auto simp: map_of_omap_alter split: option.splits)
qed auto

lemma any_deleted_ok:
  assumes "\<And>ids. ids \<in> set ks \<Longrightarrow> \<exists>d. map_of mat ids = Some d \<and> store_IsDeleted bw (arr ids) row dl d = Inr (P ids)"
  shows "any_deleted bw mat row dl (map (\<lambda>ids. (ids, arr ids)) ks) = Inr (\<exists>ids \<in> set ks. P ids)"
  using assms
proof (induction ks)
  case (Cons ids ks)
  then obtain d where "map_of mat ids = Some d" "store_IsDeleted bw (arr ids) row dl d = Inr (P ids)" by force
  then show ?case using Cons by (simp add: at_def)
qed simp

lemma erase_if_total:
  "(\<And>x. x \<in> set xs \<Longrightarrow> p x = Inr (q x)) \<Longrightarrow> erase_if p xs = Inr (filter (\<lambda>x. \<not> q x) xs)"
  by (induction xs) auto

text \<open>
  A row of a batch is deleted when a delete file of its layer or a later one has a row with
  the same values in the delete columns.
\<close>

definition eq_row_deleted ::
    "(string \<Rightarrow> int list \<Rightarrow> (column list \<times> nat) list) \<Rightarrow> (int \<times> string \<times> int list) list \<Rightarrow> (int \<Rightarrow> column) \<Rightarrow> int \<Rightarrow> nat \<Rightarrow> bool" where
  "eq_row_deleted rows files col layer row \<longleftrightarrow>
     (\<exists>(l, path, ids) \<in> set files. layer \<le> l \<and>
        (\<exists>(cols, n) \<in> set (rows path (field_set ids)). \<exists>row' < n.
           row_key cols row' = row_key (map col (field_set ids)) row))"

lemma row_is_deleted_file:
  "row_is_deleted (file_deletes batches l) k dl \<longleftrightarrow> dl \<le> l \<and> (\<exists>(cols, n) \<in> set batches. \<exists>row < n. row_key cols row = k)"
  by (auto simp: row_is_deleted_def file_deletes_def batch_deletes_def)

lemma row_is_deleted_deletes_of:
  "(\<exists>ids. row_is_deleted (deletes_of rows files ids) (row_key (map col ids) row) layer) \<longleftrightarrow>
     eq_row_deleted rows files col layer row"
proof -
  have mem: "(k, l') \<in> deletes_of rows files ids \<longleftrightarrow>
      (\<exists>l path fids. (l, path, fids) \<in> set files \<and> field_set fids = ids \<and> (k, l') \<in> file_deletes (rows path ids) l)" for k l' ids
    by (force simp: deletes_of_def split: if_splits)
  have del: "row_is_deleted (deletes_of rows files ids) k layer \<longleftrightarrow>
      (\<exists>l path fids. (l, path, fids) \<in> set files \<and> field_set fids = ids \<and> row_is_deleted (file_deletes (rows path ids) l) k layer)" for ids k
    unfolding row_is_deleted_def mem by blast
  show ?thesis unfolding eq_row_deleted_def del row_is_deleted_file Bex_def split_paired_Ex prod.case by blast
qed

lemma ApplyDeletes_ok:
  assumes bw: "byte_width_ok bw" and h: "handler_holds bw ty (deletes_of rows files) h"
    and dom: "fst ` set (eh_materialized_deletes h) = (\<lambda>(l, path, ids). field_set ids) ` set files"
    and b: "batch_data_ok ty GetColumnByName mapper files b"
  shows "\<exists>h'. ApplyDeletes bw GetColumnByName mapper b \<lparr>ea_handler = Some h, ea_current_state = Some (ib_partition b)\<rparr> =
      Inr (b\<lparr>ib_selection := filter (\<lambda>i. \<not> eq_row_deleted rows files (batch_column GetColumnByName mapper b) (ib_layer b) (nat i))
               (ib_selection b)\<rparr>,
           \<lparr>ea_handler = Some h', ea_current_state = Some (ib_partition b)\<rparr>) \<and>
    eh_materialized_deletes h' = eh_materialized_deletes h \<and> handler_holds bw ty (deletes_of rows files) h'"
proof -
  let ?mat = "eh_materialized_deletes h" and ?col = "batch_column GetColumnByName mapper b"
  let ?ks = "map fst (filter (\<lambda>(ids, d). store_Size d > 0) ?mat)"
  let ?h1 = "h\<lparr>eh_current_data_layer := Some (ib_layer b), eh_for_current_row_group := ?ks\<rparr>"
  let ?del = "\<lambda>i. eq_row_deleted rows files ?col (ib_layer b) (nat i)"
  have om: "omap ?mat" using h by (simp add: handler_holds_def)
  have key: "faithful_columns (map ty ids) (map ?col ids)" "batch_rows (map ?col ids) (nat (ib_num_rows b))"
      "\<forall>fid \<in> set ids. GetColumnByName (ib_columns b) (FieldIdToColumnName mapper fid) = Some (?col fid)"
    if mem: "ids \<in> fst ` set ?mat" for ids
  proof -
    obtain l path fids where f: "(l, path, fids) \<in> set files" "ids = field_set fids"
      using mem unfolding dom by auto
    then show "faithful_columns (map ty ids) (map ?col ids)" "batch_rows (map ?col ids) (nat (ib_num_rows b))"
        "\<forall>fid \<in> set ids. GetColumnByName (ib_columns b) (FieldIdToColumnName mapper fid) = Some (?col fid)"
      using b field_set_sorted(2) [of fids] unfolding batch_data_ok_def batch_column_def by force+
  qed
  have row_del: "(\<exists>ids \<in> set ?ks. row_is_deleted (deletes_of rows files ids) (row_key (map ?col ids) row) (ib_layer b)) \<longleftrightarrow>
      eq_row_deleted rows files ?col (ib_layer b) row" for row
  proof -
    have "ids \<in> set ?ks" if del: "row_is_deleted (deletes_of rows files ids) k dl" for ids k dl
    proof (cases "map_of ?mat ids")
      case None
      then show ?thesis using handler_holds_entry [OF h, of ids] del by (simp add: row_is_deleted_def)
    next
      case (Some d)
      then have "store_Size d \<noteq> 0"
        using handler_holds_entry [OF h, of ids] del st.represents_Size by fastforce
      then show ?thesis using map_of_SomeD [OF Some] by force
    qed
    then show ?thesis unfolding row_is_deleted_deletes_of [symmetric] by blast
  qed
  show ?thesis
  proof (cases "?ks = []")
    case True
    then have "\<not> eq_row_deleted rows files ?col (ib_layer b) row" for row using row_del [of row] by simp
    then have "ApplyDeletes bw GetColumnByName mapper b \<lparr>ea_handler = Some h, ea_current_state = Some (ib_partition b)\<rparr> =
        Inr (b\<lparr>ib_selection := filter (\<lambda>i. \<not> ?del i) (ib_selection b)\<rparr>,
          \<lparr>ea_handler = Some ?h1, ea_current_state = Some (ib_partition b)\<rparr>)"
      using True by (simp add: ApplyDeletes_def PrepareDeletesForFile_def Let_def)
    then show ?thesis using h by (auto simp: handler_holds_def)
  next
    case False
    obtain arrays where arrays: "MakeFieldIdToArray GetColumnByName mapper b ?h1 = Inr arrays" "omap arrays"
        "\<And>k. map_of arrays k = (if k \<in> set (concat (map fst ?mat)) then Some (?col k) else None)"
      using foldE_lookup [of "GetEqualityDeleteFieldIds ?h1" "\<lambda>fid. GetColumnByName (ib_columns b) (FieldIdToColumnName mapper fid)"
          ?col "Runtime_error ''EqualityDeleteApplier: column is not found''" "[]"] key(3)
      unfolding MakeFieldIdToArray_def by (force simp: GetEqualityDeleteFieldIds_def)
    have ks: "ids \<in> fst ` set ?mat" if "ids \<in> set ?ks" for ids using that by force
    have "mapE (at arrays) ids = Inr (map ?col ids)" if "ids \<in> set ?ks" for ids
      using ks [OF that] by (intro mapE_total) (force simp: at_def arrays(3))
    then have prep: "mapE (\<lambda>ids. bindE (mapE (at arrays) ids) (\<lambda>batch. Inr (ids, batch))) ?ks =
        Inr (map (\<lambda>ids. (ids, map ?col ids)) ?ks)"
      by (intro mapE_total) simp
    let ?h2 = "?h1\<lparr>eh_prepared_batches := map (\<lambda>ids. (ids, map ?col ids)) ?ks\<rparr>"
    have "handler_IsDeleted bw (nat i) ?h2 = Inr (?del i)" if i: "i \<in> set (ib_selection b)" for i
    proof -
      have lt: "nat i < nat (ib_num_rows b)" using b i by (auto simp: batch_data_ok_def)
      have "any_deleted bw ?mat (nat i) (ib_layer b) (map (\<lambda>ids. (ids, map ?col ids)) ?ks) =
          Inr (\<exists>ids \<in> set ?ks. row_is_deleted (deletes_of rows files ids) (row_key (map ?col ids) (nat i)) (ib_layer b))"
      proof (rule any_deleted_ok)
        fix ids
        assume "ids \<in> set ?ks"
        then have k: "ids \<in> fst ` set ?mat" by (rule ks)
        then obtain d where d: "map_of ?mat ids = Some d" using map_of_eq_None_iff by (metis not_None_eq)
        then have r: "st.represents (map ty ids) d (deletes_of rows files ids)" "store_fits bw (map ty ids) d (map ?col ids)"
          using handler_holds_entry [OF h, of ids] key(1) [OF k] by auto
        show "\<exists>d. map_of ?mat ids = Some d \<and> store_IsDeleted bw (map ?col ids) (nat i) (ib_layer b) d =
            Inr (row_is_deleted (deletes_of rows files ids) (row_key (map ?col ids) (nat i)) (ib_layer b))"
          using d st.represents_IsDeleted [OF r key(2) [OF k] lt] by blast
      qed
      then show ?thesis unfolding row_del by (simp add: handler_IsDeleted_def)
    qed
    then have "erase_if (\<lambda>row. handler_IsDeleted bw (nat row) ?h2) (ib_selection b) =
        Inr (filter (\<lambda>i. \<not> ?del i) (ib_selection b))"
      by (rule erase_if_total)
    then have "ApplyDeletes bw GetColumnByName mapper b \<lparr>ea_handler = Some h, ea_current_state = Some (ib_partition b)\<rparr> =
        Inr (b\<lparr>ib_selection := filter (\<lambda>i. \<not> ?del i) (ib_selection b)\<rparr>,
          \<lparr>ea_handler = Some ?h2, ea_current_state = Some (ib_partition b)\<rparr>)"
      using False arrays(1) prep
      by (simp add: ApplyDeletes_def PrepareDeletesForFile_def PrepareDeletesForBatch_def Let_def)
    then show ?thesis using h by (auto simp: handler_holds_def)
  qed
qed

section \<open>Properties\<close>

text \<open>A run over the input until it is exhausted.\<close>

fun eda_run ::
    "(arrow_type \<Rightarrow> int) \<Rightarrow> (string \<Rightarrow> eq_reader result) \<Rightarrow> eq_config \<Rightarrow> equality_deletes \<Rightarrow>
     ('c \<Rightarrow> string \<Rightarrow> column option) \<Rightarrow> (int \<times> string) list \<Rightarrow> nat \<Rightarrow> 'c iceberg_batch list \<times> eda_state \<Rightarrow>
     'c iceberg_batch list result option" where
  "eda_run bw open_url config deletes gc mapper 0 s = None"
| "eda_run bw open_url config deletes gc mapper (Suc n) s =
     (case eda_ReadNext bw open_url config deletes gc mapper s of
        Inl err \<Rightarrow> Some (Inl err)
      | Inr (None, s') \<Rightarrow> Some (Inr [])
      | Inr (Some b, s') \<Rightarrow>
          map_option (\<lambda>r. bindE r (\<lambda>bs. Inr (b # bs))) (eda_run bw open_url config deletes gc mapper n s'))"

text \<open>The invariant of the applier: its handler holds all deletes of the current partition.\<close>

definition eda_ok ::
    "(arrow_type \<Rightarrow> int) \<Rightarrow> (int \<Rightarrow> arrow_type) \<Rightarrow> (string \<Rightarrow> int list \<Rightarrow> (column list \<times> nat) list) \<Rightarrow> equality_deletes \<Rightarrow>
     eda_state \<Rightarrow> bool" where
  "eda_ok bw ty rows deletes st \<longleftrightarrow>
     (case ea_current_state st of None \<Rightarrow> True
      | Some part \<Rightarrow> \<exists>h. ea_handler st = Some h \<and> handler_holds bw ty (deletes_of rows (delete_files deletes part)) h \<and>
          fst ` set (eh_materialized_deletes h) = (\<lambda>(l, path, ids). field_set ids) ` set (delete_files deletes part))"

definition all_files_ok ::
    "(int \<Rightarrow> arrow_type) \<Rightarrow> (string \<Rightarrow> eq_reader result) \<Rightarrow> (string \<Rightarrow> int list \<Rightarrow> (column list \<times> nat) list) \<Rightarrow>
     equality_deletes \<Rightarrow> bool" where
  "all_files_ok ty open_url rows deletes \<longleftrightarrow>
     (\<forall>part. \<forall>(l, path, ids) \<in> set (delete_files deletes part). delete_file_ok ty open_url rows path ids)"

definition eq_applied ::
    "(string \<Rightarrow> int list \<Rightarrow> (column list \<times> nat) list) \<Rightarrow> equality_deletes \<Rightarrow> ('c \<Rightarrow> string \<Rightarrow> column option) \<Rightarrow>
     (int \<times> string) list \<Rightarrow> 'c iceberg_batch \<Rightarrow> 'c iceberg_batch" where
  "eq_applied rows deletes gc mapper b =
     b\<lparr>ib_selection := filter (\<lambda>i. \<not> eq_row_deleted rows (delete_files deletes (ib_partition b))
        (batch_column gc mapper b) (ib_layer b) (nat i)) (ib_selection b)\<rparr>"

lemma eda_batch_ok:
  assumes bw: "byte_width_ok bw" and files: "all_files_ok ty open_url rows deletes"
    and config: "ec_max_rows config = 2 ^ 64 - 1" and st: "eda_ok bw ty rows deletes st"
    and b: "batch_data_ok ty gc mapper (delete_files deletes (ib_partition b)) b"
  shows "\<exists>st'. eda_batch bw open_url config deletes gc mapper b st = Inr (eq_applied rows deletes gc mapper b, st') \<and>
    eda_ok bw ty rows deletes st'"
proof -
  let ?files = "delete_files deletes (ib_partition b)"
  have apply_ok: "\<exists>st'. ApplyDeletes bw gc mapper b \<lparr>ea_handler = Some h, ea_current_state = Some (ib_partition b)\<rparr> =
      Inr (eq_applied rows deletes gc mapper b, st') \<and> eda_ok bw ty rows deletes st'"
    if "handler_holds bw ty (deletes_of rows ?files) h"
      "fst ` set (eh_materialized_deletes h) = (\<lambda>(l, path, ids). field_set ids) ` set ?files" for h
    using ApplyDeletes_ok [OF bw that b] that(2) by (auto simp: eda_ok_def eq_applied_def)
  show ?thesis
  proof (cases "ea_current_state st = Some (ib_partition b)")
    case True
    then obtain h where "st = \<lparr>ea_handler = Some h, ea_current_state = Some (ib_partition b)\<rparr>"
        "handler_holds bw ty (deletes_of rows ?files) h"
        "fst ` set (eh_materialized_deletes h) = (\<lambda>(l, path, ids). field_set ids) ` set ?files"
      using st by (cases st) (auto simp: eda_ok_def)
    then show ?thesis using apply_ok [of h] by (simp add: eda_batch_def)
  next
    case False
    obtain h where "SetDeletes bw open_url deletes (ib_partition b) (mk_handler config) = Inr h"
        "handler_holds bw ty (deletes_of rows ?files) h"
        "fst ` set (eh_materialized_deletes h) = (\<lambda>(l, path, ids). field_set ids) ` set ?files"
      using append_files [OF bw _ mk_handler_holds [OF config], of ?files ty open_url rows] files
      by (auto simp: SetDeletes_flat all_files_ok_def mk_handler_def)
    then show ?thesis using False apply_ok [of h] by (simp add: eda_batch_def)
  qed
qed

lemma eda_run_ok:
  assumes "byte_width_ok bw" "all_files_ok ty open_url rows deletes" "ec_max_rows config = 2 ^ 64 - 1"
  shows "\<forall>b \<in> set batches. batch_data_ok ty gc mapper (delete_files deletes (ib_partition b)) b \<Longrightarrow>
    eda_ok bw ty rows deletes st \<Longrightarrow>
    eda_run bw open_url config deletes gc mapper (Suc (length batches)) (batches, st) =
      Some (Inr (map (eq_applied rows deletes gc mapper) batches))"
proof (induction batches arbitrary: st)
  case (Cons b bs)
  obtain st' where "eda_batch bw open_url config deletes gc mapper b st = Inr (eq_applied rows deletes gc mapper b, st')"
      "eda_ok bw ty rows deletes st'"
    using eda_batch_ok [OF assms Cons.prems(2), of gc mapper b] Cons.prems(1) by auto
  then show ?case using Cons.IH [of st'] Cons.prems(1) by (simp add: eda_ReadNext_def)
qed (simp add: eda_ReadNext_def)


definition example_eq_reader :: eq_reader where
  "example_eq_reader =
     \<lparr>er_num_rows = 2, er_field_ids = [4, 9], er_num_row_groups = 1,
      er_batches = (\<lambda>_ _. Inr ([A_STRING], [([example_column [''a'', ''b'']], 2)]))\<rparr>"

definition example_eq_batch :: "int \<Rightarrow> column iceberg_batch" where
  "example_eq_batch layer =
     \<lparr>ib_partition = 0, ib_layer = layer, ib_path = ''f'', ib_row_position = 0, ib_num_rows = 2,
      ib_columns = example_column [''b'', ''c''], ib_selection = [0, 1]\<rparr>"


text \<open>
  Column names never clash: with distinct known names the mapper gives different names to
  different fields, a known field keeps its name, and the search for a free generated name
  ends.
\<close>

lemma FieldIdToColumnName_inject:
  assumes "distinct (map snd known)"
  shows "FieldIdToColumnName known i = FieldIdToColumnName known j \<longleftrightarrow> i = j"
proof -
  have gen: "\<exists>c. GenerateNameForUnnamedColumn used fid c0 = unnamed_column c fid \<and>
      GenerateNameForUnnamedColumn used fid c0 \<notin> set used" for used fid c0
    by (induction used fid c0 rule: GenerateNameForUnnamedColumn.induct)
      (subst (1 2) GenerateNameForUnnamedColumn.simps, auto)
  have known: "n \<in> set (map snd known)" if "map_of known k = Some n" for k n
    using map_of_SomeD [OF that] by force
  have inj: "k = k'" if "map_of known k = Some n" "map_of known k' = Some n" for k k' n
  proof -
    have "(k, n) \<in> set known" "(k', n) \<in> set known" using that by (auto dest: map_of_SomeD)
    then show ?thesis using assms by (metis distinct_map inj_onD prod.inject snd_conv)
  qed
  have name: "case map_of known k of Some n \<Rightarrow> FieldIdToColumnName known k = n
      | None \<Rightarrow> (\<exists>c. FieldIdToColumnName known k = unnamed_column c k) \<and> FieldIdToColumnName known k \<notin> set (map snd known)" for k
    using gen [of "map snd known" k 0] by (auto simp: FieldIdToColumnName_def split: option.split)
  have "k = k'" if eq: "FieldIdToColumnName known k = FieldIdToColumnName known k'" for k k'
  proof (cases "map_of known k"; cases "map_of known k'")
    assume "map_of known k = None" "map_of known k' = None"
    then show ?thesis using name [of k] name [of k'] eq by (auto simp: unnamed_column_inject)
  next
    fix n
    assume "map_of known k = None" "map_of known k' = Some n"
    then show ?thesis using name [of k] name [of k'] eq known [of k' n] by simp
  next
    fix n
    assume "map_of known k = Some n" "map_of known k' = None"
    then show ?thesis using name [of k] name [of k'] eq known [of k n] by simp
  next
    fix n n'
    assume "map_of known k = Some n" "map_of known k' = Some n'"
    then show ?thesis using name [of k] name [of k'] eq inj [of k n k'] by simp
  qed
  then show ?thesis by blast
qed

lemma FieldIdToColumnName_inject_witness:
  "FieldIdToColumnName [(1, ''__unnamed_c0_f2'')] 1 \<noteq> FieldIdToColumnName [(1, ''__unnamed_c0_f2'')] 2"
  using FieldIdToColumnName_inject [of "[(1, ''__unnamed_c0_f2'')]" 1 2] by simp

end
