(* ===== verification/Literals.thy ===== *)
theory Literals
  imports Iceberg_Types Json
begin

text \<open>
  Default values of columns and their JSON form: \<open>DeserializeLiteral\<close>
  (\<open>literals.cpp\<close>) and \<open>SerializeLiteral\<close> (\<open>table_metadata.cpp\<close>).  The printer of
  scalars, the ISO-8601 parser and the decimal parser are Arrow's and are gathered in
  the parameter \<open>arrow_api\<close>.  The conversions between \<open>float\<close> and \<open>double\<close> are written
  out on the bit patterns.
\<close>

section \<open>Floating-point conversions\<close>

definition float_to_double :: "32 word \<Rightarrow> 64 word" where
  "float_to_double w =
     (let n = unat w; s = n div 2 ^ 31; e = n div 2 ^ 23 mod 256; m = n mod 2 ^ 23;
          pack = (\<lambda>e' m'. word_of_nat (s * 2 ^ 63 + e' * 2 ^ 52 + m')) in
      if e = 255 then pack 2047 (if m = 0 then 0 else (m mod 2 ^ 22) * 2 ^ 29 + 2 ^ 51)
      else if e \<noteq> 0 then pack (e + 896) (m * 2 ^ 29)
      else if m = 0 then pack 0 0
      else let k = length (filter (\<lambda>i. 2 ^ i \<le> m) [1..<23]) in pack (k + 874) ((m - 2 ^ k) * 2 ^ (52 - k)))"

text \<open>
  The conversion to \<open>float\<close> rounds to the nearest value, ties to even: the
  significand is cut at the last place of the result, and the rounded quotient is added
  to the exponent field, so that a carry reaches the next binade or infinity.
\<close>

definition double_to_float :: "64 word \<Rightarrow> 32 word" where
  "double_to_float w =
     (let n = unat w; s = n div 2 ^ 63; e = n div 2 ^ 52 mod 2048; m = n mod 2 ^ 52 in
      if e = 2047 then word_of_nat (s * 2 ^ 31 + 255 * 2 ^ 23 +
        (if m = 0 then 0 else m div 2 ^ 29 mod 2 ^ 22 + 2 ^ 22))
      else
        let mant = (if e = 0 then m else m + 2 ^ 52);
            d = (if e \<ge> 897 then 29 else 926 - max e 1);
            base = (if e \<ge> 897 then e - 897 else 0);
            q = mant div 2 ^ d; r = mant mod 2 ^ d;
            q' = (if r > 2 ^ (d - 1) \<or> (r = 2 ^ (d - 1) \<and> odd q) then q + 1 else q) in
        word_of_nat (s * 2 ^ 31 + min (base * 2 ^ 23 + q') (255 * 2 ^ 23)))"

text \<open>\<open>IsFloat\<close>: the value lies between \<open>-3.4028234e38\<close> and \<open>3.4028234e38\<close>; the bit
  patterns of finite doubles of one sign are ordered like their values.\<close>

definition in_float_range :: "64 word \<Rightarrow> bool" where
  "in_float_range w \<longleftrightarrow> unat w mod 2 ^ 63 \<le> 5183643170390849588"

section \<open>Reading a literal\<close>

record arrow_api =
  scalar_ToString :: "scalar \<Rightarrow> string"
  parse_iso8601 :: "string \<Rightarrow> arrow_unit \<Rightarrow> int option"
  decimal_FromString :: "string \<Rightarrow> int option"

definition ParseTime :: "arrow_api \<Rightarrow> json \<Rightarrow> arrow_unit \<Rightarrow> int result" where
  "ParseTime A document unit =
     bindE (GetString document) (\<lambda>s.
       case parse_iso8601 A s unit of
         None \<Rightarrow> Inl (Runtime_error ''Failed to parse Date/Timestamp'')
       | Some dat \<Rightarrow> Inr dat)"

fun ConvertToDataType :: "itype \<Rightarrow> arrow_type result" where
  "ConvertToDataType (DecimalType p s) = Inr (A_DECIMAL p s)"
| "ConvertToDataType (FixedType n) = Inr (A_FIXED_SIZE_BINARY n)"
| "ConvertToDataType (ListType _ _ e) = bindE (ConvertToDataType e) (\<lambda>t. Inr (A_LIST t))"
| "ConvertToDataType (PrimitiveType t) =
     (case t of
        kBoolean \<Rightarrow> Inr A_BOOL | kInt \<Rightarrow> Inr A_INT32 | kLong \<Rightarrow> Inr A_INT64
      | kFloat \<Rightarrow> Inr A_FLOAT | kDouble \<Rightarrow> Inr A_DOUBLE
      | kDecimal \<Rightarrow> Inl (Undefined ''cast to DecimalType'')
      | kDate \<Rightarrow> Inr A_DATE32 | kTime \<Rightarrow> Inr A_TIME64
      | kTimestamp \<Rightarrow> Inr (A_TIMESTAMP MICRO True) | kTimestamptz \<Rightarrow> Inr (A_TIMESTAMP MICRO False)
      | kTimestampNs \<Rightarrow> Inr (A_TIMESTAMP NANO True) | kTimestamptzNs \<Rightarrow> Inr (A_TIMESTAMP NANO False)
      | kString \<Rightarrow> Inr A_STRING | kUuid \<Rightarrow> Inr (A_FIXED_SIZE_BINARY 16)
      | kFixed \<Rightarrow> Inl (Undefined ''cast to FixedType'')
      | kBinary \<Rightarrow> Inr A_BINARY
      | kList \<Rightarrow> Inl (Undefined ''cast to ListType'')
      | _ \<Rightarrow> Inl (Runtime_error ''Unsupported type''))"

fun scalar_type :: "scalar \<Rightarrow> arrow_type" where
  "scalar_type (S_bool _) = A_BOOL"
| "scalar_type (S_int _) = A_INT32"
| "scalar_type (S_long _) = A_INT64"
| "scalar_type (S_float _) = A_FLOAT"
| "scalar_type (S_double _) = A_DOUBLE"
| "scalar_type (S_decimal _ p s) = A_DECIMAL p s"
| "scalar_type (S_date _) = A_DATE32"
| "scalar_type (S_time _) = A_TIME64"
| "scalar_type (S_timestamp _ u utc) = A_TIMESTAMP u (\<not> utc)"
| "scalar_type (S_string _) = A_STRING"
| "scalar_type (S_fixed n _) = A_FIXED_SIZE_BINARY n"
| "scalar_type (S_binary _) = A_BINARY"
| "scalar_type (S_list t _) = A_LIST t"

text \<open>The text before and after the first \<open>E+\<close>, and \<open>std::stoi\<close> in base ten.\<close>

fun split_exponent :: "string \<Rightarrow> (string \<times> string) option" where
  "split_exponent [] = None"
| "split_exponent (c # s) =
     (if c = CHR ''E'' \<and> s \<noteq> [] \<and> hd s = CHR ''+'' then Some ([], tl s)
      else map_option (\<lambda>(a, b). (c # a, b)) (split_exponent s))"

definition stoi :: "string \<Rightarrow> int result" where
  "stoi s =
     (let (neg, s1) = sign_split (dropWhile is_space s);
          ds = takeWhile is_digit s1;
          v = (if neg then - int (digits_value ds) else int (digits_value ds)) in
      if ds = [] then Inl Invalid_argument
      else if int32 v then Inr v else Inl Out_of_range)"

text \<open>Division of a signed integer truncates toward zero; the day count is narrowed.\<close>

definition trunc_div :: "int \<Rightarrow> int \<Rightarrow> int" where
  "trunc_div a b = (if a < 0 then - ((- a) div b) else a div b)"

definition to_int32 :: "int \<Rightarrow> int" where
  "to_int32 n = (n + 2 ^ 31) mod 2 ^ 32 - 2 ^ 31"

definition deserialize_decimal :: "arrow_api \<Rightarrow> int \<Rightarrow> int \<Rightarrow> string \<Rightarrow> scalar result" where
  "deserialize_decimal A precision scale str =
     bindE
       (if scale < 0 then
          case split_exponent str of
            None \<Rightarrow> Inl (Runtime_error ''Negative scale values must be presented in scientific notation'')
          | Some (before, after) \<Rightarrow>
              bindE (stoi after) (\<lambda>str_scale.
              bindE (ensure (str_scale = - scale) '': The exponent must equal the negated scale'') (\<lambda>_.
              Inr (before @ replicate (nat str_scale) (CHR ''0''), precision + str_scale, 0)))
        else Inr (str, precision, scale))
       (\<lambda>(str, precision, scale).
          bindE (ensure (precision \<le> 38) ''Decimal precision greater than 38 is unsupported'') (\<lambda>_.
          case decimal_FromString A str of
            None \<Rightarrow> Inl (Runtime_error ''failed to convert string to decimal'')
          | Some v \<Rightarrow> Inr (S_decimal v precision scale)))"

definition deserialize_uuid :: "string \<Rightarrow> scalar result" where
  "deserialize_uuid s =
     (if \<not> no_nul s then Inl (Undefined ''string_view out of range'')
      else bindE (DeserializeHexadecimal (filter (\<lambda>c. c \<noteq> CHR ''-'') s)) (\<lambda>buffer.
        bindE (ensure (length buffer = 16) ''Expected 16 bytes for UUID'') (\<lambda>_. Inr (S_fixed 16 buffer))))"

fun DeserializeScalar :: "arrow_api \<Rightarrow> itype \<Rightarrow> json \<Rightarrow> scalar result" where
  "DeserializeScalar A (PrimitiveType t) document =
     (case t of
        kBoolean \<Rightarrow>
          (case document of J_bool b \<Rightarrow> Inr (S_bool b) | _ \<Rightarrow> Inl (Undefined ''IsBool()''))
      | kInt \<Rightarrow> bindE (GetInt document) (\<lambda>n. Inr (S_int n))
      | kLong \<Rightarrow> bindE (GetInt64 document) (\<lambda>n. Inr (S_long n))
      | kFloat \<Rightarrow>
          (case document of
             J_double d \<Rightarrow> (if in_float_range d then Inr (S_float (double_to_float d))
                           else Inl (Runtime_error ''Expected Float value''))
           | _ \<Rightarrow> Inl (Runtime_error ''Expected Float value''))
      | kDouble \<Rightarrow>
          (case document of J_double d \<Rightarrow> Inr (S_double d)
           | _ \<Rightarrow> Inl (Runtime_error ''Expected Double value''))
      | kDecimal \<Rightarrow> Inl (Undefined ''cast to DecimalType'')
      | kDate \<Rightarrow> bindE (ParseTime A document SECOND) (\<lambda>v. Inr (S_date (to_int32 (trunc_div v 86400))))
      | kTime \<Rightarrow> bindE (GetString document) (\<lambda>s.
          case parse_iso8601 A (''1970-01-01T'' @ c_str s) MICRO of
            None \<Rightarrow> Inl (Runtime_error ''Failed to parse Time'') | Some v \<Rightarrow> Inr (S_time v))
      | kTimestamp \<Rightarrow> bindE (ParseTime A document MICRO) (\<lambda>v. Inr (S_timestamp v MICRO False))
      | kTimestamptz \<Rightarrow> bindE (ParseTime A document MICRO) (\<lambda>v. Inr (S_timestamp v MICRO True))
      | kTimestampNs \<Rightarrow> bindE (ParseTime A document NANO) (\<lambda>v. Inr (S_timestamp v NANO False))
      | kTimestamptzNs \<Rightarrow> bindE (ParseTime A document NANO) (\<lambda>v. Inr (S_timestamp v NANO True))
      | kString \<Rightarrow> bindE (GetString document) (\<lambda>s. Inr (S_string (c_str s)))
      | kUuid \<Rightarrow> bindE (GetString document) deserialize_uuid
      | kFixed \<Rightarrow> Inl (Undefined ''cast to FixedType'')
      | kBinary \<Rightarrow> bindE (GetString document) (\<lambda>s. bindE (DeserializeHexadecimal s) (\<lambda>b. Inr (S_binary b)))
      | kList \<Rightarrow> Inl (Undefined ''cast to ListType'')
      | _ \<Rightarrow> Inl (Runtime_error ''Unsupported type''))"
| "DeserializeScalar A (DecimalType precision scale) document =
     bindE (GetString document) (\<lambda>s. deserialize_decimal A precision scale (c_str s))"
| "DeserializeScalar A (FixedType n) document =
     bindE (GetString document) (\<lambda>s.
     bindE (DeserializeHexadecimal s) (\<lambda>buffer.
     bindE (ensure (n = int (length buffer)) ''Expected String length'') (\<lambda>_.
     Inr (S_fixed n buffer))))"
| "DeserializeScalar A (ListType _ _ e) document =
     (case document of
        J_array elems \<Rightarrow>
          bindE (mapE (DeserializeScalar A e) elems) (\<lambda>scalars.
          bindE (ConvertToDataType e) (\<lambda>t.
          bindE (ensure (\<forall>s \<in> set scalars. scalar_type s = t) ''Failed to add scalars to ArrayBuilder'') (\<lambda>_.
          Inr (S_list t scalars))))
      | _ \<Rightarrow> Inl (Runtime_error ''Expected Array value''))"

definition DeserializeLiteral :: "arrow_api \<Rightarrow> itype \<Rightarrow> json \<Rightarrow> scalar result" where
  "DeserializeLiteral A type document = DeserializeScalar A type document"

section \<open>Writing a literal\<close>

fun strip_zeros :: "nat \<Rightarrow> string \<Rightarrow> string result" where
  "strip_zeros 0 str = Inr str"
| "strip_zeros (Suc n) str =
     (if str = [] \<or> last str \<noteq> CHR ''0''
      then Inl (Runtime_error ''Decimals with a negative scale must have at least -scale zeros at the end'')
      else strip_zeros n (butlast str))"

definition insert_at :: "nat \<Rightarrow> char \<Rightarrow> string \<Rightarrow> string" where
  "insert_at i c s = take i s @ c # drop i s"

definition dashed :: "string \<Rightarrow> string" where
  "dashed s = fold (\<lambda>ind str. insert_at ind (CHR ''-'') str) [20, 16, 12, 8] s"

fun SerializeLiteral :: "arrow_api \<Rightarrow> itype \<Rightarrow> scalar \<Rightarrow> json result" where
  "SerializeLiteral A (PrimitiveType t) scalar =
     (case t of
        kBoolean \<Rightarrow> (case scalar of S_bool b \<Rightarrow> Inr (J_bool b) | _ \<Rightarrow> Inl (Undefined ''cast to BooleanScalar''))
      | kInt \<Rightarrow> (case scalar of S_int n \<Rightarrow> Inr (J_int n) | _ \<Rightarrow> Inl (Undefined ''cast to Int32Scalar''))
      | kLong \<Rightarrow> (case scalar of S_long n \<Rightarrow> Inr (J_int n) | _ \<Rightarrow> Inl (Undefined ''cast to Int64Scalar''))
      | kFloat \<Rightarrow> (case scalar of S_float f \<Rightarrow> Inr (J_double (float_to_double f))
                   | _ \<Rightarrow> Inl (Undefined ''cast to FloatScalar''))
      | kDouble \<Rightarrow> (case scalar of S_double d \<Rightarrow> Inr (J_double d) | _ \<Rightarrow> Inl (Undefined ''cast to DoubleScalar''))
      | kDecimal \<Rightarrow> Inl (Undefined ''cast to DecimalType'')
      | kDate \<Rightarrow> Inr (J_string (scalar_ToString A scalar))
      | kTime \<Rightarrow> Inr (J_string (scalar_ToString A scalar))
      | kTimestamp \<Rightarrow> Inr (J_string (scalar_ToString A scalar))
      | kTimestamptz \<Rightarrow> Inr (J_string (scalar_ToString A scalar))
      | kTimestampNs \<Rightarrow> Inr (J_string (scalar_ToString A scalar))
      | kTimestamptzNs \<Rightarrow> Inr (J_string (scalar_ToString A scalar))
      | kString \<Rightarrow> Inr (J_string (scalar_ToString A scalar))
      | kUuid \<Rightarrow>
          (let str = ConvertBinaryToHexadecimal (scalar_ToString A scalar) in
           if length str \<noteq> 32 then Inl (Runtime_error ''uuid length must be 32 characters without delimiters'')
           else Inr (J_string (dashed str)))
      | kFixed \<Rightarrow> Inr (J_string (ConvertBinaryToHexadecimal (scalar_ToString A scalar)))
      | kBinary \<Rightarrow> Inr (J_string (ConvertBinaryToHexadecimal (scalar_ToString A scalar)))
      | kList \<Rightarrow> Inl (Undefined ''cast to ListType'')
      | _ \<Rightarrow> Inl (Runtime_error ''Unsupported type''))"
| "SerializeLiteral A (DecimalType precision scale) scalar =
     bindE (strip_zeros (nat (- scale)) (scalar_ToString A scalar)) (\<lambda>str.
     Inr (J_string (str @ ''E+'' @ to_string (- scale))))"
| "SerializeLiteral A (FixedType _) scalar =
     Inr (J_string (ConvertBinaryToHexadecimal (scalar_ToString A scalar)))"
| "SerializeLiteral A (ListType _ _ e) scalar =
     (case scalar of
        S_list _ xs \<Rightarrow> bindE (mapE (SerializeLiteral A e) xs) (\<lambda>js. Inr (J_array js))
      | _ \<Rightarrow> Inl (Undefined ''cast to ListScalar''))"

section \<open>Literals that survive a round trip\<close>

text \<open>
  The literals of a type whose JSON form is read back: numbers in range, values that
  Arrow prints in a form its parser accepts, binary values that Arrow prints as their
  bytes.  For decimals the type must have a negative scale: \<open>SerializeLiteral\<close> appends
  an exponent in every case, and with another scale the text has a form such as
  \<open>14.20E+-2\<close>.
\<close>

fun literal_ok :: "arrow_api \<Rightarrow> itype \<Rightarrow> scalar \<Rightarrow> bool" where
  "literal_ok A (PrimitiveType t) sc =
     (case sc of
        S_bool _ \<Rightarrow> t = kBoolean
      | S_int n \<Rightarrow> t = kInt \<and> int32 n
      | S_long n \<Rightarrow> t = kLong \<and> int64 n
      | S_float f \<Rightarrow> t = kFloat \<and> in_float_range (float_to_double f) \<and> double_to_float (float_to_double f) = f
      | S_double _ \<Rightarrow> t = kDouble
      | S_date d \<Rightarrow> t = kDate \<and> int32 d \<and> parse_iso8601 A (scalar_ToString A sc) SECOND = Some (86400 * d)
      | S_time v \<Rightarrow> t = kTime \<and> no_nul (scalar_ToString A sc) \<and>
          parse_iso8601 A (''1970-01-01T'' @ scalar_ToString A sc) MICRO = Some v
      | S_timestamp v u utc \<Rightarrow>
          (t, u, utc) \<in> {(kTimestamp, MICRO, False), (kTimestamptz, MICRO, True),
            (kTimestampNs, NANO, False), (kTimestamptzNs, NANO, True)} \<and>
          parse_iso8601 A (scalar_ToString A sc) u = Some v
      | S_string s \<Rightarrow> t = kString \<and> scalar_ToString A sc = s \<and> no_nul s
      | S_fixed n b \<Rightarrow> t = kUuid \<and> n = 16 \<and> length b = 16 \<and> scalar_ToString A sc = b
      | S_binary b \<Rightarrow> t = kBinary \<and> scalar_ToString A sc = b
      | _ \<Rightarrow> False)"
| "literal_ok A (DecimalType precision scale) sc =
     (case sc of
        S_decimal v p s \<Rightarrow>
          scale < 0 \<and> int32 scale \<and> scale \<noteq> - (2 ^ 31) \<and> p = precision - scale \<and> s = 0 \<and> p \<le> 38 \<and>
          (let str = scalar_ToString A sc; k = length str - nat (- scale) in
           nat (- scale) \<le> length str \<and> drop k str = replicate (nat (- scale)) (CHR ''0'') \<and>
           CHR ''E'' \<notin> set (take k str) \<and> no_nul (take k str) \<and> decimal_FromString A str = Some v)
      | _ \<Rightarrow> False)"
| "literal_ok A (FixedType n) sc =
     (case sc of S_fixed m b \<Rightarrow> m = n \<and> int (length b) = n \<and> scalar_ToString A sc = b | _ \<Rightarrow> False)"
| "literal_ok A (ListType _ _ e) sc =
     (case sc of
        S_list t xs \<Rightarrow> ConvertToDataType e = Inr t \<and>
          (\<forall>x \<in> set xs. literal_ok A e x \<and> scalar_type x = t)
      | _ \<Rightarrow> False)"

lemma strip_zeros_append: "strip_zeros n (s @ replicate n (CHR ''0'')) = Inr s"
proof (induction n arbitrary: s)
  case (Suc n)
  have "s @ replicate (Suc n) (CHR ''0'') = (s @ replicate n (CHR ''0'')) @ [CHR ''0'']"
    by (simp add: replicate_append_same)
  then show ?case using Suc by (simp del: replicate_Suc append_assoc add: butlast_append)
qed simp

lemma split_exponent_append:
  "CHR ''E'' \<notin> set s \<Longrightarrow> split_exponent (s @ ''E+'' @ r) = Some (s, r)"
  by (induction s) auto

lemma stoi_to_string:
  assumes "int32 n" "0 \<le> n"
  shows "stoi (to_string n) = Inr n"
proof -
  obtain c s where c: "nat_to_string (nat n) = c # s" by (cases "nat_to_string (nat n)") auto
  then have d: "\<forall>c \<in> set (c # s). is_digit c" using nat_to_string_digits [of _ "nat n"] by metis
  then have "\<not> is_space c" "c \<noteq> CHR ''-''" "c \<noteq> CHR ''+''" by (auto simp: is_digit_not_space is_digit_def)
  then have "sign_split (dropWhile is_space (to_string n)) = (False, c # s)"
    using c assms(2) by (simp add: to_string_def sign_split_def)
  moreover have "takeWhile is_digit (c # s) = c # s" using d by (simp add: takeWhile_eq_all_conv)
  moreover have "digits_value (c # s) = nat n" using digits_value_nat_to_string [of "nat n"] c by simp
  ultimately show ?thesis using assms by (simp add: stoi_def)
qed

lemma hex_digit_not_dash [simp]: "n < 16 \<Longrightarrow> hex_digit n \<noteq> CHR ''-''"
  by (rule hex_digit_plain(2))

lemma hex_chars:
  "c \<in> set (ConvertBinaryToHexadecimal s) \<Longrightarrow> \<exists>n < 16. c = hex_digit n"
proof (induction s)
  case (Cons x s)
  have x: "(of_char x :: nat) < 256" by (metis of_char_mod_256 mod_less_divisor zero_less_numeral)
  have "c = hex_digit (of_char x div 16) \<or> c = hex_digit (of_char x mod 16) \<or>
      c \<in> set (ConvertBinaryToHexadecimal s)"
    using Cons.prems by (auto simp: ConvertBinaryToHexadecimal_def Let_def)
  moreover have "of_char x div 16 < (16::nat)" using x by (simp add: less_mult_imp_div_less)
  ultimately show ?case using Cons.IH by (metis mod_less_divisor zero_less_numeral)
qed (simp add: ConvertBinaryToHexadecimal_def)

lemma hex_no_nul: "no_nul (ConvertBinaryToHexadecimal s)"
proof -
  have "hex_value (CHR 0x00) = None" by (simp add: hex_value_def)
  then show ?thesis unfolding no_nul_def using hex_chars by (metis hex_value_digit option.distinct(1))
qed

lemma filter_insert_at:
  "filter (\<lambda>c. c \<noteq> CHR ''-'') (insert_at i (CHR ''-'') s) = filter (\<lambda>c. c \<noteq> CHR ''-'') s"
proof -
  have "filter P (take i s) @ filter P (drop i s) = filter P s" for P :: "char \<Rightarrow> bool"
    by (metis append_take_drop_id filter_append)
  then show ?thesis by (simp add: insert_at_def)
qed

lemma no_nul_insert_at: "no_nul s \<Longrightarrow> no_nul (insert_at i (CHR ''-'') s)"
  by (auto simp: no_nul_def insert_at_def dest: in_set_takeD in_set_dropD)

lemma dashed_clean:
  assumes "CHR ''-'' \<notin> set s"
  shows "filter (\<lambda>c. c \<noteq> CHR ''-'') (dashed s) = s"
proof -
  have "filter (\<lambda>c. c \<noteq> CHR ''-'') (dashed s) = filter (\<lambda>c. c \<noteq> CHR ''-'') s"
    by (simp only: dashed_def fold.simps o_apply id_apply filter_insert_at)
  also have "\<dots> = s" by (rule filter_True) (use assms in auto)
  finally show ?thesis .
qed

lemma uuid_roundtrip:
  assumes "length b = 16"
  shows "deserialize_uuid (dashed (ConvertBinaryToHexadecimal b)) = Inr (S_fixed 16 b)"
proof -
  have "CHR ''-'' \<notin> set (ConvertBinaryToHexadecimal b)" using hex_chars hex_digit_not_dash by metis
  moreover have "no_nul (dashed (ConvertBinaryToHexadecimal b))"
    by (simp add: dashed_def no_nul_insert_at hex_no_nul)
  ultimately show ?thesis
    using assms by (simp add: deserialize_uuid_def dashed_clean hexadecimal_roundtrip)
qed

lemma decimal_roundtrip:
  assumes "literal_ok A (DecimalType p s) sc"
  shows "\<exists>str. SerializeLiteral A (DecimalType p s) sc = Inr (J_string str) \<and>
    deserialize_decimal A p s (c_str str) = Inr sc"
proof -
  obtain v where sc: "sc = S_decimal v (p - s) 0" and s: "s < 0" "int32 (- s)" "p - s \<le> 38"
    using assms by (auto simp: int32_def split: scalar.splits)
  define k where "k = length (scalar_ToString A sc) - nat (- s)"
  define ds where "ds = take k (scalar_ToString A sc)"
  have ds: "scalar_ToString A sc = ds @ replicate (nat (- s)) (CHR ''0'')"
      "CHR ''E'' \<notin> set ds" "no_nul ds" "decimal_FromString A (scalar_ToString A sc) = Some v"
    using assms append_take_drop_id [of k "scalar_ToString A sc"] unfolding sc
    by (simp_all add: Let_def k_def ds_def sc)
  have "c \<noteq> CHR 0x00" if "c \<in> set (to_string (- s))" for c
    using to_string_chars [OF that] by (auto simp: is_digit_def)
  then have "no_nul (ds @ ''E+'' @ to_string (- s))" using ds(3) by (auto simp: no_nul_def)
  then have c: "c_str (ds @ ''E+'' @ to_string (- s)) = ds @ ''E+'' @ to_string (- s)" by (rule c_str_id)
  have st: "stoi (to_string (- s)) = Inr (- s)" using s by (intro stoi_to_string) simp_all
  have "deserialize_decimal A p s (ds @ ''E+'' @ to_string (- s)) = Inr sc"
    unfolding deserialize_decimal_def split_exponent_append [OF ds(2)]
    using s st ds(1,4) sc by simp
  moreover have "SerializeLiteral A (DecimalType p s) sc = Inr (J_string (ds @ ''E+'' @ to_string (- s)))"
    by (simp add: ds(1) strip_zeros_append)
  ultimately show ?thesis using c by metis
qed

lemma date_roundtrip: "int32 d \<Longrightarrow> to_int32 (trunc_div (86400 * d) 86400) = d"
proof -
  have "trunc_div (86400 * d) 86400 = d" 
  proof (cases "d < 0")
    case True
    then have "trunc_div (86400 * d) 86400 = - ((86400 * (- d)) div 86400)" by (simp add: trunc_div_def)
    also have "(86400 * (- d)) div 86400 = - d" by (rule nonzero_mult_div_cancel_left) simp
    finally show ?thesis by simp
  qed (simp add: trunc_div_def)
  then show "int32 d \<Longrightarrow> ?thesis" by (simp add: to_int32_def int32_def)
qed

lemma literal_roundtrip:
  "literal_ok A t sc \<Longrightarrow> \<exists>j. SerializeLiteral A t sc = Inr j \<and> DeserializeLiteral A t j = Inr sc"
  unfolding DeserializeLiteral_def
proof (induction t arbitrary: sc)
  case (PrimitiveType t)
  then show ?case
    by (cases sc) (auto simp: ParseTime_def date_roundtrip uuid_roundtrip hexadecimal_roundtrip Let_def)
next
  case (DecimalType p s)
  then show ?case using decimal_roundtrip by (fastforce simp del: literal_ok.simps SerializeLiteral.simps)
next
  case (FixedType n)
  then show ?case by (cases sc) (auto simp: hexadecimal_roundtrip)
next
  case (ListType i r e)
  obtain t xs where sc: "sc = S_list t xs" "ConvertToDataType e = Inr t"
      "\<forall>x \<in> set xs. literal_ok A e x \<and> scalar_type x = t"
    using ListType.prems by (auto split: scalar.splits)
  have "\<forall>x \<in> set xs. \<exists>j. SerializeLiteral A e x = Inr j \<and> DeserializeScalar A e j = Inr x"
    using sc(3) ListType.IH by blast
  then obtain f where f: "\<forall>x \<in> set xs. SerializeLiteral A e x = Inr (f x) \<and> DeserializeScalar A e (f x) = Inr x"
    by metis
  then have "mapE (SerializeLiteral A e) xs = Inr (map f xs)" by (intro mapE_total) simp
  moreover have "mapE (DeserializeScalar A e) (map f xs) = Inr xs"
    using f by (simp add: mapE_eq_Inr_iff list_all2_map1 list.rel_refl_strong)
  ultimately show ?case using sc by simp
qed

end
