(* ===== verification/Table_Metadata.thy ===== *)
theory Table_Metadata
  imports Literals Partition_Keys
begin

text \<open>
  Table metadata (\<open>table_metadata.h\<close>, \<open>table_metadata.cpp\<close>, \<open>snapshot.h\<close>): the
  structure itself with its constructor, builder, checkers and operations, its reader
  from a JSON document and its writer.  The functions of the writer take the members
  written so far and return them extended.  Text is parsed and printed by rapidjson,
  which enters as two parameters of \<open>ReadTableMetadataV2\<close> and \<open>WriteTableMetadataV2\<close>.
\<close>

section \<open>Data\<close>

record snapshot =
  sn_snapshot_id :: int
  sn_parent_snapshot_id :: "int option"
  sn_sequence_number :: int
  sn_timestamp_ms :: int
  sn_manifest_list_location :: string
  sn_summary :: "(string \<times> string) list"
  sn_schema_id :: "int option"

record snapshot_ref =
  sr_snapshot_id :: int
  sr_type :: string
  sr_min_snapshots_to_keep :: "int option"
  sr_max_snapshot_age_ms :: "int option"
  sr_max_ref_age_ms :: "int option"

record snapshot_log =
  sl_timestamp_ms :: int
  sl_snapshot_id :: int

record blob_metadata =
  bm_type :: string
  bm_snapshot_id :: int
  bm_sequence_number :: int
  bm_field_ids :: "int list"
  bm_properties :: "(string \<times> string) list"

record statistics =
  st_snapshot_id :: int
  st_statistics_path :: string
  st_file_size_in_bytes :: int
  st_file_footer_size_in_bytes :: int
  st_key_metadata :: "string option"
  st_blob_metadata :: "blob_metadata list"

record metadata_log =
  ml_timestamp_ms :: int
  ml_metadata_file :: string

datatype null_order = kNullsFirst | kNullsLast

datatype sort_direction = kAsc | kDesc

record sort_field =
  sf_transform :: string
  sf_source_id :: int
  sf_direction :: sort_direction
  sf_null_order :: null_order

record sort_order =
  so_order_id :: int
  so_fields :: "sort_field list"

definition FieldIds :: "sort_order \<Rightarrow> int list" where
  "FieldIds order = map sf_source_id (so_fields order)"

record table_metadata =
  tm_table_uuid :: string
  tm_location :: string
  tm_last_sequence_number :: int
  tm_last_updated_ms :: int
  tm_last_column_id :: int
  tm_schemas :: "schema list"
  tm_current_schema_id :: int
  tm_partition_specs :: "partition_spec list"
  tm_default_spec_id :: int
  tm_last_partition_id :: int
  tm_properties :: "(string \<times> string) list"
  tm_current_snapshot_id :: "int option"
  tm_snapshots :: "snapshot list"
  tm_snapshot_log :: "snapshot_log list"
  tm_metadata_log :: "metadata_log list"
  tm_sort_orders :: "sort_order list"
  tm_default_sort_order_id :: int
  tm_refs :: "(string \<times> snapshot_ref) list"
  tm_statistics :: "statistics list"

section \<open>Checkers\<close>

text \<open>
  \<open>MetadataChecker::Ensure\<close> throws when the checker is fatal and reports \<open>false\<close>
  otherwise; the message on the error stream is left out.  A check runs through its
  conditions in order and joins their results.
\<close>

definition checker_Ensure :: "bool \<Rightarrow> bool \<Rightarrow> string \<Rightarrow> bool result" where
  "checker_Ensure fatal_on_error condition message =
     (if condition then Inr True
      else if fatal_on_error then Inl (Runtime_error message) else Inr False)"

definition run_checks :: "bool \<Rightarrow> (bool \<times> string) list \<Rightarrow> bool result" where
  "run_checks fatal_on_error checks =
     foldE (\<lambda>(condition, message) result.
       bindE (checker_Ensure fatal_on_error condition message) (\<lambda>r. Inr (result \<and> r))) checks True"

definition snapshots_ids :: "table_metadata \<Rightarrow> int set" where
  "snapshots_ids m = set (map sn_snapshot_id (tm_snapshots m))"

definition default_checks :: "table_metadata \<Rightarrow> (bool \<times> string) list" where
  "default_checks m =
     [(tm_table_uuid m \<noteq> [], ''table_uuid is empty''),
      (tm_location m \<noteq> [], ''location is empty''),
      (tm_sort_orders m \<noteq> [], ''sort_orders is empty'')] @
     map (\<lambda>s. (sn_sequence_number s \<le> tm_last_sequence_number m,
       ''snapshot sequence number is greater than last sequence number'')) (tm_snapshots m) @
     map (\<lambda>e. (sl_snapshot_id e \<in> snapshots_ids m,
       ''snapshot_log contains snapshot_id that is not present in snapshots'')) (tm_snapshot_log m) @
     map (\<lambda>(_, ref). (sr_snapshot_id ref \<in> snapshots_ids m,
       ''snapshot-ref id is not found in snapshots' ids'')) (tm_refs m) @
     [(case tm_current_snapshot_id m of None \<Rightarrow> True | Some i \<Rightarrow> i \<in> snapshots_ids m,
       ''current snapshot id is not found in snapshots' ids''),
      (\<exists>s \<in> set (tm_schemas m). s_schema_id s = tm_current_schema_id m,
       ''current schema id is not found in schemas' ids''),
      (\<exists>s \<in> set (tm_partition_specs m). ps_spec_id s = tm_default_spec_id m,
       ''default spec id is not found in partition specs' ids'')]"

definition DefaultChecker_Check :: "bool \<Rightarrow> table_metadata \<Rightarrow> bool result" where
  "DefaultChecker_Check fatal_on_error m = run_checks fatal_on_error (default_checks m)"

fun ordered_log :: "int list \<Rightarrow> string \<Rightarrow> (bool \<times> string) list" where
  "ordered_log (a # b # ts) message = (a \<le> b + 60 * 1000, message) # ordered_log (b # ts) message"
| "ordered_log _ message = []"

definition java_checks :: "table_metadata \<Rightarrow> (bool \<times> string) list" where
  "java_checks m =
     ordered_log (map sl_timestamp_ms (tm_snapshot_log m)) ''snapshot log is not sorted by timestamp'' @
     [(tm_snapshot_log m = [] \<or> tm_last_updated_ms m + 60 * 1000 \<ge> sl_timestamp_ms (last (tm_snapshot_log m)),
       ''last updated ms is less than the last snapshot timestamp'')] @
     ordered_log (map ml_timestamp_ms (tm_metadata_log m)) ''metadata log is not sorted by timestamp'' @
     [(tm_metadata_log m = [] \<or> tm_last_updated_ms m + 60 * 1000 \<ge> ml_timestamp_ms (last (tm_metadata_log m)),
       ''last updated ms is less than the last metadata timestamp'')]"

text \<open>The result of the default check is not used, only its exception.\<close>

definition JavaCompatibleChecker_Check :: "bool \<Rightarrow> table_metadata \<Rightarrow> bool result" where
  "JavaCompatibleChecker_Check fatal_on_error m =
     bindE (DefaultChecker_Check fatal_on_error m) (\<lambda>_. run_checks fatal_on_error (java_checks m))"

section \<open>Construction\<close>

definition mk_TableMetadataV2 :: "table_metadata \<Rightarrow> table_metadata result" where
  "mk_TableMetadataV2 m =
     (let m' = (if tm_current_snapshot_id m = Some (- 1) then m\<lparr>tm_current_snapshot_id := None\<rparr> else m) in
      bindE (DefaultChecker_Check True m') (\<lambda>_. Inr m'))"

record metadata_builder =
  tb_table_uuid :: "string option"
  tb_location :: "string option"
  tb_last_sequence_number :: "int option"
  tb_last_updated_ms :: "int option"
  tb_last_column_id :: "int option"
  tb_schemas :: "schema list option"
  tb_current_schema_id :: "int option"
  tb_partition_specs :: "partition_spec list option"
  tb_default_spec_id :: "int option"
  tb_last_partition_id :: "int option"
  tb_properties :: "(string \<times> string) list option"
  tb_current_snapshot_id :: "int option"
  tb_snapshots :: "snapshot list option"
  tb_snapshot_log :: "snapshot_log list option"
  tb_metadata_log :: "metadata_log list option"
  tb_sort_orders :: "sort_order list option"
  tb_default_sort_order_id :: "int option"
  tb_refs :: "(string \<times> snapshot_ref) list option"
  tb_statistics :: "statistics list option"

definition has_value :: "'a option \<Rightarrow> 'a result" where
  "has_value x = (case x of None \<Rightarrow> Inl (Runtime_error ''TableMetadataV2Builder::Build(): !has_value()'')
     | Some v \<Rightarrow> Inr v)"

definition value_or_empty :: "'a list option \<Rightarrow> 'a list" where
  "value_or_empty x = (case x of None \<Rightarrow> [] | Some v \<Rightarrow> v)"

definition Build :: "metadata_builder \<Rightarrow> table_metadata result" where
  "Build b =
     bindE (has_value (tb_table_uuid b)) (\<lambda>table_uuid.
     bindE (has_value (tb_location b)) (\<lambda>location.
     bindE (has_value (tb_last_sequence_number b)) (\<lambda>last_sequence_number.
     bindE (has_value (tb_last_updated_ms b)) (\<lambda>last_updated_ms.
     bindE (has_value (tb_last_column_id b)) (\<lambda>last_column_id.
     bindE (has_value (tb_schemas b)) (\<lambda>schemas.
     bindE (has_value (tb_current_schema_id b)) (\<lambda>current_schema_id.
     bindE (has_value (tb_partition_specs b)) (\<lambda>partition_specs.
     bindE (has_value (tb_default_spec_id b)) (\<lambda>default_spec_id.
     bindE (has_value (tb_last_partition_id b)) (\<lambda>last_partition_id.
     bindE (has_value (tb_sort_orders b)) (\<lambda>sort_orders.
     bindE (has_value (tb_default_sort_order_id b)) (\<lambda>default_sort_order_id.
     bindE (ensure (\<not> last_sequence_number < 0) ''Build(): !last_sequence_number condition'') (\<lambda>_.
     bindE (ensure (\<not> last_column_id < 0) ''Build(): !last_column_id condition'') (\<lambda>_.
     bindE (ensure (\<not> current_schema_id < 0) ''Build(): !current_schema_id condition'') (\<lambda>_.
     bindE (ensure (\<not> default_spec_id < 0) ''Build(): !default_spec_id condition'') (\<lambda>_.
     bindE (ensure (\<not> last_partition_id < 0) ''Build(): !last_partition_id condition'') (\<lambda>_.
     bindE (ensure (\<not> default_sort_order_id < 0) ''Build(): !default_sort_order_id condition'') (\<lambda>_.
     mk_TableMetadataV2
       \<lparr>tm_table_uuid = table_uuid, tm_location = location, tm_last_sequence_number = last_sequence_number,
        tm_last_updated_ms = last_updated_ms, tm_last_column_id = last_column_id, tm_schemas = schemas,
        tm_current_schema_id = current_schema_id, tm_partition_specs = partition_specs,
        tm_default_spec_id = default_spec_id, tm_last_partition_id = last_partition_id,
        tm_properties = value_or_empty (tb_properties b),
        tm_current_snapshot_id = tb_current_snapshot_id b,
        tm_snapshots = value_or_empty (tb_snapshots b),
        tm_snapshot_log = value_or_empty (tb_snapshot_log b),
        tm_metadata_log = value_or_empty (tb_metadata_log b), tm_sort_orders = sort_orders,
        tm_default_sort_order_id = default_sort_order_id, tm_refs = value_or_empty (tb_refs b),
        tm_statistics = value_or_empty (tb_statistics b)\<rparr>))))))))))))))))))"

section \<open>Operations\<close>

definition GetCurrentManifestListPath :: "table_metadata \<Rightarrow> string option" where
  "GetCurrentManifestListPath m =
     (case tm_current_snapshot_id m of
        None \<Rightarrow> None
      | Some i \<Rightarrow> map_option sn_manifest_list_location (find (\<lambda>s. sn_snapshot_id s = i) (tm_snapshots m)))"

definition GetCurrentManifestListPathOrFail :: "table_metadata \<Rightarrow> string result" where
  "GetCurrentManifestListPathOrFail m =
     (case GetCurrentManifestListPath m of
        None \<Rightarrow> Inl (Runtime_error ''Manifest list path is not found'') | Some p \<Rightarrow> Inr p)"

definition GetCurrentSchema :: "table_metadata \<Rightarrow> schema result" where
  "GetCurrentSchema m =
     (case find (\<lambda>s. s_schema_id s = tm_current_schema_id m) (tm_schemas m) of
        None \<Rightarrow> Inl (Runtime_error ''no schema with current schema id'') | Some s \<Rightarrow> Inr s)"

definition GetCurrentPartitionSpec :: "table_metadata \<Rightarrow> partition_spec result" where
  "GetCurrentPartitionSpec m =
     (case find (\<lambda>s. ps_spec_id s = tm_default_spec_id m) (tm_partition_specs m) of
        None \<Rightarrow> Inl (Runtime_error ''TableMetadataV2: partition spec is not found'') | Some s \<Rightarrow> Inr s)"

definition GetSortOrder :: "table_metadata \<Rightarrow> sort_order option" where
  "GetSortOrder m = find (\<lambda>o'. so_order_id o' = tm_default_sort_order_id m) (tm_sort_orders m)"

text \<open>The first identifier from \<open>i\<close> on that is not in use.\<close>

function next_id :: "int list \<Rightarrow> int \<Rightarrow> int" where
  "next_id ids i = (if i \<in> set ids then next_id ids (i + 1) else i)"
  by auto
termination
proof (relation "measure (\<lambda>(ids, i). card {j \<in> set ids. i \<le> j})")
  fix ids :: "int list" and i
  assume "i \<in> set ids"
  then have "i \<in> {j \<in> set ids. i \<le> j} - {j \<in> set ids. i + 1 \<le> j}" by simp
  moreover have "{j \<in> set ids. i + 1 \<le> j} \<subseteq> {j \<in> set ids. i \<le> j}" by auto
  ultimately have "{j \<in> set ids. i + 1 \<le> j} \<subset> {j \<in> set ids. i \<le> j}" by blast
  then show "((ids, i + 1), (ids, i)) \<in> measure (\<lambda>(ids, i). card {j \<in> set ids. i \<le> j})"
    by (simp add: psubset_card_mono)
qed simp

declare next_id.simps [simp del]

definition SetSortOrder :: "sort_order \<Rightarrow> table_metadata \<Rightarrow> int \<times> table_metadata" where
  "SetSortOrder order m =
     (case find (\<lambda>known. so_fields known = so_fields order) (tm_sort_orders m) of
        Some known \<Rightarrow> (so_order_id known, m\<lparr>tm_default_sort_order_id := so_order_id known\<rparr>)
      | None \<Rightarrow>
          let ids = map so_order_id (tm_sort_orders m);
              i = (if so_order_id order = 0 \<or> so_order_id order \<in> set ids then next_id ids 1
                   else so_order_id order) in
          (i, m\<lparr>tm_sort_orders := tm_sort_orders m @ [order\<lparr>so_order_id := i\<rparr>],
                tm_default_sort_order_id := i\<rparr>))"

definition FilterSchemaColumns :: "string list \<Rightarrow> table_metadata \<Rightarrow> table_metadata" where
  "FilterSchemaColumns flt m =
     m\<lparr>tm_schemas := map (\<lambda>s. FilterColumns s (FindColumnIds s flt)) (tm_schemas m)\<rparr>"

end
