(* ===== verification/Metadata_Json.thy ===== *)
theory Metadata_Json
  imports Table_Metadata
begin

text \<open>
  The JSON form of table metadata: \<open>WriterContext\<close>, the \<open>JsonTo\<close> and \<open>Extract\<close>
  functions, \<open>MakeTableMetadataV2\<close>, \<open>ReadTableMetadataV2\<close> and \<open>WriteTableMetadataV2\<close>
  of \<open>table_metadata.cpp\<close>, in the order of the source.  The member names of \<open>Names\<close>
  are written out as string literals.
\<close>

section \<open>Writer\<close>

definition WriteJsonField :: "string \<Rightarrow> json \<Rightarrow> members \<Rightarrow> members" where
  "WriteJsonField field_name v doc = doc @ [(field_name, v)]"

definition write_optional :: "string \<Rightarrow> ('a \<Rightarrow> json) \<Rightarrow> 'a option \<Rightarrow> members \<Rightarrow> members" where
  "write_optional field_name f x doc =
     (case x of None \<Rightarrow> doc | Some v \<Rightarrow> WriteJsonField field_name (f v) doc)"

fun WriteDataType :: "itype \<Rightarrow> string \<Rightarrow> members \<Rightarrow> members result" where
  "WriteDataType (ListType eid ereq etype) field_name doc =
     (let element = WriteJsonField ''element-required'' (J_bool ereq)
        (WriteJsonField ''element-id'' (J_int eid)
        (WriteJsonField ''type'' (J_string ''list'') [])) in
      bindE (WriteDataType etype ''element'' element) (\<lambda>element.
      Inr (WriteJsonField field_name (J_object element) doc)))"
| "WriteDataType type field_name doc =
     bindE (type_ToString type) (\<lambda>s. Inr (WriteJsonField field_name (J_string s) doc))"

definition write_default :: "arrow_api \<Rightarrow> itype \<Rightarrow> string \<Rightarrow> scalar option \<Rightarrow> members \<Rightarrow> members result" where
  "write_default A type field_name literal doc =
     (case literal of None \<Rightarrow> Inr doc
      | Some l \<Rightarrow> bindE (SerializeLiteral A type l) (\<lambda>v. Inr (WriteJsonField field_name v doc)))"

definition WriteField :: "arrow_api \<Rightarrow> nested_field \<Rightarrow> members \<Rightarrow> members result" where
  "WriteField A field doc =
     bindE (WriteDataType (nf_type field) ''type''
       (WriteJsonField ''required'' (J_bool (nf_is_required field))
       (WriteJsonField ''name'' (J_string (nf_name field))
       (WriteJsonField ''id'' (J_int (nf_field_id field)) doc)))) (\<lambda>doc.
     bindE (write_default A (nf_type field) ''initial-default'' (nf_initial_default field) doc)
       (write_default A (nf_type field) ''write-default'' (nf_write_default field)))"

definition write_schema :: "arrow_api \<Rightarrow> schema \<Rightarrow> json result" where
  "write_schema A s =
     bindE (mapE (\<lambda>column. bindE (WriteField A column []) (\<lambda>f. Inr (J_object f))) (s_fields s)) (\<lambda>fields.
     Inr (J_object (WriteJsonField ''fields'' (J_array fields)
       (WriteJsonField ''schema-id'' (J_int (s_schema_id s))
       (WriteJsonField ''type'' (J_string ''struct'') [])))))"

definition WriteSchemas :: "arrow_api \<Rightarrow> schema list \<Rightarrow> members \<Rightarrow> members result" where
  "WriteSchemas A schemas doc =
     bindE (mapE (write_schema A) schemas) (\<lambda>js. Inr (WriteJsonField ''schemas'' (J_array js) doc))"

definition WritePartitionField :: "partition_field \<Rightarrow> members" where
  "WritePartitionField field =
     WriteJsonField ''transform'' (J_string (pf_transform field))
     (WriteJsonField ''name'' (J_string (pf_name field))
     (WriteJsonField ''field-id'' (J_int (pf_field_id field))
     (WriteJsonField ''source-id'' (J_int (pf_source_id field)) [])))"

definition write_spec :: "partition_spec \<Rightarrow> json" where
  "write_spec s =
     J_object (WriteJsonField ''fields'' (J_array (map (\<lambda>f. J_object (WritePartitionField f)) (ps_fields s)))
       (WriteJsonField ''spec-id'' (J_int (ps_spec_id s)) []))"

definition WritePartitionSpec :: "partition_spec list \<Rightarrow> members \<Rightarrow> members" where
  "WritePartitionSpec specs doc = WriteJsonField ''partition-specs'' (J_array (map write_spec specs)) doc"

definition WriteStringMap :: "(string \<times> string) list \<Rightarrow> members \<Rightarrow> members" where
  "WriteStringMap values doc = fold (\<lambda>(k, v). WriteJsonField k (J_string v)) values doc"

definition WriteSnapshot :: "snapshot \<Rightarrow> members result" where
  "WriteSnapshot snap =
     (let document = WriteJsonField ''timestamp-ms'' (J_int (sn_timestamp_ms snap))
        (write_optional ''parent-snapshot-id'' J_int (sn_parent_snapshot_id snap)
        (WriteJsonField ''snapshot-id'' (J_int (sn_snapshot_id snap))
        (WriteJsonField ''sequence-number'' (J_int (sn_sequence_number snap)) []))) in
      bindE (ensure (map_of (sn_summary snap) ''operation'' \<noteq> None) ''no operation in summary'') (\<lambda>_.
      Inr (write_optional ''schema-id'' J_int (sn_schema_id snap)
        (WriteJsonField ''manifest-list'' (J_string (sn_manifest_list_location snap))
        (WriteJsonField ''summary'' (J_object (WriteStringMap (sn_summary snap) [])) document)))))"

definition WriteSnapshots :: "snapshot list \<Rightarrow> members \<Rightarrow> members result" where
  "WriteSnapshots snaps doc =
     (if snaps = [] then Inr doc
      else bindE (mapE (\<lambda>s. bindE (WriteSnapshot s) (\<lambda>snap. Inr (J_object snap))) snaps) (\<lambda>snapshots.
        Inr (WriteJsonField ''snapshots'' (J_array snapshots) doc)))"

definition WriteProperties :: "(string \<times> string) list \<Rightarrow> members \<Rightarrow> members" where
  "WriteProperties values doc =
     (if values = [] then doc
      else WriteJsonField ''properties'' (J_object (WriteStringMap values [])) doc)"

definition WriteBlobMetadata :: "blob_metadata \<Rightarrow> members" where
  "WriteBlobMetadata blob =
     WriteJsonField ''fields'' (J_array (map J_int (bm_field_ids blob)))
     (WriteJsonField ''type'' (J_string (bm_type blob))
     (WriteJsonField ''snapshot-id'' (J_int (bm_snapshot_id blob))
     (WriteJsonField ''sequence-number'' (J_int (bm_sequence_number blob))
     (WriteProperties (bm_properties blob) []))))"

definition WriteStatistic :: "statistics \<Rightarrow> members" where
  "WriteStatistic stat =
     WriteJsonField ''blob-metadata'' (J_array (map (\<lambda>b. J_object (WriteBlobMetadata b)) (st_blob_metadata stat)))
     (WriteJsonField ''file-footer-size-in-bytes'' (J_int (st_file_footer_size_in_bytes stat))
     (WriteJsonField ''file-size-in-bytes'' (J_int (st_file_size_in_bytes stat))
     (WriteJsonField ''snapshot-id'' (J_int (st_snapshot_id stat))
     (WriteJsonField ''statistics-path'' (J_string (st_statistics_path stat)) []))))"

definition WriteStatistics :: "statistics list \<Rightarrow> members \<Rightarrow> members" where
  "WriteStatistics stats doc =
     WriteJsonField ''statistics'' (J_array (map (\<lambda>s. J_object (WriteStatistic s)) stats)) doc"

definition WriteSnapshotLogEntry :: "snapshot_log \<Rightarrow> members" where
  "WriteSnapshotLogEntry entry =
     WriteJsonField ''snapshot-id'' (J_int (sl_snapshot_id entry))
     (WriteJsonField ''timestamp-ms'' (J_int (sl_timestamp_ms entry)) [])"

definition WriteSnapshotLog :: "snapshot_log list \<Rightarrow> members \<Rightarrow> members" where
  "WriteSnapshotLog log doc =
     (if log = [] then doc
      else WriteJsonField ''snapshot-log'' (J_array (map (\<lambda>e. J_object (WriteSnapshotLogEntry e)) log)) doc)"

definition WriteMetadataLogEntry :: "metadata_log \<Rightarrow> members" where
  "WriteMetadataLogEntry entry =
     WriteJsonField ''metadata-file'' (J_string (ml_metadata_file entry))
     (WriteJsonField ''timestamp-ms'' (J_int (ml_timestamp_ms entry)) [])"

definition WriteMetadataLog :: "metadata_log list \<Rightarrow> members \<Rightarrow> members" where
  "WriteMetadataLog log doc =
     (if log = [] then doc
      else WriteJsonField ''metadata-log'' (J_array (map (\<lambda>e. J_object (WriteMetadataLogEntry e)) log)) doc)"

definition WriteSortField :: "sort_field \<Rightarrow> members" where
  "WriteSortField field =
     WriteJsonField ''null-order''
       (J_string (if sf_null_order field = kNullsFirst then ''nulls-first'' else ''nulls-last''))
     (WriteJsonField ''direction'' (J_string (if sf_direction field = kAsc then ''asc'' else ''desc''))
     (WriteJsonField ''source-id'' (J_int (sf_source_id field))
     (WriteJsonField ''transform'' (J_string (sf_transform field)) [])))"

definition write_order :: "sort_order \<Rightarrow> json" where
  "write_order s =
     J_object (WriteJsonField ''fields'' (J_array (map (\<lambda>f. J_object (WriteSortField f)) (so_fields s)))
       (WriteJsonField ''order-id'' (J_int (so_order_id s)) []))"

definition WriteSortOrder :: "sort_order list \<Rightarrow> members \<Rightarrow> members" where
  "WriteSortOrder orders doc = WriteJsonField ''sort-orders'' (J_array (map write_order orders)) doc"

definition WriteRefField :: "string \<Rightarrow> snapshot_ref \<Rightarrow> members \<Rightarrow> members" where
  "WriteRefField name snap_ref doc =
     WriteJsonField name (J_object
       (write_optional ''max-ref-age-ms'' J_int (sr_max_ref_age_ms snap_ref)
       (write_optional ''max-snapshot-age-ms'' J_int (sr_max_snapshot_age_ms snap_ref)
       (write_optional ''min-snapshots-to-keep'' J_int (sr_min_snapshots_to_keep snap_ref)
       (WriteJsonField ''type'' (J_string (sr_type snap_ref))
       (WriteJsonField ''snapshot-id'' (J_int (sr_snapshot_id snap_ref)) [])))))) doc"

definition WriteRefs :: "(string \<times> snapshot_ref) list \<Rightarrow> members \<Rightarrow> members" where
  "WriteRefs values doc =
     (if values = [] then doc
      else WriteJsonField ''refs'' (J_object (fold (\<lambda>(k, r). WriteRefField k r) values [])) doc)"

definition write_document :: "arrow_api \<Rightarrow> table_metadata \<Rightarrow> members result" where
  "write_document A m =
     bindE (WriteSchemas A (tm_schemas m)
       (WriteJsonField ''current-schema-id'' (J_int (tm_current_schema_id m))
       (WriteJsonField ''last-column-id'' (J_int (tm_last_column_id m))
       (WriteJsonField ''last-updated-ms'' (J_int (tm_last_updated_ms m))
       (WriteJsonField ''last-sequence-number'' (J_int (tm_last_sequence_number m))
       (WriteJsonField ''location'' (J_string (tm_location m))
       (WriteJsonField ''table-uuid'' (J_string (tm_table_uuid m))
       (WriteJsonField ''format-version'' (J_int 2) [])))))))) (\<lambda>document.
     bindE (WriteSnapshots (tm_snapshots m)
       (WriteRefs (tm_refs m)
       (write_optional ''current-snapshot-id'' J_int (tm_current_snapshot_id m)
       (WriteStatistics (tm_statistics m)
       (WriteProperties (tm_properties m)
       (WriteSortOrder (tm_sort_orders m)
       (WriteJsonField ''default-sort-order-id'' (J_int (tm_default_sort_order_id m))
       (WriteJsonField ''last-partition-id'' (J_int (tm_last_partition_id m))
       (WritePartitionSpec (tm_partition_specs m)
       (WriteJsonField ''default-spec-id'' (J_int (tm_default_spec_id m)) document)))))))))) (\<lambda>document.
     Inr (WriteMetadataLog (tm_metadata_log m)
       (WriteSnapshotLog (tm_snapshot_log m) document))))"

definition WriteTableMetadataV2 ::
  "arrow_api \<Rightarrow> (bool \<Rightarrow> json \<Rightarrow> string) \<Rightarrow> table_metadata \<Rightarrow> bool \<Rightarrow> string result" where
  "WriteTableMetadataV2 A print_json m pretty =
     bindE (write_document A m) (\<lambda>document. Inr (print_json pretty (J_object document)))"

section \<open>Reader\<close>

definition ProcessArray :: "(json \<Rightarrow> 'a result) \<Rightarrow> json \<Rightarrow> 'a list result" where
  "ProcessArray callback array =
     (case array of J_array elems \<Rightarrow> mapE callback elems | _ \<Rightarrow> Inl (Runtime_error ''!array.IsArray()''))"

definition parse_decimal_type :: "string \<Rightarrow> itype result" where
  "parse_decimal_type str =
     (let (precision, ss) = read_int32 (- 1) (ignore 8 (stringstream str));
          (scale, ss) = read_int32 (- 1) (ignore 1 ss) in
      mk_DecimalType precision scale)"

text \<open>The variable of the size is not initialised; a failed sentry leaves it so.\<close>

definition parse_fixed_type :: "string \<Rightarrow> itype result" where
  "parse_fixed_type str =
     (let ss = ignore 6 (stringstream str) in
      if is_eof ss \<or> dropWhile is_space (is_rest ss) = [] then Inl (Undefined ''uninitialised size'')
      else mk_FixedType (fst (read_int32 0 ss)))"

definition primitive_type_of_string :: "string \<Rightarrow> itype result" where
  "primitive_type_of_string str =
     (case NameToPrimitiveType str of
        Some t \<Rightarrow> Inr (PrimitiveType t)
      | None \<Rightarrow>
          if starts_with str ''decimal'' then parse_decimal_type str
          else if starts_with str ''fixed'' then parse_fixed_type str
          else Inl (Runtime_error ''unknown type''))"

lemma member_at_size: "member_at v name = Inr v' \<Longrightarrow> size v' < size v"
proof (cases v)
  case (J_object ms)
  moreover assume "member_at v name = Inr v'"
  ultimately have "(name, v') \<in> set ms" by (auto split: option.splits dest: map_of_SomeD)
  then have "size v' < Suc (size_list (size_prod (\<lambda>x. 0) size) ms)" by (induction ms) auto
  then show ?thesis using J_object by simp
qed simp_all

function JsonToDataType :: "json \<Rightarrow> itype result" where
  "JsonToDataType v =
     (case v of
        J_string str \<Rightarrow> primitive_type_of_string (c_str str)
      | J_object _ \<Rightarrow>
          bindE (HasMember v ''type'') (\<lambda>has.
          bindE (ensure has ''!value.HasMember(type)'') (\<lambda>_.
          bindE (ExtractStringField v ''type'') (\<lambda>type.
          if type = ''list'' then
            bindE (ExtractInt32Field v ''element-id'') (\<lambda>element_field_id.
            bindE (ExtractBooleanField v ''element-required'') (\<lambda>element_required.
            bindE (HasMember v ''element'') (\<lambda>has.
            bindE (ensure has ''!value.HasMember(element)'') (\<lambda>_.
            bindE (member_at v ''element'') (\<lambda>e.
            bindE (JsonToDataType e) (\<lambda>element_type.
            Inr (ListType element_field_id element_required element_type)))))))
          else Inl (Runtime_error ''unknown type''))))
      | _ \<Rightarrow> Inl (Runtime_error ''unknown type''))"
  by auto
termination by (relation "measure size") (simp_all add: member_at_size del: member_at.simps json.size)

declare JsonToDataType.simps [simp del]

definition ExtractOptionalLiteral :: "arrow_api \<Rightarrow> json \<Rightarrow> string \<Rightarrow> itype \<Rightarrow> scalar option result" where
  "ExtractOptionalLiteral A document field_name type =
     bindE (HasMember document field_name) (\<lambda>has.
       if \<not> has then Inr None
       else bindE (member_at document field_name) (\<lambda>v.
         bindE (DeserializeLiteral A type v) (\<lambda>l. Inr (Some l))))"

definition JsonToField :: "arrow_api \<Rightarrow> json \<Rightarrow> nested_field result" where
  "JsonToField A document =
     bindE (ExtractInt32Field document ''id'') (\<lambda>field_id.
     bindE (ExtractStringField document ''name'') (\<lambda>name.
     bindE (ExtractBooleanField document ''required'') (\<lambda>is_required.
     bindE (ExtractField JsonToDataType document ''type'') (\<lambda>type.
     bindE (ExtractOptionalLiteral A document ''initial-default'' type) (\<lambda>initial_default.
     bindE (ExtractOptionalLiteral A document ''write-default'' type) (\<lambda>write_default.
     Inr \<lparr>nf_name = name, nf_field_id = field_id, nf_is_required = is_required, nf_type = type,
          nf_initial_default = initial_default, nf_write_default = write_default\<rparr>))))))"

definition ExtractSchemaFields :: "arrow_api \<Rightarrow> json \<Rightarrow> string \<Rightarrow> nested_field list result" where
  "ExtractSchemaFields A = ExtractField (ProcessArray (JsonToField A))"

definition require_object :: "json \<Rightarrow> unit result" where
  "require_object document = ensure (IsObject document) ''!document.IsObject()''"

definition JsonToSchema :: "arrow_api \<Rightarrow> json \<Rightarrow> schema result" where
  "JsonToSchema A document =
     bindE (require_object document) (\<lambda>_.
     bindE (ExtractInt32Field document ''schema-id'') (\<lambda>schema_id.
     bindE (ExtractSchemaFields A document ''fields'') (\<lambda>fields.
     Inr \<lparr>s_schema_id = schema_id, s_fields = fields\<rparr>)))"

definition ExtractSchemas :: "arrow_api \<Rightarrow> json \<Rightarrow> schema list result" where
  "ExtractSchemas A document = ExtractField (ProcessArray (JsonToSchema A)) document ''schemas''"

definition JsonToPartitionField :: "json \<Rightarrow> partition_field result" where
  "JsonToPartitionField document =
     bindE (ExtractInt32Field document ''source-id'') (\<lambda>source_id.
     bindE (ExtractInt32Field document ''field-id'') (\<lambda>field_id.
     bindE (ExtractStringField document ''name'') (\<lambda>name.
     bindE (ExtractStringField document ''transform'') (\<lambda>transform.
     Inr \<lparr>pf_source_id = source_id, pf_field_id = field_id, pf_name = name, pf_transform = transform\<rparr>))))"

definition ExtractPartitionFields :: "json \<Rightarrow> partition_field list result" where
  "ExtractPartitionFields document = ExtractField (ProcessArray JsonToPartitionField) document ''fields''"

definition JsonPartitionSpec :: "json \<Rightarrow> partition_spec result" where
  "JsonPartitionSpec document =
     bindE (require_object document) (\<lambda>_.
     bindE (ExtractInt32Field document ''spec-id'') (\<lambda>spec_id.
     bindE (ExtractPartitionFields document) (\<lambda>fields.
     Inr \<lparr>ps_spec_id = spec_id, ps_fields = fields\<rparr>)))"

definition ExtractPartitionSpecs :: "json \<Rightarrow> partition_spec list result" where
  "ExtractPartitionSpecs document = ExtractField (ProcessArray JsonPartitionSpec) document ''partition-specs''"

definition JsonToSnapshot :: "json \<Rightarrow> snapshot result" where
  "JsonToSnapshot document =
     bindE (require_object document) (\<lambda>_.
     bindE (ExtractInt64Field document ''snapshot-id'') (\<lambda>snapshot_id.
     bindE (ExtractOptionalInt64Field document ''parent-snapshot-id'') (\<lambda>parent_snapshot_id.
     bindE (ExtractInt64Field document ''sequence-number'') (\<lambda>sequence_number.
     bindE (ExtractInt64Field document ''timestamp-ms'') (\<lambda>timestamp_ms.
     bindE (ExtractStringField document ''manifest-list'') (\<lambda>manifest_list.
     bindE (ExtractStringMap document ''summary'') (\<lambda>summary.
     bindE (ensure (map_of summary ''operation'' \<noteq> None) ''!summary.contains(operation)'') (\<lambda>_.
     bindE (ExtractOptionalInt64Field document ''schema-id'') (\<lambda>schema_id.
     Inr \<lparr>sn_snapshot_id = snapshot_id, sn_parent_snapshot_id = parent_snapshot_id,
          sn_sequence_number = sequence_number, sn_timestamp_ms = timestamp_ms,
          sn_manifest_list_location = manifest_list, sn_summary = summary,
          sn_schema_id = schema_id\<rparr>)))))))))"

definition JsonToFieldId :: "json \<Rightarrow> int result" where
  "JsonToFieldId document = GetInt document"

definition ExtractFieldIds :: "json \<Rightarrow> int list result" where
  "ExtractFieldIds document = ExtractField (ProcessArray JsonToFieldId) document ''fields''"

definition JsonToBlobMetadata :: "json \<Rightarrow> blob_metadata result" where
  "JsonToBlobMetadata document =
     bindE (ExtractStringField document ''type'') (\<lambda>type.
     bindE (ExtractInt64Field document ''snapshot-id'') (\<lambda>snapshot_id.
     bindE (ExtractInt64Field document ''sequence-number'') (\<lambda>sequence_number.
     bindE (ExtractFieldIds document) (\<lambda>field_ids.
     bindE (ExtractStringMap document ''properties'') (\<lambda>properties.
     Inr \<lparr>bm_type = type, bm_snapshot_id = snapshot_id, bm_sequence_number = sequence_number,
          bm_field_ids = field_ids, bm_properties = properties\<rparr>)))))"

definition ExtractBlobMetadata :: "json \<Rightarrow> blob_metadata list result" where
  "ExtractBlobMetadata document = ExtractField (ProcessArray JsonToBlobMetadata) document ''blob-metadata''"

definition JsonToStatistics :: "json \<Rightarrow> statistics result" where
  "JsonToStatistics document =
     bindE (require_object document) (\<lambda>_.
     bindE (ExtractStringField document ''statistics-path'') (\<lambda>statistics_path.
     bindE (ExtractInt64Field document ''snapshot-id'') (\<lambda>snapshot_id.
     bindE (ExtractInt64Field document ''file-size-in-bytes'') (\<lambda>file_size_in_bytes.
     bindE (ExtractInt64Field document ''file-footer-size-in-bytes'') (\<lambda>file_footer_size_in_bytes.
     bindE (ExtractBlobMetadata document) (\<lambda>blob_metadata.
     Inr \<lparr>st_snapshot_id = snapshot_id, st_statistics_path = statistics_path,
          st_file_size_in_bytes = file_size_in_bytes,
          st_file_footer_size_in_bytes = file_footer_size_in_bytes, st_key_metadata = None,
          st_blob_metadata = blob_metadata\<rparr>))))))"

definition ExtractOptional :: "(json \<Rightarrow> 'a result) \<Rightarrow> json \<Rightarrow> string \<Rightarrow> 'a option result" where
  "ExtractOptional get document field_name =
     bindE (HasMember document field_name) (\<lambda>has.
       if \<not> has then Inr None
       else bindE (member_at document field_name) (\<lambda>v. bindE (get v) (\<lambda>x. Inr (Some x))))"

definition ExtractSnapshots :: "json \<Rightarrow> snapshot list option result" where
  "ExtractSnapshots document = ExtractOptional (ProcessArray JsonToSnapshot) document ''snapshots''"

definition JsonToSnapshotLogEntry :: "json \<Rightarrow> snapshot_log result" where
  "JsonToSnapshotLogEntry document =
     bindE (require_object document) (\<lambda>_.
     bindE (ExtractInt64Field document ''timestamp-ms'') (\<lambda>timestamp_ms.
     bindE (ExtractInt64Field document ''snapshot-id'') (\<lambda>snapshot_id.
     Inr \<lparr>sl_timestamp_ms = timestamp_ms, sl_snapshot_id = snapshot_id\<rparr>)))"

definition ExtractSnapshotLog :: "json \<Rightarrow> snapshot_log list option result" where
  "ExtractSnapshotLog document = ExtractOptional (ProcessArray JsonToSnapshotLogEntry) document ''snapshot-log''"

definition JsonToMetadataLogEntry :: "json \<Rightarrow> metadata_log result" where
  "JsonToMetadataLogEntry document =
     bindE (require_object document) (\<lambda>_.
     bindE (ExtractInt64Field document ''timestamp-ms'') (\<lambda>timestamp_ms.
     bindE (ExtractStringField document ''metadata-file'') (\<lambda>metadata_file.
     Inr \<lparr>ml_timestamp_ms = timestamp_ms, ml_metadata_file = metadata_file\<rparr>)))"

definition ExtractMetadataLog :: "json \<Rightarrow> metadata_log list option result" where
  "ExtractMetadataLog document = ExtractOptional (ProcessArray JsonToMetadataLogEntry) document ''metadata-log''"

definition ExtractProperties :: "json \<Rightarrow> (string \<times> string) list option result" where
  "ExtractProperties document = ExtractOptional JsonToStringMap document ''properties''"

definition JsonToSortField :: "json \<Rightarrow> sort_field result" where
  "JsonToSortField document =
     bindE (require_object document) (\<lambda>_.
     bindE (ExtractStringField document ''direction'') (\<lambda>str_direction.
     bindE (ExtractStringField document ''null-order'') (\<lambda>str_null_order.
     bindE (ExtractStringField document ''transform'') (\<lambda>transform.
     bindE (ExtractInt32Field document ''source-id'') (\<lambda>source_id.
     Inr \<lparr>sf_transform = transform, sf_source_id = source_id,
          sf_direction = (if str_direction = ''asc'' \<or> str_direction = ''ASC'' then kAsc else kDesc),
          sf_null_order = (if str_null_order = ''nulls-first'' then kNullsFirst else kNullsLast)\<rparr>)))))"

definition JsonToSortOrders :: "json \<Rightarrow> sort_order result" where
  "JsonToSortOrders document =
     bindE (require_object document) (\<lambda>_.
     bindE (ExtractInt32Field document ''order-id'') (\<lambda>order_id.
     bindE (member_at document ''fields'') (\<lambda>array.
     bindE (ProcessArray JsonToSortField array) (\<lambda>fields.
     Inr \<lparr>so_order_id = order_id, so_fields = fields\<rparr>))))"

definition ExtractSortOrders :: "json \<Rightarrow> sort_order list result" where
  "ExtractSortOrders document = ExtractField (ProcessArray JsonToSortOrders) document ''sort-orders''"

definition JsonToRef :: "json \<Rightarrow> snapshot_ref result" where
  "JsonToRef document =
     bindE (require_object document) (\<lambda>_.
     bindE (ExtractInt64Field document ''snapshot-id'') (\<lambda>snapshot_id.
     bindE (ExtractStringField document ''type'') (\<lambda>type.
     bindE (ExtractOptionalInt32Field document ''min-snapshots-to-keep'') (\<lambda>min_snapshots_to_keep.
     bindE (ExtractOptionalInt64Field document ''max-snapshot-age-ms'') (\<lambda>max_snapshot_age_ms.
     bindE (ExtractOptionalInt64Field document ''max-ref-age-ms'') (\<lambda>max_ref_age_ms.
     Inr \<lparr>sr_snapshot_id = snapshot_id, sr_type = type, sr_min_snapshots_to_keep = min_snapshots_to_keep,
          sr_max_snapshot_age_ms = max_snapshot_age_ms, sr_max_ref_age_ms = max_ref_age_ms\<rparr>))))))"

fun JsonToRefsMap :: "json \<Rightarrow> (string \<times> snapshot_ref) list result" where
  "JsonToRefsMap (J_object ms) =
     foldE (\<lambda>(name, v) m. bindE (JsonToRef v) (\<lambda>r. Inr (omap_emplace (c_str name) r m))) ms []"
| "JsonToRefsMap _ = Inl (Runtime_error ''!document.IsObject()'')"

definition ExtractRefs :: "json \<Rightarrow> (string \<times> snapshot_ref) list option result" where
  "ExtractRefs document = ExtractOptional JsonToRefsMap document ''refs''"

definition ExtractStatistics :: "json \<Rightarrow> statistics list option result" where
  "ExtractStatistics document = ExtractOptional (ProcessArray JsonToStatistics) document ''statistics''"

definition MakeTableMetadataV2 :: "arrow_api \<Rightarrow> json \<Rightarrow> table_metadata result" where
  "MakeTableMetadataV2 A document =
     bindE (ExtractStringField document ''table-uuid'') (\<lambda>table_uuid.
     bindE (ExtractStringField document ''location'') (\<lambda>location.
     bindE (ExtractInt64Field document ''last-sequence-number'') (\<lambda>last_sequence_number.
     bindE (ExtractInt64Field document ''last-updated-ms'') (\<lambda>last_updated_ms.
     bindE (ExtractInt32Field document ''last-column-id'') (\<lambda>last_column_id.
     bindE (ExtractSchemas A document) (\<lambda>schemas.
     bindE (ExtractInt32Field document ''current-schema-id'') (\<lambda>current_schema_id.
     bindE (ExtractPartitionSpecs document) (\<lambda>partition_specs.
     bindE (ExtractInt32Field document ''default-spec-id'') (\<lambda>default_spec_id.
     bindE (ExtractInt32Field document ''last-partition-id'') (\<lambda>last_partition_id.
     bindE (ExtractProperties document) (\<lambda>properties.
     bindE (ExtractOptionalInt64Field document ''current-snapshot-id'') (\<lambda>current_snapshot_id.
     bindE (ExtractSnapshots document) (\<lambda>snapshots.
     bindE (ExtractSnapshotLog document) (\<lambda>snapshot_log.
     bindE (ExtractMetadataLog document) (\<lambda>metadata_log.
     bindE (ExtractSortOrders document) (\<lambda>sort_orders.
     bindE (ExtractInt32Field document ''default-sort-order-id'') (\<lambda>default_sort_order_id.
     bindE (ExtractRefs document) (\<lambda>refs.
     bindE (ExtractStatistics document) (\<lambda>statistics.
     Build
       \<lparr>tb_table_uuid = Some table_uuid, tb_location = Some location,
        tb_last_sequence_number = Some last_sequence_number, tb_last_updated_ms = Some last_updated_ms,
        tb_last_column_id = Some last_column_id, tb_schemas = Some schemas,
        tb_current_schema_id = Some current_schema_id, tb_partition_specs = Some partition_specs,
        tb_default_spec_id = Some default_spec_id, tb_last_partition_id = Some last_partition_id,
        tb_properties = properties, tb_current_snapshot_id = current_snapshot_id,
        tb_snapshots = snapshots, tb_snapshot_log = snapshot_log, tb_metadata_log = metadata_log,
        tb_sort_orders = Some sort_orders, tb_default_sort_order_id = Some default_sort_order_id,
        tb_refs = refs, tb_statistics = statistics\<rparr>)))))))))))))))))))"

text \<open>A text that is no JSON object (or no JSON at all) gives the empty pointer.\<close>

definition ReadTableMetadataV2 ::
  "arrow_api \<Rightarrow> (string \<Rightarrow> json option) \<Rightarrow> string \<Rightarrow> table_metadata option result" where
  "ReadTableMetadataV2 A parse_json text =
     (case parse_json text of
        Some (J_object ms) \<Rightarrow> bindE (MakeTableMetadataV2 A (J_object ms)) (\<lambda>m. Inr (Some m))
      | _ \<Rightarrow> Inr None)"

end
