(* ===== verification/Metadata_Roundtrip.thy ===== *)
theory Metadata_Roundtrip
  imports Metadata_Json
begin

text \<open>
  Reading back what the writer of table metadata wrote.  Each record has a predicate for
  the values that survive (identifiers within their width, strings without a zero byte
  where the reader goes through \<open>const char*\<close>, literals of \<open>literal_ok\<close>) and a lemma that
  its reader inverts its writer; the theorem on whole documents composes them.
\<close>

section \<open>Members of written objects\<close>

declare case_map_option [simp del]

lemma map_of_WriteJsonField [json_simps]:
  "map_of (WriteJsonField n v doc) k =
     (if k = n then case map_of doc k of None \<Rightarrow> Some v | Some x \<Rightarrow> Some x else map_of doc k)"
  by (simp add: WriteJsonField_def map_add_def split: option.split)

lemma map_of_write_optional [json_simps]:
  "map_of (write_optional n f x doc) k =
     (if k = n then case map_of doc k of None \<Rightarrow> map_option f x | Some y \<Rightarrow> Some y else map_of doc k)"
  by (simp add: write_optional_def map_of_WriteJsonField split: option.split)

lemma map_of_WriteProperties [json_simps]:
  "map_of (WriteProperties vals doc) k =
     (if k = ''properties'' then
        case map_of doc k of None \<Rightarrow> if vals = [] then None else Some (J_object (WriteStringMap vals []))
        | Some y \<Rightarrow> Some y
      else map_of doc k)"
  by (simp add: WriteProperties_def map_of_WriteJsonField split: option.split)

lemma WriteJsonField_fun: "WriteJsonField = (\<lambda>n v doc. doc @ [(n, v)])"
  by (intro ext) (simp add: WriteJsonField_def)

lemma fold_append_members:
  "fold (\<lambda>(k, v) doc. doc @ [(k, f k v)]) vals doc = doc @ map (\<lambda>(k, v). (k, f k v)) vals"
  by (induction vals arbitrary: doc) auto

lemma WriteStringMap_eq: "WriteStringMap vals [] = map (\<lambda>(k, v). (k, J_string v)) vals"
  using fold_append_members [of "\<lambda>_. J_string" vals "[]"]
  by (simp add: WriteStringMap_def WriteJsonField_fun)

lemma ProcessArray_map:
  "(\<And>x. x \<in> set xs \<Longrightarrow> callback (f x) = Inr x) \<Longrightarrow> ProcessArray callback (J_array (map f xs)) = Inr xs"
  by (simp add: ProcessArray_def mapE_eq_Inr_iff list_all2_map1 list.rel_refl_strong)

lemma ExtractOptional_object [json_simps]:
  "ExtractOptional get (J_object ms) name =
     (case map_of ms name of None \<Rightarrow> Inr None | Some v \<Rightarrow> bindE (get v) (\<lambda>x. Inr (Some x)))"
  by (simp add: ExtractOptional_def split: option.splits)

text \<open>Optional numbers written by \<open>write_optional\<close> are read back.\<close>

lemma optional_number:
  "(\<And>n. x = Some n \<Longrightarrow> get (J_int n) = Inr n) \<Longrightarrow>
   (case map_option J_int x of None \<Rightarrow> Inr None
    | Some v \<Rightarrow> (case get v of Inl _ \<Rightarrow> Inr None | Inr n \<Rightarrow> Inr (Some n))) = Inr x"
  by (cases x) simp_all

definition optional_ok :: "(int \<Rightarrow> bool) \<Rightarrow> int option \<Rightarrow> bool" where
  "optional_ok P x = (case x of None \<Rightarrow> True | Some n \<Rightarrow> P n)"

lemma optional_int64 [json_simps]:
  "optional_ok int64 x \<Longrightarrow>
   (case map_option J_int x of None \<Rightarrow> Inr None
    | Some v \<Rightarrow> (case GetInt64 v of Inl _ \<Rightarrow> Inr None | Inr n \<Rightarrow> Inr (Some n))) = Inr x"
  by (rule optional_number) (simp add: optional_ok_def)

lemma optional_int32 [json_simps]:
  "optional_ok int32 x \<Longrightarrow>
   (case map_option J_int x of None \<Rightarrow> Inr None
    | Some v \<Rightarrow> (case GetInt v of Inl _ \<Rightarrow> Inr None | Inr n \<Rightarrow> Inr (Some n))) = Inr x"
  by (rule optional_number) (simp add: optional_ok_def)

lemma require_object_object [simp]: "require_object (J_object ms) = Inr ()"
  by (simp add: require_object_def IsObject_def)

section \<open>Types\<close>

fun type_ok :: "itype \<Rightarrow> bool" where
  "type_ok (PrimitiveType t) \<longleftrightarrow> PrimitiveTypeToName t \<noteq> None"
| "type_ok (DecimalType p s) \<longleftrightarrow> 0 < p \<and> p \<le> 38 \<and> int32 s"
| "type_ok (FixedType n) \<longleftrightarrow> 0 < n \<and> int32 n"
| "type_ok (ListType i r e) \<longleftrightarrow> int32 i \<and> type_ok e"

lemma no_nul_to_string: "no_nul (to_string n)"
  using to_string_chars [of "CHR 0x00" n] by (auto simp: no_nul_def is_digit_def)

lemma no_nul_append [simp]: "no_nul (a @ b) \<longleftrightarrow> no_nul a \<and> no_nul b"
  by (auto simp: no_nul_def)

lemma no_nul_Cons [simp]: "no_nul (c # s) \<longleftrightarrow> c \<noteq> CHR 0x00 \<and> no_nul s"
  by (auto simp: no_nul_def)

lemma no_nul_Nil [simp]: "no_nul []"
  by (simp add: no_nul_def)

lemma parse_decimal_type_print:
  assumes "0 < p" "p \<le> 38" "int32 s"
  shows "parse_decimal_type (''decimal('' @ to_string p @ '', '' @ to_string s @ '')'') = Inr (DecimalType p s)"
proof -
  have p: "read_int32 (- 1) \<lparr>is_rest = to_string p @ '', '' @ to_string s @ '')'', is_eof = False, is_fail = False\<rparr> =
      (p, \<lparr>is_rest = '', '' @ to_string s @ '')'', is_eof = False, is_fail = False\<rparr>)"
    using read_int32_to_string [of p "'', '' @ to_string s @ '')''" "[]" "- 1"] assms
    by (simp add: int32_def is_digit_def)
  have s: "read_int32 (- 1) \<lparr>is_rest = '' '' @ to_string s @ '')'', is_eof = False, is_fail = False\<rparr> =
      (s, \<lparr>is_rest = '')'', is_eof = False, is_fail = False\<rparr>)"
    using read_int32_to_string [of s "'')''" "'' ''" "- 1"] assms by (simp add: is_digit_def is_space_def)
  show ?thesis
    using p s assms by (simp add: parse_decimal_type_def stringstream_def ignore_def mk_DecimalType_def)
qed

lemma parse_fixed_type_print:
  assumes "0 < n" "int32 n"
  shows "parse_fixed_type (''fixed('' @ to_string n @ '')'') = Inr (FixedType n)"
proof -
  have r: "read_int32 0 \<lparr>is_rest = to_string n @ '')'', is_eof = False, is_fail = False\<rparr> =
      (n, \<lparr>is_rest = '')'', is_eof = False, is_fail = False\<rparr>)"
    using read_int32_to_string [of n "'')''" "[]" 0] assms by (simp add: is_digit_def)
  have "\<not> is_space (CHR '')'')" by (simp add: is_space_def)
  then have "dropWhile is_space (to_string n @ '')'') \<noteq> []"
    by (metis dropWhile_eq_Nil_conv in_set_conv_decomp)
  then show ?thesis
    using r assms by (simp add: parse_fixed_type_def stringstream_def ignore_def mk_FixedType_def Let_def)
qed

lemma primitive_names_no_nul: "PrimitiveTypeToName t = Some s \<Longrightarrow> no_nul s"
  by (cases t) (auto simp: PrimitiveTypeToName_def kStringToPrimitiveTypeId_def)

lemma simple_type_roundtrip:
  assumes "type_ok t" "\<not> IsListType t"
  shows "\<exists>s. type_ToString t = Inr s \<and> JsonToDataType (J_string s) = Inr t"
proof (cases t)
  case (PrimitiveType i)
  then obtain s where s: "PrimitiveTypeToName i = Some s" using assms by auto
  then have "NameToPrimitiveType s = Some i" by (simp add: primitive_names_inverse)
  then show ?thesis
    using PrimitiveType s primitive_names_no_nul [OF s]
    by (simp add: JsonToDataType.simps primitive_type_of_string_def)
next
  case (DecimalType p q)
  then have "parse_decimal_type (''decimal('' @ to_string p @ '', '' @ to_string q @ '')'') = Inr t"
    using assms by (intro parse_decimal_type_print [THEN trans]) simp_all
  then show ?thesis
    using DecimalType
    by (simp add: JsonToDataType.simps primitive_type_of_string_def no_nul_to_string starts_with_def
        NameToPrimitiveType_def kStringToPrimitiveTypeId_def)
next
  case (FixedType n)
  then have "parse_fixed_type (''fixed('' @ to_string n @ '')'') = Inr t"
    using assms by (intro parse_fixed_type_print [THEN trans]) simp_all
  then show ?thesis
    using FixedType
    by (simp add: JsonToDataType.simps primitive_type_of_string_def no_nul_to_string starts_with_def
        NameToPrimitiveType_def kStringToPrimitiveTypeId_def)
qed (use assms in simp)

lemma type_roundtrip:
  "type_ok t \<Longrightarrow> \<exists>v. (\<forall>name doc. WriteDataType t name doc = Inr (WriteJsonField name v doc)) \<and> JsonToDataType v = Inr t"
proof (induction t)
  case (ListType i r e)
  then obtain v where v: "\<And>name doc. WriteDataType e name doc = Inr (WriteJsonField name v doc)"
      "JsonToDataType v = Inr e" by auto
  then have "JsonToDataType (J_object (WriteJsonField ''element'' v (WriteJsonField ''element-required'' (J_bool r)
      (WriteJsonField ''element-id'' (J_int i) (WriteJsonField ''type'' (J_string ''list'') []))))) =
      Inr (ListType i r e)"
    using ListType.prems by (subst JsonToDataType.simps) (simp add: json_simps)
  then show ?case using v(1) by auto
next
  case (PrimitiveType t)
  then show ?case using simple_type_roundtrip [of "PrimitiveType t"] by fastforce
next
  case (DecimalType p s)
  then show ?case using simple_type_roundtrip [of "DecimalType p s"] by fastforce
next
  case (FixedType n)
  then show ?case using simple_type_roundtrip [of "FixedType n"] by fastforce
qed

section \<open>Schemas and specifications\<close>

definition default_ok :: "arrow_api \<Rightarrow> itype \<Rightarrow> scalar option \<Rightarrow> bool" where
  "default_ok A t x = (case x of None \<Rightarrow> True | Some l \<Rightarrow> literal_ok A t l)"

lemma default_roundtrip:
  assumes "default_ok A t x"
  shows "\<exists>f. (\<forall>name doc. write_default A t name x doc = Inr (write_optional name f x doc)) \<and>
    (case map_option f x of None \<Rightarrow> Inr None | Some v \<Rightarrow> bindE (DeserializeLiteral A t v) (\<lambda>l. Inr (Some l))) = Inr x"
proof (cases x)
  case (Some l)
  then obtain j where "SerializeLiteral A t l = Inr j" "DeserializeLiteral A t j = Inr l"
    using assms literal_roundtrip [of A t l] by (auto simp: default_ok_def)
  then show ?thesis
    using Some by (intro exI [of _ "\<lambda>_. j"]) (simp add: write_default_def write_optional_def)
qed (simp add: write_default_def write_optional_def)

definition field_ok :: "arrow_api \<Rightarrow> nested_field \<Rightarrow> bool" where
  "field_ok A f \<longleftrightarrow> int32 (nf_field_id f) \<and> type_ok (nf_type f) \<and>
     default_ok A (nf_type f) (nf_initial_default f) \<and> default_ok A (nf_type f) (nf_write_default f)"

lemma ExtractOptionalLiteral_object [json_simps]:
  "ExtractOptionalLiteral A (J_object ms) name t =
     (case map_of ms name of None \<Rightarrow> Inr None | Some v \<Rightarrow> bindE (DeserializeLiteral A t v) (\<lambda>l. Inr (Some l)))"
  by (simp add: ExtractOptionalLiteral_def split: option.splits)

lemma field_roundtrip:
  assumes "field_ok A f"
  shows "\<exists>ms. WriteField A f [] = Inr ms \<and> JsonToField A (J_object ms) = Inr f"
proof -
  obtain v where v: "\<And>name doc. WriteDataType (nf_type f) name doc = Inr (WriteJsonField name v doc)"
      "JsonToDataType v = Inr (nf_type f)"
    using assms type_roundtrip [of "nf_type f"] by (auto simp: field_ok_def)
  obtain g where g: "\<And>name doc. write_default A (nf_type f) name (nf_initial_default f) doc =
        Inr (write_optional name g (nf_initial_default f) doc)"
      "(case map_option g (nf_initial_default f) of None \<Rightarrow> Inr None
        | Some v \<Rightarrow> bindE (DeserializeLiteral A (nf_type f) v) (\<lambda>l. Inr (Some l))) = Inr (nf_initial_default f)"
    using assms default_roundtrip [of A "nf_type f" "nf_initial_default f"] by (auto simp: field_ok_def)
  obtain h where h: "\<And>name doc. write_default A (nf_type f) name (nf_write_default f) doc =
        Inr (write_optional name h (nf_write_default f) doc)"
      "(case map_option h (nf_write_default f) of None \<Rightarrow> Inr None
        | Some v \<Rightarrow> bindE (DeserializeLiteral A (nf_type f) v) (\<lambda>l. Inr (Some l))) = Inr (nf_write_default f)"
    using assms default_roundtrip [of A "nf_type f" "nf_write_default f"] by (auto simp: field_ok_def)
  have "int32 (nf_field_id f)" using assms by (simp add: field_ok_def)
  then show ?thesis
    by (simp add: WriteField_def JsonToField_def v g h json_simps)
qed

text \<open>An array whose elements are written one by one by a function that may fail.\<close>

lemma mapE_roundtrip:
  assumes "\<And>x. x \<in> set xs \<Longrightarrow> \<exists>j. w x = Inr j \<and> r j = Inr x"
  shows "\<exists>js. mapE w xs = Inr js \<and> ProcessArray r (J_array js) = Inr xs"
proof -
  obtain f where f: "\<forall>x \<in> set xs. w x = Inr (f x) \<and> r (f x) = Inr x" using assms by metis
  then have "mapE w xs = Inr (map f xs)" by (intro mapE_total) simp
  moreover have "ProcessArray r (J_array (map f xs)) = Inr xs" using f by (intro ProcessArray_map) simp
  ultimately show ?thesis by blast
qed

definition schema_ok :: "arrow_api \<Rightarrow> schema \<Rightarrow> bool" where
  "schema_ok A s \<longleftrightarrow> int32 (s_schema_id s) \<and> (\<forall>f \<in> set (s_fields s). field_ok A f)"

lemma schema_roundtrip:
  assumes "schema_ok A s"
  shows "\<exists>j. write_schema A s = Inr j \<and> JsonToSchema A j = Inr s"
proof -
  let ?w = "\<lambda>column. bindE (WriteField A column []) (\<lambda>f. Inr (J_object f))"
  have "\<exists>j. ?w f = Inr j \<and> JsonToField A j = Inr f" if "f \<in> set (s_fields s)" for f
    using field_roundtrip [of A f] assms that by (fastforce simp: schema_ok_def)
  from mapE_roundtrip [of "s_fields s" ?w, OF this]
  obtain js where "mapE ?w (s_fields s) = Inr js" "ProcessArray (JsonToField A) (J_array js) = Inr (s_fields s)"
    by blast
  then show ?thesis
    using assms by (simp add: write_schema_def JsonToSchema_def ExtractSchemaFields_def schema_ok_def json_simps)
qed

definition partition_field_ok :: "partition_field \<Rightarrow> bool" where
  "partition_field_ok f \<longleftrightarrow> int32 (pf_source_id f) \<and> int32 (pf_field_id f)"

definition spec_ok :: "partition_spec \<Rightarrow> bool" where
  "spec_ok s \<longleftrightarrow> int32 (ps_spec_id s) \<and> (\<forall>f \<in> set (ps_fields s). partition_field_ok f)"

lemma spec_roundtrip:
  assumes "spec_ok s"
  shows "JsonPartitionSpec (write_spec s) = Inr s"
proof -
  have "ProcessArray JsonToPartitionField (J_array (map (\<lambda>f. J_object (WritePartitionField f)) (ps_fields s))) =
      Inr (ps_fields s)"
    using assms
    by (intro ProcessArray_map)
      (simp add: spec_ok_def partition_field_ok_def JsonToPartitionField_def WritePartitionField_def json_simps)
  then show ?thesis
    using assms by (simp add: spec_ok_def write_spec_def JsonPartitionSpec_def ExtractPartitionFields_def json_simps)
qed

section \<open>Snapshots, logs and references\<close>

definition snapshot_ok :: "snapshot \<Rightarrow> bool" where
  "snapshot_ok s \<longleftrightarrow> int64 (sn_snapshot_id s) \<and> optional_ok int64 (sn_parent_snapshot_id s) \<and>
     int64 (sn_sequence_number s) \<and> int64 (sn_timestamp_ms s) \<and> string_map_ok (sn_summary s) \<and>
     map_of (sn_summary s) ''operation'' \<noteq> None \<and> optional_ok int64 (sn_schema_id s)"

lemma snapshot_roundtrip:
  assumes "snapshot_ok s"
  shows "\<exists>ms. WriteSnapshot s = Inr ms \<and> JsonToSnapshot (J_object ms) = Inr s"
proof -
  have "JsonToStringMap (J_object (WriteStringMap (sn_summary s) [])) = Inr (sn_summary s)"
    using assms by (simp add: WriteStringMap_eq JsonToStringMap_roundtrip snapshot_ok_def del: JsonToStringMap.simps)
  then show ?thesis
    using assms by (simp add: snapshot_ok_def WriteSnapshot_def JsonToSnapshot_def json_simps Let_def
        del: JsonToStringMap.simps)
qed

definition ref_ok :: "snapshot_ref \<Rightarrow> bool" where
  "ref_ok r \<longleftrightarrow> int64 (sr_snapshot_id r) \<and> optional_ok int32 (sr_min_snapshots_to_keep r) \<and>
     optional_ok int64 (sr_max_snapshot_age_ms r) \<and> optional_ok int64 (sr_max_ref_age_ms r)"

definition refs_ok :: "(string \<times> snapshot_ref) list \<Rightarrow> bool" where
  "refs_ok m \<longleftrightarrow> omap m \<and> (\<forall>(k, r) \<in> set m. no_nul k \<and> ref_ok r)"

definition ref_json :: "snapshot_ref \<Rightarrow> json" where
  "ref_json snap_ref = J_object
     (write_optional ''max-ref-age-ms'' J_int (sr_max_ref_age_ms snap_ref)
     (write_optional ''max-snapshot-age-ms'' J_int (sr_max_snapshot_age_ms snap_ref)
     (write_optional ''min-snapshots-to-keep'' J_int (sr_min_snapshots_to_keep snap_ref)
     (WriteJsonField ''type'' (J_string (sr_type snap_ref))
     (WriteJsonField ''snapshot-id'' (J_int (sr_snapshot_id snap_ref)) [])))))"

lemma ref_roundtrip: "ref_ok r \<Longrightarrow> JsonToRef (ref_json r) = Inr r"
  by (simp add: ref_ok_def ref_json_def JsonToRef_def json_simps)

lemma refs_roundtrip:
  assumes "refs_ok m"
  shows "JsonToRefsMap (J_object (fold (\<lambda>(k, r). WriteRefField k r) m [])) = Inr m"
proof -
  have "WriteRefField = (\<lambda>k r doc. doc @ [(k, ref_json r)])"
    by (intro ext) (simp add: WriteRefField_def ref_json_def WriteJsonField_def)
  then have w: "fold (\<lambda>(k, r). WriteRefField k r) m [] = map (\<lambda>(k, r). (k, ref_json r)) m"
    using fold_append_members [of "\<lambda>_. ref_json" m "[]"] by simp
  have "foldE (\<lambda>x m. bindE ((\<lambda>(name, v). bindE (JsonToRef v) (\<lambda>r. Inr (c_str name, r))) x)
      (\<lambda>(k, v). Inr (omap_emplace k v m))) (map (\<lambda>(k, r). (k, ref_json r)) m) [] = Inr ([] @ m)"
    using assms by (intro foldE_emplace) (auto simp: refs_ok_def ref_roundtrip)
  moreover have "(\<lambda>x m. bindE ((\<lambda>(name, v). bindE (JsonToRef v) (\<lambda>r. Inr (c_str name, r))) x)
      (\<lambda>(k, v). Inr (omap_emplace k v m))) =
      (\<lambda>(name, v) m. bindE (JsonToRef v) (\<lambda>r. Inr (omap_emplace (c_str name) r m)))"
    by (auto simp: fun_eq_iff bindE_def split: sum.splits)
  ultimately show ?thesis using w by simp
qed

lemma snapshot_log_roundtrip:
  "int64 (sl_timestamp_ms e) \<Longrightarrow> int64 (sl_snapshot_id e) \<Longrightarrow>
     JsonToSnapshotLogEntry (J_object (WriteSnapshotLogEntry e)) = Inr e"
  by (simp add: JsonToSnapshotLogEntry_def WriteSnapshotLogEntry_def json_simps)

lemma metadata_log_roundtrip:
  "int64 (ml_timestamp_ms e) \<Longrightarrow> JsonToMetadataLogEntry (J_object (WriteMetadataLogEntry e)) = Inr e"
  by (simp add: JsonToMetadataLogEntry_def WriteMetadataLogEntry_def json_simps)

section \<open>Sort orders and statistics\<close>

definition order_ok :: "sort_order \<Rightarrow> bool" where
  "order_ok s \<longleftrightarrow> int32 (so_order_id s) \<and> (\<forall>f \<in> set (so_fields s). int32 (sf_source_id f))"

lemma sort_field_roundtrip: "int32 (sf_source_id f) \<Longrightarrow> JsonToSortField (J_object (WriteSortField f)) = Inr f"
  by (cases "sf_direction f"; cases "sf_null_order f")
    (simp_all add: JsonToSortField_def WriteSortField_def json_simps)

lemma order_roundtrip:
  assumes "order_ok s"
  shows "JsonToSortOrders (write_order s) = Inr s"
proof -
  have "ProcessArray JsonToSortField (J_array (map (\<lambda>f. J_object (WriteSortField f)) (so_fields s))) =
      Inr (so_fields s)"
    using assms by (intro ProcessArray_map) (simp add: order_ok_def sort_field_roundtrip)
  then show ?thesis using assms by (simp add: order_ok_def write_order_def JsonToSortOrders_def json_simps)
qed

text \<open>A blob without properties is written without the member that its reader requires.\<close>

definition blob_ok :: "blob_metadata \<Rightarrow> bool" where
  "blob_ok b \<longleftrightarrow> int64 (bm_snapshot_id b) \<and> int64 (bm_sequence_number b) \<and>
     (\<forall>i \<in> set (bm_field_ids b). int32 i) \<and> string_map_ok (bm_properties b) \<and> bm_properties b \<noteq> []"

lemma blob_roundtrip:
  assumes "blob_ok b"
  shows "JsonToBlobMetadata (J_object (WriteBlobMetadata b)) = Inr b"
proof -
  have "ProcessArray JsonToFieldId (J_array (map J_int (bm_field_ids b))) = Inr (bm_field_ids b)"
    using assms by (intro ProcessArray_map) (simp add: blob_ok_def JsonToFieldId_def)
  moreover have "JsonToStringMap (J_object (WriteStringMap (bm_properties b) [])) = Inr (bm_properties b)"
    using assms by (simp add: WriteStringMap_eq JsonToStringMap_roundtrip blob_ok_def del: JsonToStringMap.simps)
  ultimately show ?thesis
    using assms by (simp add: blob_ok_def WriteBlobMetadata_def JsonToBlobMetadata_def ExtractFieldIds_def json_simps
        del: JsonToStringMap.simps)
qed

definition statistics_ok :: "statistics \<Rightarrow> bool" where
  "statistics_ok s \<longleftrightarrow> int64 (st_snapshot_id s) \<and> int64 (st_file_size_in_bytes s) \<and>
     int64 (st_file_footer_size_in_bytes s) \<and> st_key_metadata s = None \<and>
     (\<forall>b \<in> set (st_blob_metadata s). blob_ok b)"

lemma statistics_roundtrip:
  assumes "statistics_ok s"
  shows "JsonToStatistics (J_object (WriteStatistic s)) = Inr s"
proof -
  have "ProcessArray JsonToBlobMetadata (J_array (map (\<lambda>b. J_object (WriteBlobMetadata b)) (st_blob_metadata s))) =
      Inr (st_blob_metadata s)"
    using assms by (intro ProcessArray_map) (simp add: statistics_ok_def blob_roundtrip)
  then show ?thesis
    using assms by (simp add: statistics_ok_def WriteStatistic_def JsonToStatistics_def ExtractBlobMetadata_def json_simps)
qed

section \<open>Checks\<close>

lemma run_checks_aux:
  "foldE (\<lambda>(condition, message) result.
       bindE (checker_Ensure fatal condition message) (\<lambda>r. Inr (result \<and> r))) checks acc =
     (if fatal \<and> (\<exists>c \<in> set checks. \<not> fst c)
      then Inl (Runtime_error (snd (hd (filter (\<lambda>c. \<not> fst c) checks))))
      else Inr (acc \<and> (\<forall>c \<in> set checks. fst c)))"
proof (induction checks arbitrary: acc)
  case (Cons c checks)
  then show ?case by (cases c) (simp add: checker_Ensure_def)
qed simp

lemma run_checks_eq:
  "run_checks fatal checks =
     (if fatal \<and> (\<exists>c \<in> set checks. \<not> fst c)
      then Inl (Runtime_error (snd (hd (filter (\<lambda>c. \<not> fst c) checks))))
      else Inr (\<forall>c \<in> set checks. fst c))"
  unfolding run_checks_def run_checks_aux by simp

text \<open>What the default checker demands, as one predicate.\<close>

definition metadata_consistent :: "table_metadata \<Rightarrow> bool" where
  "metadata_consistent m \<longleftrightarrow>
     tm_table_uuid m \<noteq> [] \<and> tm_location m \<noteq> [] \<and> tm_sort_orders m \<noteq> [] \<and>
     (\<forall>s \<in> set (tm_snapshots m). sn_sequence_number s \<le> tm_last_sequence_number m) \<and>
     (\<forall>e \<in> set (tm_snapshot_log m). sl_snapshot_id e \<in> snapshots_ids m) \<and>
     (\<forall>r \<in> set (tm_refs m). sr_snapshot_id (snd r) \<in> snapshots_ids m) \<and>
     (\<forall>i. tm_current_snapshot_id m = Some i \<longrightarrow> i \<in> snapshots_ids m) \<and>
     (\<exists>s \<in> set (tm_schemas m). s_schema_id s = tm_current_schema_id m) \<and>
     (\<exists>s \<in> set (tm_partition_specs m). ps_spec_id s = tm_default_spec_id m)"

lemma default_checks_iff: "(\<forall>c \<in> set (default_checks m). fst c) \<longleftrightarrow> metadata_consistent m"
proof -
  have "(case tm_current_snapshot_id m of None \<Rightarrow> True | Some i \<Rightarrow> i \<in> snapshots_ids m) \<longleftrightarrow>
      (\<forall>i. tm_current_snapshot_id m = Some i \<longrightarrow> i \<in> snapshots_ids m)"
    by (cases "tm_current_snapshot_id m") auto
  then show ?thesis
    unfolding default_checks_def metadata_consistent_def set_append ball_Un
    by (simp add: case_prod_beta)
qed

lemma DefaultChecker_Check_eq:
  "DefaultChecker_Check False m = Inr (metadata_consistent m)"
  "DefaultChecker_Check True m = Inr b \<longleftrightarrow> b \<and> metadata_consistent m"
  "\<not> metadata_consistent m \<Longrightarrow> \<exists>msg. DefaultChecker_Check True m = Inl (Runtime_error msg)"
  using default_checks_iff [of m] by (auto simp: DefaultChecker_Check_def run_checks_eq)

lemma mk_TableMetadataV2_iff:
  "mk_TableMetadataV2 m = Inr m' \<longleftrightarrow>
     m' = m\<lparr>tm_current_snapshot_id := (if tm_current_snapshot_id m = Some (- 1) then None else tm_current_snapshot_id m)\<rparr> \<and>
     metadata_consistent m'"
  by (auto simp: mk_TableMetadataV2_def Let_def bindE_eq_Inr_iff DefaultChecker_Check_eq)

section \<open>Documents\<close>

definition metadata_ok :: "arrow_api \<Rightarrow> table_metadata \<Rightarrow> bool" where
  "metadata_ok A m \<longleftrightarrow> metadata_consistent m \<and>
     int64 (tm_last_sequence_number m) \<and> 0 \<le> tm_last_sequence_number m \<and> int64 (tm_last_updated_ms m) \<and>
     int32 (tm_last_column_id m) \<and> 0 \<le> tm_last_column_id m \<and>
     (\<forall>s \<in> set (tm_schemas m). schema_ok A s) \<and>
     int32 (tm_current_schema_id m) \<and> 0 \<le> tm_current_schema_id m \<and>
     (\<forall>s \<in> set (tm_partition_specs m). spec_ok s) \<and>
     int32 (tm_default_spec_id m) \<and> 0 \<le> tm_default_spec_id m \<and>
     int32 (tm_last_partition_id m) \<and> 0 \<le> tm_last_partition_id m \<and>
     string_map_ok (tm_properties m) \<and>
     optional_ok int64 (tm_current_snapshot_id m) \<and> tm_current_snapshot_id m \<noteq> Some (- 1) \<and>
     (\<forall>s \<in> set (tm_snapshots m). snapshot_ok s) \<and>
     (\<forall>e \<in> set (tm_snapshot_log m). int64 (sl_timestamp_ms e) \<and> int64 (sl_snapshot_id e)) \<and>
     (\<forall>e \<in> set (tm_metadata_log m). int64 (ml_timestamp_ms e)) \<and>
     (\<forall>s \<in> set (tm_sort_orders m). order_ok s) \<and>
     int32 (tm_default_sort_order_id m) \<and> 0 \<le> tm_default_sort_order_id m \<and>
     refs_ok (tm_refs m) \<and> (\<forall>s \<in> set (tm_statistics m). statistics_ok s)"

text \<open>A list that is written only when it is not empty.\<close>

definition nonempty :: "('a list \<Rightarrow> json) \<Rightarrow> 'a list \<Rightarrow> json option" where
  "nonempty f xs = (if xs = [] then None else Some (f xs))"

lemma map_of_optional_lists [json_simps]:
  "map_of (WriteRefs vals doc) k =
     (if k = ''refs'' then case map_of doc k of None \<Rightarrow>
          nonempty (\<lambda>vals. J_object (fold (\<lambda>(k, r). WriteRefField k r) vals [])) vals | Some y \<Rightarrow> Some y
      else map_of doc k)"
  "map_of (WriteSnapshotLog slog doc) k =
     (if k = ''snapshot-log'' then case map_of doc k of None \<Rightarrow>
          nonempty (\<lambda>slog. J_array (map (\<lambda>e. J_object (WriteSnapshotLogEntry e)) slog)) slog | Some y \<Rightarrow> Some y
      else map_of doc k)"
  "map_of (WriteMetadataLog mlog doc) k =
     (if k = ''metadata-log'' then case map_of doc k of None \<Rightarrow>
          nonempty (\<lambda>mlog. J_array (map (\<lambda>e. J_object (WriteMetadataLogEntry e)) mlog)) mlog | Some y \<Rightarrow> Some y
      else map_of doc k)"
  by (simp_all add: WriteRefs_def WriteSnapshotLog_def WriteMetadataLog_def nonempty_def map_of_WriteJsonField
      split: option.split)

lemma nonempty_read:
  "get (f xs) = Inr xs \<Longrightarrow>
   (case nonempty f xs of None \<Rightarrow> Inr None | Some v \<Rightarrow> bindE (get v) (\<lambda>x. Inr (Some x))) =
     Inr (if xs = [] then None else Some xs)"
  by (simp add: nonempty_def)

lemma value_or_empty_if [simp]: "value_or_empty (if xs = [] then None else Some xs) = xs"
  by (simp add: value_or_empty_def)

lemma snapshots_roundtrip:
  assumes "\<forall>s \<in> set snaps. snapshot_ok s"
  shows "\<exists>js. (\<forall>doc. WriteSnapshots snaps doc =
      Inr (write_optional ''snapshots'' J_array (if snaps = [] then None else Some js) doc)) \<and>
    ProcessArray JsonToSnapshot (J_array js) = Inr snaps"
proof -
  let ?w = "\<lambda>s. bindE (WriteSnapshot s) (\<lambda>snap. Inr (J_object snap))"
  have "\<exists>j. ?w s = Inr j \<and> JsonToSnapshot j = Inr s" if "s \<in> set snaps" for s
    using snapshot_roundtrip [of s] assms that by fastforce
  from mapE_roundtrip [of snaps ?w, OF this] obtain js
    where "mapE ?w snaps = Inr js" "ProcessArray JsonToSnapshot (J_array js) = Inr snaps" by blast
  then show ?thesis by (auto simp: WriteSnapshots_def write_optional_def)
qed

lemma schemas_roundtrip:
  assumes "\<forall>s \<in> set ss. schema_ok A s"
  shows "\<exists>js. (\<forall>doc. WriteSchemas A ss doc = Inr (WriteJsonField ''schemas'' (J_array js) doc)) \<and>
    ProcessArray (JsonToSchema A) (J_array js) = Inr ss"
proof -
  have "\<exists>j. write_schema A s = Inr j \<and> JsonToSchema A j = Inr s" if "s \<in> set ss" for s
    using schema_roundtrip [of A s] assms that by blast
  from mapE_roundtrip [of ss "write_schema A", OF this] show ?thesis by (auto simp: WriteSchemas_def)
qed

lemma Build_full:
  assumes "0 \<le> tm_last_sequence_number m \<and> 0 \<le> tm_last_column_id m \<and> 0 \<le> tm_current_schema_id m \<and>
    0 \<le> tm_default_spec_id m \<and> 0 \<le> tm_last_partition_id m \<and> 0 \<le> tm_default_sort_order_id m"
  shows "Build
       \<lparr>tb_table_uuid = Some (tm_table_uuid m), tb_location = Some (tm_location m),
        tb_last_sequence_number = Some (tm_last_sequence_number m), tb_last_updated_ms = Some (tm_last_updated_ms m),
        tb_last_column_id = Some (tm_last_column_id m), tb_schemas = Some (tm_schemas m),
        tb_current_schema_id = Some (tm_current_schema_id m), tb_partition_specs = Some (tm_partition_specs m),
        tb_default_spec_id = Some (tm_default_spec_id m), tb_last_partition_id = Some (tm_last_partition_id m),
        tb_properties = (if tm_properties m = [] then None else Some (tm_properties m)),
        tb_current_snapshot_id = tm_current_snapshot_id m,
        tb_snapshots = (if tm_snapshots m = [] then None else Some (tm_snapshots m)),
        tb_snapshot_log = (if tm_snapshot_log m = [] then None else Some (tm_snapshot_log m)),
        tb_metadata_log = (if tm_metadata_log m = [] then None else Some (tm_metadata_log m)),
        tb_sort_orders = Some (tm_sort_orders m), tb_default_sort_order_id = Some (tm_default_sort_order_id m),
        tb_refs = (if tm_refs m = [] then None else Some (tm_refs m)),
        tb_statistics = Some (tm_statistics m)\<rparr> = mk_TableMetadataV2 m"
proof (cases m)
  case (fields table_uuid location seq upd col schemas sid specs spid lpid props cur snaps slog mlog orders dso refs stats)
  have "value_or_empty (Some stats) = stats" by (simp add: value_or_empty_def)
  then show ?thesis using assms unfolding fields table_metadata.simps
    by (simp only: Build_def metadata_builder.simps has_value_def option.case bindE_Inr value_or_empty_if
        not_less simp_thms ensure_True)
qed

lemmas document_simps =
  json_simps WritePartitionSpec_def WriteSortOrder_def WriteStatistics_def
  ExtractSchemas_def ExtractPartitionSpecs_def ExtractProperties_def ExtractSnapshots_def ExtractSnapshotLog_def
  ExtractMetadataLog_def ExtractSortOrders_def ExtractRefs_def ExtractStatistics_def

lemma document_roundtrip:
  assumes ok: "metadata_ok A m"
  shows "\<exists>ms. write_document A m = Inr ms \<and> MakeTableMetadataV2 A (J_object ms) = Inr m"
proof -
  note [simp del] = JsonToStringMap.simps JsonToRefsMap.simps
  obtain js where js: "\<And>doc. WriteSchemas A (tm_schemas m) doc = Inr (WriteJsonField ''schemas'' (J_array js) doc)"
      "ProcessArray (JsonToSchema A) (J_array js) = Inr (tm_schemas m)"
    using schemas_roundtrip [of "tm_schemas m" A] ok by (auto simp: metadata_ok_def)
  obtain ss where ss: "\<And>doc. WriteSnapshots (tm_snapshots m) doc =
        Inr (write_optional ''snapshots'' J_array (if tm_snapshots m = [] then None else Some ss) doc)"
      "ProcessArray JsonToSnapshot (J_array ss) = Inr (tm_snapshots m)"
    using snapshots_roundtrip [of "tm_snapshots m"] ok by (auto simp: metadata_ok_def)
  have specs: "ProcessArray JsonPartitionSpec (J_array (map write_spec (tm_partition_specs m))) = Inr (tm_partition_specs m)"
    using ok by (intro ProcessArray_map) (simp add: metadata_ok_def spec_roundtrip)
  have orders: "ProcessArray JsonToSortOrders (J_array (map write_order (tm_sort_orders m))) = Inr (tm_sort_orders m)"
    using ok by (intro ProcessArray_map) (simp add: metadata_ok_def order_roundtrip)
  have stats: "ProcessArray JsonToStatistics (J_array (map (\<lambda>s. J_object (WriteStatistic s)) (tm_statistics m))) =
      Inr (tm_statistics m)"
    using ok by (intro ProcessArray_map) (simp add: metadata_ok_def statistics_roundtrip)
  have props: "JsonToStringMap (J_object (WriteStringMap (tm_properties m) [])) = Inr (tm_properties m)"
    using ok by (simp add: WriteStringMap_eq JsonToStringMap_roundtrip metadata_ok_def)
  have refs: "JsonToRefsMap (J_object (fold (\<lambda>(k, r). WriteRefField k r) (tm_refs m) [])) = Inr (tm_refs m)"
    using ok by (intro refs_roundtrip) (simp add: metadata_ok_def)
  have slog: "ProcessArray JsonToSnapshotLogEntry
      (J_array (map (\<lambda>e. J_object (WriteSnapshotLogEntry e)) (tm_snapshot_log m))) = Inr (tm_snapshot_log m)"
    using ok by (intro ProcessArray_map) (simp add: metadata_ok_def snapshot_log_roundtrip)
  have mlog: "ProcessArray JsonToMetadataLogEntry
      (J_array (map (\<lambda>e. J_object (WriteMetadataLogEntry e)) (tm_metadata_log m))) = Inr (tm_metadata_log m)"
    using ok by (intro ProcessArray_map) (simp add: metadata_ok_def metadata_log_roundtrip)
  obtain ms where ms: "write_document A m = Inr ms" by (simp add: write_document_def js ss)
  have scalars:
      "ExtractStringField (J_object ms) ''table-uuid'' = Inr (tm_table_uuid m)"
      "ExtractStringField (J_object ms) ''location'' = Inr (tm_location m)"
      "ExtractInt64Field (J_object ms) ''last-sequence-number'' = Inr (tm_last_sequence_number m)"
      "ExtractInt64Field (J_object ms) ''last-updated-ms'' = Inr (tm_last_updated_ms m)"
      "ExtractInt32Field (J_object ms) ''last-column-id'' = Inr (tm_last_column_id m)"
      "ExtractInt32Field (J_object ms) ''current-schema-id'' = Inr (tm_current_schema_id m)"
      "ExtractInt32Field (J_object ms) ''default-spec-id'' = Inr (tm_default_spec_id m)"
      "ExtractInt32Field (J_object ms) ''last-partition-id'' = Inr (tm_last_partition_id m)"
      "ExtractInt32Field (J_object ms) ''default-sort-order-id'' = Inr (tm_default_sort_order_id m)"
      "ExtractOptionalInt64Field (J_object ms) ''current-snapshot-id'' = Inr (tm_current_snapshot_id m)"
    using ok ms by (auto simp: metadata_ok_def write_document_def js ss document_simps)
  have arrays:
      "ExtractSchemas A (J_object ms) = Inr (tm_schemas m)"
      "ExtractPartitionSpecs (J_object ms) = Inr (tm_partition_specs m)"
      "ExtractSortOrders (J_object ms) = Inr (tm_sort_orders m)"
      "ExtractStatistics (J_object ms) = Inr (Some (tm_statistics m))"
    using ms by (auto simp: write_document_def js ss document_simps specs orders stats)
  have lists:
      "ExtractProperties (J_object ms) = Inr (if tm_properties m = [] then None else Some (tm_properties m))"
      "ExtractRefs (J_object ms) = Inr (if tm_refs m = [] then None else Some (tm_refs m))"
      "ExtractSnapshotLog (J_object ms) = Inr (if tm_snapshot_log m = [] then None else Some (tm_snapshot_log m))"
      "ExtractMetadataLog (J_object ms) = Inr (if tm_metadata_log m = [] then None else Some (tm_metadata_log m))"
      "ExtractSnapshots (J_object ms) = Inr (if tm_snapshots m = [] then None else Some (tm_snapshots m))"
    using ms props refs slog mlog
    by (auto simp: write_document_def js ss document_simps nonempty_def)
  have "MakeTableMetadataV2 A (J_object ms) = mk_TableMetadataV2 m"
    unfolding MakeTableMetadataV2_def scalars arrays lists bindE_Inr
    using ok by (intro Build_full) (simp add: metadata_ok_def)
  also have "\<dots> = Inr m" using ok by (simp add: mk_TableMetadataV2_iff metadata_ok_def)
  finally show ?thesis using ms by blast
qed

section \<open>Consistency of what is read\<close>

lemma Build_consistent:
  assumes "Build b = Inr m"
  shows "metadata_consistent m" "0 \<le> tm_last_sequence_number m" "0 \<le> tm_last_column_id m"
    "tm_current_snapshot_id m \<noteq> Some (- 1)"
proof -
  obtain m0 where m0: "mk_TableMetadataV2 m0 = Inr m" "0 \<le> tm_last_sequence_number m0" "0 \<le> tm_last_column_id m0"
    using assms that unfolding Build_def bindE_eq_Inr_iff ensure_eq_Inr_iff not_less
    by (metis table_metadata.select_convs(3,5))
  then show "metadata_consistent m" "0 \<le> tm_last_sequence_number m" "0 \<le> tm_last_column_id m"
      "tm_current_snapshot_id m \<noteq> Some (- 1)"
    by (auto simp: mk_TableMetadataV2_iff)
qed

lemma find_Some_iff_ex: "(\<exists>x \<in> set xs. P x) \<Longrightarrow> \<exists>x. find P xs = Some x \<and> x \<in> set xs \<and> P x"
  by (cases "find P xs") (auto simp: find_None_iff find_Some_iff dest: nth_mem)

lemma consistent_operations:
  assumes "metadata_consistent m"
  shows "\<exists>s \<in> set (tm_schemas m). GetCurrentSchema m = Inr s \<and> s_schema_id s = tm_current_schema_id m"
    and "\<exists>s \<in> set (tm_partition_specs m). GetCurrentPartitionSpec m = Inr s \<and> ps_spec_id s = tm_default_spec_id m"
    and "tm_current_snapshot_id m = Some i \<Longrightarrow> \<exists>s \<in> set (tm_snapshots m). sn_snapshot_id s = i \<and>
      GetCurrentManifestListPathOrFail m = Inr (sn_manifest_list_location s)"
proof -
  have "\<exists>s \<in> set (tm_schemas m). s_schema_id s = tm_current_schema_id m"
    using assms by (simp add: metadata_consistent_def)
  from find_Some_iff_ex [OF this]
  show "\<exists>s \<in> set (tm_schemas m). GetCurrentSchema m = Inr s \<and> s_schema_id s = tm_current_schema_id m"
    by (auto simp: GetCurrentSchema_def)
  have "\<exists>s \<in> set (tm_partition_specs m). ps_spec_id s = tm_default_spec_id m"
    using assms by (simp add: metadata_consistent_def)
  from find_Some_iff_ex [OF this]
  show "\<exists>s \<in> set (tm_partition_specs m). GetCurrentPartitionSpec m = Inr s \<and> ps_spec_id s = tm_default_spec_id m"
    by (auto simp: GetCurrentPartitionSpec_def)
  assume i: "tm_current_snapshot_id m = Some i"
  then have "\<exists>s \<in> set (tm_snapshots m). sn_snapshot_id s = i"
    using assms by (auto simp: metadata_consistent_def snapshots_ids_def)
  from find_Some_iff_ex [OF this]
  show "\<exists>s \<in> set (tm_snapshots m). sn_snapshot_id s = i \<and>
      GetCurrentManifestListPathOrFail m = Inr (sn_manifest_list_location s)"
    using i by (auto simp: GetCurrentManifestListPathOrFail_def GetCurrentManifestListPath_def)
qed

section \<open>Sort orders\<close>

lemma next_id_free: "next_id ids i \<notin> set ids \<and> i \<le> next_id ids i \<and> (\<forall>j. i \<le> j \<and> j < next_id ids i \<longrightarrow> j \<in> set ids)"
proof (induction ids i rule: next_id.induct)
  case (1 ids i)
  show ?case
  proof (cases "i \<in> set ids")
    case True
    then have "next_id ids i = next_id ids (i + 1)" by (simp add: next_id.simps [of ids i])
    moreover have "j \<in> set ids" if "i \<le> j" "j < next_id ids (i + 1)" for j
      using 1 [OF True] True that by (cases "j = i") auto
    ultimately show ?thesis using 1 [OF True] by auto
  qed (auto simp: next_id.simps [of ids i])
qed

definition orders_wf :: "table_metadata \<Rightarrow> bool" where
  "orders_wf m \<longleftrightarrow> distinct (map so_order_id (tm_sort_orders m))"

lemma find_by_id:
  "distinct (map so_order_id os) \<Longrightarrow> o' \<in> set os \<Longrightarrow> find (\<lambda>x. so_order_id x = so_order_id o') os = Some o'"
  by (induction os) force+

lemma SetSortOrder_cases:
  assumes "orders_wf m" "SetSortOrder order m = (i, m')"
  shows "orders_wf m' \<and> tm_default_sort_order_id m' = i \<and>
    (\<exists>o' \<in> set (tm_sort_orders m'). so_order_id o' = i \<and> so_fields o' = so_fields order) \<and>
    (\<exists>new. tm_sort_orders m' = tm_sort_orders m @ new \<and> set new \<inter> {o'. \<exists>k \<in> set (tm_sort_orders m). so_fields k = so_fields o'} = {})"
proof (cases "find (\<lambda>known. so_fields known = so_fields order) (tm_sort_orders m)")
  case (Some known)
  then have "known \<in> set (tm_sort_orders m)" "so_fields known = so_fields order"
    by (auto simp: find_Some_iff dest: nth_mem)
  then show ?thesis using Some assms by (auto simp: SetSortOrder_def orders_wf_def)
next
  case None
  have fresh: "i \<notin> set (map so_order_id (tm_sort_orders m))"
    and m': "m' = m\<lparr>tm_sort_orders := tm_sort_orders m @ [order\<lparr>so_order_id := i\<rparr>], tm_default_sort_order_id := i\<rparr>"
    using assms(2) None next_id_free [of "map so_order_id (tm_sort_orders m)" 1]
    by (auto simp: SetSortOrder_def Let_def split: if_splits)
  have "so_fields k \<noteq> so_fields order" if "k \<in> set (tm_sort_orders m)" for k
    using None that by (auto simp: find_None_iff)
  then show ?thesis using assms(1) fresh m' by (auto simp: orders_wf_def)
qed

section \<open>Properties\<close>

text \<open>
  C19. Table metadata survives writing and reading: for metadata that is consistent, whose
  numbers fit their width and whose default values are of the kinds that have a faithful
  JSON form, the document is written, and reading the text gives the same metadata, all
  schemas (nested list types and defaults included), specifications, snapshots, logs,
  references and statistics in place.  The printer and the parser of JSON text are
  assumed to be inverse on the document.
\<close>

theorem table_metadata_roundtrip:
  assumes "metadata_ok A m"
    and "\<forall>ms. write_document A m = Inr ms \<longrightarrow> parse_json (print_json pretty (J_object ms)) = Some (J_object ms)"
  shows "\<exists>str. WriteTableMetadataV2 A print_json m pretty = Inr str \<and> ReadTableMetadataV2 A parse_json str = Inr (Some m)"
  using document_roundtrip [OF assms(1)] assms(2)
  by (auto simp: WriteTableMetadataV2_def ReadTableMetadataV2_def)

definition example_api :: arrow_api where
  "example_api = \<lparr>scalar_ToString = (\<lambda>s. case s of S_string t \<Rightarrow> t | S_date _ \<Rightarrow> ''1970-01-02'' | _ \<Rightarrow> []),
     parse_iso8601 = (\<lambda>s u. if s = ''1970-01-02'' \<and> u = SECOND then Some 86400 else None),
     decimal_FromString = (\<lambda>_. None)\<rparr>"

definition example_metadata :: table_metadata where
  "example_metadata =
     \<lparr>tm_table_uuid = ''u'', tm_location = ''s3://b/t'', tm_last_sequence_number = 3, tm_last_updated_ms = 7,
      tm_last_column_id = 3,
      tm_schemas = [\<lparr>s_schema_id = 0, s_fields =
        [\<lparr>nf_name = ''d'', nf_field_id = 1, nf_is_required = True, nf_type = PrimitiveType kDate,
          nf_initial_default = Some (S_date 1), nf_write_default = None\<rparr>,
         \<lparr>nf_name = ''l'', nf_field_id = 2, nf_is_required = False,
          nf_type = ListType 3 True (DecimalType 10 2), nf_initial_default = None, nf_write_default = None\<rparr>]\<rparr>],
      tm_current_schema_id = 0, tm_partition_specs = [\<lparr>ps_spec_id = 0, ps_fields = []\<rparr>],
      tm_default_spec_id = 0, tm_last_partition_id = 999, tm_properties = [(''a'', ''b'')],
      tm_current_snapshot_id = Some 11,
      tm_snapshots = [\<lparr>sn_snapshot_id = 11, sn_parent_snapshot_id = None, sn_sequence_number = 3,
        sn_timestamp_ms = 7, sn_manifest_list_location = ''m'', sn_summary = [(''operation'', ''append'')],
        sn_schema_id = Some 0\<rparr>],
      tm_snapshot_log = [\<lparr>sl_timestamp_ms = 7, sl_snapshot_id = 11\<rparr>], tm_metadata_log = [],
      tm_sort_orders = [\<lparr>so_order_id = 0, so_fields = []\<rparr>], tm_default_sort_order_id = 0,
      tm_refs = [(''main'', \<lparr>sr_snapshot_id = 11, sr_type = ''branch'', sr_min_snapshots_to_keep = None,
        sr_max_snapshot_age_ms = None, sr_max_ref_age_ms = None\<rparr>)], tm_statistics = []\<rparr>"

definition example_parse :: "string \<Rightarrow> json option" where
  "example_parse str =
     (case write_document example_api example_metadata of Inr ms \<Rightarrow> Some (J_object ms) | Inl _ \<Rightarrow> None)"

lemma example_metadata_ok: "metadata_ok example_api example_metadata"
  unfolding metadata_ok_def
  by (simp add: example_metadata_def metadata_consistent_def snapshots_ids_def int32_def int64_def schema_ok_def
      field_ok_def default_ok_def example_api_def spec_ok_def string_map_ok_def optional_ok_def snapshot_ok_def
      order_ok_def refs_ok_def ref_ok_def PrimitiveTypeToName_def kStringToPrimitiveTypeId_def omap_def)

theorem table_metadata_roundtrip_witness:
  "\<exists>str. WriteTableMetadataV2 example_api (\<lambda>_ _. ''text'') example_metadata True = Inr str \<and>
     ReadTableMetadataV2 example_api example_parse str = Inr (Some example_metadata)"
  by (rule table_metadata_roundtrip [OF example_metadata_ok]) (simp add: example_parse_def)

text \<open>
  C29. Whatever is read is consistent: metadata that \<open>ReadTableMetadataV2\<close> returns passes
  the default checker, has no negative counters and no \<open>-1\<close> as current snapshot, and
  its current schema and partition specification are found.
\<close>

theorem ReadTableMetadataV2_consistent:
  assumes "ReadTableMetadataV2 A parse_json str = Inr (Some m)"
  shows "DefaultChecker_Check True m = Inr True \<and> 0 \<le> tm_last_sequence_number m \<and>
    tm_current_snapshot_id m \<noteq> Some (- 1) \<and>
    (\<exists>s \<in> set (tm_schemas m). GetCurrentSchema m = Inr s \<and> s_schema_id s = tm_current_schema_id m) \<and>
    (\<exists>s \<in> set (tm_partition_specs m). GetCurrentPartitionSpec m = Inr s \<and> ps_spec_id s = tm_default_spec_id m)"
proof -
  obtain ms where "MakeTableMetadataV2 A (J_object ms) = Inr m"
    using assms by (auto simp: ReadTableMetadataV2_def bindE_eq_Inr_iff split: option.splits json.splits)
  then obtain b where b: "Build b = Inr m"
    unfolding MakeTableMetadataV2_def by (auto simp only: bindE_eq_Inr_iff)
  note c = Build_consistent [OF b]
  show ?thesis using c consistent_operations(1,2) [OF c(1)] by (simp add: DefaultChecker_Check_eq)
qed

theorem ReadTableMetadataV2_consistent_witness:
  "DefaultChecker_Check True example_metadata = Inr True"
proof -
  obtain ms where ms: "write_document example_api example_metadata = Inr ms"
      "MakeTableMetadataV2 example_api (J_object ms) = Inr example_metadata"
    using document_roundtrip [OF example_metadata_ok] by blast
  then have "ReadTableMetadataV2 example_api example_parse ''text'' = Inr (Some example_metadata)"
    by (simp add: ReadTableMetadataV2_def example_parse_def)
  from ReadTableMetadataV2_consistent [OF this] show ?thesis by blast
qed

text \<open>
  \<open>SetSortOrder\<close> makes the given fields the current order: the identifier it returns
  is the new default, \<open>GetSortOrder\<close> then finds an order with these fields, identifiers
  stay distinct, earlier orders stay as they are and no order is stored twice.
\<close>

lemma SetSortOrder_correct:
  assumes "orders_wf m" "SetSortOrder order m = (i, m')"
  shows "orders_wf m' \<and>
    (\<exists>o'. GetSortOrder m' = Some o' \<and> so_order_id o' = i \<and> so_fields o' = so_fields order) \<and>
    (\<exists>new. tm_sort_orders m' = tm_sort_orders m @ new \<and>
       (new = [] \<longleftrightarrow> (\<exists>k \<in> set (tm_sort_orders m). so_fields k = so_fields order)))"
proof -
  note c = SetSortOrder_cases [OF assms]
  then obtain o' where o': "o' \<in> set (tm_sort_orders m')" "so_order_id o' = i" "so_fields o' = so_fields order"
    by blast
  have "GetSortOrder m' = Some o'"
    using find_by_id [of "tm_sort_orders m'" o'] c o' by (simp add: GetSortOrder_def orders_wf_def)
  moreover have "\<exists>new. tm_sort_orders m' = tm_sort_orders m @ new \<and>
      (new = [] \<longleftrightarrow> (\<exists>k \<in> set (tm_sort_orders m). so_fields k = so_fields order))"
  proof (cases "find (\<lambda>known. so_fields known = so_fields order) (tm_sort_orders m)")
    case (Some known)
    then have "known \<in> set (tm_sort_orders m)" "so_fields known = so_fields order"
      by (auto simp: find_Some_iff dest: nth_mem)
    then show ?thesis using assms(2) Some by (auto simp: SetSortOrder_def)
  next
    case None
    then have "\<not> (\<exists>k \<in> set (tm_sort_orders m). so_fields k = so_fields order)" by (auto simp: find_None_iff)
    then show ?thesis using assms(2) None by (auto simp: SetSortOrder_def Let_def)
  qed
  ultimately show ?thesis using c o' by blast
qed

lemma SetSortOrder_correct_witness:
  "orders_wf (snd (SetSortOrder \<lparr>so_order_id = 0, so_fields = [\<lparr>sf_transform = ''identity'', sf_source_id = 1,
     sf_direction = kAsc, sf_null_order = kNullsLast\<rparr>]\<rparr> example_metadata))"
  using SetSortOrder_correct [OF _ surjective_pairing, of example_metadata]
  by (auto simp: orders_wf_def example_metadata_def)

text \<open>
  A blob without properties does not survive: the writer leaves the empty map out,
  the reader requires it, so that the metadata of a table with such a statistics blob is
  written to a document that is refused when it is read.
\<close>

lemma blob_without_properties_refused:
  assumes "bm_properties b = []"
  shows "\<exists>msg. JsonToBlobMetadata (J_object (WriteBlobMetadata b)) = Inl (Runtime_error msg)"
proof -
  have ids: "\<exists>msg. ProcessArray JsonToFieldId (J_array (map J_int is)) = Inl (Runtime_error msg) \<or>
      ProcessArray JsonToFieldId (J_array (map J_int is)) = Inr is" for "is"
    by (induction "is") (auto simp: ProcessArray_def JsonToFieldId_def)
  show ?thesis
    using assms ids [of "bm_field_ids b"]
    by (auto simp: WriteBlobMetadata_def JsonToBlobMetadata_def ExtractFieldIds_def json_simps)
qed

lemma blob_without_properties_refused_witness:
  "\<exists>msg. JsonToBlobMetadata (J_object (WriteBlobMetadata
     \<lparr>bm_type = ''apache-datasketches-theta-v1'', bm_snapshot_id = 1, bm_sequence_number = 1,
      bm_field_ids = [1], bm_properties = []\<rparr>)) = Inl (Runtime_error msg)"
  by (rule blob_without_properties_refused) simp

end
