(* ===== verification/Filter_Nodes.thy ===== *)
theory Filter_Nodes
  imports Literals
begin

text \<open>
  Filter expressions (\<open>filter/representation\<close>): the value types and their physical
  values (\<open>value.h\<close>), function signatures (\<open>function.h\<close>), the expression tree with the
  checks of its constructors (\<open>node.h\<close>), the visitors that read children, types and
  column names (\<open>visitor.h\<close>, \<open>column_extractor.h\<close>), and the rewriting of an operator
  over an array (\<open>tree_rewriter.cpp\<close>).  A signed integer is an \<^typ>\<open>int\<close> in the range of
  its width, a floating-point number is its bit pattern.
\<close>

section \<open>Values\<close>

datatype ValueType =
    VT_Bool | VT_Int2 | VT_Int4 | VT_Int8 | VT_Float4 | VT_Float8 | VT_Numeric | VT_String
  | VT_Date | VT_Timestamp | VT_Timestamptz | VT_Time | VT_Interval

text \<open>One constructor for each kind of alternative of the \<open>std::variant\<close> of physical
  values; the three widths of integers share one.\<close>

datatype physical =
    P_bool bool | P_int int | P_float "32 word" | P_double "64 word"
  | P_numeric string | P_string string | P_interval int int

definition int16 :: "int \<Rightarrow> bool" where
  "int16 n \<longleftrightarrow> - (2 ^ 15) \<le> n \<and> n < 2 ^ 15"

text \<open>\<open>Traits\<close>: the physical values of a value type.\<close>

fun PhysicalType :: "ValueType \<Rightarrow> physical \<Rightarrow> bool" where
  "PhysicalType VT_Bool p = (case p of P_bool _ \<Rightarrow> True | _ \<Rightarrow> False)"
| "PhysicalType VT_Int2 p = (case p of P_int n \<Rightarrow> int16 n | _ \<Rightarrow> False)"
| "PhysicalType VT_Int4 p = (case p of P_int n \<Rightarrow> int32 n | _ \<Rightarrow> False)"
| "PhysicalType VT_Int8 p = (case p of P_int n \<Rightarrow> int64 n | _ \<Rightarrow> False)"
| "PhysicalType VT_Float4 p = (case p of P_float _ \<Rightarrow> True | _ \<Rightarrow> False)"
| "PhysicalType VT_Float8 p = (case p of P_double _ \<Rightarrow> True | _ \<Rightarrow> False)"
| "PhysicalType VT_Numeric p = (case p of P_numeric _ \<Rightarrow> True | _ \<Rightarrow> False)"
| "PhysicalType VT_String p = (case p of P_string _ \<Rightarrow> True | _ \<Rightarrow> False)"
| "PhysicalType VT_Date p = (case p of P_int n \<Rightarrow> int32 n | _ \<Rightarrow> False)"
| "PhysicalType VT_Timestamp p = (case p of P_int n \<Rightarrow> int64 n | _ \<Rightarrow> False)"
| "PhysicalType VT_Timestamptz p = (case p of P_int n \<Rightarrow> int64 n | _ \<Rightarrow> False)"
| "PhysicalType VT_Time p = (case p of P_int n \<Rightarrow> int64 n | _ \<Rightarrow> False)"
| "PhysicalType VT_Interval p = (case p of P_interval m u \<Rightarrow> int64 m \<and> int64 u | _ \<Rightarrow> False)"

text \<open>A \<open>Value\<close> is a type and an optional physical value, an \<open>ArrayHolder\<close> a type and a
  vector of them.  \<open>Make\<close> is typed: the physical values are those of the type.\<close>

datatype Value = Value (GetValueType: ValueType) (GetHolder: "physical option")

datatype ArrayHolder = ArrayHolder (array_GetValueType: ValueType) (array_GetValue: "physical option list")

fun nullable_ok :: "ValueType \<Rightarrow> physical option \<Rightarrow> bool" where
  "nullable_ok vt None = True"
| "nullable_ok vt (Some p) = PhysicalType vt p"

definition value_ok :: "Value \<Rightarrow> bool" where
  "value_ok v = nullable_ok (GetValueType v) (GetHolder v)"

definition array_ok :: "ArrayHolder \<Rightarrow> bool" where
  "array_ok a = list_all (nullable_ok (array_GetValueType a)) (array_GetValue a)"

definition IsNull :: "Value \<Rightarrow> bool" where
  "IsNull v = (GetHolder v = None)"

definition GetOptional :: "ValueType \<Rightarrow> Value \<Rightarrow> physical option result" where
  "GetOptional vt v = bindE (ensure (GetValueType v = vt) ''Value (GetOptional): expected value type'')
     (\<lambda>_. Inr (GetHolder v))"

definition GetValue :: "ValueType \<Rightarrow> Value \<Rightarrow> physical result" where
  "GetValue vt v = bindE (GetOptional vt v) (\<lambda>maybe_value.
     bindE (ensure (maybe_value \<noteq> None) ''Value (GetValue): value is not set'') (\<lambda>_. Inr (the maybe_value)))"

definition array_Size :: "ArrayHolder \<Rightarrow> nat" where
  "array_Size a = length (array_GetValue a)"

fun ValueTypeToString :: "ValueType \<Rightarrow> string" where
  "ValueTypeToString VT_Bool = ''bool''"
| "ValueTypeToString VT_Int2 = ''int2''"
| "ValueTypeToString VT_Int4 = ''int4''"
| "ValueTypeToString VT_Int8 = ''int8''"
| "ValueTypeToString VT_Float4 = ''float4''"
| "ValueTypeToString VT_Float8 = ''float8''"
| "ValueTypeToString VT_Numeric = ''numeric''"
| "ValueTypeToString VT_String = ''string''"
| "ValueTypeToString VT_Date = ''date''"
| "ValueTypeToString VT_Time = ''time''"
| "ValueTypeToString VT_Timestamp = ''timestamp''"
| "ValueTypeToString VT_Timestamptz = ''timestamptz''"
| "ValueTypeToString VT_Interval = ''interval''"

section \<open>Functions\<close>

datatype (plugins only: code size) FunctionID =
    kLessThan | kLessThanOrEqualTo | kGreaterThan | kGreaterThanOrEqualTo | kEqual | kNotEqual
  | kAddWithoutChecks | kSubtractWithoutChecks | kMultiplyWithoutChecks | kDivideWithoutChecks
  | kAddWithChecks | kSubtractWithChecks | kMultiplyWithChecks | kDivideWithChecks | kModuloWithChecks
  | kLike | kILike | kNotLike | kNotILike
  | kBitwiseAnd | kBitwiseOr | kXor | kBitwiseNot
  | kIsNull
  | kCastInt4 | kCastInt8 | kCastTimestamp | kCastTimestamptz | kCastFloat8 | kCastDate
  | kSign | kCeil | kFloor | kRound | kSqrt | kCbrt | kExp | kLog10
  | kSin | kCos | kTan | kCot | kAtan | kAtan2 | kSinh | kCosh | kTanh | kAsin | kAcos
  | kExtractTimestamp | kDateTrunc
  | kDateDiff
  | kAbsolute | kNegative
  | kCharLength | kLower | kUpper | kLTrim | kRTrim | kBTrim | kSubstring | kLocate | kConcatenate

record FunctionSignature =
  function_id :: FunctionID
  return_type :: ValueType
  argument_types :: "ValueType list"

section \<open>Expressions\<close>

datatype LogicalOperation = kAnd | kOr | kNot

datatype Node =
    VariableNode ValueType string
  | ConstNode Value
  | IfNode Node Node Node
  | LogicalNode LogicalOperation "Node list"
  | FunctionNode FunctionSignature "Node list"
  | ScalarOverArrayFunctionNode FunctionSignature bool Node ArrayHolder

text \<open>The checks of the constructors; a tree has no null pointers.\<close>

definition mk_LogicalNode :: "LogicalOperation \<Rightarrow> Node list \<Rightarrow> Node result" where
  "mk_LogicalNode op arguments =
     bindE (ensure (\<not> (op = kNot \<and> length arguments \<noteq> 1)) ''LogicalNode: Operation::kNot expects one argument'')
       (\<lambda>_. Inr (LogicalNode op arguments))"

definition mk_FunctionNode :: "FunctionSignature \<Rightarrow> Node list \<Rightarrow> Node result" where
  "mk_FunctionNode sig arguments =
     bindE (ensure (length (argument_types sig) = length arguments)
       ''FunctionNode: argument_types.size() != arguments.size()'')
       (\<lambda>_. Inr (FunctionNode sig arguments))"

definition mk_ScalarOverArrayFunctionNode ::
  "FunctionSignature \<Rightarrow> bool \<Rightarrow> Node \<Rightarrow> ArrayHolder \<Rightarrow> Node result" where
  "mk_ScalarOverArrayFunctionNode sig use_or lhs array =
     bindE (ensure (array_Size array > 0)
       ''ScalarOverArrayFunctionNode: array must contain at least one element'') (\<lambda>_.
     bindE (ensure (length (argument_types sig) = 2)
       ''ScalarOverArrayFunctionNode: function signature must have 2 arguments'')
       (\<lambda>_. Inr (ScalarOverArrayFunctionNode sig use_or lhs array)))"

text \<open>The trees that the constructors build.\<close>

primrec node_ok :: "Node \<Rightarrow> bool" where
  "node_ok (VariableNode vt name) = True"
| "node_ok (ConstNode v) = value_ok v"
| "node_ok (IfNode c t e) = (node_ok c \<and> node_ok t \<and> node_ok e)"
| "node_ok (LogicalNode op args) = ((op = kNot \<longrightarrow> length args = 1) \<and> list_all id (map node_ok args))"
| "node_ok (FunctionNode sig args) =
     (length (argument_types sig) = length args \<and> list_all id (map node_ok args))"
| "node_ok (ScalarOverArrayFunctionNode sig use_or lhs array) =
     (array_ok array \<and> array_Size array > 0 \<and> length (argument_types sig) = 2 \<and> node_ok lhs)"

section \<open>Visitors\<close>

fun GetChildren :: "Node \<Rightarrow> Node list" where
  "GetChildren (FunctionNode _ arguments) = arguments"
| "GetChildren (ConstNode _) = []"
| "GetChildren (VariableNode _ _) = []"
| "GetChildren (ScalarOverArrayFunctionNode _ _ scalar _) = [scalar]"
| "GetChildren (IfNode condition then_node else_node) = [condition, then_node, else_node]"
| "GetChildren (LogicalNode _ arguments) = arguments"

fun TypeGetter :: "Node \<Rightarrow> ValueType" where
  "TypeGetter (FunctionNode sig _) = return_type sig"
| "TypeGetter (ConstNode value) = GetValueType value"
| "TypeGetter (VariableNode value_type _) = value_type"
| "TypeGetter (ScalarOverArrayFunctionNode _ _ _ _) = VT_Bool"
| "TypeGetter (IfNode _ then_node _) = TypeGetter then_node"
| "TypeGetter (LogicalNode _ _) = VT_Bool"

lemma size_child: "child \<in> set (GetChildren node) \<Longrightarrow> size child < size node"
  by (cases node) (auto simp: less_Suc_eq_le dest: size_list_estimation' [OF _ order_refl])

text \<open>\<open>SubtreeVisitor\<close>: the children first, then the node itself.\<close>

function SubtreeVisitor :: "(Node \<Rightarrow> 's \<Rightarrow> 's) \<Rightarrow> Node \<Rightarrow> 's \<Rightarrow> 's" where
  "SubtreeVisitor visit node s = visit node (fold (SubtreeVisitor visit) (GetChildren node) s)"
  by pat_completeness auto
termination by (relation "measure (\<lambda>(_, node, _). size node)") (auto intro: size_child)

declare SubtreeVisitor.simps [simp del]

fun ColumnExtractorVisitor :: "Node \<Rightarrow> string set \<Rightarrow> string set" where
  "ColumnExtractorVisitor (VariableNode _ column_name) result = insert column_name result"
| "ColumnExtractorVisitor _ result = result"

definition extract_columns :: "Node \<Rightarrow> string set" where
  "extract_columns node = SubtreeVisitor ColumnExtractorVisitor node {}"

section \<open>Rewriting\<close>

definition ScalarOverArrayToLogical :: "FunctionSignature \<Rightarrow> bool \<Rightarrow> Node \<Rightarrow> ArrayHolder \<Rightarrow> Node result" where
  "ScalarOverArrayToLogical sig use_or scalar array =
     bindE (mapE (\<lambda>maybe_value.
         mk_FunctionNode sig [scalar, ConstNode (Value (array_GetValueType array) maybe_value)])
       (array_GetValue array)) (\<lambda>function_nodes.
     mk_LogicalNode (if use_or then kOr else kAnd) function_nodes)"

section \<open>The columns of an expression\<close>

primrec node_columns :: "Node \<Rightarrow> string set" where
  "node_columns (VariableNode vt name) = {name}"
| "node_columns (ConstNode v) = {}"
| "node_columns (IfNode c t e) = node_columns c \<union> node_columns t \<union> node_columns e"
| "node_columns (LogicalNode op args) = \<Union> (set (map node_columns args))"
| "node_columns (FunctionNode sig args) = \<Union> (set (map node_columns args))"
| "node_columns (ScalarOverArrayFunctionNode sig use_or lhs array) = node_columns lhs"

lemma fold_insert_columns:
  assumes "\<And>x s. x \<in> set xs \<Longrightarrow> f x s = s \<union> g x"
  shows "fold f xs s = s \<union> \<Union> (g ` set xs)"
  using assms by (induction xs arbitrary: s) auto

lemma SubtreeVisitor_columns:
  "SubtreeVisitor ColumnExtractorVisitor node s = s \<union> node_columns node"
proof (induction "size node" arbitrary: node s rule: less_induct)
  case less
  have "fold (SubtreeVisitor ColumnExtractorVisitor) (GetChildren node) s =
      s \<union> \<Union> (node_columns ` set (GetChildren node))"
    by (rule fold_insert_columns) (simp add: less size_child)
  then show ?case by (subst SubtreeVisitor.simps) (cases node; auto)
qed

lemma extract_columns_eq: "extract_columns node = node_columns node"
  by (simp add: extract_columns_def SubtreeVisitor_columns)

end
