(* ===== verification/Filter_Serializer.thy ===== *)
theory Filter_Serializer
  imports Filter_Nodes
begin

text \<open>
  The JSON form of filter expressions (\<open>filter/representation/serializer.cpp\<close>): the
  tables of names with the check that they are bijections, the serializer, one
  deserializer per class of node, and the two entry points \<open>FilterToString\<close> and
  \<open>StringToFilter\<close>.  Text is printed and parsed by rapidjson, whose printer and parser
  are parameters.
\<close>

section \<open>Names\<close>

definition IsBijection :: "('a \<times> 'b) list \<Rightarrow> bool" where
  "IsBijection m = list_all (\<lambda>(lhs_1, lhs_2). list_all (\<lambda>(rhs_1, rhs_2). (lhs_1 = rhs_1) = (lhs_2 = rhs_2)) m) m"

fun ElementToStringView :: "('a \<times> string) list \<Rightarrow> 'a \<Rightarrow> string result" where
  "ElementToStringView [] elem = Inl (Execution_error ''unexpected node type'')"
| "ElementToStringView ((possible_elem, possible_str) # m) elem =
     (if elem = possible_elem then Inr possible_str else ElementToStringView m elem)"

fun StringViewToElement :: "('a \<times> string) list \<Rightarrow> string \<Rightarrow> 'a result" where
  "StringViewToElement [] elem = Inl (Execution_error ''unexpected string_view'')"
| "StringViewToElement ((possible_elem, possible_str) # m) elem =
     (if elem = possible_str then Inr possible_elem else StringViewToElement m elem)"

datatype NodeType =
    NT_Variable | NT_Const | NT_Function | NT_ScalarOverArrayFunction | NT_If | NT_Logical

definition nodetype_string :: "(NodeType \<times> string) list" where
  "nodetype_string =
     [(NT_Variable, ''var''), (NT_Const, ''const''), (NT_Function, ''func''), (NT_If, ''if''),
      (NT_ScalarOverArrayFunction, ''funcarr''), (NT_Logical, ''logical'')]"

definition functionid_string :: "(FunctionID \<times> string) list" where
  "functionid_string =
     [(kLessThan, ''kLessThan''), (kGreaterThan, ''kGreaterThan''),
      (kLessThanOrEqualTo, ''kLessThanOrEqualTo''), (kGreaterThanOrEqualTo, ''kGreaterThanOrEqualTo''),
      (kEqual, ''kEqual''), (kNotEqual, ''kNotEqual''), (kAddWithChecks, ''kAddWithChecks''),
      (kSubtractWithChecks, ''kSubtractWithChecks''), (kMultiplyWithChecks, ''kMultiplyWithChecks''),
      (kDivideWithChecks, ''kDivideWithChecks''), (kModuloWithChecks, ''kModuloWithChecks''),
      (kAddWithoutChecks, ''kAddWithoutChecks''), (kSubtractWithoutChecks, ''kSubtractWithoutChecks''),
      (kMultiplyWithoutChecks, ''kMultiplyWithoutChecks''), (kDivideWithoutChecks, ''kDivideWithoutChecks''),
      (kBitwiseAnd, ''kBitwiseAnd''), (kBitwiseOr, ''kBitwiseOr''), (kXor, ''kXor''),
      (kBitwiseNot, ''kBitwiseNot''), (kAbsolute, ''kAbsolute''), (kNegative, ''kNegative''),
      (kLike, ''kLike''), (kILike, ''kILike''), (kNotLike, ''kNotLike''), (kNotILike, ''kNotILike''),
      (kSign, ''kSign''), (kCeil, ''kCeil''), (kFloor, ''kFloor''), (kRound, ''kRound''),
      (kSqrt, ''kSqrt''), (kCbrt, ''kCbrt''), (kExp, ''kExp''), (kLog10, ''kLog10''),
      (kSin, ''kSin''), (kCos, ''kCos''), (kTan, ''kTan''), (kCot, ''kCot''), (kAtan, ''kAtan''),
      (kAtan2, ''kAtan2''), (kSinh, ''kSinh''), (kCosh, ''kCosh''), (kTanh, ''kTanh''),
      (kAsin, ''kAsin''), (kAcos, ''kAcos''), (kCharLength, ''kCharLength''), (kLower, ''kLower''),
      (kUpper, ''kUpper''), (kLTrim, ''kLTrim''), (kRTrim, ''kRTrim''), (kBTrim, ''kBTrim''),
      (kSubstring, ''kSubstring''), (kLocate, ''kLocate''), (kIsNull, ''kIsNull''),
      (kConcatenate, ''kConcatenate''), (kExtractTimestamp, ''kExtractTimestamp''),
      (kCastTimestamp, ''kCastTimestamp''), (kCastTimestamptz, ''kCastTimestamptz''),
      (kDateDiff, ''kDateDiff''), (kDateTrunc, ''kDateTrunc''), (kCastFloat8, ''kCastFloat8''),
      (kCastInt8, ''kCastInt8''), (kCastInt4, ''kCastInt4''), (kCastDate, ''kCastDate'')]"

definition valuetype_string :: "(ValueType \<times> string) list" where
  "valuetype_string =
     [(VT_Bool, ''bool''), (VT_Int2, ''int2''), (VT_Int4, ''int4''), (VT_Int8, ''int8''),
      (VT_Float4, ''float4''), (VT_Float8, ''float8''), (VT_Numeric, ''numeric''), (VT_String, ''string''),
      (VT_Date, ''date''), (VT_Timestamp, ''timestamp''), (VT_Timestamptz, ''timestamptz''),
      (VT_Time, ''time''), (VT_Interval, ''interval'')]"

definition logicalop_string :: "(LogicalOperation \<times> string) list" where
  "logicalop_string = [(kAnd, ''kAnd''), (kOr, ''kOr''), (kNot, ''kNot'')]"

abbreviation StringToValueType :: "string \<Rightarrow> ValueType result" where
  "StringToValueType \<equiv> StringViewToElement valuetype_string"

abbreviation StringToFunctionID :: "string \<Rightarrow> FunctionID result" where
  "StringToFunctionID \<equiv> StringViewToElement functionid_string"

abbreviation StringToNodeType :: "string \<Rightarrow> NodeType result" where
  "StringToNodeType \<equiv> StringViewToElement nodetype_string"

abbreviation StringToLogicalOperation :: "string \<Rightarrow> LogicalOperation result" where
  "StringToLogicalOperation \<equiv> StringViewToElement logicalop_string"

section \<open>Serializer\<close>

text \<open>\<open>rapidjson::Value(sv.data(), allocator)\<close> copies up to the first zero byte.\<close>

definition Serialize_string :: "string \<Rightarrow> json" where
  "Serialize_string s = J_string (c_str s)"

definition Serialize_name :: "('a \<times> string) list \<Rightarrow> 'a \<Rightarrow> json result" where
  "Serialize_name m x = bindE (ElementToStringView m x) (\<lambda>s. Inr (Serialize_string s))"

fun Serialize_physical :: "physical \<Rightarrow> json" where
  "Serialize_physical (P_bool b) = J_bool b"
| "Serialize_physical (P_int n) = J_int n"
| "Serialize_physical (P_float f) = J_double (float_to_double f)"
| "Serialize_physical (P_double d) = J_double d"
| "Serialize_physical (P_numeric s) = Serialize_string s"
| "Serialize_physical (P_string s) = Serialize_string s"
| "Serialize_physical (P_interval months micros) =
     J_object [(''months'', J_int months), (''micros'', J_int micros)]"

fun Serialize_optional :: "physical option \<Rightarrow> json" where
  "Serialize_optional (Some p) = Serialize_physical p"
| "Serialize_optional None = J_null"

definition Serialize_ArrayHolder :: "ArrayHolder \<Rightarrow> json result" where
  "Serialize_ArrayHolder a =
     bindE (Serialize_name valuetype_string (array_GetValueType a)) (\<lambda>t.
     Inr (J_object [(''val-type'', t), (''value'', J_array (map Serialize_optional (array_GetValue a)))]))"

definition Serialize_Value :: "Value \<Rightarrow> json result" where
  "Serialize_Value v =
     bindE (Serialize_name valuetype_string (GetValueType v)) (\<lambda>t.
     Inr (J_object [(''val-type'', t), (''value'', Serialize_optional (GetHolder v))]))"

definition Serialize_FunctionSignature :: "FunctionSignature \<Rightarrow> json result" where
  "Serialize_FunctionSignature sig =
     bindE (mapE (Serialize_name valuetype_string) (argument_types sig)) (\<lambda>types.
     bindE (Serialize_name valuetype_string (return_type sig)) (\<lambda>ret.
     bindE (Serialize_name functionid_string (function_id sig)) (\<lambda>fid.
     Inr (J_object [(''arg-types'', J_array types), (''val-type'', ret), (''func-id'', fid)]))))"

text \<open>\<open>AddNodeType\<close> followed by the members of the class.\<close>

definition node_object :: "NodeType \<Rightarrow> members \<Rightarrow> json result" where
  "node_object nt ms = bindE (Serialize_name nodetype_string nt) (\<lambda>t. Inr (J_object ((''node-type'', t) # ms)))"

lemma mapE_cong [fundef_cong]:
  "xs = ys \<Longrightarrow> (\<And>x. x \<in> set ys \<Longrightarrow> f x = g x) \<Longrightarrow> mapE f xs = mapE g ys"
  by (induction xs arbitrary: ys) (auto cong: bindE_cong)

fun Serialize :: "Node \<Rightarrow> json result" where
  "Serialize (VariableNode value_type column_name) =
     bindE (Serialize_name valuetype_string value_type) (\<lambda>t.
     node_object NT_Variable [(''val-type'', t), (''col-name'', Serialize_string column_name)])"
| "Serialize (ConstNode value) =
     bindE (Serialize_Value value) (\<lambda>v. node_object NT_Const [(''value'', v)])"
| "Serialize (FunctionNode function_signature arguments) =
     bindE (Serialize_FunctionSignature function_signature) (\<lambda>sig.
     bindE (mapE Serialize arguments) (\<lambda>args.
     node_object NT_Function [(''func-sig'', sig), (''args'', J_array args)]))"
| "Serialize (IfNode condition then_node else_node) =
     bindE (Serialize condition) (\<lambda>c.
     bindE (Serialize then_node) (\<lambda>t.
     bindE (Serialize else_node) (\<lambda>e.
     node_object NT_If [(''cond'', c), (''then'', t), (''else'', e)])))"
| "Serialize (ScalarOverArrayFunctionNode function_signature use_or scalar array) =
     bindE (Serialize_FunctionSignature function_signature) (\<lambda>sig.
     bindE (Serialize scalar) (\<lambda>lhs.
     bindE (Serialize_ArrayHolder array) (\<lambda>rhs.
     node_object NT_ScalarOverArrayFunction
       [(''func-sig'', sig), (''use-or'', J_bool use_or), (''lhs'', lhs), (''rhs'', rhs)])))"
| "Serialize (LogicalNode operation arguments) =
     bindE (Serialize_name logicalop_string operation) (\<lambda>op.
     bindE (mapE Serialize arguments) (\<lambda>args.
     node_object NT_Logical [(''logic-op'', op), (''args'', J_array args)]))"

section \<open>Deserializer\<close>

definition wrong_type :: "string \<Rightarrow> 'a result" where
  "wrong_type what = Inl (Runtime_error (''Deserialize ('' @ what @ ''): wrong type''))"

definition to_int16 :: "int \<Rightarrow> int" where
  "to_int16 n = (n + 2 ^ 15) mod 2 ^ 16 - 2 ^ 15"

fun Deserialize_int32 :: "json \<Rightarrow> int result" where
  "Deserialize_int32 (J_int n) = (if int32 n then Inr n else wrong_type ''primitive'')"
| "Deserialize_int32 _ = wrong_type ''primitive''"

fun Deserialize_int64 :: "json \<Rightarrow> int result" where
  "Deserialize_int64 (J_int n) = (if int64 n then Inr n else wrong_type ''primitive'')"
| "Deserialize_int64 _ = wrong_type ''primitive''"

fun Deserialize_bool :: "json \<Rightarrow> bool result" where
  "Deserialize_bool (J_bool b) = Inr b"
| "Deserialize_bool _ = wrong_type ''primitive''"

fun Deserialize_float :: "json \<Rightarrow> 32 word result" where
  "Deserialize_float (J_double d) = (if in_float_range d then Inr (double_to_float d) else wrong_type ''primitive'')"
| "Deserialize_float _ = wrong_type ''primitive''"

fun Deserialize_double :: "json \<Rightarrow> 64 word result" where
  "Deserialize_double (J_double d) = Inr d"
| "Deserialize_double _ = wrong_type ''primitive''"

fun Deserialize_string :: "json \<Rightarrow> string result" where
  "Deserialize_string (J_string s) = Inr s"
| "Deserialize_string _ = wrong_type ''string''"

text \<open>The narrowing of a small integer is not checked.\<close>

definition Deserialize_int16 :: "json \<Rightarrow> int result" where
  "Deserialize_int16 document = bindE (Deserialize_int32 document) (\<lambda>n. Inr (to_int16 n))"

definition member_or_fail :: "json \<Rightarrow> string \<Rightarrow> json result" where
  "member_or_fail document field_name =
     bindE (HasMember document field_name) (\<lambda>has.
     bindE (ensure has ''ExtractPrimitive: !document.HasMember()'') (\<lambda>_.
     member_at document field_name))"

definition Extract :: "(json \<Rightarrow> 'a result) \<Rightarrow> json \<Rightarrow> string \<Rightarrow> 'a result" where
  "Extract Deserialize document field_name = bindE (member_or_fail document field_name) Deserialize"

fun Deserialize_vector :: "(json \<Rightarrow> 'a result) \<Rightarrow> json \<Rightarrow> 'a list result" where
  "Deserialize_vector Deserialize (J_array elements) = mapE Deserialize elements"
| "Deserialize_vector Deserialize _ = wrong_type ''array''"

definition Deserialize_IntervalMonthMicro :: "json \<Rightarrow> (int \<times> int) result" where
  "Deserialize_IntervalMonthMicro document =
     (if \<not> IsObject document then wrong_type ''IntervalMonthMicro''
      else bindE (Extract Deserialize_int64 document ''months'') (\<lambda>months.
        bindE (Extract Deserialize_int64 document ''micros'') (\<lambda>micros. Inr (months, micros))))"

fun Deserialize_physical :: "ValueType \<Rightarrow> json \<Rightarrow> physical result" where
  "Deserialize_physical VT_Bool j = bindE (Deserialize_bool j) (\<lambda>b. Inr (P_bool b))"
| "Deserialize_physical VT_Int2 j = bindE (Deserialize_int16 j) (\<lambda>n. Inr (P_int n))"
| "Deserialize_physical VT_Int4 j = bindE (Deserialize_int32 j) (\<lambda>n. Inr (P_int n))"
| "Deserialize_physical VT_Int8 j = bindE (Deserialize_int64 j) (\<lambda>n. Inr (P_int n))"
| "Deserialize_physical VT_Float4 j = bindE (Deserialize_float j) (\<lambda>f. Inr (P_float f))"
| "Deserialize_physical VT_Float8 j = bindE (Deserialize_double j) (\<lambda>d. Inr (P_double d))"
| "Deserialize_physical VT_Numeric j = bindE (Deserialize_string j) (\<lambda>s. Inr (P_numeric s))"
| "Deserialize_physical VT_String j = bindE (Deserialize_string j) (\<lambda>s. Inr (P_string s))"
| "Deserialize_physical VT_Date j = bindE (Deserialize_int32 j) (\<lambda>n. Inr (P_int n))"
| "Deserialize_physical VT_Timestamp j = bindE (Deserialize_int64 j) (\<lambda>n. Inr (P_int n))"
| "Deserialize_physical VT_Timestamptz j = bindE (Deserialize_int64 j) (\<lambda>n. Inr (P_int n))"
| "Deserialize_physical VT_Time j = bindE (Deserialize_int64 j) (\<lambda>n. Inr (P_int n))"
| "Deserialize_physical VT_Interval j =
     bindE (Deserialize_IntervalMonthMicro j) (\<lambda>(months, micros). Inr (P_interval months micros))"

fun Deserialize_optional :: "ValueType \<Rightarrow> json \<Rightarrow> physical option result" where
  "Deserialize_optional vt J_null = Inr None"
| "Deserialize_optional vt j = bindE (Deserialize_physical vt j) (\<lambda>p. Inr (Some p))"

definition Deserialize_ArrayHolder :: "json \<Rightarrow> ArrayHolder result" where
  "Deserialize_ArrayHolder document =
     (if \<not> IsObject document then wrong_type ''ArrayHolder''
      else bindE (Extract Deserialize_string document ''val-type'') (\<lambda>s.
        bindE (StringToValueType s) (\<lambda>value_type.
        bindE (Extract (Deserialize_vector (Deserialize_optional value_type)) document ''value'') (\<lambda>values.
        Inr (ArrayHolder value_type values)))))"

definition Deserialize_Value :: "json \<Rightarrow> Value result" where
  "Deserialize_Value document =
     (if \<not> IsObject document then wrong_type ''Value''
      else bindE (Extract Deserialize_string document ''val-type'') (\<lambda>s.
        bindE (StringToValueType s) (\<lambda>value_type.
        bindE (Extract (Deserialize_optional value_type) document ''value'') (\<lambda>value.
        Inr (Value value_type value)))))"

definition Deserialize_ConstNode :: "json \<Rightarrow> Node result" where
  "Deserialize_ConstNode document =
     (if \<not> IsObject document then wrong_type ''ConstNode''
      else bindE (Extract Deserialize_Value document ''value'') (\<lambda>value. Inr (ConstNode value)))"

fun Deserialize_ValueType :: "json \<Rightarrow> ValueType result" where
  "Deserialize_ValueType (J_string s) = StringToValueType (c_str s)"
| "Deserialize_ValueType _ = wrong_type ''ValueType''"

definition Deserialize_FunctionSignature :: "json \<Rightarrow> FunctionSignature result" where
  "Deserialize_FunctionSignature document =
     (if \<not> IsObject document then wrong_type ''FunctionSignature''
      else bindE (Extract Deserialize_string document ''func-id'') (\<lambda>fs.
        bindE (StringToFunctionID fs) (\<lambda>fid.
        bindE (Extract Deserialize_string document ''val-type'') (\<lambda>rs.
        bindE (StringToValueType rs) (\<lambda>ret.
        bindE (Extract (Deserialize_vector Deserialize_ValueType) document ''arg-types'') (\<lambda>arg_types.
        Inr \<lparr>function_id = fid, return_type = ret, argument_types = arg_types\<rparr>))))))"

definition Deserialize_VariableNode :: "json \<Rightarrow> Node result" where
  "Deserialize_VariableNode document =
     (if \<not> IsObject document then wrong_type ''VariableNode''
      else bindE (Extract Deserialize_string document ''val-type'') (\<lambda>s.
        bindE (StringToValueType s) (\<lambda>value_type.
        bindE (Extract Deserialize_string document ''col-name'') (\<lambda>column_name.
        Inr (VariableNode value_type column_name)))))"

lemma member_or_fail_size [simp]: "member_or_fail v name = Inr v' \<Longrightarrow> size v' < size v"
proof (cases v)
  case (J_object ms)
  moreover assume "member_or_fail v name = Inr v'"
  ultimately have "(name, v') \<in> set ms"
    by (auto simp: member_or_fail_def bindE_eq_Inr_iff split: option.splits dest: map_of_SomeD)
  then have "size v' < Suc (size_list (size_prod (\<lambda>x. 0) size) ms)" by (induction ms) auto
  then show ?thesis using J_object by simp
qed (simp_all add: member_or_fail_def)

lemma Extract_cong [fundef_cong]:
  "d = d' \<Longrightarrow> n = n' \<Longrightarrow> (\<And>v. member_or_fail d' n' = Inr v \<Longrightarrow> f v = g v) \<Longrightarrow> Extract f d n = Extract g d' n'"
  by (auto simp: Extract_def cong: bindE_cong)

lemma Deserialize_vector_cong [fundef_cong]:
  "j = j' \<Longrightarrow> (\<And>x. size x < size j' \<Longrightarrow> f x = g x) \<Longrightarrow> Deserialize_vector f j = Deserialize_vector g j'"
  by (cases j') (auto intro!: mapE_cong simp: less_Suc_eq_le dest: size_list_estimation' [OF _ order_refl])

text \<open>\<open>Deserialize<NodePtr>\<close> reads the class and hands the same document to the
  deserializer of the class.\<close>

function (sequential) Deserialize_LogicalNode :: "json \<Rightarrow> Node result"
  and Deserialize_FunctionNode :: "json \<Rightarrow> Node result"
  and Deserialize_ScalarOverArrayFunctionNode :: "json \<Rightarrow> Node result"
  and Deserialize_IfNode :: "json \<Rightarrow> Node result"
  and Deserialize_NodePtr :: "json \<Rightarrow> Node result"
  where
  "Deserialize_LogicalNode document =
     (if \<not> IsObject document then wrong_type ''LogicalNode''
      else bindE (Extract Deserialize_string document ''logic-op'') (\<lambda>s.
        bindE (StringToLogicalOperation s) (\<lambda>op.
        bindE (Extract (Deserialize_vector Deserialize_NodePtr) document ''args'') (\<lambda>arguments.
        mk_LogicalNode op arguments))))"
| "Deserialize_FunctionNode document =
     (if \<not> IsObject document then wrong_type ''FunctionNode''
      else bindE (Extract Deserialize_FunctionSignature document ''func-sig'') (\<lambda>function_signature.
        bindE (Extract (Deserialize_vector Deserialize_NodePtr) document ''args'') (\<lambda>arguments.
        mk_FunctionNode function_signature arguments)))"
| "Deserialize_ScalarOverArrayFunctionNode document =
     (if \<not> IsObject document then wrong_type ''FunctionArrayNode''
      else bindE (Extract Deserialize_FunctionSignature document ''func-sig'') (\<lambda>function_signature.
        bindE (Extract Deserialize_bool document ''use-or'') (\<lambda>use_or.
        bindE (Extract Deserialize_NodePtr document ''lhs'') (\<lambda>lhs.
        bindE (Extract Deserialize_ArrayHolder document ''rhs'') (\<lambda>rhs.
        mk_ScalarOverArrayFunctionNode function_signature use_or lhs rhs)))))"
| "Deserialize_IfNode document =
     (if \<not> IsObject document then wrong_type ''IfNode''
      else bindE (Extract Deserialize_NodePtr document ''cond'') (\<lambda>condition.
        bindE (Extract Deserialize_NodePtr document ''then'') (\<lambda>then_node.
        bindE (Extract Deserialize_NodePtr document ''else'') (\<lambda>else_node.
        Inr (IfNode condition then_node else_node)))))"
| "Deserialize_NodePtr document =
     bindE (Extract Deserialize_string document ''node-type'') (\<lambda>s.
     bindE (StringToNodeType s) (\<lambda>node_type.
     case node_type of
       NT_Const \<Rightarrow> Deserialize_ConstNode document
     | NT_ScalarOverArrayFunction \<Rightarrow> Deserialize_ScalarOverArrayFunctionNode document
     | NT_Variable \<Rightarrow> Deserialize_VariableNode document
     | NT_If \<Rightarrow> Deserialize_IfNode document
     | NT_Function \<Rightarrow> Deserialize_FunctionNode document
     | NT_Logical \<Rightarrow> Deserialize_LogicalNode document))"
  by pat_completeness auto
termination
  by (relation "measure (\<lambda>x. case x of Inl (Inl d) \<Rightarrow> 2 * size d | Inl (Inr d) \<Rightarrow> 2 * size d
      | Inr (Inl d) \<Rightarrow> 2 * size d | Inr (Inr (Inl d)) \<Rightarrow> 2 * size d | Inr (Inr (Inr d)) \<Rightarrow> 2 * size d + 1)")
    (auto dest!: member_or_fail_size)


declare Deserialize_LogicalNode.simps [simp del] Deserialize_FunctionNode.simps [simp del]
  Deserialize_ScalarOverArrayFunctionNode.simps [simp del] Deserialize_IfNode.simps [simp del]
  Deserialize_NodePtr.simps [simp del]

section \<open>Entry points\<close>

text \<open>A document that does not parse is left null.\<close>

definition StringToFilter :: "(string \<Rightarrow> json option) \<Rightarrow> string \<Rightarrow> Node option result" where
  "StringToFilter parse row_filter =
     (if row_filter = [] then Inr None
      else bindE (Deserialize_NodePtr (case parse row_filter of None \<Rightarrow> J_null | Some j \<Rightarrow> j))
        (\<lambda>node. Inr (Some node)))"

definition FilterToString :: "(json \<Rightarrow> string) \<Rightarrow> Node option \<Rightarrow> string result" where
  "FilterToString print node =
     (case node of None \<Rightarrow> Inr [] | Some n \<Rightarrow> bindE (Serialize n) (\<lambda>value. Inr (c_str (print value))))"

section \<open>The names are read back\<close>

lemma StringViewToElement_map_of:
  "StringViewToElement m s = (case map_of (map prod.swap m) s of
     None \<Rightarrow> Inl (Execution_error ''unexpected string_view'') | Some x \<Rightarrow> Inr x)"
  by (induction m s rule: StringViewToElement.induct) auto

lemma ElementToStringView_Inr: "ElementToStringView m x = Inr s \<Longrightarrow> (x, s) \<in> set m"
  by (induction m x rule: ElementToStringView.induct) (auto split: if_splits)

lemma StringViewToElement_Inr: "StringViewToElement m s = Inr x \<Longrightarrow> (x, s) \<in> set m"
  by (induction m s rule: StringViewToElement.induct) (auto split: if_splits)

lemma StringViewToElement_total: "(x, s) \<in> set m \<Longrightarrow> \<exists>y. StringViewToElement m s = Inr y"
  by (induction m s rule: StringViewToElement.induct) auto

lemma IsBijection_D:
  "IsBijection m \<Longrightarrow> (x, s) \<in> set m \<Longrightarrow> (y, t) \<in> set m \<Longrightarrow> x = y \<longleftrightarrow> s = t"
  by (fastforce simp: IsBijection_def list_all_iff)

text \<open>What the \<open>static_assert\<close> on a table gives: a name is read back as its element.\<close>

lemma name_roundtrip:
  assumes "IsBijection m" "ElementToStringView m x = Inr s"
  shows "StringViewToElement m s = Inr x"
proof -
  have xs: "(x, s) \<in> set m" using assms(2) by (rule ElementToStringView_Inr)
  then obtain y where y: "StringViewToElement m s = Inr y" using StringViewToElement_total by metis
  then have "y = x" using IsBijection_D [OF assms(1) StringViewToElement_Inr [OF y] xs] by simp
  with y show ?thesis by simp
qed

lemma nodetype_bijection: "IsBijection nodetype_string"
  by code_simp

lemma valuetype_bijection: "IsBijection valuetype_string"
  by code_simp

lemma logicalop_bijection: "IsBijection logicalop_string"
  by code_simp

lemma functionid_bijection: "IsBijection functionid_string"
  by code_simp

lemma valuetype_named: "\<exists>s. ElementToStringView valuetype_string vt = Inr s \<and> no_nul s"
  by (cases vt) (simp_all add: valuetype_string_def no_nul_def)

lemma logicalop_named: "\<exists>s. ElementToStringView logicalop_string op = Inr s \<and> no_nul s"
  by (cases op) (simp_all add: logicalop_string_def no_nul_def)

lemma functionid_named: "\<exists>s. ElementToStringView functionid_string f = Inr s \<and> no_nul s"
  by (cases f) (simp_all add: functionid_string_def no_nul_def)

end
