(* ===== verification/Float_Order.thy ===== *)
theory Float_Order
  imports Literals
begin

text \<open>
  The order of IEEE floating-point numbers on their bit patterns, as the comparisons of
  C++ see it: a pattern that is not a number compares false with everything, the others
  are ordered by a signed magnitude in which both zeros are equal.  The conversion from
  \<open>float\<close> to \<open>double\<close> keeps this order and is undone by the conversion back.
\<close>

section \<open>Order\<close>

definition float_nan :: "32 word \<Rightarrow> bool" where
  "float_nan w \<longleftrightarrow> unat w mod 2 ^ 31 > 255 * 2 ^ 23"

definition double_nan :: "64 word \<Rightarrow> bool" where
  "double_nan w \<longleftrightarrow> unat w mod 2 ^ 63 > 2047 * 2 ^ 52"

definition float_key :: "32 word \<Rightarrow> int" where
  "float_key w = (if unat w \<ge> 2 ^ 31 then - int (unat w mod 2 ^ 31) else int (unat w mod 2 ^ 31))"

definition double_key :: "64 word \<Rightarrow> int" where
  "double_key w = (if unat w \<ge> 2 ^ 63 then - int (unat w mod 2 ^ 63) else int (unat w mod 2 ^ 63))"

section \<open>Conversion to double\<close>

text \<open>The magnitude of the converted number.\<close>

definition widen :: "nat \<Rightarrow> nat" where
  "widen a =
     (let e = a div 2 ^ 23; m = a mod 2 ^ 23 in
      if e = 255 then 2047 * 2 ^ 52 + (if m = 0 then 0 else (m mod 2 ^ 22) * 2 ^ 29 + 2 ^ 51)
      else if e \<noteq> 0 then (e + 896) * 2 ^ 52 + m * 2 ^ 29
      else if m = 0 then 0
      else let k = length (filter (\<lambda>i. 2 ^ i \<le> m) [1..<23]) in (k + 874) * 2 ^ 52 + (m - 2 ^ k) * 2 ^ (52 - k))"

lemma filter_prefix_length:
  assumes "k < n" "0 < k"
  shows "length (filter (\<lambda>i. i \<le> k) [1..<n]) = k"
proof -
  have "filter (\<lambda>i. i \<le> k) [1..<n] = [1..<Suc k]"
  proof -
    have "[1..<n] = [1..<Suc k] @ [Suc k..<n]" using assms by (metis Suc_leI le_add1 le_add_diff_inverse plus_1_eq_Suc upt_add_eq_append)
    then show ?thesis by (simp add: filter_empty_conv)
  qed
  then show ?thesis by simp
qed

text \<open>The loop-free search for the leading bit of a subnormal number.\<close>

lemma leading_bit:
  assumes "0 < m" "(m::nat) < 2 ^ 23"
  obtains k where "length (filter (\<lambda>i. 2 ^ i \<le> m) [1..<23]) = k" "2 ^ k \<le> m" "m < 2 ^ Suc k" "k < 23"
proof -
  obtain k where k: "2 ^ k \<le> m" "m < 2 ^ Suc k"
    using assms(1) ex_power_ivl1 [of 2 m] by auto
  have k23: "k < 23"
  proof (rule ccontr)
    assume "\<not> k < 23"
    then have "(2::nat) ^ 23 \<le> 2 ^ k" by (intro power_increasing) auto
    then show False using k assms(2) by linarith
  qed
  have iff: "2 ^ i \<le> m \<longleftrightarrow> i \<le> k" for i
  proof
    assume "2 ^ i \<le> m"
    then have "(2::nat) ^ i < 2 ^ Suc k" using k(2) by linarith
    then show "i \<le> k" by (metis less_Suc_eq_le one_less_numeral_iff power_less_imp_less_exp semiring_norm(76))
  next
    assume "i \<le> k"
    then have "(2::nat) ^ i \<le> 2 ^ k" by (intro power_increasing) auto
    then show "2 ^ i \<le> m" using k(1) by linarith
  qed
  have "length (filter (\<lambda>i. 2 ^ i \<le> m) [1..<23]) = k"
  proof (cases "k = 0")
    case True
    then show ?thesis by (simp add: iff filter_empty_conv)
  next
    case False
    then show ?thesis using filter_prefix_length [of k 23] k23 by (simp add: iff)
  qed
  then show thesis using that k k23 by blast
qed

lemma widen_bound: "a < 2 ^ 31 \<Longrightarrow> widen a < 2 ^ 63"
proof -
  assume a: "a < 2 ^ 31"
  let ?e = "a div 2 ^ 23" and ?m = "a mod 2 ^ 23"
  have e: "?e \<le> 255" using a by (simp add: div_le_mono less_mult_imp_div_less less_Suc_eq_le [symmetric])
  have m: "?m < 2 ^ 23" by simp
  consider "?e = 255" | "?e \<noteq> 255" "?e \<noteq> 0" | "?e = 0" "?m = 0" | "?e = 0" "?m > 0" by auto
  then show ?thesis
  proof cases
    case 1
    have "?m mod 2 ^ 22 < 2 ^ 22" by simp
    with 1 show ?thesis by (simp add: widen_def Let_def del: mod_mod_cancel)
  next
    case 2
    with e m show ?thesis by (simp add: widen_def Let_def)
  next
    case 3
    then show ?thesis by (simp add: widen_def Let_def)
  next
    case 4
    obtain k where k: "length (filter (\<lambda>i. 2 ^ i \<le> ?m) [1..<23]) = k" "2 ^ k \<le> ?m" "?m < 2 ^ Suc k" "k < 23"
      using leading_bit [OF 4(2) m] .
    have "(?m - 2 ^ k) * 2 ^ (52 - k) < 2 ^ k * 2 ^ (52 - k)" using k by simp
    also have "\<dots> = 2 ^ 52" using k(4) by (simp flip: power_add)
    finally have "(?m - 2 ^ k) * 2 ^ (52 - k) < 2 ^ 52" .
    then show ?thesis using 4 k by (simp add: widen_def Let_def)
  qed
qed

lemma float_fields:
  "(n::nat) div 2 ^ 23 mod 256 = n mod 2 ^ 31 div 2 ^ 23" "n mod 2 ^ 23 = n mod 2 ^ 31 mod 2 ^ 23"
proof -
  have "n mod 2 ^ 31 = 2 ^ 23 * (n div 2 ^ 23 mod 256) + n mod 2 ^ 23"
    using mod_mult2_eq [of n "2 ^ 23" 256] by simp
  then show "n div 2 ^ 23 mod 256 = n mod 2 ^ 31 div 2 ^ 23" by simp
  show "n mod 2 ^ 23 = n mod 2 ^ 31 mod 2 ^ 23" by (simp add: mod_mod_cancel)
qed

lemma unat_word_of_nat64: "x < 2 ^ 64 \<Longrightarrow> unat (word_of_nat x :: 64 word) = x"
  by (simp add: unat_of_nat take_bit_nat_eq_self)

lemma unat_float_to_double:
  "unat (float_to_double w) = (unat w div 2 ^ 31) * 2 ^ 63 + widen (unat w mod 2 ^ 31)"
proof -
  define n where "n = unat w"
  have n: "n < 2 ^ 32" unfolding n_def using unsigned_less [of w] by simp
  have s: "n div 2 ^ 31 < 2" using n by (simp add: less_mult_imp_div_less)
  have "float_to_double w = word_of_nat ((n div 2 ^ 31) * 2 ^ 63 + widen (n mod 2 ^ 31))"
    unfolding float_to_double_def n_def [symmetric] widen_def float_fields [symmetric]
    by (simp only: Let_def add.assoc split: if_split) simp
  moreover have "(n div 2 ^ 31) * 2 ^ 63 + widen (n mod 2 ^ 31) < 2 ^ 64"
    using widen_bound [of "n mod 2 ^ 31"] s by (cases "n div 2 ^ 31") auto
  ultimately show ?thesis unfolding n_def by (metis unat_word_of_nat64)
qed

lemma double_key_float_to_double:
  "double_key (float_to_double w) = (if unat w \<ge> 2 ^ 31 then - int (widen (unat w mod 2 ^ 31))
     else int (widen (unat w mod 2 ^ 31)))"
proof -
  have b: "widen (unat w mod 2 ^ 31) < 2 ^ 63" by (rule widen_bound) simp
  have "unat w < 2 ^ 32" using unsigned_less [of w] by simp
  then have s: "unat w div 2 ^ 31 = (if unat w \<ge> 2 ^ 31 then 1 else 0)"
    by (auto simp: div_nat_eqI)
  show ?thesis
  proof (cases "unat w \<ge> 2 ^ 31")
    case True
    then have s1: "unat w div 2 ^ 31 = 1" using s by simp
    show ?thesis using b True unfolding double_key_def unat_float_to_double s1 by simp
  next
    case False
    then show ?thesis using b unfolding double_key_def unat_float_to_double s by simp
  qed
qed

lemma widen_normal:
  assumes "2 ^ 23 \<le> a" "a < 255 * 2 ^ 23"
  shows "widen a = a * 2 ^ 29 + 896 * 2 ^ 52"
proof -
  have "a div 2 ^ 23 \<noteq> 255" using assms(2) by (metis less_irrefl less_mult_imp_div_less)
  moreover have "a div 2 ^ 23 \<noteq> 0" using assms(1) by (simp add: div_eq_0_iff)
  moreover have "a * 2 ^ 29 = (a div 2 ^ 23) * 2 ^ 52 + (a mod 2 ^ 23) * 2 ^ 29"
  proof -
    have "(q * 2 ^ 23 + r) * 2 ^ 29 = q * 2 ^ 52 + r * (2 ^ 29 :: nat)" for q r by (simp add: algebra_simps)
    from this [of "a div 2 ^ 23" "a mod 2 ^ 23"] show ?thesis by (simp only: div_mult_mod_eq)
  qed
  ultimately show ?thesis by (simp add: widen_def Let_def algebra_simps)
qed

lemma widen_subnormal:
  assumes "0 < a" "a < 2 ^ 23"
  obtains k where "k < 23" "2 ^ k \<le> a" "a < 2 ^ Suc k" "widen a = (k + 874) * 2 ^ 52 + (a - 2 ^ k) * 2 ^ (52 - k)"
    "(a - 2 ^ k) * 2 ^ (52 - k) < 2 ^ 52"
proof -
  obtain k where k: "length (filter (\<lambda>i. 2 ^ i \<le> a) [1..<23]) = k" "2 ^ k \<le> a" "a < 2 ^ Suc k" "k < 23"
    using leading_bit [OF assms] .
  have "(a - 2 ^ k) * 2 ^ (52 - k) < 2 ^ k * 2 ^ (52 - k)" using k by simp
  also have "\<dots> = 2 ^ 52" using k(4) by (simp flip: power_add)
  finally show thesis using that [of k] k assms by (simp add: widen_def Let_def)
qed

lemma widen_infinity: "widen (255 * 2 ^ 23) = 2047 * 2 ^ 52"
  by (simp add: widen_def Let_def)

lemma widen_0: "widen 0 = 0"
  by (simp add: widen_def Let_def)

lemma widen_less_normal: "a < 2 ^ 23 \<Longrightarrow> widen a < 897 * 2 ^ 52"
proof (cases "a = 0")
  case False
  moreover assume "a < 2 ^ 23"
  ultimately obtain k where "k < 23" "widen a = (k + 874) * 2 ^ 52 + (a - 2 ^ k) * 2 ^ (52 - k)"
    "(a - 2 ^ k) * 2 ^ (52 - k) < 2 ^ 52" using widen_subnormal [of a] by blast
  then show ?thesis by simp
qed (simp add: widen_0)

lemma widen_mono_subnormal:
  assumes "a < b" "b < 2 ^ 23"
  shows "widen a < widen b"
proof -
  obtain j where j: "j < 23" "2 ^ j \<le> b" "b < 2 ^ Suc j" "widen b = (j + 874) * 2 ^ 52 + (b - 2 ^ j) * 2 ^ (52 - j)"
    using widen_subnormal [of b] assms by auto
  show ?thesis
  proof (cases "a = 0")
    case True
    then show ?thesis using j(4) by (simp add: widen_0)
  next
    case False
    then obtain k where k: "k < 23" "2 ^ k \<le> a" "a < 2 ^ Suc k" "widen a = (k + 874) * 2 ^ 52 + (a - 2 ^ k) * 2 ^ (52 - k)"
      "(a - 2 ^ k) * 2 ^ (52 - k) < 2 ^ 52"
      using widen_subnormal [of a] assms by auto
    show ?thesis
    proof (cases "k < j")
      case True
      then have "(k + 874) * 2 ^ 52 + 2 ^ 52 \<le> (j + 874) * (2 ^ 52 :: nat)" by simp
      with k(4,5) j(4) show ?thesis by linarith
    next
      case False
      have "(2::nat) ^ k < 2 ^ Suc j" using k(2) assms(1) j(3) by linarith
      then have "k < Suc j" using power_less_imp_less_exp [of "2::nat" k "Suc j"] by simp
      with False have "k = j" by simp
      moreover have "(a - 2 ^ k) * 2 ^ (52 - k) < (b - 2 ^ k) * 2 ^ (52 - k)"
        using assms(1) k(2) by (simp add: diff_less_mono)
      ultimately show ?thesis using k(4) j(4) by simp
    qed
  qed
qed

lemma widen_mono:
  assumes "a \<le> b" "b \<le> 255 * 2 ^ 23"
  shows "widen a \<le> widen b"
proof -
  consider "a = b" | "a < b" "b < 2 ^ 23" | "a < 2 ^ 23" "2 ^ 23 \<le> b" "b < 255 * 2 ^ 23"
    | "2 ^ 23 \<le> a" "b < 255 * 2 ^ 23" | "a < 255 * 2 ^ 23" "b = 255 * 2 ^ 23"
    using assms by linarith
  then show ?thesis
  proof cases
    case 2
    then show ?thesis using widen_mono_subnormal by (simp add: less_imp_le)
  next
    case 3
    then show ?thesis using widen_less_normal [of a] widen_normal [of b] by simp
  next
    case 4
    then show ?thesis using assms(1) widen_normal [of a] widen_normal [of b] by simp
  next
    case 5
    then have "widen a < 2047 * 2 ^ 52"
      using widen_less_normal [of a] widen_normal [of a] by (cases "a < 2 ^ 23") auto
    then show ?thesis using 5 widen_infinity by simp
  qed simp
qed

lemma signed_widen_mono:
  assumes "x \<le> 255 * 2 ^ 23" "y \<le> 255 * 2 ^ 23"
    "(if s then - int x else int x) \<le> (if t then - int y else int y)"
  shows "(if s then - int (widen x) else int (widen x)) \<le> (if t then - int (widen y) else int (widen y))"
proof (cases "\<not> s \<and> t")
  case True
  then have "x = 0" "y = 0" using assms(3) by auto
  then show ?thesis by (simp add: widen_0)
qed (use assms widen_mono [of x y] widen_mono [of y x] in auto)

text \<open>The conversion keeps the order and turns numbers into numbers.\<close>

lemma float_to_double_mono:
  assumes "\<not> float_nan a" "\<not> float_nan b" "float_key a \<le> float_key b"
  shows "double_key (float_to_double a) \<le> double_key (float_to_double b)"
proof -
  let ?a = "unat a mod 2 ^ 31" and ?b = "unat b mod 2 ^ 31"
  have ab: "?a \<le> 255 * 2 ^ 23" "?b \<le> 255 * 2 ^ 23"
    using assms(1,2) by (simp_all add: float_nan_def not_less)
  then show ?thesis
    using assms(3) unfolding double_key_float_to_double float_key_def by (rule signed_widen_mono)
qed

lemma double_nan_float_to_double: "\<not> float_nan w \<Longrightarrow> \<not> double_nan (float_to_double w)"
proof -
  assume "\<not> float_nan w"
  then have "widen (unat w mod 2 ^ 31) \<le> 2047 * 2 ^ 52"
    using widen_mono [of "unat w mod 2 ^ 31" "255 * 2 ^ 23"] widen_infinity by (simp add: float_nan_def not_less)
  then show ?thesis
    using widen_bound [of "unat w mod 2 ^ 31"] by (simp add: double_nan_def unat_float_to_double)
qed

section \<open>Conversion back\<close>

definition round_shift :: "nat \<Rightarrow> nat \<Rightarrow> nat" where
  "round_shift mant d = (let q = mant div 2 ^ d; r = mant mod 2 ^ d in
     if r > 2 ^ (d - 1) \<or> (r = 2 ^ (d - 1) \<and> odd q) then q + 1 else q)"

definition narrow :: "nat \<Rightarrow> nat" where
  "narrow b =
     (let e = b div 2 ^ 52; m = b mod 2 ^ 52 in
      if e = 2047 then 255 * 2 ^ 23 + (if m = 0 then 0 else m div 2 ^ 29 mod 2 ^ 22 + 2 ^ 22)
      else min ((if e \<ge> 897 then e - 897 else 0) * 2 ^ 23 +
        round_shift (if e = 0 then m else m + 2 ^ 52) (if e \<ge> 897 then 29 else 926 - max e 1)) (255 * 2 ^ 23))"

lemma double_fields:
  "(n::nat) div 2 ^ 52 mod 2048 = n mod 2 ^ 63 div 2 ^ 52" "n mod 2 ^ 52 = n mod 2 ^ 63 mod 2 ^ 52"
proof -
  have "n mod 2 ^ 63 = 2 ^ 52 * (n div 2 ^ 52 mod 2048) + n mod 2 ^ 52"
    using mod_mult2_eq [of n "2 ^ 52" 2048] by simp
  then show "n div 2 ^ 52 mod 2048 = n mod 2 ^ 63 div 2 ^ 52" by simp
  show "n mod 2 ^ 52 = n mod 2 ^ 63 mod 2 ^ 52" by (simp add: mod_mod_cancel)
qed

lemma double_to_float_narrow:
  "double_to_float w = word_of_nat ((unat w div 2 ^ 63) * 2 ^ 31 + narrow (unat w mod 2 ^ 63))"
proof (cases "unat w div 2 ^ 52 mod 2048 = 2047")
  case True
  then show ?thesis
    unfolding double_to_float_def narrow_def double_fields [symmetric] by (simp only: Let_def add.assoc simp_thms if_True)
next
  case False
  then show ?thesis
    unfolding double_to_float_def narrow_def double_fields [symmetric] round_shift_def
    by (simp only: Let_def if_False)
qed

lemma div_mod_pack: "y < c \<Longrightarrow> (x * c + y) div c = x" "y < c \<Longrightarrow> (x * c + y) mod c = (y::nat)"
  by simp_all

lemma exponent_carry: "1 \<le> e \<Longrightarrow> (e + 896 - 897) * c + (m + c) = e * c + (m::nat)"
  by (cases e) auto

lemma round_shift_exact: "0 < d \<Longrightarrow> round_shift (q * 2 ^ d) d = q"
  by (simp add: round_shift_def)

lemma narrow_widen:
  assumes "a \<le> 255 * 2 ^ 23"
  shows "narrow (widen a) = a"
proof -
  consider "a = 0" | "0 < a" "a < 2 ^ 23" | "2 ^ 23 \<le> a" "a < 255 * 2 ^ 23" | "a = 255 * 2 ^ 23"
    using assms by linarith
  then show ?thesis
  proof cases
    case 1
    then show ?thesis using round_shift_exact [of 925 0] by (simp add: widen_0 narrow_def)
  next
    case 2
    then obtain k where k: "k < 23" "2 ^ k \<le> a" "widen a = (k + 874) * 2 ^ 52 + (a - 2 ^ k) * 2 ^ (52 - k)"
      "(a - 2 ^ k) * 2 ^ (52 - k) < 2 ^ 52" using widen_subnormal [of a] by blast
    have e: "widen a div 2 ^ 52 = k + 874" "widen a mod 2 ^ 52 = (a - 2 ^ k) * 2 ^ (52 - k)"
      unfolding k(3) by (rule div_mod_pack [OF k(4)])+
    have p: "(2::nat) ^ 52 = 2 ^ k * 2 ^ (52 - k)" using k(1) by (simp flip: power_add)
    have m: "(a - 2 ^ k) * 2 ^ (52 - k) + 2 ^ 52 = a * 2 ^ (52 - k)"
      unfolding p using k(2) by (simp flip: add_mult_distrib)
    show ?thesis
      using k(1) 2 round_shift_exact [of "52 - k" a]
      unfolding narrow_def Let_def e by (simp add: m del: power_numeral)
  next
    case 3
    let ?e = "a div 2 ^ 23" and ?m = "a mod 2 ^ 23"
    have e1: "1 \<le> ?e" "?e < 255" "?e * 2 ^ 23 + ?m = a"
      using 3 by (simp_all add: div_greater_zero_iff Suc_le_eq less_mult_imp_div_less)
    have w: "widen a = (?e + 896) * 2 ^ 52 + ?m * 2 ^ 29"
      using e1 by (simp add: widen_def Let_def)
    have m: "?m * 2 ^ 29 < 2 ^ 52" using mod_less_divisor [of "2 ^ 23" a] by simp
    have e: "widen a div 2 ^ 52 = ?e + 896" "widen a mod 2 ^ 52 = ?m * 2 ^ 29"
      unfolding w by (rule div_mod_pack [OF m])+
    have "?m * 2 ^ 29 + 2 ^ 52 = (?m + 2 ^ 23) * 2 ^ 29" by simp
    then have "round_shift (?m * 2 ^ 29 + 2 ^ 52) 29 = ?m + 2 ^ 23"
      using round_shift_exact [of 29 "?m + 2 ^ 23"] by (simp only: zero_less_numeral simp_thms)
    moreover have "(?e + 896 - 897) * 2 ^ 23 + (?m + 2 ^ 23) = a"
      using exponent_carry [OF e1(1), of "2 ^ 23" ?m] e1(3) by (simp only:)
    ultimately show ?thesis
      using e1 3 unfolding narrow_def Let_def e by simp
  next
    case 4
    then show ?thesis by (simp only: widen_infinity) (simp add: narrow_def)
  qed
qed

text \<open>A number converted to \<open>double\<close> and back is unchanged.\<close>

lemma double_to_float_to_double:
  assumes "\<not> float_nan w"
  shows "double_to_float (float_to_double w) = w"
proof -
  let ?a = "unat w mod 2 ^ 31" and ?s = "unat w div 2 ^ 31"
  have a: "?a \<le> 255 * 2 ^ 23" using assms by (simp add: float_nan_def not_less)
  have w: "widen ?a < 2 ^ 63" by (rule widen_bound) simp
  have "unat (float_to_double w) div 2 ^ 63 = ?s" "unat (float_to_double w) mod 2 ^ 63 = widen ?a"
    unfolding unat_float_to_double by (rule div_mod_pack [OF w])+
  then have "double_to_float (float_to_double w) = word_of_nat (?s * 2 ^ 31 + ?a)"
    unfolding double_to_float_narrow by (simp only: narrow_widen [OF a])
  also have "?s * 2 ^ 31 + ?a = unat w" by (rule div_mult_mod_eq)
  finally show ?thesis by simp
qed

lemma in_float_range_not_nan: "in_float_range (float_to_double w) \<Longrightarrow> \<not> float_nan w"
proof (rule ccontr)
  assume r: "in_float_range (float_to_double w)" and "\<not> \<not> float_nan w"
  then have n: "unat w mod 2 ^ 31 > 255 * 2 ^ 23" by (simp add: float_nan_def)
  let ?a = "unat w mod 2 ^ 31"
  have "?a div 2 ^ 23 = 255"
  proof (rule div_nat_eqI)
    show "?a < 2 ^ 23 * Suc 255" using mod_less_divisor [of "2 ^ 31" "unat w"] by simp
  qed (use n in simp)
  then have "widen ?a \<ge> 2047 * 2 ^ 52" by (simp add: widen_def Let_def)
  moreover have "widen ?a < 2 ^ 63" by (rule widen_bound) simp
  then have "unat (float_to_double w) mod 2 ^ 63 = widen ?a"
    unfolding unat_float_to_double by (rule div_mod_pack)
  ultimately show False using r unfolding in_float_range_def by simp
qed

end
