(* ===== verification/Filter_Roundtrip.thy ===== *)
theory Filter_Roundtrip
  imports Filter_Serializer Float_Order
begin

text \<open>
  A filter expression that is printed and parsed comes back unchanged: the round trip of
  each class of node, then of the text.
\<close>

section \<open>Values\<close>

text \<open>The values with a faithful JSON form: strings without a zero byte, and floats that
  \<open>IsFloat\<close> accepts.\<close>

fun physical_text_ok :: "physical \<Rightarrow> bool" where
  "physical_text_ok (P_float f) = in_float_range (float_to_double f)"
| "physical_text_ok (P_numeric s) = no_nul s"
| "physical_text_ok (P_string s) = no_nul s"
| "physical_text_ok _ = True"

definition nullable_text_ok :: "physical option \<Rightarrow> bool" where
  "nullable_text_ok v = (case v of None \<Rightarrow> True | Some p \<Rightarrow> physical_text_ok p)"

primrec node_text_ok :: "Node \<Rightarrow> bool" where
  "node_text_ok (VariableNode vt name) = no_nul name"
| "node_text_ok (ConstNode v) = nullable_text_ok (GetHolder v)"
| "node_text_ok (IfNode c t e) = (node_text_ok c \<and> node_text_ok t \<and> node_text_ok e)"
| "node_text_ok (LogicalNode op args) = list_all id (map node_text_ok args)"
| "node_text_ok (FunctionNode sig args) = list_all id (map node_text_ok args)"
| "node_text_ok (ScalarOverArrayFunctionNode sig use_or lhs array) =
     (list_all nullable_text_ok (array_GetValue array) \<and> node_text_ok lhs)"

lemma Extract_object_member [simp]:
  "Extract f (J_object ms) name = (case map_of ms name of
     None \<Rightarrow> Inl (Runtime_error ''ExtractPrimitive: !document.HasMember()'') | Some v \<Rightarrow> f v)"
  by (simp add: Extract_def member_or_fail_def split: option.splits)

lemma IsObject_object [simp]: "IsObject (J_object ms)"
  by (simp add: IsObject_def)

lemma Deserialize_physical_roundtrip:
  assumes "PhysicalType vt p" "physical_text_ok p"
  shows "Deserialize_physical vt (Serialize_physical p) = Inr p"
  using assms
  by (cases vt; cases p)
    (auto simp: Serialize_string_def Deserialize_int16_def Deserialize_IntervalMonthMicro_def
      double_to_float_to_double in_float_range_not_nan int16_def int32_def to_int16_def)

lemma Serialize_physical_not_null: "Serialize_physical p \<noteq> J_null"
  by (cases p) (simp_all add: Serialize_string_def)

lemma Deserialize_optional_roundtrip:
  assumes "nullable_ok vt v" "nullable_text_ok v"
  shows "Deserialize_optional vt (Serialize_optional v) = Inr v"
proof (cases v)
  case (Some p)
  then have "Deserialize_physical vt (Serialize_physical p) = Inr p"
    using assms Deserialize_physical_roundtrip by (simp add: nullable_text_ok_def)
  then show ?thesis
    using Some Serialize_physical_not_null [of p] by (cases "Serialize_physical p") simp_all
qed simp

lemma mapE_map_roundtrip:
  "(\<And>x. x \<in> set xs \<Longrightarrow> g (f x) = Inr x) \<Longrightarrow> mapE g (map f xs) = Inr xs"
  by (induction xs) auto

lemma valuetype_json:
  obtains s where "Serialize_name valuetype_string vt = Inr (J_string s)" "StringToValueType s = Inr vt" "c_str s = s"
  using valuetype_named [of vt] name_roundtrip [OF valuetype_bijection]
  by (auto simp: Serialize_name_def Serialize_string_def)

lemma functionid_json:
  obtains s where "Serialize_name functionid_string f = Inr (J_string s)" "StringToFunctionID s = Inr f"
  using functionid_named [of f] name_roundtrip [OF functionid_bijection]
  by (auto simp: Serialize_name_def Serialize_string_def)

lemma logicalop_json:
  obtains s where "Serialize_name logicalop_string op = Inr (J_string s)" "StringToLogicalOperation s = Inr op"
  using logicalop_named [of op] name_roundtrip [OF logicalop_bijection]
  by (auto simp: Serialize_name_def Serialize_string_def)

lemma Value_roundtrip:
  assumes "value_ok v" "nullable_text_ok (GetHolder v)"
  obtains j where "Serialize_Value v = Inr j" "Deserialize_Value j = Inr v"
proof -
  obtain s where s: "Serialize_name valuetype_string (GetValueType v) = Inr (J_string s)"
    "StringToValueType s = Inr (GetValueType v)" using valuetype_json by metis
  then show thesis
    using that assms
    by (simp add: Serialize_Value_def Deserialize_Value_def Deserialize_optional_roundtrip value_ok_def)
qed

lemma ArrayHolder_roundtrip:
  assumes "array_ok a" "list_all nullable_text_ok (array_GetValue a)"
  obtains j where "Serialize_ArrayHolder a = Inr j" "Deserialize_ArrayHolder j = Inr a"
proof -
  obtain s where s: "Serialize_name valuetype_string (array_GetValueType a) = Inr (J_string s)"
    "StringToValueType s = Inr (array_GetValueType a)" using valuetype_json by metis
  have "mapE (Deserialize_optional (array_GetValueType a)) (map Serialize_optional (array_GetValue a)) =
      Inr (array_GetValue a)"
    using assms by (intro mapE_map_roundtrip Deserialize_optional_roundtrip) (auto simp: array_ok_def list_all_iff)
  then show thesis using that s by (simp add: Serialize_ArrayHolder_def Deserialize_ArrayHolder_def)
qed

lemma argument_types_roundtrip:
  obtains js where "mapE (Serialize_name valuetype_string) ts = Inr js" "mapE Deserialize_ValueType js = Inr ts"
proof (induction ts arbitrary: thesis)
  case (Cons t ts)
  obtain js where js: "mapE (Serialize_name valuetype_string) ts = Inr js" "mapE Deserialize_ValueType js = Inr ts"
    by (rule Cons.IH)
  obtain s where "Serialize_name valuetype_string t = Inr (J_string s)" "StringToValueType s = Inr t" "c_str s = s"
    using valuetype_json by metis
  then show ?case using Cons.prems [of "J_string s # js"] js by simp
qed simp

lemma FunctionSignature_roundtrip:
  obtains j where "Serialize_FunctionSignature sig = Inr j" "Deserialize_FunctionSignature j = Inr sig"
proof -
  obtain ts where "mapE (Serialize_name valuetype_string) (argument_types sig) = Inr ts"
    "mapE Deserialize_ValueType ts = Inr (argument_types sig)" by (rule argument_types_roundtrip)
  moreover obtain s where "Serialize_name valuetype_string (return_type sig) = Inr (J_string s)"
    "StringToValueType s = Inr (return_type sig)" using valuetype_json by metis
  moreover obtain f where "Serialize_name functionid_string (function_id sig) = Inr (J_string f)"
    "StringToFunctionID f = Inr (function_id sig)" using functionid_json by metis
  ultimately show thesis
    using that by (simp add: Serialize_FunctionSignature_def Deserialize_FunctionSignature_def)
qed

section \<open>Expressions\<close>

lemma node_object_type:
  obtains s where "node_object nt = (\<lambda>ms. Inr (J_object ((''node-type'', J_string s) # ms)))"
    "StringToNodeType s = Inr nt"
proof -
  have "\<exists>s. ElementToStringView nodetype_string nt = Inr s \<and> no_nul s"
    by (cases nt) (simp_all add: nodetype_string_def no_nul_def)
  then show thesis
    using that name_roundtrip [OF nodetype_bijection]
    by (auto simp: fun_eq_iff node_object_def Serialize_name_def Serialize_string_def)
qed

lemma nodes_roundtrip:
  assumes "\<And>n. n \<in> set ns \<Longrightarrow> \<exists>j. Serialize n = Inr j \<and> Deserialize_NodePtr j = Inr n"
  obtains js where "mapE Serialize ns = Inr js" "mapE Deserialize_NodePtr js = Inr ns"
  using assms
proof (induction ns arbitrary: thesis)
  case (Cons n ns)
  obtain js where js: "mapE Serialize ns = Inr js" "mapE Deserialize_NodePtr js = Inr ns"
    using Cons.IH Cons.prems(2) by (metis list.set_intros(2))
  obtain j where "Serialize n = Inr j" "Deserialize_NodePtr j = Inr n" using Cons.prems(2) [of n] by auto
  then show ?case using Cons.prems(1) [of "j # js"] js by simp
qed simp

lemma Node_roundtrip:
  "node_ok n \<Longrightarrow> node_text_ok n \<Longrightarrow> \<exists>j. Serialize n = Inr j \<and> Deserialize_NodePtr j = Inr n"
proof (induction n)
  case (VariableNode vt name)
  obtain t where "Serialize_name valuetype_string vt = Inr (J_string t)" "StringToValueType t = Inr vt"
    using valuetype_json by metis
  moreover obtain s where "node_object NT_Variable = (\<lambda>ms. Inr (J_object ((''node-type'', J_string s) # ms)))"
    "StringToNodeType s = Inr NT_Variable" by (rule node_object_type [of NT_Variable])
  ultimately show ?case
    using VariableNode by (simp add: Deserialize_NodePtr.simps Deserialize_VariableNode_def Serialize_string_def)
next
  case (ConstNode v)
  obtain j where "Serialize_Value v = Inr j" "Deserialize_Value j = Inr v"
    using Value_roundtrip ConstNode by auto
  moreover obtain s where "node_object NT_Const = (\<lambda>ms. Inr (J_object ((''node-type'', J_string s) # ms)))"
    "StringToNodeType s = Inr NT_Const" by (rule node_object_type [of NT_Const])
  ultimately show ?case by (simp add: Deserialize_NodePtr.simps Deserialize_ConstNode_def)
next
  case (IfNode c t e)
  then obtain jc jt je where "Serialize c = Inr jc" "Deserialize_NodePtr jc = Inr c"
    "Serialize t = Inr jt" "Deserialize_NodePtr jt = Inr t" "Serialize e = Inr je" "Deserialize_NodePtr je = Inr e"
    by auto
  moreover obtain s where "node_object NT_If = (\<lambda>ms. Inr (J_object ((''node-type'', J_string s) # ms)))"
    "StringToNodeType s = Inr NT_If" by (rule node_object_type [of NT_If])
  ultimately show ?case
    by (simp add: Deserialize_NodePtr.simps [of "J_object _"] Deserialize_IfNode.simps)
next
  case (LogicalNode op args)
  obtain js where "mapE Serialize args = Inr js" "mapE Deserialize_NodePtr js = Inr args"
    by (rule nodes_roundtrip [of args]) (use LogicalNode in \<open>auto simp: list_all_iff\<close>)
  moreover obtain o' where "Serialize_name logicalop_string op = Inr (J_string o')"
    "StringToLogicalOperation o' = Inr op" using logicalop_json by metis
  moreover obtain s where "node_object NT_Logical = (\<lambda>ms. Inr (J_object ((''node-type'', J_string s) # ms)))"
    "StringToNodeType s = Inr NT_Logical" by (rule node_object_type [of NT_Logical])
  ultimately show ?case
    using LogicalNode.prems
    by (simp add: Deserialize_NodePtr.simps [of "J_object _"] Deserialize_LogicalNode.simps mk_LogicalNode_def)
next
  case (FunctionNode sig args)
  obtain js where "mapE Serialize args = Inr js" "mapE Deserialize_NodePtr js = Inr args"
    by (rule nodes_roundtrip [of args]) (use FunctionNode in \<open>auto simp: list_all_iff\<close>)
  moreover obtain j where "Serialize_FunctionSignature sig = Inr j" "Deserialize_FunctionSignature j = Inr sig"
    by (rule FunctionSignature_roundtrip)
  moreover obtain s where "node_object NT_Function = (\<lambda>ms. Inr (J_object ((''node-type'', J_string s) # ms)))"
    "StringToNodeType s = Inr NT_Function" by (rule node_object_type [of NT_Function])
  ultimately show ?case
    using FunctionNode.prems
    by (simp add: Deserialize_NodePtr.simps [of "J_object _"] Deserialize_FunctionNode.simps mk_FunctionNode_def)
next
  case (ScalarOverArrayFunctionNode sig use_or lhs array)
  then obtain jl where "Serialize lhs = Inr jl" "Deserialize_NodePtr jl = Inr lhs" by auto
  moreover obtain ja where "Serialize_ArrayHolder array = Inr ja" "Deserialize_ArrayHolder ja = Inr array"
    using ArrayHolder_roundtrip ScalarOverArrayFunctionNode.prems by auto
  moreover obtain j where "Serialize_FunctionSignature sig = Inr j" "Deserialize_FunctionSignature j = Inr sig"
    by (rule FunctionSignature_roundtrip)
  moreover obtain s where
    "node_object NT_ScalarOverArrayFunction = (\<lambda>ms. Inr (J_object ((''node-type'', J_string s) # ms)))"
    "StringToNodeType s = Inr NT_ScalarOverArrayFunction" by (rule node_object_type [of NT_ScalarOverArrayFunction])
  ultimately show ?case
    using ScalarOverArrayFunctionNode.prems
    by (simp add: Deserialize_NodePtr.simps [of "J_object _"] Deserialize_ScalarOverArrayFunctionNode.simps
        mk_ScalarOverArrayFunctionNode_def)
qed

section \<open>Text\<close>

text \<open>
  C7. A filter expression whose strings hold no zero byte and whose floats \<open>IsFloat\<close>
  accepts is restored by \<open>StringToFilter\<close> from the text that \<open>FilterToString\<close> gives for it:
  every class of node, with its signature, its constants and its arguments in order.  The
  hypotheses on rapidjson are that its parser reads what its printer wrote for the
  document at hand and that it refuses the empty text.
\<close>

theorem filter_roundtrip:
  assumes "node_ok n" "node_text_ok n"
    and "\<forall>j. Serialize n = Inr j \<longrightarrow> parse (c_str (print j)) = Some j"
    and "parse [] = None"
  shows "\<exists>str. FilterToString print (Some n) = Inr str \<and> StringToFilter parse str = Inr (Some n)"
proof -
  obtain j where j: "Serialize n = Inr j" "Deserialize_NodePtr j = Inr n"
    using Node_roundtrip [OF assms(1,2)] by blast
  then have "parse (c_str (print j)) = Some j" using assms(3) by simp
  moreover from this have "c_str (print j) \<noteq> []" using assms(4) by auto
  ultimately show ?thesis using j by (simp add: FilterToString_def StringToFilter_def)
qed

section \<open>What is read is well-typed\<close>

lemma to_int16_range: "int16 (to_int16 n)"
  using pos_mod_bound [of "2 ^ 16" "n + 2 ^ 15"] pos_mod_sign [of "2 ^ 16" "n + 2 ^ 15"]
  by (simp add: int16_def to_int16_def)

lemma Deserialize_primitive_range:
  "Deserialize_int32 j = Inr n \<Longrightarrow> int32 n" "Deserialize_int64 j = Inr n \<Longrightarrow> int64 n"
  by (cases j; simp add: wrong_type_def split: if_splits)+

lemma Extract_Inr: "Extract f d name = Inr x \<Longrightarrow> \<exists>v. member_or_fail d name = Inr v \<and> f v = Inr x"
  by (auto simp: Extract_def bindE_eq_Inr_iff)

lemma Deserialize_physical_typed:
  "Deserialize_physical vt j = Inr p \<Longrightarrow> PhysicalType vt p"
  by (cases vt)
    (auto simp: bindE_eq_Inr_iff Deserialize_int16_def to_int16_range Deserialize_IntervalMonthMicro_def wrong_type_def
      dest!: Deserialize_primitive_range Extract_Inr split: if_splits)

lemma Deserialize_optional_typed: "Deserialize_optional vt j = Inr v \<Longrightarrow> nullable_ok vt v"
  by (cases j) (auto simp: bindE_eq_Inr_iff dest: Deserialize_physical_typed)

lemma Deserialize_Value_typed: "Deserialize_Value j = Inr v \<Longrightarrow> value_ok v"
  by (auto simp: Deserialize_Value_def bindE_eq_Inr_iff value_ok_def wrong_type_def split: if_splits
      dest!: Extract_Inr dest: Deserialize_optional_typed)

lemma Deserialize_vector_Inr:
  "Deserialize_vector f j = Inr xs \<Longrightarrow> \<exists>js. j = J_array js \<and> list_all2 (\<lambda>j x. f j = Inr x) js xs"
  by (cases j) (auto simp: mapE_eq_Inr_iff wrong_type_def)

lemma Deserialize_ArrayHolder_typed: "Deserialize_ArrayHolder j = Inr a \<Longrightarrow> array_ok a"
  by (auto simp: Deserialize_ArrayHolder_def bindE_eq_Inr_iff array_ok_def wrong_type_def list_all_iff
      list_all2_conv_all_nth in_set_conv_nth split: if_splits
      dest!: Extract_Inr Deserialize_vector_Inr) (metis Deserialize_optional_typed)

lemma Deserialize_nodes_typed:
  assumes "Extract (Deserialize_vector Deserialize_NodePtr) d name = Inr ns"
    and IH: "\<And>j n. size j < size d \<Longrightarrow> Deserialize_NodePtr j = Inr n \<Longrightarrow> node_ok n"
  shows "list_all node_ok ns"
proof -
  from assms(1) obtain js where js: "member_or_fail d name = Inr (J_array js)"
    "list_all2 (\<lambda>j x. Deserialize_NodePtr j = Inr x) js ns"
    by (auto dest!: Extract_Inr Deserialize_vector_Inr)
  have size: "j \<in> set js \<Longrightarrow> size j < size d" for j
    using size_list_estimation' [of j js "size j" size] member_or_fail_size [OF js(1)] by simp
  have "node_ok (ns ! i)" if i: "i < length ns" for i
    using js(2) i by (intro IH [of "js ! i"] size) (auto simp: list_all2_conv_all_nth)
  then show ?thesis by (simp add: list_all_length)
qed

lemma Extract_node_typed:
  assumes "Extract Deserialize_NodePtr d name = Inr n"
    and "\<And>j n. size j < size d \<Longrightarrow> Deserialize_NodePtr j = Inr n \<Longrightarrow> node_ok n"
  shows "node_ok n"
  using assms by (auto dest!: Extract_Inr dest: member_or_fail_size)

lemma Deserialize_NodePtr_typed: "Deserialize_NodePtr j = Inr n \<Longrightarrow> node_ok n"
proof (induction "size j" arbitrary: j n rule: less_induct)
  case less
  have IH: "\<And>j' n'. size j' < size j \<Longrightarrow> Deserialize_NodePtr j' = Inr n' \<Longrightarrow> node_ok n'"
    using less.hyps by blast
  note nodes = Deserialize_nodes_typed [where d = j, OF _ IH] and node = Extract_node_typed [where d = j, OF _ IH]
  from less.prems obtain nt where "(case nt of NT_Const \<Rightarrow> Deserialize_ConstNode j
     | NT_ScalarOverArrayFunction \<Rightarrow> Deserialize_ScalarOverArrayFunctionNode j
     | NT_Variable \<Rightarrow> Deserialize_VariableNode j | NT_If \<Rightarrow> Deserialize_IfNode j
     | NT_Function \<Rightarrow> Deserialize_FunctionNode j | NT_Logical \<Rightarrow> Deserialize_LogicalNode j) = Inr n"
    unfolding Deserialize_NodePtr.simps [of j] by (auto simp: bindE_eq_Inr_iff)
  then consider "Deserialize_ConstNode j = Inr n" | "Deserialize_ScalarOverArrayFunctionNode j = Inr n"
    | "Deserialize_VariableNode j = Inr n" | "Deserialize_IfNode j = Inr n" | "Deserialize_FunctionNode j = Inr n"
    | "Deserialize_LogicalNode j = Inr n"
    by (cases nt) auto
  then show ?case
  proof cases
    case 1
    then show ?thesis
      by (auto simp: Deserialize_ConstNode_def bindE_eq_Inr_iff wrong_type_def split: if_splits
          dest!: Extract_Inr Deserialize_Value_typed)
  next
    case 2
    then show ?thesis
      by (auto simp: Deserialize_ScalarOverArrayFunctionNode.simps bindE_eq_Inr_iff wrong_type_def
          mk_ScalarOverArrayFunctionNode_def split: if_splits dest: node dest!: Extract_Inr [of Deserialize_ArrayHolder]
          Deserialize_ArrayHolder_typed)
  next
    case 3
    then show ?thesis
      by (auto simp: Deserialize_VariableNode_def bindE_eq_Inr_iff wrong_type_def split: if_splits)
  next
    case 4
    then show ?thesis
      by (auto simp: Deserialize_IfNode.simps bindE_eq_Inr_iff wrong_type_def split: if_splits dest: node)
  next
    case 5
    then show ?thesis
      by (auto simp: Deserialize_FunctionNode.simps bindE_eq_Inr_iff wrong_type_def mk_FunctionNode_def list_all_iff
          split: if_splits dest: nodes)
  next
    case 6
    then show ?thesis
      by (auto simp: Deserialize_LogicalNode.simps bindE_eq_Inr_iff wrong_type_def mk_LogicalNode_def list_all_iff
          split: if_splits dest: nodes)
  qed
qed

text \<open>
  C12. Every expression that \<open>StringToFilter\<close> returns is well-formed, whatever the text: the
  constants and the elements of arrays are physical values of their declared type (small
  integers within 16 bits although the code does not check them), a negation has one
  argument, a function as many as its signature, an array at least one element.
\<close>

theorem StringToFilter_typed:
  assumes "StringToFilter parse row_filter = Inr (Some n)"
  shows "node_ok n"
  using assms
  by (auto simp: StringToFilter_def bindE_eq_Inr_iff split: if_splits intro: Deserialize_NodePtr_typed)

text \<open>Text that does not parse reaches a member access on a null document.\<close>

lemma StringToFilter_unparsable:
  assumes "parse row_filter = None" "row_filter \<noteq> []"
  shows "StringToFilter parse row_filter = Inl (Undefined ''IsObject()'')"
  using assms
  by (simp add: StringToFilter_def Deserialize_NodePtr.simps Extract_def member_or_fail_def)

section \<open>Witnesses\<close>

definition example_signature :: FunctionSignature where
  "example_signature = \<lparr>function_id = kLessThan, return_type = VT_Bool, argument_types = [VT_Int4, VT_Int2]\<rparr>"

definition example_filter :: Node where
  "example_filter = LogicalNode kAnd
     [FunctionNode example_signature [VariableNode VT_Int4 ''x'', ConstNode (Value VT_Int2 (Some (P_int (- 7))))],
      ScalarOverArrayFunctionNode example_signature True (VariableNode VT_String ''s'')
        (ArrayHolder VT_String [Some (P_string ''ab''), None])]"

definition example_filter_json :: json where
  "example_filter_json = (case Serialize example_filter of Inr j \<Rightarrow> j | Inl _ \<Rightarrow> J_null)"

definition example_filter_parse :: "string \<Rightarrow> json option" where
  "example_filter_parse s = (if s = ''text'' then Some example_filter_json else None)"

theorem filter_roundtrip_witness:
  "\<exists>str. FilterToString (\<lambda>_. ''text'') (Some example_filter) = Inr str \<and>
     StringToFilter example_filter_parse str = Inr (Some example_filter)"
proof (rule filter_roundtrip)
  show "node_ok example_filter" "node_text_ok example_filter" by code_simp+
  have "c_str ''text'' = ''text''" by (simp add: c_str_def)
  then show "\<forall>j. Serialize example_filter = Inr j \<longrightarrow> example_filter_parse (c_str ''text'') = Some j"
    by (simp add: example_filter_parse_def example_filter_json_def)
  show "example_filter_parse [] = None" by (simp add: example_filter_parse_def)
qed

theorem StringToFilter_typed_witness:
  "node_ok example_filter \<and> StringToFilter example_filter_parse ''text'' = Inr (Some example_filter)"
proof -
  have "node_ok example_filter" "node_text_ok example_filter" by code_simp+
  then obtain j where "Serialize example_filter = Inr j" "Deserialize_NodePtr j = Inr example_filter"
    using Node_roundtrip by blast
  then have "StringToFilter example_filter_parse ''text'' = Inr (Some example_filter)"
    by (simp add: StringToFilter_def example_filter_parse_def example_filter_json_def)
  then show ?thesis using StringToFilter_typed by blast
qed

end
