(* ===== verification/Stats_Filter.thy ===== *)
theory Stats_Filter
  imports Filter_Nodes Float_Order
begin

text \<open>
  The filter on statistics (\<open>filter/stats_filter\<close>): minimum and maximum of a column
  with the presence of null and non-null values (\<open>stats.h\<close>), the registry of functions
  on statistics (\<open>registry.cpp\<close>), and the visitor that evaluates an expression on the
  statistics of a group of rows and tells whether none, some or all of them match
  (\<open>stats_filter.cpp\<close>).
\<close>

section \<open>Statistics\<close>

datatype 'a MinMaxStats = MinMaxStats (mm_min: 'a) (mm_max: 'a)

definition kBoolStatsTrue :: "bool MinMaxStats" where
  "kBoolStatsTrue = MinMaxStats True True"

definition kBoolStatsFalse :: "bool MinMaxStats" where
  "kBoolStatsFalse = MinMaxStats False False"

definition kBoolStatsUnknown :: "bool MinMaxStats" where
  "kBoolStatsUnknown = MinMaxStats False True"

definition stats_or :: "bool MinMaxStats \<Rightarrow> bool MinMaxStats \<Rightarrow> bool MinMaxStats" where
  "stats_or lhs rhs =
     (if lhs = kBoolStatsTrue \<or> rhs = kBoolStatsTrue then kBoolStatsTrue
      else if lhs = kBoolStatsFalse \<and> rhs = kBoolStatsFalse then kBoolStatsFalse
      else kBoolStatsUnknown)"

definition stats_and :: "bool MinMaxStats \<Rightarrow> bool MinMaxStats \<Rightarrow> bool MinMaxStats" where
  "stats_and lhs rhs =
     (if lhs = kBoolStatsTrue \<and> rhs = kBoolStatsTrue then kBoolStatsTrue
      else if lhs = kBoolStatsFalse \<or> rhs = kBoolStatsFalse then kBoolStatsFalse
      else kBoolStatsUnknown)"

definition stats_not :: "bool MinMaxStats \<Rightarrow> bool MinMaxStats" where
  "stats_not arg = MinMaxStats (\<not> mm_max arg) (\<not> mm_min arg)"

record CountStats =
  contains_null :: bool
  contains_non_null :: bool

definition OneValueToStats :: "'a \<Rightarrow> 'a MinMaxStats" where
  "OneValueToStats value = MinMaxStats value value"

record GenericMinMaxStats =
  stats_type :: ValueType
  stats_value :: "physical MinMaxStats"

record GenericStats =
  gs_min_max :: GenericMinMaxStats
  gs_count :: CountStats

definition Make_min_max :: "ValueType \<Rightarrow> physical MinMaxStats \<Rightarrow> GenericMinMaxStats" where
  "Make_min_max vt value = \<lparr>stats_type = vt, stats_value = value\<rparr>"

text \<open>The constructor without counts assumes that both kinds of value may be there.\<close>

definition GenericStats_unknown_count :: "GenericMinMaxStats \<Rightarrow> GenericStats" where
  "GenericStats_unknown_count min_max =
     \<lparr>gs_min_max = min_max, gs_count = \<lparr>contains_null = True, contains_non_null = True\<rparr>\<rparr>"

definition Make_bool :: "bool MinMaxStats \<Rightarrow> GenericMinMaxStats" where
  "Make_bool b = Make_min_max VT_Bool (MinMaxStats (P_bool (mm_min b)) (P_bool (mm_max b)))"

fun physical_bool :: "physical \<Rightarrow> bool" where
  "physical_bool (P_bool b) = b"
| "physical_bool _ = False"

definition Get_bool :: "GenericMinMaxStats \<Rightarrow> bool MinMaxStats" where
  "Get_bool g = MinMaxStats (physical_bool (mm_min (stats_value g))) (physical_bool (mm_max (stats_value g)))"

section \<open>Comparisons\<close>

fun physical_less :: "physical \<Rightarrow> physical \<Rightarrow> bool" where
  "physical_less (P_bool a) (P_bool b) = (\<not> a \<and> b)"
| "physical_less (P_int a) (P_int b) = (a < b)"
| "physical_less (P_float a) (P_float b) = (\<not> float_nan a \<and> \<not> float_nan b \<and> float_key a < float_key b)"
| "physical_less (P_double a) (P_double b) = (\<not> double_nan a \<and> \<not> double_nan b \<and> double_key a < double_key b)"
| "physical_less (P_string a) (P_string b) = (a < b)"
| "physical_less _ _ = False"

fun physical_less_equal :: "physical \<Rightarrow> physical \<Rightarrow> bool" where
  "physical_less_equal (P_bool a) (P_bool b) = (a \<longrightarrow> b)"
| "physical_less_equal (P_int a) (P_int b) = (a \<le> b)"
| "physical_less_equal (P_float a) (P_float b) = (\<not> float_nan a \<and> \<not> float_nan b \<and> float_key a \<le> float_key b)"
| "physical_less_equal (P_double a) (P_double b) = (\<not> double_nan a \<and> \<not> double_nan b \<and> double_key a \<le> double_key b)"
| "physical_less_equal (P_string a) (P_string b) = (a \<le> b)"
| "physical_less_equal _ _ = False"

definition physical_greater :: "physical \<Rightarrow> physical \<Rightarrow> bool" where
  "physical_greater a b = physical_less b a"

definition physical_greater_equal :: "physical \<Rightarrow> physical \<Rightarrow> bool" where
  "physical_greater_equal a b = physical_less_equal b a"

definition EvaluateMonotoneComparison ::
  "('a \<Rightarrow> 'a \<Rightarrow> bool) \<Rightarrow> 'a MinMaxStats \<Rightarrow> 'a MinMaxStats \<Rightarrow> bool MinMaxStats" where
  "EvaluateMonotoneComparison cmp lhs rhs =
     (let results = [cmp val1 val2. val1 \<leftarrow> [mm_min lhs, mm_max lhs], val2 \<leftarrow> [mm_min rhs, mm_max rhs]];
          everything_true = (\<forall>r \<in> set results. r);
          everything_false = (\<forall>r \<in> set results. \<not> r) in
      if everything_false then kBoolStatsFalse
      else if everything_true then kBoolStatsTrue
      else kBoolStatsUnknown)"

definition EvaluateLess :: "physical MinMaxStats \<Rightarrow> physical MinMaxStats \<Rightarrow> bool MinMaxStats" where
  "EvaluateLess = EvaluateMonotoneComparison physical_less"

definition EvaluateGreater :: "physical MinMaxStats \<Rightarrow> physical MinMaxStats \<Rightarrow> bool MinMaxStats" where
  "EvaluateGreater = EvaluateMonotoneComparison physical_greater"

definition EvaluateLessThanOrEqualTo :: "physical MinMaxStats \<Rightarrow> physical MinMaxStats \<Rightarrow> bool MinMaxStats" where
  "EvaluateLessThanOrEqualTo = EvaluateMonotoneComparison physical_less_equal"

definition EvaluateGreaterThanOrEqualTo :: "physical MinMaxStats \<Rightarrow> physical MinMaxStats \<Rightarrow> bool MinMaxStats" where
  "EvaluateGreaterThanOrEqualTo = EvaluateMonotoneComparison physical_greater_equal"

definition EvaluateEqual :: "physical MinMaxStats \<Rightarrow> physical MinMaxStats \<Rightarrow> bool MinMaxStats" where
  "EvaluateEqual lhs rhs =
     (let res_lteq = EvaluateMonotoneComparison physical_less_equal lhs rhs;
          res_gteq = EvaluateMonotoneComparison physical_greater_equal lhs rhs in
      stats_and res_lteq res_gteq)"

definition EvaluateNotEqual :: "physical MinMaxStats \<Rightarrow> physical MinMaxStats \<Rightarrow> bool MinMaxStats" where
  "EvaluateNotEqual lhs rhs = stats_not (EvaluateEqual lhs rhs)"

definition EvaluateBinary ::
  "ValueType \<Rightarrow> (physical MinMaxStats \<Rightarrow> physical MinMaxStats \<Rightarrow> bool MinMaxStats) \<Rightarrow>
   GenericStats \<Rightarrow> GenericStats \<Rightarrow> GenericStats result" where
  "EvaluateBinary arg_type binary_evaluator lhs rhs =
     (if stats_type (gs_min_max lhs) \<noteq> arg_type then Inl (Execution_error ''incorrect lhs type'')
      else if stats_type (gs_min_max rhs) \<noteq> arg_type then Inl (Execution_error ''incorrect rhs type'')
      else Inr \<lparr>gs_min_max = Make_bool (binary_evaluator (stats_value (gs_min_max lhs)) (stats_value (gs_min_max rhs))),
        gs_count = \<lparr>contains_null = contains_null (gs_count lhs) \<or> contains_null (gs_count rhs),
          contains_non_null = contains_non_null (gs_count lhs) \<or> contains_non_null (gs_count rhs)\<rparr>\<rparr>)"

section \<open>Casts\<close>

text \<open>Arithmetic of 64-bit integers, and \<open>abs\<close>, which maps the least integer to itself.\<close>

definition to_int64 :: "int \<Rightarrow> int" where
  "to_int64 n = (n + 2 ^ 63) mod 2 ^ 64 - 2 ^ 63"

definition abs_int32 :: "int \<Rightarrow> int" where
  "abs_int32 n = (if n = - (2 ^ 31) then n else \<bar>n\<bar>)"

definition abs_int64 :: "int \<Rightarrow> int" where
  "abs_int64 n = (if n = - (2 ^ 63) then n else \<bar>n\<bar>)"

fun physical_int :: "physical \<Rightarrow> int" where
  "physical_int (P_int n) = n"
| "physical_int _ = 0"

fun physical_float :: "physical \<Rightarrow> 32 word" where
  "physical_float (P_float f) = f"
| "physical_float _ = 0"

definition EvaluateCastInt :: "physical MinMaxStats \<Rightarrow> physical MinMaxStats" where
  "EvaluateCastInt arg = MinMaxStats (P_int (physical_int (mm_min arg))) (P_int (physical_int (mm_max arg)))"

definition EvaluateCastFloat4Float8 :: "physical MinMaxStats \<Rightarrow> physical MinMaxStats" where
  "EvaluateCastFloat4Float8 arg =
     MinMaxStats (P_double (float_to_double (physical_float (mm_min arg))))
       (P_double (float_to_double (physical_float (mm_max arg))))"

definition kMicrosInDay :: int where
  "kMicrosInDay = 24 * 60 * 60 * 1000 * 1000"

definition full_timestamp_range :: "physical MinMaxStats" where
  "full_timestamp_range = MinMaxStats (P_int (- (2 ^ 63))) (P_int (2 ^ 63 - 1))"

definition EvaluateCastDateTimestamp :: "physical MinMaxStats \<Rightarrow> physical MinMaxStats" where
  "EvaluateCastDateTimestamp arg =
     (let lo = physical_int (mm_min arg); hi = physical_int (mm_max arg); kMaxSupportedDate = 1000000 in
      if abs_int32 lo \<le> kMaxSupportedDate \<and> abs_int32 hi \<le> kMaxSupportedDate
      then MinMaxStats (P_int (to_int64 (lo * kMicrosInDay))) (P_int (to_int64 (hi * kMicrosInDay)))
      else full_timestamp_range)"

definition EvaluateCastTimestamptzTimestamp :: "physical MinMaxStats \<Rightarrow> int \<Rightarrow> physical MinMaxStats" where
  "EvaluateCastTimestamptzTimestamp arg shift_us =
     (let lo = physical_int (mm_min arg); hi = physical_int (mm_max arg); kMaxSupportedTimestamp = 10 ^ 18 in
      if abs_int64 lo \<le> kMaxSupportedTimestamp \<and> abs_int64 hi \<le> kMaxSupportedTimestamp \<and>
         abs_int64 shift_us \<le> kMaxSupportedTimestamp
      then MinMaxStats (P_int (to_int64 (lo + shift_us))) (P_int (to_int64 (hi + shift_us)))
      else full_timestamp_range)"

definition EvaluateIsNull :: "GenericStats \<Rightarrow> GenericStats result" where
  "EvaluateIsNull stats =
     (let has_true = contains_null (gs_count stats); has_false = contains_non_null (gs_count stats) in
      Inr \<lparr>gs_min_max = Make_bool (MinMaxStats (\<not> has_false) has_true),
        gs_count = \<lparr>contains_null = False, contains_non_null = True\<rparr>\<rparr>)"

definition EvaluateUnary ::
  "ValueType \<Rightarrow> ValueType \<Rightarrow> (physical MinMaxStats \<Rightarrow> physical MinMaxStats) \<Rightarrow> GenericStats \<Rightarrow> GenericStats result" where
  "EvaluateUnary ret arg_type unary_evaluator arg =
     (if stats_type (gs_min_max arg) \<noteq> arg_type then Inl (Execution_error ''incorrect arg type'')
      else Inr (arg\<lparr>gs_min_max := Make_min_max ret (unary_evaluator (stats_value (gs_min_max arg)))\<rparr>))"

section \<open>Registry\<close>

type_synonym binary_evaluator = "GenericStats \<Rightarrow> GenericStats \<Rightarrow> GenericStats result"
type_synonym unary_evaluator = "GenericStats \<Rightarrow> GenericStats result"

definition REGISTER_COMPARISON :: "ValueType \<Rightarrow> (FunctionID \<times> ValueType \<times> binary_evaluator) list" where
  "REGISTER_COMPARISON arg_type =
     [(kLessThan, arg_type, EvaluateBinary arg_type EvaluateLess),
      (kGreaterThan, arg_type, EvaluateBinary arg_type EvaluateGreater),
      (kLessThanOrEqualTo, arg_type, EvaluateBinary arg_type EvaluateLessThanOrEqualTo),
      (kGreaterThanOrEqualTo, arg_type, EvaluateBinary arg_type EvaluateGreaterThanOrEqualTo),
      (kEqual, arg_type, EvaluateBinary arg_type EvaluateEqual),
      (kNotEqual, arg_type, EvaluateBinary arg_type EvaluateNotEqual)]"

definition kBinaryEvaluators :: "(FunctionID \<times> ValueType \<times> binary_evaluator) list" where
  "kBinaryEvaluators = concat (map REGISTER_COMPARISON
     [VT_Bool, VT_Float4, VT_Float8, VT_Int2, VT_Int4, VT_Int8, VT_Date, VT_Time, VT_Timestamp, VT_Timestamptz,
      VT_String])"

definition kUnaryEvaluators :: "(FunctionID \<times> ValueType \<times> unary_evaluator) list" where
  "kUnaryEvaluators =
     [(kCastInt4, VT_Int2, EvaluateUnary VT_Int4 VT_Int2 EvaluateCastInt),
      (kCastInt8, VT_Int2, EvaluateUnary VT_Int8 VT_Int2 EvaluateCastInt),
      (kCastInt8, VT_Int4, EvaluateUnary VT_Int8 VT_Int4 EvaluateCastInt),
      (kCastFloat8, VT_Float4, EvaluateUnary VT_Float8 VT_Float4 EvaluateCastFloat4Float8)] @
     map (\<lambda>arg_type. (kIsNull, arg_type, EvaluateIsNull))
       [VT_Bool, VT_Int2, VT_Int4, VT_Int8, VT_Float4, VT_Float8, VT_Numeric, VT_String, VT_Date, VT_Timestamp,
        VT_Timestamptz, VT_Time, VT_Interval]"

definition AreCastsBeforeInvokeAllowed :: "FunctionID \<Rightarrow> bool" where
  "AreCastsBeforeInvokeAllowed fid =
     (fid \<in> {kLessThan, kLessThanOrEqualTo, kGreaterThan, kGreaterThanOrEqualTo, kNotEqual, kEqual})"

definition CastToSameTypeForComparison :: "int option \<Rightarrow> GenericStats list \<Rightarrow> GenericStats list result" where
  "CastToSameTypeForComparison shift args =
     (let value_type = (\<lambda>arg. stats_type (gs_min_max arg)); unique_value_types = set (map value_type args) in
      if card unique_value_types = 1 then Inr args
      else if unique_value_types = {VT_Int2, VT_Int4} then
        mapE (\<lambda>arg. if value_type arg = VT_Int2 then EvaluateUnary VT_Int4 VT_Int2 EvaluateCastInt arg else Inr arg) args
      else if unique_value_types = {VT_Int2, VT_Int4, VT_Int8} \<or> unique_value_types = {VT_Int4, VT_Int8} \<or>
          unique_value_types = {VT_Int2, VT_Int8} then
        mapE (\<lambda>arg. if value_type arg = VT_Int2 then EvaluateUnary VT_Int8 VT_Int2 EvaluateCastInt arg
          else if value_type arg = VT_Int4 then EvaluateUnary VT_Int8 VT_Int4 EvaluateCastInt arg else Inr arg) args
      else if unique_value_types = {VT_Float4, VT_Float8} then
        mapE (\<lambda>arg. if value_type arg = VT_Float4 then EvaluateUnary VT_Float8 VT_Float4 EvaluateCastFloat4Float8 arg
          else Inr arg) args
      else if unique_value_types = {VT_Timestamp, VT_Timestamptz} \<or> unique_value_types = {VT_Timestamp, VT_Date} \<or>
          unique_value_types = {VT_Timestamptz, VT_Date} then
        mapE (\<lambda>arg. if value_type arg = VT_Date then EvaluateUnary VT_Timestamp VT_Date EvaluateCastDateTimestamp arg
          else if value_type arg = VT_Timestamptz then
            (case shift of
               None \<Rightarrow> Inl (Execution_error ''unsupported cast from timestamptz to timestamp'')
             | Some s \<Rightarrow> Inr (arg\<lparr>gs_min_max :=
                 Make_min_max VT_Timestamp (EvaluateCastTimestamptzTimestamp (stats_value (gs_min_max arg)) s)\<rparr>))
          else Inr arg) args
      else Inl (Execution_error ''unsupported cast''))"

fun find_evaluator :: "(FunctionID \<times> ValueType \<times> 'e) list \<Rightarrow> FunctionID \<Rightarrow> (ValueType \<Rightarrow> bool) \<Rightarrow> 'e option" where
  "find_evaluator [] fid accepts = None"
| "find_evaluator ((i, vt, evaluator) # es) fid accepts =
     (if i = fid \<and> accepts vt then Some evaluator else find_evaluator es fid accepts)"

definition Registry_Evaluate :: "int option \<Rightarrow> FunctionID \<Rightarrow> GenericStats list \<Rightarrow> GenericStats result" where
  "Registry_Evaluate shift fid args =
     (if length args = 2 then
        bindE (if AreCastsBeforeInvokeAllowed fid then CastToSameTypeForComparison shift args else Inr args) (\<lambda>args.
          let lhs = args ! 0; rhs = args ! 1 in
          case find_evaluator kBinaryEvaluators fid
              (\<lambda>vt. stats_type (gs_min_max lhs) = vt \<and> stats_type (gs_min_max rhs) = vt) of
            None \<Rightarrow> Inl (Not_implemented ''number of arguments = 2, unexpected function id'')
          | Some evaluator \<Rightarrow> evaluator lhs rhs)
      else if length args = 1 then
        (let arg = args ! 0 in
         case find_evaluator kUnaryEvaluators fid (\<lambda>vt. stats_type (gs_min_max arg) = vt) of
           None \<Rightarrow> Inl (Not_implemented ''number of arguments = 1, unexpected function id'')
         | Some evaluator \<Rightarrow> evaluator arg)
      else Inl (Not_implemented ''unexpected number of arguments''))"

section \<open>Visitor\<close>

text \<open>
  A statistics getter may throw, which ends the whole evaluation, while an Arrow status
  is a value that \<open>kAnd\<close> and \<open>kOr\<close> absorb.  The result of a visit is therefore a result
  (thrown or not) of a result (status or statistics).
\<close>

type_synonym StatsValue = "GenericStats result result"

type_synonym IStatsGetter = "string \<Rightarrow> ValueType \<Rightarrow> GenericStats option result"

definition bindS :: "'a result result \<Rightarrow> ('a \<Rightarrow> 'b result result) \<Rightarrow> 'b result result" where
  "bindS r f = bindE r (\<lambda>s. case s of Inl status \<Rightarrow> Inr (Inl status) | Inr x \<Rightarrow> f x)"

lemma bindS_cong [fundef_cong]:
  "r = r' \<Longrightarrow> (\<And>x. r' = Inr (Inr x) \<Longrightarrow> f x = g x) \<Longrightarrow> bindS r f = bindS r' g"
  by (auto simp: bindS_def bindE_def split: sum.splits)

definition status_error :: "error \<Rightarrow> 'a result result" where
  "status_error e = Inr (Inl e)"

record BoolStatsAggregator =
  agg_use_or :: bool
  current_result :: "bool MinMaxStats"

definition mk_BoolStatsAggregator :: "bool \<Rightarrow> BoolStatsAggregator" where
  "mk_BoolStatsAggregator use_or =
     \<lparr>agg_use_or = use_or, current_result = (if use_or then kBoolStatsFalse else kBoolStatsTrue)\<rparr>"

text \<open>\<open>Add\<close> also tells whether the result is final.\<close>

definition Aggregator_Add :: "BoolStatsAggregator \<Rightarrow> bool MinMaxStats \<Rightarrow> BoolStatsAggregator \<times> bool" where
  "Aggregator_Add a new_value =
     (if agg_use_or a then
        let r = stats_or (current_result a) new_value in (a\<lparr>current_result := r\<rparr>, r = kBoolStatsTrue)
      else
        let r = stats_and (current_result a) new_value in (a\<lparr>current_result := r\<rparr>, r = kBoolStatsFalse))"

definition Aggregator_Result :: "BoolStatsAggregator \<Rightarrow> GenericStats" where
  "Aggregator_Result a = GenericStats_unknown_count (Make_bool (current_result a))"

definition Visit_ConstNode :: "Value \<Rightarrow> StatsValue" where
  "Visit_ConstNode value =
     (if IsNull value then status_error (Execution_error ''ConstNode with null is not supported'')
      else bindE (GetValue (GetValueType value) value) (\<lambda>p.
        Inr (Inr \<lparr>gs_min_max = Make_min_max (GetValueType value) (OneValueToStats p),
          gs_count = \<lparr>contains_null = False, contains_non_null = True\<rparr>\<rparr>)))"

definition Visit_VariableNode :: "IStatsGetter \<Rightarrow> ValueType \<Rightarrow> string \<Rightarrow> StatsValue" where
  "Visit_VariableNode GetStats value_type column_name =
     bindE (GetStats column_name value_type) (\<lambda>maybe_stats.
       case maybe_stats of
         Some stats \<Rightarrow> Inr (Inr stats)
       | None \<Rightarrow> status_error (Execution_error ''No stats for column''))"

text \<open>The loop over the elements of an array.\<close>

fun scalar_over_array_loop ::
  "int option \<Rightarrow> FunctionID \<Rightarrow> GenericStats \<Rightarrow> ValueType \<Rightarrow> BoolStatsAggregator \<Rightarrow> physical option list \<Rightarrow> StatsValue" where
  "scalar_over_array_loop shift fid lhs_stats value_type agg [] = Inr (Inr (Aggregator_Result agg))"
| "scalar_over_array_loop shift fid lhs_stats value_type agg (elem # elems) =
     bindS (case elem of
         None \<Rightarrow> Inr (Inr kBoolStatsUnknown)
       | Some p \<Rightarrow>
           bindS (Inr (Registry_Evaluate shift fid [lhs_stats,
               \<lparr>gs_min_max = Make_min_max value_type (OneValueToStats p),
                gs_count = \<lparr>contains_null = False, contains_non_null = True\<rparr>\<rparr>])) (\<lambda>stats.
             if stats_type (gs_min_max stats) \<noteq> VT_Bool then status_error (Execution_error ''expected bool stats'')
             else Inr (Inr (Get_bool (gs_min_max stats))))) (\<lambda>arg.
     case Aggregator_Add agg arg of (agg', final) \<Rightarrow>
       if final then Inr (Inr (Aggregator_Result agg'))
       else scalar_over_array_loop shift fid lhs_stats value_type agg' elems)"

definition Comparable :: "ValueType \<Rightarrow> bool" where
  "Comparable vt \<longleftrightarrow> vt \<noteq> VT_Numeric \<and> vt \<noteq> VT_Interval"

definition std_min :: "physical \<Rightarrow> physical \<Rightarrow> physical" where
  "std_min a b = (if physical_less b a then b else a)"

definition std_max :: "physical \<Rightarrow> physical \<Rightarrow> physical" where
  "std_max a b = (if physical_less a b then b else a)"

definition merge_branches :: "GenericStats \<Rightarrow> GenericStats \<Rightarrow> StatsValue" where
  "merge_branches then_res else_res =
     (let vt = stats_type (gs_min_max then_res);
          then_stats = stats_value (gs_min_max then_res); else_stats = stats_value (gs_min_max else_res) in
      if vt \<noteq> stats_type (gs_min_max else_res) then
        status_error (Execution_error ''expected same value types for then_node and else_node'')
      else if \<not> Comparable vt then status_error (Execution_error ''comparison is not supported for type'')
      else Inr (Inr (GenericStats_unknown_count (Make_min_max vt
        (MinMaxStats (std_min (mm_min then_stats) (mm_min else_stats))
          (std_max (mm_max then_stats) (mm_max else_stats)))))))"

fun Visit :: "IStatsGetter \<Rightarrow> int option \<Rightarrow> Node \<Rightarrow> StatsValue"
  and Visit_arguments :: "IStatsGetter \<Rightarrow> int option \<Rightarrow> Node list \<Rightarrow> GenericStats list result result"
  and Visit_logical :: "IStatsGetter \<Rightarrow> int option \<Rightarrow> BoolStatsAggregator \<Rightarrow> Node list \<Rightarrow> StatsValue"
  where
  "Visit G shift (FunctionNode sig arguments) =
     bindS (Visit_arguments G shift arguments) (\<lambda>evaluated_arguments.
       Inr (Registry_Evaluate shift (function_id sig) evaluated_arguments))"
| "Visit G shift (ConstNode value) = Visit_ConstNode value"
| "Visit G shift (VariableNode value_type column_name) = Visit_VariableNode G value_type column_name"
| "Visit G shift (ScalarOverArrayFunctionNode sig use_or scalar array) =
     bindS (Visit G shift scalar) (\<lambda>lhs_stats.
       scalar_over_array_loop shift (function_id sig) lhs_stats (array_GetValueType array)
         (mk_BoolStatsAggregator use_or) (array_GetValue array))"
| "Visit G shift (IfNode condition then_node else_node) =
     bindS (Visit G shift condition) (\<lambda>evaluated_cond.
       if stats_type (gs_min_max evaluated_cond) \<noteq> VT_Bool then
         status_error (Execution_error ''expected bool stats for condition result'')
       else if mm_min (Get_bool (gs_min_max evaluated_cond)) then Visit G shift then_node
       else if \<not> mm_max (Get_bool (gs_min_max evaluated_cond)) then Visit G shift else_node
       else bindS (Visit G shift then_node) (\<lambda>then_res.
         bindS (Visit G shift else_node) (\<lambda>else_res. merge_branches then_res else_res)))"
| "Visit G shift (LogicalNode operation arguments) =
     (case operation of
        kNot \<Rightarrow>
          (case arguments of
             [argument] \<Rightarrow>
               bindS (Visit G shift argument) (\<lambda>evaluated_arg.
                 if stats_type (gs_min_max evaluated_arg) \<noteq> VT_Bool then
                   status_error (Execution_error ''expected bool stats'')
                 else Inr (Inr (evaluated_arg\<lparr>gs_min_max :=
                   Make_bool (stats_not (Get_bool (gs_min_max evaluated_arg)))\<rparr>)))
           | _ \<Rightarrow> status_error (Execution_error ''unexpected argument number for kNot function''))
      | kAnd \<Rightarrow> Visit_logical G shift (mk_BoolStatsAggregator False) arguments
      | kOr \<Rightarrow> Visit_logical G shift (mk_BoolStatsAggregator True) arguments)"
| "Visit_arguments G shift [] = Inr (Inr [])"
| "Visit_arguments G shift (argument # arguments) =
     bindS (Visit G shift argument) (\<lambda>stats.
     bindS (Visit_arguments G shift arguments) (\<lambda>rest. Inr (Inr (stats # rest))))"
| "Visit_logical G shift agg [] = Inr (Inr (Aggregator_Result agg))"
| "Visit_logical G shift agg (argument # arguments) =
     bindE (Visit G shift argument) (\<lambda>maybe_evaluated_arg.
       case maybe_evaluated_arg of
         Inl status \<Rightarrow> Visit_logical G shift (fst (Aggregator_Add agg kBoolStatsUnknown)) arguments
       | Inr evaluated_arg \<Rightarrow>
           if stats_type (gs_min_max evaluated_arg) \<noteq> VT_Bool then
             status_error (Execution_error ''expected bool stats'')
           else (case Aggregator_Add agg (Get_bool (gs_min_max evaluated_arg)) of (agg', final) \<Rightarrow>
             if final then Inr (Inr (Aggregator_Result agg'))
             else Visit_logical G shift agg' arguments))"

section \<open>Filter\<close>

datatype MatchedRows = MR_None | MR_Some | MR_All

definition StatsFilter_Evaluate :: "IStatsGetter \<Rightarrow> int option \<Rightarrow> Node option \<Rightarrow> StatsValue" where
  "StatsFilter_Evaluate G shift root =
     (case root of
        None \<Rightarrow> status_error (Execution_error ''Evaluate expected non-empty expression'')
      | Some node \<Rightarrow> Visit G shift node)"

definition StatsFilter_ApplyFilter :: "IStatsGetter \<Rightarrow> int option \<Rightarrow> Node option \<Rightarrow> MatchedRows result" where
  "StatsFilter_ApplyFilter G shift root =
     (if root = None then Inr MR_Some
      else bindE (StatsFilter_Evaluate G shift root) (\<lambda>maybe_result.
        case maybe_result of
          Inl status \<Rightarrow> Inr MR_Some
        | Inr res \<Rightarrow>
            if stats_type (gs_min_max res) \<noteq> VT_Bool then Inr MR_Some
            else let result_bool = Get_bool (gs_min_max res) in
              if result_bool = kBoolStatsFalse then Inr MR_None
              else if result_bool = kBoolStatsTrue then Inr MR_All
              else Inr MR_Some))"

end
