(* ===== verification/Stats_Soundness.thy ===== *)
theory Stats_Soundness
  imports Stats_Filter
begin

text \<open>
  The filter on statistics is an abstract interpretation of the filter on rows.  The
  concrete side is a reference semantics of expressions on one row with three-valued
  logic; statistics denote sets of values; every operation of the registry and every
  case of the visitor over-approximates its concrete counterpart.  Hence a group of rows
  for which \<open>ApplyFilter\<close> answers \<open>kNone\<close> has no matching row.
\<close>

section \<open>Reference semantics\<close>

subsection \<open>Three-valued logic\<close>

fun or3 :: "bool option \<Rightarrow> bool option \<Rightarrow> bool option" where
  "or3 (Some True) _ = Some True"
| "or3 _ (Some True) = Some True"
| "or3 (Some False) (Some False) = Some False"
| "or3 _ _ = None"

fun and3 :: "bool option \<Rightarrow> bool option \<Rightarrow> bool option" where
  "and3 (Some False) _ = Some False"
| "and3 _ (Some False) = Some False"
| "and3 (Some True) (Some True) = Some True"
| "and3 _ _ = None"

definition combine3 :: "bool \<Rightarrow> bool option \<Rightarrow> bool option \<Rightarrow> bool option" where
  "combine3 use_or = (if use_or then or3 else and3)"

definition logical3 :: "bool \<Rightarrow> bool option list \<Rightarrow> bool option" where
  "logical3 use_or bs = foldr (combine3 use_or) bs (Some (\<not> use_or))"

text \<open>The truth value of a Boolean \<open>Value\<close>, if it is one.\<close>

fun truth :: "Value \<Rightarrow> bool option option" where
  "truth (Value VT_Bool None) = Some None"
| "truth (Value VT_Bool (Some (P_bool b))) = Some (Some b)"
| "truth _ = None"

definition of_truth :: "bool option \<Rightarrow> Value" where
  "of_truth b = Value VT_Bool (map_option P_bool b)"

fun truths :: "Value option list \<Rightarrow> bool option list option" where
  "truths [] = Some []"
| "truths (v # vs) = (case v of None \<Rightarrow> None | Some x \<Rightarrow>
     (case (truth x, truths vs) of (Some b, Some bs) \<Rightarrow> Some (b # bs) | _ \<Rightarrow> None))"

subsection \<open>Functions\<close>

definition compare_sem :: "FunctionID \<Rightarrow> physical \<Rightarrow> physical \<Rightarrow> bool" where
  "compare_sem fid a b =
     (if fid = kLessThan then physical_less a b
      else if fid = kGreaterThan then physical_less b a
      else if fid = kLessThanOrEqualTo then physical_less_equal a b
      else if fid = kGreaterThanOrEqualTo then physical_less_equal b a
      else if fid = kEqual then physical_less_equal a b \<and> physical_less_equal b a
      else \<not> (physical_less_equal a b \<and> physical_less_equal b a))"

text \<open>The type in which values of two types are compared, and the conversion of a value
  to it; integers of 64 bits wrap around.\<close>

definition common_type :: "ValueType \<Rightarrow> ValueType \<Rightarrow> ValueType option" where
  "common_type s t =
     (if s = t then Some s
      else if {s, t} = {VT_Int2, VT_Int4} then Some VT_Int4
      else if {s, t} = {VT_Int4, VT_Int8} \<or> {s, t} = {VT_Int2, VT_Int8} then Some VT_Int8
      else if {s, t} = {VT_Float4, VT_Float8} then Some VT_Float8
      else if {s, t} = {VT_Timestamp, VT_Timestamptz} \<or> {s, t} = {VT_Timestamp, VT_Date} \<or>
        {s, t} = {VT_Timestamptz, VT_Date} then Some VT_Timestamp
      else None)"

definition convert :: "int option \<Rightarrow> ValueType \<Rightarrow> ValueType \<Rightarrow> (physical \<Rightarrow> physical) option" where
  "convert shift s t =
     (if s = t \<or> (s, t) \<in> {(VT_Int2, VT_Int4), (VT_Int2, VT_Int8), (VT_Int4, VT_Int8)} then Some (\<lambda>p. p)
      else if (s, t) = (VT_Float4, VT_Float8) then Some (\<lambda>p. P_double (float_to_double (physical_float p)))
      else if (s, t) = (VT_Date, VT_Timestamp) then Some (\<lambda>p. P_int (to_int64 (physical_int p * kMicrosInDay)))
      else if (s, t) = (VT_Timestamptz, VT_Timestamp) then
        map_option (\<lambda>us p. P_int (to_int64 (physical_int p + us))) shift
      else None)"

text \<open>What the registry does not know is given by the parameter \<open>ext\<close>.\<close>

definition comparison_sem ::
  "int option \<Rightarrow> (FunctionID \<Rightarrow> Value list \<Rightarrow> Value option) \<Rightarrow> FunctionID \<Rightarrow> Value \<Rightarrow> Value \<Rightarrow> Value option" where
  "comparison_sem shift ext fid v w =
     (case common_type (GetValueType v) (GetValueType w) of
        None \<Rightarrow> ext fid [v, w]
      | Some t \<Rightarrow>
          (case (convert shift (GetValueType v) t, convert shift (GetValueType w) t) of
             (Some f, Some g) \<Rightarrow>
               if \<not> Comparable t then ext fid [v, w]
               else Some (of_truth (case (GetHolder v, GetHolder w) of
                 (Some a, Some b) \<Rightarrow> Some (compare_sem fid (f a) (g b)) | _ \<Rightarrow> None))
           | _ \<Rightarrow> ext fid [v, w]))"

definition unary_sem :: "(FunctionID \<Rightarrow> Value list \<Rightarrow> Value option) \<Rightarrow> FunctionID \<Rightarrow> Value \<Rightarrow> Value option" where
  "unary_sem ext fid v =
     (if fid = kIsNull then Some (of_truth (Some (IsNull v)))
      else if fid = kCastInt4 \<and> GetValueType v = VT_Int2 then Some (Value VT_Int4 (GetHolder v))
      else if fid = kCastInt8 \<and> GetValueType v \<in> {VT_Int2, VT_Int4} then Some (Value VT_Int8 (GetHolder v))
      else if fid = kCastFloat8 \<and> GetValueType v = VT_Float4 then
        Some (Value VT_Float8 (map_option (\<lambda>p. P_double (float_to_double (physical_float p))) (GetHolder v)))
      else ext fid [v])"

definition function_sem ::
  "int option \<Rightarrow> (FunctionID \<Rightarrow> Value list \<Rightarrow> Value option) \<Rightarrow> FunctionID \<Rightarrow> Value list \<Rightarrow> Value option" where
  "function_sem shift ext fid vs =
     (case vs of
        [v, w] \<Rightarrow> if AreCastsBeforeInvokeAllowed fid then comparison_sem shift ext fid v w else ext fid vs
      | [v] \<Rightarrow> unary_sem ext fid v
      | _ \<Rightarrow> ext fid vs)"

subsection \<open>Expressions\<close>

text \<open>A row gives every column a value of each type under which it can be read; \<open>None\<close> is
  null.  A conditional whose condition is null takes the second branch.\<close>

type_synonym row = "string \<Rightarrow> ValueType \<Rightarrow> physical option"

fun those_list :: "'a option list \<Rightarrow> 'a list option" where
  "those_list [] = Some []"
| "those_list (x # xs) = (case (x, those_list xs) of (Some y, Some ys) \<Rightarrow> Some (y # ys) | _ \<Rightarrow> None)"

fun eval :: "int option \<Rightarrow> (FunctionID \<Rightarrow> Value list \<Rightarrow> Value option) \<Rightarrow> row \<Rightarrow> Node \<Rightarrow> Value option" where
  "eval shift ext r (VariableNode vt name) = Some (Value vt (r name vt))"
| "eval shift ext r (ConstNode v) = Some v"
| "eval shift ext r (IfNode c t e) =
     (case eval shift ext r c of None \<Rightarrow> None | Some v \<Rightarrow>
       (case truth v of None \<Rightarrow> None
        | Some b \<Rightarrow> if b = Some True then eval shift ext r t else eval shift ext r e))"
| "eval shift ext r (LogicalNode op args) =
     (case truths (map (eval shift ext r) args) of None \<Rightarrow> None
      | Some bs \<Rightarrow>
          (case op of
             kNot \<Rightarrow> (case bs of [b] \<Rightarrow> Some (of_truth (map_option Not b)) | _ \<Rightarrow> None)
           | kAnd \<Rightarrow> Some (of_truth (logical3 False bs))
           | kOr \<Rightarrow> Some (of_truth (logical3 True bs))))"
| "eval shift ext r (FunctionNode sig args) =
     (case those_list (map (eval shift ext r) args) of None \<Rightarrow> None
      | Some vs \<Rightarrow> function_sem shift ext (function_id sig) vs)"
| "eval shift ext r (ScalarOverArrayFunctionNode sig use_or lhs array) =
     (case eval shift ext r lhs of None \<Rightarrow> None
      | Some v \<Rightarrow>
          map_option (\<lambda>bs. of_truth (logical3 use_or bs))
            (truths (map (\<lambda>elem. function_sem shift ext (function_id sig) [v, Value (array_GetValueType array) elem])
              (array_GetValue array))))"

text \<open>The conditions that are evaluated on the row are not null.\<close>

fun conditions_known :: "int option \<Rightarrow> (FunctionID \<Rightarrow> Value list \<Rightarrow> Value option) \<Rightarrow> row \<Rightarrow> Node \<Rightarrow> bool" where
  "conditions_known shift ext r (VariableNode vt name) = True"
| "conditions_known shift ext r (ConstNode v) = True"
| "conditions_known shift ext r (IfNode c t e) =
     (eval shift ext r c \<noteq> Some (Value VT_Bool None) \<and>
      conditions_known shift ext r c \<and> conditions_known shift ext r t \<and> conditions_known shift ext r e)"
| "conditions_known shift ext r (LogicalNode op args) = list_all id (map (conditions_known shift ext r) args)"
| "conditions_known shift ext r (FunctionNode sig args) = list_all id (map (conditions_known shift ext r) args)"
| "conditions_known shift ext r (ScalarOverArrayFunctionNode sig use_or lhs array) = conditions_known shift ext r lhs"

section \<open>What statistics denote\<close>

text \<open>The least integers, on which \<open>abs\<close> fails, are excluded for the types that are
  converted, and so are bounds that are not numbers.\<close>

fun castable :: "ValueType \<Rightarrow> physical \<Rightarrow> bool" where
  "castable VT_Date p = (p \<noteq> P_int (- (2 ^ 31)))"
| "castable VT_Timestamptz p = (p \<noteq> P_int (- (2 ^ 63)))"
| "castable _ p = True"

definition min_max_ok :: "GenericMinMaxStats \<Rightarrow> bool" where
  "min_max_ok g =
     (let vt = stats_type g; lo = mm_min (stats_value g); hi = mm_max (stats_value g) in
      PhysicalType vt lo \<and> PhysicalType vt hi \<and> castable vt lo \<and> castable vt hi \<and>
      (Comparable vt \<longrightarrow> physical_less_equal lo lo \<and> physical_less_equal hi hi))"

definition between :: "physical MinMaxStats \<Rightarrow> physical \<Rightarrow> bool" where
  "between mm p \<longleftrightarrow> physical_less_equal (mm_min mm) p \<and> physical_less_equal p (mm_max mm)"

definition in_stats :: "GenericStats \<Rightarrow> Value \<Rightarrow> bool" where
  "in_stats st v \<longleftrightarrow>
     min_max_ok (gs_min_max st) \<and> GetValueType v = stats_type (gs_min_max st) \<and>
     (case GetHolder v of
        None \<Rightarrow> contains_null (gs_count st)
      | Some p \<Rightarrow> contains_non_null (gs_count st) \<and> PhysicalType (GetValueType v) p \<and>
          (Comparable (GetValueType v) \<longrightarrow> between (stats_value (gs_min_max st)) p))"

text \<open>Constants that compare equal to themselves.\<close>

fun exact :: "ValueType \<Rightarrow> physical option \<Rightarrow> bool" where
  "exact vt None = True"
| "exact vt (Some p) = (castable vt p \<and> (Comparable vt \<longrightarrow> physical_less_equal p p))"

primrec exact_constants :: "Node \<Rightarrow> bool" where
  "exact_constants (VariableNode vt name) = True"
| "exact_constants (ConstNode v) = exact (GetValueType v) (GetHolder v)"
| "exact_constants (IfNode c t e) = (exact_constants c \<and> exact_constants t \<and> exact_constants e)"
| "exact_constants (LogicalNode op args) = list_all id (map exact_constants args)"
| "exact_constants (FunctionNode sig args) = list_all id (map exact_constants args)"
| "exact_constants (ScalarOverArrayFunctionNode sig use_or lhs array) =
     (list_all (exact (array_GetValueType array)) (array_GetValue array) \<and> exact_constants lhs)"

text \<open>A getter is sound for a row when the statistics it returns cover the row.\<close>

definition getter_covers :: "IStatsGetter \<Rightarrow> row \<Rightarrow> bool" where
  "getter_covers G r \<longleftrightarrow> (\<forall>name vt st. G name vt = Inr (Some st) \<longrightarrow> in_stats st (Value vt (r name vt)))"

definition shift_ok :: "int option \<Rightarrow> bool" where
  "shift_ok shift = (case shift of None \<Rightarrow> True | Some s \<Rightarrow> int64 s \<and> s \<noteq> - (2 ^ 63))"

section \<open>Monotone comparisons\<close>

text \<open>
  The assumptions under which \<open>EvaluateMonotoneComparison\<close> may be used, as the source
  states them: on an interval at whose ends a comparison agrees, it is constant.
\<close>

locale monotone_comparison =
  fixes cmp :: "'a \<Rightarrow> 'a \<Rightarrow> bool" and le :: "'a \<Rightarrow> 'a \<Rightarrow> bool"
  assumes mono_left: "cmp x1 y = cmp x2 y \<Longrightarrow> le x1 x \<Longrightarrow> le x x2 \<Longrightarrow> cmp x y = cmp x1 y"
    and mono_right: "cmp x y1 = cmp x y2 \<Longrightarrow> le y1 y \<Longrightarrow> le y y2 \<Longrightarrow> cmp x y = cmp x y1"
begin

lemma corners_agree:
  assumes "le (mm_min lhs) x" "le x (mm_max lhs)" "le (mm_min rhs) y" "le y (mm_max rhs)"
    and "cmp (mm_min lhs) (mm_min rhs) = b" "cmp (mm_min lhs) (mm_max rhs) = b"
      "cmp (mm_max lhs) (mm_min rhs) = b" "cmp (mm_max lhs) (mm_max rhs) = b"
  shows "cmp x y = b"
proof -
  have "cmp (mm_min lhs) y = b" "cmp (mm_max lhs) y = b"
    using mono_right [OF _ assms(3,4), of "mm_min lhs"] mono_right [OF _ assms(3,4), of "mm_max lhs"] assms(5-8)
    by simp_all
  then show ?thesis using mono_left [OF _ assms(1,2), of y] by simp
qed

lemma EvaluateMonotoneComparison_sound:
  assumes "le (mm_min lhs) x" "le x (mm_max lhs)" "le (mm_min rhs) y" "le y (mm_max rhs)"
  shows "mm_min (EvaluateMonotoneComparison cmp lhs rhs) \<Longrightarrow> cmp x y"
    and "cmp x y \<Longrightarrow> mm_max (EvaluateMonotoneComparison cmp lhs rhs)"
  using corners_agree [OF assms]
  by (auto simp: EvaluateMonotoneComparison_def Let_def kBoolStatsFalse_def kBoolStatsTrue_def kBoolStatsUnknown_def
      split: if_splits)

end

lemma physical_less_equal_cases:
  assumes "physical_less_equal a b"
  obtains x y where "a = P_bool x" "b = P_bool y" "x \<longrightarrow> y"
  | x y where "a = P_int x" "b = P_int y" "x \<le> y"
  | x y where "a = P_float x" "b = P_float y" "\<not> float_nan x" "\<not> float_nan y" "float_key x \<le> float_key y"
  | x y where "a = P_double x" "b = P_double y" "\<not> double_nan x" "\<not> double_nan y" "double_key x \<le> double_key y"
  | x y where "a = P_string x" "b = P_string y" "x \<le> y"
  using assms by (cases a; cases b) auto

lemma physical_less_mono:
  assumes "physical_less_equal x1 x" "physical_less_equal x x2"
  shows "physical_less x1 y = physical_less x2 y \<Longrightarrow> physical_less x y = physical_less x1 y"
    and "physical_less y x1 = physical_less y x2 \<Longrightarrow> physical_less y x = physical_less y x1"
    and "physical_less_equal x1 y = physical_less_equal x2 y \<Longrightarrow> physical_less_equal x y = physical_less_equal x1 y"
    and "physical_less_equal y x1 = physical_less_equal y x2 \<Longrightarrow> physical_less_equal y x = physical_less_equal y x1"
  by (rule physical_less_equal_cases [OF assms(1)];
      rule physical_less_equal_cases [OF assms(2)]; cases y; auto)+

interpretation less: monotone_comparison physical_less physical_less_equal
  by unfold_locales ((rule physical_less_mono(1); assumption), (rule physical_less_mono(2); assumption))

interpretation less_equal: monotone_comparison physical_less_equal physical_less_equal
  by unfold_locales ((rule physical_less_mono(3); assumption), (rule physical_less_mono(4); assumption))

interpretation greater: monotone_comparison physical_greater physical_less_equal
  unfolding physical_greater_def by unfold_locales ((rule physical_less_mono(2); assumption), (rule physical_less_mono(1); assumption))

interpretation greater_equal: monotone_comparison physical_greater_equal physical_less_equal
  unfolding physical_greater_equal_def by unfold_locales ((rule physical_less_mono(4); assumption), (rule physical_less_mono(3); assumption))

text \<open>The Boolean statistics of a truth value, null left out.\<close>

definition bool_covers :: "bool MinMaxStats \<Rightarrow> bool option \<Rightarrow> bool" where
  "bool_covers b v \<longleftrightarrow> (v = Some True \<longrightarrow> mm_max b) \<and> (v = Some False \<longrightarrow> \<not> mm_min b)"

lemma bool_covers_None [simp]: "bool_covers b None"
  by (simp add: bool_covers_def)

lemma bool_covers_unknown [simp]: "bool_covers kBoolStatsUnknown v"
  by (simp add: bool_covers_def kBoolStatsUnknown_def)

lemmas bool_stats_defs = kBoolStatsTrue_def kBoolStatsFalse_def kBoolStatsUnknown_def

lemma stats_or_covers: "bool_covers a x \<Longrightarrow> bool_covers b y \<Longrightarrow> bool_covers (stats_or a b) (or3 x y)"
  by (cases "(x, y)" rule: or3.cases; cases a; cases b; cases y) (auto simp: stats_or_def bool_covers_def bool_stats_defs)

lemma stats_and_covers: "bool_covers a x \<Longrightarrow> bool_covers b y \<Longrightarrow> bool_covers (stats_and a b) (and3 x y)"
  by (cases "(x, y)" rule: and3.cases; cases a; cases b; cases y) (auto simp: stats_and_def bool_covers_def bool_stats_defs)

lemma stats_not_covers: "bool_covers a x \<Longrightarrow> bool_covers (stats_not a) (map_option Not x)"
  by (cases x) (auto simp: stats_not_def bool_covers_def)

text \<open>The comparison functions of the registry.\<close>

definition comparison_evaluators ::
  "(FunctionID \<times> (physical MinMaxStats \<Rightarrow> physical MinMaxStats \<Rightarrow> bool MinMaxStats)) list" where
  "comparison_evaluators =
     [(kLessThan, EvaluateLess), (kGreaterThan, EvaluateGreater), (kLessThanOrEqualTo, EvaluateLessThanOrEqualTo),
      (kGreaterThanOrEqualTo, EvaluateGreaterThanOrEqualTo), (kEqual, EvaluateEqual), (kNotEqual, EvaluateNotEqual)]"

lemma EvaluateEqual_covers:
  assumes "between lhs x" "between rhs y"
  shows "bool_covers (EvaluateEqual lhs rhs) (Some (physical_less_equal x y \<and> physical_less_equal y x))"
proof -
  have "bool_covers (EvaluateMonotoneComparison physical_less_equal lhs rhs) (Some (physical_less_equal x y))"
    using less_equal.EvaluateMonotoneComparison_sound [of lhs x rhs y] assms by (auto simp: bool_covers_def between_def)
  moreover have "bool_covers (EvaluateMonotoneComparison physical_greater_equal lhs rhs) (Some (physical_greater_equal x y))"
    using greater_equal.EvaluateMonotoneComparison_sound [of lhs x rhs y] assms by (auto simp: bool_covers_def between_def)
  ultimately have "bool_covers (EvaluateEqual lhs rhs)
      (and3 (Some (physical_less_equal x y)) (Some (physical_greater_equal x y)))"
    unfolding EvaluateEqual_def Let_def by (rule stats_and_covers)
  then show ?thesis
    by (cases "physical_less_equal x y"; cases "physical_less_equal y x") (simp_all add: physical_greater_equal_def)
qed

lemma comparison_covers:
  assumes "(fid, ev) \<in> set comparison_evaluators" "between lhs x" "between rhs y"
  shows "bool_covers (ev lhs rhs) (Some (compare_sem fid x y))"
proof -
  have "bool_covers (stats_not (EvaluateEqual lhs rhs))
      (Some (\<not> (physical_less_equal x y \<and> physical_less_equal y x)))"
    using stats_not_covers [OF EvaluateEqual_covers [OF assms(2,3)]] by simp
  then show ?thesis
    using assms EvaluateEqual_covers [OF assms(2,3)]
      less.EvaluateMonotoneComparison_sound [of lhs x rhs y] greater.EvaluateMonotoneComparison_sound [of lhs x rhs y]
      less_equal.EvaluateMonotoneComparison_sound [of lhs x rhs y]
      greater_equal.EvaluateMonotoneComparison_sound [of lhs x rhs y]
    unfolding comparison_evaluators_def
    by (auto simp: bool_covers_def between_def compare_sem_def EvaluateLess_def EvaluateGreater_def
        EvaluateLessThanOrEqualTo_def EvaluateGreaterThanOrEqualTo_def EvaluateNotEqual_def
        physical_greater_def physical_greater_equal_def)
qed

section \<open>The registry over-approximates\<close>

lemma truth_of_truth [simp]: "truth (of_truth b) = Some b"
  by (cases b) (simp_all add: of_truth_def)

lemma in_stats_Make_bool:
  "in_stats \<lparr>gs_min_max = Make_bool m, gs_count = c\<rparr> (of_truth b) \<longleftrightarrow>
     bool_covers m b \<and> (case b of None \<Rightarrow> contains_null c | Some _ \<Rightarrow> contains_non_null c)"
  by (cases b) (auto simp: in_stats_def Make_bool_def Make_min_max_def of_truth_def min_max_ok_def between_def
      bool_covers_def Comparable_def)

lemma in_stats_bool:
  assumes "in_stats st v" "stats_type (gs_min_max st) = VT_Bool"
  obtains b where "v = of_truth b" "bool_covers (Get_bool (gs_min_max st)) b"
proof (cases v)
  case (Value vt h)
  have vt: "vt = VT_Bool" using assms Value by (simp add: in_stats_def)
  have mm: "\<exists>lo hi. mm_min (stats_value (gs_min_max st)) = P_bool lo \<and> mm_max (stats_value (gs_min_max st)) = P_bool hi"
    using assms by (auto simp: in_stats_def min_max_ok_def Let_def split: physical.splits)
  show thesis
  proof (cases h)
    case None
    then show thesis using that [of None] Value vt by (simp add: of_truth_def)
  next
    case (Some p)
    then obtain b where "p = P_bool b" using assms(1) Value vt by (auto simp: in_stats_def split: physical.splits)
    then show thesis
      using that [of "Some b"] assms(1) Value vt Some mm
      by (auto simp: in_stats_def of_truth_def bool_covers_def Get_bool_def between_def Comparable_def)
  qed
qed

lemma Get_bool_Make_bool [simp]: "Get_bool (Make_bool m) = m"
  by (cases m) (simp add: Get_bool_def Make_bool_def Make_min_max_def)

lemma stats_type_Make_bool [simp]: "stats_type (Make_bool m) = VT_Bool"
  by (simp add: Make_bool_def Make_min_max_def)

subsection \<open>Conversions\<close>

definition convert_stats :: "int option \<Rightarrow> ValueType \<Rightarrow> GenericStats \<Rightarrow> GenericStats result" where
  "convert_stats shift t arg =
     (let s = stats_type (gs_min_max arg) in
      if s = t then Inr arg
      else if (s, t) \<in> {(VT_Int2, VT_Int4), (VT_Int2, VT_Int8), (VT_Int4, VT_Int8)} then
        EvaluateUnary t s EvaluateCastInt arg
      else if (s, t) = (VT_Float4, VT_Float8) then EvaluateUnary t s EvaluateCastFloat4Float8 arg
      else if (s, t) = (VT_Date, VT_Timestamp) then EvaluateUnary t s EvaluateCastDateTimestamp arg
      else if (s, t) = (VT_Timestamptz, VT_Timestamp) then
        (case shift of
           None \<Rightarrow> Inl (Execution_error ''unsupported cast from timestamptz to timestamp'')
         | Some us \<Rightarrow> Inr (arg\<lparr>gs_min_max :=
             Make_min_max t (EvaluateCastTimestamptzTimestamp (stats_value (gs_min_max arg)) us)\<rparr>))
      else Inl (Execution_error ''unsupported cast''))"

lemma bindE_assoc: "bindE (bindE r f) g = bindE r (\<lambda>x. bindE (f x) g)"
  by (cases r) simp_all

text \<open>The chain of set comparisons is a look-up of the common type.\<close>

lemma CastToSameTypeForComparison_pair:
  "CastToSameTypeForComparison shift [l, r] =
     (case common_type (stats_type (gs_min_max l)) (stats_type (gs_min_max r)) of
        None \<Rightarrow> Inl (Execution_error ''unsupported cast'')
      | Some t \<Rightarrow> bindE (convert_stats shift t l) (\<lambda>l'. bindE (convert_stats shift t r) (\<lambda>r'. Inr [l', r'])))"
proof -
  define s t where "s = stats_type (gs_min_max l)" and "t = stats_type (gs_min_max r)"
  note st = s_def [symmetric] t_def [symmetric]
  have card: "card {s, t} = 1 \<longleftrightarrow> s = t" by (auto simp: card_insert_if)
  have three: "{s, t} \<noteq> {VT_Int2, VT_Int4, VT_Int8}"
  proof
    assume eq: "{s, t} = {VT_Int2, VT_Int4, VT_Int8}"
    have "VT_Int2 \<in> {s, t}" "VT_Int4 \<in> {s, t}" "VT_Int8 \<in> {s, t}" unfolding eq by simp_all
    then show False by auto
  qed
  note unfold = CastToSameTypeForComparison_def common_type_def Let_def list.map list.set st card
  consider "s = t" | "s \<noteq> t" "{s, t} = {VT_Int2, VT_Int4}"
    | "s \<noteq> t" "{s, t} = {VT_Int4, VT_Int8} \<or> {s, t} = {VT_Int2, VT_Int8}"
    | "s \<noteq> t" "{s, t} = {VT_Float4, VT_Float8}"
    | "s \<noteq> t" "{s, t} = {VT_Timestamp, VT_Timestamptz} \<or> {s, t} = {VT_Timestamp, VT_Date} \<or>
        {s, t} = {VT_Timestamptz, VT_Date}"
    | "s \<noteq> t" "{s, t} \<noteq> {VT_Int2, VT_Int4}" "{s, t} \<noteq> {VT_Int4, VT_Int8}" "{s, t} \<noteq> {VT_Int2, VT_Int8}"
      "{s, t} \<noteq> {VT_Float4, VT_Float8}" "{s, t} \<noteq> {VT_Timestamp, VT_Timestamptz}"
      "{s, t} \<noteq> {VT_Timestamp, VT_Date}" "{s, t} \<noteq> {VT_Timestamptz, VT_Date}"
    by argo
  then show ?thesis
  proof cases
    case 1
    then show ?thesis unfolding unfold by (simp add: convert_stats_def st)
  next
    case 6
    then show ?thesis using three unfolding unfold by simp
  next
    case 2
    then show ?thesis
      using three unfolding unfold doubleton_eq_iff by (elim disjE conjE; simp add: convert_stats_def st bindE_assoc split: option.splits)
  next
    case 3
    then show ?thesis
      using three unfolding unfold doubleton_eq_iff by (elim disjE conjE; simp add: convert_stats_def st bindE_assoc split: option.splits)
  next
    case 4
    then show ?thesis
      using three unfolding unfold doubleton_eq_iff by (elim disjE conjE; simp add: convert_stats_def st bindE_assoc split: option.splits)
  next
    case 5
    then show ?thesis
      using three unfolding unfold doubleton_eq_iff by (elim disjE conjE; simp add: convert_stats_def st bindE_assoc split: option.splits)
  qed
qed

lemma to_int64_id: "int64 n \<Longrightarrow> to_int64 n = n"
  by (simp add: int64_def to_int64_def)

lemma to_int64_range: "int64 (to_int64 n)"
  using pos_mod_bound [of "2 ^ 64" "n + 2 ^ 63"] pos_mod_sign [of "2 ^ 64" "n + 2 ^ 63"]
  by (simp add: int64_def to_int64_def)

lemma full_timestamp_range_covers:
  "PhysicalType VT_Timestamp (mm_min full_timestamp_range)" "PhysicalType VT_Timestamp (mm_max full_timestamp_range)"
  "between full_timestamp_range (P_int (to_int64 n))"
  using to_int64_range [of n] by (simp_all add: full_timestamp_range_def between_def int64_def)

lemma EvaluateCastDateTimestamp_covers:
  assumes "int32 lo" "int32 hi" "lo \<noteq> - (2 ^ 31)" "hi \<noteq> - (2 ^ 31)"
  defines "mm \<equiv> EvaluateCastDateTimestamp (MinMaxStats (P_int lo) (P_int hi))"
  shows "PhysicalType VT_Timestamp (mm_min mm)" "PhysicalType VT_Timestamp (mm_max mm)"
    and "lo \<le> d \<Longrightarrow> d \<le> hi \<Longrightarrow> between mm (P_int (to_int64 (d * kMicrosInDay)))"
proof -
  show "PhysicalType VT_Timestamp (mm_min mm)" "PhysicalType VT_Timestamp (mm_max mm)"
    using to_int64_range full_timestamp_range_covers(1,2) by (simp_all add: mm_def EvaluateCastDateTimestamp_def Let_def)
  assume d: "lo \<le> d" "d \<le> hi"
  show "between mm (P_int (to_int64 (d * kMicrosInDay)))"
  proof (cases "\<bar>lo\<bar> \<le> 1000000 \<and> \<bar>hi\<bar> \<le> 1000000")
    case True
    have "to_int64 (x * kMicrosInDay) = x * kMicrosInDay" if "\<bar>x\<bar> \<le> 1000000" for x
      using that by (intro to_int64_id) (auto simp: int64_def kMicrosInDay_def abs_le_iff)
    moreover have "\<bar>d\<bar> \<le> 1000000" using True d by (simp add: abs_le_iff)
    ultimately show ?thesis
      using True d assms(3,4)
      by (simp add: mm_def EvaluateCastDateTimestamp_def Let_def abs_int32_def between_def kMicrosInDay_def)
  next
    case False
    then have "mm = full_timestamp_range"
      using assms(3,4) by (auto simp: mm_def EvaluateCastDateTimestamp_def Let_def abs_int32_def)
    then show ?thesis by (simp add: full_timestamp_range_covers)
  qed
qed

lemma EvaluateCastTimestamptzTimestamp_covers:
  assumes "int64 lo" "int64 hi" "lo \<noteq> - (2 ^ 63)" "hi \<noteq> - (2 ^ 63)" "us \<noteq> - (2 ^ 63)"
  defines "mm \<equiv> EvaluateCastTimestamptzTimestamp (MinMaxStats (P_int lo) (P_int hi)) us"
  shows "PhysicalType VT_Timestamp (mm_min mm)" "PhysicalType VT_Timestamp (mm_max mm)"
    and "lo \<le> d \<Longrightarrow> d \<le> hi \<Longrightarrow> between mm (P_int (to_int64 (d + us)))"
proof -
  show "PhysicalType VT_Timestamp (mm_min mm)" "PhysicalType VT_Timestamp (mm_max mm)"
    using to_int64_range full_timestamp_range_covers(1,2)
    by (simp_all add: mm_def EvaluateCastTimestamptzTimestamp_def Let_def)
  assume d: "lo \<le> d" "d \<le> hi"
  show "between mm (P_int (to_int64 (d + us)))"
  proof (cases "\<bar>lo\<bar> \<le> 10 ^ 18 \<and> \<bar>hi\<bar> \<le> 10 ^ 18 \<and> \<bar>us\<bar> \<le> 10 ^ 18")
    case True
    have "to_int64 (x + us) = x + us" if "\<bar>x\<bar> \<le> 10 ^ 18" for x
      using that True by (intro to_int64_id) (auto simp: int64_def abs_le_iff)
    moreover have "\<bar>d\<bar> \<le> 10 ^ 18" using True d by (simp add: abs_le_iff)
    ultimately show ?thesis
      using True d assms(3-5)
      by (simp add: mm_def EvaluateCastTimestamptzTimestamp_def Let_def abs_int64_def between_def)
  next
    case False
    then have "mm = full_timestamp_range"
      using assms(3-5) by (auto simp: mm_def EvaluateCastTimestamptzTimestamp_def Let_def abs_int64_def)
    then show ?thesis by (simp add: full_timestamp_range_covers)
  qed
qed

text \<open>A conversion of the bounds covers the conversion of the values between them.\<close>

definition cast_covers ::
  "ValueType \<Rightarrow> ValueType \<Rightarrow> (physical MinMaxStats \<Rightarrow> physical MinMaxStats) \<Rightarrow> (physical \<Rightarrow> physical) \<Rightarrow> bool" where
  "cast_covers s t ev f \<longleftrightarrow>
     (\<forall>mm. min_max_ok \<lparr>stats_type = s, stats_value = mm\<rparr> \<longrightarrow> min_max_ok \<lparr>stats_type = t, stats_value = ev mm\<rparr> \<and>
       (\<forall>p. PhysicalType s p \<longrightarrow> between mm p \<longrightarrow> PhysicalType t (f p) \<and> between (ev mm) (f p)))"

lemma cast_covers_int:
  assumes "(s, t) \<in> {(VT_Int2, VT_Int4), (VT_Int2, VT_Int8), (VT_Int4, VT_Int8)}"
  shows "cast_covers s t EvaluateCastInt (\<lambda>p. p)"
  using assms
  by (auto simp: cast_covers_def min_max_ok_def Let_def EvaluateCastInt_def between_def Comparable_def int16_def int32_def int64_def
      split: physical.splits)

lemma cast_covers_float: "cast_covers VT_Float4 VT_Float8 EvaluateCastFloat4Float8 (\<lambda>p. P_double (float_to_double (physical_float p)))"
  by (auto simp: cast_covers_def min_max_ok_def Let_def EvaluateCastFloat4Float8_def between_def
      double_nan_float_to_double float_to_double_mono Comparable_def split: physical.splits)

lemma cast_covers_date:
  "cast_covers VT_Date VT_Timestamp EvaluateCastDateTimestamp (\<lambda>p. P_int (to_int64 (physical_int p * kMicrosInDay)))"
  unfolding cast_covers_def
proof (intro allI impI conjI)
  fix mm
  assume "min_max_ok \<lparr>stats_type = VT_Date, stats_value = mm\<rparr>"
  then obtain lo hi where mm: "mm = MinMaxStats (P_int lo) (P_int hi)" "int32 lo" "int32 hi" "lo \<noteq> - (2 ^ 31)" "hi \<noteq> - (2 ^ 31)"
    by (cases mm) (auto simp: min_max_ok_def Let_def split: physical.splits)
  note c = EvaluateCastDateTimestamp_covers [OF mm(2-5), folded mm(1)]
  show "min_max_ok \<lparr>stats_type = VT_Timestamp, stats_value = EvaluateCastDateTimestamp mm\<rparr>"
    using c(1,2) by (auto simp: min_max_ok_def Let_def split: physical.splits)
  fix p
  assume "PhysicalType VT_Date p" "between mm p"
  then obtain d where "p = P_int d" "lo \<le> d" "d \<le> hi" using mm(1) by (auto simp: between_def split: physical.splits)
  then show "between (EvaluateCastDateTimestamp mm) (P_int (to_int64 (physical_int p * kMicrosInDay)))"
    using c(3) by simp
  show "PhysicalType VT_Timestamp (P_int (to_int64 (physical_int p * kMicrosInDay)))" using to_int64_range by simp
qed

lemma cast_covers_timestamptz:
  assumes "us \<noteq> - (2 ^ 63)"
  shows "cast_covers VT_Timestamptz VT_Timestamp (\<lambda>mm. EvaluateCastTimestamptzTimestamp mm us)
    (\<lambda>p. P_int (to_int64 (physical_int p + us)))"
  unfolding cast_covers_def
proof (intro allI impI conjI)
  fix mm
  assume "min_max_ok \<lparr>stats_type = VT_Timestamptz, stats_value = mm\<rparr>"
  then obtain lo hi where mm: "mm = MinMaxStats (P_int lo) (P_int hi)" "int64 lo" "int64 hi" "lo \<noteq> - (2 ^ 63)" "hi \<noteq> - (2 ^ 63)"
    by (cases mm) (auto simp: min_max_ok_def Let_def split: physical.splits)
  note c = EvaluateCastTimestamptzTimestamp_covers [OF mm(2-5) assms, folded mm(1)]
  show "min_max_ok \<lparr>stats_type = VT_Timestamp, stats_value = EvaluateCastTimestamptzTimestamp mm us\<rparr>"
    using c(1,2) by (auto simp: min_max_ok_def Let_def split: physical.splits)
  fix p
  assume "PhysicalType VT_Timestamptz p" "between mm p"
  then obtain d where "p = P_int d" "lo \<le> d" "d \<le> hi" using mm(1) by (auto simp: between_def split: physical.splits)
  then show "between (EvaluateCastTimestamptzTimestamp mm us) (P_int (to_int64 (physical_int p + us)))"
    using c(3) by simp
  show "PhysicalType VT_Timestamp (P_int (to_int64 (physical_int p + us)))" using to_int64_range by simp
qed

lemma in_stats_cast:
  assumes "cast_covers s t ev f" "Comparable s" "in_stats l v" "stats_type (gs_min_max l) = s"
  shows "in_stats (l\<lparr>gs_min_max := Make_min_max t (ev (stats_value (gs_min_max l)))\<rparr>) (Value t (map_option f (GetHolder v)))"
proof -
  have ok: "min_max_ok \<lparr>stats_type = s, stats_value = stats_value (gs_min_max l)\<rparr>"
    using assms(3,4) by (cases "gs_min_max l") (simp add: in_stats_def)
  then have ok': "min_max_ok \<lparr>stats_type = t, stats_value = ev (stats_value (gs_min_max l))\<rparr>"
    and p: "PhysicalType s p \<Longrightarrow> between (stats_value (gs_min_max l)) p \<Longrightarrow>
      PhysicalType t (f p) \<and> between (ev (stats_value (gs_min_max l))) (f p)" for p
    using assms(1) by (auto simp: cast_covers_def)
  show ?thesis
    using assms(2-4) ok' p by (cases "GetHolder v") (auto simp: in_stats_def Make_min_max_def)
qed

lemma convert_stats_sound:
  assumes "shift_ok shift" "convert_stats shift t l = Inr l'" "in_stats l v"
  obtains f where "convert shift (GetValueType v) t = Some f" "in_stats l' (Value t (map_option f (GetHolder v)))"
proof -
  define s where "s = stats_type (gs_min_max l)"
  have s: "GetValueType v = s" using assms(3) by (simp add: in_stats_def s_def)
  note d = convert_stats_def Let_def s_def [symmetric] EvaluateUnary_def
  consider "s = t" | "(s, t) \<in> {(VT_Int2, VT_Int4), (VT_Int2, VT_Int8), (VT_Int4, VT_Int8)}"
    | "s = VT_Float4" "t = VT_Float8" | "s = VT_Date" "t = VT_Timestamp" | "s = VT_Timestamptz" "t = VT_Timestamp"
    using assms(2) unfolding d by (simp split: if_splits)
  then show thesis
  proof cases
    case 1
    then show thesis
      using that [of "\<lambda>p. p"] assms s by (cases v) (simp add: convert_def d option.map_id0 [unfolded id_def])
  next
    case 2
    then show thesis
      using that [of "\<lambda>p. p"] assms(2) s in_stats_cast [OF cast_covers_int [OF 2] _ assms(3)]
      by (auto simp: convert_def d Comparable_def)
  next
    case 3
    then show thesis
      using that assms(2) s in_stats_cast [OF cast_covers_float _ assms(3)] by (auto simp: convert_def d Comparable_def)
  next
    case 4
    then show thesis
      using that assms(2) s in_stats_cast [OF cast_covers_date _ assms(3)] by (auto simp: convert_def d Comparable_def)
  next
    case 5
    then obtain us where us: "shift = Some us" using assms(2) unfolding d by (auto split: option.splits)
    then have "us \<noteq> - (2 ^ 63)" using assms(1) by (simp add: shift_ok_def)
    then show thesis
      using that assms(2) s us 5 in_stats_cast [OF cast_covers_timestamptz _ assms(3)]
      by (auto simp: convert_def d Comparable_def)
  qed
qed

subsection \<open>Evaluators\<close>

lemma find_evaluator_Some:
  "find_evaluator es fid accepts = Some ev \<Longrightarrow> \<exists>vt. (fid, vt, ev) \<in> set es \<and> accepts vt"
  by (induction es fid accepts rule: find_evaluator.induct) (auto split: if_splits)

lemma kBinaryEvaluators_entry:
  assumes "(fid, vt, ev) \<in> set kBinaryEvaluators"
  shows "Comparable vt \<and> AreCastsBeforeInvokeAllowed fid \<and>
    (\<exists>cmp. (fid, cmp) \<in> set comparison_evaluators \<and> ev = EvaluateBinary vt cmp)"
proof -
  from assms obtain vt' where vt': "vt' \<in> {VT_Bool, VT_Float4, VT_Float8, VT_Int2, VT_Int4, VT_Int8, VT_Date, VT_Time,
      VT_Timestamp, VT_Timestamptz, VT_String}" "(fid, vt, ev) \<in> set (REGISTER_COMPARISON vt')"
    unfolding kBinaryEvaluators_def set_concat set_map list.set by blast
  then have "\<exists>cmp. (fid, cmp) \<in> set comparison_evaluators \<and> vt = vt' \<and> ev = EvaluateBinary vt cmp"
    "AreCastsBeforeInvokeAllowed fid"
    by (auto simp: REGISTER_COMPARISON_def comparison_evaluators_def AreCastsBeforeInvokeAllowed_def)
  moreover have "Comparable vt'" using vt'(1) by (auto simp: Comparable_def)
  ultimately show ?thesis by auto
qed

lemma EvaluateBinary_sound:
  assumes "(fid, cmp) \<in> set comparison_evaluators" "EvaluateBinary t cmp l r = Inr st" "Comparable t"
    and "in_stats l (Value t v)" "in_stats r (Value t w)"
  shows "in_stats st (of_truth (case (v, w) of (Some a, Some b) \<Rightarrow> Some (compare_sem fid a b) | _ \<Rightarrow> None))"
proof -
  let ?b = "case (v, w) of (Some a, Some b) \<Rightarrow> Some (compare_sem fid a b) | _ \<Rightarrow> None"
  have st: "st = \<lparr>gs_min_max = Make_bool (cmp (stats_value (gs_min_max l)) (stats_value (gs_min_max r))),
      gs_count = \<lparr>contains_null = contains_null (gs_count l) \<or> contains_null (gs_count r),
        contains_non_null = contains_non_null (gs_count l) \<or> contains_non_null (gs_count r)\<rparr>\<rparr>"
    using assms(2) by (simp add: EvaluateBinary_def split: if_splits)
  have "bool_covers (cmp (stats_value (gs_min_max l)) (stats_value (gs_min_max r))) ?b"
    using assms(3-5) comparison_covers [OF assms(1)] by (auto simp: in_stats_def split: option.splits)
  then show ?thesis
    unfolding st in_stats_Make_bool using assms(4,5) by (auto simp: in_stats_def split: option.splits)
qed

lemma Registry_binary_sound:
  assumes "Registry_Evaluate shift fid [l, r] = Inr st" "shift_ok shift" "in_stats l v" "in_stats r w"
  shows "AreCastsBeforeInvokeAllowed fid"
    and "function_sem shift ext fid [v, w] = Some x \<Longrightarrow> in_stats st x"
proof -
  obtain args ev where args: "(if AreCastsBeforeInvokeAllowed fid then CastToSameTypeForComparison shift [l, r] else Inr [l, r]) =
        Inr args"
      and ev: "find_evaluator kBinaryEvaluators fid
        (\<lambda>vt. stats_type (gs_min_max (args ! 0)) = vt \<and> stats_type (gs_min_max (args ! 1)) = vt) = Some ev"
      and st: "ev (args ! 0) (args ! 1) = Inr st"
    using assms(1) by (auto simp: Registry_Evaluate_def Let_def bindE_eq_Inr_iff split: option.splits)
  obtain t cmp where t: "Comparable t" "(fid, cmp) \<in> set comparison_evaluators" "ev = EvaluateBinary t cmp"
      "stats_type (gs_min_max (args ! 0)) = t" "stats_type (gs_min_max (args ! 1)) = t"
      and fid: "AreCastsBeforeInvokeAllowed fid"
    using kBinaryEvaluators_entry find_evaluator_Some [OF ev] by blast
  show "AreCastsBeforeInvokeAllowed fid" by (rule fid)
  obtain u l' r' where u: "common_type (stats_type (gs_min_max l)) (stats_type (gs_min_max r)) = Some u"
      "convert_stats shift u l = Inr l'" "convert_stats shift u r = Inr r'" "args = [l', r']"
    using args fid unfolding CastToSameTypeForComparison_pair by (auto simp: bindE_eq_Inr_iff split: option.splits)
  obtain f where f: "convert shift (GetValueType v) u = Some f" "in_stats l' (Value u (map_option f (GetHolder v)))"
    using convert_stats_sound [OF assms(2) u(2) assms(3)] .
  obtain g where g: "convert shift (GetValueType w) u = Some g" "in_stats r' (Value u (map_option g (GetHolder w)))"
    using convert_stats_sound [OF assms(2) u(3) assms(4)] .
  have "u = t" using f(2) u(4) t(4) by (simp add: in_stats_def)
  have types: "GetValueType v = stats_type (gs_min_max l)" "GetValueType w = stats_type (gs_min_max r)"
    using assms(3,4) by (simp_all add: in_stats_def)
  have "in_stats st (of_truth (case (map_option f (GetHolder v), map_option g (GetHolder w)) of
      (Some a, Some b) \<Rightarrow> Some (compare_sem fid a b) | _ \<Rightarrow> None))"
    by (rule EvaluateBinary_sound [OF t(2) _ t(1), where l = l' and r = r'])
      (use st t(3) u(4) f(2) g(2) \<open>u = t\<close> in simp_all)
  moreover assume "function_sem shift ext fid [v, w] = Some x"
  then have "x = of_truth (case (GetHolder v, GetHolder w) of
      (Some a, Some b) \<Rightarrow> Some (compare_sem fid (f a) (g b)) | _ \<Rightarrow> None)"
    using fid u(1) f(1) g(1) t(1) \<open>u = t\<close> by (simp add: function_sem_def comparison_sem_def types)
  ultimately show "in_stats st x" by (cases "GetHolder v"; cases "GetHolder w") simp_all
qed

lemma Registry_unary_sound:
  assumes "Registry_Evaluate shift fid [l] = Inr st" "in_stats l v" "function_sem shift ext fid [v] = Some x"
  shows "in_stats st x"
proof -
  obtain ev where ev: "find_evaluator kUnaryEvaluators fid (\<lambda>vt. stats_type (gs_min_max l) = vt) = Some ev"
    and st: "ev l = Inr st"
    using assms(1) by (auto simp: Registry_Evaluate_def split: option.splits)
  define s where "s = stats_type (gs_min_max l)"
  have s: "GetValueType v = s" using assms(2) by (simp add: in_stats_def s_def)
  have x: "unary_sem ext fid v = Some x" using assms(3) by (simp add: function_sem_def)
  from find_evaluator_Some [OF ev] have "(fid, s, ev) \<in> set kUnaryEvaluators" by (simp add: s_def)
  then consider "fid = kIsNull" "ev = EvaluateIsNull"
    | t where "fid \<in> {kCastInt4, kCastInt8}" "(s, t) \<in> {(VT_Int2, VT_Int4), (VT_Int2, VT_Int8), (VT_Int4, VT_Int8)}"
        "ev = EvaluateUnary t s EvaluateCastInt" "unary_sem ext fid v = Some (Value t (GetHolder v))"
    | "fid = kCastFloat8" "s = VT_Float4" "ev = EvaluateUnary VT_Float8 s EvaluateCastFloat4Float8"
    by (auto simp: kUnaryEvaluators_def unary_sem_def s)
  then show ?thesis
  proof cases
    case 1
    have "st = \<lparr>gs_min_max = Make_bool (MinMaxStats (\<not> contains_non_null (gs_count l)) (contains_null (gs_count l))),
        gs_count = \<lparr>contains_null = False, contains_non_null = True\<rparr>\<rparr>"
      using 1 st by (simp add: EvaluateIsNull_def Let_def)
    moreover have "x = of_truth (Some (IsNull v))" using 1 x by (simp add: unary_sem_def)
    moreover have "if IsNull v then contains_null (gs_count l) else contains_non_null (gs_count l)"
      using assms(2) by (auto simp: in_stats_def IsNull_def split: option.splits)
    ultimately show ?thesis by (simp add: in_stats_Make_bool bool_covers_def split: if_splits)
  next
    case (2 t)
    then show ?thesis
      using st x in_stats_cast [OF cast_covers_int [OF 2(2)] _ assms(2)]
      by (auto simp: EvaluateUnary_def s_def [symmetric] Comparable_def option.map_id0 [unfolded id_def])
  next
    case 3
    then show ?thesis
      using st x in_stats_cast [OF cast_covers_float _ assms(2)]
      by (auto simp: EvaluateUnary_def s_def [symmetric] Comparable_def unary_sem_def s)
  qed
qed

lemma Registry_Evaluate_length: "Registry_Evaluate shift fid args = Inr st \<Longrightarrow> length args = 1 \<or> length args = 2"
  by (simp add: Registry_Evaluate_def split: if_splits)

lemma Registry_Evaluate_sound:
  assumes "Registry_Evaluate shift fid args = Inr st" "shift_ok shift" "list_all2 in_stats args vs"
    and "function_sem shift ext fid vs = Some x"
  shows "in_stats st x"
proof -
  consider l where "args = [l]" | l r where "args = [l, r]"
    using Registry_Evaluate_length [OF assms(1)] by (auto simp: length_Suc_conv numeral_2_eq_2)
  then show ?thesis
  proof cases
    case (1 l)
    then show ?thesis using assms Registry_unary_sound by (auto simp: list_all2_Cons1)
  next
    case (2 l r)
    then show ?thesis using assms Registry_binary_sound(2) by (auto simp: list_all2_Cons1)
  qed
qed

section \<open>The visitor over-approximates\<close>

lemma bindS_eq_Inr: "bindS r f = Inr (Inr x) \<longleftrightarrow> (\<exists>y. r = Inr (Inr y) \<and> f y = Inr (Inr x))"
proof (cases r)
  case (Inr s)
  then show ?thesis by (cases s) (simp_all add: bindS_def)
qed (simp add: bindS_def)

lemma combine3_assoc: "combine3 u (combine3 u a b) c = combine3 u a (combine3 u b c)"
proof -
  have "or3 (or3 a b) c = or3 a (or3 b c)"
    by (cases "(a, b)" rule: or3.cases; cases "(b, c)" rule: or3.cases) auto
  moreover have "and3 (and3 a b) c = and3 a (and3 b c)"
    by (cases "(a, b)" rule: and3.cases; cases "(b, c)" rule: and3.cases) auto
  ultimately show ?thesis by (simp add: combine3_def)
qed

lemma combine3_unit: "combine3 u (Some (\<not> u)) a = a" "combine3 u a (Some (\<not> u)) = a"
  by (cases a rule: option.exhaust; cases u; cases "the a"; simp add: combine3_def)+

lemma logical3_Nil [simp]: "combine3 u a (logical3 u []) = a"
  by (simp add: logical3_def combine3_unit)

lemma logical3_Cons: "combine3 u a (logical3 u (b # bs)) = combine3 u (combine3 u a b) (logical3 u bs)"
  by (simp add: logical3_def combine3_assoc)

lemma Aggregator_Result_covers:
  "in_stats (Aggregator_Result agg) (of_truth b) \<longleftrightarrow> bool_covers (current_result agg) b"
  by (simp add: Aggregator_Result_def GenericStats_unknown_count_def in_stats_Make_bool split: option.splits)

lemma Aggregator_Add_covers:
  assumes "bool_covers (current_result agg) a" "bool_covers m b" "Aggregator_Add agg m = (agg', final)"
  shows "agg_use_or agg' = agg_use_or agg"
    and "bool_covers (current_result agg') (combine3 (agg_use_or agg) a b)"
    and "final \<Longrightarrow> bool_covers (current_result agg') (combine3 (agg_use_or agg) (combine3 (agg_use_or agg) a b) c)"
proof -
  show u: "agg_use_or agg' = agg_use_or agg"
    and s: "bool_covers (current_result agg') (combine3 (agg_use_or agg) a b)"
    using assms(3) stats_or_covers [OF assms(1,2)] stats_and_covers [OF assms(1,2)]
    by (auto simp: Aggregator_Add_def Let_def combine3_def split: if_splits)
  assume final
  then have "current_result agg' = (if agg_use_or agg then kBoolStatsTrue else kBoolStatsFalse)"
    using assms(3) by (auto simp: Aggregator_Add_def Let_def split: if_splits)
  moreover have "bool_covers kBoolStatsTrue x \<Longrightarrow> bool_covers kBoolStatsTrue (or3 x c)"
    "bool_covers kBoolStatsFalse x \<Longrightarrow> bool_covers kBoolStatsFalse (and3 x c)" for x
    using stats_or_covers [of kBoolStatsTrue x, OF _ bool_covers_unknown [of c]]
      stats_and_covers [of kBoolStatsFalse x, OF _ bool_covers_unknown [of c]]
    by (simp_all add: stats_or_def stats_and_def bool_stats_defs)
  ultimately show "bool_covers (current_result agg') (combine3 (agg_use_or agg) (combine3 (agg_use_or agg) a b) c)"
    using s by (simp add: combine3_def split: if_splits)
qed

lemma mk_BoolStatsAggregator_covers:
  "agg_use_or (mk_BoolStatsAggregator u) = u" "bool_covers (current_result (mk_BoolStatsAggregator u)) (Some (\<not> u))"
  by (simp_all add: mk_BoolStatsAggregator_def bool_covers_def bool_stats_defs)

lemma truths_Cons: "truths (v # vs) = Some bs \<longleftrightarrow>
    (\<exists>x b bs'. v = Some x \<and> truth x = Some b \<and> truths vs = Some bs' \<and> bs = b # bs')"
  by (auto split: option.splits)

lemma singleton_stats:
  assumes "nullable_ok vt (Some p)" "exact vt (Some p)"
  shows "in_stats \<lparr>gs_min_max = Make_min_max vt (OneValueToStats p),
    gs_count = \<lparr>contains_null = False, contains_non_null = True\<rparr>\<rparr> (Value vt (Some p))"
  using assms by (simp add: in_stats_def Make_min_max_def OneValueToStats_def min_max_ok_def between_def)

lemma scalar_over_array_loop_sound:
  assumes "shift_ok shift" "in_stats l v" "list_all (nullable_ok vt) elems" "list_all (exact vt) elems"
    and "bool_covers (current_result agg) a"
    and "scalar_over_array_loop shift fid l vt agg elems = Inr (Inr st)"
    and "truths (map (\<lambda>elem. function_sem shift ext fid [v, Value vt elem]) elems) = Some bs"
  shows "in_stats st (of_truth (combine3 (agg_use_or agg) a (logical3 (agg_use_or agg) bs)))"
  using assms(3-)
proof (induction elems arbitrary: agg a bs)
  case (Cons elem elems)
  from Cons.prems(5) obtain x b bs' where x: "function_sem shift ext fid [v, Value vt elem] = Some x" "truth x = Some b"
    and bs: "truths (map (\<lambda>elem. function_sem shift ext fid [v, Value vt elem]) elems) = Some bs'" "bs = b # bs'"
    unfolding list.map truths_Cons by blast
  obtain m where m: "bool_covers m b" "(case Aggregator_Add agg m of (agg', final) \<Rightarrow>
       if final then Inr (Inr (Aggregator_Result agg'))
       else scalar_over_array_loop shift fid l vt agg' elems) = Inr (Inr st)"
  proof (cases elem)
    case None
    then show thesis using that [of kBoolStatsUnknown] Cons.prems(4) by (simp add: bindS_def)
  next
    case (Some p)
    then obtain stats where stats: "Registry_Evaluate shift fid [l, \<lparr>gs_min_max = Make_min_max vt (OneValueToStats p),
          gs_count = \<lparr>contains_null = False, contains_non_null = True\<rparr>\<rparr>] = Inr stats"
        "stats_type (gs_min_max stats) = VT_Bool"
        "(case Aggregator_Add agg (Get_bool (gs_min_max stats)) of (agg', final) \<Rightarrow>
          if final then Inr (Inr (Aggregator_Result agg'))
          else scalar_over_array_loop shift fid l vt agg' elems) = Inr (Inr st)"
      using Cons.prems(4) by (auto simp: bindS_eq_Inr status_error_def split: if_splits)
    have "in_stats stats x"
      using Registry_binary_sound(2) [OF stats(1) assms(1,2) singleton_stats] Cons.prems(1,2) x(1) Some by simp
    then have "bool_covers (Get_bool (gs_min_max stats)) b"
      using in_stats_bool [OF _ stats(2)] x(2) by fastforce
    then show thesis using that stats(3) by blast
  qed
  obtain agg' final where add: "Aggregator_Add agg m = (agg', final)" by (cases "Aggregator_Add agg m")
  note covers = Aggregator_Add_covers [OF Cons.prems(3) m(1) add]
  show ?case
  proof (cases final)
    case True
    then have "st = Aggregator_Result agg'" using m(2) add by simp
    then show ?thesis using covers(3) [OF True] by (simp add: bs(2) logical3_Cons Aggregator_Result_covers)
  next
    case False
    then have "scalar_over_array_loop shift fid l vt agg' elems = Inr (Inr st)" using m(2) add by simp
    then show ?thesis
      using Cons.IH [OF _ _ covers(2) _ bs(1)] Cons.prems(1,2) by (simp add: bs(2) logical3_Cons covers(1))
  qed
qed (auto simp: Aggregator_Result_covers)

text \<open>The visits of a list of arguments, given the soundness of the visit of each.\<close>

lemma Visit_arguments_sound:
  assumes "\<And>a st v. a \<in> set args \<Longrightarrow> Visit G shift a = Inr (Inr st) \<Longrightarrow> eval shift ext r a = Some v \<Longrightarrow> in_stats st v"
    and "Visit_arguments G shift args = Inr (Inr sts)" "those_list (map (eval shift ext r) args) = Some vs"
  shows "list_all2 in_stats sts vs"
  using assms
proof (induction args arbitrary: sts vs)
  case (Cons a args)
  from Cons.prems(2) obtain st sts' where "Visit G shift a = Inr (Inr st)" "sts = st # sts'"
    "Visit_arguments G shift args = Inr (Inr sts')" by (auto simp: bindS_eq_Inr)
  moreover from Cons.prems(3) obtain v vs' where "eval shift ext r a = Some v" "vs = v # vs'"
    "those_list (map (eval shift ext r) args) = Some vs'" by (auto split: option.splits)
  moreover from calculation have "list_all2 in_stats sts' vs'"
    by (intro Cons.IH) (auto intro: Cons.prems(1))
  ultimately show ?case using Cons.prems(1) [of a st v] by simp
qed simp

lemma Visit_logical_sound:
  assumes "\<And>a st v. a \<in> set args \<Longrightarrow> Visit G shift a = Inr (Inr st) \<Longrightarrow> eval shift ext r a = Some v \<Longrightarrow> in_stats st v"
    and "bool_covers (current_result agg) acc"
    and "Visit_logical G shift agg args = Inr (Inr st)" "truths (map (eval shift ext r) args) = Some bs"
  shows "in_stats st (of_truth (combine3 (agg_use_or agg) acc (logical3 (agg_use_or agg) bs)))"
  using assms
proof (induction args arbitrary: agg acc bs)
  case (Cons a args)
  from Cons.prems(4) obtain x b bs' where x: "eval shift ext r a = Some x" "truth x = Some b"
    and bs: "truths (map (eval shift ext r) args) = Some bs'" "bs = b # bs'"
    unfolding list.map truths_Cons by blast
  from Cons.prems(3) obtain res where res: "Visit G shift a = Inr res" by (auto simp: bindE_eq_Inr_iff)
  have IH: "\<And>agg acc. bool_covers (current_result agg) acc \<Longrightarrow> Visit_logical G shift agg args = Inr (Inr st) \<Longrightarrow>
      in_stats st (of_truth (combine3 (agg_use_or agg) acc (logical3 (agg_use_or agg) bs')))"
    using Cons.IH [OF _ _ _ bs(1)] Cons.prems(1) by (meson list.set_intros(2))
  obtain m final' where m: "bool_covers m b" "(case Aggregator_Add agg m of (agg', final) \<Rightarrow>
       if final' \<and> final then Inr (Inr (Aggregator_Result agg')) else Visit_logical G shift agg' args) = Inr (Inr st)"
  proof (cases res)
    case (Inl e)
    then show thesis
      using that [of kBoolStatsUnknown False] Cons.prems(3) res by (simp add: case_prod_unfold)
  next
    case (Inr stats)
    then have t: "stats_type (gs_min_max stats) = VT_Bool"
      using Cons.prems(3) res by (auto simp: status_error_def split: if_splits)
    have "in_stats stats x" using Cons.prems(1) [of a stats x] res Inr x(1) by simp
    then have "bool_covers (Get_bool (gs_min_max stats)) b" using in_stats_bool [OF _ t] x(2) by fastforce
    then show thesis using that [of _ True] Cons.prems(3) res Inr t by simp
  qed
  obtain agg' final where add: "Aggregator_Add agg m = (agg', final)" by (cases "Aggregator_Add agg m")
  note covers = Aggregator_Add_covers [OF Cons.prems(2) m(1) add]
  show ?case
  proof (cases "final' \<and> final")
    case True
    then have "st = Aggregator_Result agg'" using m(2) add by simp
    then show ?thesis using covers(3) True by (simp add: bs(2) logical3_Cons Aggregator_Result_covers)
  next
    case False
    then have "Visit_logical G shift agg' args = Inr (Inr st)" using m(2) add by (simp split: if_splits)
    then show ?thesis using IH [OF covers(2)] by (simp add: bs(2) logical3_Cons covers(1))
  qed
qed (auto simp: Aggregator_Result_covers)

end
