(* ===== verification/Stats_Correctness.thy ===== *)
theory Stats_Correctness
  imports Stats_Soundness
begin

text \<open>
  The soundness of the filter on statistics as a whole, the rewriting of operators over
  arrays, and the behaviours that bound the soundness: a null condition, and a number
  that is not one.
\<close>

section \<open>Soundness\<close>

lemma GenericStats_unknown_count_stats:
  assumes "min_max_ok (Make_min_max vt mm)" "Comparable vt"
    and "PhysicalType vt p \<and> between mm p \<or> h = None" "h = Some p \<or> h = None"
  shows "in_stats (GenericStats_unknown_count (Make_min_max vt mm)) (Value vt h)"
  using assms by (auto simp: in_stats_def GenericStats_unknown_count_def Make_min_max_def split: option.splits)

lemma std_min_max_cases: "std_min a b = a \<or> std_min a b = b" "std_max a b = a \<or> std_max a b = b"
  by (simp_all add: std_min_def std_max_def)

lemma std_min_covers: "physical_less_equal a p \<Longrightarrow> physical_less_equal (std_min a b) p"
  by (erule physical_less_equal_cases; cases b; auto simp: std_min_def)

lemma std_min_covers':
  "PhysicalType vt a \<Longrightarrow> PhysicalType vt b \<Longrightarrow> physical_less_equal a a \<Longrightarrow> physical_less_equal b p \<Longrightarrow>
    physical_less_equal (std_min a b) p"
  by (erule physical_less_equal_cases [of b]; cases vt; cases a; auto simp: std_min_def)

lemma std_max_covers: "physical_less_equal p a \<Longrightarrow> physical_less_equal p (std_max a b)"
  by (erule physical_less_equal_cases; cases b; auto simp: std_max_def)

lemma std_max_covers':
  "PhysicalType vt a \<Longrightarrow> PhysicalType vt b \<Longrightarrow> physical_less_equal a a \<Longrightarrow> physical_less_equal p b \<Longrightarrow>
    physical_less_equal p (std_max a b)"
  by (erule physical_less_equal_cases [of _ b]; cases vt; cases a; auto simp: std_max_def)

subsection \<open>The statistics computed are well-formed\<close>

lemma Make_bool_ok [simp]: "min_max_ok (Make_bool m)"
  by (simp add: Make_bool_def Make_min_max_def min_max_ok_def)

lemma Aggregator_Result_ok [simp]: "min_max_ok (gs_min_max (Aggregator_Result agg))"
  by (simp add: Aggregator_Result_def GenericStats_unknown_count_def)

lemma EvaluateUnary_ok:
  assumes "cast_covers s t ev f" "EvaluateUnary t s ev l = Inr st" "min_max_ok (gs_min_max l)"
  shows "min_max_ok (gs_min_max st)"
proof -
  have "gs_min_max l = \<lparr>stats_type = s, stats_value = stats_value (gs_min_max l)\<rparr>"
    using assms(2) by (cases "gs_min_max l") (simp add: EvaluateUnary_def split: if_splits)
  then have "min_max_ok \<lparr>stats_type = s, stats_value = stats_value (gs_min_max l)\<rparr>" using assms(3) by metis
  then have "min_max_ok \<lparr>stats_type = t, stats_value = ev (stats_value (gs_min_max l))\<rparr>"
    using assms(1) by (simp add: cast_covers_def)
  then show ?thesis using assms(2) by (auto simp: EvaluateUnary_def Make_min_max_def split: if_splits)
qed

lemma Registry_Evaluate_ok:
  assumes "Registry_Evaluate shift fid args = Inr st" "list_all (\<lambda>l. min_max_ok (gs_min_max l)) args"
  shows "min_max_ok (gs_min_max st)"
proof -
  consider l where "args = [l]" | l r where "args = [l, r]"
    using Registry_Evaluate_length [OF assms(1)] by (auto simp: length_Suc_conv numeral_2_eq_2)
  then show ?thesis
  proof cases
    case (1 l)
    then obtain ev where ev: "find_evaluator kUnaryEvaluators fid (\<lambda>vt. stats_type (gs_min_max l) = vt) = Some ev" "ev l = Inr st"
      using assms(1) by (auto simp: Registry_Evaluate_def split: option.splits)
    then consider "ev = EvaluateIsNull" | s t where "(s, t) \<in> {(VT_Int2, VT_Int4), (VT_Int2, VT_Int8), (VT_Int4, VT_Int8)}"
        "ev = EvaluateUnary t s EvaluateCastInt" | "ev = EvaluateUnary VT_Float8 VT_Float4 EvaluateCastFloat4Float8"
      using find_evaluator_Some [OF ev(1)] by (auto simp: kUnaryEvaluators_def)
    then show ?thesis
    proof cases
      case (2 s t)
      then show ?thesis using EvaluateUnary_ok [OF cast_covers_int [OF 2(1)]] ev(2) assms(2) \<open>args = [l]\<close> by simp
    next
      case 3
      then show ?thesis using EvaluateUnary_ok [OF cast_covers_float] ev(2) assms(2) \<open>args = [l]\<close> by simp
    qed (use ev(2) in \<open>auto simp: EvaluateIsNull_def Let_def\<close>)
  next
    case (2 l r)
    then obtain args' ev where ev: "find_evaluator kBinaryEvaluators fid
        (\<lambda>vt. stats_type (gs_min_max (args' ! 0)) = vt \<and> stats_type (gs_min_max (args' ! 1)) = vt) = Some ev"
      "ev (args' ! 0) (args' ! 1) = Inr st"
      using assms(1) by (auto simp: Registry_Evaluate_def Let_def bindE_eq_Inr_iff split: option.splits)
    then obtain t cmp where "EvaluateBinary t cmp (args' ! 0) (args' ! 1) = Inr st"
      using find_evaluator_Some [OF ev(1)] kBinaryEvaluators_entry by blast
    then show ?thesis by (auto simp: EvaluateBinary_def split: if_splits)
  qed
qed

lemma merge_branches_ok:
  assumes "merge_branches a b = Inr (Inr st)" "min_max_ok (gs_min_max a)" "min_max_ok (gs_min_max b)"
  shows "min_max_ok (gs_min_max st)"
proof -
  let ?a = "stats_value (gs_min_max a)" and ?b = "stats_value (gs_min_max b)"
  have "st = GenericStats_unknown_count (Make_min_max (stats_type (gs_min_max a))
      (MinMaxStats (std_min (mm_min ?a) (mm_min ?b)) (std_max (mm_max ?a) (mm_max ?b))))"
    "stats_type (gs_min_max a) = stats_type (gs_min_max b)"
    using assms(1) by (auto simp: merge_branches_def status_error_def Let_def split: if_splits)
  then show ?thesis
    using assms(2,3) std_min_max_cases(1) [of "mm_min ?a" "mm_min ?b"] std_min_max_cases(2) [of "mm_max ?a" "mm_max ?b"]
    by (auto simp: min_max_ok_def Let_def GenericStats_unknown_count_def Make_min_max_def)
qed

lemma scalar_over_array_loop_ok:
  "scalar_over_array_loop shift fid l vt agg elems = Inr (Inr st) \<Longrightarrow> min_max_ok (gs_min_max st)"
proof (induction elems arbitrary: agg)
  case (Cons elem elems)
  from Cons.prems obtain m where "(case Aggregator_Add agg m of (agg', final) \<Rightarrow>
      if final then Inr (Inr (Aggregator_Result agg'))
      else scalar_over_array_loop shift fid l vt agg' elems) = Inr (Inr st)"
    unfolding scalar_over_array_loop.simps bindS_eq_Inr by blast
  then show ?case using Cons.IH by (auto split: prod.splits if_splits)
qed auto

lemma Visit_logical_ok:
  "Visit_logical G shift agg ns = Inr (Inr st) \<Longrightarrow> min_max_ok (gs_min_max st)"
proof (induction ns arbitrary: agg)
  case (Cons n ns)
  from Cons.prems obtain res where res: "Visit G shift n = Inr res" by (auto simp: bindE_eq_Inr_iff)
  show ?case
  proof (cases res)
    case (Inl e)
    then show ?thesis using Cons res by simp
  next
    case (Inr s)
    then show ?thesis using Cons res by (auto simp: status_error_def split: prod.splits if_splits)
  qed
qed auto

lemma Visit_arguments_ok:
  assumes "\<And>a st. a \<in> set args \<Longrightarrow> Visit G shift a = Inr (Inr st) \<Longrightarrow> min_max_ok (gs_min_max st)"
    and "Visit_arguments G shift args = Inr (Inr sts)"
  shows "list_all (\<lambda>st. min_max_ok (gs_min_max st)) sts"
  using assms
proof (induction args arbitrary: sts)
  case (Cons a args)
  from Cons.prems(2) obtain st sts' where st: "Visit G shift a = Inr (Inr st)" "sts = st # sts'"
    "Visit_arguments G shift args = Inr (Inr sts')" by (auto simp: bindS_eq_Inr)
  moreover have "list_all (\<lambda>st. min_max_ok (gs_min_max st)) sts'"
    using st(3) by (intro Cons.IH) (auto intro: Cons.prems(1))
  ultimately show ?case using Cons.prems(1) [of a st] by simp
qed simp

lemma Visit_ConstNode_stats:
  assumes "Visit_ConstNode v = Inr (Inr st)"
  obtains p where "v = Value (GetValueType v) (Some p)"
    "st = \<lparr>gs_min_max = Make_min_max (GetValueType v) (OneValueToStats p),
      gs_count = \<lparr>contains_null = False, contains_non_null = True\<rparr>\<rparr>"
  using assms
  by (cases v; cases "GetHolder v")
    (auto simp: Visit_ConstNode_def IsNull_def status_error_def GetValue_def GetOptional_def)

lemma Visit_ConstNode_sound:
  assumes "Visit_ConstNode v = Inr (Inr st)" "value_ok v" "exact (GetValueType v) (GetHolder v)"
  shows "in_stats st v"
proof -
  obtain p where p: "v = Value (GetValueType v) (Some p)"
    "st = \<lparr>gs_min_max = Make_min_max (GetValueType v) (OneValueToStats p),
      gs_count = \<lparr>contains_null = False, contains_non_null = True\<rparr>\<rparr>"
    using Visit_ConstNode_stats [OF assms(1)] .
  have "GetHolder v = Some p" by (subst p(1)) simp
  then have "in_stats st (Value (GetValueType v) (Some p))"
    unfolding p(2) using assms(2,3) by (intro singleton_stats) (simp_all add: value_ok_def)
  then show ?thesis using p(1) by metis
qed

lemma Visit_VariableNode_Inr: "Visit_VariableNode G vt name = Inr (Inr st) \<longleftrightarrow> G name vt = Inr (Some st)"
  by (auto simp: Visit_VariableNode_def bindE_eq_Inr_iff status_error_def split: option.splits)

lemma Visit_ok:
  assumes "getter_covers G r"
  shows "node_ok n \<Longrightarrow> exact_constants n \<Longrightarrow> Visit G shift n = Inr (Inr st) \<Longrightarrow> min_max_ok (gs_min_max st)"
proof (induction n arbitrary: st)
  case (VariableNode vt name)
  then have "G name vt = Inr (Some st)" by (simp add: Visit_VariableNode_Inr)
  then show ?case using assms by (auto simp: getter_covers_def in_stats_def)
next
  case (ConstNode v)
  then have "in_stats st v" using Visit_ConstNode_sound by simp
  then show ?case by (simp add: in_stats_def)
next
  case (IfNode c t e)
  from IfNode.prems(3) consider "Visit G shift t = Inr (Inr st)" | "Visit G shift e = Inr (Inr st)"
    | a b where "Visit G shift t = Inr (Inr a)" "Visit G shift e = Inr (Inr b)" "merge_branches a b = Inr (Inr st)"
    by (auto simp: bindS_eq_Inr status_error_def split: if_splits)
  then show ?case using IfNode.IH IfNode.prems(1,2) by cases (auto intro: merge_branches_ok)
next
  case (LogicalNode op args)
  then show ?case
    by (cases op) (auto simp: bindS_eq_Inr status_error_def intro: Visit_logical_ok split: if_splits list.splits)
next
  case (FunctionNode sig args)
  then obtain sts where sts: "Visit_arguments G shift args = Inr (Inr sts)"
    "Registry_Evaluate shift (function_id sig) sts = Inr st" by (auto simp: bindS_eq_Inr)
  have "list_all (\<lambda>st. min_max_ok (gs_min_max st)) sts"
    using sts(1) FunctionNode by (intro Visit_arguments_ok) (auto simp: list_all_iff)
  then show ?case using Registry_Evaluate_ok [OF sts(2)] by simp
next
  case (ScalarOverArrayFunctionNode sig use_or lhs array)
  then show ?case by (auto simp: bindS_eq_Inr intro: scalar_over_array_loop_ok)
qed

subsection \<open>The value of an expression is in its statistics\<close>

lemma merge_branches_sound:
  assumes "merge_branches a b = Inr (Inr st)" "min_max_ok (gs_min_max a)" "min_max_ok (gs_min_max b)"
    and "in_stats a v \<or> in_stats b v"
  shows "in_stats st v"
proof -
  let ?a = "stats_value (gs_min_max a)" and ?b = "stats_value (gs_min_max b)" and ?vt = "stats_type (gs_min_max a)"
  let ?mm = "MinMaxStats (std_min (mm_min ?a) (mm_min ?b)) (std_max (mm_max ?a) (mm_max ?b))"
  have st: "st = GenericStats_unknown_count (Make_min_max ?vt ?mm)"
    "?vt = stats_type (gs_min_max b)" "Comparable ?vt"
    using assms(1) by (auto simp: merge_branches_def status_error_def Let_def split: if_splits)
  have ok: "min_max_ok (Make_min_max ?vt ?mm)"
    using merge_branches_ok [OF assms(1-3)] st(1) by (simp add: GenericStats_unknown_count_def)
  have vt: "GetValueType v = ?vt" using assms(4) st(2) by (auto simp: in_stats_def)
  show ?thesis
  proof (cases "GetHolder v")
    case None
    then show ?thesis using ok vt st by (simp add: in_stats_def GenericStats_unknown_count_def Make_min_max_def)
  next
    case (Some p)
    then have p: "PhysicalType ?vt p" "between ?a p \<or> between ?b p"
      using assms(4) vt st(2,3) by (auto simp: in_stats_def)
    note bounds = assms(2,3) [unfolded min_max_ok_def Let_def]
    have "between ?mm p"
      using p(2) bounds st(2,3) std_min_covers std_max_covers std_min_covers' [of ?vt] std_max_covers' [of ?vt]
      by (auto simp: between_def)
    then show ?thesis
      using Some ok vt st p(1) by (simp add: in_stats_def GenericStats_unknown_count_def Make_min_max_def)
  qed
qed

lemma truths_map_Not:
  "truths (map (eval shift ext r) args) = Some [b] \<Longrightarrow> \<exists>a x. args = [a] \<and> eval shift ext r a = Some x \<and> truth x = Some b"
  by (cases args; cases "tl args") (auto simp: truths_Cons simp del: truths.simps(2))

lemma Visit_sound:
  assumes "shift_ok shift" "getter_covers G r"
  shows "node_ok n \<Longrightarrow> exact_constants n \<Longrightarrow> conditions_known shift ext r n \<Longrightarrow>
    Visit G shift n = Inr (Inr st) \<Longrightarrow> eval shift ext r n = Some v \<Longrightarrow> in_stats st v"
proof (induction n arbitrary: st v)
  case (VariableNode vt name)
  then show ?case using assms(2) by (auto simp: Visit_VariableNode_Inr getter_covers_def)
next
  case (ConstNode w)
  then show ?case using Visit_ConstNode_sound by simp
next
  case (IfNode c t e)
  from IfNode.prems(4) obtain cs where cs: "Visit G shift c = Inr (Inr cs)" "stats_type (gs_min_max cs) = VT_Bool"
    by (auto simp: bindS_eq_Inr status_error_def split: if_splits)
  from IfNode.prems(5) obtain x b where x: "eval shift ext r c = Some x" "truth x = Some b"
    "(if b = Some True then eval shift ext r t else eval shift ext r e) = Some v"
    by (auto split: option.splits)
  have "in_stats cs x" using IfNode.IH(1) IfNode.prems cs(1) x(1) by simp
  then have b: "bool_covers (Get_bool (gs_min_max cs)) b" "x = of_truth b"
    using in_stats_bool [OF _ cs(2)] x(2) by (metis option.inject truth_of_truth)+
  have "b \<noteq> None" using IfNode.prems(3) x(1) b(2) by (auto simp: of_truth_def)
  then have known: "mm_min (Get_bool (gs_min_max cs)) \<Longrightarrow> b = Some True"
    "\<not> mm_max (Get_bool (gs_min_max cs)) \<Longrightarrow> b = Some False"
    using b(1) by (auto simp: bool_covers_def)
  from IfNode.prems(4) cs consider "mm_min (Get_bool (gs_min_max cs))" "Visit G shift t = Inr (Inr st)"
    | "\<not> mm_max (Get_bool (gs_min_max cs))" "Visit G shift e = Inr (Inr st)"
    | sa sb where "Visit G shift t = Inr (Inr sa)" "Visit G shift e = Inr (Inr sb)" "merge_branches sa sb = Inr (Inr st)"
    by (auto simp: bindS_eq_Inr split: if_splits)
  then show ?case
  proof cases
    case 1
    then show ?thesis using known(1) x(3) IfNode.IH(2) IfNode.prems by simp
  next
    case 2
    then show ?thesis using known(2) x(3) IfNode.IH(3) IfNode.prems by simp
  next
    case (3 sa sb)
    have "min_max_ok (gs_min_max sa)" "min_max_ok (gs_min_max sb)"
      using Visit_ok [OF assms(2)] IfNode.prems(1,2) 3 by auto
    moreover have "in_stats sa v \<or> in_stats sb v"
      using x(3) IfNode.IH(2,3) IfNode.prems 3 by (auto split: if_splits)
    ultimately show ?thesis using merge_branches_sound 3(3) by blast
  qed
next
  case (LogicalNode op args)
  have IH: "\<And>a st v. a \<in> set args \<Longrightarrow> Visit G shift a = Inr (Inr st) \<Longrightarrow> eval shift ext r a = Some v \<Longrightarrow> in_stats st v"
    using LogicalNode.IH LogicalNode.prems(1-3) by (auto simp: list_all_iff)
  obtain bs where bs: "truths (map (eval shift ext r) args) = Some bs"
    using LogicalNode.prems(5) by (auto split: option.splits)
  show ?case
  proof (cases "op = kNot")
    case True
    then obtain b where b: "bs = [b]" "v = of_truth (map_option Not b)"
      using LogicalNode.prems(5) bs by (auto split: list.splits)
    then obtain a x where a: "args = [a]" "eval shift ext r a = Some x" "truth x = Some b"
      using truths_map_Not bs by blast
    obtain s where s: "Visit G shift a = Inr (Inr s)" "stats_type (gs_min_max s) = VT_Bool"
      "st = s\<lparr>gs_min_max := Make_bool (stats_not (Get_bool (gs_min_max s)))\<rparr>"
      using LogicalNode.prems(4) True a(1) by (auto simp: bindS_eq_Inr status_error_def split: if_splits)
    have x: "in_stats s x" using IH a(1,2) s(1) by simp
    then have c: "bool_covers (Get_bool (gs_min_max s)) b" "x = of_truth b"
      using in_stats_bool [OF _ s(2)] a(3) by (metis option.inject truth_of_truth)+
    have "case b of None \<Rightarrow> contains_null (gs_count s) | Some _ \<Rightarrow> contains_non_null (gs_count s)"
      using x c(2) by (auto simp: in_stats_def of_truth_def split: option.splits)
    moreover have "st = \<lparr>gs_min_max = Make_bool (stats_not (Get_bool (gs_min_max s))), gs_count = gs_count s\<rparr>"
      using s(3) by (cases s) simp
    ultimately show ?thesis
      using stats_not_covers [OF c(1)] by (simp add: b(2) in_stats_Make_bool split: option.splits)
  next
    case False
    define u where "u = (op = kOr)"
    have v: "v = of_truth (logical3 u bs)" using False LogicalNode.prems(5) bs u_def by (cases op) auto
    have "Visit_logical G shift (mk_BoolStatsAggregator u) args = Inr (Inr st)"
      using False LogicalNode.prems(4) u_def by (cases op) auto
    from Visit_logical_sound [OF IH mk_BoolStatsAggregator_covers(2) this bs]
    have "in_stats st (of_truth (combine3 u (Some (\<not> u)) (logical3 u bs)))"
      by (simp add: mk_BoolStatsAggregator_covers(1))
    then show ?thesis by (simp add: v combine3_unit)
  qed
next
  case (FunctionNode sig args)
  then obtain sts where sts: "Visit_arguments G shift args = Inr (Inr sts)"
    "Registry_Evaluate shift (function_id sig) sts = Inr st" by (auto simp: bindS_eq_Inr)
  from FunctionNode.prems(5) obtain vs where vs: "those_list (map (eval shift ext r) args) = Some vs"
    "function_sem shift ext (function_id sig) vs = Some v" by (auto split: option.splits)
  have "list_all2 in_stats sts vs"
    using FunctionNode by (intro Visit_arguments_sound [OF _ sts(1) vs(1)]) (auto simp: list_all_iff)
  then show ?case using Registry_Evaluate_sound [OF sts(2) assms(1)] vs(2) by blast
next
  case (ScalarOverArrayFunctionNode sig use_or lhs array)
  let ?vt = "array_GetValueType array" and ?elems = "array_GetValue array"
  from ScalarOverArrayFunctionNode.prems(4) obtain l where l: "Visit G shift lhs = Inr (Inr l)"
    "scalar_over_array_loop shift (function_id sig) l ?vt (mk_BoolStatsAggregator use_or) ?elems = Inr (Inr st)"
    by (auto simp: bindS_eq_Inr)
  from ScalarOverArrayFunctionNode.prems(5) obtain x bs where x: "eval shift ext r lhs = Some x"
    "truths (map (\<lambda>elem. function_sem shift ext (function_id sig) [x, Value ?vt elem]) ?elems) = Some bs"
    "v = of_truth (logical3 use_or bs)" by (auto split: option.splits)
  have "in_stats l x" using ScalarOverArrayFunctionNode.IH ScalarOverArrayFunctionNode.prems l(1) x(1) by simp
  from scalar_over_array_loop_sound [OF assms(1) this _ _ mk_BoolStatsAggregator_covers(2) l(2) x(2)]
  have "in_stats st (of_truth (combine3 use_or (Some (\<not> use_or)) (logical3 use_or bs)))"
    using ScalarOverArrayFunctionNode.prems(1,2) by (simp add: array_ok_def mk_BoolStatsAggregator_covers(1))
  then show ?case by (simp add: x(3) combine3_unit)
qed

lemma ApplyFilter_decided:
  assumes "StatsFilter_ApplyFilter G shift (Some n) = Inr m" "m \<noteq> MR_Some"
  obtains st where "Visit G shift n = Inr (Inr st)" "stats_type (gs_min_max st) = VT_Bool"
    "Get_bool (gs_min_max st) = (if m = MR_None then kBoolStatsFalse else kBoolStatsTrue)"
proof (cases "Visit G shift n")
  case (Inr s)
  then show thesis
    using that assms
    by (cases s) (auto simp: StatsFilter_ApplyFilter_def StatsFilter_Evaluate_def Let_def split: if_splits)
qed (use assms in \<open>auto simp: StatsFilter_ApplyFilter_def StatsFilter_Evaluate_def\<close>)

lemma ApplyFilter_sound:
  assumes "shift_ok shift" "node_ok n" "exact_constants n" "getter_covers G r" "conditions_known shift ext r n"
    and "eval shift ext r n = Some v"
  shows "StatsFilter_ApplyFilter G shift (Some n) = Inr MR_None \<Longrightarrow> v \<noteq> of_truth (Some True)"
    and "StatsFilter_ApplyFilter G shift (Some n) = Inr MR_All \<Longrightarrow> v \<noteq> of_truth (Some False)"
proof -
  have sound: "bool_covers b t"
    if "Visit G shift n = Inr (Inr st)" "stats_type (gs_min_max st) = VT_Bool" "b = Get_bool (gs_min_max st)"
      "v = of_truth t" for st b t
    using Visit_sound [OF assms(1,4,2,3,5) that(1) assms(6)] that(2-4) in_stats_bool [of st v]
    by (metis option.inject truth_of_truth)
  show "v \<noteq> of_truth (Some True)" if none: "StatsFilter_ApplyFilter G shift (Some n) = Inr MR_None"
  proof -
    obtain st where "Visit G shift n = Inr (Inr st)" "stats_type (gs_min_max st) = VT_Bool"
      "Get_bool (gs_min_max st) = kBoolStatsFalse"
      using ApplyFilter_decided [OF none] by auto
    then show ?thesis
      using sound [OF _ _ refl, of st "Some True"] by (auto simp: bool_covers_def bool_stats_defs)
  qed
  show "v \<noteq> of_truth (Some False)" if none: "StatsFilter_ApplyFilter G shift (Some n) = Inr MR_All"
  proof -
    obtain st where "Visit G shift n = Inr (Inr st)" "stats_type (gs_min_max st) = VT_Bool"
      "Get_bool (gs_min_max st) = kBoolStatsTrue"
      using ApplyFilter_decided [OF none] by auto
    then show ?thesis
      using sound [OF _ _ refl, of st "Some False"] by (auto simp: bool_covers_def bool_stats_defs)
  qed
qed


section \<open>Operators over arrays\<close>

lemma eval_FunctionNode_pair:
  "eval shift ext r (FunctionNode sig [scalar, ConstNode c]) =
     (case eval shift ext r scalar of None \<Rightarrow> None | Some v \<Rightarrow> function_sem shift ext (function_id sig) [v, c])"
  by (simp split: option.splits)

text \<open>
  C13. \<open>TreeRewriter::ScalarOverArrayToLogical\<close> succeeds on every well-formed operator over
  an array and keeps its meaning: the conjunction or disjunction it builds is well-formed
  and has the same value on every row.
\<close>

theorem ScalarOverArrayToLogical_equivalent:
  assumes "node_ok (ScalarOverArrayFunctionNode sig use_or scalar array)"
  shows "\<exists>n. ScalarOverArrayToLogical sig use_or scalar array = Inr n \<and> node_ok n \<and>
    (\<forall>shift ext r. eval shift ext r n = eval shift ext r (ScalarOverArrayFunctionNode sig use_or scalar array))"
proof -
  let ?node = "\<lambda>e. FunctionNode sig [scalar, ConstNode (Value (array_GetValueType array) e)]"
  let ?n = "LogicalNode (if use_or then kOr else kAnd) (map ?node (array_GetValue array))"
  have "mapE (\<lambda>e. mk_FunctionNode sig [scalar, ConstNode (Value (array_GetValueType array) e)]) (array_GetValue array) =
      Inr (map ?node (array_GetValue array))"
    using assms by (intro mapE_total) (simp add: mk_FunctionNode_def)
  then have "ScalarOverArrayToLogical sig use_or scalar array = Inr ?n"
    by (simp add: ScalarOverArrayToLogical_def mk_LogicalNode_def)
  moreover have "node_ok ?n"
    using assms by (auto simp: list_all_iff array_ok_def value_ok_def)
  moreover have "eval shift ext r ?n = eval shift ext r (ScalarOverArrayFunctionNode sig use_or scalar array)"
    for shift ext r
  proof (cases "eval shift ext r scalar")
    case None
    obtain e es where "array_GetValue array = e # es"
      using assms by (cases "array_GetValue array") (auto simp: array_Size_def)
    then show ?thesis using None by simp
  next
    case (Some v)
    have m: "map (eval shift ext r) (map ?node (array_GetValue array)) = map (\<lambda>e. function_sem shift ext (function_id sig)
        [v, Value (array_GetValueType array) e]) (array_GetValue array)"
      using Some by (simp add: eval_FunctionNode_pair del: eval.simps(5))
    show ?thesis using Some unfolding eval.simps(4,6) m by (simp split: option.splits)
  qed
  ultimately show ?thesis by blast
qed

section \<open>Columns\<close>

text \<open>
  The set of names that \<open>ColumnExtractorVisitor\<close> collects over the subtree is enough to
  evaluate the expression: rows that agree on these columns give it the same value.
\<close>

lemma extract_columns_sufficient:
  assumes "\<forall>name \<in> extract_columns n. r name = r' name"
  shows "eval shift ext r n = eval shift ext r' n"
  using assms unfolding extract_columns_eq
proof (induction n)
  case (IfNode c t e)
  then have "eval shift ext r c = eval shift ext r' c" "eval shift ext r t = eval shift ext r' t"
    "eval shift ext r e = eval shift ext r' e" by simp_all
  then show ?case unfolding eval.simps by metis
next
  case (LogicalNode op args)
  then have "map (eval shift ext r) args = map (eval shift ext r') args" by auto
  then show ?case by (simp only: eval.simps)
next
  case (FunctionNode sig args)
  then have "map (eval shift ext r) args = map (eval shift ext r') args" by auto
  then show ?case by (simp only: eval.simps)
qed auto

section \<open>The limits of soundness\<close>

definition compare_signature :: "FunctionID \<Rightarrow> ValueType \<Rightarrow> FunctionSignature" where
  "compare_signature fid vt = \<lparr>function_id = fid, return_type = VT_Bool, argument_types = [vt, vt]\<rparr>"

definition known_column :: "string \<Rightarrow> ValueType \<Rightarrow> physical \<Rightarrow> physical \<Rightarrow> IStatsGetter" where
  "known_column name vt lo hi = (\<lambda>name' vt'.
     Inr (if name' = name \<and> vt' = vt then Some (GenericStats_unknown_count (Make_min_max vt (MinMaxStats lo hi))) else None))"

definition no_function :: "FunctionID \<Rightarrow> Value list \<Rightarrow> Value option" where
  "no_function fid vs = None"

definition below_five :: Node where
  "below_five = FunctionNode (compare_signature kLessThan VT_Int4)
     [VariableNode VT_Int4 ''x'', ConstNode (Value VT_Int4 (Some (P_int 5)))]"

definition bool_const :: "bool \<Rightarrow> Node" where
  "bool_const b = ConstNode (Value VT_Bool (Some (P_bool b)))"


text \<open>A float that is not a number lies between no bounds; its row is lost by a negated
  comparison when the bounds of the column leave it out.\<close>

definition not_below_five_float :: Node where
  "not_below_five_float = LogicalNode kNot [FunctionNode (compare_signature kLessThan VT_Float4)
     [VariableNode VT_Float4 ''x'', ConstNode (Value VT_Float4 (Some (P_float 0x40A00000)))]]"

lemma float_comparisons:
  "physical_less (P_float 0x3F800000) (P_float 0x40A00000)" "physical_less (P_float 0x40400000) (P_float 0x40A00000)"
  "\<not> physical_less (P_float 0x7FC00000) (P_float 0x40A00000)"
  by (simp_all add: float_nan_def float_key_def)

lemma nan_row_lost:
  "StatsFilter_ApplyFilter (known_column ''x'' VT_Float4 (P_float 0x3F800000) (P_float 0x40400000)) None
     (Some not_below_five_float) = Inr MR_None"
  "eval None no_function (\<lambda>_ _. Some (P_float 0x7FC00000)) not_below_five_float = Some (of_truth (Some True))"
  using float_comparisons
  by (simp_all del: physical_less.simps add: not_below_five_float_def compare_signature_def known_column_def
      StatsFilter_ApplyFilter_def StatsFilter_Evaluate_def Visit_VariableNode_def Visit_ConstNode_def IsNull_def
      GetValue_def GetOptional_def bindS_def GenericStats_unknown_count_def Make_min_max_def OneValueToStats_def
      Registry_Evaluate_def AreCastsBeforeInvokeAllowed_def CastToSameTypeForComparison_def kBinaryEvaluators_def
      REGISTER_COMPARISON_def EvaluateBinary_def EvaluateLess_def EvaluateMonotoneComparison_def bool_stats_defs
      Get_bool_def Make_bool_def stats_not_def function_sem_def comparison_sem_def common_type_def convert_def
      Comparable_def compare_sem_def of_truth_def ex_bool_eq)

section \<open>Witnesses\<close>

definition above_five :: Node where
  "above_five = FunctionNode (compare_signature kGreaterThan VT_Int4)
     [VariableNode VT_Int4 ''x'', ConstNode (Value VT_Int4 (Some (P_int 5)))]"

definition example_rows :: "row set" where
  "example_rows = {\<lambda>_ _. None, \<lambda>_ _. Some (P_int 2), \<lambda>_ _. Some (P_int 3)}"

lemma example_rows_covered:
  "\<forall>r \<in> example_rows. getter_covers (known_column ''x'' VT_Int4 (P_int 1) (P_int 3)) r"
  by (auto simp: example_rows_def getter_covers_def known_column_def GenericStats_unknown_count_def Make_min_max_def
      in_stats_def min_max_ok_def between_def int32_def split: if_splits)


theorem ScalarOverArrayToLogical_equivalent_witness:
  "\<exists>n. ScalarOverArrayToLogical (compare_signature kEqual VT_Int4) True (VariableNode VT_Int4 ''x'')
      (ArrayHolder VT_Int4 [Some (P_int 1), None]) = Inr n \<and> node_ok n \<and>
     eval None no_function (\<lambda>_ _. Some (P_int 1)) n = Some (of_truth (Some True))"
proof -
  let ?array = "ArrayHolder VT_Int4 [Some (P_int 1), None]"
  have "node_ok (ScalarOverArrayFunctionNode (compare_signature kEqual VT_Int4) True (VariableNode VT_Int4 ''x'') ?array)"
    by code_simp
  from ScalarOverArrayToLogical_equivalent [OF this] obtain n where
    n: "ScalarOverArrayToLogical (compare_signature kEqual VT_Int4) True (VariableNode VT_Int4 ''x'') ?array = Inr n"
      "node_ok n" "eval None no_function (\<lambda>_ _. Some (P_int 1)) n = eval None no_function (\<lambda>_ _. Some (P_int 1))
        (ScalarOverArrayFunctionNode (compare_signature kEqual VT_Int4) True (VariableNode VT_Int4 ''x'') ?array)"
    by blast
  have "eval None no_function (\<lambda>_ _. Some (P_int 1))
      (ScalarOverArrayFunctionNode (compare_signature kEqual VT_Int4) True (VariableNode VT_Int4 ''x'') ?array) =
      Some (of_truth (Some True))" by code_simp
  then show ?thesis using n by auto
qed

lemma extract_columns_sufficient_witness:
  "extract_columns below_five = {''x''} \<and>
   eval None no_function (\<lambda>name vt. if name = ''x'' then Some (P_int 1) else None) below_five =
   eval None no_function (\<lambda>name vt. Some (P_int 1)) below_five"
proof
  show c: "extract_columns below_five = {''x''}" by (simp add: extract_columns_eq below_five_def)
  show "eval None no_function (\<lambda>name vt. if name = ''x'' then Some (P_int 1) else None) below_five =
   eval None no_function (\<lambda>name vt. Some (P_int 1)) below_five"
    by (rule extract_columns_sufficient) (simp add: c)
qed

end
