(* ===== verification/Stats_Getters.thy ===== *)
theory Stats_Getters
  imports Stats_Correctness Scan_Planner
begin

text \<open>
  The sources of statistics: the column bounds of a manifest entry
  (\<open>manifest_entry_stats_getter.cpp\<close>), the partition summaries of a manifest file
  (\<open>ManifestFileStatsGetter\<close> in \<open>tea_scan.cpp\<close>) with the calendar they need, and the
  filtering of manifest files before they are read (\<open>FilterManifests\<close>,
  \<open>AllEntriesStream::Make\<close>).
\<close>

section \<open>Bounds as bytes\<close>

definition bytes_value :: "byte list \<Rightarrow> nat" where
  "bytes_value bs = foldr (\<lambda>b n. unat b + 256 * n) bs 0"

text \<open>\<open>memcpy\<close> into an integer of the given width, on a little-endian machine.\<close>

definition DeserializeWithMemcpy :: "nat \<Rightarrow> byte list \<Rightarrow> int option" where
  "DeserializeWithMemcpy width value =
     (if length value \<noteq> width then None
      else let n = int (bytes_value value); m = 2 ^ (8 * width) in Some (if 2 * n < m then n else n - m))"

definition bytes_string :: "byte list \<Rightarrow> string" where
  "bytes_string value = map (\<lambda>b. char_of (unat b)) value"

definition DeserializeValue :: "TypeID \<Rightarrow> ValueType \<Rightarrow> byte list \<Rightarrow> physical option" where
  "DeserializeValue type_id value_type value =
     (if (type_id, value_type) = (kBoolean, VT_Bool) then
        map_option (\<lambda>n. P_bool (n \<noteq> 0)) (DeserializeWithMemcpy 1 value)
      else if (type_id, value_type) \<in> {(kInt, VT_Int4), (kDate, VT_Date)} then
        map_option P_int (DeserializeWithMemcpy 4 value)
      else if (type_id, value_type) \<in> {(kLong, VT_Int8), (kTime, VT_Time), (kTimestamp, VT_Timestamp),
          (kTimestamptz, VT_Timestamptz)} then
        map_option P_int (DeserializeWithMemcpy 8 value)
      else if (type_id, value_type) = (kInt, VT_Int2) then
        (case DeserializeWithMemcpy 4 value of
           None \<Rightarrow> None
         | Some int4 \<Rightarrow> if int16 int4 then Some (P_int int4) else None)
      else if (type_id, value_type) = (kString, VT_String) then Some (P_string (bytes_string value))
      else None)"

definition GenericStatsFromTypedStats ::
  "TypeID \<Rightarrow> ValueType \<Rightarrow> byte list \<Rightarrow> byte list \<Rightarrow> GenericMinMaxStats option" where
  "GenericStatsFromTypedStats type_id value_type min_bytes max_bytes =
     (case (DeserializeValue type_id value_type min_bytes, DeserializeValue type_id value_type max_bytes) of
        (Some min_value, Some max_value) \<Rightarrow> Some (Make_min_max value_type (MinMaxStats min_value max_value))
      | _ \<Rightarrow> None)"

definition kConversions :: "(TypeID \<times> ValueType) list" where
  "kConversions =
     [(kBoolean, VT_Bool), (kInt, VT_Int2), (kInt, VT_Int4), (kLong, VT_Int8), (kFloat, VT_Float4), (kDouble, VT_Float8),
      (kString, VT_String), (kTime, VT_Time), (kTimestamp, VT_Timestamp), (kTimestamptz, VT_Timestamptz),
      (kDate, VT_Date)]"

definition TypesToStatsConverter ::
  "TypeID \<Rightarrow> ValueType \<Rightarrow> (byte list \<Rightarrow> byte list \<Rightarrow> GenericMinMaxStats option) option" where
  "TypesToStatsConverter ice_type value_type =
     (if (ice_type, value_type) \<in> set kConversions then Some (GenericStatsFromTypedStats ice_type value_type) else None)"

section \<open>Bounds of a manifest entry\<close>

definition AsciiStrToLower :: "string \<Rightarrow> string" where
  "AsciiStrToLower s = map to_lower s"

definition ManifestEntryStatsGetter_GetStats :: "manifest_entry \<Rightarrow> schema \<Rightarrow> IStatsGetter" where
  "ManifestEntryStatsGetter_GetStats entry s column_name value_type =
     Inr (case find (\<lambda>col. AsciiStrToLower (nf_name col) = AsciiStrToLower column_name) (s_fields s) of
        None \<Rightarrow> None
      | Some field \<Rightarrow>
          (case (map_of (df_lower_bounds (me_data_file entry)) (nf_field_id field),
                 map_of (df_upper_bounds (me_data_file entry)) (nf_field_id field)) of
             (Some min_bytes, Some max_bytes) \<Rightarrow>
               (case TypesToStatsConverter (TypeId (nf_type field)) value_type of
                  None \<Rightarrow> None
                | Some conversion \<Rightarrow> map_option GenericStats_unknown_count (conversion min_bytes max_bytes))
           | _ \<Rightarrow> None))"

section \<open>The calendar\<close>

text \<open>\<open>std::chrono::year\<close> stores a \<open>short\<close>.\<close>

definition chrono_year :: "int \<Rightarrow> int" where
  "chrono_year y = (y + 2 ^ 15) mod 2 ^ 16 - 2 ^ 15"

definition leap_year :: "int \<Rightarrow> bool" where
  "leap_year y \<longleftrightarrow> 4 dvd y \<and> (\<not> 100 dvd y \<or> 400 dvd y)"

text \<open>\<open>std::chrono::sys_days{y/m/1}\<close>: days from 1970-01-01 to the first day of a month of
  the proleptic Gregorian calendar.\<close>

definition days_before_year :: "int \<Rightarrow> int" where
  "days_before_year y = 365 * (y - 1) + (y - 1) div 4 - (y - 1) div 100 + (y - 1) div 400 - 719162"

definition days_before_month :: "bool \<Rightarrow> nat \<Rightarrow> int" where
  "days_before_month leap m =
     [0, 31, 59, 90, 120, 151, 181, 212, 243, 273, 304, 334] ! (m - 1) + (if leap \<and> m > 2 then 1 else 0)"

definition sys_days :: "int \<Rightarrow> nat \<Rightarrow> int" where
  "sys_days y m = days_before_year y + days_before_month (leap_year y) m"

definition ConvertToInt :: "byte list \<Rightarrow> int result" where
  "ConvertToInt value =
     bindE (ensure (length value = 4) ''ConvertToInt: byte array size doesn't match'') (\<lambda>_.
       Inr (the (DeserializeWithMemcpy 4 value)))"

text \<open>The quotients of the limits of \<open>int\<close> are rounded towards zero.\<close>

definition YearsToDays :: "int \<Rightarrow> int result" where
  "YearsToDays years =
     bindE (ensure (years \<le> trunc_div (2 ^ 31 - 1) 366 \<and> years \<ge> trunc_div (- (2 ^ 31)) 366) ''YearsToDays: days can overflow'')
       (\<lambda>_. Inr (sys_days (chrono_year (1970 + years)) 1))"

definition MonthsToDays :: "int \<Rightarrow> int result" where
  "MonthsToDays months =
     bindE (ensure (months \<le> trunc_div (2 ^ 31 - 1) 31 \<and> months \<ge> trunc_div (- (2 ^ 31)) 31) ''MonthsToDays: days can overflow'') (\<lambda>_.
     bindE (ensure (months \<ge> 0) ''MonthsToDays: handling negative months is not supported yet'') (\<lambda>_.
     Inr (sys_days (chrono_year (1970 + months div 12)) (nat (1 + months mod 12)))))"

definition DaysToHours :: "int \<Rightarrow> int result" where
  "DaysToHours days =
     bindE (ensure (days \<le> trunc_div (2 ^ 31 - 1) 24 \<and> days \<ge> trunc_div (- (2 ^ 31)) 24) ''DaysToHours: hours will overflow'')
       (\<lambda>_. Inr (days * 24))"

definition kMicrosPerHour :: int where
  "kMicrosPerHour = 3600 * 1000 * 1000"

definition HoursToMicros :: "int \<Rightarrow> int result" where
  "HoursToMicros hours =
     bindE (ensure (hours \<le> trunc_div (2 ^ 63 - 1) kMicrosPerHour \<and> hours \<ge> trunc_div (- (2 ^ 63)) kMicrosPerHour)
         ''HoursToMicros: micros will overflow'')
       (\<lambda>_. Inr (hours * kMicrosPerHour))"

section \<open>Summaries of a manifest file\<close>

definition GetMinMaxDayFromTemporal :: "int \<Rightarrow> int \<Rightarrow> string \<Rightarrow> (int \<times> int) option result" where
  "GetMinMaxDayFromTemporal min_partition_value max_partition_value transform =
     (if transform = ''year'' then
        bindE (YearsToDays min_partition_value) (\<lambda>min_day.
        bindE (YearsToDays (max_partition_value + 1)) (\<lambda>next_day. Inr (Some (min_day, next_day - 1))))
      else if transform = ''month'' then
        bindE (MonthsToDays min_partition_value) (\<lambda>min_day.
        bindE (MonthsToDays (max_partition_value + 1)) (\<lambda>next_day. Inr (Some (min_day, next_day - 1))))
      else if transform = ''day'' then Inr (Some (min_partition_value, max_partition_value))
      else Inr None)"

definition min_max_micros :: "int \<Rightarrow> int \<Rightarrow> string \<Rightarrow> (int \<times> int) result" where
  "min_max_micros min_partition_value max_partition_value transform =
     (if transform = ''hour'' then
        bindE (HoursToMicros min_partition_value) (\<lambda>micros_min.
        bindE (HoursToMicros (max_partition_value + 1)) (\<lambda>next. Inr (micros_min, next - 1)))
      else
        bindE (GetMinMaxDayFromTemporal min_partition_value max_partition_value transform) (\<lambda>min_max_day.
        bindE (ensure (min_max_day \<noteq> None) ''GetStatsFromTemporalForTimestamp: internal error'') (\<lambda>_.
        bindE (DaysToHours (fst (the min_max_day))) (\<lambda>min_hour.
        bindE (DaysToHours (snd (the min_max_day) + 1)) (\<lambda>next_hour.
        bindE (HoursToMicros min_hour) (\<lambda>micros_min.
        bindE (HoursToMicros (next_hour - 1 + 1)) (\<lambda>next. Inr (micros_min, next - 1))))))))"

definition GetStatsFromTemporalForTimestamp :: "int \<Rightarrow> int \<Rightarrow> string \<Rightarrow> bool \<Rightarrow> GenericStats option result" where
  "GetStatsFromTemporalForTimestamp min_partition_value max_partition_value transform is_timestamptz =
     bindE (min_max_micros min_partition_value max_partition_value transform) (\<lambda>(micros_min, micros_max).
       if is_timestamptz then
         bindE (DaysToHours 1) (\<lambda>hours. bindE (HoursToMicros hours) (\<lambda>micros_in_day.
           if micros_min < - (2 ^ 63) + micros_in_day then Inr None
           else if micros_max > 2 ^ 63 - 1 - micros_in_day then Inr None
           else Inr (Some (GenericStats_unknown_count (Make_min_max VT_Timestamptz
             (MinMaxStats (P_int (micros_min - micros_in_day)) (P_int (micros_max + micros_in_day))))))))
       else Inr (Some (GenericStats_unknown_count (Make_min_max VT_Timestamp
         (MinMaxStats (P_int micros_min) (P_int micros_max))))))"

definition GetStatsFromTemporalForDate :: "int \<Rightarrow> int \<Rightarrow> string \<Rightarrow> GenericStats option result" where
  "GetStatsFromTemporalForDate min_partition_value max_partition_value transform =
     bindE (GetMinMaxDayFromTemporal min_partition_value max_partition_value transform) (\<lambda>min_max_day.
     bindE (ensure (min_max_day \<noteq> None) ''GetStatsFromTemporalForDate: internal error'') (\<lambda>_.
     Inr (Some (GenericStats_unknown_count (Make_min_max VT_Date
       (MinMaxStats (P_int (fst (the min_max_day))) (P_int (snd (the min_max_day)))))))))"

definition GetStatsFromTemporalTransform ::
  "partition_field_summary \<Rightarrow> string \<Rightarrow> ValueType \<Rightarrow> GenericStats option result" where
  "GetStatsFromTemporalTransform summary transform value_type =
     bindE (ConvertToInt (pfs_lower_bound summary)) (\<lambda>min_partition_value.
     bindE (ConvertToInt (pfs_upper_bound summary)) (\<lambda>max_partition_value.
       if max_partition_value = 2 ^ 31 - 1 then Inr None
       else if value_type = VT_Date then
         GetStatsFromTemporalForDate min_partition_value max_partition_value transform
       else if value_type = VT_Timestamp \<or> value_type = VT_Timestamptz then
         GetStatsFromTemporalForTimestamp min_partition_value max_partition_value transform (value_type = VT_Timestamptz)
       else Inr None))"

definition GetStatsFromIdentityTransform ::
  "partition_field_summary \<Rightarrow> TypeID \<Rightarrow> ValueType \<Rightarrow> GenericStats option" where
  "GetStatsFromIdentityTransform summary ice_type value_type =
     (case TypesToStatsConverter ice_type value_type of
        None \<Rightarrow> None
      | Some conversion \<Rightarrow>
          map_option GenericStats_unknown_count (conversion (pfs_lower_bound summary) (pfs_upper_bound summary)))"

record file_stats_getter =
  fg_name_to_type :: "(string \<times> TypeID) list"
  fg_name_to_position :: "(string \<times> nat) list"
  fg_partitions :: "partition_field_summary list"
  fg_spec :: partition_spec

definition ManifestFileStatsGetter_GetStats :: "file_stats_getter \<Rightarrow> IStatsGetter" where
  "ManifestFileStatsGetter_GetStats g column_name value_type =
     (case map_of (fg_name_to_position g) column_name of
        None \<Rightarrow> Inr None
      | Some position \<Rightarrow>
          bindE (ensure (position < length (fg_partitions g)) ''GetStats: invalid position'') (\<lambda>_.
            let transform = pf_transform (ps_fields (fg_spec g) ! position); summary = fg_partitions g ! position in
            if transform = ''identity'' then
              (case map_of (fg_name_to_type g) column_name of
                 None \<Rightarrow> Inl (Runtime_error ''GetStats: type for column is not found'')
               | Some ice_type \<Rightarrow> Inr (GetStatsFromIdentityTransform summary ice_type value_type))
            else if transform \<in> {''year'', ''month'', ''day'', ''hour''} then
              GetStatsFromTemporalTransform summary transform value_type
            else Inr None))"

section \<open>Filtering of manifest files\<close>

text \<open>An \<open>unordered_map\<close> filled by assignment keeps the last value of a key.\<close>

definition assigned :: "('k \<times> 'v) list \<Rightarrow> ('k \<times> 'v) list" where
  "assigned kvs = rev kvs"

definition manifest_spec :: "partition_spec list \<Rightarrow> manifest_file \<Rightarrow> partition_spec result" where
  "manifest_spec partition_specs manifest =
     (case map_of (assigned (map (\<lambda>spec. (ps_spec_id spec, spec)) partition_specs)) (mf_partition_spec_id manifest) of
        None \<Rightarrow> Inl (Runtime_error ''FilterManifests: partition spec id is not found'')
      | Some spec \<Rightarrow> Inr spec)"

definition allowed_transforms :: "string list" where
  "allowed_transforms = [''identity'', ''hour'', ''day'', ''month'', ''year'']"

definition field_positions :: "schema \<Rightarrow> partition_spec \<Rightarrow> (string \<times> nat) list result" where
  "field_positions s spec =
     bindE (mapE (\<lambda>(i, field).
         case map_of (assigned (map (\<lambda>column. (nf_field_id column, nf_name column)) (s_fields s))) (pf_source_id field) of
           None \<Rightarrow> Inl (Runtime_error ''FilterManifests: partition source id is not found'')
         | Some name \<Rightarrow> Inr (name, i))
       (zip [0..<length (ps_fields spec)] (ps_fields spec))) (\<lambda>kvs. Inr (assigned kvs))"

definition can_skip_manifest ::
  "int option \<Rightarrow> Node option \<Rightarrow> schema \<Rightarrow> partition_spec list \<Rightarrow> manifest_file \<Rightarrow> bool result" where
  "can_skip_manifest shift root s partition_specs manifest =
     bindE (manifest_spec partition_specs manifest) (\<lambda>spec.
       if \<not> list_all (\<lambda>field. pf_transform field \<in> set allowed_transforms) (ps_fields spec) then Inr False
       else bindE (field_positions s spec) (\<lambda>name_to_position.
         bindE (StatsFilter_ApplyFilter (ManifestFileStatsGetter_GetStats
             \<lparr>fg_name_to_type = assigned (map (\<lambda>column. (nf_name column, TypeId (nf_type column))) (s_fields s)),
              fg_name_to_position = name_to_position, fg_partitions = mf_partitions manifest, fg_spec = spec\<rparr>) shift root)
           (\<lambda>matched. Inr (matched = MR_None))))"

definition FilterManifests ::
  "int option \<Rightarrow> Node option \<Rightarrow> schema \<Rightarrow> partition_spec list \<Rightarrow> manifest_file list \<Rightarrow> bool list result" where
  "FilterManifests shift root s partition_specs manifests =
     mapE (can_skip_manifest shift root s partition_specs) manifests"

text \<open>The queue of manifest files that \<open>AllEntriesStream::Make\<close> reads: any exception of
  the filter is caught and the filter is left out.\<close>

definition AllEntriesStream_Make ::
  "(int option \<times> Node option) option \<Rightarrow> schema option \<Rightarrow> partition_spec list \<Rightarrow> manifest_file list \<Rightarrow> all_stream" where
  "AllEntriesStream_Make stats_filter s partition_specs manifests =
     \<lparr>as_manifest_files =
        (case (stats_filter, s) of
           (Some (shift, root), Some s) \<Rightarrow>
             (case FilterManifests shift root s partition_specs manifests of
                Inl _ \<Rightarrow> manifests
              | Inr can_skip \<Rightarrow> map fst (filter (\<lambda>(_, skip). \<not> skip) (zip manifests can_skip)))
         | _ \<Rightarrow> manifests),
      as_current = None\<rparr>"

end
