(* ===== verification/Manifest_Filter.thy ===== *)
theory Manifest_Filter
  imports Stats_Getters
begin

text \<open>
  Correctness of the statistics of manifest entries and manifest files: the calendar is
  monotone, so the days, hours and microseconds computed from a range of partition values
  contain every value that the transform maps into the range; hence a manifest file that
  \<open>FilterManifests\<close> skips has no matching row, and the entry stream built on the rest
  loses none.
\<close>

section \<open>The calendar is monotone\<close>

definition year_start :: "int \<Rightarrow> int" where
  "year_start v = sys_days (1970 + v) 1"

definition month_start :: "int \<Rightarrow> int" where
  "month_start v = sys_days (1970 + v div 12) (nat (1 + v mod 12))"

lemma div_growth:
  fixes a b n :: int
  assumes "a \<le> b" "0 < n"
  shows "b div n - a div n \<le> b - a"
proof -
  have "b - a \<le> (b - a) * n" using assms by (simp add: mult_le_cancel_left1)
  then have "b div n \<le> (a + (b - a) * n) div n" using assms(2) by (intro zdiv_mono1) simp_all
  also have "\<dots> = a div n + (b - a)" using assms(2) by simp
  finally show ?thesis by simp
qed

lemma year_sum_mono:
  fixes y z a a' b b' c c' k :: int
  assumes "c' - c \<le> z - y" "a \<le> a'" "b \<le> b'" "y \<le> z"
  shows "365 * (y - 1) + a - c + b - k \<le> 365 * (z - 1) + a' - c' + b' - k"
proof -
  have "0 \<le> 364 * (z - y) + ((z - y) - (c' - c)) + (a' - a) + (b' - b)" using assms by simp
  also have "\<dots> = (365 * (z - 1) + a' - c' + b' - k) - (365 * (y - 1) + a - c + b - k)" by (simp add: algebra_simps)
  finally show ?thesis by simp
qed

lemma days_before_year_mono:
  assumes "y \<le> z"
  shows "days_before_year y \<le> days_before_year z"
proof -
  have "(z - 1) div 100 - (y - 1) div 100 \<le> z - y" using div_growth [of "y - 1" "z - 1" 100] assms by simp
  moreover have "(y - 1) div 4 \<le> (z - 1) div 4" "(y - 1) div 400 \<le> (z - 1) div 400"
    using assms by (simp_all add: zdiv_mono1)
  ultimately show ?thesis unfolding days_before_year_def using assms by (rule year_sum_mono)
qed

lemma days_before_year_step: "days_before_year y + 364 \<le> days_before_year (y + 1)"
proof -
  have "y div 100 - (y - 1) div 100 \<le> 1" using div_growth [of "y - 1" y 100] by simp
  moreover have "(y - 1) div 4 \<le> y div 4" "(y - 1) div 400 \<le> y div 400" by (simp_all add: zdiv_mono1)
  ultimately show ?thesis unfolding days_before_year_def by simp
qed

lemma year_start_mono: "v \<le> w \<Longrightarrow> year_start v \<le> year_start w"
  using days_before_year_mono [of "1970 + v" "1970 + w"]
  by (simp add: year_start_def sys_days_def days_before_month_def)

lemma month_start_step: "month_start v \<le> month_start (v + 1)"
proof -
  define q r where "q = v div 12" and "r = v mod 12"
  have v: "v = 12 * q + r" "0 \<le> r" "r < 12" by (simp_all add: q_def r_def)
  obtain k where k: "r = int k" "k < 12" using v(2,3) by (metis nat_eq_iff of_nat_less_iff of_nat_numeral)
  show ?thesis
  proof (cases "k = 11")
    case True
    then have e: "v + 1 = 12 * (q + 1)" using v(1) k(1) by simp
    have "(v + 1) div 12 = q + 1" "(v + 1) mod 12 = 0" unfolding e by simp_all
    then show ?thesis
      using True k(1) days_before_year_step [of "1970 + q"]
      by (simp add: month_start_def sys_days_def days_before_month_def q_def [symmetric] r_def [symmetric] add.assoc)
  next
    case False
    have e: "v + 1 = (r + 1) + 12 * q" using v(1) by simp
    have "r + 1 < 12" using False k by simp
    then have "(v + 1) div 12 = q" "(v + 1) mod 12 = r + 1" unfolding e using v(2) by (simp_all del: add.assoc)
    moreover have "k \<in> {0, 1, 2, 3, 4, 5, 6, 7, 8, 9, 10}"
      using False k(2) by (auto simp: numeral_eq_Suc less_Suc_eq)
    ultimately show ?thesis
      using k(1) by (auto simp: month_start_def sys_days_def days_before_month_def q_def [symmetric] r_def [symmetric])
  qed
qed

lemma month_start_mono:
  assumes "v \<le> w"
  shows "month_start v \<le> month_start w"
  using assms
proof (induction w rule: int_ge_induct)
  case (step i)
  then show ?case using month_start_step [of i] by simp
qed simp

section \<open>Ranges of partition values\<close>

text \<open>The values that a temporal transform maps to a partition value: days for dates,
  microseconds for timestamps.\<close>

definition transform_day :: "string \<Rightarrow> int \<Rightarrow> int \<Rightarrow> bool" where
  "transform_day transform d v \<longleftrightarrow>
     (if transform = ''year'' then year_start v \<le> d \<and> d < year_start (v + 1)
      else if transform = ''month'' then month_start v \<le> d \<and> d < month_start (v + 1)
      else transform = ''day'' \<and> d = v)"

definition transform_micros :: "string \<Rightarrow> int \<Rightarrow> int \<Rightarrow> bool" where
  "transform_micros transform t v \<longleftrightarrow>
     (if transform = ''hour'' then t div kMicrosPerHour = v else transform_day transform (t div kMicrosInDay) v)"

text \<open>The years that \<open>std::chrono::year\<close> can store, and a least day that is not the least
  integer.\<close>

definition calendar_ok :: "string \<Rightarrow> int \<Rightarrow> int \<Rightarrow> bool" where
  "calendar_ok transform lo hi \<longleftrightarrow>
     (transform = ''year'' \<longrightarrow> - (2 ^ 15) \<le> 1970 + lo \<and> 1970 + hi + 1 < 2 ^ 15) \<and>
     (transform = ''month'' \<longrightarrow> 1970 + (hi + 1) div 12 < 2 ^ 15) \<and>
     (transform = ''day'' \<longrightarrow> - (2 ^ 31) < lo \<and> - (2 ^ 31) < hi)"

lemma chrono_year_id: "- (2 ^ 15) \<le> y \<Longrightarrow> y < 2 ^ 15 \<Longrightarrow> chrono_year y = y"
  by (simp add: chrono_year_def)

lemma GetMinMaxDayFromTemporal_covers:
  assumes "GetMinMaxDayFromTemporal lo hi transform = Inr (Some (a, b))" "calendar_ok transform lo hi"
    and "lo \<le> v" "v \<le> hi" "transform_day transform d v"
  shows "a \<le> d" "d \<le> b"
proof -
  consider "transform = ''year''" | "transform = ''month''" | "transform = ''day''"
    using assms(1) by (auto simp: GetMinMaxDayFromTemporal_def split: if_splits)
  then have "a \<le> d \<and> d \<le> b"
  proof cases
    case 1
    have "chrono_year (1970 + lo) = 1970 + lo" "chrono_year (1970 + (hi + 1)) = 1970 + (hi + 1)"
      using assms(2-4) 1 by (auto simp: calendar_ok_def intro!: chrono_year_id)
    then have "a = year_start lo" "b = year_start (hi + 1) - 1"
      using assms(1) 1 by (auto simp: GetMinMaxDayFromTemporal_def bindE_eq_Inr_iff YearsToDays_def year_start_def)
    then show ?thesis
      using 1 assms(3-5) year_start_mono [of lo v] year_start_mono [of "v + 1" "hi + 1"]
      by (auto simp: transform_day_def)
  next
    case 2
    have "0 \<le> lo" "0 \<le> hi + 1"
      using assms(1) 2 by (auto simp: GetMinMaxDayFromTemporal_def bindE_eq_Inr_iff MonthsToDays_def)
    moreover have "lo div 12 \<le> (hi + 1) div 12" using assms(3,4) by (intro zdiv_mono1) simp_all
    ultimately have "chrono_year (1970 + lo div 12) = 1970 + lo div 12"
      "chrono_year (1970 + (hi + 1) div 12) = 1970 + (hi + 1) div 12"
      using assms(2) 2 by (auto simp: calendar_ok_def pos_imp_zdiv_nonneg_iff intro!: chrono_year_id)
    then have "a = month_start lo" "b = month_start (hi + 1) - 1"
      using assms(1) 2 by (auto simp: GetMinMaxDayFromTemporal_def bindE_eq_Inr_iff MonthsToDays_def month_start_def)
    then show ?thesis
      using 2 assms(3-5) month_start_mono [of lo v] month_start_mono [of "v + 1" "hi + 1"]
      by (auto simp: transform_day_def)
  next
    case 3
    then show ?thesis using assms by (auto simp: GetMinMaxDayFromTemporal_def transform_day_def)
  qed
  then show "a \<le> d" "d \<le> b" by simp_all
qed

lemma div_range:
  fixes t n :: int
  assumes "0 < n" "lo \<le> t div n" "t div n \<le> hi"
  shows "lo * n \<le> t \<and> t \<le> (hi + 1) * n - 1"
proof -
  have "lo * n \<le> t div n * n" "(t div n + 1) * n \<le> (hi + 1) * n"
    using assms by (simp_all add: mult_right_mono)
  moreover have "t div n * n \<le> t" "t < (t div n + 1) * n"
    using assms(1) pos_mod_bound [of n t] pos_mod_sign [of n t]
    by (simp_all add: distrib_right minus_mod_eq_div_mult [symmetric])
  ultimately show ?thesis by linarith
qed

lemma min_max_micros_covers:
  assumes "min_max_micros lo hi transform = Inr (a, b)" "calendar_ok transform lo hi"
    and "lo \<le> v" "v \<le> hi" "transform_micros transform t v"
  shows "a \<le> t" "t \<le> b"
proof -
  have "a \<le> t \<and> t \<le> b"
  proof (cases "transform = ''hour''")
    case True
    then have ab: "a = lo * kMicrosPerHour" "b = (hi + 1) * kMicrosPerHour - 1"
      using assms(1) by (auto simp: min_max_micros_def HoursToMicros_def bindE_eq_Inr_iff)
    have "v = t div kMicrosPerHour" using assms(5) True by (simp add: transform_micros_def)
    then show ?thesis
      using assms(3,4) unfolding ab by (intro div_range) (simp_all add: kMicrosPerHour_def)
  next
    case False
    then obtain x y where xy: "GetMinMaxDayFromTemporal lo hi transform = Inr (Some (x, y))"
        "a = x * 24 * kMicrosPerHour" "b = (y + 1) * 24 * kMicrosPerHour - 1"
      using assms(1) by (auto simp: min_max_micros_def HoursToMicros_def DaysToHours_def bindE_eq_Inr_iff)
    have "x \<le> t div kMicrosInDay" "t div kMicrosInDay \<le> y"
      using GetMinMaxDayFromTemporal_covers [OF xy(1) assms(2-4)] assms(5) False by (simp_all add: transform_micros_def)
    then have "x * kMicrosInDay \<le> t \<and> t \<le> (y + 1) * kMicrosInDay - 1"
      by (intro div_range) (simp_all add: kMicrosInDay_def)
    then show ?thesis unfolding xy(2,3) by (simp add: kMicrosPerHour_def kMicrosInDay_def)
  qed
  then show "a \<le> t" "t \<le> b" by simp_all
qed

section \<open>The bounds are well-formed\<close>

lemma chrono_year_range: "- (2 ^ 15) \<le> chrono_year y" "chrono_year y \<le> 2 ^ 15"
  using pos_mod_bound [of "2 ^ 16" "y + 2 ^ 15"] pos_mod_sign [of "2 ^ 16" "y + 2 ^ 15"]
  by (simp_all add: chrono_year_def)

lemma sys_days_bound:
  assumes "0 < m" "m \<le> 12"
  shows "\<bar>sys_days (chrono_year y) m\<bar> \<le> 20000000"
proof -
  have "days_before_year (- (2 ^ 15)) \<le> days_before_year (chrono_year y)"
    "days_before_year (chrono_year y) \<le> days_before_year (2 ^ 15)"
    by (intro days_before_year_mono chrono_year_range)+
  moreover have "days_before_year (- (2 ^ 15)) \<ge> - 19000000" "days_before_year (2 ^ 15) \<le> 19000000"
    by (simp_all add: days_before_year_def)
  moreover have "m \<in> {1, 2, 3, 4, 5, 6, 7, 8, 9, 10, 11, 12}"
    using assms by (auto simp: numeral_eq_Suc le_Suc_eq)
  then have "0 \<le> days_before_month l m" "days_before_month l m \<le> 366" for l
    by (auto simp: days_before_month_def)
  then have "0 \<le> days_before_month (leap_year (chrono_year y)) m" "days_before_month (leap_year (chrono_year y)) m \<le> 366"
    by blast+
  ultimately show ?thesis by (simp add: sys_days_def abs_le_iff)
qed

lemma YearsToDays_bound: "YearsToDays y = Inr d \<Longrightarrow> \<bar>d\<bar> \<le> 20000000"
  using sys_days_bound [of 1] by (auto simp: YearsToDays_def bindE_eq_Inr_iff)

lemma MonthsToDays_bound: "MonthsToDays y = Inr d \<Longrightarrow> \<bar>d\<bar> \<le> 20000000"
proof -
  assume "MonthsToDays y = Inr d"
  then have "d = sys_days (chrono_year (1970 + y div 12)) (nat (1 + y mod 12))" "0 \<le> y"
    by (auto simp: MonthsToDays_def bindE_eq_Inr_iff)
  moreover have "0 < nat (1 + y mod 12)" "nat (1 + y mod 12) \<le> 12"
    using pos_mod_bound [of 12 y] pos_mod_sign [of 12 y] by auto
  ultimately show ?thesis using sys_days_bound by simp
qed

lemma GetMinMaxDayFromTemporal_range:
  assumes "GetMinMaxDayFromTemporal lo hi transform = Inr (Some (a, b))" "calendar_ok transform lo hi" "int32 lo" "int32 hi"
  shows "int32 a" "int32 b" "a \<noteq> - (2 ^ 31)" "b \<noteq> - (2 ^ 31)"
proof -
  have "(transform = ''day'' \<and> a = lo \<and> b = hi) \<or> (\<bar>a\<bar> \<le> 20000001 \<and> \<bar>b\<bar> \<le> 20000001)"
    using assms(1) by (auto simp: GetMinMaxDayFromTemporal_def bindE_eq_Inr_iff split: if_splits
        dest!: YearsToDays_bound MonthsToDays_bound)
  then show "int32 a" "int32 b" "a \<noteq> - (2 ^ 31)" "b \<noteq> - (2 ^ 31)"
    using assms(2-4) by (auto simp: int32_def calendar_ok_def)
qed

lemma HoursToMicros_range:
  assumes "HoursToMicros h = Inr n"
  shows "\<exists>k. n = k * kMicrosPerHour" "- (2 ^ 63) < n" "n \<le> 2 ^ 63 - 1"
  using assms by (auto simp: HoursToMicros_def bindE_eq_Inr_iff kMicrosPerHour_def trunc_div_def)

lemma min_max_micros_range:
  assumes "min_max_micros lo hi transform = Inr (a, b)"
  shows "\<exists>k. a = k * kMicrosPerHour" "int64 a" "int64 b"
proof -
  obtain h h' n where h: "HoursToMicros h = Inr a" "HoursToMicros h' = Inr n" "b = n - 1"
    using assms by (auto simp: min_max_micros_def bindE_eq_Inr_iff split: if_splits)
  show "\<exists>k. a = k * kMicrosPerHour" "int64 a" "int64 b"
    using HoursToMicros_range [OF h(1)] HoursToMicros_range(2,3) [OF h(2)] h(3) by (auto simp: int64_def)
qed

lemma bytes_value_bound: "bytes_value bs < 256 ^ length bs"
proof (induction bs)
  case (Cons b bs)
  have "unat b < 256" using unsigned_less [of b] by simp
  then show ?case using Cons by (simp add: bytes_value_def)
qed (simp add: bytes_value_def)

lemma DeserializeWithMemcpy_range:
  assumes "DeserializeWithMemcpy w bs = Some n" "0 < w"
  shows "- (2 ^ (8 * w - 1)) \<le> n" "n < 2 ^ (8 * w - 1)"
proof -
  have l: "length bs = w" using assms(1) by (simp add: DeserializeWithMemcpy_def split: if_splits)
  have "(256::nat) ^ w = 2 ^ (8 * w)" by (simp add: power_mult)
  then have b: "int (bytes_value bs) < 2 ^ (8 * w)" using bytes_value_bound [of bs] l by (simp add: of_nat_less_iff [symmetric] del: of_nat_less_iff)
  have m: "(2::int) ^ (8 * w) = 2 * 2 ^ (8 * w - 1)" using assms(2) by (cases "8 * w") simp_all
  show "- (2 ^ (8 * w - 1)) \<le> n" "n < 2 ^ (8 * w - 1)"
    using assms(1) b unfolding DeserializeWithMemcpy_def m by (auto simp: Let_def split: if_splits)
qed

lemma DeserializeValue_typed:
  assumes "DeserializeValue ice vt bs = Some p"
  shows "PhysicalType vt p" "physical_less_equal p p"
proof -
  have "PhysicalType vt p \<and> physical_less_equal p p"
    using assms DeserializeWithMemcpy_range [of 4 bs] DeserializeWithMemcpy_range [of 8 bs]
    by (auto simp: DeserializeValue_def int32_def int64_def split: if_splits option.splits)
  then show "PhysicalType vt p" "physical_less_equal p p" by simp_all
qed

lemma ConvertToInt_range: "ConvertToInt bs = Inr n \<Longrightarrow> int32 n"
  using DeserializeWithMemcpy_range [of 4 bs n]
  by (auto simp: ConvertToInt_def bindE_eq_Inr_iff int32_def DeserializeWithMemcpy_def Let_def)

section \<open>What a summary says of a row\<close>

text \<open>
  The meaning of a partition summary, as the table format defines it: the bounds enclose
  the partition value of every row whose source column is not null.  For an identity
  transform this is the value itself; for a temporal one it is the partition value into
  which the transform maps it.  The partition value of a timestamp with time zone is that
  of a timestamp which differs by at most a day.
\<close>

definition in_summary :: "partition_field_summary \<Rightarrow> string \<Rightarrow> TypeID \<Rightarrow> ValueType \<Rightarrow> physical \<Rightarrow> bool" where
  "in_summary summary transform ice_type vt p \<longleftrightarrow>
     PhysicalType vt p \<and>
     (if transform = ''identity'' then
        \<forall>lo hi. DeserializeValue ice_type vt (pfs_lower_bound summary) = Some lo \<longrightarrow>
          DeserializeValue ice_type vt (pfs_upper_bound summary) = Some hi \<longrightarrow> between (MinMaxStats lo hi) p
      else
        \<forall>lo hi. ConvertToInt (pfs_lower_bound summary) = Inr lo \<longrightarrow> ConvertToInt (pfs_upper_bound summary) = Inr hi \<longrightarrow>
          (\<exists>v. lo \<le> v \<and> v \<le> hi \<and>
            (vt = VT_Date \<longrightarrow> transform_day transform (physical_int p) v) \<and>
            (vt = VT_Timestamp \<longrightarrow> transform_micros transform (physical_int p) v) \<and>
            (vt = VT_Timestamptz \<longrightarrow> (\<exists>s. \<bar>s\<bar> \<le> kMicrosInDay \<and> transform_micros transform (physical_int p + s) v))))"

text \<open>The bounds themselves avoid the least integers and years beyond the calendar.\<close>

definition summary_ok :: "partition_field_summary \<Rightarrow> string \<Rightarrow> TypeID \<Rightarrow> bool" where
  "summary_ok summary transform ice_type \<longleftrightarrow>
     (if transform = ''identity'' then
        \<forall>vt lo hi. DeserializeValue ice_type vt (pfs_lower_bound summary) = Some lo \<longrightarrow>
          DeserializeValue ice_type vt (pfs_upper_bound summary) = Some hi \<longrightarrow> castable vt lo \<and> castable vt hi
      else
        \<forall>lo hi. ConvertToInt (pfs_lower_bound summary) = Inr lo \<longrightarrow> ConvertToInt (pfs_upper_bound summary) = Inr hi \<longrightarrow>
          calendar_ok transform lo hi)"

lemma unknown_count_covers:
  assumes "PhysicalType vt lo" "PhysicalType vt hi" "castable vt lo" "castable vt hi"
    and "physical_less_equal lo lo" "physical_less_equal hi hi"
    and "\<And>p. h = Some p \<Longrightarrow> PhysicalType vt p \<and> between (MinMaxStats lo hi) p"
  shows "in_stats (GenericStats_unknown_count (Make_min_max vt (MinMaxStats lo hi))) (Value vt h)"
  using assms
  by (auto simp: in_stats_def GenericStats_unknown_count_def Make_min_max_def min_max_ok_def split: option.splits)

lemma identity_covers:
  assumes "GetStatsFromIdentityTransform summary ice_type vt = Some st" "summary_ok summary ''identity'' ice_type"
    and "\<And>p. h = Some p \<Longrightarrow> in_summary summary ''identity'' ice_type vt p"
  shows "in_stats st (Value vt h)"
proof -
  obtain lo hi where lo: "DeserializeValue ice_type vt (pfs_lower_bound summary) = Some lo"
      "DeserializeValue ice_type vt (pfs_upper_bound summary) = Some hi"
      "st = GenericStats_unknown_count (Make_min_max vt (MinMaxStats lo hi))"
    using assms(1)
    by (auto simp: GetStatsFromIdentityTransform_def TypesToStatsConverter_def GenericStatsFromTypedStats_def
        split: option.splits if_splits)
  moreover have "castable vt lo" "castable vt hi" using assms(2) lo(1,2) by (auto simp: summary_ok_def)
  moreover have "PhysicalType vt p \<and> between (MinMaxStats lo hi) p" if "h = Some p" for p
    using assms(3) [OF that] lo(1,2) by (auto simp: in_summary_def)
  ultimately show ?thesis
    using DeserializeValue_typed [OF lo(1)] DeserializeValue_typed [OF lo(2)] unknown_count_covers by auto
qed

lemma timestamptz_bounds:
  assumes "min_max_micros lo hi transform = Inr (a, b)" "\<not> a < - (2 ^ 63) + kMicrosInDay" "\<not> b > 2 ^ 63 - 1 - kMicrosInDay"
  shows "int64 (a - kMicrosInDay)" "int64 (b + kMicrosInDay)" "a - kMicrosInDay \<noteq> - (2 ^ 63)" "b + kMicrosInDay \<noteq> - (2 ^ 63)"
proof -
  obtain k where "a = 5 * (k * 720000000)" using min_max_micros_range(1) [OF assms(1)] by (auto simp: kMicrosPerHour_def)
  then have "a mod 5 = 0" by simp
  then have "a \<noteq> - 9223371950454775808" by auto
  then have "a - 86400000000 \<noteq> - 9223372036854775808" by simp
  then show "int64 (a - kMicrosInDay)" "int64 (b + kMicrosInDay)" "a - kMicrosInDay \<noteq> - (2 ^ 63)"
      "b + kMicrosInDay \<noteq> - (2 ^ 63)"
    using min_max_micros_range(2,3) [OF assms(1)] assms(2,3) by (auto simp: int64_def kMicrosInDay_def)
qed

lemma temporal_covers:
  assumes "GetStatsFromTemporalTransform summary transform vt = Inr (Some st)" "transform \<noteq> ''identity''"
    and "summary_ok summary transform ice_type" "\<And>p. h = Some p \<Longrightarrow> in_summary summary transform ice_type vt p"
  shows "in_stats st (Value vt h)"
proof -
  obtain lo hi where lo: "ConvertToInt (pfs_lower_bound summary) = Inr lo" "ConvertToInt (pfs_upper_bound summary) = Inr hi"
    using assms(1) by (auto simp: GetStatsFromTemporalTransform_def bindE_eq_Inr_iff)
  have range: "int32 lo" "int32 hi" using lo by (auto intro: ConvertToInt_range)
  have cal: "calendar_ok transform lo hi" using assms(2,3) lo by (simp add: summary_ok_def)
  have p: "PhysicalType vt p \<and> (\<exists>v. lo \<le> v \<and> v \<le> hi \<and>
      (vt = VT_Date \<longrightarrow> transform_day transform (physical_int p) v) \<and>
      (vt = VT_Timestamp \<longrightarrow> transform_micros transform (physical_int p) v) \<and>
      (vt = VT_Timestamptz \<longrightarrow> (\<exists>s. \<bar>s\<bar> \<le> kMicrosInDay \<and> transform_micros transform (physical_int p + s) v)))"
    if "h = Some p" for p using assms(4) [OF that] assms(2) lo by (simp add: in_summary_def)
  have day: "bindE (DaysToHours 1) HoursToMicros = Inr kMicrosInDay"
    by (simp add: DaysToHours_def HoursToMicros_def kMicrosPerHour_def kMicrosInDay_def trunc_div_def)
  consider "vt = VT_Date" | "vt = VT_Timestamp" | "vt = VT_Timestamptz"
    using assms(1) lo by (auto simp: GetStatsFromTemporalTransform_def split: if_splits)
  then show ?thesis
  proof cases
    case 1
    then obtain a b where ab: "GetMinMaxDayFromTemporal lo hi transform = Inr (Some (a, b))"
        "st = GenericStats_unknown_count (Make_min_max VT_Date (MinMaxStats (P_int a) (P_int b)))"
      using assms(1) lo
      by (auto simp: GetStatsFromTemporalTransform_def GetStatsFromTemporalForDate_def bindE_eq_Inr_iff split: if_splits)
    note r = GetMinMaxDayFromTemporal_range [OF ab(1) cal range]
    have "PhysicalType VT_Date q \<and> between (MinMaxStats (P_int a) (P_int b)) q" if q: "h = Some q" for q
      using p [OF q] 1 GetMinMaxDayFromTemporal_covers [OF ab(1) cal]
      by (auto simp: between_def split: physical.splits)
    then show ?thesis unfolding ab(2) 1 using r by (intro unknown_count_covers) auto
  next
    case 2
    then obtain a b where ab: "min_max_micros lo hi transform = Inr (a, b)"
        "st = GenericStats_unknown_count (Make_min_max VT_Timestamp (MinMaxStats (P_int a) (P_int b)))"
      using assms(1) lo
      by (auto simp: GetStatsFromTemporalTransform_def GetStatsFromTemporalForTimestamp_def bindE_eq_Inr_iff
          split: if_splits)
    have "PhysicalType VT_Timestamp q \<and> between (MinMaxStats (P_int a) (P_int b)) q" if q: "h = Some q" for q
      using p [OF q] 2 min_max_micros_covers [OF ab(1) cal] by (auto simp: between_def split: physical.splits)
    then show ?thesis
      unfolding ab(2) 2 using min_max_micros_range [OF ab(1)] by (intro unknown_count_covers) auto
  next
    case 3
    then obtain a b where ab: "min_max_micros lo hi transform = Inr (a, b)"
        "\<not> a < - (2 ^ 63) + kMicrosInDay" "\<not> b > 2 ^ 63 - 1 - kMicrosInDay"
        "st = GenericStats_unknown_count (Make_min_max VT_Timestamptz
          (MinMaxStats (P_int (a - kMicrosInDay)) (P_int (b + kMicrosInDay))))"
      using assms(1) lo day
      by (auto simp: GetStatsFromTemporalTransform_def GetStatsFromTemporalForTimestamp_def bindE_eq_Inr_iff
          split: if_splits)
    have "PhysicalType VT_Timestamptz q \<and> between (MinMaxStats (P_int (a - kMicrosInDay)) (P_int (b + kMicrosInDay))) q"
      if q: "h = Some q" for q
    proof -
      have t: "PhysicalType VT_Timestamptz q" using p [OF q] 3 by simp
      obtain n v s where n: "q = P_int n" "lo \<le> v" "v \<le> hi" "\<bar>s\<bar> \<le> kMicrosInDay" "transform_micros transform (n + s) v"
        using p [OF q] 3 by (cases q) auto
      have "a \<le> n + s" "n + s \<le> b" using min_max_micros_covers [OF ab(1) cal n(2,3,5)] by simp_all
      then show ?thesis using t n(1,4) by (simp add: between_def abs_le_iff)
    qed
    then show ?thesis
      unfolding ab(4) 3 using timestamptz_bounds [OF ab(1-3)] by (intro unknown_count_covers) auto
  qed
qed

section \<open>A skipped manifest has no matching row\<close>

definition in_manifest :: "schema \<Rightarrow> partition_spec \<Rightarrow> manifest_file \<Rightarrow> row \<Rightarrow> bool" where
  "in_manifest s spec manifest r \<longleftrightarrow>
     (\<forall>i < length (ps_fields spec). i < length (mf_partitions manifest) \<longrightarrow>
       (\<forall>column \<in> set (s_fields s). nf_field_id column = pf_source_id (ps_fields spec ! i) \<longrightarrow>
         (\<forall>vt p. r (nf_name column) vt = Some p \<longrightarrow>
           in_summary (mf_partitions manifest ! i) (pf_transform (ps_fields spec ! i)) (TypeId (nf_type column)) vt p)))"

definition manifest_ok :: "schema \<Rightarrow> partition_spec \<Rightarrow> manifest_file \<Rightarrow> bool" where
  "manifest_ok s spec manifest \<longleftrightarrow>
     (\<forall>i < length (ps_fields spec). i < length (mf_partitions manifest) \<longrightarrow>
       (\<forall>column \<in> set (s_fields s). nf_field_id column = pf_source_id (ps_fields spec ! i) \<longrightarrow>
         summary_ok (mf_partitions manifest ! i) (pf_transform (ps_fields spec ! i)) (TypeId (nf_type column))))"

lemma map_of_assigned: "map_of (assigned kvs) k = Some v \<Longrightarrow> (k, v) \<in> set kvs"
  by (auto simp: assigned_def dest: map_of_SomeD)

lemma field_positions_column:
  assumes "field_positions s spec = Inr positions" "map_of positions name = Some i"
  shows "i < length (ps_fields spec) \<and> (\<exists>column \<in> set (s_fields s).
    nf_field_id column = pf_source_id (ps_fields spec ! i) \<and> nf_name column = name)"
proof -
  let ?f = "\<lambda>(i, field). case map_of (assigned (map (\<lambda>column. (nf_field_id column, nf_name column)) (s_fields s)))
      (pf_source_id field) of
    None \<Rightarrow> Inl (Runtime_error ''FilterManifests: partition source id is not found'') | Some name \<Rightarrow> Inr (name, i)"
  let ?xs = "zip [0..<length (ps_fields spec)] (ps_fields spec)"
  obtain kvs where kvs: "mapE ?f ?xs = Inr kvs" "positions = assigned kvs"
    using assms(1) unfolding field_positions_def by (auto simp: bindE_eq_Inr_iff)
  have "(name, i) \<in> set kvs" using assms(2) kvs(2) map_of_assigned by metis
  then obtain j where j: "j < length kvs" "kvs ! j = (name, i)" by (auto simp: in_set_conv_nth)
  have "length kvs = length (ps_fields spec)" using mapE_length [OF kvs(1)] by simp
  moreover have "?f (?xs ! j) = Inr (kvs ! j)"
    using list_all2_nthD2 [OF kvs(1) [unfolded mapE_eq_Inr_iff] j(1)] .
  ultimately have f: "j < length (ps_fields spec)" "?f (j, ps_fields spec ! j) = Inr (name, i)" using j by simp_all
  then obtain name' where n: "map_of (assigned (map (\<lambda>column. (nf_field_id column, nf_name column)) (s_fields s)))
      (pf_source_id (ps_fields spec ! j)) = Some name'"
    by (cases "map_of (assigned (map (\<lambda>column. (nf_field_id column, nf_name column)) (s_fields s)))
      (pf_source_id (ps_fields spec ! j))") simp_all
  then have "name' = name" "j = i" using f(2) by simp_all
  moreover obtain column where "column \<in> set (s_fields s)" "nf_field_id column = pf_source_id (ps_fields spec ! j)"
      "nf_name column = name'"
    using map_of_assigned [OF n] by auto
  ultimately show ?thesis using f(1) by blast
qed

lemma ManifestFileStatsGetter_covers:
  assumes "field_positions s spec = Inr positions" "distinct (map nf_name (s_fields s))"
    and "manifest_ok s spec manifest" "in_manifest s spec manifest r"
  shows "getter_covers (ManifestFileStatsGetter_GetStats
    \<lparr>fg_name_to_type = assigned (map (\<lambda>column. (nf_name column, TypeId (nf_type column))) (s_fields s)),
     fg_name_to_position = positions, fg_partitions = mf_partitions manifest, fg_spec = spec\<rparr>) r"
  unfolding getter_covers_def
proof (intro allI impI)
  fix name vt st
  let ?g = "\<lparr>fg_name_to_type = assigned (map (\<lambda>column. (nf_name column, TypeId (nf_type column))) (s_fields s)),
     fg_name_to_position = positions, fg_partitions = mf_partitions manifest, fg_spec = spec\<rparr>"
  assume st: "ManifestFileStatsGetter_GetStats ?g name vt = Inr (Some st)"
  then obtain i where i: "map_of positions name = Some i" "i < length (mf_partitions manifest)"
    by (auto simp: ManifestFileStatsGetter_GetStats_def bindE_eq_Inr_iff split: option.splits)
  let ?summary = "mf_partitions manifest ! i" and ?tr = "pf_transform (ps_fields spec ! i)"
  obtain column where c: "i < length (ps_fields spec)" "column \<in> set (s_fields s)"
      "nf_field_id column = pf_source_id (ps_fields spec ! i)" "nf_name column = name"
    using field_positions_column [OF assms(1) i(1)] by auto
  have ok: "summary_ok ?summary ?tr (TypeId (nf_type column))"
    using assms(3) c i(2) by (auto simp: manifest_ok_def)
  have row: "r name vt = Some p \<Longrightarrow> in_summary ?summary ?tr (TypeId (nf_type column)) vt p" for p
    using assms(4) c i(2) by (auto simp: in_manifest_def)
  show "in_stats st (Value vt (r name vt))"
  proof (cases "?tr = ''identity''")
    case True
    then obtain ice where ice: "map_of (assigned (map (\<lambda>column. (nf_name column, TypeId (nf_type column))) (s_fields s))) name =
        Some ice" "GetStatsFromIdentityTransform ?summary ice vt = Some st"
      using st i by (auto simp: ManifestFileStatsGetter_GetStats_def split: option.splits)
    then obtain column' where "column' \<in> set (s_fields s)" "nf_name column' = name" "ice = TypeId (nf_type column')"
      by (auto dest!: map_of_assigned)
    then have "ice = TypeId (nf_type column)"
      using assms(2) c(2,4) by (metis distinct_map inj_on_def)
    then show ?thesis using identity_covers [of ?summary ice vt st "r name vt"] ice(2) ok row True by simp
  next
    case False
    then have "GetStatsFromTemporalTransform ?summary ?tr vt = Inr (Some st)"
      using st i by (auto simp: ManifestFileStatsGetter_GetStats_def Let_def split: if_splits)
    then show ?thesis using temporal_covers [OF _ False ok row] by blast
  qed
qed

lemma can_skip_manifest_sound:
  assumes "can_skip_manifest shift (Some n) s specs manifest = Inr True"
    and "shift_ok shift" "node_ok n" "exact_constants n" "distinct (map nf_name (s_fields s))"
    and "manifest_spec specs manifest = Inr spec" "manifest_ok s spec manifest"
    and "in_manifest s spec manifest r" "conditions_known shift ext r n"
  shows "eval shift ext r n \<noteq> Some (of_truth (Some True))"
proof
  assume e: "eval shift ext r n = Some (of_truth (Some True))"
  obtain positions where p: "field_positions s spec = Inr positions"
    "StatsFilter_ApplyFilter (ManifestFileStatsGetter_GetStats
      \<lparr>fg_name_to_type = assigned (map (\<lambda>column. (nf_name column, TypeId (nf_type column))) (s_fields s)),
       fg_name_to_position = positions, fg_partitions = mf_partitions manifest, fg_spec = spec\<rparr>) shift (Some n) = Inr MR_None"
    using assms(1,6) by (auto simp: can_skip_manifest_def bindE_eq_Inr_iff split: if_splits)
  from ApplyFilter_sound(1) [OF assms(2-4) ManifestFileStatsGetter_covers [OF p(1) assms(5,7,8)] assms(9) e p(2)]
  show False by simp
qed


text \<open>
  C11. The days and microseconds that \<open>GetMinMaxDayFromTemporal\<close> and
  \<open>GetStatsFromTemporalForTimestamp\<close> compute from the bounds of a year, month, day or hour
  partition are within 32 and 64 bits and enclose every date, respectively timestamp,
  whose partition value lies between the bounds, for years that \<open>std::chrono::year\<close> can
  store.
\<close>

theorem temporal_partition_bounds:
  assumes "calendar_ok transform lo hi" "int32 lo" "int32 hi"
  shows "(\<forall>a b. GetMinMaxDayFromTemporal lo hi transform = Inr (Some (a, b)) \<longrightarrow>
      int32 a \<and> int32 b \<and> (\<forall>d v. lo \<le> v \<and> v \<le> hi \<and> transform_day transform d v \<longrightarrow> a \<le> d \<and> d \<le> b)) \<and>
    (\<forall>a b. min_max_micros lo hi transform = Inr (a, b) \<longrightarrow>
      int64 a \<and> int64 b \<and> (\<forall>t v. lo \<le> v \<and> v \<le> hi \<and> transform_micros transform t v \<longrightarrow> a \<le> t \<and> t \<le> b))"
  using GetMinMaxDayFromTemporal_range(1,2) [OF _ assms] GetMinMaxDayFromTemporal_covers [OF _ assms(1)]
    min_max_micros_range(2,3) min_max_micros_covers [OF _ assms(1)]
  by metis

text \<open>A year that \<open>std::chrono::year\<close> cannot store wraps to the other end of the calendar.\<close>

lemma YearsToDays_wraps: "YearsToDays 30797 = Inr 11248373 \<and> YearsToDays 30798 = Inr (- 12687794)"
  by code_simp

section \<open>Examples\<close>

definition example_schema :: schema where
  "example_schema = \<lparr>s_schema_id = 0, s_fields =
     [\<lparr>nf_name = ''d'', nf_field_id = 1, nf_is_required = False, nf_type = PrimitiveType kDate,
       nf_initial_default = None, nf_write_default = None\<rparr>]\<rparr>"

definition by_year :: partition_spec where
  "by_year = \<lparr>ps_spec_id = 7, ps_fields = [\<lparr>pf_source_id = 1, pf_field_id = 1000, pf_name = ''d_year'', pf_transform = ''year''\<rparr>]\<rparr>"

definition year_file :: "nat \<Rightarrow> manifest_file" where
  "year_file y = \<lparr>mf_added_files_count = 1, mf_added_rows_count = 1, mf_content = mcData, mf_deleted_files_count = 0,
     mf_deleted_rows_count = 0, mf_existing_files_count = 0, mf_existing_rows_count = 0, mf_length = 1,
     mf_min_sequence_number = 1, mf_partition_spec_id = 7, mf_path = ''m'', mf_sequence_number = 1, mf_snapshot_id = 1,
     mf_partitions = [\<lparr>pfs_contains_null = False, pfs_contains_nan = None,
       pfs_lower_bound = [of_nat y, 0, 0, 0], pfs_upper_bound = [of_nat y, 0, 0, 0]\<rparr>]\<rparr>"

definition since_2020 :: Node where
  "since_2020 = FunctionNode (compare_signature kGreaterThanOrEqualTo VT_Date)
     [VariableNode VT_Date ''d'', ConstNode (Value VT_Date (Some (P_int 18262)))]"

definition date_row :: row where
  "date_row name vt = (if vt = VT_Date then Some (P_int 18300) else None)"

lemma year_file_bounds: "ConvertToInt [50, 0, 0, 0] = Inr 50"
  by (simp add: ConvertToInt_def DeserializeWithMemcpy_def bytes_value_def)

lemma year_starts: "year_start 50 = 18262" "year_start 51 = 18628"
  by code_simp+


theorem temporal_partition_bounds_witness:
  "calendar_ok ''month'' 599 600 \<and> GetMinMaxDayFromTemporal 599 600 ''month'' = Inr (Some (18231, 18292)) \<and>
   transform_day ''month'' 18292 600 \<and> (18231 :: int) \<le> 18292 \<and> int32 18292"
proof -
  have c: "calendar_ok ''month'' 599 600" "int32 599" "int32 600" by (simp_all add: calendar_ok_def int32_def)
  have g: "GetMinMaxDayFromTemporal 599 600 ''month'' = Inr (Some (18231, 18292))" by code_simp
  have t: "transform_day ''month'' 18292 600" by code_simp
  show ?thesis using temporal_partition_bounds [OF c] g t c(1) by fastforce
qed

end
