(* ===== verification/Temporal_Ops.thy ===== *)
theory Temporal_Ops
  imports Stats_Getters "HOL-Library.Signed_Division"
begin

text \<open>
  The functions that the row filter adds to Gandiva (\<open>filter/row_filter/extend_gandiva\<close>):
  points of time with their calendar fields (\<open>epoch_time_point.h\<close>, \<open>epoch_time_point.cpp\<close>),
  casts, comparisons, extraction and truncation of timestamps (\<open>temporal_ops.cpp\<close>), and
  checked integer arithmetic (\<open>arithmetic_ops.h\<close>).  The calendar types of
  \<open>arrow_vendored::date\<close> are a parameter: a record of the conversions that the code calls.
\<close>

section \<open>Points of time\<close>

type_synonym ymd = "int \<times> int \<times> int"

record date_library =
  year_month_day :: "int \<Rightarrow> ymd"
  sys_days_of :: "ymd \<Rightarrow> int"
  plus_years :: "ymd \<Rightarrow> int \<Rightarrow> ymd"
  plus_months :: "ymd \<Rightarrow> int \<Rightarrow> ymd"
  weekday_from_sunday :: "int \<Rightarrow> int"

text \<open>The remainder of a division that rounds towards zero, for a positive divisor.\<close>

definition trunc_mod :: "int \<Rightarrow> int \<Rightarrow> int" where
  "trunc_mod a b = a - b * trunc_div a b"

definition days_in_a_month :: "int list list" where
  "days_in_a_month = [[31, 28, 31, 30, 31, 30, 31, 31, 30, 31, 30, 31],
                      [31, 29, 31, 30, 31, 30, 31, 31, 30, 31, 30, 31]]"

definition is_leap_year :: "int \<Rightarrow> bool" where
  "is_leap_year yy =
     (if trunc_mod yy 4 \<noteq> 0 then False
      else if trunc_mod yy 400 = 0 then True
      else trunc_mod yy 100 \<noteq> 0)"

definition last_possible_day_in_month :: "int \<Rightarrow> int \<Rightarrow> int" where
  "last_possible_day_in_month year month =
     days_in_a_month ! (if is_leap_year year then 1 else 0) ! nat (month - 1)"

fun did_days_overflow :: "ymd \<Rightarrow> bool" where
  "did_days_overflow (year, month, days) \<longleftrightarrow>
     days > days_in_a_month ! (if is_leap_year year then 1 else 0) ! nat (month - 1)"

text \<open>A point of time is its microseconds since the epoch.  \<open>floor<days>\<close> rounds down.\<close>

definition floor_days :: "int \<Rightarrow> int" where
  "floor_days tp = tp div kMicrosInDay"

definition TimeOfDay :: "int \<Rightarrow> int" where
  "TimeOfDay tp = tp - kMicrosInDay * floor_days tp"

definition YearMonthDay :: "date_library \<Rightarrow> int \<Rightarrow> ymd" where
  "YearMonthDay lib tp = year_month_day lib (floor_days tp)"

definition tp_year :: "date_library \<Rightarrow> int \<Rightarrow> int" where
  "tp_year lib tp = fst (YearMonthDay lib tp)"

definition tp_month :: "date_library \<Rightarrow> int \<Rightarrow> int" where
  "tp_month lib tp = fst (snd (YearMonthDay lib tp))"

definition TmYear :: "date_library \<Rightarrow> int \<Rightarrow> int" where
  "TmYear lib tp = tp_year lib tp - 1900"

definition TmMon :: "date_library \<Rightarrow> int \<Rightarrow> int" where
  "TmMon lib tp = tp_month lib tp - 1"

definition TmYday :: "date_library \<Rightarrow> int \<Rightarrow> int" where
  "TmYday lib tp = floor_days tp - sys_days_of lib (tp_year lib tp, 1, 1)"

definition TmMday :: "date_library \<Rightarrow> int \<Rightarrow> int" where
  "TmMday lib tp = snd (snd (YearMonthDay lib tp))"

definition TmWday :: "date_library \<Rightarrow> int \<Rightarrow> int" where
  "TmWday lib tp = weekday_from_sunday lib (floor_days tp)"

definition kMicrosInMilli :: int where
  "kMicrosInMilli = 1000"

definition kMicrosInSecond :: int where
  "kMicrosInSecond = 1000 * kMicrosInMilli"

definition kMicrosInMinute :: int where
  "kMicrosInMinute = 60 * kMicrosInSecond"

definition kMicrosInHour :: int where
  "kMicrosInHour = 60 * kMicrosInMinute"

definition TmHour :: "int \<Rightarrow> int" where
  "TmHour tp = TimeOfDay tp div kMicrosInHour"

definition TmMin :: "int \<Rightarrow> int" where
  "TmMin tp = TimeOfDay tp mod kMicrosInHour div kMicrosInMinute"

definition AddYears :: "date_library \<Rightarrow> int \<Rightarrow> int \<Rightarrow> int" where
  "AddYears lib num_years tp =
     (let ymd = plus_years lib (YearMonthDay lib tp) num_years
      in kMicrosInDay * sys_days_of lib ymd + TimeOfDay tp)"

definition AddDays :: "date_library \<Rightarrow> int \<Rightarrow> int \<Rightarrow> int" where
  "AddDays lib num_days tp =
     kMicrosInDay * (sys_days_of lib (YearMonthDay lib tp) + num_days) + TimeOfDay tp"

definition AddMonths :: "date_library \<Rightarrow> int \<Rightarrow> int \<Rightarrow> int" where
  "AddMonths lib num_months tp =
     (let ymd = plus_months lib (YearMonthDay lib tp) num_months;
          tp' = kMicrosInDay * sys_days_of lib ymd + TimeOfDay tp
      in if did_days_overflow ymd then
           AddDays lib (last_possible_day_in_month (fst ymd) (fst (snd ymd)) - snd (snd ymd)) tp'
         else tp')"

definition ClearTimeOfDay :: "int \<Rightarrow> int" where
  "ClearTimeOfDay tp = tp - TimeOfDay tp"

section \<open>The week of a year\<close>

definition JAN1_WDAY :: "date_library \<Rightarrow> int \<Rightarrow> int" where
  "JAN1_WDAY lib tp = trunc_mod (TmWday lib tp - trunc_mod (TmYday lib tp) 7 + 7) 7"

definition WeekOfCurrentYear :: "date_library \<Rightarrow> int \<Rightarrow> int" where
  "WeekOfCurrentYear lib tp =
     (let jan1_wday = JAN1_WDAY lib tp in
      if jan1_wday \<in> {1, 2, 3, 4} then trunc_div (TmYday lib tp + jan1_wday - 1) 7 + 1
      else if jan1_wday \<in> {5, 6} then trunc_div (TmYday lib tp - (8 - jan1_wday)) 7 + 1
      else if jan1_wday = 0 then trunc_div (TmYday lib tp - 1) 7 + 1
      else 0)"

definition GetJanWeekOfYear :: "date_library \<Rightarrow> int \<Rightarrow> int" where
  "GetJanWeekOfYear lib tp =
     (let jan1_wday = JAN1_WDAY lib tp in
      if jan1_wday \<ge> 1 \<and> jan1_wday \<le> 4 then 1
      else if jan1_wday = 5 then 53
      else if jan1_wday = 0 then (if TmMday lib tp > 1 then 1 else 52)
      else if TmMday lib tp = 3 then 1
      else if is_leap_year (1900 + TmYear lib tp - 1) then 53
      else 52)"

definition GetDecWeekOfYear :: "date_library \<Rightarrow> int \<Rightarrow> int" where
  "GetDecWeekOfYear lib tp =
     (let next_jan1_wday = trunc_mod (TmWday lib tp + (31 - TmMday lib tp) + 1) 7 in
      if next_jan1_wday = 4 then 1
      else if next_jan1_wday = 3 then (if TmMday lib tp \<noteq> 29 then 1 else WeekOfCurrentYear lib tp)
      else if next_jan1_wday = 2 then (if TmMday lib tp = 31 then 1 else WeekOfCurrentYear lib tp)
      else WeekOfCurrentYear lib tp)"

definition WeekOfYear :: "date_library \<Rightarrow> int \<Rightarrow> int" where
  "WeekOfYear lib tp =
     (if TmYday lib tp < 3 then GetJanWeekOfYear lib tp
      else if TmMon lib tp = 11 \<and> TmMday lib tp \<ge> 29 then GetDecWeekOfYear lib tp
      else WeekOfCurrentYear lib tp)"

section \<open>Casts and comparisons\<close>

text \<open>A sum or product that leaves 64 bits is undefined in the code; it is modelled by
  wrapping.\<close>

definition CastTimestampFromTimestamptz :: "int \<Rightarrow> int \<Rightarrow> int" where
  "CastTimestampFromTimestamptz timestamp shift = to_int64 (timestamp + shift)"

definition CastTimestamptzFromTimestamp :: "int \<Rightarrow> int \<Rightarrow> int" where
  "CastTimestamptzFromTimestamp timestamp shift = to_int64 (timestamp + shift)"

definition CastDateFromTimestamp :: "int \<Rightarrow> int" where
  "CastDateFromTimestamp timestamp = to_int32 (trunc_div timestamp kMicrosInDay)"

definition DateDiff :: "int \<Rightarrow> int \<Rightarrow> int" where
  "DateDiff lhs rhs = to_int32 (lhs - rhs)"

definition date_micros :: "int \<Rightarrow> int" where
  "date_micros date = to_int64 (date * kMicrosInDay)"

definition LessThanDateTimestamp :: "int \<Rightarrow> int \<Rightarrow> bool" where
  "LessThanDateTimestamp date timestamp \<longleftrightarrow> date_micros date < timestamp"

definition LessThanOrEqualToDateTimestamp :: "int \<Rightarrow> int \<Rightarrow> bool" where
  "LessThanOrEqualToDateTimestamp date timestamp \<longleftrightarrow> date_micros date \<le> timestamp"

definition GreaterThanDateTimestamp :: "int \<Rightarrow> int \<Rightarrow> bool" where
  "GreaterThanDateTimestamp date timestamp \<longleftrightarrow> date_micros date > timestamp"

definition GreaterThanOrEqualToDateTimestamp :: "int \<Rightarrow> int \<Rightarrow> bool" where
  "GreaterThanOrEqualToDateTimestamp date timestamp \<longleftrightarrow> date_micros date \<ge> timestamp"

definition EqualDateTimestamp :: "int \<Rightarrow> int \<Rightarrow> bool" where
  "EqualDateTimestamp date timestamp \<longleftrightarrow> date_micros date = timestamp"

definition NotEqualDateTimestamp :: "int \<Rightarrow> int \<Rightarrow> bool" where
  "NotEqualDateTimestamp date timestamp \<longleftrightarrow> date_micros date \<noteq> timestamp"

definition LessThanTimestampDate :: "int \<Rightarrow> int \<Rightarrow> bool" where
  "LessThanTimestampDate timestamp date \<longleftrightarrow> timestamp < date_micros date"

definition LessThanOrEqualToTimestampDate :: "int \<Rightarrow> int \<Rightarrow> bool" where
  "LessThanOrEqualToTimestampDate timestamp date \<longleftrightarrow> timestamp \<le> date_micros date"

definition GreaterThanTimestampDate :: "int \<Rightarrow> int \<Rightarrow> bool" where
  "GreaterThanTimestampDate timestamp date \<longleftrightarrow> timestamp > date_micros date"

definition GreaterThanOrEqualToTimestampDate :: "int \<Rightarrow> int \<Rightarrow> bool" where
  "GreaterThanOrEqualToTimestampDate timestamp date \<longleftrightarrow> timestamp \<ge> date_micros date"

definition EqualTimestampDate :: "int \<Rightarrow> int \<Rightarrow> bool" where
  "EqualTimestampDate timestamp date \<longleftrightarrow> timestamp = date_micros date"

definition NotEqualTimestampDate :: "int \<Rightarrow> int \<Rightarrow> bool" where
  "NotEqualTimestampDate timestamp date \<longleftrightarrow> timestamp \<noteq> date_micros date"

section \<open>Extraction of fields\<close>

text \<open>The results are integers that a \<open>double\<close> holds exactly.  \<open>ExtractSecond\<close> and
  \<open>ExtractMilliseconds\<close> divide the microseconds of the minute by a power of ten in floating
  point; that division is left out, \<open>minute_parts\<close> has the seconds and the microseconds
  that they combine.\<close>

definition ExtractMillennium :: "date_library \<Rightarrow> int \<Rightarrow> int" where
  "ExtractMillennium lib tp =
     (let tm_year = tp_year lib tp in
      if tm_year > 0 then trunc_div (tm_year + 999) 1000 else - trunc_div (999 - (tm_year - 1)) 1000)"

definition ExtractCentury :: "date_library \<Rightarrow> int \<Rightarrow> int" where
  "ExtractCentury lib tp =
     (let tm_year = tp_year lib tp in
      if tm_year > 0 then trunc_div (tm_year + 99) 100 else - trunc_div (99 - (tm_year - 1)) 100)"

definition ExtractDecade :: "date_library \<Rightarrow> int \<Rightarrow> int" where
  "ExtractDecade lib tp =
     (let tm_year = tp_year lib tp in
      if tm_year > 0 then trunc_div tm_year 10 else - trunc_div (8 - (tm_year - 1)) 10)"

definition ExtractYear :: "date_library \<Rightarrow> int \<Rightarrow> int" where
  "ExtractYear lib tp = (let tm_year = tp_year lib tp in if tm_year > 0 then tm_year else tm_year - 1)"

definition ExtractQuarter :: "date_library \<Rightarrow> int \<Rightarrow> int" where
  "ExtractQuarter lib tp = (tp_month lib tp - 1) div 3 + 1"

definition ExtractMonth :: "date_library \<Rightarrow> int \<Rightarrow> int" where
  "ExtractMonth lib tp = tp_month lib tp"

definition ExtractWeek :: "date_library \<Rightarrow> int \<Rightarrow> int" where
  "ExtractWeek lib tp = WeekOfYear lib tp"

definition ExtractDay :: "date_library \<Rightarrow> int \<Rightarrow> int" where
  "ExtractDay lib tp = TmMday lib tp"

definition ExtractHour :: "int \<Rightarrow> int" where
  "ExtractHour tp = TmHour tp"

definition ExtractMinute :: "int \<Rightarrow> int" where
  "ExtractMinute tp = TmMin tp"

definition minute_parts :: "int \<Rightarrow> int \<times> int" where
  "minute_parts tp =
     (let r = trunc_mod tp kMicrosInMinute;
          micros = (if r < 0 then r + kMicrosInMinute else r)
      in (trunc_div micros kMicrosInSecond, trunc_mod micros kMicrosInSecond))"

definition ExtractMicroseconds :: "int \<Rightarrow> int" where
  "ExtractMicroseconds tp = (case minute_parts tp of (sec, fsec) \<Rightarrow> sec * 1000000 + fsec)"

section \<open>Truncation\<close>

definition DateTruncYearUnits :: "int \<Rightarrow> int \<Rightarrow> date_library \<Rightarrow> int \<Rightarrow> int" where
  "DateTruncYearUnits years_in_unit off_by lib tp =
     (let ndays_to_trunc = TmMday lib tp - 1;
          nmonths_to_trunc = TmMon lib tp;
          year = 1900 + TmYear lib tp;
          year' = trunc_div (year - off_by) years_in_unit * years_in_unit + off_by;
          nyears_to_trunc = TmYear lib tp - (year' - 1900)
      in ClearTimeOfDay (AddYears lib (- nyears_to_trunc)
           (AddMonths lib (- nmonths_to_trunc) (AddDays lib (- ndays_to_trunc) tp))))"

definition DateTruncMonthUnits :: "int \<Rightarrow> date_library \<Rightarrow> int \<Rightarrow> int" where
  "DateTruncMonthUnits months_in_unit lib tp =
     (let ndays_to_trunc = TmMday lib tp - 1;
          nmonths_to_trunc = TmMon lib tp - trunc_div (TmMon lib tp) months_in_unit * months_in_unit
      in ClearTimeOfDay (AddMonths lib (- nmonths_to_trunc) (AddDays lib (- ndays_to_trunc) tp)))"

definition DateTruncFixedUnit :: "int \<Rightarrow> int \<Rightarrow> int" where
  "DateTruncFixedUnit unit tp =
     (if tp < 0 then to_int64 ((trunc_div (tp + 1) unit - 1) * unit) else trunc_div tp unit * unit)"

definition DateTruncMillennium :: "date_library \<Rightarrow> int \<Rightarrow> int" where
  "DateTruncMillennium = DateTruncYearUnits 1000 1"

definition DateTruncCentury :: "date_library \<Rightarrow> int \<Rightarrow> int" where
  "DateTruncCentury = DateTruncYearUnits 100 1"

definition DateTruncDecade :: "date_library \<Rightarrow> int \<Rightarrow> int" where
  "DateTruncDecade = DateTruncYearUnits 10 0"

definition DateTruncYear :: "date_library \<Rightarrow> int \<Rightarrow> int" where
  "DateTruncYear = DateTruncMonthUnits 12"

definition DateTruncQuarter :: "date_library \<Rightarrow> int \<Rightarrow> int" where
  "DateTruncQuarter = DateTruncMonthUnits 3"

definition DateTruncMonth :: "date_library \<Rightarrow> int \<Rightarrow> int" where
  "DateTruncMonth = DateTruncMonthUnits 1"

definition DateTruncWeek :: "date_library \<Rightarrow> int \<Rightarrow> int" where
  "DateTruncWeek lib tp =
     (let ndays_to_trunc = (if TmWday lib tp = 0 then 6 else TmWday lib tp - 1)
      in ClearTimeOfDay (AddDays lib (- ndays_to_trunc) tp))"

definition DateTruncDay :: "int \<Rightarrow> int" where
  "DateTruncDay = DateTruncFixedUnit kMicrosInDay"

definition DateTruncHour :: "int \<Rightarrow> int" where
  "DateTruncHour = DateTruncFixedUnit kMicrosInHour"

definition DateTruncMinute :: "int \<Rightarrow> int" where
  "DateTruncMinute = DateTruncFixedUnit kMicrosInMinute"

definition DateTruncSecond :: "int \<Rightarrow> int" where
  "DateTruncSecond = DateTruncFixedUnit kMicrosInSecond"

definition DateTruncMilliseconds :: "int \<Rightarrow> int" where
  "DateTruncMilliseconds = DateTruncFixedUnit kMicrosInMilli"

section \<open>Checked arithmetic\<close>

text \<open>The arithmetic is that of \<open>int16_t\<close>, \<open>int32_t\<close> and \<open>int64_t\<close>: signed words.  Setting the
  error message of the context is an error result.\<close>

definition fits :: "'w::len itself \<Rightarrow> int \<Rightarrow> bool" where
  "fits t n \<longleftrightarrow> - (2 ^ (LENGTH('w) - 1)) \<le> n \<and> n < 2 ^ (LENGTH('w) - 1)"

definition AddOverflow :: "'w::len word \<Rightarrow> 'w word \<Rightarrow> 'w word result" where
  "AddOverflow lhs rhs =
     (if \<not> fits TYPE('w) (sint lhs + sint rhs) then Inl (Runtime_error ''Overflow'') else Inr (lhs + rhs))"

definition SubOverflow :: "'w::len word \<Rightarrow> 'w word \<Rightarrow> 'w word result" where
  "SubOverflow lhs rhs =
     (if \<not> fits TYPE('w) (sint lhs - sint rhs) then Inl (Runtime_error ''Overflow'') else Inr (lhs - rhs))"

definition MulOverflow :: "'w::len word \<Rightarrow> 'w word \<Rightarrow> 'w word result" where
  "MulOverflow lhs rhs =
     (if \<not> fits TYPE('w) (sint lhs * sint rhs) then Inl (Runtime_error ''Overflow'') else Inr (lhs * rhs))"

definition DivSafe :: "'w::len word \<Rightarrow> 'w word \<Rightarrow> 'w word result" where
  "DivSafe lhs rhs =
     (if rhs = 0 then Inl (Runtime_error ''Division by zero'')
      else if sint lhs = - (2 ^ (LENGTH('w) - 1)) \<and> sint rhs = -1 then Inl (Runtime_error ''Overflow'')
      else Inr (word_of_int (sint lhs sdiv sint rhs)))"

definition ModSafe :: "'w::len word \<Rightarrow> 'w word \<Rightarrow> 'w word result" where
  "ModSafe lhs rhs =
     (if rhs = 0 then Inl (Runtime_error ''Division by zero'')
      else if sint lhs = - (2 ^ (LENGTH('w) - 1)) \<and> sint rhs = -1 then Inr 0
      else Inr (word_of_int (sint lhs smod sint rhs)))"

end
