(* ===== verification/Calendar.thy ===== *)
theory Calendar
  imports Temporal_Ops Manifest_Filter
begin

text \<open>
  The Gregorian calendar: lengths of years and months, the year and the month of a day,
  the contract of the date library as a locale over its record of conversions, and an
  executable instance of it.
\<close>

section \<open>Years\<close>

definition year_first :: "int \<Rightarrow> int" where
  "year_first y = sys_days y 1"

lemma year_first_eq: "year_first y = days_before_year y"
  by (simp add: year_first_def sys_days_def days_before_month_def)

lemma div_pred:
  fixes y n :: int
  assumes "0 < n"
  shows "y div n - (y - 1) div n = (if n dvd y then 1 else 0)"
proof -
  define q r where "q = y div n" and "r = y mod n"
  have y: "y = n * q + r" "0 \<le> r" "r < n" using assms by (simp_all add: q_def r_def)
  show ?thesis
  proof (cases "r = 0")
    case True
    then have e: "y - 1 = (n - 1) + n * (q - 1)" using y(1) by (simp add: algebra_simps)
    have "(y - 1) div n = (n - 1) div n + (q - 1)" unfolding e using assms by (simp only: div_mult_self2)
    also have "(n - 1) div n = 0" using assms by simp
    finally show ?thesis using True by (simp add: q_def r_def dvd_eq_mod_eq_0)
  next
    case False
    have e: "y - 1 = (r - 1) + n * q" using y(1) by simp
    have "(y - 1) div n = (r - 1) div n + q" unfolding e using assms by (simp only: div_mult_self2)
    also have "(r - 1) div n = 0" using y False by simp
    finally show ?thesis using False by (simp add: q_def r_def dvd_eq_mod_eq_0)
  qed
qed

definition year_length :: "int \<Rightarrow> int" where
  "year_length y = (if leap_year y then 366 else 365)"

lemma div_bounds:
  fixes a n :: int
  assumes "0 < n"
  shows "n * (a div n) \<le> a" "a < n * (a div n) + n"
  using mult_div_mod_eq [of n a] pos_mod_bound [OF assms, of a] pos_mod_sign [OF assms, of a] by linarith+

lemma leap_year_sum: "(if 4 dvd y then 1 else 0) - (if 100 dvd y then 1 else 0) + (if 400 dvd y then 1 else 0) =
  (if leap_year y then 1 else (0 :: int))"
proof -
  have "(100 :: int) dvd 400" "(4 :: int) dvd 100" by simp_all
  then have "400 dvd y \<Longrightarrow> 100 dvd y" "100 dvd y \<Longrightarrow> 4 dvd y" using dvd_trans by blast+
  then show ?thesis
    by (cases "400 dvd y"; cases "100 dvd y"; cases "4 dvd y") (simp_all add: leap_year_def)
qed

lemma year_first_step: "year_first (y + 1) = year_first y + year_length y"
proof -
  have "year_first (y + 1) - year_first y =
      365 + (y div 4 - (y - 1) div 4) - (y div 100 - (y - 1) div 100) + (y div 400 - (y - 1) div 400)"
    by (simp only: year_first_eq days_before_year_def) simp
  also have "\<dots> = 365 + (if leap_year y then 1 else 0)"
    unfolding leap_year_sum [symmetric] by (simp only: div_pred [of 4 y] div_pred [of 100 y] div_pred [of 400 y] zero_less_numeral)
  finally show ?thesis by (simp add: year_length_def split: if_splits)
qed

lemma year_first_strict: "y < z \<Longrightarrow> year_first y < year_first z"
  using days_before_year_mono [of "y + 1" z] year_first_step [of y]
  by (simp add: year_first_eq year_length_def split: if_splits)

lemma year_sum_bounds:
  fixes a p q r :: int
  assumes "4 * p \<le> a" "a < 4 * p + 4" "100 * q \<le> a" "a < 100 * q + 100" "400 * r \<le> a" "a < 400 * r + 400"
  shows "146097 * a - 699 \<le> 400 * (365 * a + p - q + r)" "400 * (365 * a + p - q + r) \<le> 146097 * a + 396"
  using assms by simp_all

lemma year_first_bounds:
  "146097 * (y - 1970) - 506 \<le> 400 * year_first y" "400 * year_first y \<le> 146097 * (y - 1970) + 589"
  using year_sum_bounds [OF div_bounds [of 4 "y - 1"] div_bounds [of 100 "y - 1"] div_bounds [of 400 "y - 1"]]
  unfolding year_first_eq days_before_year_def right_diff_distrib by simp_all

text \<open>The year of a day: an estimate by the mean length of a year is off by at most one.\<close>

definition civil_year :: "int \<Rightarrow> int" where
  "civil_year d =
     (let e = 1970 + 400 * d div 146097
      in if d < year_first e then e - 1 else if year_first (e + 1) \<le> d then e + 1 else e)"

lemma civil_year: "year_first (civil_year d) \<le> d \<and> d < year_first (civil_year d + 1)"
proof -
  define e where "e = 1970 + 400 * d div 146097"
  have "146097 * (e - 1970) \<le> 400 * d" "400 * d < 146097 * (e - 1970) + 146097"
    using div_bounds [of 146097 "400 * d"] by (simp_all add: e_def)
  then have "year_first (e - 1) \<le> d" "d < year_first (e + 2)"
    using year_first_bounds(2) [of "e - 1"] year_first_bounds(1) [of "e + 2"] by simp_all
  then show ?thesis unfolding civil_year_def e_def [symmetric] by (auto simp: Let_def add.assoc)
qed

lemma civil_year_unique: "year_first y \<le> d \<Longrightarrow> d < year_first (y + 1) \<Longrightarrow> civil_year d = y"
  using civil_year [of d] year_first_strict [of y "civil_year d"] year_first_strict [of "civil_year d" y]
    days_before_year_mono [of "y + 1" "civil_year d"] days_before_year_mono [of "civil_year d + 1" y]
  by (simp add: year_first_eq) (meson not_less_iff_gr_or_eq zless_imp_add1_zle order.strict_trans2 not_le)

section \<open>Months and dates\<close>

lemma trunc_div_mult: "0 < n \<Longrightarrow> trunc_div (n * k) n = k"
  using nonzero_mult_div_cancel_left [of n "- k"] by (simp add: trunc_div_def)

lemma trunc_mod_eq_0:
  assumes "0 < n"
  shows "trunc_mod y n = 0 \<longleftrightarrow> n dvd y"
proof
  assume "trunc_mod y n = 0"
  then show "n dvd y" unfolding trunc_mod_def by (metis dvd_triv_left eq_iff_diff_eq_0)
next
  assume "n dvd y"
  then obtain k where "y = n * k" by (elim dvdE)
  then show "trunc_mod y n = 0" using assms by (simp add: trunc_mod_def trunc_div_mult)
qed

lemma is_leap_year_eq: "is_leap_year y = leap_year y"
proof -
  have "(4 :: int) dvd 400" by simp
  then have "400 dvd y \<Longrightarrow> 4 dvd y" using dvd_trans by blast
  then show ?thesis by (auto simp: is_leap_year_def leap_year_def trunc_mod_eq_0)
qed

definition month_length :: "bool \<Rightarrow> nat \<Rightarrow> int" where
  "month_length leap m = (if m = 12 then 31 else days_before_month leap (m + 1) - days_before_month leap m)"

lemma month_cases:
  fixes m :: int
  assumes "1 \<le> m" "m \<le> 12"
  obtains "m = 1" | "m = 2" | "m = 3" | "m = 4" | "m = 5" | "m = 6" | "m = 7" | "m = 8" | "m = 9" | "m = 10" | "m = 11" | "m = 12"
  using assms by atomize_elim presburger

lemma last_day_eq:
  assumes "1 \<le> m" "m \<le> 12"
  shows "last_possible_day_in_month y m = month_length (leap_year y) (nat m)"
  using assms
  by (cases rule: month_cases)
    (simp_all add: last_possible_day_in_month_def is_leap_year_eq days_in_a_month_def month_length_def
      days_before_month_def numeral_eq_Suc)

fun valid_ymd :: "ymd \<Rightarrow> bool" where
  "valid_ymd (y, m, d) \<longleftrightarrow> 1 \<le> m \<and> m \<le> 12 \<and> 1 \<le> d \<and> d \<le> month_length (leap_year y) (nat m)"

fun ymd_days :: "ymd \<Rightarrow> int" where
  "ymd_days (y, m, d) = sys_days y (nat m) + d - 1"

definition civil_ymd :: "int \<Rightarrow> ymd" where
  "civil_ymd day =
     (let y = civil_year day;
          m = length (filter (\<lambda>m. sys_days y m \<le> day) [1..<13])
      in (y, int m, day - sys_days y m + 1))"

lemma months_upt: "[1..<13] = [1, 2, 3, 4, 5, 6, 7, 8, 9, 10, 11, 12 :: nat]"
  by (simp add: upt_rec)

lemma days_before_year_next: "days_before_year (y + 1) = days_before_year y + year_length y"
  using year_first_step [of y] by (simp add: year_first_eq)

lemma year_of_ymd:
  assumes "valid_ymd (y, m, d)"
  shows "year_first y \<le> ymd_days (y, m, d) \<and> ymd_days (y, m, d) < year_first (y + 1)"
proof -
  have "1 \<le> m" "m \<le> 12" using assms by simp_all
  then show ?thesis
    using assms
    by (cases rule: month_cases)
      (auto simp: days_before_year_next year_length_def sys_days_def year_first_eq month_length_def days_before_month_def
        numeral_eq_Suc split: if_splits)
qed

lemma civil_ymd_ymd_days:
  assumes "valid_ymd (y, m, d)"
  shows "civil_ymd (ymd_days (y, m, d)) = (y, m, d)"
proof -
  have y: "civil_year (ymd_days (y, m, d)) = y" using year_of_ymd [OF assms] by (simp add: civil_year_unique)
  have "1 \<le> m" "m \<le> 12" using assms by simp_all
  then show ?thesis
    unfolding civil_ymd_def y Let_def months_upt using assms
    by (cases rule: month_cases)
      (auto simp: sys_days_def month_length_def days_before_month_def numeral_eq_Suc split: if_splits)
qed

lemma month_of_day:
  assumes "0 \<le> r" "r < (if leap then 366 else 365)"
  shows "\<exists>m. 1 \<le> m \<and> m \<le> 12 \<and> days_before_month leap m \<le> r \<and> r < days_before_month leap m + month_length leap m"
proof (rule ccontr)
  assume none: "\<not> ?thesis"
  have "1 \<le> m \<longrightarrow> m \<le> 12 \<longrightarrow> days_before_month leap m \<le> r" for m
  proof (induction m)
    case (Suc m)
    show ?case
    proof (cases "m = 0")
      case True
      then show ?thesis using assms(1) by (simp add: days_before_month_def)
    next
      case False
      then show ?thesis using Suc none by (auto simp: month_length_def)
    qed
  qed simp
  from this [of 12] none have "days_before_month leap 12 + 31 \<le> r" by (auto simp: month_length_def)
  then show False using assms(2) by (auto simp: days_before_month_def split: if_splits)
qed

lemma ymd_days_civil_ymd: "valid_ymd (civil_ymd day) \<and> ymd_days (civil_ymd day) = day"
proof -
  define y where "y = civil_year day"
  define r where "r = day - days_before_year y"
  have "0 \<le> r" "r < (if leap_year y then 366 else 365)"
    using civil_year [of day] days_before_year_next [of y]
    by (simp_all add: y_def [symmetric] r_def year_first_eq year_length_def split: if_splits)
  then obtain m where m: "1 \<le> m" "m \<le> 12" "days_before_month (leap_year y) m \<le> r"
      "r < days_before_month (leap_year y) m + month_length (leap_year y) m"
    using month_of_day by blast
  let ?ymd = "(y, int m, r - days_before_month (leap_year y) m + 1)"
  have "valid_ymd ?ymd" "ymd_days ?ymd = day" using m by (simp_all add: sys_days_def r_def)
  then show ?thesis using civil_ymd_ymd_days by metis
qed

section \<open>The contract of the date library\<close>

text \<open>\<open>date::year\<close> holds the years from -32767 to 32767.  The laws are the documented behaviour of the
  conversions for such years: field by field arithmetic, dates beyond the end of a month
  counted from its first day, weekdays counted from Sunday.\<close>

definition year_ok :: "int \<Rightarrow> bool" where
  "year_ok y \<longleftrightarrow> - 32767 \<le> y \<and> y \<le> 32767"

definition in_calendar :: "int \<Rightarrow> bool" where
  "in_calendar tp \<longleftrightarrow> year_ok (civil_year (floor_days tp))"

locale gregorian_library =
  fixes lib :: date_library
  assumes date_of_day: "valid_ymd (y, m, d) \<Longrightarrow> year_ok y \<Longrightarrow> year_month_day lib (ymd_days (y, m, d)) = (y, m, d)"
    and day_of_date: "year_ok y \<Longrightarrow> 1 \<le> m \<Longrightarrow> m \<le> 12 \<Longrightarrow> 1 \<le> d \<Longrightarrow> d \<le> 31 \<Longrightarrow>
      sys_days_of lib (y, m, d) = ymd_days (y, m, d)"
    and later_year: "year_ok y \<Longrightarrow> year_ok (y + n) \<Longrightarrow> plus_years lib (y, m, d) n = (y + n, m, d)"
    and later_month: "year_ok y \<Longrightarrow> year_ok (y + (m - 1 + n) div 12) \<Longrightarrow> 1 \<le> m \<Longrightarrow> m \<le> 12 \<Longrightarrow>
      plus_months lib (y, m, d) n = (y + (m - 1 + n) div 12, (m - 1 + n) mod 12 + 1, d)"
    and weekday: "weekday_from_sunday lib day = (day + 4) mod 7"
begin

lemma civil_fields:
  assumes "in_calendar tp"
  obtains y m d where "YearMonthDay lib tp = (y, m, d)" "valid_ymd (y, m, d)" "year_ok y"
    "floor_days tp = ymd_days (y, m, d)" "civil_year (floor_days tp) = y"
proof -
  obtain y m d where c: "civil_ymd (floor_days tp) = (y, m, d)" by (cases "civil_ymd (floor_days tp)")
  then have v: "valid_ymd (y, m, d)" "ymd_days (y, m, d) = floor_days tp"
    using ymd_days_civil_ymd [of "floor_days tp"] by simp_all
  have "civil_year (floor_days tp) = y" using c by (simp add: civil_ymd_def Let_def)
  then show ?thesis using that v assms date_of_day by (metis YearMonthDay_def in_calendar_def)
qed

lemma month_length_le: "month_length l m \<le> 31" if "1 \<le> m" "m \<le> 12" for m
proof -
  have "1 \<le> int m" "int m \<le> 12" using that by simp_all
  then show ?thesis
    by (cases rule: month_cases) (auto simp: month_length_def days_before_month_def numeral_eq_Suc nat_eq_iff)
qed

lemma day_of_valid_date: "valid_ymd (y, m, d) \<Longrightarrow> year_ok y \<Longrightarrow> sys_days_of lib (y, m, d) = ymd_days (y, m, d)"
  using month_length_le [of "nat m" "leap_year y"] by (intro day_of_date) (auto simp: le_nat_iff nat_le_iff)

lemma split_time: "kMicrosInDay * floor_days tp + TimeOfDay tp = tp"
  by (simp add: TimeOfDay_def)

lemma time_of_day: "0 \<le> TimeOfDay tp \<and> TimeOfDay tp < kMicrosInDay"
  using div_bounds [of kMicrosInDay tp] by (simp add: TimeOfDay_def floor_days_def kMicrosInDay_def)

lemma join_time:
  assumes "0 \<le> r" "r < kMicrosInDay"
  shows "floor_days (kMicrosInDay * day + r) = day" "TimeOfDay (kMicrosInDay * day + r) = r"
proof -
  have "kMicrosInDay \<noteq> 0" by (simp add: kMicrosInDay_def)
  then show "floor_days (kMicrosInDay * day + r) = day" using assms by (simp add: floor_days_def)
  then show "TimeOfDay (kMicrosInDay * day + r) = r" by (simp add: TimeOfDay_def)
qed

lemma AddDays_eq:
  assumes "in_calendar tp"
  shows "AddDays lib n tp = tp + n * kMicrosInDay"
proof -
  obtain y m d where "YearMonthDay lib tp = (y, m, d)" "valid_ymd (y, m, d)" "year_ok y"
    "floor_days tp = ymd_days (y, m, d)" using assms by (rule civil_fields)
  then have "AddDays lib n tp = kMicrosInDay * (floor_days tp + n) + TimeOfDay tp"
    by (simp add: AddDays_def day_of_valid_date del: ymd_days.simps valid_ymd.simps)
  also have "\<dots> = tp + n * kMicrosInDay" using split_time [of tp] by (simp add: algebra_simps)
  finally show ?thesis .
qed

end

text \<open>Days counted beyond the end of a month stay in the year unless the month is December,
  which is long enough for all of them.\<close>

lemma long_day_in_year:
  assumes "1 \<le> m" "m \<le> 12" "1 \<le> d" "d \<le> 31"
  shows "civil_year (ymd_days (y, m, d)) = y"
proof (rule civil_year_unique)
  from assms(1,2) show "year_first y \<le> ymd_days (y, m, d)"
    using assms(3)
    by (cases rule: month_cases) (auto simp: sys_days_def year_first_eq days_before_month_def numeral_eq_Suc)
  from assms(1,2) show "ymd_days (y, m, d) < year_first (y + 1)"
    using assms(4)
    by (cases rule: month_cases)
      (auto simp: days_before_year_next year_length_def sys_days_def year_first_eq days_before_month_def numeral_eq_Suc)
qed

lemma did_days_overflow_iff:
  assumes "1 \<le> m" "m \<le> 12"
  shows "did_days_overflow (y, m, d) \<longleftrightarrow> month_length (leap_year y) (nat m) < d"
  using last_day_eq [OF assms, of y] by (simp add: last_possible_day_in_month_def)

context gregorian_library
begin

lemma AddMonths_eq:
  assumes "YearMonthDay lib tp = (y, m, d)" "valid_ymd (y, m, d)" "year_ok y"
    and y': "y' = y + (m - 1 + n) div 12" "year_ok y'" and m': "m' = (m - 1 + n) mod 12 + 1"
  shows "AddMonths lib n tp =
    kMicrosInDay * ymd_days (y', m', min d (month_length (leap_year y') (nat m'))) + TimeOfDay tp"
proof -
  have m: "1 \<le> m'" "m' \<le> 12" using pos_mod_bound [of 12 "m - 1 + n"] by (auto simp: m')
  have d: "1 \<le> d" "d \<le> 31"
    using assms(2) month_length_le [of "nat m" "leap_year y"] by (auto simp: le_nat_iff nat_le_iff)
  let ?l = "month_length (leap_year y') (nat m')"
  let ?tp = "kMicrosInDay * ymd_days (y', m', d) + TimeOfDay tp"
  have p: "plus_months lib (YearMonthDay lib tp) n = (y', m', d)"
    using assms later_month [of y m n d] by simp
  have s: "sys_days_of lib (y', m', d) = ymd_days (y', m', d)" using day_of_date y'(2) m d by blast
  show ?thesis
  proof (cases "did_days_overflow (y', m', d)")
    case True
    have "in_calendar ?tp"
      using join_time [of "TimeOfDay tp"] time_of_day [of tp] long_day_in_year [OF m d] y'(2)
      by (simp add: in_calendar_def del: ymd_days.simps)
    from AddDays_eq [OF this, of "?l - d"] show ?thesis
      using True did_days_overflow_iff [OF m, of y' d] last_day_eq [OF m, of y']
      by (simp add: AddMonths_def p s algebra_simps del: did_days_overflow.simps)
  next
    case False
    then show ?thesis
      using did_days_overflow_iff [OF m, of y' d]
      by (simp add: AddMonths_def p s del: did_days_overflow.simps)
  qed
qed

lemma AddYears_first:
  assumes "YearMonthDay lib tp = (y, 1, 1)" "year_ok y" "year_ok (y + n)"
  shows "AddYears lib n tp = kMicrosInDay * year_first (y + n) + TimeOfDay tp"
  using assms by (simp add: AddYears_def later_year day_of_date year_first_def)

lemma ClearTimeOfDay_join: "0 \<le> r \<Longrightarrow> r < kMicrosInDay \<Longrightarrow> ClearTimeOfDay (kMicrosInDay * day + r) = kMicrosInDay * day"
  by (simp add: ClearTimeOfDay_def join_time)

lemma YearMonthDay_join:
  assumes "valid_ymd (y, m, d)" "year_ok y" "0 \<le> r" "r < kMicrosInDay"
  shows "YearMonthDay lib (kMicrosInDay * ymd_days (y, m, d) + r) = (y, m, d)"
  using assms by (simp add: YearMonthDay_def join_time date_of_day del: ymd_days.simps valid_ymd.simps)

end

section \<open>An instance of the contract\<close>

definition std_library :: date_library where
  "std_library =
     \<lparr>year_month_day = civil_ymd, sys_days_of = ymd_days,
      plus_years = (\<lambda>(y, m, d) n. (y + n, m, d)),
      plus_months = (\<lambda>(y, m, d) n. (y + (m - 1 + n) div 12, (m - 1 + n) mod 12 + 1, d)),
      weekday_from_sunday = (\<lambda>day. (day + 4) mod 7)\<rparr>"

interpretation std: gregorian_library std_library
  by unfold_locales (simp_all add: std_library_def civil_ymd_ymd_days del: ymd_days.simps valid_ymd.simps)

end
