(* ===== verification/Temporal_Correctness.thy ===== *)
theory Temporal_Correctness
  imports Calendar
begin

text \<open>
  Correctness of the functions that the row filter adds to Gandiva: the week number is that
  of ISO 8601, truncation rounds down to the start of its unit, months are added with the
  day clamped to the end of the month, the extracted fields determine the timestamp,
  comparisons of dates with timestamps are exact, and checked arithmetic is exact or an
  error.
\<close>

section \<open>The ISO week\<close>

text \<open>A week runs from Monday to Sunday and belongs to the year of its Thursday.\<close>

definition week_thursday :: "int \<Rightarrow> int" where
  "week_thursday day = day - (day + 3) mod 7 + 3"

definition iso_week :: "int \<Rightarrow> int" where
  "iso_week day = (week_thursday day - year_first (civil_year (week_thursday day))) div 7 + 1"

lemma week_thursday_range: "day - 3 \<le> week_thursday day \<and> week_thursday day \<le> day + 3"
  using pos_mod_bound [of 7 "day + 3"] pos_mod_sign [of 7 "day + 3"] by (simp add: week_thursday_def)

lemma iso_week_year:
  assumes "year_first y \<le> week_thursday day" "week_thursday day < year_first (y + 1)"
  shows "iso_week day = (week_thursday day - year_first y) div 7 + 1"
  using civil_year_unique [OF assms] by (simp add: iso_week_def)

text \<open>The first day of the year as a number of weeks and a weekday, and a day of the year as
  weeks and days after it.\<close>

lemma trunc_nonneg: "0 \<le> a \<Longrightarrow> trunc_div a b = a div b" "0 \<le> a \<Longrightarrow> trunc_mod a b = a mod b"
  by (simp_all add: trunc_div_def trunc_mod_def minus_mult_div_eq_mod)

lemma weekday_cases:
  fixes j :: int
  assumes "0 \<le> j" "j < 7"
  obtains "j = 0" | "j = 1" | "j = 2" | "j = 3" | "j = 4" | "j = 5" | "j = 6"
  using assms by atomize_elim presburger

lemma thursday_offset:
  assumes "0 \<le> j" "j < 7" "0 \<le> r" "r < 7" "day = 7 * k + j + 3 + (7 * q + r)"
  shows "week_thursday day = 7 * (k + q) + j + r + 6 - (j + r + 6) mod 7"
proof -
  have "day + 3 = (j + r + 6) + 7 * (k + q)" using assms(5) by simp
  then have "(day + 3) mod 7 = (j + r + 6) mod 7" by (simp only: mod_mult_self2)
  then show ?thesis using assms(5) by (simp add: week_thursday_def)
qed

definition week_current :: "int \<Rightarrow> int \<Rightarrow> int" where
  "week_current j yd =
     (if j \<in> {1, 2, 3, 4} then (yd + j - 1) div 7 + 1
      else if j \<in> {5, 6} then (yd - (8 - j)) div 7 + 1
      else (yd - 1) div 7 + 1)"

lemma div_week: "(7 * q + c) div 7 = q + c div (7 :: int)"
  by simp

lemma week_current_eq:
  assumes "0 \<le> j" "j < 7" "0 \<le> r" "r < 7"
  shows "week_current j (7 * q + r) = (7 * q + r + 3 - (j + r + 6) mod 7) div 7 + 1"
proof -
  have e: "7 * q + r + 3 - (j + r + 6) mod 7 = 7 * q + (r + 3 - (j + r + 6) mod 7)" by simp
  have c: "7 * q + r + j - 1 = 7 * q + (r + j - 1)" "7 * q + r - (8 - j) = 7 * q + (r - (8 - j))"
    "7 * q + r - 1 = 7 * q + (r - 1)" by simp_all
  show ?thesis
    unfolding week_current_def e c div_week using assms(1,2)
    by (cases rule: weekday_cases) (use assms(3,4) in \<open>cases rule: weekday_cases [of r]; simp\<close>)+
qed

lemma week_january:
  fixes j yd :: int
  assumes "0 \<le> j" "j < 7" "0 \<le> yd" "yd < 3"
    and "t = yd + 3 - (j + yd + 6) mod 7"
  shows "(if 1 \<le> j \<and> j \<le> 4 then 1 else if j = 5 then 53 else if j = 0 then if yd > 0 then 1 else 52
      else if yd = 2 then 1 else if leap then 53 else 52) =
    (if t < 0 then (t + (if leap then 366 else 365)) div 7 + 1 else t div 7 + 1)"
proof -
  have yd: "yd = 0 \<or> yd = 1 \<or> yd = 2" using assms(3,4) by presburger
  from assms(1,2) show ?thesis
    by (cases rule: weekday_cases) (use yd in \<open>elim disjE; simp add: assms(5)\<close>)+
qed

lemma week_december:
  fixes j yd :: int
  assumes "0 \<le> j" "j < 7" "len = 365 \<or> len = 366" "len - 3 \<le> yd" "yd < len"
    and "t = yd + 3 - (j + yd + 6) mod 7"
  shows "(if (j + len) mod 7 = 4 then 1
      else if (j + len) mod 7 = 3 then if yd - len + 32 \<noteq> 29 then 1 else week_current j yd
      else if (j + len) mod 7 = 2 then if yd - len + 32 = 31 then 1 else week_current j yd
      else week_current j yd) =
    (if len \<le> t then (t - len) div 7 + 1 else week_current j yd)"
proof -
  have yd: "yd = len - 3 \<or> yd = len - 2 \<or> yd = len - 1" using assms(4,5) by presburger
  from assms(1,2) show ?thesis
    by (cases rule: weekday_cases) (use yd assms(3) in \<open>elim disjE; simp add: assms(6)\<close>)+
qed

lemma ymd_year_day:
  assumes "valid_ymd (y, m, d)" "yd = ymd_days (y, m, d) - year_first y"
  shows "yd < 3 \<Longrightarrow> d = yd + 1"
    and "m = 12 \<and> 29 \<le> d \<longleftrightarrow> year_length y - 3 \<le> yd"
    and "m = 12 \<Longrightarrow> d = yd - year_length y + 32"
proof -
  have "1 \<le> m" "m \<le> 12" using assms(1) by simp_all
  then have "(yd < 3 \<longrightarrow> d = yd + 1) \<and> (m = 12 \<and> 29 \<le> d \<longleftrightarrow> year_length y - 3 \<le> yd) \<and>
      (m = 12 \<longrightarrow> d = yd - year_length y + 32)"
    using assms
    by (cases rule: month_cases)
      (auto simp: sys_days_def year_first_eq year_length_def month_length_def days_before_month_def numeral_eq_Suc
        split: if_splits)
  then show "yd < 3 \<Longrightarrow> d = yd + 1" "m = 12 \<and> 29 \<le> d \<longleftrightarrow> year_length y - 3 \<le> yd"
    "m = 12 \<Longrightarrow> d = yd - year_length y + 32" by blast+
qed

text \<open>The Thursday of the week of a day, counted from the first day of the year.\<close>

definition thursday_in_year :: "int \<Rightarrow> int \<Rightarrow> int" where
  "thursday_in_year y day = week_thursday day - year_first y"

lemma thursday_in_year_eq:
  assumes "yd = day - year_first y" "j = (year_first y + 4) mod 7"
  shows "thursday_in_year y day = yd + 3 - (j + yd mod 7 + 6) mod 7"
proof -
  have "j = (year_first y - 3) mod 7" unfolding assms(2) by (simp add: mod_eq_dvd_iff)
  then have yf: "year_first y = 7 * ((year_first y - 3) div 7) + j + 3"
    using mult_div_mod_eq [of 7 "year_first y - 3"] by simp
  have "0 \<le> j" "j < 7" "0 \<le> yd mod 7" "yd mod 7 < 7" by (simp_all add: assms(2))
  moreover have "day = 7 * ((year_first y - 3) div 7) + j + 3 + (7 * (yd div 7) + yd mod 7)"
    using yf assms(1) by simp
  ultimately have "week_thursday day =
      7 * ((year_first y - 3) div 7 + yd div 7) + j + yd mod 7 + 6 - (j + yd mod 7 + 6) mod 7"
    by (rule thursday_offset)
  then show ?thesis using yf mult_div_mod_eq [of 7 yd] by (simp add: thursday_in_year_def distrib_left)
qed

lemma thursday_in_year_range: "day - year_first y - 3 \<le> thursday_in_year y day \<and> thursday_in_year y day \<le> day - year_first y + 3"
  using week_thursday_range [of day] by (simp add: thursday_in_year_def)

lemma iso_week_cases:
  assumes "year_first y \<le> day" "day < year_first (y + 1)" "t = thursday_in_year y day"
  shows "iso_week day =
    (if t < 0 then (t + (if leap_year (y - 1) then 366 else 365)) div 7 + 1
     else if year_length y \<le> t then (t - year_length y) div 7 + 1 else t div 7 + 1)"
proof -
  have w: "week_thursday day = year_first y + t" using assms(3) by (simp add: thursday_in_year_def)
  have r: "year_first y - 3 \<le> year_first y + t" "year_first y + t < year_first (y + 1) + 3"
    using week_thursday_range [of day] assms(1,2) w by simp_all
  have prev: "year_first y = year_first (y - 1) + year_length (y - 1)" using year_first_step [of "y - 1"] by simp
  have len: "365 \<le> year_length z" for z by (simp add: year_length_def)
  consider "t < 0" | "year_length y \<le> t" | "0 \<le> t" "t < year_length y" by linarith
  then show ?thesis
  proof cases
    case 1
    then have "iso_week day = (week_thursday day - year_first (y - 1)) div 7 + 1"
      using r prev w len [of "y - 1"] by (intro iso_week_year) simp_all
    moreover have "week_thursday day - year_first (y - 1) = t + year_length (y - 1)" using w prev by simp
    ultimately show ?thesis using 1 by (simp add: year_length_def)
  next
    case 2
    then have "iso_week day = (week_thursday day - year_first (y + 1)) div 7 + 1"
      using r w len [of "y + 1"] year_first_step [of y] year_first_step [of "y + 1"] by (intro iso_week_year) simp_all
    moreover have "week_thursday day - year_first (y + 1) = t - year_length y" using w year_first_step [of y] by simp
    ultimately show ?thesis using 2 len [of y] by simp
  next
    case 3
    then show ?thesis using iso_week_year [of y day] w year_first_step [of y] by simp
  qed
qed

lemma next_january:
  assumes "d = day - year_first y - year_length y + 32" "d \<le> 31"
  shows "trunc_mod ((day + 4) mod 7 + (31 - d) + 1) 7 = ((year_first y + 4) mod 7 + year_length y) mod 7"
proof -
  have "day + 4 + (31 - d) + 1 = year_first y + 4 + year_length y" using assms(1) by simp
  then have "((day + 4) mod 7 + (31 - d) + 1) mod 7 = ((year_first y + 4) mod 7 + year_length y) mod 7"
    by (metis mod_add_left_eq add.assoc)
  moreover have "0 \<le> (day + 4) mod 7 + (31 - d) + 1" using assms(2) pos_mod_sign [of 7 "day + 4"] by simp
  ultimately show ?thesis by (simp add: trunc_nonneg)
qed

context gregorian_library
begin

lemma JAN1_WDAY_eq:
  assumes "TmYday lib tp = floor_days tp - year_first y" "0 \<le> TmYday lib tp"
  shows "JAN1_WDAY lib tp = (year_first y + 4) mod 7"
proof -
  let ?yd = "TmYday lib tp" and ?w = "(floor_days tp + 4) mod 7"
  have "0 \<le> ?w - ?yd mod 7 + 7" using pos_mod_bound [of 7 ?yd] pos_mod_sign [of 7 "floor_days tp + 4"] by simp
  then have "JAN1_WDAY lib tp = (?w - ?yd mod 7 + 7) mod 7"
    using assms(2) by (simp add: JAN1_WDAY_def TmWday_def weekday trunc_nonneg)
  also have "\<dots> = (floor_days tp + 4 - ?yd) mod 7" by (simp only: mod_add_self2 mod_diff_eq)
  also have "floor_days tp + 4 - ?yd = year_first y + 4" using assms(1) by simp
  finally show ?thesis .
qed

lemma WeekOfCurrentYear_eq:
  assumes "JAN1_WDAY lib tp = j" "0 \<le> j" "j < 7" "3 \<le> TmYday lib tp"
  shows "WeekOfCurrentYear lib tp = week_current j (TmYday lib tp)"
proof -
  have "j \<in> {5, 6} \<Longrightarrow> 0 \<le> TmYday lib tp - (8 - j)" using assms(4) by auto
  then show ?thesis
    using assms by (auto simp: WeekOfCurrentYear_def week_current_def trunc_nonneg)
qed

lemma WeekOfYear_iso_week:
  assumes "in_calendar tp"
  shows "WeekOfYear lib tp = iso_week (floor_days tp)"
proof -
  obtain y m d where f: "YearMonthDay lib tp = (y, m, d)" "valid_ymd (y, m, d)" "year_ok y"
    "floor_days tp = ymd_days (y, m, d)" "civil_year (floor_days tp) = y" using assms by (rule civil_fields)
  define day yd j t where "day = floor_days tp" and "yd = day - year_first y" and "j = (year_first y + 4) mod 7"
    and "t = thursday_in_year y day"
  have in_year: "year_first y \<le> day" "day < year_first (y + 1)" using year_of_ymd [OF f(2)] f(4) by (simp_all add: day_def)
  then have yd: "0 \<le> yd" "yd < year_length y" using year_first_step [of y] by (simp_all add: yd_def)
  have j: "0 \<le> j" "j < 7" by (simp_all add: j_def)
  have Y: "TmYday lib tp = yd"
    using f(1,3) by (simp add: TmYday_def tp_year_def yd_def day_def year_first_def day_of_date)
  have J: "JAN1_WDAY lib tp = j" unfolding j_def by (rule JAN1_WDAY_eq) (use Y yd(1) in \<open>simp_all add: yd_def day_def\<close>)
  have M: "TmMon lib tp = m - 1" "TmMday lib tp = d" "1900 + TmYear lib tp - 1 = y - 1"
    using f(1) by (simp_all add: TmMon_def tp_month_def TmMday_def TmYear_def tp_year_def)
  note month = ymd_year_day [OF f(2), of yd] and iso = iso_week_cases [OF in_year t_def]
  have yfd: "yd = ymd_days (y, m, d) - year_first y" using f(4) by (simp add: yd_def day_def)
  have tt: "t = yd + 3 - (j + yd mod 7 + 6) mod 7" unfolding t_def by (rule thursday_in_year_eq [OF yd_def j_def])
  moreover have "(j + yd mod 7 + 6) mod 7 = (j + yd + 6) mod 7" by (metis mod_add_left_eq mod_add_right_eq)
  ultimately have tm: "t = yd + 3 - (j + yd + 6) mod 7" by simp
  have cur: "week_current j yd = t div 7 + 1" using week_current_eq [OF j, of "yd mod 7" "yd div 7"] tt by simp
  have t: "yd - 3 \<le> t" "t \<le> yd + 3" using thursday_in_year_range [of day y] by (simp_all add: t_def yd_def)
  have len: "year_length y = 365 \<or> year_length y = 366" by (simp add: year_length_def)
  show ?thesis
  proof (cases "yd < 3")
    case True
    let ?w = "if t < 0 then (t + (if leap_year (y - 1) then 366 else 365)) div 7 + 1 else t div 7 + 1"
    have "(d > 1) = (yd > 0)" "(d = 3) = (yd = 2)" using month(1) [OF yfd True] by auto
    then have "GetJanWeekOfYear lib tp = ?w"
      unfolding GetJanWeekOfYear_def Let_def J M is_leap_year_eq
      using week_january [OF j yd(1) True tm, of "leap_year (y - 1)"] by (simp only: conj_commute)
    moreover have "\<not> year_length y \<le> t" using t(2) True len by auto
    then have "iso_week day = ?w" using iso by simp
    moreover have "WeekOfYear lib tp = GetJanWeekOfYear lib tp" using True by (simp add: WeekOfYear_def Y)
    ultimately show ?thesis by (simp add: day_def)
  next
    case jan: False
    then have W: "WeekOfCurrentYear lib tp = week_current j yd" using WeekOfCurrentYear_eq [OF J j] Y by simp
    show ?thesis
    proof (cases "m = 12 \<and> 29 \<le> d")
      case True
      then have d: "d = yd - year_length y + 32" "year_length y - 3 \<le> yd" using month(2,3) [OF yfd] by simp_all
      have w: "trunc_mod (TmWday lib tp + (31 - d) + 1) 7 = (j + year_length y) mod 7"
        using next_january [of d day y] d(1) yd by (simp add: TmWday_def weekday day_def [symmetric] yd_def j_def)
      have "GetDecWeekOfYear lib tp = (if year_length y \<le> t then (t - year_length y) div 7 + 1 else week_current j yd)"
        unfolding GetDecWeekOfYear_def Let_def M W w unfolding d(1) by (rule week_december [OF j len d(2) yd(2) tm])
      moreover have "iso_week day = (if year_length y \<le> t then (t - year_length y) div 7 + 1 else week_current j yd)"
        using iso t(1) jan cur by simp
      moreover have "WeekOfYear lib tp = GetDecWeekOfYear lib tp" using True jan by (simp add: WeekOfYear_def Y M)
      ultimately show ?thesis by (simp add: day_def)
    next
      case False
      then have "yd < year_length y - 3" using month(2) [OF yfd] by simp
      then have "0 \<le> t" "t < year_length y" using jan t by simp_all
      then have "iso_week day = t div 7 + 1" using iso by simp
      moreover have "WeekOfYear lib tp = week_current j yd" using False jan by (auto simp: WeekOfYear_def Y M W)
      ultimately show ?thesis using cur by (simp add: day_def)
    qed
  qed
qed

end

section \<open>Truncation\<close>

text \<open>The starts of the units of a calendar, and rounding down to the greatest start.\<close>

definition unit_start :: "int \<Rightarrow> (int \<Rightarrow> int) \<Rightarrow> int \<Rightarrow> int \<Rightarrow> int \<Rightarrow> bool" where
  "unit_start c f k off s \<longleftrightarrow> (\<exists>n. k dvd n - off \<and> s = c * f n)"

definition rounds_down :: "(int \<Rightarrow> bool) \<Rightarrow> int \<Rightarrow> int \<Rightarrow> bool" where
  "rounds_down is_start tp r \<longleftrightarrow> is_start r \<and> r \<le> tp \<and> (\<forall>s. is_start s \<and> s \<le> tp \<longrightarrow> s \<le> r)"

lemma rounds_downI:
  assumes "\<And>a b. a \<le> b \<Longrightarrow> f a \<le> f b" "0 < c" "0 < k" "k dvd n - off" "c * f n \<le> tp" "tp < c * f (n + k)"
  shows "rounds_down (unit_start c f k off) tp (c * f n)"
proof -
  have "c * f n' \<le> c * f n" if n': "k dvd n' - off" "c * f n' \<le> tp" for n'
  proof -
    have "n + k \<le> n' \<Longrightarrow> c * f (n + k) \<le> c * f n'" using assms(1) [of "n + k" n'] assms(2) by simp
    then have "\<not> n + k \<le> n'" using assms(6) n'(2) by linarith
    moreover have "k dvd n' - n" using dvd_diff [OF n'(1) assms(4)] by simp
    ultimately have "n' \<le> n" using zdvd_imp_le [of k "n' - n"] assms(3) by linarith
    then show ?thesis using assms(1,2) by simp
  qed
  then show ?thesis using assms(4,5) by (auto simp: rounds_down_def unit_start_def)
qed

lemma month_start_eq: "1 \<le> m \<Longrightarrow> m \<le> 12 \<Longrightarrow> month_start (12 * (y - 1970) + m - 1) = sys_days y (nat m)"
proof -
  assume "1 \<le> m" "m \<le> 12"
  then have "12 * (y - 1970) + m - 1 = (m - 1) + 12 * (y - 1970)" "0 \<le> m - 1" "m - 1 < 12" by simp_all
  then have "(12 * (y - 1970) + m - 1) div 12 = y - 1970" "(12 * (y - 1970) + m - 1) mod 12 = m - 1"
    by (simp_all only: div_mult_self2 mod_mult_self2) simp_all
  then show ?thesis by (simp add: month_start_def)
qed

lemma floor_div_negative:
  fixes a u :: int
  assumes "0 < u" "a < 0"
  shows "trunc_div (a + 1) u - 1 = a div u"
proof -
  define q where "q = (- a - 1) div u"
  have "u * q \<le> - a - 1" "- a - 1 < u * q + u" using div_bounds [OF assms(1), of "- a - 1"] by (simp_all only: q_def)
  then have "u * (- q - 1) \<le> a" "a < u * (- q - 1) + u" by (simp_all add: algebra_simps)
  then have "a div u = - q - 1"
    using assms(1) by (intro int_div_pos_eq [of _ _ _ "a - u * (- q - 1)"]) simp_all
  moreover have "trunc_div (a + 1) u = - q"
  proof (cases "a = -1")
    case False
    then have "a + 1 < 0" "- (a + 1) = - a - 1" using assms(2) by simp_all
    then show ?thesis by (simp only: trunc_div_def q_def if_True)
  qed (simp add: trunc_div_def q_def)
  ultimately show ?thesis by simp
qed

lemma DateTruncFixedUnit_eq:
  assumes "0 < u" "int64 tp" "- (2 ^ 63) \<le> u * (tp div u)"
  shows "DateTruncFixedUnit u tp = u * (tp div u)"
proof (cases "tp < 0")
  case True
  have "u * (tp div u) \<le> tp" using div_bounds(1) [OF assms(1)] .
  then have "to_int64 (u * (tp div u)) = u * (tp div u)"
    using assms(2,3) by (intro to_int64_id) (simp_all add: int64_def)
  then show ?thesis using True floor_div_negative [OF assms(1) True] by (simp add: DateTruncFixedUnit_def mult.commute)
qed (simp add: DateTruncFixedUnit_def trunc_nonneg mult.commute)

lemma DateTruncFixedUnit_floor:
  assumes "0 < u" "int64 tp" "- (2 ^ 63) \<le> u * (tp div u)"
  shows "rounds_down (unit_start u id 1 0) tp (DateTruncFixedUnit u tp)"
  unfolding DateTruncFixedUnit_eq [OF assms]
  using rounds_downI [of id u 1 "tp div u" 0 tp] div_bounds [OF assms(1), of tp] assms(1) by (simp add: distrib_left)

lemma month_length_pos: "1 \<le> m \<Longrightarrow> m \<le> 12 \<Longrightarrow> 28 \<le> month_length l (nat m)"
  by (cases rule: month_cases [of m])
    (simp_all add: month_length_def days_before_month_def numeral_eq_Suc)

lemma month_start_length:
  assumes "1 \<le> m" "m \<le> 12"
  shows "month_start (12 * (y - 1970) + m - 1 + 1) = sys_days y (nat m) + month_length (leap_year y) (nat m)"
proof (cases "m = 12")
  case True
  then have "month_start (12 * (y - 1970) + m - 1 + 1) = month_start (12 * ((y + 1) - 1970) + 1 - 1)" by (simp add: algebra_simps)
  also have "\<dots> = sys_days (y + 1) 1" by (subst month_start_eq) simp_all
  finally show ?thesis
    using True by (simp add: sys_days_def days_before_year_next year_length_def month_length_def days_before_month_def)
next
  case False
  then have "month_start (12 * (y - 1970) + (m + 1) - 1) = sys_days y (nat (m + 1))"
    using assms by (intro month_start_eq) simp_all
  then show ?thesis using False assms by (simp add: sys_days_def month_length_def nat_add_distrib nat_eq_iff)
qed

lemma days_bound:
  "day \<le> floor_days tp \<Longrightarrow> kMicrosInDay * day \<le> tp"
  "floor_days tp < day \<Longrightarrow> tp < kMicrosInDay * day"
  using div_bounds [of kMicrosInDay tp] mult_left_mono [of day "floor_days tp" kMicrosInDay]
    mult_left_mono [of "floor_days tp + 1" day kMicrosInDay]
  by (simp_all add: floor_days_def kMicrosInDay_def)

context gregorian_library
begin

lemma first_of_month:
  assumes "in_calendar tp"
  obtains y m d where "YearMonthDay lib tp = (y, m, d)" "valid_ymd (y, m, d)" "year_ok y"
    "floor_days tp = ymd_days (y, m, d)" "civil_year (floor_days tp) = y" "TmMon lib tp = m - 1"
    "AddDays lib (- (TmMday lib tp - 1)) tp = kMicrosInDay * ymd_days (y, m, 1) + TimeOfDay tp"
    "YearMonthDay lib (kMicrosInDay * ymd_days (y, m, 1) + TimeOfDay tp) = (y, m, 1)"
proof -
  obtain y m d where f: "YearMonthDay lib tp = (y, m, d)" "valid_ymd (y, m, d)" "year_ok y"
    "floor_days tp = ymd_days (y, m, d)" "civil_year (floor_days tp) = y" using assms by (rule civil_fields)
  have "AddDays lib (- (TmMday lib tp - 1)) tp = kMicrosInDay * ymd_days (y, m, 1) + TimeOfDay tp"
    using split_time [of tp] f(1,4) by (simp add: AddDays_eq [OF assms] TmMday_def algebra_simps)
  moreover have "valid_ymd (y, m, 1)" using f(2) by simp
  ultimately show ?thesis
    using that [OF f] YearMonthDay_join [of y m 1 "TimeOfDay tp"] f(1,3) time_of_day [of tp]
    by (simp add: TmMon_def tp_month_def)
qed

lemma AddMonths_first:
  assumes "YearMonthDay lib tp = (y, m, 1)" "valid_ymd (y, m, 1)" "year_ok y" "0 \<le> n" "n < m"
  shows "AddMonths lib (- n) tp = kMicrosInDay * ymd_days (y, m - n, 1) + TimeOfDay tp"
proof -
  have m: "m \<le> 12" using assms(2) by simp
  then have "(m - 1 + - n) div 12 = 0" "(m - 1 + - n) mod 12 = m - n - 1" using assms(4,5) by simp_all
  then have "y = y + (m - 1 + - n) div 12" "m - n = (m - 1 + - n) mod 12 + 1" by simp_all
  from AddMonths_eq [OF assms(1-3) this(1) assms(3) this(2)] have "AddMonths lib (- n) tp =
      kMicrosInDay * ymd_days (y, m - n, min 1 (month_length (leap_year y) (nat (m - n)))) + TimeOfDay tp" .
  moreover have "min 1 (month_length (leap_year y) (nat (m - n))) = 1"
    using month_length_pos [of "m - n" "leap_year y"] assms(4,5) m by simp
  ultimately show ?thesis by simp
qed

lemma DateTruncMonthUnits_floor:
  assumes "in_calendar tp" "k \<in> {1, 3, 12}"
  shows "rounds_down (unit_start kMicrosInDay month_start k 0) tp (DateTruncMonthUnits k lib tp)"
proof -
  obtain y m d where f: "YearMonthDay lib tp = (y, m, d)" "valid_ymd (y, m, d)" "year_ok y"
    "floor_days tp = ymd_days (y, m, d)" "civil_year (floor_days tp) = y" "TmMon lib tp = m - 1"
    "AddDays lib (- (TmMday lib tp - 1)) tp = kMicrosInDay * ymd_days (y, m, 1) + TimeOfDay tp"
    "YearMonthDay lib (kMicrosInDay * ymd_days (y, m, 1) + TimeOfDay tp) = (y, m, 1)"
    using assms(1) by (rule first_of_month)
  define n where "n = (m - 1) mod k"
  have m: "1 \<le> m" "m \<le> 12" using f(2) by simp_all
  have k: "0 < k" using assms(2) by auto
  have "n \<le> m - 1" unfolding n_def using m(1) by (intro zmod_le_nonneg_dividend) simp
  then have n: "0 \<le> n" "n < k" "n < m" using k by (simp_all add: n_def)
  let ?M = "12 * (y - 1970) + m - 1"
  have "TmMon lib tp - trunc_div (TmMon lib tp) k * k = n"
    using f(6) m(1) by (simp add: n_def trunc_nonneg minus_div_mult_eq_mod)
  then have "DateTruncMonthUnits k lib tp = kMicrosInDay * ymd_days (y, m - n, 1)"
    using f(2,3,7) n AddMonths_first [OF f(8), of n] time_of_day [of tp]
    by (simp add: DateTruncMonthUnits_def Let_def join_time ClearTimeOfDay_join del: ymd_days.simps)
  also have "ymd_days (y, m - n, 1) = month_start (?M - n)" using month_start_eq [of "m - n" y] n m by (simp add: algebra_simps)
  finally have r: "DateTruncMonthUnits k lib tp = kMicrosInDay * month_start (?M - n)" .
  have dvd: "k dvd ?M - n - 0"
  proof -
    have "k dvd 12 * (y - 1970)" "k dvd (m - 1) - n" using assms(2) by (auto simp: n_def intro: dvd_mult2)
    then have "k dvd 12 * (y - 1970) + ((m - 1) - n)" by (rule dvd_add)
    then show ?thesis by (simp add: algebra_simps)
  qed
  have "month_start ?M \<le> floor_days tp" "floor_days tp < month_start (?M + 1)"
    using month_start_eq [OF m, of y] f(2,4) month_start_length [OF m, of y] by simp_all
  then have "month_start (?M - n) \<le> floor_days tp" "floor_days tp < month_start (?M - n + k)"
    using month_start_mono [of "?M - n" ?M] month_start_mono [of "?M + 1" "?M - n + k"] n by simp_all
  then show ?thesis
    unfolding r using dvd n by (intro rounds_downI days_bound month_start_mono) (auto simp: kMicrosInDay_def)
qed

end

context gregorian_library
begin

lemma DateTruncYearUnits_floor:
  assumes "in_calendar tp" "0 < n" "0 \<le> off" "off \<le> civil_year (floor_days tp)"
  shows "rounds_down (unit_start kMicrosInDay year_first n off) tp (DateTruncYearUnits n off lib tp)"
proof -
  obtain y m d where f: "YearMonthDay lib tp = (y, m, d)" "valid_ymd (y, m, d)" "year_ok y"
    "floor_days tp = ymd_days (y, m, d)" "civil_year (floor_days tp) = y" "TmMon lib tp = m - 1"
    "AddDays lib (- (TmMday lib tp - 1)) tp = kMicrosInDay * ymd_days (y, m, 1) + TimeOfDay tp"
    "YearMonthDay lib (kMicrosInDay * ymd_days (y, m, 1) + TimeOfDay tp) = (y, m, 1)"
    using assms(1) by (rule first_of_month)
  have y: "off \<le> y" "TmYear lib tp = y - 1900" using assms(4) f(1,5) by (simp_all add: TmYear_def tp_year_def)
  define y' where "y' = (y - off) div n * n + off"
  have b: "y' \<le> y" "y < y' + n" "off \<le> y'"
    using div_bounds [OF assms(2), of "y - off"] y(1) assms(2)
    by (simp_all add: y'_def mult.commute pos_imp_zdiv_nonneg_iff)
  have ok: "year_ok y'" using b f(3) assms(3) by (simp add: year_ok_def)
  have m: "valid_ymd (y, m, 1)" "valid_ymd (y, 1, 1)" "0 \<le> m - 1" "m - 1 < m"
    using f(2) month_length_pos [of 1 "leap_year y"] by simp_all
  have jan: "AddMonths lib (- (m - 1)) (kMicrosInDay * ymd_days (y, m, 1) + TimeOfDay tp) =
      kMicrosInDay * ymd_days (y, 1, 1) + TimeOfDay tp"
    using AddMonths_first [OF f(8) m(1) f(3) m(3,4)] time_of_day [of tp] by (simp add: join_time del: ymd_days.simps)
  have "AddYears lib (y' - y) (kMicrosInDay * ymd_days (y, 1, 1) + TimeOfDay tp) = kMicrosInDay * year_first y' + TimeOfDay tp"
    using AddYears_first [of _ y "y' - y"] YearMonthDay_join [OF m(2) f(3)] f(3) ok time_of_day [of tp]
    by (simp add: join_time del: ymd_days.simps)
  then have r: "DateTruncYearUnits n off lib tp = kMicrosInDay * year_first y'"
    using f(6,7) y jan time_of_day [of tp] ClearTimeOfDay_join [of "TimeOfDay tp"]
    by (simp add: DateTruncYearUnits_def Let_def trunc_nonneg y'_def [symmetric] del: ymd_days.simps)
  have "year_first y \<le> floor_days tp" "floor_days tp < year_first (y + 1)" using year_of_ymd [OF f(2)] f(4) by simp_all
  moreover have "year_first y' \<le> year_first y" "year_first (y + 1) \<le> year_first (y' + n)"
    using b by (simp_all add: year_first_eq days_before_year_mono)
  ultimately show ?thesis
    unfolding r using assms(2)
    by (intro rounds_downI days_bound) (auto simp: y'_def kMicrosInDay_def year_first_eq days_before_year_mono)
qed

lemma DateTruncWeek_floor:
  assumes "in_calendar tp"
  shows "rounds_down (unit_start kMicrosInDay id 7 (- 3)) tp (DateTruncWeek lib tp)"
proof -
  let ?day = "floor_days tp"
  have w: "(if TmWday lib tp = 0 then 6 else TmWday lib tp - 1) = (?day + 3) mod 7"
  proof -
    have "(?day + 4) mod 7 = ((?day + 3) mod 7 + 1) mod 7" by (simp add: mod_simps add.assoc)
    moreover have "0 \<le> (?day + 3) mod 7" "(?day + 3) mod 7 < 7" by simp_all
    then consider "(?day + 3) mod 7 = 6" | "0 \<le> (?day + 3) mod 7" "(?day + 3) mod 7 + 1 < 7" by linarith
    then have "((?day + 3) mod 7 + 1) mod 7 = (if (?day + 3) mod 7 = 6 then 0 else (?day + 3) mod 7 + 1)" by cases simp_all
    ultimately show ?thesis by (auto simp: TmWday_def weekday split: if_splits)
  qed
  have "AddDays lib (- ((?day + 3) mod 7)) tp = kMicrosInDay * (?day - (?day + 3) mod 7) + TimeOfDay tp"
    using AddDays_eq [OF assms] split_time [of tp] by (simp add: algebra_simps)
  then have r: "DateTruncWeek lib tp = kMicrosInDay * id (?day - (?day + 3) mod 7)"
    using time_of_day [of tp] by (simp add: DateTruncWeek_def w ClearTimeOfDay_join)
  have "7 dvd ?day - (?day + 3) mod 7 - (- 3)"
    using dvd_minus_mod [of 7 "?day + 3"] by (simp add: algebra_simps)
  moreover have "id (?day - (?day + 3) mod 7) \<le> ?day" "?day < id (?day - (?day + 3) mod 7 + 7)"
    using pos_mod_bound [of 7 "?day + 3"] by simp_all
  ultimately show ?thesis unfolding r by (intro rounds_downI days_bound) (simp_all add: kMicrosInDay_def)
qed

end

section \<open>Extraction\<close>

lemma ExtractMicroseconds_eq: "ExtractMicroseconds tp = tp mod kMicrosInMinute"
proof -
  let ?u = "kMicrosInMinute"
  have u: "0 < ?u" "0 < kMicrosInSecond" "kMicrosInSecond = 1000000"
    by (simp_all add: kMicrosInMinute_def kMicrosInSecond_def kMicrosInMilli_def)
  have "(if trunc_mod tp ?u < 0 then trunc_mod tp ?u + ?u else trunc_mod tp ?u) = tp mod ?u"
  proof (cases "tp < 0")
    case True
    then have "trunc_mod tp ?u = - ((- tp) mod ?u)"
      using minus_mult_div_eq_mod [of "- tp" ?u] by (simp add: trunc_mod_def trunc_div_def)
    then show ?thesis using zmod_zminus1_eq_if [of "- tp" ?u] pos_mod_sign [OF u(1), of "- tp"] by (auto simp: le_less)
  qed (use pos_mod_sign [OF u(1), of tp] in \<open>simp add: trunc_nonneg\<close>)
  then have "ExtractMicroseconds tp = tp mod ?u div kMicrosInSecond * 1000000 + tp mod ?u mod kMicrosInSecond"
    using u(1) by (simp add: ExtractMicroseconds_def minute_parts_def trunc_nonneg Let_def)
  also have "\<dots> = tp mod ?u" using div_mult_mod_eq [of "tp mod ?u" kMicrosInSecond] by (simp add: u(3))
  finally show ?thesis .
qed

lemma div_less_factor:
  fixes a k u :: int
  assumes "0 < u" "a < k * u"
  shows "a div u < k"
proof -
  have "u * (a div u) < u * k" using div_bounds(1) [OF assms(1), of a] assms(2) by (simp add: mult.commute)
  then show ?thesis using assms(1) by simp
qed

lemma time_fields:
  "TmHour tp * kMicrosInHour + TmMin tp * kMicrosInMinute + ExtractMicroseconds tp = TimeOfDay tp"
  "0 \<le> TmHour tp" "TmHour tp < 24" "0 \<le> TmMin tp" "TmMin tp < 60"
  "0 \<le> ExtractMicroseconds tp" "ExtractMicroseconds tp < kMicrosInMinute"
proof -
  have t: "TimeOfDay tp = tp mod kMicrosInDay" by (simp add: TimeOfDay_def floor_days_def minus_mult_div_eq_mod)
  have c: "kMicrosInDay = 24 * kMicrosInHour" "kMicrosInHour = 60 * kMicrosInMinute" "0 < kMicrosInMinute" "0 < kMicrosInHour"
    by (simp_all add: kMicrosInDay_def kMicrosInHour_def kMicrosInMinute_def kMicrosInSecond_def kMicrosInMilli_def)
  have "tp mod kMicrosInMinute = TimeOfDay tp mod kMicrosInHour mod kMicrosInMinute"
    unfolding t by (simp add: c(1,2) mod_mod_cancel)
  then show "TmHour tp * kMicrosInHour + TmMin tp * kMicrosInMinute + ExtractMicroseconds tp = TimeOfDay tp"
    using div_mult_mod_eq [of "TimeOfDay tp" kMicrosInHour] div_mult_mod_eq [of "TimeOfDay tp mod kMicrosInHour" kMicrosInMinute]
    unfolding TmHour_def TmMin_def ExtractMicroseconds_eq by linarith
  have tod: "0 \<le> TimeOfDay tp" "TimeOfDay tp < 24 * kMicrosInHour" using c by (simp_all add: t)
  then show "0 \<le> TmHour tp" "TmHour tp < 24"
    using c(4) by (simp_all add: TmHour_def pos_imp_zdiv_nonneg_iff div_less_factor)
  have h: "0 \<le> TimeOfDay tp mod kMicrosInHour" "TimeOfDay tp mod kMicrosInHour < 60 * kMicrosInMinute"
    using pos_mod_bound [OF c(4), of "TimeOfDay tp"] c(2,4) by simp_all
  then show "0 \<le> TmMin tp" "TmMin tp < 60" 
    using c(3) by (simp_all add: TmMin_def pos_imp_zdiv_nonneg_iff div_less_factor)
  show "0 \<le> ExtractMicroseconds tp" "ExtractMicroseconds tp < kMicrosInMinute"
    using c(3) by (simp_all add: ExtractMicroseconds_eq)
qed

section \<open>Checked arithmetic\<close>

lemma sint_of_fits:
  assumes "fits TYPE('w::len) n"
  shows "sint (word_of_int n :: 'w word) = n"
  unfolding sint_sbintrunc' using assms by (intro signed_take_bit_int_eq_self) (simp_all add: fits_def)

lemma fits_sint: "fits TYPE('w::len) (sint (a :: 'w word))"
  using sint_ge [of a] sint_lt [of a] by (simp add: fits_def)

lemma sint_arith:
  fixes a b :: "'w::len word"
  shows "fits TYPE('w) (sint a + sint b) \<Longrightarrow> sint (a + b) = sint a + sint b"
    "fits TYPE('w) (sint a - sint b) \<Longrightarrow> sint (a - b) = sint a - sint b"
    "fits TYPE('w) (sint a * sint b) \<Longrightarrow> sint (a * b) = sint a * sint b"
  using sint_of_fits [where 'w = 'w, of "sint a + sint b"] sint_of_fits [where 'w = 'w, of "sint a - sint b"]
    sint_of_fits [where 'w = 'w, of "sint a * sint b"] by simp_all

lemma sdiv_overflow:
  assumes "a sdiv b = - a" "a < (0 :: int)"
  shows "b = - 1"
proof -
  have s: "a sdiv b = - sgn b * (- a div \<bar>b\<bar>)" using assms(2) by (simp add: signed_divide_int_def)
  have "0 \<le> - a div \<bar>b\<bar>" using assms(2) by (cases "b = 0") (simp_all add: pos_imp_zdiv_nonneg_iff)
  then have b: "b < 0" using s assms by (cases "0 < b"; cases "b = 0") simp_all
  have "- a div \<bar>b\<bar> = a sdiv b" unfolding s using b by simp
  then have "- a div \<bar>b\<bar> = - a" unfolding assms(1) .
  then have "\<not> 1 < \<bar>b\<bar>" using int_div_less_self [of "- a" "\<bar>b\<bar>"] assms(2) by auto
  then show ?thesis using b by simp
qed

lemma fits_sdiv:
  fixes a b :: "'w::len word"
  shows "fits TYPE('w) (sint a sdiv sint b) \<longleftrightarrow> \<not> (sint a = - (2 ^ (LENGTH('w) - 1)) \<and> sint b = - 1)"
proof
  assume "fits TYPE('w) (sint a sdiv sint b)"
  then show "\<not> (sint a = - (2 ^ (LENGTH('w) - 1)) \<and> sint b = - 1)" by (auto simp: fits_def signed_divide_int_def)
next
  let ?m = "2 ^ (LENGTH('w) - 1) :: int"
  assume no: "\<not> (sint a = - ?m \<and> sint b = - 1)"
  have a: "- ?m \<le> sint a" "sint a < ?m" using fits_sint [of a] by (simp_all add: fits_def)
  have r: "\<bar>sint a sdiv sint b\<bar> \<le> \<bar>sint a\<bar>" using sdiv_int_range [of "sint a" "sint b"] by auto
  have "sint a sdiv sint b \<noteq> ?m"
  proof
    assume m: "sint a sdiv sint b = ?m"
    then have "sint a = - ?m" using r a by linarith
    then show False using sdiv_overflow [of "sint a" "sint b"] m no by simp
  qed
  then show "fits TYPE('w) (sint a sdiv sint b)" using r a by (auto simp: fits_def)
qed

lemma fits_smod:
  fixes a b :: "'w::len word"
  assumes "b \<noteq> 0"
  shows "fits TYPE('w) (sint a smod sint b)"
proof -
  have "sint b \<noteq> 0" 
  proof
    assume "sint b = 0"
    then have "word_of_int (sint b) = (0 :: 'w word)" by (simp only: of_int_0)
    then show False using assms by simp
  qed
  then show ?thesis using smod_int_range [of "sint b" "sint a"] fits_sint [of b] by (auto simp: fits_def)
qed

lemma DivSafe_cases:
  fixes a b :: "'w::len word"
  shows "(\<exists>c. DivSafe a b = Inr c) = (b \<noteq> 0 \<and> fits TYPE('w) (sint a sdiv sint b))"
    "DivSafe a b = Inr c \<Longrightarrow> sint c = sint a sdiv sint b"
  unfolding DivSafe_def fits_sdiv [symmetric]
  using fits_sdiv [of a b] sint_of_fits [where 'w = 'w, of "sint a sdiv sint b"] by (simp_all split: if_splits)

lemma ModSafe_cases:
  fixes a b :: "'w::len word"
  shows "(\<exists>c. ModSafe a b = Inr c) = (b \<noteq> 0)" "ModSafe a b = Inr c \<Longrightarrow> sint c = sint a smod sint b"
  using sint_of_fits [OF fits_smod [of b a]] by (auto simp: ModSafe_def signed_modulo_int_def split: if_splits)

text \<open>
  C37. The arithmetic with checks at any width: \<open>AddOverflow\<close>, \<open>SubOverflow\<close>, \<open>MulOverflow\<close> and
  \<open>DivSafe\<close> return exactly when the mathematical result is representable (and the divisor
  is not zero), \<open>ModSafe\<close> exactly when the divisor is not zero, and then the result is the
  mathematical one, with the quotient rounded towards zero.
\<close>

theorem checked_arithmetic_exact:
  fixes a b :: "'w::len word"
  shows "(\<exists>c. AddOverflow a b = Inr c) = fits TYPE('w) (sint a + sint b) \<and>
    (\<exists>c. SubOverflow a b = Inr c) = fits TYPE('w) (sint a - sint b) \<and>
    (\<exists>c. MulOverflow a b = Inr c) = fits TYPE('w) (sint a * sint b) \<and>
    (\<exists>c. DivSafe a b = Inr c) = (b \<noteq> 0 \<and> fits TYPE('w) (sint a sdiv sint b)) \<and>
    (\<exists>c. ModSafe a b = Inr c) = (b \<noteq> 0) \<and>
    (\<forall>c. (AddOverflow a b = Inr c \<longrightarrow> sint c = sint a + sint b) \<and>
      (SubOverflow a b = Inr c \<longrightarrow> sint c = sint a - sint b) \<and>
      (MulOverflow a b = Inr c \<longrightarrow> sint c = sint a * sint b) \<and>
      (DivSafe a b = Inr c \<longrightarrow> sint c = sint a sdiv sint b) \<and>
      (ModSafe a b = Inr c \<longrightarrow> sint c = sint a smod sint b))"
proof -
  have "(\<exists>c. AddOverflow a b = Inr c) = fits TYPE('w) (sint a + sint b)"
    "(\<exists>c. SubOverflow a b = Inr c) = fits TYPE('w) (sint a - sint b)"
    "(\<exists>c. MulOverflow a b = Inr c) = fits TYPE('w) (sint a * sint b)"
    by (simp_all add: AddOverflow_def SubOverflow_def MulOverflow_def)
  moreover have "AddOverflow a b = Inr c \<Longrightarrow> sint c = sint a + sint b" "SubOverflow a b = Inr c \<Longrightarrow> sint c = sint a - sint b"
    "MulOverflow a b = Inr c \<Longrightarrow> sint c = sint a * sint b" for c
    using sint_arith [of a b] by (auto simp: AddOverflow_def SubOverflow_def MulOverflow_def split: if_splits)
  ultimately show ?thesis using DivSafe_cases [of a b] ModSafe_cases [of a b] by blast
qed

theorem checked_arithmetic_exact_witness:
  "AddOverflow (3 :: 16 word) 4 = Inr 7 \<and> sint (7 :: 16 word) = sint (3 :: 16 word) + sint (4 :: 16 word) \<and>
   \<not> fits TYPE(16) (sint (32767 :: 16 word) + sint (1 :: 16 word)) \<and> \<not> (\<exists>c. AddOverflow (32767 :: 16 word) 1 = Inr c)"
proof -
  have a: "AddOverflow (3 :: 16 word) 4 = Inr 7" by (simp add: AddOverflow_def fits_def)
  have f: "\<not> fits TYPE(16) (sint (32767 :: 16 word) + sint (1 :: 16 word))" by (simp add: fits_def)
  have "sint (7 :: 16 word) = sint (3 :: 16 word) + sint (4 :: 16 word)"
    using checked_arithmetic_exact [of "3 :: 16 word" 4, THEN conjunct2, THEN conjunct2, THEN conjunct2, THEN conjunct2,
      THEN conjunct2, rule_format, of 7] a by (elim conjE) (rule mp)
  moreover have "\<not> (\<exists>c. AddOverflow (32767 :: 16 word) 1 = Inr c)"
    unfolding checked_arithmetic_exact [of "32767 :: 16 word" 1, THEN conjunct1] by (rule f)
  ultimately show ?thesis using a f by (intro conjI)
qed

section \<open>Main properties\<close>

lemma in_calendar_range:
  assumes "in_calendar tp"
  shows "- (2 ^ 61) \<le> tp" "tp < 2 ^ 61"
proof -
  have y: "- 32767 \<le> civil_year (floor_days tp)" "civil_year (floor_days tp) + 1 \<le> 32768"
    using assms by (simp_all add: in_calendar_def year_ok_def)
  have "year_first (- 32767) \<le> floor_days tp" "floor_days tp < year_first 32768"
    using civil_year [of "floor_days tp"] days_before_year_mono [OF y(1)] days_before_year_mono [OF y(2)]
    by (simp_all add: year_first_eq)
  moreover have "year_first (- 32767) = - 12687428" "year_first 32768 = 11248738" by (simp_all add: year_first_eq days_before_year_def)
  ultimately have "kMicrosInDay * (- 12687428) \<le> tp" "tp < kMicrosInDay * 11248738" 
    using days_bound(1) [of "- 12687428" tp] days_bound(2) [of tp 11248738] by simp_all
  then show "- (2 ^ 61) \<le> tp" "tp < 2 ^ 61" by (simp_all add: kMicrosInDay_def)
qed

lemma fixed_unit_rounds_down:
  assumes "in_calendar tp" "0 < u" "u \<le> kMicrosInDay"
  shows "rounds_down (unit_start u id 1 0) tp (DateTruncFixedUnit u tp)"
proof (rule DateTruncFixedUnit_floor [OF assms(2)])
  have "tp - u < u * (tp div u)" using div_bounds(2) [OF assms(2), of tp] by simp
  then show "- (2 ^ 63) \<le> u * (tp div u)" using in_calendar_range(1) [OF assms(1)] assms(3) by (simp add: kMicrosInDay_def)
  show "int64 tp" using in_calendar_range [OF assms(1)] by (simp add: int64_def)
qed

text \<open>
  C10. The week that the filter function extracts from a timestamp is the week of ISO 8601:
  the number of the week of the day, from Monday to Sunday, in the year to which the
  Thursday of the week belongs, for every timestamp whose year the date library can
  represent.
\<close>

theorem ExtractWeek_iso:
  assumes "gregorian_library lib" "in_calendar tp"
  shows "ExtractWeek lib tp = iso_week (floor_days tp)"
  unfolding ExtractWeek_def by (rule gregorian_library.WeekOfYear_iso_week [OF assms])


text \<open>
  C38. The fields that are extracted from a timestamp determine it: days of the date, hours,
  minutes and microseconds of the minute add up to the timestamp, and every field is in its
  range.
\<close>

theorem extracted_fields_determine:
  assumes "gregorian_library lib" "in_calendar tp"
  shows "kMicrosInDay * ymd_days (tp_year lib tp, ExtractMonth lib tp, ExtractDay lib tp) +
      ExtractHour tp * kMicrosInHour + ExtractMinute tp * kMicrosInMinute + ExtractMicroseconds tp = tp \<and>
    valid_ymd (tp_year lib tp, ExtractMonth lib tp, ExtractDay lib tp) \<and>
    ExtractHour tp \<in> {0..<24} \<and> ExtractMinute tp \<in> {0..<60} \<and> ExtractMicroseconds tp \<in> {0..<60000000}"
proof -
  obtain y m d where "YearMonthDay lib tp = (y, m, d)" "valid_ymd (y, m, d)" "floor_days tp = ymd_days (y, m, d)"
    using gregorian_library.civil_fields [OF assms] by metis
  then show ?thesis
    using time_fields [of tp]
    by (auto simp: tp_year_def tp_month_def ExtractMonth_def ExtractDay_def TmMday_def ExtractHour_def ExtractMinute_def
        TimeOfDay_def kMicrosInMinute_def kMicrosInSecond_def kMicrosInMilli_def)
qed

text \<open>
  The comparisons of dates with timestamps that run on rows are the comparisons of the
  semantics against which the filter on statistics is sound, and for dates whose midnight
  is a 64-bit timestamp they compare midnight with the timestamp.
\<close>

lemma date_timestamp_comparisons:
  "list_all (\<lambda>(fid, f, g). comparison_sem shift ext fid (Value VT_Date (Some (P_int date))) (Value VT_Timestamp (Some (P_int ts))) =
        Some (of_truth (Some (f date ts))) \<and>
      comparison_sem shift ext fid (Value VT_Timestamp (Some (P_int ts))) (Value VT_Date (Some (P_int date))) =
        Some (of_truth (Some (g ts date))))
     [(kLessThan, LessThanDateTimestamp, LessThanTimestampDate),
      (kLessThanOrEqualTo, LessThanOrEqualToDateTimestamp, LessThanOrEqualToTimestampDate),
      (kGreaterThan, GreaterThanDateTimestamp, GreaterThanTimestampDate),
      (kGreaterThanOrEqualTo, GreaterThanOrEqualToDateTimestamp, GreaterThanOrEqualToTimestampDate),
      (kEqual, EqualDateTimestamp, EqualTimestampDate),
      (kNotEqual, NotEqualDateTimestamp, NotEqualTimestampDate)] \<and>
   (\<bar>date\<bar> \<le> 106751991 \<longrightarrow> date_micros date = date * kMicrosInDay)"
proof -
  have "\<bar>date\<bar> \<le> 106751991 \<longrightarrow> date_micros date = date * kMicrosInDay"
    by (auto simp: date_micros_def kMicrosInDay_def int64_def intro!: to_int64_id)
  then show ?thesis
    by (auto simp: comparison_sem_def common_type_def convert_def Comparable_def compare_sem_def date_micros_def
        LessThanDateTimestamp_def LessThanTimestampDate_def LessThanOrEqualToDateTimestamp_def
        LessThanOrEqualToTimestampDate_def GreaterThanDateTimestamp_def GreaterThanTimestampDate_def
        GreaterThanOrEqualToDateTimestamp_def GreaterThanOrEqualToTimestampDate_def EqualDateTimestamp_def
        EqualTimestampDate_def NotEqualDateTimestamp_def NotEqualTimestampDate_def doubleton_eq_iff
        intro!: arg_cong [of _ _ "\<lambda>b. of_truth (Some b)"])
qed

section \<open>Examples\<close>

text \<open>Monday, 30 December 2024, 01:02:03 and one microsecond: the first week of 2025.\<close>

definition example_time :: int where
  "example_time = kMicrosInDay * 20087 + 3723000001"

lemma example_floor_days: "floor_days example_time = 20087"
  by (simp add: floor_days_def example_time_def kMicrosInDay_def)

lemma example_in_calendar: "in_calendar example_time"
  by (simp add: in_calendar_def example_floor_days) code_simp

theorem ExtractWeek_iso_witness: "ExtractWeek std_library example_time = 1 \<and> iso_week 20087 = 1"
proof -
  have "iso_week 20087 = 1" by code_simp
  then show ?thesis
    using ExtractWeek_iso [OF std.gregorian_library_axioms example_in_calendar] by (simp add: example_floor_days)
qed


theorem extracted_fields_determine_witness:
  "ExtractMonth std_library example_time = 12 \<and> ExtractDay std_library example_time = 30 \<and> ExtractHour example_time = 1 \<and>
   ExtractMinute example_time = 2 \<and> ExtractMicroseconds example_time = 3000001 \<and> ExtractMinute example_time \<in> {0..<60}"
proof -
  have "ExtractMonth std_library example_time = 12" "ExtractDay std_library example_time = 30" "ExtractHour example_time = 1"
    "ExtractMinute example_time = 2" "ExtractMicroseconds example_time = 3000001" by code_simp+
  then show ?thesis using extracted_fields_determine [OF std.gregorian_library_axioms example_in_calendar] by (elim conjE) (intro conjI)
qed

lemma date_timestamp_comparisons_witness:
  "date_micros 20087 = 20087 * kMicrosInDay \<and> LessThanDateTimestamp 20087 example_time"
proof -
  have "\<bar>20087 :: int\<bar> \<le> 106751991" by simp
  then have "date_micros 20087 = 20087 * kMicrosInDay"
    using date_timestamp_comparisons [of None no_function 20087 example_time, THEN conjunct2] by (rule rev_mp)
  then show ?thesis by (simp add: LessThanDateTimestamp_def example_time_def mult.commute)
qed

text \<open>Two limits of the code.  A timestamp before 1970 is cast to the following day unless
  it is a midnight, and the decade of a year before our era starts after it.\<close>

lemma CastDateFromTimestamp_late: "CastDateFromTimestamp (- 1) = 0 \<and> floor_days (- 1) = - 1"
  by code_simp

lemma DateTruncDecade_late:
  "civil_year (year_first (- 5)) = - 5 \<and> DateTruncDecade std_library (kMicrosInDay * year_first (- 5)) = kMicrosInDay * year_first 0"
  by code_simp

end
