(* ===== verification/Avro_Schema.thy ===== *)
theory Avro_Schema
  imports Scan_Builder Json
begin

text \<open>
  Avro schemas (\<open>avro_schema.h\<close>, \<open>avro_schema.cpp\<close>): the nodes of \<open>namespace iceavro\<close> and their
  JSON form, which is what the Avro library is given.  The data of the library, generic
  datums, are a datatype; the library itself (compilation of a schema to an initial datum,
  reading and writing of container files) is a record of functions with its documented
  behaviour as the laws of a locale.
\<close>

section \<open>Schema nodes\<close>

text \<open>The field identifiers of the nodes are not used by the code and left out.\<close>

datatype (plugins only: code size) avro_node =
    BoolNode | IntNode | LongNode | FloatNode | DoubleNode | DateNode | TimeNode | TimestampNode
  | TimestamptzNode | TimestampNsNode | TimestamptzNsNode | DecimalNode int int | StringNode | BytesNode
  | FixedNode int | UuidNode | OptionalNode avro_node | ArrayNode avro_node
  | RecordNode string "(string \<times> avro_node) list"

definition MinimumBytesToStoreDecimal :: "(int \<Rightarrow> int) \<Rightarrow> int \<Rightarrow> int result" where
  "MinimumBytesToStoreDecimal decimal_size precision =
     bindE (ensure (precision \<le> 38) ''MinimumBytesToStoreDecimal: precision is greater than '') (\<lambda>_.
     bindE (ensure (precision > 0) ''MinimumBytesToStoreDecimal: precision is less than or equal to '') (\<lambda>_.
     Inr (decimal_size precision)))"

text \<open>A string is passed as \<open>const char*\<close> and ends at its first zero byte.\<close>

definition json_string :: "string \<Rightarrow> json" where
  "json_string s = J_string (c_str s)"

definition typed :: "json \<Rightarrow> json" where
  "typed t = J_object [(''type'', t)]"

text \<open>\<open>EraseMember\<close> replaces the erased member by the last one; the objects here have no other.\<close>

definition make_optional :: "json \<Rightarrow> json result" where
  "make_optional child =
     bindE (ensure (IsObject child) ''Serialize: internal error. OptionalNode child must be an object'') (\<lambda>_.
     bindE (HasMember child ''type'') (\<lambda>has.
     bindE (ensure has ''Serialize: internal error. OptionalNode child must has field type'') (\<lambda>_.
     bindE (member_at child ''type'') (\<lambda>t.
     case child of
       J_object ms \<Rightarrow> Inr (J_object (filter (\<lambda>(k, _). k \<noteq> ''type'') ms @
         [(''type'', J_array [J_string ''null'', t]), (''default'', J_null)]))
     | _ \<Rightarrow> Inl (Undefined ''IsObject()'')))))"

definition make_array :: "json \<Rightarrow> json result" where
  "make_array element =
     bindE (ensure (IsObject element) ''Serialize: internal error. ArrayNode element must be an object'') (\<lambda>_.
     bindE (HasMember element ''type'') (\<lambda>has.
     bindE (ensure has ''Serialize: internal error. ArrayNode element must has field type'') (\<lambda>_.
     bindE (member_at element ''type'') (\<lambda>t.
     Inr (typed (J_object [(''items'', t), (''type'', J_string ''array'')]))))))"

definition add_name :: "string \<Rightarrow> json \<Rightarrow> json result" where
  "add_name name field_value =
     (case field_value of
        J_object ms \<Rightarrow> Inr (J_object (ms @ [(''name'', json_string name)]))
      | _ \<Rightarrow> Inl (Runtime_error ''Serialize: internal error. Field must be an object''))"

fun node_json :: "(int \<Rightarrow> int) \<Rightarrow> avro_node \<Rightarrow> json result"
  and fields_json :: "(int \<Rightarrow> int) \<Rightarrow> (string \<times> avro_node) list \<Rightarrow> json list result" where
  "node_json ds BoolNode = Inr (typed (J_string ''boolean''))"
| "node_json ds IntNode = Inr (typed (J_string ''int''))"
| "node_json ds LongNode = Inr (typed (J_string ''long''))"
| "node_json ds FloatNode = Inr (typed (J_string ''float''))"
| "node_json ds DoubleNode = Inr (typed (J_string ''double''))"
| "node_json ds StringNode = Inr (typed (J_string ''string''))"
| "node_json ds BytesNode = Inr (typed (J_string ''bytes''))"
| "node_json ds DateNode =
     Inr (typed (J_object [(''type'', J_string ''int''), (''logicalType'', J_string ''date'')]))"
| "node_json ds TimeNode =
     Inr (typed (J_object [(''type'', J_string ''long''), (''logicalType'', J_string ''time-micros'')]))"
| "node_json ds TimestampNode =
     Inr (typed (J_object [(''type'', J_string ''long''), (''logicalType'', J_string ''timestamp-micros''),
       (''adjust-to-utc'', J_bool False)]))"
| "node_json ds TimestamptzNode =
     Inr (typed (J_object [(''type'', J_string ''long''), (''logicalType'', J_string ''timestamp-micros''),
       (''adjust-to-utc'', J_bool True)]))"
| "node_json ds TimestampNsNode =
     Inr (typed (J_object [(''type'', J_string ''long''), (''logicalType'', J_string ''timestamp-nanos''),
       (''adjust-to-utc'', J_bool False)]))"
| "node_json ds TimestamptzNsNode =
     Inr (typed (J_object [(''type'', J_string ''long''), (''logicalType'', J_string ''timestamp-nanos''),
       (''adjust-to-utc'', J_bool True)]))"
| "node_json ds (DecimalNode precision scale) =
     bindE (MinimumBytesToStoreDecimal ds precision) (\<lambda>sz.
       Inr (typed (J_object [(''type'', J_string ''fixed''), (''size'', J_int sz),
         (''name'', json_string (''decimal_'' @ to_string precision @ ''_'' @ to_string scale)),
         (''logicalType'', J_string ''decimal''), (''precision'', J_int precision), (''scale'', J_int scale)])))"
| "node_json ds (FixedNode sz) =
     Inr (typed (J_object [(''type'', J_string ''fixed''), (''size'', J_int sz)]))"
| "node_json ds UuidNode =
     Inr (typed (J_object [(''type'', J_string ''fixed''), (''name'', J_string ''uuid_fixed''), (''size'', J_int 16),
       (''logicalType'', J_string ''uuid'')]))"
| "node_json ds (OptionalNode child) = bindE (node_json ds child) make_optional"
| "node_json ds (ArrayNode element) = bindE (node_json ds element) make_array"
| "node_json ds (RecordNode name flds) =
     bindE (fields_json ds flds) (\<lambda>fs.
       Inr (typed (J_object [(''type'', J_string ''record''), (''name'', json_string name), (''fields'', J_array fs)])))"
| "fields_json ds [] = Inr []"
| "fields_json ds ((name, field) # flds) =
     bindE (node_json ds field) (\<lambda>field_value.
     bindE (add_name name field_value) (\<lambda>named.
     bindE (fields_json ds flds) (\<lambda>rest. Inr (named # rest))))"

text \<open>The document that \<open>ToJsonString\<close> prints.\<close>

definition ToJsonString :: "(int \<Rightarrow> int) \<Rightarrow> avro_node \<Rightarrow> json result" where
  "ToJsonString ds node =
     bindE (node_json ds node) (\<lambda>v.
     bindE (ensure (IsObject v) ''ToJsonString: internal error. Node must be an object'') (\<lambda>_.
     bindE (HasMember v ''type'') (\<lambda>has.
     bindE (ensure has ''ToJsonString: internal error. Node must has field type'') (\<lambda>_.
     member_at v ''type''))))"

section \<open>Data of the Avro library\<close>

datatype logical_type =
    L_none | L_date | L_time_micros | L_timestamp_micros | L_timestamp_nanos | L_decimal int int | L_uuid | L_other

datatype datum =
    D_null | D_bool bool | D_int logical_type int | D_long logical_type int | D_float "32 word" | D_double "64 word"
  | D_string logical_type string | D_bytes logical_type "byte list" | D_fixed logical_type "byte list"
  | D_array json "datum list" | D_record "(string \<times> datum) list" | D_union "json list" nat datum

text \<open>\<open>GenericDatum::type\<close>, \<open>value\<close> and \<open>logicalType\<close> see through a union to the selected branch.\<close>

fun resolve :: "datum \<Rightarrow> datum" where
  "resolve (D_union branches n d) = resolve d"
| "resolve d = d"

type_synonym avro_metadata = "(string \<times> byte list) list"

record 'f avro_library =
  decimal_size :: "int \<Rightarrow> int"
  compile :: "json \<Rightarrow> json result"
  make_datum :: "json \<Rightarrow> datum"
  write_file :: "json \<Rightarrow> avro_metadata \<Rightarrow> datum list \<Rightarrow> 'f"
  read_file :: "'f \<Rightarrow> json option \<Rightarrow> (json \<times> avro_metadata \<times> datum result list) result"

text \<open>
  A datum that was made for a schema and changed by assignments keeps its shape: \<open>shape_ok mk d i\<close>
  says that \<open>d\<close> has the shape of the initial datum \<open>i\<close>, where \<open>mk\<close> makes initial datums, and that
  its numbers are within the range of their type.
\<close>

primrec shape_ok :: "(json \<Rightarrow> datum) \<Rightarrow> datum \<Rightarrow> datum \<Rightarrow> bool" where
  "shape_ok mk D_null = (\<lambda>i. i = D_null)"
| "shape_ok mk (D_bool b) = (\<lambda>i. case i of D_bool _ \<Rightarrow> True | _ \<Rightarrow> False)"
| "shape_ok mk (D_int l n) = (\<lambda>i. int32 n \<and> (case i of D_int l' _ \<Rightarrow> l' = l | _ \<Rightarrow> False))"
| "shape_ok mk (D_long l n) = (\<lambda>i. int64 n \<and> (case i of D_long l' _ \<Rightarrow> l' = l | _ \<Rightarrow> False))"
| "shape_ok mk (D_float x) = (\<lambda>i. case i of D_float _ \<Rightarrow> True | _ \<Rightarrow> False)"
| "shape_ok mk (D_double x) = (\<lambda>i. case i of D_double _ \<Rightarrow> True | _ \<Rightarrow> False)"
| "shape_ok mk (D_string l s) = (\<lambda>i. case i of D_string l' _ \<Rightarrow> l' = l | _ \<Rightarrow> False)"
| "shape_ok mk (D_bytes l bs) = (\<lambda>i. case i of D_bytes l' _ \<Rightarrow> l' = l | _ \<Rightarrow> False)"
| "shape_ok mk (D_fixed l bs) = (\<lambda>i. case i of D_fixed l' bs' \<Rightarrow> l' = l \<and> length bs' = length bs | _ \<Rightarrow> False)"
| "shape_ok mk (D_array t ds) =
     (\<lambda>i. (case i of D_array t' _ \<Rightarrow> t' = t | _ \<Rightarrow> False) \<and> list_all (\<lambda>p. p (mk t)) (map (shape_ok mk) ds))"
| "shape_ok mk (D_record fs) =
     (\<lambda>i. case i of
        D_record ifs \<Rightarrow> list_all2 (\<lambda>(name, p) (name', i). name = name' \<and> p i) (map (map_prod id (shape_ok mk)) fs) ifs
      | _ \<Rightarrow> False)"
| "shape_ok mk (D_union bs n d) =
     (\<lambda>i. case i of D_union bs' _ _ \<Rightarrow> bs' = bs \<and> n < length bs \<and> shape_ok mk d (mk (bs ! n)) | _ \<Rightarrow> False)"

definition conforms :: "'f avro_library \<Rightarrow> json \<Rightarrow> datum \<Rightarrow> bool" where
  "conforms lib s d \<longleftrightarrow> shape_ok (make_datum lib) d (make_datum lib s)"

definition logical_of :: "members \<Rightarrow> logical_type" where
  "logical_of ms =
     (case map_of ms ''logicalType'' of
        Some (J_string s) \<Rightarrow>
          if s = ''date'' then L_date else if s = ''time-micros'' then L_time_micros
          else if s = ''timestamp-micros'' then L_timestamp_micros else if s = ''timestamp-nanos'' then L_timestamp_nanos
          else if s = ''uuid'' then L_uuid
          else if s = ''decimal'' then
            (case (map_of ms ''precision'', map_of ms ''scale'') of
               (Some (J_int p), Some (J_int q)) \<Rightarrow> L_decimal p q | _ \<Rightarrow> L_none)
          else L_none
      | _ \<Rightarrow> L_none)"

section \<open>Schema documents\<close>

text \<open>
  The documents that the Avro specification admits, as far as the nodes above use them: names
  are identifiers, named types (records and fixed types) have a name, a decimal fits into its
  bytes, the field names of a record are distinct, and no name is defined twice.
\<close>

definition name_char :: "char \<Rightarrow> bool" where
  "name_char c \<longleftrightarrow> is_digit c \<or> c = CHR ''_'' \<or>
     (let n = (of_char c :: nat) in 65 \<le> n \<and> n \<le> 90 \<or> 97 \<le> n \<and> n \<le> 122)"

definition avro_name :: "string \<Rightarrow> bool" where
  "avro_name s \<longleftrightarrow> s \<noteq> [] \<and> list_all name_char s \<and> \<not> is_digit (hd s)"

definition logical_ok :: "int \<Rightarrow> members \<Rightarrow> bool" where
  "logical_ok sz ms =
     (case logical_of ms of
        L_decimal p q \<Rightarrow> 0 < p \<and> 0 \<le> q \<and> q \<le> p \<and> 10 ^ nat p \<le> (2 :: int) ^ nat (8 * sz - 1)
      | L_uuid \<Rightarrow> sz = 16
      | l \<Rightarrow> l = L_none)"

inductive schema_doc :: "json \<Rightarrow> bool" where
  primitive: "t \<in> {''null'', ''boolean'', ''int'', ''long'', ''float'', ''double'', ''string'', ''bytes''} \<Longrightarrow>
    schema_doc (J_string t)"
| logical: "map_of ms ''type'' = Some (J_string t) \<Longrightarrow>
    t = ''int'' \<and> logical_of ms = L_date \<or>
    t = ''long'' \<and> logical_of ms \<in> {L_time_micros, L_timestamp_micros, L_timestamp_nanos} \<Longrightarrow>
    schema_doc (J_object ms)"
| fixed: "map_of ms ''type'' = Some (J_string ''fixed'') \<Longrightarrow> map_of ms ''name'' = Some (J_string n) \<Longrightarrow> avro_name n \<Longrightarrow>
    map_of ms ''size'' = Some (J_int sz) \<Longrightarrow> 0 < sz \<Longrightarrow> logical_ok sz ms \<Longrightarrow> schema_doc (J_object ms)"
| optional: "schema_doc t \<Longrightarrow> t \<noteq> J_string ''null'' \<Longrightarrow> (\<And>bs. t \<noteq> J_array bs) \<Longrightarrow>
    schema_doc (J_array [J_string ''null'', t])"
| array_of: "map_of ms ''type'' = Some (J_string ''array'') \<Longrightarrow> map_of ms ''items'' = Some t \<Longrightarrow> schema_doc t \<Longrightarrow>
    schema_doc (J_object ms)"
| record_of: "map_of ms ''type'' = Some (J_string ''record'') \<Longrightarrow> map_of ms ''name'' = Some (J_string n) \<Longrightarrow> avro_name n \<Longrightarrow>
    map_of ms ''fields'' = Some (J_array (map J_object fms)) \<Longrightarrow>
    list_all2 (\<lambda>fm (name, t). map_of fm ''name'' = Some (J_string name) \<and> map_of fm ''type'' = Some t \<and>
      avro_name name \<and> schema_doc t) fms nts \<Longrightarrow>
    distinct (map fst nts) \<Longrightarrow> schema_doc (J_object ms)"

fun defined_names :: "json \<Rightarrow> string list" where
  "defined_names (J_array js) = concat (map defined_names js)"
| "defined_names (J_object ms) =
     (case (map_of ms ''type'', map_of ms ''name'') of
        (Some (J_string t), Some (J_string n)) \<Rightarrow> if t = ''record'' \<or> t = ''fixed'' then [n] else []
      | _ \<Rightarrow> []) @ concat (map (\<lambda>(k, v). defined_names v) ms)"
| "defined_names _ = []"

section \<open>The contract of the Avro library\<close>

locale avro =
  fixes lib :: "'f avro_library"
  assumes decimal_size_fits: "0 < p \<Longrightarrow> p \<le> 38 \<Longrightarrow>
      0 < decimal_size lib p \<and> 10 ^ nat p \<le> (2 :: int) ^ nat (8 * decimal_size lib p - 1)"
    and compile_doc: "schema_doc s \<Longrightarrow> distinct (defined_names s) \<Longrightarrow> compile lib s = Inr s"
    and make_null: "make_datum lib (J_string ''null'') = D_null"
    and make_boolean: "\<exists>b. make_datum lib (J_string ''boolean'') = D_bool b"
    and make_int: "\<exists>n. make_datum lib (J_string ''int'') = D_int L_none n"
    and make_long: "\<exists>n. make_datum lib (J_string ''long'') = D_long L_none n"
    and make_float: "\<exists>x. make_datum lib (J_string ''float'') = D_float x"
    and make_double: "\<exists>x. make_datum lib (J_string ''double'') = D_double x"
    and make_string: "\<exists>s. make_datum lib (J_string ''string'') = D_string L_none s"
    and make_bytes: "\<exists>bs. make_datum lib (J_string ''bytes'') = D_bytes L_none bs"
    and make_logical_int: "map_of ms ''type'' = Some (J_string ''int'') \<Longrightarrow>
      \<exists>n. make_datum lib (J_object ms) = D_int (logical_of ms) n"
    and make_logical_long: "map_of ms ''type'' = Some (J_string ''long'') \<Longrightarrow>
      \<exists>n. make_datum lib (J_object ms) = D_long (logical_of ms) n"
    and make_fixed: "map_of ms ''type'' = Some (J_string ''fixed'') \<Longrightarrow> map_of ms ''name'' = Some (J_string name) \<Longrightarrow>
      map_of ms ''size'' = Some (J_int sz) \<Longrightarrow>
      \<exists>bs. make_datum lib (J_object ms) = D_fixed (logical_of ms) bs \<and> length bs = nat sz"
    and make_array: "map_of ms ''type'' = Some (J_string ''array'') \<Longrightarrow> map_of ms ''items'' = Some t \<Longrightarrow>
      make_datum lib (J_object ms) = D_array t []"
    and make_record: "map_of ms ''type'' = Some (J_string ''record'') \<Longrightarrow>
      map_of ms ''fields'' = Some (J_array (map J_object fms)) \<Longrightarrow>
      list_all2 (\<lambda>fm (name, t). map_of fm ''name'' = Some (J_string name) \<and> map_of fm ''type'' = Some t) fms nts \<Longrightarrow>
      make_datum lib (J_object ms) = D_record (map (\<lambda>(name, t). (name, make_datum lib t)) nts)"
    and make_union: "bs \<noteq> [] \<Longrightarrow> make_datum lib (J_array bs) = D_union bs 0 (make_datum lib (hd bs))"
    and read_written: "list_all (conforms lib s) ds \<Longrightarrow> reader = None \<or> reader = Some s \<Longrightarrow> omap m \<Longrightarrow>
      \<exists>m'. read_file lib (write_file lib s m ds) reader = Inr (s, m', map Inr ds) \<and> omap m' \<and>
        (\<forall>k. k \<noteq> ''avro.schema'' \<and> k \<noteq> ''avro.codec'' \<longrightarrow> map_of m' k = map_of m k)"

section \<open>An implementation of the contract\<close>

text \<open>
  A container file is the triple of its schema, metadata and datums; numbers start at zero,
  strings empty, a fixed value with zero bytes.
\<close>

lemma size_of_member:
  fixes v :: json
  assumes "map_of ms k = Some v"
  shows "size v < Suc (size_list (size_prod (\<lambda>_. 0) size) ms)"
  using assms
proof (induction ms)
  case (Cons x ms)
  then show ?case by (cases x) (auto split: if_splits)
qed simp

definition primitive_datum :: "string \<Rightarrow> logical_type \<Rightarrow> datum" where
  "primitive_datum t l =
     (if t = ''boolean'' then D_bool False else if t = ''int'' then D_int l 0 else if t = ''long'' then D_long l 0
      else if t = ''float'' then D_float 0 else if t = ''double'' then D_double 0
      else if t = ''string'' then D_string l '''' else if t = ''bytes'' then D_bytes l [] else D_null)"

text \<open>The types of the fields of a record, with their names.\<close>

definition field_type :: "json \<Rightarrow> (string \<times> json) option" where
  "field_type f =
     (case f of
        J_object fm \<Rightarrow>
          (case map_of fm ''name'' of
             Some (J_string name) \<Rightarrow> (case map_of fm ''type'' of Some t \<Rightarrow> Some (name, t) | None \<Rightarrow> None)
           | _ \<Rightarrow> None)
      | _ \<Rightarrow> None)"

definition field_types :: "members \<Rightarrow> (string \<times> json) list" where
  "field_types ms =
     (case map_of ms ''fields'' of Some (J_array fs) \<Rightarrow> List.map_filter field_type fs | _ \<Rightarrow> [])"

lemma field_type_eq: "field_type f = Some (name, t) \<longleftrightarrow>
    (\<exists>fm. f = J_object fm \<and> map_of fm ''name'' = Some (J_string name) \<and> map_of fm ''type'' = Some t)"
  by (auto simp: field_type_def split: json.splits option.splits)

lemma size_json_array: "x \<in> set xs \<Longrightarrow> size x < size (J_array xs)"
  by (induction xs) auto

lemma size_json_member: "map_of ms k = Some v \<Longrightarrow> size v < size (J_object ms)"
  using size_of_member [of ms k v] by simp

lemma size_field_types:
  assumes "(name, t) \<in> set (field_types ms)"
  shows "size t < size (J_object ms)"
proof -
  obtain fs where fs: "map_of ms ''fields'' = Some (J_array fs)" "(name, t) \<in> set (List.map_filter field_type fs)"
    using assms unfolding field_types_def by (cases "map_of ms ''fields''") (auto split: json.splits)
  from fs(2) obtain f where "f \<in> set fs" "field_type f = Some (name, t)"
    by (auto simp: List.map_filter_def)
  with fs(1) obtain fm where "map_of ms ''fields'' = Some (J_array fs)" "J_object fm \<in> set fs" "map_of fm ''type'' = Some t"
    by (auto simp: field_type_eq)
  then show ?thesis
    using size_json_member [of ms "''fields''"] size_json_array [of "J_object fm" fs] size_json_member [of fm "''type''" t]
    by fastforce
qed

function default_datum :: "json \<Rightarrow> datum" where
  "default_datum (J_string t) = primitive_datum t L_none"
| "default_datum (J_array []) = D_null"
| "default_datum (J_array (b # bs)) = D_union (b # bs) 0 (default_datum b)"
| "default_datum (J_object ms) =
     (case map_of ms ''type'' of
        Some (J_string t) \<Rightarrow>
          if t = ''fixed'' then
            D_fixed (logical_of ms) (case map_of ms ''size'' of Some (J_int sz) \<Rightarrow> replicate (nat sz) 0 | _ \<Rightarrow> [])
          else if t = ''array'' then (case map_of ms ''items'' of Some t \<Rightarrow> D_array t [] | None \<Rightarrow> D_null)
          else if t = ''record'' then D_record (map (\<lambda>(name, t). (name, default_datum t)) (field_types ms))
          else primitive_datum t (logical_of ms)
      | _ \<Rightarrow> D_null)"
| "default_datum J_null = D_null"
| "default_datum (J_bool _) = D_null"
| "default_datum (J_int _) = D_null"
| "default_datum (J_double _) = D_null"
  by pat_completeness auto
termination
  by (relation "measure size") (auto dest!: size_field_types)

definition decimal_bytes :: "int \<Rightarrow> int" where
  "decimal_bytes p = (case find (\<lambda>n. 10 ^ nat p \<le> (2 :: int) ^ nat (8 * n - 1)) [1..16] of Some n \<Rightarrow> n | None \<Rightarrow> 0)"

definition memory_library :: "(json \<times> avro_metadata \<times> datum list) avro_library" where
  "memory_library =
     \<lparr>decimal_size = decimal_bytes, compile = Inr, make_datum = default_datum,
      write_file = (\<lambda>s m ds. (s, m, ds)),
      read_file = (\<lambda>(s, m, ds) _. Inr (s, omap_alter ''avro.codec'' [] (\<lambda>_. map of_char ''null'') m, map Inr ds))\<rparr>"

lemma decimal_bytes_fits:
  assumes "0 < p" "p \<le> 38"
  shows "0 < decimal_bytes p \<and> 10 ^ nat p \<le> (2 :: int) ^ nat (8 * decimal_bytes p - 1)"
proof -
  have "(10 :: int) ^ nat p \<le> 10 ^ 38" using assms by (intro power_increasing) auto
  also have "\<dots> \<le> (2 :: int) ^ nat (8 * 16 - 1)" by simp
  finally obtain n where n: "find (\<lambda>n. 10 ^ nat p \<le> (2 :: int) ^ nat (8 * n - 1)) [1..16] = Some n"
    by (cases "find (\<lambda>n. 10 ^ nat p \<le> (2 :: int) ^ nat (8 * n - 1)) [1..16]") (auto simp: find_None_iff)
  then obtain i where "i < length [1..16 :: int]" "[1..16] ! i = n" "10 ^ nat p \<le> (2 :: int) ^ nat (8 * n - 1)"
    by (auto simp: find_Some_iff)
  moreover have "n \<in> set [1..16]" using calculation nth_mem by metis
  ultimately show ?thesis using n by (simp add: decimal_bytes_def)
qed

lemma field_types_eq:
  assumes "map_of ms ''fields'' = Some (J_array (map J_object fms))"
    and "list_all2 (\<lambda>fm (name, t). map_of fm ''name'' = Some (J_string name) \<and> map_of fm ''type'' = Some t) fms nts"
  shows "field_types ms = nts"
proof -
  from assms(2) have "List.map_filter field_type (map J_object fms) = nts"
    by (induction fms nts rule: list_all2_induct) (auto simp: List.map_filter_simps field_type_eq split: option.splits)
  then show ?thesis using assms(1) by (simp add: field_types_def)
qed

interpretation memory: avro memory_library
proof (unfold_locales, goal_cases)
  case (15 ms fms nts)
  then show ?case using field_types_eq by (simp add: memory_library_def)
next
  case (16 bs)
  then show ?case by (cases bs) (simp_all add: memory_library_def)
next
  case (17 s ds reader m)
  then show ?case by (simp add: memory_library_def map_of_omap_alter)
qed (auto simp: memory_library_def decimal_bytes_fits primitive_datum_def)

section \<open>Well-formed nodes\<close>

text \<open>
  The nodes whose document the Avro specification admits.  A fixed node is not among them: its
  document has no name, which the specification demands of a fixed type.
\<close>

fun is_optional :: "avro_node \<Rightarrow> bool" where
  "is_optional (OptionalNode _) = True"
| "is_optional _ = False"

fun avro_node_ok :: "avro_node \<Rightarrow> bool" where
  "avro_node_ok (DecimalNode p q) \<longleftrightarrow> 0 < p \<and> p \<le> 38 \<and> 0 \<le> q \<and> q \<le> p"
| "avro_node_ok (FixedNode _) \<longleftrightarrow> False"
| "avro_node_ok (OptionalNode child) \<longleftrightarrow> avro_node_ok child \<and> \<not> is_optional child"
| "avro_node_ok (ArrayNode element) \<longleftrightarrow> avro_node_ok element"
| "avro_node_ok (RecordNode name flds) \<longleftrightarrow>
     avro_name name \<and> distinct (map fst flds) \<and> (\<forall>(n, f) \<in> set flds. avro_name n \<and> avro_node_ok f)"
| "avro_node_ok _ \<longleftrightarrow> True"

text \<open>The type of a node in its document, and the members of the object that \<open>node_json\<close> makes of it.\<close>

fun node_type :: "(int \<Rightarrow> int) \<Rightarrow> avro_node \<Rightarrow> json" where
  "node_type ds BoolNode = J_string ''boolean''"
| "node_type ds IntNode = J_string ''int''"
| "node_type ds LongNode = J_string ''long''"
| "node_type ds FloatNode = J_string ''float''"
| "node_type ds DoubleNode = J_string ''double''"
| "node_type ds StringNode = J_string ''string''"
| "node_type ds BytesNode = J_string ''bytes''"
| "node_type ds DateNode = J_object [(''type'', J_string ''int''), (''logicalType'', J_string ''date'')]"
| "node_type ds TimeNode = J_object [(''type'', J_string ''long''), (''logicalType'', J_string ''time-micros'')]"
| "node_type ds TimestampNode = J_object [(''type'', J_string ''long''), (''logicalType'', J_string ''timestamp-micros''),
     (''adjust-to-utc'', J_bool False)]"
| "node_type ds TimestamptzNode = J_object [(''type'', J_string ''long''), (''logicalType'', J_string ''timestamp-micros''),
     (''adjust-to-utc'', J_bool True)]"
| "node_type ds TimestampNsNode = J_object [(''type'', J_string ''long''), (''logicalType'', J_string ''timestamp-nanos''),
     (''adjust-to-utc'', J_bool False)]"
| "node_type ds TimestamptzNsNode = J_object [(''type'', J_string ''long''), (''logicalType'', J_string ''timestamp-nanos''),
     (''adjust-to-utc'', J_bool True)]"
| "node_type ds (DecimalNode p q) = J_object [(''type'', J_string ''fixed''), (''size'', J_int (ds p)),
     (''name'', J_string (''decimal_'' @ to_string p @ ''_'' @ to_string q)),
     (''logicalType'', J_string ''decimal''), (''precision'', J_int p), (''scale'', J_int q)]"
| "node_type ds (FixedNode sz) = J_object [(''type'', J_string ''fixed''), (''size'', J_int sz)]"
| "node_type ds UuidNode = J_object [(''type'', J_string ''fixed''), (''name'', J_string ''uuid_fixed''), (''size'', J_int 16),
     (''logicalType'', J_string ''uuid'')]"
| "node_type ds (OptionalNode child) = J_array [J_string ''null'', node_type ds child]"
| "node_type ds (ArrayNode element) = J_object [(''items'', node_type ds element), (''type'', J_string ''array'')]"
| "node_type ds (RecordNode name flds) = J_object [(''type'', J_string ''record''), (''name'', J_string name),
     (''fields'', J_array (map (\<lambda>(n, f). J_object ((''type'', node_type ds f) #
        (if is_optional f then [(''default'', J_null)] else []) @ [(''name'', J_string n)])) flds))]"

definition node_members :: "(int \<Rightarrow> int) \<Rightarrow> avro_node \<Rightarrow> members" where
  "node_members ds n = (''type'', node_type ds n) # (if is_optional n then [(''default'', J_null)] else [])"

lemma not_name_char_nul: "\<not> name_char (CHR 0x00)"
  by (simp add: name_char_def is_digit_def)

lemma avro_name_no_nul: "avro_name s \<Longrightarrow> no_nul s"
  using not_name_char_nul by (auto simp: avro_name_def no_nul_def list_all_iff)

lemma json_string_name [simp]: "avro_name s \<Longrightarrow> json_string s = J_string s"
  by (simp add: json_string_def avro_name_no_nul)

lemma decimal_name: "0 \<le> p \<Longrightarrow> 0 \<le> q \<Longrightarrow> avro_name (''decimal_'' @ to_string p @ ''_'' @ to_string q)"
  by (auto simp: avro_name_def to_string_def name_char_def list_all_iff is_digit_def [of "CHR ''d''"] dest!: nat_to_string_digits)

lemma node_json_eq:
  "avro_node_ok n \<Longrightarrow> node_json ds n = Inr (J_object (node_members ds n))"
  "\<forall>(name, f) \<in> set flds. avro_name name \<and> avro_node_ok f \<Longrightarrow>
    fields_json ds flds = Inr (map (\<lambda>(name, f). J_object (node_members ds f @ [(''name'', J_string name)])) flds)"
proof (induction ds n and ds flds rule: node_json_fields_json.induct)
  case (14 ds p q)
  then show ?case using decimal_name [of p q]
    by (simp add: node_members_def typed_def MinimumBytesToStoreDecimal_def)
next
  case (17 ds child)
  then show ?case
    by (cases "is_optional child") (auto simp: node_members_def make_optional_def IsObject_def)
next
  case (18 ds element)
  then show ?case by (auto simp: node_members_def make_array_def IsObject_def typed_def)
next
  case (19 ds name flds)
  then show ?case by (auto simp: node_members_def typed_def)
next
  case (21 ds name f flds)
  then show ?case by (auto simp: add_name_def)
qed (simp_all add: node_members_def typed_def)

lemma ToJsonString_eq: "avro_node_ok n \<Longrightarrow> ToJsonString ds n = Inr (node_type ds n)"
  by (simp add: ToJsonString_def node_json_eq IsObject_def node_members_def)

fun node_names :: "avro_node \<Rightarrow> string list" where
  "node_names (DecimalNode p q) = [''decimal_'' @ to_string p @ ''_'' @ to_string q]"
| "node_names UuidNode = [''uuid_fixed'']"
| "node_names (OptionalNode child) = node_names child"
| "node_names (ArrayNode element) = node_names element"
| "node_names (RecordNode name flds) = name # concat (map (\<lambda>(n, f). node_names f) flds)"
| "node_names _ = []"

lemma node_type_not_named:
  "node_type ds n \<noteq> J_string ''record''" "node_type ds n \<noteq> J_string ''fixed''" "node_type ds n \<noteq> J_string ''null''"
  by (cases n; simp)+

lemma field_defined_names:
  "defined_names (J_object ((''type'', node_type ds f) # (if is_optional f then [(''default'', J_null)] else []) @
     [(''name'', J_string n)])) = defined_names (node_type ds f)"
  using node_type_not_named [of ds f] by (auto split: json.split)

lemma record_defined_names:
  "defined_names (J_object [(''type'', J_string ''record''), (''name'', J_string name), (''fields'', J_array js)]) =
     name # concat (map defined_names js)"
  by simp

lemma defined_names_node: "avro_node_ok n \<Longrightarrow> defined_names (node_type ds n) = node_names n"
proof (induction n)
  case (RecordNode name flds)
  have "map defined_names (map (\<lambda>(n, f). J_object ((''type'', node_type ds f) #
      (if is_optional f then [(''default'', J_null)] else []) @ [(''name'', J_string n)])) flds) =
    map (\<lambda>(n, f). node_names f) flds"
    unfolding map_map
  proof (rule map_cong [OF refl])
    fix x assume x: "x \<in> set flds"
    obtain n f where nf: "x = (n, f)" by (cases x)
    then have "defined_names (node_type ds f) = node_names f"
      using RecordNode.IH [OF x, of f] RecordNode.prems x by fastforce
    then show "(defined_names \<circ> (\<lambda>(n, f). J_object ((''type'', node_type ds f) #
        (if is_optional f then [(''default'', J_null)] else []) @ [(''name'', J_string n)]))) x =
      (\<lambda>(n, f). node_names f) x"
      using field_defined_names [of ds f n] nf by (simp only: comp_def prod.case)
  qed
  then show ?case by (simp only: node_type.simps record_defined_names node_names.simps)
qed simp_all

lemma node_type_not_array: "\<not> is_optional n \<Longrightarrow> node_type ds n \<noteq> J_array bs"
  by (cases n) simp_all

lemma list_all2_map_same: "list_all2 P (map f xs) (map g xs) \<longleftrightarrow> (\<forall>x \<in> set xs. P (f x) (g x))"
  by (induction xs) auto

abbreviation field_members :: "(int \<Rightarrow> int) \<Rightarrow> string \<times> avro_node \<Rightarrow> members" where
  "field_members ds \<equiv> (\<lambda>(n, f). (''type'', node_type ds f) #
     (if is_optional f then [(''default'', J_null)] else []) @ [(''name'', J_string n)])"

lemma node_type_record:
  "node_type ds (RecordNode name flds) = J_object [(''type'', J_string ''record''), (''name'', J_string name),
     (''fields'', J_array (map J_object (map (field_members ds) flds)))]"
  by (simp add: comp_def case_prod_unfold)

lemma map_of_field_members:
  "map_of (field_members ds nf) ''name'' = Some (J_string (fst nf))"
  "map_of (field_members ds nf) ''type'' = Some (node_type ds (snd nf))"
  by (simp_all add: case_prod_unfold)

definition decimal_ok :: "(int \<Rightarrow> int) \<Rightarrow> bool" where
  "decimal_ok ds \<longleftrightarrow> (\<forall>p. 0 < p \<and> p \<le> 38 \<longrightarrow> 0 < ds p \<and> 10 ^ nat p \<le> (2 :: int) ^ nat (8 * ds p - 1))"

lemma schema_doc_node:
  assumes "decimal_ok ds"
  shows "avro_node_ok n \<Longrightarrow> schema_doc (node_type ds n)"
proof (induction n)
  case (DecimalNode p q)
  then show ?case
    using assms decimal_name [of p q] unfolding decimal_ok_def
    by (auto intro!: schema_doc.fixed simp: logical_ok_def logical_of_def)
next
  case UuidNode
  show ?case by (auto intro!: schema_doc.fixed simp: logical_ok_def logical_of_def avro_name_def name_char_def is_digit_def)
next
  case (OptionalNode child)
  then show ?case using node_type_not_named [of ds child] node_type_not_array [of child ds]
    by (auto intro!: schema_doc.optional)
next
  case (ArrayNode element)
  then show ?case by (auto intro!: schema_doc.array_of)
next
  case (RecordNode name flds)
  have "list_all2 (\<lambda>fm (name, t). map_of fm ''name'' = Some (J_string name) \<and> map_of fm ''type'' = Some t \<and>
      avro_name name \<and> schema_doc t) (map (field_members ds) flds) (map (\<lambda>(n, f). (n, node_type ds f)) flds)"
    unfolding list_all2_map_same using RecordNode by (fastforce simp: map_of_field_members)
  then show ?case
    using RecordNode.prems unfolding node_type_record
    by (intro schema_doc.record_of [where nts = "map (\<lambda>(n, f). (n, node_type ds f)) flds" and n = name])
      (auto simp: comp_def case_prod_unfold)
qed (auto intro!: schema_doc.primitive schema_doc.logical simp: logical_of_def)

context avro
begin

lemma decimals: "decimal_ok (decimal_size lib)"
  using decimal_size_fits by (simp add: decimal_ok_def)

lemma compile_node:
  assumes "avro_node_ok n" "distinct (node_names n)"
  shows "bindE (ToJsonString (decimal_size lib) n) (compile lib) = Inr (node_type (decimal_size lib) n)"
  using assms compile_doc [OF schema_doc_node [OF decimals assms(1)]]
  by (simp add: ToJsonString_eq defined_names_node)

lemma initial_record:
  "make_datum lib (node_type ds (RecordNode name flds)) =
     D_record (map (\<lambda>(n, f). (n, make_datum lib (node_type ds f))) flds)"
proof -
  have "list_all2 (\<lambda>fm (name, t). map_of fm ''name'' = Some (J_string name) \<and> map_of fm ''type'' = Some t)
      (map (field_members ds) flds) (map (\<lambda>(n, f). (n, node_type ds f)) flds)"
    unfolding list_all2_map_same by (auto simp: map_of_field_members)
  then show ?thesis
    unfolding node_type_record
    by (subst make_record [where fms = "map (field_members ds) flds"]) (auto simp: comp_def case_prod_unfold)
qed

lemma initial_optional:
  "make_datum lib (node_type ds (OptionalNode n)) = D_union [J_string ''null'', node_type ds n] 0 D_null"
  by (simp add: make_union make_null)

lemma initial_array: "make_datum lib (node_type ds (ArrayNode n)) = D_array (node_type ds n) []"
  by (simp add: make_array)

end

end
