(* ===== verification/Manifest_Avro.thy ===== *)
theory Manifest_Avro
  imports Avro_Schema
begin

text \<open>
  Manifest files (\<open>manifest_entry.h\<close>, \<open>manifest_entry.cpp\<close>): the schema of a manifest entry for a
  partition specification, serialization of entries into generic Avro datums, deserialization
  under a configuration that selects the fields, the validation of a partition specification
  against the schema of a file, and reading and writing of whole manifests.  A reference to a
  member of a datum that is assigned through is a function that updates the member.  The stream
  of the file is what the Avro library reads and writes; Parquet metadata is the list of
  the offsets of its row groups.
\<close>

section \<open>Configuration and manifest\<close>

record data_file_config =
  extract_content :: bool
  extract_file_path :: bool
  extract_file_format :: bool
  extract_partition_tuple :: bool
  extract_record_count :: bool
  extract_file_size_in_bytes :: bool
  extract_column_sizes :: bool
  extract_value_counts :: bool
  extract_null_value_counts :: bool
  extract_nan_value_counts :: bool
  extract_distinct_counts :: bool
  extract_lower_bounds :: bool
  extract_upper_bounds :: bool
  extract_split_offsets :: bool
  extract_equality_ids :: bool
  extract_sort_order_id :: bool
  extract_referenced_data_file :: bool
  extract_content_offset :: bool
  extract_content_size_in_bytes :: bool

definition DataFileDeserializerConfig :: data_file_config where
  "DataFileDeserializerConfig =
     \<lparr>extract_content = True, extract_file_path = True, extract_file_format = True, extract_partition_tuple = True,
      extract_record_count = True, extract_file_size_in_bytes = True, extract_column_sizes = True,
      extract_value_counts = True, extract_null_value_counts = True, extract_nan_value_counts = True,
      extract_distinct_counts = True, extract_lower_bounds = True, extract_upper_bounds = True,
      extract_split_offsets = True, extract_equality_ids = True, extract_sort_order_id = True,
      extract_referenced_data_file = True, extract_content_offset = True, extract_content_size_in_bytes = True\<rparr>"

record manifest_entry_config =
  extract_status :: bool
  extract_snapshot_id :: bool
  extract_sequence_number :: bool
  extract_file_sequence_number :: bool
  datafile_config :: data_file_config

definition ManifestEntryDeserializerConfig :: manifest_entry_config where
  "ManifestEntryDeserializerConfig =
     \<lparr>extract_status = True, extract_snapshot_id = True, extract_sequence_number = True,
      extract_file_sequence_number = True, datafile_config = DataFileDeserializerConfig\<rparr>"

record manifest =
  m_metadata :: avro_metadata
  m_entries :: "manifest_entry list"

definition string_bytes :: "string \<Rightarrow> byte list" where
  "string_bytes s = map (\<lambda>c. of_nat (of_char c)) s"

definition SetMetadata :: "string \<Rightarrow> string \<Rightarrow> manifest \<Rightarrow> manifest" where
  "SetMetadata key value m = m\<lparr>m_metadata := omap_alter key [] (\<lambda>_. string_bytes value) (m_metadata m)\<rparr>"

definition UpdateMetadataByContent :: "file_content \<Rightarrow> manifest \<Rightarrow> manifest" where
  "UpdateMetadataByContent content m =
     SetMetadata ''content'' (case content of kData \<Rightarrow> ''data'' | kEqualityDeletes \<Rightarrow> ''deletes'' | kPositionDeletes \<Rightarrow> ''deletes'') m"

text \<open>The file offsets of the row groups, \<open>None\<close> for a row group that is not there.\<close>

definition SplitOffsets :: "int option list \<Rightarrow> int list result" where
  "SplitOffsets row_groups =
     bindE (mapE (\<lambda>rg. case rg of None \<Rightarrow> Inl (Runtime_error ''No row group for id '') | Some file_offset \<Rightarrow> Inr file_offset)
       row_groups) (\<lambda>split_offsets. Inr (sort split_offsets))"

text \<open>\<open>metadata[i]\<close> past the end of the vector is undefined.\<close>

fun FillManifestSplitOffsets :: "manifest_entry list \<Rightarrow> int option list list \<Rightarrow> manifest_entry list result" where
  "FillManifestSplitOffsets [] metadata = Inr []"
| "FillManifestSplitOffsets (e # data) [] = Inl (Undefined ''metadata[i]'')"
| "FillManifestSplitOffsets (e # data) (meta # metadata) =
     bindE (SplitOffsets meta) (\<lambda>offsets.
     bindE (FillManifestSplitOffsets data metadata) (\<lambda>rest.
       Inr (e\<lparr>me_data_file := (me_data_file e)\<lparr>df_split_offsets := offsets\<rparr>\<rparr> # rest)))"

section \<open>Schemas\<close>

fun partition_node :: "itype \<Rightarrow> avro_node result" where
  "partition_node (DecimalType precision scale) = Inr (DecimalNode precision scale)"
| "partition_node (FixedType sz) = Inr (FixedNode sz)"
| "partition_node t =
     (case TypeId t of
        kBoolean \<Rightarrow> Inr BoolNode | kInt \<Rightarrow> Inr IntNode | kLong \<Rightarrow> Inr LongNode | kDate \<Rightarrow> Inr DateNode
      | kTime \<Rightarrow> Inr TimeNode | kTimestamp \<Rightarrow> Inr TimestampNode | kTimestamptz \<Rightarrow> Inr TimestamptzNode
      | kTimestampNs \<Rightarrow> Inr TimestampNsNode | kTimestamptzNs \<Rightarrow> Inr TimestamptzNsNode
      | kUuid \<Rightarrow> Inr UuidNode | kString \<Rightarrow> Inr StringNode | kBinary \<Rightarrow> Inr BytesNode
      | kFloat \<Rightarrow> Inr FloatNode | kDouble \<Rightarrow> Inr DoubleNode
      | kDecimal \<Rightarrow> Inl (Undefined ''static_pointer_cast'') | kFixed \<Rightarrow> Inl (Undefined ''static_pointer_cast'')
      | _ \<Rightarrow> Inl (Runtime_error ''Unexpected data iceberg::TypeID in partitioning: ''))"

definition MakeSchemaPartition :: "partition_key_field list \<Rightarrow> avro_node result" where
  "MakeSchemaPartition spec =
     bindE (mapE (\<lambda>field.
       case pkf_type field of
         None \<Rightarrow> Inl (Undefined ''field.type->TypeId()'')
       | Some t \<Rightarrow> bindE (partition_node t) (\<lambda>n. Inr (pkf_name field, OptionalNode n))) spec) (\<lambda>flds.
     Inr (RecordNode ''r102'' flds))"

definition map_node :: "string \<Rightarrow> avro_node \<Rightarrow> avro_node" where
  "map_node name value = OptionalNode (ArrayNode (RecordNode name [(''key'', IntNode), (''value'', value)]))"

definition field_if :: "bool \<Rightarrow> string \<Rightarrow> avro_node \<Rightarrow> (string \<times> avro_node) list" where
  "field_if b name node = (if b then [(name, node)] else [])"

definition MakeSchemaDataFile :: "partition_key_field list \<Rightarrow> manifest_entry_config \<Rightarrow> avro_node result" where
  "MakeSchemaDataFile spec cfg =
     (let c = datafile_config cfg in
      bindE (MakeSchemaPartition spec) (\<lambda>partition.
      Inr (RecordNode ''r2'' (
        [(''content'', IntNode),
         (''file_path'', StringNode),
         (''file_format'', StringNode),
         (''record_count'', LongNode),
         (''file_size_in_bytes'', LongNode),
         (''equality_ids'', OptionalNode (ArrayNode IntNode)),
         (''referenced_data_file'', OptionalNode StringNode),
         (''content_offset'', OptionalNode LongNode),
         (''content_size_in_bytes'', OptionalNode LongNode)] @
        field_if (extract_column_sizes c) ''column_sizes'' (map_node ''k117_v118'' LongNode) @
        field_if (extract_value_counts c) ''value_counts'' (map_node ''k119_v120'' LongNode) @
        field_if (extract_null_value_counts c) ''null_value_counts'' (map_node ''k121_v122'' LongNode) @
        field_if (extract_lower_bounds c) ''lower_bounds'' (map_node ''k126_v127'' BytesNode) @
        field_if (extract_upper_bounds c) ''upper_bounds'' (map_node ''k129_v130'' BytesNode) @
        field_if (extract_nan_value_counts c) ''nan_value_counts'' (map_node ''k138_v139'' LongNode) @
        field_if (extract_distinct_counts c) ''distinct_counts'' (map_node ''k123_v124'' LongNode) @
        [(''split_offsets'', OptionalNode (ArrayNode LongNode)),
         (''sort_order_id'', OptionalNode IntNode),
         (''partition'', partition)]))))"

definition MakeSchemaManifestEntry :: "partition_key_field list \<Rightarrow> manifest_entry_config \<Rightarrow> avro_node result" where
  "MakeSchemaManifestEntry spec cfg =
     bindE (MakeSchemaDataFile spec cfg) (\<lambda>data_file.
     Inr (RecordNode ''manifest_entry''
       [(''status'', IntNode),
        (''snapshot_id'', OptionalNode LongNode),
        (''sequence_number'', OptionalNode LongNode),
        (''file_sequence_number'', OptionalNode LongNode),
        (''data_file'', data_file)]))"

definition AvroSchemaFromNode :: "'f avro_library \<Rightarrow> avro_node \<Rightarrow> json result" where
  "AvroSchemaFromNode lib node = bindE (ToJsonString (decimal_size lib) node) (compile lib)"

section \<open>Serialization\<close>

text \<open>\<open>selectBranch\<close> of a datum that is no union and \<open>value\<close> of a datum of another type are undefined.\<close>

fun selectBranch :: "'f avro_library \<Rightarrow> nat \<Rightarrow> datum \<Rightarrow> datum result" where
  "selectBranch lib branch (D_union bs cur d) =
     (if cur = branch then Inr (D_union bs cur d)
      else if branch < length bs then Inr (D_union bs branch (make_datum lib (bs ! branch)))
      else Inl (Undefined ''leafAt''))"
| "selectBranch lib branch _ = Inl (Undefined ''selectBranch'')"

fun at_value :: "(datum \<Rightarrow> datum result) \<Rightarrow> datum \<Rightarrow> datum result" where
  "at_value f (D_union bs n d) = bindE (at_value f d) (\<lambda>d'. Inr (D_union bs n d'))"
| "at_value f d = f d"

fun at_field :: "string \<Rightarrow> (datum \<Rightarrow> datum result) \<Rightarrow> (string \<times> datum) list \<Rightarrow> (string \<times> datum) list result" where
  "at_field name f [] = Inl (Runtime_error ''Invalid field name: '')"
| "at_field name f ((n, d) # fs) =
     (if n = name then bindE (f d) (\<lambda>d'. Inr ((n, d') # fs))
      else bindE (at_field name f fs) (\<lambda>fs'. Inr ((n, d) # fs')))"

text \<open>\<open>value<GenericRecord>()\<close> of a datum, updated in place.\<close>

definition at_record :: "((string \<times> datum) list \<Rightarrow> (string \<times> datum) list result) \<Rightarrow> datum \<Rightarrow> datum result" where
  "at_record f = at_value (\<lambda>d. case d of
     D_record fs \<Rightarrow> bindE (f fs) (\<lambda>fs'. Inr (D_record fs')) | _ \<Rightarrow> Inl (Undefined ''value<GenericRecord>''))"

text \<open>\<open>GetMember\<close> with the assignments that follow, in their order.\<close>

definition GetMembers :: "(string \<times> (datum \<Rightarrow> datum result)) list \<Rightarrow> (string \<times> datum) list \<Rightarrow> (string \<times> datum) list result" where
  "GetMembers = foldE (\<lambda>(key, serialize). at_field key serialize)"

definition SerializeBool :: "bool \<Rightarrow> datum \<Rightarrow> datum result" where
  "SerializeBool value result = Inr (D_bool value)"

definition SerializeInt :: "int \<Rightarrow> datum \<Rightarrow> datum result" where
  "SerializeInt value result = Inr (D_int L_none value)"

definition SerializeLong :: "int \<Rightarrow> datum \<Rightarrow> datum result" where
  "SerializeLong value result = Inr (D_long L_none value)"

definition SerializeString :: "string \<Rightarrow> datum \<Rightarrow> datum result" where
  "SerializeString value result = Inr (D_string L_none value)"

definition SerializeBytes :: "byte list \<Rightarrow> datum \<Rightarrow> datum result" where
  "SerializeBytes value result = Inr (D_bytes L_none value)"

definition put_bool :: "bool \<Rightarrow> datum \<Rightarrow> datum result" where
  "put_bool v d = (case d of D_bool _ \<Rightarrow> Inr (D_bool v) | _ \<Rightarrow> Inl (Undefined ''value<bool>''))"

definition put_int :: "int \<Rightarrow> datum \<Rightarrow> datum result" where
  "put_int v d = (case d of D_int l _ \<Rightarrow> Inr (D_int l v) | _ \<Rightarrow> Inl (Undefined ''value<int32_t>''))"

definition put_long :: "int \<Rightarrow> datum \<Rightarrow> datum result" where
  "put_long v d = (case d of D_long l _ \<Rightarrow> Inr (D_long l v) | _ \<Rightarrow> Inl (Undefined ''value<int64_t>''))"

definition put_float :: "32 word \<Rightarrow> datum \<Rightarrow> datum result" where
  "put_float v d = (case d of D_float _ \<Rightarrow> Inr (D_float v) | _ \<Rightarrow> Inl (Undefined ''value<float>''))"

definition put_double :: "64 word \<Rightarrow> datum \<Rightarrow> datum result" where
  "put_double v d = (case d of D_double _ \<Rightarrow> Inr (D_double v) | _ \<Rightarrow> Inl (Undefined ''value<double>''))"

definition put_fixed :: "byte list \<Rightarrow> datum \<Rightarrow> datum result" where
  "put_fixed v d = (case d of D_fixed l _ \<Rightarrow> Inr (D_fixed l v) | _ \<Rightarrow> Inl (Undefined ''value<GenericFixed>''))"

definition put_string :: "string \<Rightarrow> datum \<Rightarrow> datum result" where
  "put_string v d = (case d of D_string l _ \<Rightarrow> Inr (D_string l v) | _ \<Rightarrow> Inl (Undefined ''value<std::string>''))"

definition put_bytes :: "byte list \<Rightarrow> datum \<Rightarrow> datum result" where
  "put_bytes v d = (case d of D_bytes l _ \<Rightarrow> Inr (D_bytes l v) | _ \<Rightarrow> Inl (Undefined ''value<std::vector<uint8_t>>''))"

definition SerializeOptional :: "('a \<Rightarrow> datum \<Rightarrow> datum result) \<Rightarrow> 'f avro_library \<Rightarrow> 'a option \<Rightarrow> datum \<Rightarrow> datum result" where
  "SerializeOptional put lib value result =
     (case value of
        Some v \<Rightarrow> bindE (selectBranch lib 1 result) (at_value (put v))
      | None \<Rightarrow> selectBranch lib 0 result)"

definition SerializeOptionalBool :: "'f avro_library \<Rightarrow> bool option \<Rightarrow> datum \<Rightarrow> datum result" where
  "SerializeOptionalBool = SerializeOptional put_bool"

definition SerializeOptionalInt :: "'f avro_library \<Rightarrow> int option \<Rightarrow> datum \<Rightarrow> datum result" where
  "SerializeOptionalInt = SerializeOptional put_int"

definition SerializeOptionalLong :: "'f avro_library \<Rightarrow> int option \<Rightarrow> datum \<Rightarrow> datum result" where
  "SerializeOptionalLong = SerializeOptional put_long"

definition SerializeOptionalFloat :: "'f avro_library \<Rightarrow> 32 word option \<Rightarrow> datum \<Rightarrow> datum result" where
  "SerializeOptionalFloat = SerializeOptional put_float"

definition SerializeOptionalDouble :: "'f avro_library \<Rightarrow> 64 word option \<Rightarrow> datum \<Rightarrow> datum result" where
  "SerializeOptionalDouble = SerializeOptional put_double"

definition SerializeOptionalFixed :: "'f avro_library \<Rightarrow> byte list option \<Rightarrow> datum \<Rightarrow> datum result" where
  "SerializeOptionalFixed = SerializeOptional put_fixed"

definition SerializeOptionalString :: "'f avro_library \<Rightarrow> string option \<Rightarrow> datum \<Rightarrow> datum result" where
  "SerializeOptionalString = SerializeOptional put_string"

definition SerializeOptionalBytes :: "'f avro_library \<Rightarrow> byte list option \<Rightarrow> datum \<Rightarrow> datum result" where
  "SerializeOptionalBytes = SerializeOptional put_bytes"

text \<open>The elements are appended to the array of the selected branch; \<open>element_schema\<close> is the type of its items.\<close>

definition append_elements :: "(json \<Rightarrow> datum list result) \<Rightarrow> datum \<Rightarrow> datum result" where
  "append_elements elements d =
     (case d of
        D_array element_schema xs \<Rightarrow> bindE (elements element_schema) (\<lambda>ys. Inr (D_array element_schema (xs @ ys)))
      | _ \<Rightarrow> Inl (Undefined ''value<GenericArray>''))"

definition SerializeOptionalVectorInt :: "'f avro_library \<Rightarrow> int list \<Rightarrow> datum \<Rightarrow> datum result" where
  "SerializeOptionalVectorInt lib value result =
     (if value \<noteq> [] then
        bindE (selectBranch lib 1 result) (at_value (append_elements (\<lambda>_. Inr (map (D_int L_none) value))))
      else selectBranch lib 0 result)"

definition SerializeOptionalVectorLong :: "'f avro_library \<Rightarrow> int list \<Rightarrow> datum \<Rightarrow> datum result" where
  "SerializeOptionalVectorLong lib value result =
     (if value \<noteq> [] then
        bindE (selectBranch lib 1 result) (at_value (append_elements (\<lambda>_. Inr (map (D_long L_none) value))))
      else selectBranch lib 0 result)"

definition map_elements ::
  "('v \<Rightarrow> datum \<Rightarrow> datum result) \<Rightarrow> 'f avro_library \<Rightarrow> (int \<times> 'v) list \<Rightarrow> json \<Rightarrow> datum list result" where
  "map_elements serialize lib kvs element_schema =
     mapE (\<lambda>(k, v). at_record (GetMembers [(''key'', SerializeInt k), (''value'', serialize v)])
       (make_datum lib element_schema)) kvs"

definition SerializeOptionalMapIntLong :: "'f avro_library \<Rightarrow> (int \<times> int) list \<Rightarrow> datum \<Rightarrow> datum result" where
  "SerializeOptionalMapIntLong lib kvs result =
     (if kvs \<noteq> [] then
        bindE (selectBranch lib 1 result) (at_value (append_elements (map_elements SerializeLong lib kvs)))
      else selectBranch lib 0 result)"

definition SerializeOptionalMapIntBytes :: "'f avro_library \<Rightarrow> (int \<times> byte list) list \<Rightarrow> datum \<Rightarrow> datum result" where
  "SerializeOptionalMapIntBytes lib kvs result =
     (if kvs \<noteq> [] then
        bindE (selectBranch lib 1 result) (at_value (append_elements (map_elements SerializeBytes lib kvs)))
      else selectBranch lib 0 result)"

definition ExtractTypeFromPartitionSpec :: "partition_key_field list \<Rightarrow> string \<Rightarrow> itype option" where
  "ExtractTypeFromPartitionSpec spec name =
     (case find (\<lambda>elem. pkf_name elem = name) spec of None \<Rightarrow> None | Some elem \<Rightarrow> pkf_type elem)"

text \<open>\<open>std::get\<close> throws when the variant holds another alternative.\<close>

definition get_if_set :: "(avro_value \<Rightarrow> 'a option) \<Rightarrow> avro_value \<Rightarrow> 'a option result" where
  "get_if_set get value =
     (if value = V_null then Inr None
      else case get value of None \<Rightarrow> Inl (Runtime_error ''std::get: wrong index for variant'') | Some v \<Rightarrow> Inr (Some v))"

definition SerializePartitionValue :: "'f avro_library \<Rightarrow> itype \<Rightarrow> avro_value \<Rightarrow> datum \<Rightarrow> datum result" where
  "SerializePartitionValue lib type value member =
     (let id = TypeId type in
      if id = kBoolean then
        bindE (get_if_set (\<lambda>v. case v of V_bool b \<Rightarrow> Some b | _ \<Rightarrow> None) value) (\<lambda>v. SerializeOptionalBool lib v member)
      else if id \<in> {kInt, kDate} then
        bindE (get_if_set (\<lambda>v. case v of V_int n \<Rightarrow> Some (sint n) | _ \<Rightarrow> None) value) (\<lambda>v. SerializeOptionalInt lib v member)
      else if id = kFloat then
        bindE (get_if_set (\<lambda>v. case v of V_float x \<Rightarrow> Some x | _ \<Rightarrow> None) value) (\<lambda>v. SerializeOptionalFloat lib v member)
      else if id = kDouble then
        bindE (get_if_set (\<lambda>v. case v of V_double x \<Rightarrow> Some x | _ \<Rightarrow> None) value) (\<lambda>v. SerializeOptionalDouble lib v member)
      else if id = kBinary then
        bindE (get_if_set (\<lambda>v. case v of V_bytes bs \<Rightarrow> Some bs | _ \<Rightarrow> None) value) (\<lambda>v. SerializeOptionalBytes lib v member)
      else if id = kString then
        bindE (get_if_set (\<lambda>v. case v of V_string s \<Rightarrow> Some s | _ \<Rightarrow> None) value) (\<lambda>v. SerializeOptionalString lib v member)
      else if id \<in> {kLong, kTime, kTimestamp, kTimestamptz, kTimestampNs, kTimestamptzNs} then
        bindE (get_if_set (\<lambda>v. case v of V_long n \<Rightarrow> Some (sint n) | _ \<Rightarrow> None) value) (\<lambda>v. SerializeOptionalLong lib v member)
      else if id \<in> {kDecimal, kFixed, kUuid} then
        bindE (get_if_set (\<lambda>v. case v of V_fixed bs \<Rightarrow> Some bs | _ \<Rightarrow> None) value) (\<lambda>v. SerializeOptionalFixed lib v member)
      else Inl (Runtime_error '': internal error. Field has unexpected type ''))"

definition SerializePartition ::
  "'f avro_library \<Rightarrow> partition_key_field list \<Rightarrow> partition_tuple \<Rightarrow> datum \<Rightarrow> datum result" where
  "SerializePartition lib spec tuple =
     at_record (foldE (\<lambda>info record.
       if (pk_name info) \<in> fst ` set record then
         (case ExtractTypeFromPartitionSpec spec (pk_name info) of
            None \<Rightarrow> Inl (Runtime_error '': internal error. Field not found in partition_spec'')
          | Some type \<Rightarrow> at_field (pk_name info) (SerializePartitionValue lib type (pk_value info)) record)
       else Inr record) tuple)"

text \<open>\<open>static_cast\<close> of the enumerations to \<open>int\<close> and back; a number without a name in the enumeration
  is not followed any further.\<close>

definition content_number :: "file_content \<Rightarrow> int" where
  "content_number c = (case c of kData \<Rightarrow> 0 | kPositionDeletes \<Rightarrow> 1 | kEqualityDeletes \<Rightarrow> 2)"

definition content_of :: "int \<Rightarrow> file_content result" where
  "content_of n =
     (if n = 0 then Inr kData else if n = 1 then Inr kPositionDeletes else if n = 2 then Inr kEqualityDeletes
      else Inl (Undefined ''FileContent''))"

definition status_number :: "entry_status \<Rightarrow> int" where
  "status_number s = (case s of kExisting \<Rightarrow> 0 | kAdded \<Rightarrow> 1 | kDeleted \<Rightarrow> 2)"

definition status_of :: "int \<Rightarrow> entry_status result" where
  "status_of n =
     (if n = 0 then Inr kExisting else if n = 1 then Inr kAdded else if n = 2 then Inr kDeleted
      else Inl (Undefined ''Status''))"

definition data_file_members ::
  "'f avro_library \<Rightarrow> partition_key_field list \<Rightarrow> data_file \<Rightarrow> (string \<times> (datum \<Rightarrow> datum result)) list" where
  "data_file_members lib spec df =
     [(''record_count'', SerializeLong (df_record_count df)),
      (''file_size_in_bytes'', SerializeLong (df_file_size_in_bytes df)),
      (''split_offsets'', SerializeOptionalVectorLong lib (df_split_offsets df)),
      (''equality_ids'', SerializeOptionalVectorInt lib (df_equality_ids df)),
      (''file_format'', SerializeString (df_file_format df)),
      (''file_path'', SerializeString (df_file_path df)),
      (''content'', SerializeInt (content_number (df_content df))),
      (''referenced_data_file'', SerializeOptionalString lib (df_referenced_data_file df)),
      (''content_offset'', SerializeOptionalLong lib (df_content_offset df)),
      (''content_size_in_bytes'', SerializeOptionalLong lib (df_content_size_in_bytes df)),
      (''sort_order_id'', SerializeOptionalInt lib (df_sort_order_id df)),
      (''column_sizes'', SerializeOptionalMapIntLong lib (df_column_sizes df)),
      (''value_counts'', SerializeOptionalMapIntLong lib (df_value_counts df)),
      (''null_value_counts'', SerializeOptionalMapIntLong lib (df_null_value_counts df)),
      (''lower_bounds'', SerializeOptionalMapIntBytes lib (df_lower_bounds df)),
      (''upper_bounds'', SerializeOptionalMapIntBytes lib (df_upper_bounds df)),
      (''distinct_counts'', SerializeOptionalMapIntLong lib (df_distinct_counts df)),
      (''nan_value_counts'', SerializeOptionalMapIntLong lib (df_nan_value_counts df)),
      (''partition'', SerializePartition lib spec (df_partition_tuple df))]"

definition SerializeDataFile ::
  "'f avro_library \<Rightarrow> partition_key_field list \<Rightarrow> data_file \<Rightarrow> datum \<Rightarrow> datum result" where
  "SerializeDataFile lib spec df = at_record (GetMembers (data_file_members lib spec df))"

definition SerializeManifestEntry ::
  "'f avro_library \<Rightarrow> partition_key_field list \<Rightarrow> manifest_entry \<Rightarrow> datum \<Rightarrow> datum result" where
  "SerializeManifestEntry lib spec entry =
     at_record (GetMembers
       [(''status'', SerializeInt (status_number (me_status entry))),
        (''snapshot_id'', SerializeOptionalLong lib (me_snapshot_id entry)),
        (''sequence_number'', SerializeOptionalLong lib (me_sequence_number entry)),
        (''file_sequence_number'', SerializeOptionalLong lib (me_file_sequence_number entry)),
        (''data_file'', SerializeDataFile lib spec (me_data_file entry))])"

definition WriteManifestEntries ::
  "'f avro_library \<Rightarrow> manifest \<Rightarrow> partition_key_field list \<Rightarrow> 'f result" where
  "WriteManifestEntries lib m spec =
     bindE (MakeSchemaManifestEntry spec ManifestEntryDeserializerConfig) (\<lambda>node.
     bindE (AvroSchemaFromNode lib node) (\<lambda>schema.
     bindE (mapE (\<lambda>entry. SerializeManifestEntry lib spec entry (make_datum lib schema)) (m_entries m)) (\<lambda>datums.
     Inr (write_file lib schema (m_metadata m) datums))))"

section \<open>Deserialization\<close>

definition Datum_int :: "datum \<Rightarrow> int result" where
  "Datum_int datum = (case resolve datum of D_int _ n \<Rightarrow> Inr n | _ \<Rightarrow> Inl (Runtime_error '': unexpected datum type''))"

definition Datum_int64 :: "datum \<Rightarrow> int result" where
  "Datum_int64 datum = (case resolve datum of D_long _ n \<Rightarrow> Inr n | _ \<Rightarrow> Inl (Runtime_error '': unexpected datum type''))"

definition Datum_string :: "datum \<Rightarrow> string result" where
  "Datum_string datum = (case resolve datum of D_string _ s \<Rightarrow> Inr s | _ \<Rightarrow> Inl (Runtime_error '': unexpected datum type''))"

definition Datum_bytes :: "datum \<Rightarrow> byte list result" where
  "Datum_bytes datum = (case resolve datum of D_bytes _ bs \<Rightarrow> Inr bs | _ \<Rightarrow> Inr [])"

definition Datum_vector :: "(datum \<Rightarrow> 'a result) \<Rightarrow> datum \<Rightarrow> 'a list result" where
  "Datum_vector elem datum = (case resolve datum of D_array _ ds \<Rightarrow> mapE elem ds | _ \<Rightarrow> Inr [])"

definition Datum_optional :: "(datum \<Rightarrow> 'a result) \<Rightarrow> datum \<Rightarrow> 'a option result" where
  "Datum_optional value datum =
     (if resolve datum = D_null then Inr None else bindE (value datum) (\<lambda>v. Inr (Some v)))"

text \<open>
  The class \<open>ExtractError\<close> is marked by its name in the message.  A required field that is missing
  is such an error; an absent vector, optional or map is empty.  Any other exception becomes an
  \<open>ExtractError\<close> too.
\<close>

definition ExtractError :: "string \<Rightarrow> error" where
  "ExtractError m = Runtime_error (''ExtractError: '' @ m)"

definition is_ExtractError :: "error \<Rightarrow> bool" where
  "is_ExtractError e = (case e of Runtime_error m \<Rightarrow> starts_with m ''ExtractError: '' | _ \<Rightarrow> False)"

definition passes :: "error \<Rightarrow> bool" where
  "passes e \<longleftrightarrow> is_ExtractError e \<or> (case e of Undefined _ \<Rightarrow> True | _ \<Rightarrow> False)"

definition Extract_required :: "(datum \<Rightarrow> 'a result) \<Rightarrow> (string \<times> datum) list \<Rightarrow> string \<Rightarrow> 'a result" where
  "Extract_required deserialize datum name =
     (case map_of datum name of
        None \<Rightarrow> Inl (ExtractError '': field is missing'')
      | Some field \<Rightarrow> (case deserialize field of
          Inr v \<Rightarrow> Inr v
        | Inl e \<Rightarrow> Inl (if passes e then e else ExtractError (case e of Runtime_error m \<Rightarrow> m | _ \<Rightarrow> ''''))))"

definition Extract_container :: "'a \<Rightarrow> (datum \<Rightarrow> 'a result) \<Rightarrow> (string \<times> datum) list \<Rightarrow> string \<Rightarrow> 'a result" where
  "Extract_container no_value deserialize datum name =
     (case map_of datum name of
        None \<Rightarrow> Inr no_value
      | Some field \<Rightarrow> (case deserialize field of
          Inr v \<Rightarrow> Inr v
        | Inl e \<Rightarrow> Inl (if passes e then e else ExtractError ''Undefined Avro error in '')))"

definition Datum_pair ::
  "((string \<times> datum) list \<Rightarrow> string \<Rightarrow> 'a result) \<Rightarrow> ((string \<times> datum) list \<Rightarrow> string \<Rightarrow> 'b result) \<Rightarrow> datum \<Rightarrow> ('a \<times> 'b) result" where
  "Datum_pair first second datum =
     (case resolve datum of
        D_record record \<Rightarrow>
          bindE (first record ''key'') (\<lambda>a. bindE (second record ''value'') (\<lambda>b. Inr (a, b)))
      | _ \<Rightarrow> Inl (Runtime_error '': unexpected datum type''))"

definition Datum_map ::
  "((string \<times> datum) list \<Rightarrow> string \<Rightarrow> 'b result) \<Rightarrow> datum \<Rightarrow> (int \<times> 'b) list result" where
  "Datum_map second datum =
     bindE (Datum_vector (Datum_pair (Extract_required Datum_int) second) datum) (\<lambda>vec.
       Inr (fold (\<lambda>(key, value). omap_emplace key value) vec []))"

text \<open>One field of a partition tuple.\<close>

definition Datum_partition_field :: "string \<Rightarrow> datum \<Rightarrow> partition_key result" where
  "Datum_partition_field name datum =
     (case resolve datum of
        D_null \<Rightarrow> Inr (null_PartitionKey name)
      | D_int logical_type value \<Rightarrow>
          (case logical_type of
             L_none \<Rightarrow> mk_PartitionKey name (V_int (word_of_int value)) (Some (PrimitiveType kInt))
           | L_date \<Rightarrow> mk_PartitionKey name (V_int (word_of_int value)) (Some (PrimitiveType kDate))
           | _ \<Rightarrow> Inl (Runtime_error ''Unexpected logical type in avro for int: ''))
      | D_long logical_type value \<Rightarrow>
          (case logical_type of
             L_none \<Rightarrow> mk_PartitionKey name (V_long (word_of_int value)) (Some (PrimitiveType kLong))
           | L_timestamp_micros \<Rightarrow> mk_PartitionKey name (V_long (word_of_int value)) (Some (PrimitiveType kTimestamp))
           | L_timestamp_nanos \<Rightarrow> mk_PartitionKey name (V_long (word_of_int value)) (Some (PrimitiveType kTimestampNs))
           | L_time_micros \<Rightarrow> mk_PartitionKey name (V_long (word_of_int value)) (Some (PrimitiveType kTime))
           | _ \<Rightarrow> Inl (Runtime_error ''Unexpected logical type in avro for long: ''))
      | D_fixed logical_type bytes \<Rightarrow>
          (case logical_type of
             L_decimal precision scale \<Rightarrow>
               bindE (mk_DecimalType precision scale) (\<lambda>t. mk_PartitionKey name (V_fixed bytes) (Some t))
           | L_uuid \<Rightarrow> mk_PartitionKey name (V_fixed bytes) (Some (PrimitiveType kUuid))
           | _ \<Rightarrow> bindE (mk_FixedType (int (length bytes))) (\<lambda>t. mk_PartitionKey name (V_fixed bytes) (Some t)))
      | D_string logical_type s \<Rightarrow>
          bindE (ensure (logical_type = L_none) ''Unexpected logical type in avro: '') (\<lambda>_.
          mk_PartitionKey name (V_string s) (Some (PrimitiveType kString)))
      | D_bool b \<Rightarrow> mk_PartitionKey name (V_bool b) (Some (PrimitiveType kBoolean))
      | D_bytes logical_type bs \<Rightarrow>
          bindE (ensure (logical_type = L_none) ''Unexpected logical type in avro: '') (\<lambda>_.
          mk_PartitionKey name (V_bytes bs) (Some (PrimitiveType kBinary)))
      | D_float x \<Rightarrow> mk_PartitionKey name (V_float x) (Some (PrimitiveType kFloat))
      | D_double x \<Rightarrow> mk_PartitionKey name (V_double x) (Some (PrimitiveType kDouble))
      | _ \<Rightarrow> Inl (Runtime_error '': unexpected avro type ''))"

text \<open>The names of a record are distinct, so the result of \<open>std::sort\<close> does not depend on the algorithm.\<close>

definition Datum_PartitionTuple :: "datum \<Rightarrow> partition_tuple result" where
  "Datum_PartitionTuple datum =
     (case resolve datum of
        D_record record \<Rightarrow>
          bindE (mapE (\<lambda>(name, field). Datum_partition_field name field) record) (\<lambda>fields'.
            Inr (sort_key pk_name fields'))
      | _ \<Rightarrow> Inl (Runtime_error '': unexpected datum type''))"

definition ExtractIf ::
  "('d \<Rightarrow> string \<Rightarrow> 'a result) \<Rightarrow> 'd \<Rightarrow> string \<Rightarrow> (('a \<Rightarrow> 'a) \<Rightarrow> 'r \<Rightarrow> 'r) \<Rightarrow> bool \<Rightarrow> 'r \<Rightarrow> 'r result" where
  "ExtractIf extract datum name update cond r =
     (if cond then bindE (extract datum name) (\<lambda>v. Inr (update (\<lambda>_. v) r)) else Inr r)"

definition empty_data_file :: data_file where
  "empty_data_file =
     \<lparr>df_content = kData, df_file_path = '''', df_file_format = '''', df_partition_tuple = [], df_record_count = 0,
      df_file_size_in_bytes = 0, df_column_sizes = [], df_value_counts = [], df_null_value_counts = [],
      df_nan_value_counts = [], df_distinct_counts = [], df_lower_bounds = [], df_upper_bounds = [],
      df_key_metadata = [], df_split_offsets = [], df_equality_ids = [], df_sort_order_id = None,
      df_referenced_data_file = None, df_content_offset = None, df_content_size_in_bytes = None\<rparr>"

abbreviation Extract_int :: "(string \<times> datum) list \<Rightarrow> string \<Rightarrow> int result" where
  "Extract_int \<equiv> Extract_required Datum_int"

abbreviation Extract_int64 :: "(string \<times> datum) list \<Rightarrow> string \<Rightarrow> int result" where
  "Extract_int64 \<equiv> Extract_required Datum_int64"

abbreviation Extract_optional :: "(datum \<Rightarrow> 'a result) \<Rightarrow> (string \<times> datum) list \<Rightarrow> string \<Rightarrow> 'a option result" where
  "Extract_optional value \<equiv> Extract_container None (Datum_optional value)"

abbreviation Extract_vector :: "(datum \<Rightarrow> 'a result) \<Rightarrow> (string \<times> datum) list \<Rightarrow> string \<Rightarrow> 'a list result" where
  "Extract_vector elem \<equiv> Extract_container [] (Datum_vector elem)"

abbreviation Extract_counts :: "(string \<times> datum) list \<Rightarrow> string \<Rightarrow> (int \<times> int) list result" where
  "Extract_counts \<equiv> Extract_container [] (Datum_map Extract_int64)"

abbreviation Extract_bounds :: "(string \<times> datum) list \<Rightarrow> string \<Rightarrow> (int \<times> byte list) list result" where
  "Extract_bounds \<equiv> Extract_container [] (Datum_map (Extract_container [] Datum_bytes))"

definition DataFileDeserializer_Deserialize :: "data_file_config \<Rightarrow> datum \<Rightarrow> data_file result" where
  "DataFileDeserializer_Deserialize c datum =
     (case resolve datum of
        D_record record \<Rightarrow>
          bindE (ExtractIf (Extract_required Datum_string) record ''file_path'' df_file_path_update (extract_file_path c) empty_data_file) (\<lambda>df.
          bindE (ExtractIf (\<lambda>r n. bindE (Extract_int r n) content_of) record ''content'' df_content_update (extract_content c) df) (\<lambda>df.
          bindE (ExtractIf (Extract_required Datum_string) record ''file_format'' df_file_format_update (extract_file_format c) df) (\<lambda>df.
          bindE (ExtractIf Extract_int64 record ''record_count'' df_record_count_update (extract_record_count c) df) (\<lambda>df.
          bindE (ExtractIf Extract_int64 record ''file_size_in_bytes'' df_file_size_in_bytes_update (extract_file_size_in_bytes c) df) (\<lambda>df.
          bindE (ExtractIf (Extract_optional Datum_int) record ''sort_order_id'' df_sort_order_id_update (extract_sort_order_id c) df) (\<lambda>df.
          bindE (ExtractIf (Extract_optional Datum_string) record ''referenced_data_file'' df_referenced_data_file_update
            (extract_referenced_data_file c) df) (\<lambda>df.
          bindE (ExtractIf (Extract_optional Datum_int64) record ''content_offset'' df_content_offset_update
            (extract_content_offset c) df) (\<lambda>df.
          bindE (ExtractIf (Extract_optional Datum_int64) record ''content_size_in_bytes'' df_content_size_in_bytes_update
            (extract_content_size_in_bytes c) df) (\<lambda>df.
          bindE (ExtractIf Extract_counts record ''column_sizes'' df_column_sizes_update (extract_column_sizes c) df) (\<lambda>df.
          bindE (ExtractIf Extract_counts record ''value_counts'' df_value_counts_update (extract_value_counts c) df) (\<lambda>df.
          bindE (ExtractIf (Extract_vector Datum_int64) record ''split_offsets'' df_split_offsets_update (extract_split_offsets c) df) (\<lambda>df.
          bindE (ExtractIf Extract_counts record ''null_value_counts'' df_null_value_counts_update (extract_null_value_counts c) df) (\<lambda>df.
          bindE (ExtractIf Extract_bounds record ''lower_bounds'' df_lower_bounds_update (extract_lower_bounds c) df) (\<lambda>df.
          bindE (ExtractIf Extract_bounds record ''upper_bounds'' df_upper_bounds_update (extract_upper_bounds c) df) (\<lambda>df.
          bindE (ExtractIf (Extract_required Datum_PartitionTuple) record ''partition'' df_partition_tuple_update (extract_partition_tuple c) df) (\<lambda>df.
          bindE (ExtractIf Extract_counts record ''nan_value_counts'' df_nan_value_counts_update (extract_nan_value_counts c) df) (\<lambda>df.
          bindE (ExtractIf Extract_counts record ''distinct_counts'' df_distinct_counts_update (extract_distinct_counts c) df) (\<lambda>df.
          ExtractIf (Extract_vector Datum_int) record ''equality_ids'' df_equality_ids_update (extract_equality_ids c) df))))))))))))))))))
      | _ \<Rightarrow> Inl (Runtime_error '': data.type() is not record''))"

definition ManifestEntryDeserializer_Deserialize :: "manifest_entry_config \<Rightarrow> datum \<Rightarrow> manifest_entry result" where
  "ManifestEntryDeserializer_Deserialize c datum =
     (case resolve datum of
        D_record record \<Rightarrow>
          bindE (case map_of record ''data_file'' of
              Some field \<Rightarrow> DataFileDeserializer_Deserialize (datafile_config c) field
            | None \<Rightarrow> Inr empty_data_file) (\<lambda>df.
          bindE (ExtractIf (\<lambda>r n. bindE (Extract_int r n) status_of) record ''status'' me_status_update (extract_status c)
            \<lparr>me_status = kExisting, me_snapshot_id = None, me_sequence_number = None, me_file_sequence_number = None,
             me_data_file = df\<rparr>) (\<lambda>e.
          bindE (ExtractIf (Extract_optional Datum_int64) record ''snapshot_id'' me_snapshot_id_update (extract_snapshot_id c) e) (\<lambda>e.
          bindE (ExtractIf (Extract_optional Datum_int64) record ''sequence_number'' me_sequence_number_update
            (extract_sequence_number c) e) (\<lambda>e.
          ExtractIf (Extract_optional Datum_int64) record ''file_sequence_number'' me_file_sequence_number_update
            (extract_file_sequence_number c) e))))
      | _ \<Rightarrow> Inl (Runtime_error '': datum.type() is not record''))"

section \<open>Reading of manifests\<close>

text \<open>
  The nodes of a compiled schema: a record has its fields as named leaves, an array, map or union
  has leaves without names, whose \<open>nameAt\<close> is an error.
\<close>

definition record_leaves :: "json \<Rightarrow> (string \<times> json) list option" where
  "record_leaves root =
     (case root of
        J_object ms \<Rightarrow> if map_of ms ''type'' = Some (J_string ''record'') then Some (field_types ms) else None
      | _ \<Rightarrow> None)"

definition leaves :: "json \<Rightarrow> nat" where
  "leaves root =
     (case record_leaves root of
        Some flds \<Rightarrow> length flds
      | None \<Rightarrow> (case root of
          J_array bs \<Rightarrow> length bs
        | J_object ms \<Rightarrow>
            if map_of ms ''type'' = Some (J_string ''array'') then 1
            else if map_of ms ''type'' = Some (J_string ''map'') then 2 else 0
        | _ \<Rightarrow> 0))"

definition Find :: "json \<Rightarrow> string \<Rightarrow> json option result" where
  "Find root name =
     (case record_leaves root of
        Some flds \<Rightarrow> Inr (map_of flds name)
      | None \<Rightarrow> if leaves root = 0 then Inr None else Inl (Runtime_error ''nameAt''))"

definition ValidatePartitionSpec :: "partition_key_field list \<Rightarrow> json \<Rightarrow> unit result" where
  "ValidatePartitionSpec spec root =
     bindE (Find root ''data_file'') (\<lambda>data_file.
     case data_file of
       None \<Rightarrow> Inl (Runtime_error '': data_file is not found in avro.schema'')
     | Some data_file \<Rightarrow>
         bindE (Find data_file ''partition'') (\<lambda>p.
         case p of
           None \<Rightarrow> Inl (Runtime_error '': partition is not found in avro.schema'')
         | Some p \<Rightarrow>
             bindE (ensure (length spec = leaves p) '': partition_spec has '') (\<lambda>_.
             let names = (case record_leaves p of Some flds \<Rightarrow> map fst flds | None \<Rightarrow> []) in
             foldE (\<lambda>spec_field _. ensure (pkf_name spec_field \<in> set names) '': partition_spec has field '') spec ())))"

definition MakeAvroReader ::
  "'f avro_library \<Rightarrow> 'f \<Rightarrow> partition_key_field list \<Rightarrow> manifest_entry_config \<Rightarrow> bool \<Rightarrow>
   (json \<times> avro_metadata \<times> datum result list) result" where
  "MakeAvroReader lib file spec config use_reader_schema =
     (if use_reader_schema then
        bindE (MakeSchemaManifestEntry spec config) (\<lambda>node.
        bindE (AvroSchemaFromNode lib node) (\<lambda>schema. read_file lib file (Some schema)))
      else read_file lib file None)"

text \<open>The state of a \<open>ManifestEntryStream\<close>: what is left to read, and the configuration.\<close>

record manifest_entry_stream =
  st_datums :: "datum result list"
  st_config :: manifest_entry_config

definition ManifestEntriesStream ::
  "'f avro_library \<Rightarrow> 'f \<Rightarrow> partition_key_field list \<Rightarrow> manifest_entry_config \<Rightarrow> bool \<Rightarrow> bool \<Rightarrow> manifest_entry_stream result" where
  "ManifestEntriesStream lib content spec config use_reader_schema validate_partition_spec =
     bindE (MakeAvroReader lib content spec config use_reader_schema) (\<lambda>(schema, metadata, datums).
     bindE (if validate_partition_spec \<or> extract_partition_tuple (datafile_config config)
            then ValidatePartitionSpec spec schema else Inr ()) (\<lambda>_.
     Inr \<lparr>st_datums = datums, st_config = config\<rparr>))"

definition ReadNext :: "manifest_entry_stream \<Rightarrow> (manifest_entry option \<times> manifest_entry_stream) result" where
  "ReadNext st =
     (case st_datums st of
        [] \<Rightarrow> Inr (None, st)
      | d # ds \<Rightarrow>
          bindE d (\<lambda>datum.
          bindE (ManifestEntryDeserializer_Deserialize (st_config st) datum) (\<lambda>entry.
          Inr (Some entry, st\<lparr>st_datums := ds\<rparr>))))"

definition update_schema_id :: "(string \<Rightarrow> json option) \<Rightarrow> avro_metadata \<Rightarrow> avro_metadata result" where
  "update_schema_id parse_json metadata =
     (case (map_of metadata ''schema-id'', map_of metadata ''schema'') of
        (None, Some schema) \<Rightarrow>
          (case parse_json (c_str (bytes_string schema)) of
             Some (J_object ms) \<Rightarrow>
               bindE (member_at (J_object ms) ''schema-id'') (\<lambda>v.
               bindE (case v of J_int n \<Rightarrow> if int32 n then Inr n else Inl (Undefined ''GetInt()'') | _ \<Rightarrow> Inl (Undefined ''GetInt()'')) (\<lambda>n.
               Inr (omap_alter ''schema-id'' [] (\<lambda>_. string_bytes (to_string n)) metadata)))
           | _ \<Rightarrow> Inr metadata)
      | _ \<Rightarrow> Inr metadata)"

definition ReadManifestEntries ::
  "'f avro_library \<Rightarrow> (string \<Rightarrow> json option) \<Rightarrow> 'f \<Rightarrow> partition_key_field list \<Rightarrow> manifest_entry_config \<Rightarrow> bool \<Rightarrow> manifest result" where
  "ReadManifestEntries lib parse_json input spec config use_reader_schema =
     bindE (MakeAvroReader lib input spec config use_reader_schema) (\<lambda>(schema, metadata, datums).
     bindE (ValidatePartitionSpec spec schema) (\<lambda>_.
     bindE (update_schema_id parse_json (filter (\<lambda>(k, _). k \<noteq> ''avro.schema'' \<and> k \<noteq> ''avro.codec'') metadata)) (\<lambda>metadata.
     bindE (mapE (\<lambda>d. bindE d (ManifestEntryDeserializer_Deserialize config)) datums) (\<lambda>entries.
     Inr \<lparr>m_metadata = metadata, m_entries = entries\<rparr>))))"

end
