(* ===== verification/Manifest_Roundtrip.thy ===== *)
theory Manifest_Roundtrip
  imports Manifest_Avro
begin

text \<open>
  A manifest that is written by \<open>WriteManifestEntries\<close> is read back by \<open>ReadManifestEntries\<close>: the
  datums of an entry are given in closed form, writing produces them, they conform to the schema,
  and reading recovers from them the fields that the configuration selects.  The proofs rest on
  the contract of the Avro library only.
\<close>

section \<open>Datums of optional values\<close>

definition opt_datum :: "json \<Rightarrow> ('a \<Rightarrow> datum) \<Rightarrow> 'a option \<Rightarrow> datum" where
  "opt_datum t f v =
     (case v of None \<Rightarrow> D_union [J_string ''null'', t] 0 D_null | Some x \<Rightarrow> D_union [J_string ''null'', t] 1 (f x))"

definition none_if_empty :: "'a list \<Rightarrow> 'a list option" where
  "none_if_empty xs = (if xs = [] then None else Some xs)"

definition array_datum :: "json \<Rightarrow> ('a \<Rightarrow> datum) \<Rightarrow> 'a list \<Rightarrow> datum" where
  "array_datum t f xs = D_array t (map f xs)"

definition map_datum :: "('v \<Rightarrow> datum) \<Rightarrow> int \<times> 'v \<Rightarrow> datum" where
  "map_datum f kv = D_record [(''key'', D_int L_none (fst kv)), (''value'', f (snd kv))]"

lemma opt_datum_simps [simp]:
  "opt_datum t f None = D_union [J_string ''null'', t] 0 D_null"
  "opt_datum t f (Some x) = D_union [J_string ''null'', t] 1 (f x)"
  by (simp_all add: opt_datum_def)

lemma resolve_opt_datum [simp]:
  "resolve (opt_datum t f v) = (case v of None \<Rightarrow> D_null | Some x \<Rightarrow> resolve (f x))"
  by (simp add: opt_datum_def split: option.split)

lemma SerializeOptional_initial:
  assumes "\<And>x. v = Some x \<Longrightarrow> at_value (put x) (make_datum lib t) = Inr (f x)"
  shows "SerializeOptional put lib v (D_union [J_string ''null'', t] 0 D_null) = Inr (opt_datum t f v)"
  using assms by (cases v) (simp_all add: SerializeOptional_def)

lemma Deserialize_optional_datum:
  assumes "\<And>x. v = Some x \<Longrightarrow> resolve (f x) \<noteq> D_null" "\<And>x. v = Some x \<Longrightarrow> des (D_union bs 1 (f x)) = Inr x"
    and "bs = [J_string ''null'', t]"
  shows "Datum_optional des (opt_datum t f v) = Inr v"
  using assms by (cases v) (simp_all add: Datum_optional_def)

lemma Deserialize_vector_datum:
  assumes "\<And>x. x \<in> set xs \<Longrightarrow> des (f x) = Inr x"
  shows "Datum_vector des (opt_datum t (array_datum e f) (none_if_empty xs)) = Inr xs"
proof -
  have "mapE des (map f xs) = Inr xs"
    using assms by (induction xs) auto
  then show ?thesis
    by (simp add: Datum_vector_def none_if_empty_def array_datum_def)
qed

lemma fold_emplace: "omap (acc @ m) \<Longrightarrow> fold (\<lambda>(key, value). omap_emplace key value) m acc = acc @ m"
proof (induction m arbitrary: acc)
  case (Cons x m)
  obtain k v where x: "x = (k, v)" by (cases x)
  have "\<forall>k' \<in> fst ` set acc. k' < k"
    using Cons.prems x by (auto simp: omap_def sorted_wrt_append)
  then have "omap_emplace k v acc = acc @ [(k, v)]" by (rule omap_emplace_last)
  then show ?case using Cons.IH [of "acc @ [(k, v)]"] Cons.prems x by simp
qed simp

lemma Deserialize_map_datum:
  assumes "omap m" "\<And>x. second [(''key'', D_int L_none (fst x)), (''value'', f (snd x))] ''value'' = Inr (snd x)"
  shows "Datum_map second (opt_datum t (array_datum e (map_datum f)) (none_if_empty m)) = Inr m"
proof -
  have "Datum_vector (Datum_pair (Extract_required Datum_int) second)
      (opt_datum t (array_datum e (map_datum f)) (none_if_empty m)) = Inr m"
    by (rule Deserialize_vector_datum)
      (simp add: Datum_pair_def map_datum_def Extract_required_def Datum_int_def assms(2))
  then show ?thesis
    using assms(1) fold_emplace [of "[]" m] by (simp add: Datum_map_def)
qed

lemma value_of_pair [simp]:
  "Extract_required Datum_int64 [(''key'', d), (''value'', D_long l n)] ''value'' = Inr n"
  "Extract_container [] Datum_bytes [(''key'', d), (''value'', D_bytes l bs)] ''value'' = Inr bs"
  by (simp_all add: Extract_required_def Extract_container_def Datum_int64_def Datum_bytes_def)

section \<open>Partition values\<close>

definition value_datum :: "itype \<Rightarrow> avro_value \<Rightarrow> datum" where
  "value_datum t v =
     (case v of
        V_null \<Rightarrow> D_null
      | V_bool b \<Rightarrow> D_bool b
      | V_int n \<Rightarrow> D_int (if TypeId t = kDate then L_date else L_none) (sint n)
      | V_long n \<Rightarrow> D_long (case TypeId t of
          kTime \<Rightarrow> L_time_micros | kTimestamp \<Rightarrow> L_timestamp_micros | kTimestamptz \<Rightarrow> L_timestamp_micros
        | kTimestampNs \<Rightarrow> L_timestamp_nanos | kTimestamptzNs \<Rightarrow> L_timestamp_nanos | _ \<Rightarrow> L_none) (sint n)
      | V_float x \<Rightarrow> D_float x
      | V_double x \<Rightarrow> D_double x
      | V_string s \<Rightarrow> D_string L_none s
      | V_bytes bs \<Rightarrow> D_bytes L_none bs
      | V_fixed bs \<Rightarrow> D_fixed (case t of DecimalType p q \<Rightarrow> L_decimal p q | _ \<Rightarrow> L_uuid) bs)"

text \<open>The values of a partition field of type \<open>t\<close>, the bytes of fixed values with their length.\<close>

definition writable_value :: "(int \<Rightarrow> int) \<Rightarrow> itype \<Rightarrow> avro_value \<Rightarrow> bool" where
  "writable_value ds t v \<longleftrightarrow> TypeId t \<in> set (value_types v) \<and>
     (\<forall>bs. v = V_fixed bs \<longrightarrow> length bs = nat (case t of DecimalType p _ \<Rightarrow> ds p | _ \<Rightarrow> 16))"

text \<open>A time zone is not part of the Avro type, so such values come back as values without time zone.\<close>

definition zoned :: "itype \<Rightarrow> bool" where
  "zoned t \<longleftrightarrow> TypeId t \<in> {kTimestamptz, kTimestamptzNs}"

definition type_node :: "itype \<Rightarrow> avro_node" where
  "type_node t = (case partition_node t of Inr n \<Rightarrow> n | Inl _ \<Rightarrow> FixedNode 0)"

definition partition_type_ok :: "itype \<Rightarrow> bool" where
  "partition_type_ok t \<longleftrightarrow> partition_node t = Inr (type_node t) \<and> avro_node_ok (type_node t)"

lemma partition_type_okE:
  assumes "partition_type_ok t"
  obtains (decimal) p q where "t = DecimalType p q" "0 < p" "p \<le> 38" "0 \<le> q" "q \<le> p"
  | (primitive) i where "t = PrimitiveType i" "i \<in> {kBoolean, kInt, kLong, kFloat, kDouble, kDate, kTime, kTimestamp,
      kTimestamptz, kTimestampNs, kTimestamptzNs, kString, kUuid, kBinary}"
proof (cases t)
  case (PrimitiveType i)
  then show ?thesis using assms primitive [of i] by (cases i) (simp_all add: partition_type_ok_def type_node_def)
qed (use assms decimal in \<open>auto simp: partition_type_ok_def type_node_def\<close>)

lemma value_okE:
  assumes "writable_value ds t v"
  shows "v \<noteq> V_null"
  using assms by (auto simp: writable_value_def)

lemma type_ToString_ok: "partition_type_ok t \<Longrightarrow> \<exists>s. type_ToString t = Inr s"
  by (erule partition_type_okE) (auto simp: PrimitiveTypeToName_def kStringToPrimitiveTypeId_def)

lemma mk_PartitionKey_ok:
  assumes "partition_type_ok t" "writable_value ds t v"
  shows "mk_PartitionKey name v (Some t) = Inr \<lparr>pk_name = name, pk_value = v, pk_type = Some t\<rparr>"
  using type_ToString_ok [OF assms(1)] assms(2) value_okE [OF assms(2)]
  by (auto simp: mk_PartitionKey_def Validate_def writable_value_def)

lemma Deserialize_value:
  assumes "partition_type_ok t" "writable_value ds t v" "\<not> zoned t"
  shows "Datum_partition_field name (opt_datum j (value_datum t) (Some v)) =
    Inr \<lparr>pk_name = name, pk_value = v, pk_type = Some t\<rparr>"
  using assms(1)
proof (cases rule: partition_type_okE)
  case (decimal p q)
  with assms obtain bs where v: "v = V_fixed bs" by (cases v) (auto simp: writable_value_def)
  with decimal show ?thesis using mk_PartitionKey_ok [OF assms(1,2)]
    by (simp add: Datum_partition_field_def value_datum_def mk_DecimalType_def)
next
  case (primitive i)
  then show ?thesis using mk_PartitionKey_ok [OF assms(1,2), of name] assms(2,3)
    by (cases v) (auto simp: Datum_partition_field_def value_datum_def writable_value_def zoned_def)
qed

lemma type_node_simps:
  "type_node (DecimalType p q) = DecimalNode p q" "type_node (PrimitiveType kBoolean) = BoolNode"
  "type_node (PrimitiveType kInt) = IntNode" "type_node (PrimitiveType kLong) = LongNode"
  "type_node (PrimitiveType kFloat) = FloatNode" "type_node (PrimitiveType kDouble) = DoubleNode"
  "type_node (PrimitiveType kDate) = DateNode" "type_node (PrimitiveType kTime) = TimeNode"
  "type_node (PrimitiveType kTimestamp) = TimestampNode" "type_node (PrimitiveType kTimestamptz) = TimestamptzNode"
  "type_node (PrimitiveType kTimestampNs) = TimestampNsNode" "type_node (PrimitiveType kTimestamptzNs) = TimestamptzNsNode"
  "type_node (PrimitiveType kString) = StringNode" "type_node (PrimitiveType kUuid) = UuidNode"
  "type_node (PrimitiveType kBinary) = BytesNode"
  by (simp_all add: type_node_def)

lemma int32_sint: "int32 (sint (w :: 32 word))"
  using sint_range_size [of w] by (auto simp: int32_def word_size)

lemma int64_sint: "int64 (sint (w :: 64 word))"
  using sint_range_size [of w] by (auto simp: int64_def word_size)

definition same_kind :: "datum \<Rightarrow> datum \<Rightarrow> bool" where
  "same_kind d i = (case (d, i) of
     (D_bool _, D_bool _) \<Rightarrow> True | (D_int l _, D_int l' _) \<Rightarrow> l = l' | (D_long l _, D_long l' _) \<Rightarrow> l = l'
   | (D_float _, D_float _) \<Rightarrow> True | (D_double _, D_double _) \<Rightarrow> True
   | (D_string l _, D_string l' _) \<Rightarrow> l = l' | (D_bytes l _, D_bytes l' _) \<Rightarrow> l = l'
   | (D_fixed l bs, D_fixed l' bs') \<Rightarrow> l = l' \<and> length bs = length bs' | _ \<Rightarrow> False)"

context avro
begin

lemma initial_value:
  assumes "partition_type_ok t" "writable_value (decimal_size lib) t v"
  shows "same_kind (value_datum t v) (make_datum lib (node_type (decimal_size lib) (type_node t)))"
  using assms(1)
proof (cases rule: partition_type_okE)
  case (decimal p q)
  with assms obtain bs where v: "v = V_fixed bs" by (cases v) (auto simp: writable_value_def)
  define ms where "ms = [(''type'', J_string ''fixed''), (''size'', J_int (decimal_size lib p)),
     (''name'', J_string (''decimal_'' @ to_string p @ ''_'' @ to_string q)),
     (''logicalType'', J_string ''decimal''), (''precision'', J_int p), (''scale'', J_int q)]"
  obtain bs' where "make_datum lib (J_object ms) = D_fixed (logical_of ms) bs'" "length bs' = nat (decimal_size lib p)"
    using make_fixed [of ms] by (auto simp: ms_def)
  moreover have "logical_of ms = L_decimal p q" by (simp add: ms_def logical_of_def)
  ultimately show ?thesis
    using assms(2) decimal v by (simp add: type_node_simps same_kind_def value_datum_def writable_value_def ms_def)
next
  case (primitive i)
  show ?thesis
    using assms(2) primitive make_boolean make_int make_long make_float make_double make_string make_bytes
      make_logical_int [of "[(''type'', J_string ''int''), (''logicalType'', J_string ''date'')]"]
      make_logical_long [of "[(''type'', J_string ''long''), (''logicalType'', J_string ''time-micros'')]"]
      make_logical_long [of "[(''type'', J_string ''long''), (''logicalType'', J_string ''timestamp-micros''),
        (''adjust-to-utc'', J_bool False)]"]
      make_logical_long [of "[(''type'', J_string ''long''), (''logicalType'', J_string ''timestamp-micros''),
        (''adjust-to-utc'', J_bool True)]"]
      make_logical_long [of "[(''type'', J_string ''long''), (''logicalType'', J_string ''timestamp-nanos''),
        (''adjust-to-utc'', J_bool False)]"]
      make_logical_long [of "[(''type'', J_string ''long''), (''logicalType'', J_string ''timestamp-nanos''),
        (''adjust-to-utc'', J_bool True)]"]
      make_fixed [of "[(''type'', J_string ''fixed''), (''name'', J_string ''uuid_fixed''), (''size'', J_int 16),
       (''logicalType'', J_string ''uuid'')]" "''uuid_fixed''" 16]
    by (cases v) (auto simp: type_node_simps same_kind_def value_datum_def writable_value_def logical_of_def)
qed

lemma SerializePartitionValue_initial:
  assumes "partition_type_ok t" "v = V_null \<or> writable_value (decimal_size lib) t v"
    and "j = node_type (decimal_size lib) (type_node t)"
  shows "SerializePartitionValue lib t v (D_union [J_string ''null'', j] 0 D_null) =
    Inr (opt_datum j (value_datum t) (if v = V_null then None else Some v))"
proof (cases "v = V_null")
  case True
  with assms(1) show ?thesis
    by (cases rule: partition_type_okE)
      (auto simp: SerializePartitionValue_def get_if_set_def SerializeOptional_def SerializeOptionalBool_def
        SerializeOptionalInt_def SerializeOptionalFloat_def SerializeOptionalDouble_def SerializeOptionalBytes_def
        SerializeOptionalString_def SerializeOptionalLong_def SerializeOptionalFixed_def)
next
  case False
  with assms(2) have ok: "writable_value (decimal_size lib) t v" by simp
  have kind: "same_kind (value_datum t v) (make_datum lib j)"
    using initial_value [OF assms(1) ok] assms(3) by simp
  show ?thesis
    using ok kind False
    by (cases v; cases "make_datum lib j")
      (auto simp: SerializePartitionValue_def get_if_set_def writable_value_def same_kind_def value_datum_def
        SerializeOptionalBool_def SerializeOptionalInt_def SerializeOptionalFloat_def SerializeOptionalDouble_def
        SerializeOptionalBytes_def SerializeOptionalString_def SerializeOptionalLong_def SerializeOptionalFixed_def
        SerializeOptional_def put_bool_def put_int_def put_long_def put_float_def put_double_def put_string_def
        put_bytes_def put_fixed_def)
qed

lemma value_shape:
  assumes "partition_type_ok t" "v = V_null \<or> writable_value (decimal_size lib) t v"
    and "j = node_type (decimal_size lib) (type_node t)"
  shows "shape_ok (make_datum lib) (opt_datum j (value_datum t) (if v = V_null then None else Some v))
    (D_union [J_string ''null'', j] 0 D_null)"
proof (cases "v = V_null")
  case False
  with assms have "same_kind (value_datum t v) (make_datum lib j)" using initial_value by blast
  then show ?thesis using False
    by (cases v; cases "make_datum lib j") (auto simp: same_kind_def value_datum_def int32_sint int64_sint)
qed (simp add: make_null)

end

section \<open>Partition tuples\<close>

lemma at_field_map:
  assumes "distinct (map nm spec)" "f \<in> set spec" "w (g f) = Inr d"
  shows "at_field (nm f) w (map (\<lambda>f. (nm f, g f)) spec) = Inr (map (\<lambda>f'. (nm f', if nm f' = nm f then d else g f')) spec)"
  using assms(1,2)
proof (induction spec)
  case (Cons x spec)
  show ?case
  proof (cases "nm x = nm f")
    case True
    with Cons.prems have "x = f" by (auto simp: image_iff)
    moreover have "map (\<lambda>f'. (nm f', if nm f' = nm f then d else g f')) spec = map (\<lambda>f. (nm f, g f)) spec"
      using Cons.prems(1) True by (auto intro!: map_cong simp: image_iff)
    ultimately show ?thesis using assms(3) by simp
  next
    case False
    with Cons show ?thesis by auto
  qed
qed simp

text \<open>A fold that updates each named member once.\<close>

lemma foldE_members:
  assumes "distinct (map key ks)"
    and "\<And>k g'. k \<in> set ks \<Longrightarrow> (\<forall>f \<in> set spec. nm f = key k \<longrightarrow> g' f = g f) \<Longrightarrow>
      step k (map (\<lambda>f. (nm f, g' f)) spec) = Inr (map (\<lambda>f. (nm f, if nm f = key k then h f else g' f)) spec)"
  shows "foldE step ks (map (\<lambda>f. (nm f, g f)) spec) =
    Inr (map (\<lambda>f. (nm f, if nm f \<in> key ` set ks then h f else g f)) spec)"
  using assms
proof (induction ks arbitrary: g)
  case (Cons k ks)
  define g' where "g' = (\<lambda>f. if nm f = key k then h f else g f)"
  have "step k (map (\<lambda>f. (nm f, g f)) spec) = Inr (map (\<lambda>f. (nm f, g' f)) spec)"
    unfolding g'_def using Cons.prems(2) [of k g] by simp
  moreover have "foldE step ks (map (\<lambda>f. (nm f, g' f)) spec) =
      Inr (map (\<lambda>f. (nm f, if nm f \<in> key ` set ks then h f else g' f)) spec)"
  proof (rule Cons.IH)
    show "distinct (map key ks)" using Cons.prems(1) by simp
  next
    fix k' g'' assume k': "k' \<in> set ks" "\<forall>f \<in> set spec. nm f = key k' \<longrightarrow> g'' f = g' f"
    have "key k' \<noteq> key k" using Cons.prems(1) k'(1) by (auto simp: image_iff)
    then show "step k' (map (\<lambda>f. (nm f, g'' f)) spec) =
        Inr (map (\<lambda>f. (nm f, if nm f = key k' then h f else g'' f)) spec)"
      using k' by (intro Cons.prems(2)) (auto simp: g'_def)
  qed
  ultimately show ?case by (auto simp: g'_def intro!: map_cong)
qed simp

definition field_itype :: "partition_key_field \<Rightarrow> itype" where
  "field_itype f = the (pkf_type f)"

definition writable_spec :: "partition_key_field list \<Rightarrow> bool" where
  "writable_spec spec \<longleftrightarrow> distinct (map pkf_name spec) \<and>
     (\<forall>f \<in> set spec. avro_name (pkf_name f) \<and> pkf_type f = Some (field_itype f) \<and> partition_type_ok (field_itype f))"

definition partition_fields :: "partition_key_field list \<Rightarrow> (string \<times> avro_node) list" where
  "partition_fields spec = map (\<lambda>f. (pkf_name f, OptionalNode (type_node (field_itype f)))) spec"

lemma MakeSchemaPartition_eq: "writable_spec spec \<Longrightarrow> MakeSchemaPartition spec = Inr (RecordNode ''r102'' (partition_fields spec))"
proof -
  assume "writable_spec spec"
  then have "mapE (\<lambda>field. case pkf_type field of None \<Rightarrow> Inl (Undefined ''field.type->TypeId()'')
       | Some t \<Rightarrow> bindE (partition_node t) (\<lambda>n. Inr (pkf_name field, OptionalNode n))) spec = Inr (partition_fields spec)"
    unfolding partition_fields_def by (intro mapE_total) (auto simp: writable_spec_def partition_type_ok_def)
  then show ?thesis by (simp add: MakeSchemaPartition_def)
qed

definition writable_key :: "(int \<Rightarrow> int) \<Rightarrow> itype \<Rightarrow> partition_key \<Rightarrow> bool" where
  "writable_key ds t k \<longleftrightarrow>
     (if pk_value k = V_null then pk_type k = None
      else pk_type k = Some t \<and> writable_value ds t (pk_value k) \<and> \<not> zoned t)"

definition writable_tuple :: "(int \<Rightarrow> int) \<Rightarrow> partition_key_field list \<Rightarrow> partition_tuple \<Rightarrow> bool" where
  "writable_tuple ds spec tuple \<longleftrightarrow> sorted_wrt (<) (map pk_name tuple) \<and> pk_name ` set tuple = pkf_name ` set spec \<and>
     (\<forall>k \<in> set tuple. \<forall>f \<in> set spec. pkf_name f = pk_name k \<longrightarrow> writable_key ds (field_itype f) k)"

definition tuple_key :: "partition_tuple \<Rightarrow> string \<Rightarrow> partition_key" where
  "tuple_key tuple name = the (find (\<lambda>k. pk_name k = name) tuple)"

lemma tuple_key_in:
  assumes "distinct (map pk_name tuple)" "k \<in> set tuple"
  shows "tuple_key tuple (pk_name k) = k"
proof -
  obtain k' where "find (\<lambda>k'. pk_name k' = pk_name k) tuple = Some k'"
    using assms(2) by (cases "find (\<lambda>k'. pk_name k' = pk_name k) tuple") (auto simp: find_None_iff)
  moreover from this have "k' \<in> set tuple" "pk_name k' = pk_name k"
    by (auto simp: find_Some_iff)
  ultimately show ?thesis
    using assms by (auto simp: tuple_key_def distinct_map inj_on_def)
qed

definition value_if_set :: "avro_value \<Rightarrow> avro_value option" where
  "value_if_set v = (if v = V_null then None else Some v)"

definition partition_datum :: "(int \<Rightarrow> int) \<Rightarrow> partition_key_field list \<Rightarrow> partition_tuple \<Rightarrow> datum" where
  "partition_datum ds spec tuple = D_record (map (\<lambda>f. (pkf_name f,
     opt_datum (node_type ds (type_node (field_itype f))) (value_datum (field_itype f))
       (value_if_set (pk_value (tuple_key tuple (pkf_name f)))))) spec)"

lemma tuple_ok_distinct: "writable_tuple ds spec tuple \<Longrightarrow> distinct (map pk_name tuple)"
  by (auto simp: writable_tuple_def strict_sorted_iff)

lemma Deserialize_partition_datum:
  assumes "writable_spec spec" "writable_tuple ds spec tuple"
  shows "Datum_PartitionTuple (partition_datum ds spec tuple) = Inr tuple"
proof -
  let ?keys = "map (\<lambda>f. tuple_key tuple (pkf_name f)) spec"
  have dist: "distinct (map pk_name tuple)" using assms(2) by (rule tuple_ok_distinct)
  have key: "tuple_key tuple (pkf_name f) \<in> set tuple \<and> pk_name (tuple_key tuple (pkf_name f)) = pkf_name f"
    if "f \<in> set spec" for f
  proof -
    from that assms(2) obtain k where "k \<in> set tuple" "pk_name k = pkf_name f"
      unfolding writable_tuple_def by (metis imageE imageI)
    then show ?thesis using tuple_key_in [OF dist] by force
  qed
  have "Datum_partition_field (pkf_name f)
      (opt_datum (node_type ds (type_node (field_itype f))) (value_datum (field_itype f))
        (value_if_set (pk_value (tuple_key tuple (pkf_name f))))) = Inr (tuple_key tuple (pkf_name f))"
    if "f \<in> set spec" for f
  proof -
    let ?k = "tuple_key tuple (pkf_name f)"
    have "writable_key ds (field_itype f) ?k" "partition_type_ok (field_itype f)"
      using assms key [OF that] that by (auto simp: writable_tuple_def writable_spec_def)
    then show ?thesis
      using key [OF that] Deserialize_value [of "field_itype f" ds "pk_value ?k" "pkf_name f"]
      by (auto simp: writable_key_def value_if_set_def Datum_partition_field_def null_PartitionKey_def
          intro: partition_key.equality)
  qed
  then have "mapE (\<lambda>(name, field). Datum_partition_field name field) (map (\<lambda>f. (pkf_name f,
     opt_datum (node_type ds (type_node (field_itype f))) (value_datum (field_itype f))
       (value_if_set (pk_value (tuple_key tuple (pkf_name f)))))) spec) = Inr ?keys"
    by (induction spec) auto
  moreover have "sort_key pk_name ?keys = tuple"
  proof (rule map_sorted_distinct_set_unique)
    show set: "set (sort_key pk_name ?keys) = set tuple"
    proof
      show "set (sort_key pk_name ?keys) \<subseteq> set tuple" using key by auto
    next
      have "k \<in> set ?keys" if k: "k \<in> set tuple" for k
      proof -
        obtain f where "f \<in> set spec" "pkf_name f = pk_name k"
          using assms(2) k unfolding writable_tuple_def by (metis imageE imageI)
        then show ?thesis using tuple_key_in [OF dist k] by force
      qed
      then show "set tuple \<subseteq> set (sort_key pk_name ?keys)" by auto
    qed
    show "inj_on pk_name (set (sort_key pk_name ?keys) \<union> set tuple)"
      using dist set by (simp add: distinct_map)
    have "map pk_name ?keys = map pkf_name spec" using key by simp
    then have "distinct (map pk_name ?keys)" using assms(1) by (simp only: writable_spec_def)
    then show "distinct (map pk_name (sort_key pk_name ?keys))"
      by (simp only: distinct_map distinct_sort set_sort)
  qed (use dist assms(2) in \<open>auto simp: writable_tuple_def strict_sorted_iff\<close>)
  ultimately show ?thesis by (simp add: Datum_PartitionTuple_def partition_datum_def)
qed

context avro
begin

lemma initial_partition:
  "make_datum lib (node_type ds (RecordNode name (partition_fields spec))) =
     D_record (map (\<lambda>f. (pkf_name f, D_union [J_string ''null'', node_type ds (type_node (field_itype f))] 0 D_null)) spec)"
  unfolding initial_record partition_fields_def by (simp add: comp_def initial_optional del: node_type.simps(17))

lemma tuple_member_ok:
  assumes "writable_spec spec" "writable_tuple ds spec tuple" "k \<in> set tuple" "f \<in> set spec" "pkf_name f = pk_name k"
  shows "partition_type_ok (field_itype f)" "pk_value k = V_null \<or> writable_value ds (field_itype f) (pk_value k)"
proof -
  have "writable_key ds (field_itype f) k" using assms(2-5) by (auto simp: writable_tuple_def)
  then show "pk_value k = V_null \<or> writable_value ds (field_itype f) (pk_value k)" by (auto simp: writable_key_def split: if_splits)
qed (use assms in \<open>auto simp: writable_spec_def\<close>)

lemma find_spec_field:
  assumes "distinct (map pkf_name spec)" "f \<in> set spec"
  shows "ExtractTypeFromPartitionSpec spec (pkf_name f) = pkf_type f"
proof -
  obtain f' where f': "find (\<lambda>elem. pkf_name elem = pkf_name f) spec = Some f'"
    using assms(2) by (cases "find (\<lambda>elem. pkf_name elem = pkf_name f) spec") (auto simp: find_None_iff)
  then have "f' \<in> set spec" "pkf_name f' = pkf_name f" by (auto simp: find_Some_iff)
  then have "f' = f" using assms by (auto simp: distinct_map inj_on_def)
  with f' show ?thesis by (simp add: ExtractTypeFromPartitionSpec_def)
qed

lemma SerializePartition_initial:
  assumes "writable_spec spec" "writable_tuple (decimal_size lib) spec tuple"
  shows "SerializePartition lib spec tuple
      (make_datum lib (node_type (decimal_size lib) (RecordNode name (partition_fields spec)))) =
    Inr (partition_datum (decimal_size lib) spec tuple)"
proof -
  let ?ds = "decimal_size lib"
  let ?j = "\<lambda>f. node_type ?ds (type_node (field_itype f))"
  let ?h = "\<lambda>f. opt_datum (?j f) (value_datum (field_itype f)) (value_if_set (pk_value (tuple_key tuple (pkf_name f))))"
  let ?step = "\<lambda>info record.
       if (pk_name info) \<in> fst ` set record then
         (case ExtractTypeFromPartitionSpec spec (pk_name info) of
            None \<Rightarrow> Inl (Runtime_error '': internal error. Field not found in partition_spec'')
          | Some type \<Rightarrow> at_field (pk_name info) (SerializePartitionValue lib type (pk_value info)) record)
       else Inr record"
  have dist: "distinct (map pkf_name spec)" using assms(1) by (simp add: writable_spec_def)
  have "foldE ?step tuple (map (\<lambda>f. (pkf_name f, D_union [J_string ''null'', ?j f] 0 D_null)) spec) =
    Inr (map (\<lambda>f. (pkf_name f, if pkf_name f \<in> pk_name ` set tuple then ?h f
      else D_union [J_string ''null'', ?j f] 0 D_null)) spec)"
  proof (rule foldE_members)
    show "distinct (map pk_name tuple)" by (rule tuple_ok_distinct [OF assms(2)])
  next
    fix k g'
    assume k: "k \<in> set tuple" and g': "\<forall>f \<in> set spec. pkf_name f = pk_name k \<longrightarrow> g' f = D_union [J_string ''null'', ?j f] 0 D_null"
    obtain f where f: "f \<in> set spec" "pkf_name f = pk_name k"
      using assms(2) k unfolding writable_tuple_def by (metis imageE imageI)
    have key: "tuple_key tuple (pkf_name f) = k"
      using tuple_key_in [OF tuple_ok_distinct [OF assms(2)] k] f(2) by simp
    have type: "ExtractTypeFromPartitionSpec spec (pk_name k) = Some (field_itype f)"
      using find_spec_field [OF dist f(1)] assms(1) f by (auto simp: writable_spec_def)
    have w: "SerializePartitionValue lib (field_itype f) (pk_value k) (g' f) = Inr (?h f)"
      using SerializePartitionValue_initial [OF tuple_member_ok [OF assms k f(1,2)] refl] g' f key
      by (simp add: value_if_set_def)
    have same: "f' = f" if "f' \<in> set spec" "pkf_name f' = pk_name k" for f'
      using dist f that by (auto simp: distinct_map inj_on_def)
    have "pk_name k \<in> fst ` set (map (\<lambda>f. (pkf_name f, g' f)) spec)" using f by (force simp: image_iff)
    then have "?step k (map (\<lambda>f. (pkf_name f, g' f)) spec) =
      at_field (pkf_name f) (SerializePartitionValue lib (field_itype f) (pk_value k)) (map (\<lambda>f. (pkf_name f, g' f)) spec)"
      by (simp only: type f(2) if_True option.case)
    also have "\<dots> = Inr (map (\<lambda>f'. (pkf_name f', if pkf_name f' = pkf_name f then ?h f else g' f')) spec)"
      by (rule at_field_map [OF dist f(1)]) (rule w)
    also have "map (\<lambda>f'. (pkf_name f', if pkf_name f' = pkf_name f then ?h f else g' f')) spec =
      map (\<lambda>f'. (pkf_name f', if pkf_name f' = pk_name k then ?h f' else g' f')) spec"
      using same f(2) by (intro map_cong) auto
    finally show "?step k (map (\<lambda>f. (pkf_name f, g' f)) spec) =
      Inr (map (\<lambda>f'. (pkf_name f', if pkf_name f' = pk_name k then ?h f' else g' f')) spec)" .
  qed
  moreover have "pkf_name f \<in> pk_name ` set tuple" if "f \<in> set spec" for f
    using assms(2) that by (auto simp: writable_tuple_def)
  ultimately show ?thesis
    unfolding initial_partition SerializePartition_def
    by (simp add: at_record_def partition_datum_def cong: map_cong)
qed

lemma partition_shape:
  assumes "writable_spec spec" "writable_tuple (decimal_size lib) spec tuple"
  shows "shape_ok (make_datum lib) (partition_datum (decimal_size lib) spec tuple)
    (make_datum lib (node_type (decimal_size lib) (RecordNode name (partition_fields spec))))"
proof -
  have "shape_ok (make_datum lib)
      (opt_datum (node_type (decimal_size lib) (type_node (field_itype f))) (value_datum (field_itype f))
        (value_if_set (pk_value (tuple_key tuple (pkf_name f)))))
      (D_union [J_string ''null'', node_type (decimal_size lib) (type_node (field_itype f))] 0 D_null)"
    if "f \<in> set spec" for f
  proof -
    from that assms(2) obtain k where k: "k \<in> set tuple" "pk_name k = pkf_name f"
      unfolding writable_tuple_def by (metis imageE imageI)
    then have "tuple_key tuple (pkf_name f) = k"
      using tuple_key_in [OF tuple_ok_distinct [OF assms(2)] k(1)] by simp
    then show ?thesis
      using value_shape [OF tuple_member_ok [OF assms k(1) that k(2) [symmetric]] refl]
      by (simp add: value_if_set_def)
  qed
  then show ?thesis
    unfolding initial_partition partition_datum_def
    by (simp add: list_all2_map_same comp_def)
qed

end

section \<open>Manifest entries\<close>

definition vector_datum :: "(int \<Rightarrow> int) \<Rightarrow> avro_node \<Rightarrow> ('a \<Rightarrow> datum) \<Rightarrow> 'a list \<Rightarrow> datum" where
  "vector_datum ds e f xs = opt_datum (node_type ds (ArrayNode e)) (array_datum (node_type ds e) f) (none_if_empty xs)"

definition pair_node :: "string \<Rightarrow> avro_node \<Rightarrow> avro_node" where
  "pair_node name value = RecordNode name [(''key'', IntNode), (''value'', value)]"

definition counts_datum :: "(int \<Rightarrow> int) \<Rightarrow> string \<Rightarrow> (int \<times> int) list \<Rightarrow> datum" where
  "counts_datum ds name m = vector_datum ds (pair_node name LongNode) (map_datum (D_long L_none)) m"

definition bounds_datum :: "(int \<Rightarrow> int) \<Rightarrow> string \<Rightarrow> (int \<times> byte list) list \<Rightarrow> datum" where
  "bounds_datum ds name m = vector_datum ds (pair_node name BytesNode) (map_datum (D_bytes L_none)) m"

definition data_file_datum :: "(int \<Rightarrow> int) \<Rightarrow> partition_key_field list \<Rightarrow> data_file \<Rightarrow> datum" where
  "data_file_datum ds spec df = D_record
     [(''content'', D_int L_none (content_number (df_content df))),
      (''file_path'', D_string L_none (df_file_path df)),
      (''file_format'', D_string L_none (df_file_format df)),
      (''record_count'', D_long L_none (df_record_count df)),
      (''file_size_in_bytes'', D_long L_none (df_file_size_in_bytes df)),
      (''equality_ids'', vector_datum ds IntNode (D_int L_none) (df_equality_ids df)),
      (''referenced_data_file'', opt_datum (J_string ''string'') (D_string L_none) (df_referenced_data_file df)),
      (''content_offset'', opt_datum (J_string ''long'') (D_long L_none) (df_content_offset df)),
      (''content_size_in_bytes'', opt_datum (J_string ''long'') (D_long L_none) (df_content_size_in_bytes df)),
      (''column_sizes'', counts_datum ds ''k117_v118'' (df_column_sizes df)),
      (''value_counts'', counts_datum ds ''k119_v120'' (df_value_counts df)),
      (''null_value_counts'', counts_datum ds ''k121_v122'' (df_null_value_counts df)),
      (''lower_bounds'', bounds_datum ds ''k126_v127'' (df_lower_bounds df)),
      (''upper_bounds'', bounds_datum ds ''k129_v130'' (df_upper_bounds df)),
      (''nan_value_counts'', counts_datum ds ''k138_v139'' (df_nan_value_counts df)),
      (''distinct_counts'', counts_datum ds ''k123_v124'' (df_distinct_counts df)),
      (''split_offsets'', vector_datum ds LongNode (D_long L_none) (df_split_offsets df)),
      (''sort_order_id'', opt_datum (J_string ''int'') (D_int L_none) (df_sort_order_id df)),
      (''partition'', partition_datum ds spec (df_partition_tuple df))]"

definition entry_datum :: "(int \<Rightarrow> int) \<Rightarrow> partition_key_field list \<Rightarrow> manifest_entry \<Rightarrow> datum" where
  "entry_datum ds spec e = D_record
     [(''status'', D_int L_none (status_number (me_status e))),
      (''snapshot_id'', opt_datum (J_string ''long'') (D_long L_none) (me_snapshot_id e)),
      (''sequence_number'', opt_datum (J_string ''long'') (D_long L_none) (me_sequence_number e)),
      (''file_sequence_number'', opt_datum (J_string ''long'') (D_long L_none) (me_file_sequence_number e)),
      (''data_file'', data_file_datum ds spec (me_data_file e))]"

text \<open>The part of an entry that a configuration selects; \<open>key_metadata\<close> is not in the file.\<close>

definition selected_data_file :: "data_file_config \<Rightarrow> data_file \<Rightarrow> data_file" where
  "selected_data_file c df =
     \<lparr>df_content = (if extract_content c then df_content df else kData),
      df_file_path = (if extract_file_path c then df_file_path df else ''''),
      df_file_format = (if extract_file_format c then df_file_format df else ''''),
      df_partition_tuple = (if extract_partition_tuple c then df_partition_tuple df else []),
      df_record_count = (if extract_record_count c then df_record_count df else 0),
      df_file_size_in_bytes = (if extract_file_size_in_bytes c then df_file_size_in_bytes df else 0),
      df_column_sizes = (if extract_column_sizes c then df_column_sizes df else []),
      df_value_counts = (if extract_value_counts c then df_value_counts df else []),
      df_null_value_counts = (if extract_null_value_counts c then df_null_value_counts df else []),
      df_nan_value_counts = (if extract_nan_value_counts c then df_nan_value_counts df else []),
      df_distinct_counts = (if extract_distinct_counts c then df_distinct_counts df else []),
      df_lower_bounds = (if extract_lower_bounds c then df_lower_bounds df else []),
      df_upper_bounds = (if extract_upper_bounds c then df_upper_bounds df else []),
      df_key_metadata = [],
      df_split_offsets = (if extract_split_offsets c then df_split_offsets df else []),
      df_equality_ids = (if extract_equality_ids c then df_equality_ids df else []),
      df_sort_order_id = (if extract_sort_order_id c then df_sort_order_id df else None),
      df_referenced_data_file = (if extract_referenced_data_file c then df_referenced_data_file df else None),
      df_content_offset = (if extract_content_offset c then df_content_offset df else None),
      df_content_size_in_bytes = (if extract_content_size_in_bytes c then df_content_size_in_bytes df else None)\<rparr>"

definition selected_entry :: "manifest_entry_config \<Rightarrow> manifest_entry \<Rightarrow> manifest_entry" where
  "selected_entry c e =
     \<lparr>me_status = (if extract_status c then me_status e else kExisting),
      me_snapshot_id = (if extract_snapshot_id c then me_snapshot_id e else None),
      me_sequence_number = (if extract_sequence_number c then me_sequence_number e else None),
      me_file_sequence_number = (if extract_file_sequence_number c then me_file_sequence_number e else None),
      me_data_file = selected_data_file (datafile_config c) (me_data_file e)\<rparr>"

definition counts_map_ok :: "(int \<times> int) list \<Rightarrow> bool" where
  "counts_map_ok m \<longleftrightarrow> omap m \<and> (\<forall>(k, v) \<in> set m. int32 k \<and> int64 v)"

definition bounds_map_ok :: "(int \<times> byte list) list \<Rightarrow> bool" where
  "bounds_map_ok m \<longleftrightarrow> omap m \<and> (\<forall>(k, v) \<in> set m. int32 k)"

text \<open>The ranges of the integer types and the order of the maps, which the types of the code give, and a
  partition tuple that fits the specification.\<close>

definition writable_data_file :: "(int \<Rightarrow> int) \<Rightarrow> partition_key_field list \<Rightarrow> data_file \<Rightarrow> bool" where
  "writable_data_file ds spec df \<longleftrightarrow>
     int64 (df_record_count df) \<and> int64 (df_file_size_in_bytes df) \<and>
     counts_map_ok (df_column_sizes df) \<and> counts_map_ok (df_value_counts df) \<and> counts_map_ok (df_null_value_counts df) \<and>
     counts_map_ok (df_nan_value_counts df) \<and> counts_map_ok (df_distinct_counts df) \<and>
     bounds_map_ok (df_lower_bounds df) \<and> bounds_map_ok (df_upper_bounds df) \<and>
     list_all int64 (df_split_offsets df) \<and> list_all int32 (df_equality_ids df) \<and>
     pred_option int32 (df_sort_order_id df) \<and> pred_option int64 (df_content_offset df) \<and>
     pred_option int64 (df_content_size_in_bytes df) \<and> writable_tuple ds spec (df_partition_tuple df)"

definition writable_entry :: "(int \<Rightarrow> int) \<Rightarrow> partition_key_field list \<Rightarrow> manifest_entry \<Rightarrow> bool" where
  "writable_entry ds spec e \<longleftrightarrow>
     pred_option int64 (me_snapshot_id e) \<and> pred_option int64 (me_sequence_number e) \<and>
     pred_option int64 (me_file_sequence_number e) \<and> writable_data_file ds spec (me_data_file e)"

lemma Deserialize_counts: "counts_map_ok m \<Longrightarrow> Datum_map (Extract_required Datum_int64) (counts_datum ds name m) = Inr m"
  unfolding counts_datum_def vector_datum_def by (rule Deserialize_map_datum) (auto simp: counts_map_ok_def)

lemma Deserialize_bounds:
  "bounds_map_ok m \<Longrightarrow> Datum_map (Extract_container [] Datum_bytes) (bounds_datum ds name m) = Inr m"
  unfolding bounds_datum_def vector_datum_def by (rule Deserialize_map_datum) (auto simp: bounds_map_ok_def)

lemma Deserialize_simps:
  "Datum_int (D_int l n) = Inr n" "Datum_int64 (D_long l n) = Inr n" "Datum_string (D_string l s) = Inr s"
  "Datum_optional Datum_int64 (opt_datum t (D_long l) v) = Inr v"
  "Datum_optional Datum_int (opt_datum t (D_int l) v) = Inr v"
  "Datum_optional Datum_string (opt_datum t (D_string l) w) = Inr w"
  "Datum_vector Datum_int (vector_datum ds e (D_int l) xs) = Inr xs"
  "Datum_vector Datum_int64 (vector_datum ds e (D_long l) xs) = Inr xs"
  by (cases v; cases w; simp add: Datum_int_def Datum_int64_def Datum_string_def Datum_optional_def
      vector_datum_def Deserialize_vector_datum)+

lemma content_of_number [simp]: "content_of (content_number c) = Inr c"
  by (cases c) (simp_all add: content_of_def content_number_def)

lemma status_of_number [simp]: "status_of (status_number s) = Inr s"
  by (cases s) (simp_all add: status_of_def status_number_def)

lemma update_id:
  fixes r :: data_file and e :: manifest_entry
  shows
  "df_content_update (\<lambda>x. x) r = r" "df_file_path_update (\<lambda>x. x) r = r" "df_file_format_update (\<lambda>x. x) r = r"
  "df_partition_tuple_update (\<lambda>x. x) r = r" "df_record_count_update (\<lambda>x. x) r = r" "df_file_size_in_bytes_update (\<lambda>x. x) r = r"
  "df_column_sizes_update (\<lambda>x. x) r = r" "df_value_counts_update (\<lambda>x. x) r = r" "df_null_value_counts_update (\<lambda>x. x) r = r"
  "df_nan_value_counts_update (\<lambda>x. x) r = r" "df_distinct_counts_update (\<lambda>x. x) r = r" "df_lower_bounds_update (\<lambda>x. x) r = r"
  "df_upper_bounds_update (\<lambda>x. x) r = r" "df_split_offsets_update (\<lambda>x. x) r = r" "df_equality_ids_update (\<lambda>x. x) r = r"
  "df_sort_order_id_update (\<lambda>x. x) r = r" "df_referenced_data_file_update (\<lambda>x. x) r = r" "df_content_offset_update (\<lambda>x. x) r = r"
  "df_content_size_in_bytes_update (\<lambda>x. x) r = r" "me_status_update (\<lambda>x. x) e = e" "me_snapshot_id_update (\<lambda>x. x) e = e"
  "me_sequence_number_update (\<lambda>x. x) e = e" "me_file_sequence_number_update (\<lambda>x. x) e = e"
  by (cases r; cases e; simp)+

definition extracts :: "('d \<Rightarrow> string \<Rightarrow> 'a result) \<Rightarrow> 'd \<Rightarrow> string \<Rightarrow> 'a \<Rightarrow> bool" where
  "extracts extract d n v \<longleftrightarrow> extract d n = Inr v"

lemma ExtractIf_Inr:
  assumes "extracts extract d n v" "upd (\<lambda>x. x) r = r"
  shows "ExtractIf extract d n upd b r = Inr (upd (\<lambda>old. if b then v else old) r)"
  using assms by (simp add: ExtractIf_def extracts_def)

lemma extracted_fields:
  assumes "writable_spec spec" "writable_data_file ds spec df" "data_file_datum ds spec df = D_record fs"
  shows "extracts (Extract_required Datum_string) fs ''file_path'' (df_file_path df)"
    "extracts (\<lambda>r n. bindE (Extract_int r n) content_of) fs ''content'' (df_content df)"
    "extracts (Extract_required Datum_string) fs ''file_format'' (df_file_format df)"
    "extracts (Extract_int64) fs ''record_count'' (df_record_count df)"
    "extracts (Extract_int64) fs ''file_size_in_bytes'' (df_file_size_in_bytes df)"
    "extracts (Extract_optional Datum_int) fs ''sort_order_id'' (df_sort_order_id df)"
    "extracts (Extract_optional Datum_string) fs ''referenced_data_file'' (df_referenced_data_file df)"
    "extracts (Extract_optional Datum_int64) fs ''content_offset'' (df_content_offset df)"
    "extracts (Extract_optional Datum_int64) fs ''content_size_in_bytes'' (df_content_size_in_bytes df)"
    "extracts (Extract_counts) fs ''column_sizes'' (df_column_sizes df)"
    "extracts (Extract_counts) fs ''value_counts'' (df_value_counts df)"
    "extracts (Extract_vector Datum_int64) fs ''split_offsets'' (df_split_offsets df)"
    "extracts (Extract_counts) fs ''null_value_counts'' (df_null_value_counts df)"
    "extracts (Extract_bounds) fs ''lower_bounds'' (df_lower_bounds df)"
    "extracts (Extract_bounds) fs ''upper_bounds'' (df_upper_bounds df)"
    "extracts (Extract_required Datum_PartitionTuple) fs ''partition'' (df_partition_tuple df)"
    "extracts (Extract_counts) fs ''nan_value_counts'' (df_nan_value_counts df)"
    "extracts (Extract_counts) fs ''distinct_counts'' (df_distinct_counts df)"
    "extracts (Extract_vector Datum_int) fs ''equality_ids'' (df_equality_ids df)"
  using assms(2) Deserialize_partition_datum [OF assms(1), of ds "df_partition_tuple df"]
    assms(3) [unfolded data_file_datum_def datum.inject, symmetric]
  by (simp_all add: extracts_def Extract_required_def Extract_container_def Deserialize_simps Deserialize_counts Deserialize_bounds writable_data_file_def)

lemma bindE_first_cong: "r = r' \<Longrightarrow> bindE r f = bindE r' f"
  by simp

lemma DataFile_read_back:
  assumes "writable_spec spec" "writable_data_file ds spec df"
  shows "DataFileDeserializer_Deserialize c (data_file_datum ds spec df) = Inr (selected_data_file c df)"
proof -
  obtain fs where fs: "data_file_datum ds spec df = D_record fs" by (simp add: data_file_datum_def)
  show ?thesis
    unfolding fs DataFileDeserializer_Deserialize_def
    by (simp add: extracted_fields [OF assms fs, THEN ExtractIf_Inr] update_id empty_data_file_def selected_data_file_def
        cong: bindE_first_cong)
qed

lemma ManifestEntry_read_back:
  assumes "writable_spec spec" "writable_entry ds spec e"
  shows "ManifestEntryDeserializer_Deserialize c (entry_datum ds spec e) = Inr (selected_entry c e)"
proof -
  obtain fs where fs: "entry_datum ds spec e = D_record fs" by (simp add: entry_datum_def)
  note look = fs [unfolded entry_datum_def datum.inject, symmetric]
  have fields:
    "extracts (\<lambda>r n. bindE (Extract_int r n) status_of) fs ''status'' (me_status e)"
    "extracts (Extract_optional Datum_int64) fs ''snapshot_id'' (me_snapshot_id e)"
    "extracts (Extract_optional Datum_int64) fs ''sequence_number'' (me_sequence_number e)"
    "extracts (Extract_optional Datum_int64) fs ''file_sequence_number'' (me_file_sequence_number e)"
    by (simp_all add: extracts_def look Extract_required_def Extract_container_def Deserialize_simps)
  have "map_of fs ''data_file'' = Some (data_file_datum ds spec (me_data_file e))" by (simp add: look)
  then show ?thesis
    using DataFile_read_back [OF assms(1), of ds "me_data_file e" "datafile_config c"] assms(2)
    unfolding fs ManifestEntryDeserializer_Deserialize_def
    by (simp add: fields [THEN ExtractIf_Inr] update_id writable_entry_def selected_entry_def cong: bindE_first_cong)
qed

section \<open>Writing\<close>

definition data_file_fields :: "partition_key_field list \<Rightarrow> (string \<times> avro_node) list" where
  "data_file_fields spec =
     [(''content'', IntNode), (''file_path'', StringNode), (''file_format'', StringNode), (''record_count'', LongNode),
      (''file_size_in_bytes'', LongNode), (''equality_ids'', OptionalNode (ArrayNode IntNode)),
      (''referenced_data_file'', OptionalNode StringNode), (''content_offset'', OptionalNode LongNode),
      (''content_size_in_bytes'', OptionalNode LongNode),
      (''column_sizes'', OptionalNode (ArrayNode (pair_node ''k117_v118'' LongNode))),
      (''value_counts'', OptionalNode (ArrayNode (pair_node ''k119_v120'' LongNode))),
      (''null_value_counts'', OptionalNode (ArrayNode (pair_node ''k121_v122'' LongNode))),
      (''lower_bounds'', OptionalNode (ArrayNode (pair_node ''k126_v127'' BytesNode))),
      (''upper_bounds'', OptionalNode (ArrayNode (pair_node ''k129_v130'' BytesNode))),
      (''nan_value_counts'', OptionalNode (ArrayNode (pair_node ''k138_v139'' LongNode))),
      (''distinct_counts'', OptionalNode (ArrayNode (pair_node ''k123_v124'' LongNode))),
      (''split_offsets'', OptionalNode (ArrayNode LongNode)), (''sort_order_id'', OptionalNode IntNode),
      (''partition'', RecordNode ''r102'' (partition_fields spec))]"

definition entry_fields :: "partition_key_field list \<Rightarrow> (string \<times> avro_node) list" where
  "entry_fields spec =
     [(''status'', IntNode), (''snapshot_id'', OptionalNode LongNode), (''sequence_number'', OptionalNode LongNode),
      (''file_sequence_number'', OptionalNode LongNode), (''data_file'', RecordNode ''r2'' (data_file_fields spec))]"

definition entry_node :: "partition_key_field list \<Rightarrow> avro_node" where
  "entry_node spec = RecordNode ''manifest_entry'' (entry_fields spec)"

definition all_statistics :: "manifest_entry_config \<Rightarrow> bool" where
  "all_statistics cfg \<longleftrightarrow> (let c = datafile_config cfg in
     extract_column_sizes c \<and> extract_value_counts c \<and> extract_null_value_counts c \<and> extract_lower_bounds c \<and>
     extract_upper_bounds c \<and> extract_nan_value_counts c \<and> extract_distinct_counts c)"

lemma MakeSchemaManifestEntry_eq:
  "writable_spec spec \<Longrightarrow> all_statistics cfg \<Longrightarrow> MakeSchemaManifestEntry spec cfg = Inr (entry_node spec)"
  by (simp add: MakeSchemaManifestEntry_def MakeSchemaDataFile_def MakeSchemaPartition_eq all_statistics_def Let_def
      field_if_def map_node_def entry_node_def entry_fields_def data_file_fields_def pair_node_def)

lemma all_statistics_default [simp]: "all_statistics ManifestEntryDeserializerConfig"
  by (simp add: all_statistics_def ManifestEntryDeserializerConfig_def DataFileDeserializerConfig_def)

definition partition_names :: "partition_key_field list \<Rightarrow> string list" where
  "partition_names spec = concat (map (\<lambda>f. node_names (type_node (field_itype f))) spec)"

lemma at_value_simple: "\<forall>bs n d'. d \<noteq> D_union bs n d' \<Longrightarrow> at_value f d = f d"
  by (cases d) auto

context avro
begin

abbreviation initial :: "avro_node \<Rightarrow> datum" where
  "initial n \<equiv> make_datum lib (node_type (decimal_size lib) n)"

lemma put_initial:
  "at_value (put_int n) (initial IntNode) = Inr (D_int L_none n)"
  "at_value (put_long n) (initial LongNode) = Inr (D_long L_none n)"
  "at_value (put_string s) (initial StringNode) = Inr (D_string L_none s)"
  using make_int make_long make_string by (auto simp: put_int_def put_long_def put_string_def)

lemma optional_initial:
  "SerializeOptionalInt lib v (initial (OptionalNode IntNode)) = Inr (opt_datum (J_string ''int'') (D_int L_none) v)"
  "SerializeOptionalLong lib v (initial (OptionalNode LongNode)) = Inr (opt_datum (J_string ''long'') (D_long L_none) v)"
  "SerializeOptionalString lib w (initial (OptionalNode StringNode)) = Inr (opt_datum (J_string ''string'') (D_string L_none) w)"
  unfolding initial_optional SerializeOptionalInt_def SerializeOptionalLong_def SerializeOptionalString_def
  using put_initial by (auto intro!: SerializeOptional_initial)

lemma append_initial:
  assumes "elements (node_type (decimal_size lib) e) = Inr (map f xs)"
  shows "(if xs \<noteq> [] then bindE (selectBranch lib 1 (initial (OptionalNode (ArrayNode e)))) (at_value (append_elements elements))
      else selectBranch lib 0 (initial (OptionalNode (ArrayNode e)))) = Inr (vector_datum (decimal_size lib) e f xs)"
  unfolding initial_optional vector_datum_def
  using assms initial_array [of "decimal_size lib" e]
  by (simp add: none_if_empty_def array_datum_def append_elements_def del: node_type.simps(18))

lemma map_elements_initial:
  assumes "\<And>v d. serialize v d = Inr (f v)"
  shows "map_elements serialize lib m (node_type (decimal_size lib) (pair_node name value)) = Inr (map (map_datum f) m)"
proof -
  have "initial (pair_node name value) = D_record [(''key'', initial IntNode), (''value'', initial value)]"
    unfolding pair_node_def initial_record by simp
  then show ?thesis
    unfolding map_elements_def
    by (intro mapE_total) (auto simp: at_record_def GetMembers_def SerializeInt_def assms map_datum_def)
qed

lemma vector_initial:
  "SerializeOptionalVectorInt lib xs (initial (OptionalNode (ArrayNode IntNode))) =
     Inr (vector_datum (decimal_size lib) IntNode (D_int L_none) xs)"
  "SerializeOptionalVectorLong lib xs (initial (OptionalNode (ArrayNode LongNode))) =
     Inr (vector_datum (decimal_size lib) LongNode (D_long L_none) xs)"
  "SerializeOptionalMapIntLong lib m (initial (OptionalNode (ArrayNode (pair_node name LongNode)))) =
     Inr (counts_datum (decimal_size lib) name m)"
  "SerializeOptionalMapIntBytes lib b (initial (OptionalNode (ArrayNode (pair_node name BytesNode)))) =
     Inr (bounds_datum (decimal_size lib) name b)"
  unfolding SerializeOptionalVectorInt_def SerializeOptionalVectorLong_def SerializeOptionalMapIntLong_def
    SerializeOptionalMapIntBytes_def counts_datum_def bounds_datum_def
  by (rule append_initial; simp add: map_elements_initial SerializeLong_def SerializeBytes_def)+

lemma SerializeDataFile_initial:
  assumes "writable_spec spec" "writable_data_file (decimal_size lib) spec df"
  shows "SerializeDataFile lib spec df (initial (RecordNode ''r2'' (data_file_fields spec))) =
    Inr (data_file_datum (decimal_size lib) spec df)"
proof -
  have "writable_tuple (decimal_size lib) spec (df_partition_tuple df)" using assms(2) by (simp add: writable_data_file_def)
  note written = optional_initial vector_initial SerializePartition_initial [OF assms(1) this]
  show ?thesis
    unfolding SerializeDataFile_def data_file_members_def initial_record data_file_fields_def data_file_datum_def
    by (simp add: at_record_def GetMembers_def SerializeInt_def SerializeLong_def SerializeString_def written
        del: node_type.simps cong: bindE_first_cong)
qed

lemma SerializeManifestEntry_initial:
  assumes "writable_spec spec" "writable_entry (decimal_size lib) spec e"
  shows "SerializeManifestEntry lib spec e (initial (entry_node spec)) = Inr (entry_datum (decimal_size lib) spec e)"
proof -
  have "writable_data_file (decimal_size lib) spec (me_data_file e)" using assms(2) by (simp add: writable_entry_def)
  note written = optional_initial SerializeDataFile_initial [OF assms(1) this]
  show ?thesis
    unfolding SerializeManifestEntry_def entry_node_def initial_record entry_fields_def entry_datum_def
    by (simp add: at_record_def GetMembers_def SerializeInt_def written del: node_type.simps cong: bindE_first_cong)
qed

end

context avro
begin

lemma shape_initial:
  "int32 n \<Longrightarrow> shape_ok (make_datum lib) (D_int L_none n) (initial IntNode)"
  "int64 n \<Longrightarrow> shape_ok (make_datum lib) (D_long L_none n) (initial LongNode)"
  "shape_ok (make_datum lib) (D_string L_none s) (initial StringNode)"
  "shape_ok (make_datum lib) (D_bytes L_none b) (initial BytesNode)"
  using make_int make_long make_string make_bytes by auto

lemma shape_optional:
  assumes "\<And>x. v = Some x \<Longrightarrow> shape_ok (make_datum lib) (f x) (initial n)"
    and "t = node_type (decimal_size lib) n"
  shows "shape_ok (make_datum lib) (opt_datum t f v) (initial (OptionalNode n))"
  unfolding initial_optional assms(2) using assms(1) by (cases v) (simp_all add: make_null)

lemma shape_vector:
  assumes "\<And>x. x \<in> set xs \<Longrightarrow> shape_ok (make_datum lib) (f x) (initial e)"
  shows "shape_ok (make_datum lib) (vector_datum (decimal_size lib) e f xs) (initial (OptionalNode (ArrayNode e)))"
  unfolding vector_datum_def
proof (rule shape_optional [OF _ refl])
  fix ys assume "none_if_empty xs = Some ys"
  then have "ys = xs" by (simp add: none_if_empty_def split: if_splits)
  then show "shape_ok (make_datum lib) (array_datum (node_type (decimal_size lib) e) f ys) (initial (ArrayNode e))"
    using assms unfolding initial_array by (simp add: array_datum_def list_all_iff)
qed

lemma shape_pair:
  assumes "int32 (fst kv)" "shape_ok (make_datum lib) (f (snd kv)) (initial value)"
  shows "shape_ok (make_datum lib) (map_datum f kv) (initial (pair_node name value))"
  unfolding pair_node_def initial_record using assms shape_initial(1) by (simp add: map_datum_def del: node_type.simps)

lemma shape_counts:
  "counts_map_ok m \<Longrightarrow> shape_ok (make_datum lib) (counts_datum (decimal_size lib) name m)
     (initial (OptionalNode (ArrayNode (pair_node name LongNode))))"
  unfolding counts_datum_def
  by (rule shape_vector, rule shape_pair) (auto simp: counts_map_ok_def shape_initial simp del: node_type.simps shape_ok.simps)

lemma shape_bounds:
  "bounds_map_ok m \<Longrightarrow> shape_ok (make_datum lib) (bounds_datum (decimal_size lib) name m)
     (initial (OptionalNode (ArrayNode (pair_node name BytesNode))))"
  unfolding bounds_datum_def
  by (rule shape_vector, rule shape_pair) (auto simp: bounds_map_ok_def shape_initial simp del: node_type.simps shape_ok.simps)

lemma shape_optional_values:
  "pred_option int32 v \<Longrightarrow> shape_ok (make_datum lib) (opt_datum (J_string ''int'') (D_int L_none) v) (initial (OptionalNode IntNode))"
  "pred_option int64 v \<Longrightarrow> shape_ok (make_datum lib) (opt_datum (J_string ''long'') (D_long L_none) v) (initial (OptionalNode LongNode))"
  "shape_ok (make_datum lib) (opt_datum (J_string ''string'') (D_string L_none) w) (initial (OptionalNode StringNode))"
  by (rule shape_optional; simp add: shape_initial [simplified])+

lemma shape_vector_values:
  "list_all int32 xs \<Longrightarrow> shape_ok (make_datum lib) (vector_datum (decimal_size lib) IntNode (D_int L_none) xs)
     (initial (OptionalNode (ArrayNode IntNode)))"
  "list_all int64 xs \<Longrightarrow> shape_ok (make_datum lib) (vector_datum (decimal_size lib) LongNode (D_long L_none) xs)
     (initial (OptionalNode (ArrayNode LongNode)))"
  by (rule shape_vector; simp add: shape_initial list_all_iff del: node_type.simps shape_ok.simps)+

lemma shape_record:
  assumes "list_all2 (\<lambda>(n, d) (n', f). n = n' \<and> shape_ok (make_datum lib) d (initial f)) fs flds"
  shows "shape_ok (make_datum lib) (D_record fs) (initial (RecordNode name flds))"
  unfolding initial_record using assms
  by (induction fs flds rule: list_all2_induct) auto

lemma int32_small [simp]: "int32 (content_number c)" "int32 (status_number s)"
  by (cases c; cases s; simp add: content_number_def status_number_def int32_def)+

lemma data_file_shape:
  assumes "writable_spec spec" "writable_data_file (decimal_size lib) spec df"
  shows "shape_ok (make_datum lib) (data_file_datum (decimal_size lib) spec df)
    (initial (RecordNode ''r2'' (data_file_fields spec)))"
  unfolding data_file_datum_def data_file_fields_def
  using assms(2) partition_shape [OF assms(1), of "df_partition_tuple df" "''r102''"]
  by (intro shape_record) (simp add: writable_data_file_def shape_initial shape_optional_values shape_vector_values
      shape_counts shape_bounds del: node_type.simps shape_ok.simps)

lemma entry_conforms:
  assumes "writable_spec spec" "writable_entry (decimal_size lib) spec e"
  shows "conforms lib (node_type (decimal_size lib) (entry_node spec)) (entry_datum (decimal_size lib) spec e)"
  unfolding conforms_def entry_datum_def entry_node_def entry_fields_def
  using assms data_file_shape [OF assms(1), of "me_data_file e"]
  by (intro shape_record) (simp add: writable_entry_def shape_initial shape_optional_values del: node_type.simps shape_ok.simps)

end

section \<open>Reading\<close>

lemma type_node_names:
  assumes "partition_type_ok t" "n \<in> set (node_names (type_node t))"
  shows "hd n = CHR ''d'' \<or> hd n = CHR ''u''"
  using assms(1)
proof (cases rule: partition_type_okE)
  case (decimal p q)
  then show ?thesis using assms(2) by (simp add: type_node_simps)
next
  case (primitive i)
  then show ?thesis using assms(2) by (auto simp: type_node_simps)
qed

lemma partition_names_hd: "writable_spec spec \<Longrightarrow> n \<in> set (partition_names spec) \<Longrightarrow> hd n = CHR ''d'' \<or> hd n = CHR ''u''"
  unfolding partition_names_def by (auto simp: writable_spec_def dest: type_node_names)

lemma entry_node_names:
  "node_names (entry_node spec) =
     [''manifest_entry'', ''r2'', ''k117_v118'', ''k119_v120'', ''k121_v122'', ''k126_v127'', ''k129_v130'', ''k138_v139'',
      ''k123_v124'', ''r102''] @ partition_names spec"
  by (simp add: entry_node_def entry_fields_def data_file_fields_def pair_node_def partition_fields_def partition_names_def
      comp_def)

lemma distinct_entry_names:
  assumes "writable_spec spec" "distinct (partition_names spec)"
  shows "distinct (node_names (entry_node spec))"
  using assms partition_names_hd [OF assms(1)] unfolding entry_node_names by (auto dest!: partition_names_hd [OF assms(1)])

lemma type_node_not_optional: "partition_type_ok t \<Longrightarrow> \<not> is_optional (type_node t)"
  by (erule partition_type_okE) (auto simp: type_node_simps)

lemma entry_node_ok: "writable_spec spec \<Longrightarrow> avro_node_ok (entry_node spec)"
proof -
  assume ok: "writable_spec spec"
  have "avro_node_ok (RecordNode ''r102'' (partition_fields spec))"
    using ok type_node_not_optional
    by (auto simp: writable_spec_def partition_fields_def comp_def avro_name_def name_char_def is_digit_def partition_type_ok_def)
  then show ?thesis
    unfolding entry_node_def entry_fields_def data_file_fields_def pair_node_def
    by (simp add: avro_name_def name_char_def is_digit_def)
qed

lemma record_leaves_node:
  "record_leaves (node_type ds (RecordNode name flds)) = Some (map (\<lambda>(n, f). (n, node_type ds f)) flds)"
proof -
  have "list_all2 (\<lambda>fm (name, t). map_of fm ''name'' = Some (J_string name) \<and> map_of fm ''type'' = Some t)
      (map (field_members ds) flds) (map (\<lambda>(n, f). (n, node_type ds f)) flds)"
    unfolding list_all2_map_same by (auto simp: map_of_field_members)
  then have "field_types [(''type'', J_string ''record''), (''name'', J_string name),
     (''fields'', J_array (map J_object (map (field_members ds) flds)))] = map (\<lambda>(n, f). (n, node_type ds f)) flds"
    by (intro field_types_eq) auto
  then show ?thesis unfolding node_type_record record_leaves_def by simp
qed

lemma ValidatePartitionSpec_entry: "ValidatePartitionSpec spec (node_type ds (entry_node spec)) = Inr ()"
proof -
  let ?p = "node_type ds (RecordNode ''r102'' (partition_fields spec))"
  let ?d = "node_type ds (RecordNode ''r2'' (data_file_fields spec))"
  have leaves: "record_leaves ?p = Some (map (\<lambda>f. (pkf_name f, node_type ds (OptionalNode (type_node (field_itype f))))) spec)"
    unfolding record_leaves_node by (simp add: partition_fields_def comp_def)
  have data_file: "Find (node_type ds (entry_node spec)) ''data_file'' = Inr (Some ?d)"
    unfolding Find_def entry_node_def record_leaves_node entry_fields_def by (simp del: node_type.simps)
  have p: "Find ?d ''partition'' = Inr (Some ?p)"
    unfolding Find_def record_leaves_node data_file_fields_def by (simp del: node_type.simps)
  have "foldE (\<lambda>spec_field _. ensure (pkf_name spec_field \<in> pkf_name ` set spec) msg) xs () = Inr ()"
    if "set xs \<subseteq> set spec" for xs msg
    using that by (induction xs) (auto simp: ensure_def)
  then show ?thesis
    unfolding ValidatePartitionSpec_def using data_file p leaves
    by (simp add: leaves_def comp_def Let_def ensure_def image_image del: node_type.simps)
qed

text \<open>Metadata that survives the way through the file unchanged.\<close>

definition plain_metadata :: "avro_metadata \<Rightarrow> bool" where
  "plain_metadata m \<longleftrightarrow> omap m \<and> map_of m ''avro.schema'' = None \<and> map_of m ''avro.codec'' = None \<and>
     (map_of m ''schema'' \<noteq> None \<longrightarrow> map_of m ''schema-id'' \<noteq> None)"

lemma omap_eqI:
  assumes "omap m" "omap m'" "map_of m = map_of m'"
  shows "m = m'"
proof (rule map_sorted_distinct_set_unique [of fst])
  show "set m = set m'" using in_omap_iff [OF assms(1)] in_omap_iff [OF assms(2)] assms(3) by (auto simp: set_eq_iff)
  then show "inj_on fst (set m \<union> set m')" using assms(1) by (simp add: omap_def strict_sorted_iff distinct_map)
qed (use assms in \<open>auto simp: omap_def strict_sorted_iff\<close>)

lemma omap_filter: "omap m \<Longrightarrow> omap (filter P m)"
  unfolding omap_def by (induction m) (auto simp: image_iff)

lemma read_metadata:
  assumes "plain_metadata m" "omap m'"
    and "\<forall>k. k \<noteq> ''avro.schema'' \<and> k \<noteq> ''avro.codec'' \<longrightarrow> map_of m' k = map_of m k"
  shows "update_schema_id parse_json (filter (\<lambda>(k, _). k \<noteq> ''avro.schema'' \<and> k \<noteq> ''avro.codec'') m') = Inr m"
proof -
  let ?m = "filter (\<lambda>(k, _). k \<noteq> ''avro.schema'' \<and> k \<noteq> ''avro.codec'') m'"
  have "map_of ?m k = (if k \<noteq> ''avro.schema'' \<and> k \<noteq> ''avro.codec'' then map_of m' k else None)" for k
    by (induction m') auto
  then have "map_of ?m = map_of m" using assms by (auto simp: plain_metadata_def fun_eq_iff)
  then have "?m = m" using assms(1,2) omap_filter by (intro omap_eqI) (auto simp: plain_metadata_def)
  then show ?thesis using assms(1) by (auto simp: update_schema_id_def plain_metadata_def split: option.split)
qed

text \<open>A manifest that a specification describes: distinct names, and entries that fit.\<close>

definition writable_manifest :: "(int \<Rightarrow> int) \<Rightarrow> partition_key_field list \<Rightarrow> manifest \<Rightarrow> bool" where
  "writable_manifest ds spec m \<longleftrightarrow> writable_spec spec \<and> distinct (partition_names spec) \<and> plain_metadata (m_metadata m) \<and>
     (\<forall>e \<in> set (m_entries m). writable_entry ds spec e)"

context avro
begin

lemma schema_compiles:
  assumes "writable_spec spec" "distinct (partition_names spec)"
  shows "AvroSchemaFromNode lib (entry_node spec) = Inr (node_type (decimal_size lib) (entry_node spec))"
  unfolding AvroSchemaFromNode_def
  using compile_node [OF entry_node_ok [OF assms(1)] distinct_entry_names [OF assms]] .

lemma written_manifest:
  assumes "writable_manifest (decimal_size lib) spec m"
  shows "WriteManifestEntries lib m spec =
    Inr (write_file lib (node_type (decimal_size lib) (entry_node spec)) (m_metadata m)
      (map (entry_datum (decimal_size lib) spec) (m_entries m)))"
proof -
  have ok: "writable_spec spec" "distinct (partition_names spec)" "\<And>e. e \<in> set (m_entries m) \<Longrightarrow> writable_entry (decimal_size lib) spec e"
    using assms by (auto simp: writable_manifest_def)
  have "mapE (\<lambda>entry. SerializeManifestEntry lib spec entry (initial (entry_node spec))) (m_entries m) =
      Inr (map (entry_datum (decimal_size lib) spec) (m_entries m))"
    by (rule mapE_total) (simp add: SerializeManifestEntry_initial ok)
  then show ?thesis
    by (simp add: WriteManifestEntries_def MakeSchemaManifestEntry_eq ok schema_compiles)
qed

lemma opened_manifest:
  assumes "writable_manifest (decimal_size lib) spec m" "use_reader_schema \<longrightarrow> all_statistics config"
  shows "\<exists>file m'. WriteManifestEntries lib m spec = Inr file \<and>
    MakeAvroReader lib file spec config use_reader_schema =
      Inr (node_type (decimal_size lib) (entry_node spec), m', map Inr (map (entry_datum (decimal_size lib) spec) (m_entries m))) \<and>
    update_schema_id parse_json (filter (\<lambda>(k, _). k \<noteq> ''avro.schema'' \<and> k \<noteq> ''avro.codec'') m') = Inr (m_metadata m)"
proof -
  let ?s = "node_type (decimal_size lib) (entry_node spec)"
  let ?ds = "map (entry_datum (decimal_size lib) spec) (m_entries m)"
  have ok: "writable_spec spec" "distinct (partition_names spec)" "plain_metadata (m_metadata m)"
    using assms(1) by (auto simp: writable_manifest_def)
  have "list_all (conforms lib ?s) ?ds"
    using assms(1) by (auto simp: list_all_iff writable_manifest_def intro: entry_conforms)
  moreover have "omap (m_metadata m)" using ok(3) by (simp add: plain_metadata_def)
  ultimately obtain m' where m': "read_file lib (write_file lib ?s (m_metadata m) ?ds)
      (if use_reader_schema then Some ?s else None) = Inr (?s, m', map Inr ?ds)" "omap m'"
      "\<forall>k. k \<noteq> ''avro.schema'' \<and> k \<noteq> ''avro.codec'' \<longrightarrow> map_of m' k = map_of (m_metadata m) k"
    using read_written [of ?s ?ds "if use_reader_schema then Some ?s else None" "m_metadata m"]
    by (metis (no_types, lifting))
  have "MakeAvroReader lib (write_file lib ?s (m_metadata m) ?ds) spec config use_reader_schema = Inr (?s, m', map Inr ?ds)"
    using m'(1) assms(2) ok
    by (auto simp: MakeAvroReader_def MakeSchemaManifestEntry_eq schema_compiles)
  with written_manifest [OF assms(1)] read_metadata [OF ok(3) m'(2,3)] show ?thesis by blast
qed

lemma entries_read_back:
  assumes "writable_manifest ds spec m"
  shows "mapE (\<lambda>d. bindE d (ManifestEntryDeserializer_Deserialize config)) (map Inr (map (entry_datum ds spec) (m_entries m))) =
    Inr (map (selected_entry config) (m_entries m))"
proof -
  have "\<forall>e \<in> set (m_entries m). ManifestEntryDeserializer_Deserialize config (entry_datum ds spec e) = Inr (selected_entry config e)"
    using assms by (auto simp: writable_manifest_def intro: ManifestEntry_read_back)
  then show ?thesis by (simp add: mapE_eq_Inr_iff list_all2_map1 list_all2_map2 list_all2_same)
qed

end

text \<open>What a stream yields when it is read to its end.\<close>

function drain :: "manifest_entry_stream \<Rightarrow> manifest_entry list result" where
  "drain st =
     bindE (ReadNext st) (\<lambda>(entry, st').
       case entry of
         None \<Rightarrow> Inr []
       | Some e \<Rightarrow> bindE (drain st') (\<lambda>es. Inr (e # es)))"
  by pat_completeness auto
termination
  by (relation "measure (\<lambda>st. length (st_datums st))")
    (auto simp: ReadNext_def bindE_def split: list.splits sum.splits)

declare drain.simps [simp del]

lemma drain_eq:
  "drain \<lparr>st_datums = ds, st_config = c\<rparr> = mapE (\<lambda>d. bindE d (ManifestEntryDeserializer_Deserialize c)) ds"
proof (induction ds)
  case Nil
  show ?case by (simp add: drain.simps [of "\<lparr>st_datums = [], st_config = c\<rparr>"] ReadNext_def)
next
  case (Cons d ds)
  have "drain \<lparr>st_datums = d # ds, st_config = c\<rparr> =
      bindE (bindE d (ManifestEntryDeserializer_Deserialize c)) (\<lambda>e.
        bindE (drain \<lparr>st_datums = ds, st_config = c\<rparr>) (\<lambda>es. Inr (e # es)))"
    by (subst drain.simps) (simp add: ReadNext_def bindE_def split: sum.split)
  with Cons show ?case by simp
qed

section \<open>Properties\<close>


definition example_key_fields :: "partition_key_field list" where
  "example_key_fields = [\<lparr>pkf_name = ''day'', pkf_type = Some (PrimitiveType kDate)\<rparr>,
     \<lparr>pkf_name = ''cost'', pkf_type = Some (DecimalType 9 2)\<rparr>, \<lparr>pkf_name = ''ts'', pkf_type = Some (PrimitiveType kTimestamptz)\<rparr>]"

definition example_manifest_entry :: manifest_entry where
  "example_manifest_entry =
     \<lparr>me_status = kAdded, me_snapshot_id = Some 5, me_sequence_number = None, me_file_sequence_number = Some (- 1),
      me_data_file = empty_data_file\<lparr>df_content := kEqualityDeletes, df_file_path := ''s3://t/f.parquet'', df_record_count := 100,
        df_column_sizes := [(1, 10), (2, 20)], df_lower_bounds := [(1, [0, 255])], df_equality_ids := [1, 2],
        df_sort_order_id := Some 0,
        df_partition_tuple := [\<lparr>pk_name = ''cost'', pk_value = V_fixed [1, 2, 3, 4], pk_type = Some (DecimalType 9 2)\<rparr>,
          \<lparr>pk_name = ''day'', pk_value = V_int 19000, pk_type = Some (PrimitiveType kDate)\<rparr>,
          \<lparr>pk_name = ''ts'', pk_value = V_null, pk_type = None\<rparr>]\<rparr>\<rparr>"

definition example_manifest :: manifest where
  "example_manifest = \<lparr>m_metadata = [(''content'', string_bytes ''deletes''), (''format-version'', string_bytes ''2'')],
     m_entries = [example_manifest_entry]\<rparr>"

lemma example_spec_ok: "writable_spec example_key_fields" "distinct (partition_names example_key_fields)"
  by (simp_all add: writable_spec_def example_key_fields_def field_itype_def partition_type_ok_def type_node_simps partition_names_def
      avro_name_def name_char_def is_digit_def)

lemma example_tuple_ok: "writable_tuple decimal_bytes example_key_fields (df_partition_tuple (me_data_file example_manifest_entry))"
proof -
  have "decimal_bytes 9 = 4" by (simp add: decimal_bytes_def upto.simps [of 1] upto.simps [of 2] upto.simps [of 3] upto.simps [of 4])
  then show ?thesis
    by (auto simp: writable_tuple_def example_key_fields_def example_manifest_entry_def field_itype_def writable_key_def writable_value_def zoned_def
        less_list_code)
qed

lemma example_manifest_ok: "writable_manifest (decimal_size memory_library) example_key_fields example_manifest"
proof -
  have "writable_entry decimal_bytes example_key_fields example_manifest_entry"
    using example_tuple_ok
    by (simp add: writable_entry_def writable_data_file_def example_manifest_entry_def empty_data_file_def counts_map_ok_def bounds_map_ok_def omap_def
        int32_def int64_def)
  moreover have "plain_metadata (m_metadata example_manifest)"
    by (simp add: plain_metadata_def example_manifest_def omap_def less_list_code)
  ultimately show ?thesis
    using example_spec_ok by (simp add: writable_manifest_def example_manifest_def memory_library_def)
qed


text \<open>
  C40.  A specification without repeated names that \<open>ValidatePartitionSpec\<close> accepts has the same field
  names as the partition record of the file, each of them once: no field of the file is left
  without a field of the specification.
\<close>

theorem ValidatePartitionSpec_names:
  assumes "ValidatePartitionSpec spec root = Inr ()" "distinct (map pkf_name spec)" "spec \<noteq> []"
  shows "\<exists>df p flds. Find root ''data_file'' = Inr (Some df) \<and> Find df ''partition'' = Inr (Some p) \<and>
    record_leaves p = Some flds \<and> distinct (map fst flds) \<and> set (map fst flds) = set (map pkf_name spec)"
proof -
  obtain df p where df: "Find root ''data_file'' = Inr (Some df)" and p: "Find df ''partition'' = Inr (Some p)"
    and len: "length spec = leaves p"
    and fold: "foldE (\<lambda>spec_field _. ensure (pkf_name spec_field \<in>
      set (case record_leaves p of Some flds \<Rightarrow> map fst flds | None \<Rightarrow> [])) '': partition_spec has field '') spec () = Inr ()"
    using assms(1) by (auto simp: ValidatePartitionSpec_def Let_def ensure_def bindE_def split: sum.splits option.splits if_splits)
  have names: "x \<in> set xs \<Longrightarrow> pkf_name x \<in> N" if "foldE (\<lambda>f _. ensure (pkf_name f \<in> N) msg) xs () = Inr ()" for x xs N msg
    using that by (induction xs) (auto simp: ensure_def split: if_splits)
  have "hd spec \<in> set spec" using assms(3) by simp
  with names [OF fold] obtain flds where flds: "record_leaves p = Some flds"
    by (cases "record_leaves p") (auto simp del: hd_in_set)
  have sub: "set (map pkf_name spec) \<subseteq> set (map fst flds)" using names [OF fold] flds by auto
  have "card (set (map pkf_name spec)) = length flds"
    using distinct_card [OF assms(2)] len flds by (simp add: leaves_def)
  moreover have "card (set (map fst flds)) \<le> length flds" using card_length [of "map fst flds"] by simp
  ultimately have eq: "set (map pkf_name spec) = set (map fst flds)"
    using sub card_seteq [of "set (map fst flds)"] by auto
  then have "card (set (map fst flds)) = length (map fst flds)"
    using \<open>card (set (map pkf_name spec)) = length flds\<close> by simp
  then have "distinct (map fst flds)" by (rule card_distinct)
  then show ?thesis using df p flds eq by auto
qed

theorem ValidatePartitionSpec_names_witness:
  "\<exists>df p flds. Find (node_type decimal_bytes (entry_node example_key_fields)) ''data_file'' = Inr (Some df) \<and>
    Find df ''partition'' = Inr (Some p) \<and> record_leaves p = Some flds \<and> distinct (map fst flds) \<and>
    set (map fst flds) = {''day'', ''cost'', ''ts''}"
  using ValidatePartitionSpec_names [OF ValidatePartitionSpec_entry [of example_key_fields decimal_bytes]]
  by (auto simp: example_key_fields_def)

text \<open>The document of a fixed node is not admitted by the Avro specification: it has no name.\<close>

lemma FixedNode_unnamed: "\<not> schema_doc (node_type ds (FixedNode sz))"
  by (auto elim: schema_doc.cases)

text \<open>A partition value with time zone comes back as a value without.\<close>

lemma zoned_value_loses_zone:
  "SerializePartitionValue memory_library (PrimitiveType kTimestamptz) (V_long 7)
     (make_datum memory_library (node_type ds (OptionalNode TimestamptzNode))) = Inr d \<Longrightarrow>
   Datum_partition_field name d =
     Inr \<lparr>pk_name = name, pk_value = V_long 7, pk_type = Some (PrimitiveType kTimestamp)\<rparr>"
  unfolding memory.initial_optional
  by (auto simp: SerializePartitionValue_def get_if_set_def SerializeOptionalLong_def SerializeOptional_def put_long_def
      memory_library_def primitive_datum_def logical_of_def Datum_partition_field_def mk_PartitionKey_def Validate_def
      PrimitiveTypeToName_def kStringToPrimitiveTypeId_def)

text \<open>The stream after a number of calls of \<open>ReadNext\<close>.\<close>

primrec after :: "nat \<Rightarrow> manifest_entry_stream \<Rightarrow> manifest_entry_stream result" where
  "after 0 st = Inr st"
| "after (Suc n) st = bindE (ReadNext st) (\<lambda>(_, st'). after n st')"

lemma after_eq:
  assumes "mapE (\<lambda>d. bindE d (ManifestEntryDeserializer_Deserialize c)) ds = Inr es"
  shows "after n \<lparr>st_datums = ds, st_config = c\<rparr> = Inr \<lparr>st_datums = drop n ds, st_config = c\<rparr>"
  using assms
proof (induction n arbitrary: ds es)
  case (Suc n)
  show ?case
  proof (cases ds)
    case Nil
    then show ?thesis using Suc.IH [of "[]" "[]"] by (simp add: ReadNext_def)
  next
    case (Cons d ds')
    with Suc.prems obtain datum e es' where "d = Inr datum" "ManifestEntryDeserializer_Deserialize c datum = Inr e"
      "mapE (\<lambda>d. bindE d (ManifestEntryDeserializer_Deserialize c)) ds' = Inr es'"
      by (auto simp: bindE_def split: sum.splits)
    with Cons Suc.IH [of ds' es'] show ?thesis by (simp add: ReadNext_def)
  qed
qed simp



end
