(* ===== verification/Row_Groups.thy ===== *)
theory Row_Groups
  imports Stats_Correctness Segments Equality_Handler "HOL-Library.Sublist"
begin

text \<open>
  Choice of the row groups of a data file (\<open>streams/iceberg/file_reader_builder.cpp\<close>): the row
  groups whose offset lies in the segments of the task, of these the row groups that the
  statistics of the file cannot exclude (\<open>parquet_stats_getter.cpp\<close>, \<open>row_group_filter_impl.h\<close>),
  and the offset of a row group (\<open>common/rg_metadata.cpp\<close>).  A Parquet file is the part of its
  metadata that the code looks at.
\<close>

section \<open>Metadata of a Parquet file\<close>

datatype parquet_type =
    BOOLEAN | INT32 | INT64 | INT96 | FLOAT | DOUBLE | BYTE_ARRAY | FIXED_LEN_BYTE_ARRAY

datatype time_unit = MILLIS | MICROS | NANOS | UNKNOWN_UNIT

datatype logical_annotation =
    PL_none | PL_int bool int | PL_string | PL_date | PL_time bool time_unit | PL_timestamp bool time_unit | PL_other

record parquet_statistics =
  pst_has_null_count :: bool
  pst_null_count :: int
  pst_num_values :: int
  pst_has_min_max :: bool
  pst_physical_type :: parquet_type
  pst_min :: physical
  pst_max :: physical

text \<open>A column chunk with its statistics, if they are set, and the annotation of its column.\<close>

record column_chunk =
  cc_statistics :: "parquet_statistics option"
  cc_data_page_offset :: int
  cc_logical_type :: logical_annotation

text \<open>\<open>rg_fields\<close> are the fields of the root of the schema, the column chunks belong to its leaves.\<close>

record schema_field =
  sf_field_id :: int
  sf_name :: string

record row_group_meta =
  rg_file_offset :: int
  rg_num_rows :: nat
  rg_columns :: "column_chunk list"
  rg_fields :: "schema_field list"

definition RowGroupMetaToFileOffset :: "row_group_meta \<Rightarrow> int result" where
  "RowGroupMetaToFileOffset meta =
     (if rg_file_offset meta = 0 then
        (case rg_columns meta of
           [] \<Rightarrow> Inl (Runtime_error ''The file only has 0 columns, requested metadata for column: 0'')
         | c # _ \<Rightarrow> bindE (ensure (cc_data_page_offset c \<noteq> 0) ''File offset is not set in file'') (\<lambda>_.
             Inr (cc_data_page_offset c)))
      else Inr (rg_file_offset meta))"

section \<open>Row groups of the segments of a task\<close>

text \<open>The inner loop: the segments that are left after those that end at or before the offset, and
  whether the offset lies in the first of them.\<close>

fun skip_segments :: "int \<Rightarrow> segment list \<Rightarrow> bool \<times> segment list" where
  "skip_segments file_offset [] = (False, [])"
| "skip_segments file_offset (s # segments) =
     (let seg_start = seg_offset s; seg_end = seg_offset s + seg_length s in
      if seg_start \<le> file_offset \<and> (file_offset < seg_end \<or> seg_length s = 0) then (True, s # segments)
      else if file_offset \<ge> seg_end then skip_segments file_offset segments
      else (False, s # segments))"

fun row_group_loop :: "nat \<Rightarrow> row_group_meta list \<Rightarrow> segment list \<Rightarrow> nat list result" where
  "row_group_loop i [] segments = Inr []"
| "row_group_loop i (rg_meta # rgs) segments =
     bindE (RowGroupMetaToFileOffset rg_meta) (\<lambda>file_offset.
     let (found, rest) = skip_segments file_offset segments in
     bindE (row_group_loop (Suc i) rgs rest) (\<lambda>is. Inr (if found then i # is else is)))"

definition GetRowGroupsToRetrieve :: "row_group_meta list \<Rightarrow> segment list \<Rightarrow> nat list result" where
  "GetRowGroupsToRetrieve metadata segments = row_group_loop 0 metadata segments"

section \<open>Statistics of a row group\<close>

fun ValdateLogicalType :: "ValueType \<Rightarrow> logical_annotation \<Rightarrow> bool" where
  "ValdateLogicalType VT_Bool t \<longleftrightarrow> t = PL_none"
| "ValdateLogicalType VT_Int2 t \<longleftrightarrow> t = PL_none \<or> t = PL_int True 16"
| "ValdateLogicalType VT_Int4 t \<longleftrightarrow> t = PL_none \<or> t = PL_int True 16 \<or> t = PL_int True 32"
| "ValdateLogicalType VT_Int8 t \<longleftrightarrow> t = PL_none \<or> t = PL_int True 64"
| "ValdateLogicalType VT_String t \<longleftrightarrow> t = PL_string"
| "ValdateLogicalType VT_Float4 t \<longleftrightarrow> t = PL_none"
| "ValdateLogicalType VT_Float8 t \<longleftrightarrow> t = PL_none"
| "ValdateLogicalType VT_Date t \<longleftrightarrow> t = PL_date"
| "ValdateLogicalType VT_Time t \<longleftrightarrow> t = PL_time False MICROS"
| "ValdateLogicalType VT_Timestamp t \<longleftrightarrow> t = PL_timestamp False MICROS"
| "ValdateLogicalType VT_Timestamptz t \<longleftrightarrow> t = PL_timestamp True MICROS"
| "ValdateLogicalType _ t \<longleftrightarrow> False"

definition parquet_GenericStatsFromTypedStats ::
  "ValueType \<Rightarrow> parquet_statistics \<Rightarrow> logical_annotation \<Rightarrow> GenericStats option" where
  "parquet_GenericStatsFromTypedStats value_type stats logical_type =
     (if \<not> ValdateLogicalType value_type logical_type then None
      else Some
        \<lparr>gs_min_max = Make_min_max value_type (MinMaxStats (pst_min stats) (pst_max stats)),
         gs_count =
           (if \<not> pst_has_null_count stats then \<lparr>contains_null = True, contains_non_null = True\<rparr>
            else \<lparr>contains_null = pst_null_count stats > 0, contains_non_null = pst_num_values stats > 0\<rparr>)\<rparr>)"

definition parquet_kConversions :: "(parquet_type \<times> ValueType) list" where
  "parquet_kConversions =
     [(BOOLEAN, VT_Bool), (INT32, VT_Int2), (INT32, VT_Int4), (INT64, VT_Int8), (FLOAT, VT_Float4), (DOUBLE, VT_Float8),
      (BYTE_ARRAY, VT_String), (INT64, VT_Time), (INT64, VT_Timestamp), (INT64, VT_Timestamptz), (INT32, VT_Date)]"

definition ParquetStatsGetter_GetStats ::
  "row_group_meta \<Rightarrow> (string \<times> nat) list \<Rightarrow> string \<Rightarrow> ValueType \<Rightarrow> GenericStats option" where
  "ParquetStatsGetter_GetStats rg_meta name_to_parquet_index column_name value_type =
     (case map_of name_to_parquet_index column_name of
        None \<Rightarrow> None
      | Some parquet_index \<Rightarrow>
          if parquet_index \<ge> length (rg_columns rg_meta) then None
          else case cc_statistics (rg_columns rg_meta ! parquet_index) of
            None \<Rightarrow> None
          | Some stats \<Rightarrow>
              if \<not> pst_has_min_max stats then None
              else if (pst_physical_type stats, value_type) \<in> set parquet_kConversions
              then parquet_GenericStatsFromTypedStats value_type stats (cc_logical_type (rg_columns rg_meta ! parquet_index))
              else None)"

text \<open>The map from names to indices; a later field overwrites an earlier one of the same name.\<close>

definition name_to_parquet_index :: "(int \<times> string) list \<Rightarrow> row_group_meta \<Rightarrow> (string \<times> nat) list" where
  "name_to_parquet_index field_id_to_name meta =
     fold (\<lambda>(i, field) m.
       if sf_field_id field = - 1 then m
       else case map_of field_id_to_name (sf_field_id field) of
         None \<Rightarrow> m
       | Some name \<Rightarrow> (name, i) # m) (enumerate 0 (rg_fields meta)) []"

record row_group_filter =
  rgf_filter :: "Node option"
  rgf_field_id_to_name :: "(int \<times> string) list"
  rgf_shift :: int

definition GetCurrentParquetStatsGetter :: "row_group_filter \<Rightarrow> row_group_meta \<Rightarrow> IStatsGetter" where
  "GetCurrentParquetStatsGetter f meta = (\<lambda>column_name value_type.
     Inr (ParquetStatsGetter_GetStats meta (name_to_parquet_index (rgf_field_id_to_name f) meta) column_name value_type))"

definition CanSkipRowGroup :: "row_group_filter \<Rightarrow> row_group_meta \<Rightarrow> bool result" where
  "CanSkipRowGroup f meta =
     bindE (StatsFilter_ApplyFilter (GetCurrentParquetStatsGetter f meta) (Some (rgf_shift f)) (rgf_filter f)) (\<lambda>matched.
       Inr (matched = MR_None))"

definition matching_row_groups :: "row_group_filter option \<Rightarrow> row_group_meta list \<Rightarrow> nat list \<Rightarrow> nat list result" where
  "matching_row_groups rg_filter metadata row_groups_matching_offsets =
     (case rg_filter of
        None \<Rightarrow> Inr row_groups_matching_offsets
      | Some f \<Rightarrow>
          bindE (mapE (\<lambda>rg_ind.
              bindE (ensure (rg_ind < length metadata) ''The file only has fewer row groups'') (\<lambda>_.
              bindE (CanSkipRowGroup f (metadata ! rg_ind)) (\<lambda>skip. Inr (rg_ind, skip))))
            row_groups_matching_offsets) (\<lambda>rs. Inr (map fst (filter (\<lambda>(_, skip). \<not> skip) rs))))"

section \<open>Exact choice of row groups\<close>

text \<open>Segments in ascending order without overlap, of which only the last may be open.\<close>

definition ordered_segments :: "segment list \<Rightarrow> bool" where
  "ordered_segments ss \<longleftrightarrow> list_all seg_ok ss \<and>
     sorted_wrt (\<lambda>s t. 0 < seg_length s \<and> seg_offset s + seg_length s \<le> seg_offset t) ss"

lemma ordered_segments_Cons:
  "ordered_segments (s # ss) \<longleftrightarrow> seg_ok s \<and> ordered_segments ss \<and>
     (\<forall>t \<in> set ss. 0 < seg_length s \<and> seg_offset s + seg_length s \<le> seg_offset t)"
  by (auto simp: ordered_segments_def)

lemma normal_ordered: "normal_segments ss \<Longrightarrow> ordered_segments ss"
proof (induction ss rule: normal_segments.induct)
  case (3 s t ss)
  then have "ordered_segments (t # ss)" by simp
  moreover have "seg_offset t \<le> seg_offset u" if "u \<in> set ss" for u
    using \<open>ordered_segments (t # ss)\<close> that by (force simp: ordered_segments_Cons seg_ok_def)
  ultimately show ?case using 3(2) by (force simp: ordered_segments_Cons seg_ok_def)
qed (simp_all add: ordered_segments_def)

lemma skip_segments_correct:
  assumes "ordered_segments ss" "skip_segments x ss = (found, rest)"
  shows "found \<longleftrightarrow> x \<in> covered ss" "ordered_segments rest" "\<And>y. x \<le> y \<Longrightarrow> y \<in> covered rest \<longleftrightarrow> y \<in> covered ss"
proof -
  have "(found \<longleftrightarrow> x \<in> covered ss) \<and> ordered_segments rest \<and> (\<forall>y \<ge> x. y \<in> covered rest \<longleftrightarrow> y \<in> covered ss)"
    using assms
  proof (induction x ss rule: skip_segments.induct)
    case (2 x s ss)
    have later: "x \<notin> covered ss" if "x < seg_offset s + seg_length s"
    proof
      assume "x \<in> covered ss"
      then obtain t where "t \<in> set ss" "x \<in> seg_bytes t" by (auto simp: covered_def)
      then show False using 2(2) that seg_bytes_lower [of x t] by (force simp: ordered_segments_Cons)
    qed
    consider (found) "seg_offset s \<le> x" "x < seg_offset s + seg_length s \<or> seg_length s = 0"
      | (skip) "\<not> (seg_offset s \<le> x \<and> (x < seg_offset s + seg_length s \<or> seg_length s = 0))" "seg_offset s + seg_length s \<le> x"
      | (stop) "x < seg_offset s" "x < seg_offset s + seg_length s"
      using 2(2) by (force simp: ordered_segments_Cons seg_ok_def)
    then show ?case
    proof cases
      case found
      then have "x \<in> seg_bytes s" by (auto simp: seg_bytes_def)
      then show ?thesis using found 2(2,3) by auto
    next
      case skip
      then have s: "0 < seg_length s" using 2(2) by (auto simp: ordered_segments_Cons seg_ok_def)
      then have "\<forall>y \<ge> x. y \<notin> seg_bytes s" using skip by (auto simp: seg_bytes_def)
      moreover have "skip_segments x ss = (found, rest)" using 2(3) skip by (auto simp: Let_def)
      ultimately show ?thesis using 2(1) [of "seg_offset s" "seg_offset s + seg_length s"] 2(2) skip
        by (auto simp: ordered_segments_Cons)
    next
      case stop
      then have "x \<notin> seg_bytes s" using seg_bytes_lower [of x s] by force
      then show ?thesis using stop 2(2,3) later by auto
    qed
  qed auto
  then show "found \<longleftrightarrow> x \<in> covered ss" "ordered_segments rest" "\<And>y. x \<le> y \<Longrightarrow> y \<in> covered rest \<longleftrightarrow> y \<in> covered ss"
    by auto
qed

lemma row_group_loop_exact:
  assumes "mapE RowGroupMetaToFileOffset rgs = Inr offs" "sorted offs" "ordered_segments ss"
  shows "row_group_loop i rgs ss = Inr (map (\<lambda>j. i + j) (filter (\<lambda>j. offs ! j \<in> covered ss) [0..<length rgs]))"
  using assms
proof (induction rgs arbitrary: i offs ss)
  case (Cons rg rgs)
  obtain off offs' where offs: "offs = off # offs'" and rg: "RowGroupMetaToFileOffset rg = Inr off"
    and rgs: "mapE RowGroupMetaToFileOffset rgs = Inr offs'"
    using Cons.prems(1) by (auto simp: bindE_def split: sum.splits)
  obtain found rest where skip: "skip_segments off ss = (found, rest)" by fastforce
  note sk = skip_segments_correct [OF Cons.prems(3) skip]
  have len: "length offs' = length rgs" using mapE_length [OF rgs] .
  have "row_group_loop (Suc i) rgs rest =
      Inr (map (\<lambda>j. Suc i + j) (filter (\<lambda>j. offs' ! j \<in> covered rest) [0..<length rgs]))"
    using Cons.IH [OF rgs _ sk(2)] Cons.prems(2) offs by simp
  also have "filter (\<lambda>j. offs' ! j \<in> covered rest) [0..<length rgs] = filter (\<lambda>j. offs' ! j \<in> covered ss) [0..<length rgs]"
    using Cons.prems(2) offs sk(3) len by (intro filter_cong) auto
  finally have rest: "row_group_loop (Suc i) rgs rest =
      Inr (map (\<lambda>j. Suc i + j) (filter (\<lambda>j. offs' ! j \<in> covered ss) [0..<length rgs]))" .
  have "[0..<length (rg # rgs)] = 0 # map Suc [0..<length rgs]"
    using upt_conv_Cons [of 0 "Suc (length rgs)"] by (simp add: map_Suc_upt del: upt_Suc)
  then have "map (\<lambda>j. i + j) (filter (\<lambda>j. offs ! j \<in> covered ss) [0..<length (rg # rgs)]) =
      (if off \<in> covered ss then [i] else []) @
      map (\<lambda>j. Suc i + j) (filter (\<lambda>j. offs' ! j \<in> covered ss) [0..<length rgs])"
    by (simp add: offs filter_map comp_def del: upt_Suc)
  then show ?case using rg skip rest sk(1) by simp
qed simp

text \<open>
  C18.  For row groups with ascending offsets and segments in order without overlap,
  \<open>GetRowGroupsToRetrieve\<close> returns, in order, exactly the row groups whose offset lies in a segment,
  although it passes over row groups and segments only once.
\<close>

theorem GetRowGroupsToRetrieve_exact:
  assumes "mapE RowGroupMetaToFileOffset metadata = Inr offsets" "sorted offsets" "ordered_segments segments"
  shows "GetRowGroupsToRetrieve metadata segments =
    Inr (filter (\<lambda>i. offsets ! i \<in> covered segments) [0..<length metadata])"
  unfolding GetRowGroupsToRetrieve_def using row_group_loop_exact [OF assms, of 0] by simp

definition example_row_group :: "int \<Rightarrow> int \<Rightarrow> int \<Rightarrow> row_group_meta" where
  "example_row_group off lo hi =
     \<lparr>rg_file_offset = off,
      rg_num_rows = 10,
      rg_columns = [\<lparr>cc_statistics = Some \<lparr>pst_has_null_count = True, pst_null_count = 0, pst_num_values = 10, pst_has_min_max = True,
          pst_physical_type = INT32, pst_min = P_int lo, pst_max = P_int hi\<rparr>,
        cc_data_page_offset = 4, cc_logical_type = PL_none\<rparr>],
      rg_fields = [\<lparr>sf_field_id = 1, sf_name = ''a''\<rparr>]\<rparr>"

theorem GetRowGroupsToRetrieve_exact_witness:
  "GetRowGroupsToRetrieve [example_row_group 0 1 3, example_row_group 100 4 9, example_row_group 200 1 1]
     [mk_segment 0 50, mk_segment 150 0] = Inr [0, 2]"
proof -
  have "GetRowGroupsToRetrieve [example_row_group 0 1 3, example_row_group 100 4 9, example_row_group 200 1 1]
     [mk_segment 0 50, mk_segment 150 0] =
    Inr (filter (\<lambda>i. [4, 100, 200] ! i \<in> covered [mk_segment 0 50, mk_segment 150 0]) [0..<3])"
    using GetRowGroupsToRetrieve_exact [of "[example_row_group 0 1 3, example_row_group 100 4 9, example_row_group 200 1 1]"
        "[4, 100, 200]" "[mk_segment 0 50, mk_segment 150 0]"]
    by (simp add: RowGroupMetaToFileOffset_def example_row_group_def ensure_def ordered_segments_def seg_ok_def mk_segment_def
        numeral_3_eq_3 del: upt_Suc)
  then show ?thesis by (simp add: upt_rec seg_bytes_def mk_segment_def)
qed



section \<open>Soundness of skipping\<close>

text \<open>What the Parquet format says of the statistics of a column and a value in it.\<close>

definition value_in_statistics :: "parquet_statistics \<Rightarrow> ValueType \<Rightarrow> physical option \<Rightarrow> bool" where
  "value_in_statistics stats vt v \<longleftrightarrow>
     min_max_ok (Make_min_max vt (MinMaxStats (pst_min stats) (pst_max stats))) \<and>
     (case v of
        None \<Rightarrow> pst_has_null_count stats \<longrightarrow> pst_null_count stats > 0
      | Some p \<Rightarrow> (pst_has_null_count stats \<longrightarrow> pst_num_values stats > 0) \<and> PhysicalType vt p \<and>
          (Comparable vt \<longrightarrow> between (MinMaxStats (pst_min stats) (pst_max stats)) p))"

definition row_in_group :: "row_group_filter \<Rightarrow> row_group_meta \<Rightarrow> row \<Rightarrow> bool" where
  "row_in_group f meta r \<longleftrightarrow>
     (\<forall>name i vt stats. map_of (name_to_parquet_index (rgf_field_id_to_name f) meta) name = Some i \<and> i < length (rg_columns meta) \<and>
        cc_statistics (rg_columns meta ! i) = Some stats \<and> pst_has_min_max stats \<and>
        (pst_physical_type stats, vt) \<in> set parquet_kConversions \<and> ValdateLogicalType vt (cc_logical_type (rg_columns meta ! i)) \<longrightarrow>
        value_in_statistics stats vt (r name vt))"

lemma parquet_getter_covers:
  assumes "row_in_group f meta r"
  shows "getter_covers (GetCurrentParquetStatsGetter f meta) r"
  unfolding getter_covers_def
proof (intro allI impI)
  fix name vt st
  assume "GetCurrentParquetStatsGetter f meta name vt = Inr (Some st)"
  then obtain i stats where i: "map_of (name_to_parquet_index (rgf_field_id_to_name f) meta) name = Some i"
    "i < length (rg_columns meta)" "cc_statistics (rg_columns meta ! i) = Some stats" "pst_has_min_max stats"
    "(pst_physical_type stats, vt) \<in> set parquet_kConversions"
    and st: "parquet_GenericStatsFromTypedStats vt stats (cc_logical_type (rg_columns meta ! i)) = Some st"
    by (auto simp: GetCurrentParquetStatsGetter_def ParquetStatsGetter_GetStats_def split: option.splits if_splits)
  from st have valid: "ValdateLogicalType vt (cc_logical_type (rg_columns meta ! i))"
    by (auto simp: parquet_GenericStatsFromTypedStats_def split: if_splits)
  then have "value_in_statistics stats vt (r name vt)"
    using assms i unfolding row_in_group_def by blast
  then show "in_stats st (Value vt (r name vt))"
    using st valid
    by (auto simp: parquet_GenericStatsFromTypedStats_def in_stats_def value_in_statistics_def Make_min_max_def split: option.splits if_splits)
qed



definition example_rg_filter :: row_group_filter where
  "example_rg_filter = \<lparr>rgf_filter = Some above_five, rgf_field_id_to_name = [(1, ''x'')], rgf_shift = 0\<rparr>"


end
