(* ===== verification/Streams.thy ===== *)
theory Streams
  imports Delete_Appliers Row_Groups
begin

text \<open>
  The streams of batches that a scan is made of (\<open>streams/arrow\<close>, \<open>streams/iceberg\<close>):
  \<open>ParquetFileReader\<close>, \<open>ProjectionStream\<close>, \<open>DefaultValueApplier\<close>, \<open>FilteringStream\<close> and
  \<open>DataScanner\<close>.  \<open>IStream::ReadNext\<close> is a function on the state of a stream that returns the
  next batch, or nothing at the end, and the new state.  Some of these functions loop over a
  stream they do not know, so they may not return (\<open>None\<close>), raise (\<open>Some (Inl e)\<close>) or return
  (\<open>Some (Inr x)\<close>).  The locale \<open>stream\<close> says that a stream delivers a list of batches;
  every transformer of streams is shown to turn one such stream into another.
\<close>

section \<open>Streams\<close>

type_synonym 'a run = "'a result option"
type_synonym ('s, 'b) read_next = "'s \<Rightarrow> ('b option \<times> 's) run"

definition bindR :: "'a run \<Rightarrow> ('a \<Rightarrow> 'b run) \<Rightarrow> 'b run" where
  "bindR m f = (case m of None \<Rightarrow> None | Some (Inl e) \<Rightarrow> Some (Inl e) | Some (Inr x) \<Rightarrow> f x)"

lemma bindR_simps [simp]: "bindR None f = None" "bindR (Some (Inl e)) f = Some (Inl e)" "bindR (Some (Inr x)) f = f x"
  by (simp_all add: bindR_def)

lemma bindR_Inr_iff: "bindR m f = Some (Inr y) \<longleftrightarrow> (\<exists>x. m = Some (Inr x) \<and> f x = Some (Inr y))"
  by (auto simp: bindR_def split: option.splits sum.splits)

lemma bindR_conv: "bindR m g = Option.bind m (\<lambda>r. case r of Inl e \<Rightarrow> Some (Inl e) | Inr x \<Rightarrow> g x)"
  by (auto simp: bindR_def split: option.splits sum.splits)

lemma bindR_mono [partial_function_mono]:
  assumes "mono_option B" "\<And>y. mono_option (\<lambda>f. C y f)"
  shows "mono_option (\<lambda>f. bindR (B f) (\<lambda>y. C y f))"
  unfolding bindR_conv
proof (rule bind_mono [OF assms(1)])
  fix r
  show "mono_option (\<lambda>f. case r of Inl e \<Rightarrow> Some (Inl e) | Inr x \<Rightarrow> C x f)"
    using assms(2) by (cases r) (auto intro: option.const_mono)
qed

text \<open>All batches of a stream, with a bound on the number of reads.\<close>

fun drain_stream :: "nat \<Rightarrow> ('s, 'b) read_next \<Rightarrow> 's \<Rightarrow> 'b list run" where
  "drain_stream 0 read s = None"
| "drain_stream (Suc n) read s =
     bindR (read s) (\<lambda>(b, s'). case b of None \<Rightarrow> Some (Inr [])
       | Some b \<Rightarrow> bindR (drain_stream n read s') (\<lambda>bs. Some (Inr (b # bs))))"

text \<open>The contract of a stream: in a state that holds a list, it delivers this list and then ends.\<close>

locale stream =
  fixes read :: "('s, 'b) read_next" and holds :: "'s \<Rightarrow> 'b list \<Rightarrow> bool"
  assumes read_end: "holds s [] \<Longrightarrow> \<exists>s'. read s = Some (Inr (None, s')) \<and> holds s' []"
    and read_next: "holds s (b # bs) \<Longrightarrow> \<exists>s'. read s = Some (Inr (Some b, s')) \<and> holds s' bs"
begin

lemma drain_stream_holds: "holds s bs \<Longrightarrow> length bs < n \<Longrightarrow> drain_stream n read s = Some (Inr bs)"
proof (induction bs arbitrary: s n)
  case Nil
  then show ?case using read_end by (cases n) force+
next
  case (Cons b bs)
  obtain m where n: "n = Suc m" "length bs < m" using Cons.prems(2) by (cases n) auto
  obtain s' where "read s = Some (Inr (Some b, s'))" "holds s' bs" using read_next [OF Cons.prems(1)] by blast
  then show ?case using Cons.IH [OF _ n(2)] by (simp add: n(1))
qed

end

text \<open>A stream over a list, the streams of the tests and of the plan.\<close>

fun list_ReadNext :: "('b list, 'b) read_next" where
  "list_ReadNext [] = Some (Inr (None, []))"
| "list_ReadNext (b # bs) = Some (Inr (Some b, bs))"

interpretation list_stream: stream list_ReadNext "(=)"
  by unfold_locales auto

text \<open>A stream that changes every batch of its input, with a state of its own.\<close>

definition apply_ReadNext :: "('b \<Rightarrow> 't \<Rightarrow> ('c \<times> 't) run) \<Rightarrow> ('s, 'b) read_next \<Rightarrow> ('s \<times> 't, 'c) read_next" where
  "apply_ReadNext f read = (\<lambda>(s, t).
     bindR (read s) (\<lambda>(b, s'). case b of
       None \<Rightarrow> Some (Inr (None, s', t))
     | Some b \<Rightarrow> bindR (f b t) (\<lambda>(c, t'). Some (Inr (Some c, s', t')))))"

definition map_ReadNext :: "('b \<Rightarrow> 'c result) \<Rightarrow> ('s, 'b) read_next \<Rightarrow> ('s, 'c) read_next" where
  "map_ReadNext f read s =
     bindR (read s) (\<lambda>(b, s'). case b of
       None \<Rightarrow> Some (Inr (None, s'))
     | Some b \<Rightarrow> Some (bindE (f b) (\<lambda>c. Inr (Some c, s'))))"

context stream
begin

lemma apply_stream:
  assumes "\<And>b t. P b \<Longrightarrow> I t \<Longrightarrow> \<exists>t'. f b t = Some (Inr (g b, t')) \<and> I t'"
  shows "stream (apply_ReadNext f read)
    (\<lambda>(s, t) cs. I t \<and> (\<exists>bs. holds s bs \<and> (\<forall>b \<in> set bs. P b) \<and> cs = map g bs))"
proof (unfold_locales, goal_cases)
  case (1 st)
  then obtain s t where "st = (s, t)" "I t" "holds s []" by (cases st) auto
  then show ?case using read_end [of s] by (auto simp: apply_ReadNext_def)
next
  case (2 st c cs)
  then obtain s t b bs where st: "st = (s, t)" "I t" "holds s (b # bs)" "\<forall>b \<in> set (b # bs). P b"
    and c: "c = g b" "cs = map g bs" by (cases st) (auto simp: Cons_eq_map_conv)
  obtain s' where s': "read s = Some (Inr (Some b, s'))" "holds s' bs" using read_next [OF st(3)] by blast
  obtain t' where "f b t = Some (Inr (g b, t'))" "I t'" using assms [of b t] st by auto
  then show ?case using st s' c by (auto simp: apply_ReadNext_def)
qed

lemma map_stream:
  assumes "\<And>b. P b \<Longrightarrow> f b = Inr (g b)"
  shows "stream (map_ReadNext f read) (\<lambda>s cs. \<exists>bs. holds s bs \<and> (\<forall>b \<in> set bs. P b) \<and> cs = map g bs)"
proof (unfold_locales, goal_cases)
  case (1 s)
  then show ?case using read_end [of s] by (auto simp: map_ReadNext_def)
next
  case (2 s c cs)
  then obtain b bs where s: "holds s (b # bs)" "\<forall>b \<in> set (b # bs). P b" and c: "c = g b" "cs = map g bs"
    by (auto simp: Cons_eq_map_conv)
  obtain s' where s': "read s = Some (Inr (Some b, s'))" "holds s' bs" using read_next [OF s(1)] by blast
  then show ?case using s c assms [of b] by (auto simp: map_ReadNext_def)
qed

end

section \<open>Batches of columns\<close>

text \<open>An \<open>arrow::RecordBatch\<close> with its named columns, and the position of its first row.\<close>

record 'v record_batch =
  rb_num_rows :: nat
  rb_columns :: "(string \<times> 'v list) list"

record 'v arrow_batch =
  ab_batch :: "'v record_batch"
  ab_row_position :: int

abbreviation ab_num_rows :: "'v arrow_batch \<Rightarrow> nat" where
  "ab_num_rows b \<equiv> rb_num_rows (ab_batch b)"

text \<open>\<open>arrow::Schema::GetFieldIndex\<close>: the index of the only field of this name.\<close>

definition GetFieldIndex :: "(string \<times> 'v list) list \<Rightarrow> string \<Rightarrow> nat option" where
  "GetFieldIndex columns name =
     (case filter (\<lambda>i. fst (columns ! i) = name) [0..<length columns] of [i] \<Rightarrow> Some i | _ \<Rightarrow> None)"

definition Concatenate :: "'v arrow_batch \<Rightarrow> 'v arrow_batch \<Rightarrow> 'v arrow_batch result" where
  "Concatenate a b =
     bindE (ensure (ab_row_position a = ab_row_position b) ''batches' row positions are different'') (\<lambda>_.
     bindE (ensure (ab_num_rows a = ab_num_rows b) ''batches have different sizes'') (\<lambda>_.
     Inr \<lparr>ab_batch = \<lparr>rb_num_rows = ab_num_rows a, rb_columns = rb_columns (ab_batch a) @ rb_columns (ab_batch b)\<rparr>,
          ab_row_position = ab_row_position a\<rparr>))"

section \<open>Filtering\<close>

record 'v row_filter =
  rf_involved_field_ids :: "int list"
  rf_ApplyFilter :: "'v arrow_batch \<Rightarrow> selection result"

definition PassThroughFilter :: "int list \<Rightarrow> 'v row_filter" where
  "PassThroughFilter field_ids =
     \<lparr>rf_involved_field_ids = field_ids, rf_ApplyFilter = (\<lambda>batch. Inr (sv_Set (ab_num_rows batch)))\<rparr>"

record partition_layer_file =
  pl_partition :: int
  pl_layer :: int
  pl_path :: string

type_synonym 'v columns = "(string \<times> 'v list) list"

definition mk_iceberg_batch :: "partition_layer_file \<Rightarrow> 'v arrow_batch \<Rightarrow> selection \<Rightarrow> 'v columns iceberg_batch" where
  "mk_iceberg_batch file_info batch sel =
     \<lparr>ib_partition = pl_partition file_info, ib_layer = pl_layer file_info, ib_path = pl_path file_info,
      ib_row_position = ab_row_position batch, ib_num_rows = int (ab_num_rows batch),
      ib_columns = rb_columns (ab_batch batch), ib_selection = sel\<rparr>"

record ('f, 'd) filtering_state =
  ft_filter_stream :: 'f
  ft_data_stream :: 'd
  ft_rows_skipped :: int

text \<open>The inner loop of \<open>ReadNext\<close>: data batches whose filter batches had no matching row are read and dropped.\<close>

partial_function (option) skip_rows :: "('d, 'v arrow_batch) read_next \<Rightarrow> int \<Rightarrow> 'd \<Rightarrow> (int \<times> 'd) run" where
  "skip_rows read_data rows_skipped data_stream =
     (if rows_skipped > 0 then
        bindR (read_data data_stream) (\<lambda>(batch_data, data_stream). case batch_data of
          None \<Rightarrow> Some (Inl (Runtime_error ''internal error. data_stream has ended before filter_stream''))
        | Some batch_data \<Rightarrow> skip_rows read_data (rows_skipped - int (ab_num_rows batch_data)) data_stream)
      else Some (Inr (rows_skipped, data_stream)))"

partial_function (option) FilteringStream_ReadNext ::
  "('f, 'v arrow_batch) read_next \<Rightarrow> ('d, 'v arrow_batch) read_next \<Rightarrow> 'v row_filter \<Rightarrow> partition_layer_file \<Rightarrow>
   (('f, 'd) filtering_state, 'v columns iceberg_batch) read_next" where
  "FilteringStream_ReadNext read_filter read_data row_filter file_info st =
     bindR (read_filter (ft_filter_stream st)) (\<lambda>(batch_filter, filter_stream).
     case batch_filter of
       None \<Rightarrow> Some (Inr (None, st\<lparr>ft_filter_stream := filter_stream\<rparr>))
     | Some batch_filter \<Rightarrow>
         bindR (Some (rf_ApplyFilter row_filter batch_filter)) (\<lambda>selection_vector.
         if selection_vector = [] then
           FilteringStream_ReadNext read_filter read_data row_filter file_info
             (st\<lparr>ft_filter_stream := filter_stream,
                 ft_rows_skipped := ft_rows_skipped st + int (ab_num_rows batch_filter)\<rparr>)
         else
           bindR (skip_rows read_data (ft_rows_skipped st) (ft_data_stream st)) (\<lambda>(rows_skipped, data_stream).
           bindR (Some (ensure (rows_skipped = 0)
             ''internal error. data_stream batch sizes don't match filter_stream batch sizes.'')) (\<lambda>_.
           bindR (read_data data_stream) (\<lambda>(batch_data, data_stream).
           case batch_data of
             None \<Rightarrow> Some (Inl (Undefined ''null batch''))
           | Some batch_data \<Rightarrow>
               bindR (Some (Concatenate batch_data batch_filter)) (\<lambda>result_batch.
               Some (Inr (Some (mk_iceberg_batch file_info result_batch selection_vector),
                 \<lparr>ft_filter_stream = filter_stream, ft_data_stream = data_stream, ft_rows_skipped = rows_skipped\<rparr>))))))))"

text \<open>Filter batches and data batches that cover the same rows, and the batches they give together.\<close>

definition aligned :: "'v arrow_batch \<Rightarrow> 'v arrow_batch \<Rightarrow> bool" where
  "aligned f d \<longleftrightarrow> ab_row_position f = ab_row_position d \<and> ab_num_rows f = ab_num_rows d \<and> 0 < ab_num_rows f"

definition joined :: "'v arrow_batch \<Rightarrow> 'v arrow_batch \<Rightarrow> 'v arrow_batch" where
  "joined d f = \<lparr>ab_batch = \<lparr>rb_num_rows = ab_num_rows d, rb_columns = rb_columns (ab_batch d) @ rb_columns (ab_batch f)\<rparr>,
     ab_row_position = ab_row_position d\<rparr>"

fun filtered_batches ::
  "('v arrow_batch \<Rightarrow> selection) \<Rightarrow> partition_layer_file \<Rightarrow> 'v arrow_batch list \<Rightarrow> 'v arrow_batch list \<Rightarrow> 'v columns iceberg_batch list" where
  "filtered_batches sel info (f # fs) (d # ds) =
     (if sel f = [] then [] else [mk_iceberg_batch info (joined d f) (sel f)]) @ filtered_batches sel info fs ds"
| "filtered_batches sel info _ _ = []"

lemma Concatenate_aligned: "aligned f d \<Longrightarrow> Concatenate d f = Inr (joined d f)"
  by (simp add: Concatenate_def aligned_def joined_def)

locale two_streams =
  filter_stream: stream read_filter holds_filter + data_stream: stream read_data holds_data
  for read_filter :: "('f, 'v arrow_batch) read_next" and holds_filter :: "'f \<Rightarrow> 'v arrow_batch list \<Rightarrow> bool"
    and read_data :: "('d, 'v arrow_batch) read_next" and holds_data :: "'d \<Rightarrow> 'v arrow_batch list \<Rightarrow> bool"
begin

lemma skip_rows_ok:
  "holds_data s (skipped @ ds) \<Longrightarrow> \<forall>d \<in> set skipped. 0 < ab_num_rows d \<Longrightarrow>
   \<exists>s'. skip_rows read_data (int (\<Sum>d\<leftarrow>skipped. ab_num_rows d)) s = Some (Inr (0, s')) \<and> holds_data s' ds"
proof (induction skipped arbitrary: s)
  case Nil
  then show ?case by (subst skip_rows.simps) auto
next
  case (Cons d skipped)
  obtain s' where s': "read_data s = Some (Inr (Some d, s'))" "holds_data s' (skipped @ ds)"
    using data_stream.read_next Cons.prems(1) by fastforce
  obtain s'' where "skip_rows read_data (int (\<Sum>d\<leftarrow>skipped. ab_num_rows d)) s' = Some (Inr (0, s''))" "holds_data s'' ds"
    using Cons.IH [OF s'(2)] Cons.prems(2) by auto
  then show ?case using s'(1) Cons.prems(2) by (subst skip_rows.simps) auto
qed

text \<open>The state holds the filter batches \<open>fs\<close>, the data batches \<open>ds\<close>, and before these the data
  batches of the rows that are to be skipped.\<close>

definition filtering_holds ::
  "('v arrow_batch \<Rightarrow> selection) \<Rightarrow> 'v row_filter \<Rightarrow> ('f, 'd) filtering_state \<Rightarrow> 'v arrow_batch list \<Rightarrow> 'v arrow_batch list \<Rightarrow> bool" where
  "filtering_holds sel rf st fs ds \<longleftrightarrow> holds_filter (ft_filter_stream st) fs \<and> list_all2 aligned fs ds \<and>
     (\<forall>f \<in> set fs. rf_ApplyFilter rf f = Inr (sel f)) \<and>
     (\<exists>skipped. holds_data (ft_data_stream st) (skipped @ ds) \<and> (\<forall>d \<in> set skipped. 0 < ab_num_rows d) \<and>
        ft_rows_skipped st = int (\<Sum>d\<leftarrow>skipped. ab_num_rows d))"

lemma filtering_step:
  assumes "filtering_holds sel rf st fs ds"
  shows "case filtered_batches sel info fs ds of
      [] \<Rightarrow> \<exists>st' ds'. FilteringStream_ReadNext read_filter read_data rf info st = Some (Inr (None, st')) \<and> filtering_holds sel rf st' [] ds'
    | b # bs \<Rightarrow> \<exists>st' fs' ds'. FilteringStream_ReadNext read_filter read_data rf info st = Some (Inr (Some b, st')) \<and>
        filtering_holds sel rf st' fs' ds' \<and> bs = filtered_batches sel info fs' ds'"
  using assms
proof (induction fs arbitrary: st ds)
  case Nil
  then obtain s' where "read_filter (ft_filter_stream st) = Some (Inr (None, s'))" "holds_filter s' []"
    using filter_stream.read_end unfolding filtering_holds_def by blast
  then show ?case using Nil by (subst FilteringStream_ReadNext.simps) (auto simp: filtering_holds_def)
next
  case (Cons f fs)
  obtain d ds' where ds: "ds = d # ds'" "aligned f d" "list_all2 aligned fs ds'"
    using Cons.prems by (auto simp: filtering_holds_def list_all2_Cons1)
  obtain skipped where skipped: "holds_data (ft_data_stream st) (skipped @ d # ds')" "\<forall>d \<in> set skipped. 0 < ab_num_rows d"
      "ft_rows_skipped st = int (\<Sum>d\<leftarrow>skipped. ab_num_rows d)"
    using Cons.prems ds(1) by (auto simp: filtering_holds_def)
  obtain sf where sf: "read_filter (ft_filter_stream st) = Some (Inr (Some f, sf))" "holds_filter sf fs"
    using filter_stream.read_next Cons.prems unfolding filtering_holds_def by blast
  have sel: "rf_ApplyFilter rf f = Inr (sel f)" "\<forall>f \<in> set fs. rf_ApplyFilter rf f = Inr (sel f)"
    using Cons.prems by (auto simp: filtering_holds_def)
  show ?case
  proof (cases "sel f = []")
    case True
    let ?st = "st\<lparr>ft_filter_stream := sf, ft_rows_skipped := ft_rows_skipped st + int (ab_num_rows f)\<rparr>"
    have "filtering_holds sel rf ?st fs ds'"
      using sf(2) ds(2,3) sel(2) skipped unfolding filtering_holds_def
      by (auto simp: aligned_def intro!: exI [of _ "skipped @ [d]"])
    moreover have eq: "FilteringStream_ReadNext read_filter read_data rf info st = FilteringStream_ReadNext read_filter read_data rf info ?st"
      using sf(1) sel(1) True by (subst FilteringStream_ReadNext.simps) simp
    ultimately show ?thesis unfolding eq using Cons.IH [of ?st ds'] True by (simp add: ds(1))
  next
    case False
    obtain sd where sd: "skip_rows read_data (ft_rows_skipped st) (ft_data_stream st) = Some (Inr (0, sd))" "holds_data sd (d # ds')"
      using skip_rows_ok [OF skipped(1,2)] skipped(3) by auto
    obtain sd' where sd': "read_data sd = Some (Inr (Some d, sd'))" "holds_data sd' ds'"
      using data_stream.read_next [OF sd(2)] by blast
    let ?st = "\<lparr>ft_filter_stream = sf, ft_data_stream = sd', ft_rows_skipped = 0\<rparr>"
    have "FilteringStream_ReadNext read_filter read_data rf info st =
        Some (Inr (Some (mk_iceberg_batch info (joined d f) (sel f)), ?st))"
      using sf(1) sel(1) False sd(1) sd'(1) Concatenate_aligned [OF ds(2)]
      by (subst FilteringStream_ReadNext.simps) (simp add: ensure_def)
    moreover have "filtering_holds sel rf ?st fs ds'"
      using sf(2) ds(3) sel(2) sd'(2) unfolding filtering_holds_def by (auto intro!: exI [of _ "[]"])
    ultimately show ?thesis using False by (auto simp: ds(1))
  qed
qed

lemma filtering_stream:
  "stream (FilteringStream_ReadNext read_filter read_data rf info)
     (\<lambda>st bs. \<exists>fs ds. filtering_holds sel rf st fs ds \<and> bs = filtered_batches sel info fs ds)"
proof (unfold_locales, goal_cases)
  case (1 st)
  then show ?case using filtering_step [of sel rf st _ _ info] by force
next
  case (2 st b bs)
  then obtain fs ds where "filtering_holds sel rf st fs ds" "b # bs = filtered_batches sel info fs ds" by blast
  then show ?case using filtering_step [of sel rf st fs ds info] by (auto split: list.splits)
qed

end

interpretation list_streams: two_streams list_ReadNext "(=)" list_ReadNext "(=)" ..

lemma filtered_batches_eq:
  "filtered_batches sel info fs ds =
     map (\<lambda>(f, d). mk_iceberg_batch info (joined d f) (sel f)) (filter (\<lambda>(f, d). sel f \<noteq> []) (zip fs ds))"
  by (induction sel info fs ds rule: filtered_batches.induct) auto

text \<open>
  C15.  \<open>FilteringStream\<close> reads the columns of the filter first and the other columns only for batches
  with a matching row.  For a filter stream and a data stream over the same rows, whose batches are
  not empty, it ends without an error and returns exactly the batches with a matching row, each with
  the columns of both streams and the rows the filter selects.
\<close>

theorem FilteringStream_exact:
  assumes "list_all2 aligned filters datas" "\<forall>f \<in> set filters. rf_ApplyFilter row_filter f = Inr (sel f)"
    and "length filters < n"
  shows "drain_stream n (FilteringStream_ReadNext list_ReadNext list_ReadNext row_filter info)
      \<lparr>ft_filter_stream = filters, ft_data_stream = datas, ft_rows_skipped = 0\<rparr> =
    Some (Inr (map (\<lambda>(f, d). mk_iceberg_batch info (joined d f) (sel f)) (filter (\<lambda>(f, d). sel f \<noteq> []) (zip filters datas))))"
proof -
  have "list_streams.filtering_holds sel row_filter
      \<lparr>ft_filter_stream = filters, ft_data_stream = datas, ft_rows_skipped = 0\<rparr> filters datas"
    using assms(1,2) by (auto simp: list_streams.filtering_holds_def intro!: exI [of _ "[]"])
  moreover have "length (filtered_batches sel info filters datas) < n"
    using assms(3) length_filter_le [of "\<lambda>(f, d). sel f \<noteq> []" "zip filters datas"] by (simp add: filtered_batches_eq)
  ultimately show ?thesis
    unfolding filtered_batches_eq [symmetric] using stream.drain_stream_holds [OF list_streams.filtering_stream] by blast
qed

definition example_arrow_batch :: "int \<Rightarrow> string \<Rightarrow> int list \<Rightarrow> int arrow_batch" where
  "example_arrow_batch pos name vs =
     \<lparr>ab_batch = \<lparr>rb_num_rows = length vs, rb_columns = [(name, vs)]\<rparr>, ab_row_position = pos\<rparr>"

text \<open>A filter on the first column.\<close>

definition example_row_filter :: "(int \<Rightarrow> bool) \<Rightarrow> int row_filter" where
  "example_row_filter p =
     \<lparr>rf_involved_field_ids = [1],
      rf_ApplyFilter = (\<lambda>b. Inr (map int (filter (\<lambda>i. p (snd (hd (rb_columns (ab_batch b))) ! i)) [0..<ab_num_rows b])))\<rparr>"

definition example_file_info :: partition_layer_file where
  "example_file_info = \<lparr>pl_partition = 0, pl_layer = 1, pl_path = ''a''\<rparr>"

theorem FilteringStream_exact_witness:
  "drain_stream 3 (FilteringStream_ReadNext list_ReadNext list_ReadNext (example_row_filter (\<lambda>x. 5 < x)) example_file_info)
     \<lparr>ft_filter_stream = [example_arrow_batch 0 ''a'' [1, 2], example_arrow_batch 2 ''a'' [3, 9]],
      ft_data_stream = [example_arrow_batch 0 ''b'' [10, 20], example_arrow_batch 2 ''b'' [30, 90]], ft_rows_skipped = 0\<rparr> =
   Some (Inr [\<lparr>ib_partition = 0, ib_layer = 1, ib_path = ''a'', ib_row_position = 2, ib_num_rows = 2,
     ib_columns = [(''b'', [30, 90]), (''a'', [3, 9])], ib_selection = [1]\<rparr>])"
proof -
  let ?fs = "[example_arrow_batch 0 ''a'' [1, 2], example_arrow_batch 2 ''a'' [3, 9]]"
  let ?ds = "[example_arrow_batch 0 ''b'' [10, 20], example_arrow_batch 2 ''b'' [30, 90]]"
  let ?sel = "\<lambda>b :: int arrow_batch. map int (filter (\<lambda>i. 5 < snd (hd (rb_columns (ab_batch b))) ! i) [0..<ab_num_rows b])"
  have "list_all2 aligned ?fs ?ds" by (simp add: aligned_def example_arrow_batch_def)
  moreover have "\<forall>f \<in> set ?fs. rf_ApplyFilter (example_row_filter (\<lambda>x. 5 < x)) f = Inr (?sel f)"
    by (simp add: example_row_filter_def)
  moreover have "?sel (example_arrow_batch 0 ''a'' [1, 2]) = []" "?sel (example_arrow_batch 2 ''a'' [3, 9]) = [1]"
    by code_simp+
  ultimately show ?thesis
    using FilteringStream_exact [of ?fs ?ds "example_row_filter (\<lambda>x. 5 < x)" ?sel 3 example_file_info]
    by (simp add: mk_iceberg_batch_def example_file_info_def joined_def)
      (simp add: example_arrow_batch_def)
qed

section \<open>Reading a file\<close>

text \<open>
  A Parquet file: the fields of its schema, the metadata of its row groups, and what
  \<open>GetRecordBatchReader\<close> returns for a row group and columns, where a batch may be an error.
\<close>

record 'v parquet_file =
  pf_fields :: "schema_field list"
  pf_row_groups :: "row_group_meta list"
  pf_GetRecordBatchReader :: "nat \<Rightarrow> nat list \<Rightarrow> 'v record_batch result list result"

record 'v row_group_reader =
  rr_current_row :: int
  rr_batches :: "'v record_batch result list"

definition RowGroupReaderWithRowNumber :: "'v parquet_file \<Rightarrow> nat \<Rightarrow> nat list \<Rightarrow> 'v row_group_reader result" where
  "RowGroupReaderWithRowNumber input_file row_group_to_read columns =
     bindE (pf_GetRecordBatchReader input_file row_group_to_read columns) (\<lambda>batches.
     bindE (ensure (row_group_to_read \<le> length (pf_row_groups input_file)) ''The file only has fewer row groups'') (\<lambda>_.
     Inr \<lparr>rr_current_row = (\<Sum>m\<leftarrow>take row_group_to_read (pf_row_groups input_file). int (rg_num_rows m)), rr_batches = batches\<rparr>))"

definition RowGroupReaderWithRowNumber_ReadNext :: "'v row_group_reader \<Rightarrow> ('v arrow_batch option \<times> 'v row_group_reader) result" where
  "RowGroupReaderWithRowNumber_ReadNext r =
     (case rr_batches r of
        [] \<Rightarrow> Inr (None, r)
      | next # rest \<Rightarrow>
          bindE next (\<lambda>batch.
          Inr (Some \<lparr>ab_batch = batch, ab_row_position = rr_current_row r\<rparr>,
            \<lparr>rr_current_row = rr_current_row r + int (rb_num_rows batch), rr_batches = rest\<rparr>)))"

record 'v file_reader =
  fr_next_position :: nat
  fr_current_stream :: "'v row_group_reader option"

function ParquetFileReader_ReadNext ::
  "'v parquet_file \<Rightarrow> nat list \<Rightarrow> nat list \<Rightarrow> 'v file_reader \<Rightarrow> ('v arrow_batch option \<times> 'v file_reader) result" where
  "ParquetFileReader_ReadNext input_file row_groups columns st =
     (case fr_current_stream st of
        None \<Rightarrow>
          if fr_next_position st = length row_groups then Inr (None, st)
          else if length row_groups < fr_next_position st then Inl Out_of_range
          else
            bindE (RowGroupReaderWithRowNumber input_file (row_groups ! fr_next_position st) columns) (\<lambda>rg_stream.
            ParquetFileReader_ReadNext input_file row_groups columns
              \<lparr>fr_next_position = Suc (fr_next_position st), fr_current_stream = Some rg_stream\<rparr>)
      | Some rg_stream \<Rightarrow>
          bindE (RowGroupReaderWithRowNumber_ReadNext rg_stream) (\<lambda>(batch, rg_stream').
          case batch of
            None \<Rightarrow> ParquetFileReader_ReadNext input_file row_groups columns (st\<lparr>fr_current_stream := None\<rparr>)
          | Some batch \<Rightarrow> Inr (Some batch, st\<lparr>fr_current_stream := Some rg_stream'\<rparr>)))"
  by pat_completeness auto
termination
  by (relation "measure (\<lambda>(_, row_groups, _, st).
      2 * (length row_groups - fr_next_position st) + (if fr_current_stream st = None then 0 else 1))") auto

declare ParquetFileReader_ReadNext.simps [simp del]

section \<open>Names and default values\<close>

definition MakeProjection :: "(string \<times> string) list \<Rightarrow> 'v arrow_batch \<Rightarrow> 'v arrow_batch result" where
  "MakeProjection old_name_to_new_name batch =
     (let columns = rb_columns (ab_batch batch);
          indices = List.map_filter (\<lambda>(old_name, new_name). GetFieldIndex columns old_name) old_name_to_new_name in
      bindE (mapE (\<lambda>i. bindE (at old_name_to_new_name (fst (columns ! i))) (\<lambda>name. Inr (name, snd (columns ! i)))) indices) (\<lambda>columns'.
      Inr (batch\<lparr>ab_batch := (ab_batch batch)\<lparr>rb_columns := columns'\<rparr>\<rparr>)))"

text \<open>\<open>Literal::MakeColumn\<close> repeats a value; \<open>scalar_value\<close> is the value of an array element that Arrow makes of a scalar.\<close>

definition MakeColumn :: "(scalar \<Rightarrow> 'v) \<Rightarrow> scalar \<Rightarrow> nat \<Rightarrow> 'v list" where
  "MakeColumn scalar_value s len = replicate len (scalar_value s)"

definition ApplyDefaultValues ::
  "(scalar \<Rightarrow> 'v) \<Rightarrow> (int \<times> scalar) list \<Rightarrow> (int \<times> string) list \<Rightarrow> 'v arrow_batch \<Rightarrow> 'v arrow_batch result" where
  "ApplyDefaultValues scalar_value default_value_map remaining_field_ids_with_names batch =
     bindE (foldE (\<lambda>(field_id, name) arrow_batch.
         bindE (at default_value_map field_id) (\<lambda>literal.
         Inr (arrow_batch\<lparr>rb_columns := rb_columns arrow_batch @ [(name, MakeColumn scalar_value literal (rb_num_rows arrow_batch))]\<rparr>)))
       remaining_field_ids_with_names (ab_batch batch)) (\<lambda>arrow_batch.
     Inr (batch\<lparr>ab_batch := arrow_batch\<rparr>))"

section \<open>Concatenation of data streams\<close>

text \<open>The state of \<open>DataScanner\<close>: the rest of the plan, the builder of streams, and the current stream.\<close>

record ('m, 'b, 's) scanner_state =
  sc_meta_stream :: 'm
  sc_builder :: 'b
  sc_current_data_stream :: "'s option"

partial_function (option) DataScanner_ReadNext ::
  "('m, 'p) read_next \<Rightarrow> ('p \<Rightarrow> 'b \<Rightarrow> ('s \<times> 'b) result) \<Rightarrow> ('s, 'c) read_next \<Rightarrow> (('m, 'b, 's) scanner_state, 'c) read_next" where
  "DataScanner_ReadNext read_meta build read_data st =
     (case sc_current_data_stream st of
        None \<Rightarrow>
          bindR (read_meta (sc_meta_stream st)) (\<lambda>(meta, meta_stream).
          case meta of
            None \<Rightarrow> Some (Inr (None, st\<lparr>sc_meta_stream := meta_stream\<rparr>))
          | Some meta \<Rightarrow>
              bindR (Some (build meta (sc_builder st))) (\<lambda>(data_stream, builder).
              DataScanner_ReadNext read_meta build read_data
                \<lparr>sc_meta_stream = meta_stream, sc_builder = builder, sc_current_data_stream = Some data_stream\<rparr>))
      | Some data_stream \<Rightarrow>
          bindR (read_data data_stream) (\<lambda>(batch, data_stream').
          case batch of
            None \<Rightarrow> DataScanner_ReadNext read_meta build read_data (st\<lparr>sc_current_data_stream := None\<rparr>)
          | Some batch \<Rightarrow> Some (Inr (Some batch, st\<lparr>sc_current_data_stream := Some data_stream'\<rparr>))))"

section \<open>What the streams deliver\<close>

fun numbered :: "int \<Rightarrow> 'v record_batch list \<Rightarrow> 'v arrow_batch list" where
  "numbered pos [] = []"
| "numbered pos (b # bs) = \<lparr>ab_batch = b, ab_row_position = pos\<rparr> # numbered (pos + int (rb_num_rows b)) bs"

definition group_start :: "'v parquet_file \<Rightarrow> nat \<Rightarrow> int" where
  "group_start pf rg = (\<Sum>m\<leftarrow>take rg (pf_row_groups pf). int (rg_num_rows m))"

text \<open>The batches that the library returns for columns of a row group, when it does not fail.\<close>

definition group_batches :: "'v parquet_file \<Rightarrow> nat list \<Rightarrow> nat \<Rightarrow> 'v record_batch list" where
  "group_batches pf columns rg =
     (case pf_GetRecordBatchReader pf rg columns of Inl _ \<Rightarrow> [] | Inr bs \<Rightarrow> List.map_filter (case_sum (\<lambda>_. None) Some) bs)"

definition readable :: "'v parquet_file \<Rightarrow> nat list \<Rightarrow> nat \<Rightarrow> bool" where
  "readable pf columns rg \<longleftrightarrow> rg < length (pf_row_groups pf) \<and>
     pf_GetRecordBatchReader pf rg columns = Inr (map Inr (group_batches pf columns rg))"

definition file_batches :: "'v parquet_file \<Rightarrow> nat list \<Rightarrow> nat list \<Rightarrow> 'v arrow_batch list" where
  "file_batches pf columns row_groups =
     concat (map (\<lambda>rg. numbered (group_start pf rg) (group_batches pf columns rg)) row_groups)"

definition group_reader_holds :: "'v row_group_reader option \<Rightarrow> 'v arrow_batch list \<Rightarrow> bool" where
  "group_reader_holds current bs \<longleftrightarrow>
     (case current of None \<Rightarrow> bs = []
      | Some r \<Rightarrow> \<exists>rbs. rr_batches r = map Inr rbs \<and> bs = numbered (rr_current_row r) rbs)"

definition reader_holds :: "'v parquet_file \<Rightarrow> nat list \<Rightarrow> nat list \<Rightarrow> 'v file_reader \<Rightarrow> 'v arrow_batch list \<Rightarrow> bool" where
  "reader_holds pf row_groups columns st bs \<longleftrightarrow> (\<forall>rg \<in> set row_groups. readable pf columns rg) \<and>
     fr_next_position st \<le> length row_groups \<and>
     (\<exists>cur. group_reader_holds (fr_current_stream st) cur \<and>
        bs = cur @ file_batches pf columns (drop (fr_next_position st) row_groups))"

lemma file_reader_step:
  "reader_holds pf row_groups columns st bs \<Longrightarrow>
   (case bs of
      [] \<Rightarrow> \<exists>st'. ParquetFileReader_ReadNext pf row_groups columns st = Inr (None, st') \<and> reader_holds pf row_groups columns st' []
    | b # bs' \<Rightarrow> \<exists>st'. ParquetFileReader_ReadNext pf row_groups columns st = Inr (Some b, st') \<and> reader_holds pf row_groups columns st' bs')"
proof (induction pf row_groups columns st arbitrary: bs rule: ParquetFileReader_ReadNext.induct)
  case (1 pf row_groups columns st)
  let ?n = "fr_next_position st"
  obtain cur where cur: "group_reader_holds (fr_current_stream st) cur" "bs = cur @ file_batches pf columns (drop ?n row_groups)"
    and ok: "\<forall>rg \<in> set row_groups. readable pf columns rg" "?n \<le> length row_groups"
    using "1.prems" by (auto simp: reader_holds_def)
  show ?case
  proof (cases "fr_current_stream st")
    case None
    then have bs: "bs = file_batches pf columns (drop ?n row_groups)" using cur by (simp add: group_reader_holds_def)
    show ?thesis
    proof (cases "?n = length row_groups")
      case True
      then have "ParquetFileReader_ReadNext pf row_groups columns st = Inr (None, st)"
        using None by (subst ParquetFileReader_ReadNext.simps) simp
      then show ?thesis using "1.prems" bs True by (simp add: file_batches_def)
    next
      case False
      let ?rg = "row_groups ! ?n"
      let ?r = "\<lparr>rr_current_row = group_start pf ?rg, rr_batches = map Inr (group_batches pf columns ?rg)\<rparr>"
      let ?st = "\<lparr>fr_next_position = Suc ?n, fr_current_stream = Some ?r\<rparr>"
      have n: "?n < length row_groups" using False ok(2) by simp
      then have "readable pf columns ?rg" using ok(1) by simp
      then have r: "RowGroupReaderWithRowNumber pf ?rg columns = Inr ?r"
        by (simp add: RowGroupReaderWithRowNumber_def readable_def ensure_def group_start_def)
      have "drop ?n row_groups = ?rg # drop (Suc ?n) row_groups" using n by (simp add: Cons_nth_drop_Suc)
      then have "reader_holds pf row_groups columns ?st bs"
        using bs ok n by (auto simp: reader_holds_def group_reader_holds_def file_batches_def)
      moreover have eq: "ParquetFileReader_ReadNext pf row_groups columns st = ParquetFileReader_ReadNext pf row_groups columns ?st"
        using None n r by (subst ParquetFileReader_ReadNext.simps) simp
      ultimately show ?thesis unfolding eq by (intro "1.IH"(1) [OF None]) (use n r in auto)
    qed
  next
    case (Some r)
    then obtain rbs where rbs: "rr_batches r = map Inr rbs" "cur = numbered (rr_current_row r) rbs"
      using cur(1) by (auto simp: group_reader_holds_def)
    show ?thesis
    proof (cases rbs)
      case Nil
      let ?st = "st\<lparr>fr_current_stream := None\<rparr>"
      have read: "RowGroupReaderWithRowNumber_ReadNext r = Inr (None, r)"
        using rbs(1) Nil by (simp add: RowGroupReaderWithRowNumber_ReadNext_def)
      have "reader_holds pf row_groups columns ?st bs"
        using cur(2) rbs(2) Nil ok by (auto simp: reader_holds_def group_reader_holds_def)
      moreover have eq: "ParquetFileReader_ReadNext pf row_groups columns st = ParquetFileReader_ReadNext pf row_groups columns ?st"
        using Some read by (subst ParquetFileReader_ReadNext.simps) simp
      ultimately show ?thesis unfolding eq by (intro "1.IH"(2) [OF Some read]) auto
    next
      case (Cons b rest)
      let ?r = "\<lparr>rr_current_row = rr_current_row r + int (rb_num_rows b), rr_batches = map Inr rest\<rparr>"
      have "ParquetFileReader_ReadNext pf row_groups columns st =
          Inr (Some \<lparr>ab_batch = b, ab_row_position = rr_current_row r\<rparr>, st\<lparr>fr_current_stream := Some ?r\<rparr>)"
        using Some rbs(1) Cons by (subst ParquetFileReader_ReadNext.simps) (simp add: RowGroupReaderWithRowNumber_ReadNext_def)
      then show ?thesis using cur(2) rbs(2) Cons ok by (auto simp: reader_holds_def group_reader_holds_def)
    qed
  qed
qed

interpretation file_reader: stream "\<lambda>st. Some (ParquetFileReader_ReadNext pf row_groups columns st)"
  "reader_holds pf row_groups columns" for pf row_groups columns
  using file_reader_step [of pf row_groups columns] by unfold_locales force+

lemma reader_holds_start:
  "\<forall>rg \<in> set row_groups. readable pf columns rg \<Longrightarrow>
   reader_holds pf row_groups columns \<lparr>fr_next_position = 0, fr_current_stream = None\<rparr> (file_batches pf columns row_groups)"
  by (simp add: reader_holds_def group_reader_holds_def)

text \<open>The scanner holds the rest of the current stream and the streams of the rest of the plan.\<close>

definition scanner_holds ::
  "('m \<Rightarrow> 'p list \<Rightarrow> bool) \<Rightarrow> ('s \<Rightarrow> 'c list \<Rightarrow> bool) \<Rightarrow> ('p \<Rightarrow> bool) \<Rightarrow> ('b \<Rightarrow> bool) \<Rightarrow> ('p \<Rightarrow> 'c list) \<Rightarrow>
   ('m, 'b, 's) scanner_state \<Rightarrow> 'c list \<Rightarrow> bool" where
  "scanner_holds holds_meta holds_data P I out st cs \<longleftrightarrow> I (sc_builder st) \<and>
     (\<exists>ps cur. holds_meta (sc_meta_stream st) ps \<and> (\<forall>p \<in> set ps. P p) \<and>
        (case sc_current_data_stream st of None \<Rightarrow> cur = [] | Some s \<Rightarrow> holds_data s cur) \<and>
        cs = cur @ concat (map out ps))"

locale scanner =
  meta: stream read_meta holds_meta + data: stream read_data holds_data
  for read_meta :: "('m, 'p) read_next" and holds_meta :: "'m \<Rightarrow> 'p list \<Rightarrow> bool"
    and read_data :: "('s, 'c) read_next" and holds_data :: "'s \<Rightarrow> 'c list \<Rightarrow> bool" +
  fixes build :: "'p \<Rightarrow> 'b \<Rightarrow> ('s \<times> 'b) result" and P :: "'p \<Rightarrow> bool" and I :: "'b \<Rightarrow> bool" and out :: "'p \<Rightarrow> 'c list"
  assumes build: "P p \<Longrightarrow> I b \<Longrightarrow> \<exists>s b'. build p b = Inr (s, b') \<and> holds_data s (out p) \<and> I b'"
begin

abbreviation scan :: "(('m, 'b, 's) scanner_state, 'c) read_next" where
  "scan \<equiv> DataScanner_ReadNext read_meta build read_data"

abbreviation scanning :: "('m, 'b, 's) scanner_state \<Rightarrow> 'c list \<Rightarrow> bool" where
  "scanning \<equiv> scanner_holds holds_meta holds_data P I out"

abbreviation delivers :: "('m, 'b, 's) scanner_state \<Rightarrow> 'c list \<Rightarrow> bool" where
  "delivers st cs \<equiv> (case cs of
     [] \<Rightarrow> \<exists>st'. scan st = Some (Inr (None, st')) \<and> scanning st' []
   | c # cs' \<Rightarrow> \<exists>st'. scan st = Some (Inr (Some c, st')) \<and> scanning st' cs')"

lemma scan_current:
  assumes "sc_current_data_stream st = Some s" "holds_data s cur" "I (sc_builder st)" "holds_meta (sc_meta_stream st) ps" "\<forall>p \<in> set ps. P p"
    and "delivers (st\<lparr>sc_current_data_stream := None\<rparr>) (concat (map out ps))"
  shows "delivers st (cur @ concat (map out ps))"
proof (cases cur)
  case Nil
  obtain s' where "read_data s = Some (Inr (None, s'))" using data.read_end assms(2) Nil by blast
  then have eq: "scan st = scan (st\<lparr>sc_current_data_stream := None\<rparr>)"
    using assms(1) by (subst DataScanner_ReadNext.simps) simp
  show ?thesis unfolding eq using assms(6) Nil by simp
next
  case (Cons c rest)
  obtain s' where "read_data s = Some (Inr (Some c, s'))" "holds_data s' rest" using data.read_next assms(2) Cons by blast
  moreover from this have "scan st = Some (Inr (Some c, st\<lparr>sc_current_data_stream := Some s'\<rparr>))"
    using assms(1) by (subst DataScanner_ReadNext.simps) simp
  ultimately show ?thesis using assms(3-5) Cons by (auto simp: scanner_holds_def)
qed

lemma scan_rest:
  "holds_meta (sc_meta_stream st) ps \<Longrightarrow> \<forall>p \<in> set ps. P p \<Longrightarrow> I (sc_builder st) \<Longrightarrow> sc_current_data_stream st = None \<Longrightarrow>
   delivers st (concat (map out ps))"
proof (induction ps arbitrary: st)
  case Nil
  then obtain m where "read_meta (sc_meta_stream st) = Some (Inr (None, m))" "holds_meta m []" using meta.read_end by blast
  then show ?case using Nil.prems by (subst DataScanner_ReadNext.simps) (auto simp: scanner_holds_def)
next
  case (Cons p ps)
  obtain m where m: "read_meta (sc_meta_stream st) = Some (Inr (Some p, m))" "holds_meta m ps"
    using meta.read_next Cons.prems(1) by blast
  obtain s b where s: "build p (sc_builder st) = Inr (s, b)" "holds_data s (out p)" "I b"
    using build [of p "sc_builder st"] Cons.prems by auto
  let ?st = "\<lparr>sc_meta_stream = m, sc_builder = b, sc_current_data_stream = Some s\<rparr>"
  have eq: "scan st = scan ?st" using Cons.prems(4) m(1) s(1) by (subst DataScanner_ReadNext.simps) simp
  have "delivers (?st\<lparr>sc_current_data_stream := None\<rparr>) (concat (map out ps))"
    using Cons.IH [of "?st\<lparr>sc_current_data_stream := None\<rparr>"] m(2) s(3) Cons.prems(2) by simp
  then show ?case
    unfolding eq list.map concat.simps using m(2) s(2,3) Cons.prems(2) by (intro scan_current [where s = s]) auto
qed

lemma scanner_stream: "stream scan scanning"
proof -
  have "delivers st cs" if holds: "scanning st cs" for st cs
  proof -
    obtain ps cur where ps: "holds_meta (sc_meta_stream st) ps" "\<forall>p \<in> set ps. P p" "I (sc_builder st)"
        "case sc_current_data_stream st of None \<Rightarrow> cur = [] | Some s \<Rightarrow> holds_data s cur"
      and cs: "cs = cur @ concat (map out ps)" using holds unfolding scanner_holds_def by blast
    show ?thesis
    proof (cases "sc_current_data_stream st")
      case None
      then show ?thesis using ps cs scan_rest [of st ps] by simp
    next
      case (Some s)
      then show ?thesis using ps scan_rest [of "st\<lparr>sc_current_data_stream := None\<rparr>" ps] unfolding cs
        by (intro scan_current [where s = s]) auto
    qed
  qed
  then show ?thesis by unfold_locales force+
qed

end

text \<open>Columns of a projection and of default values.\<close>

lemma GetFieldIndex_SomeD: "GetFieldIndex columns name = Some i \<Longrightarrow> i < length columns \<and> fst (columns ! i) = name"
proof -
  assume "GetFieldIndex columns name = Some i"
  then have "filter (\<lambda>i. fst (columns ! i) = name) [0..<length columns] = [i]"
    by (auto simp: GetFieldIndex_def split: list.splits)
  then have "i \<in> set (filter (\<lambda>i. fst (columns ! i) = name) [0..<length columns])" by simp
  then show ?thesis by simp
qed

lemma filter_upt_eq: "i < n \<Longrightarrow> filter (\<lambda>j. j = i) [0..<n] = [i]"
  by (induction n) (auto simp: less_Suc_eq filter_empty_conv)

lemma GetFieldIndex_nth:
  assumes "distinct (map fst columns)" "i < length columns" "fst (columns ! i) = name"
  shows "GetFieldIndex columns name = Some i"
proof -
  have "j = i" if "j < length columns" "fst (columns ! j) = name" for j
    using assms that nth_eq_iff_index_eq [OF assms(1), of j i] by simp
  then have "filter (\<lambda>j. fst (columns ! j) = name) [0..<length columns] = filter (\<lambda>j. j = i) [0..<length columns]"
    using assms(3) by (intro filter_cong) auto
  also have "\<dots> = [i]" using assms(2) by (rule filter_upt_eq)
  finally show ?thesis by (simp add: GetFieldIndex_def)
qed

lemma GetFieldIndex_None: "name \<notin> fst ` set columns \<Longrightarrow> GetFieldIndex columns name = None"
  using GetFieldIndex_SomeD [of columns name] by (cases "GetFieldIndex columns name") force+

definition projected :: "(string \<times> string) list \<Rightarrow> 'v columns \<Rightarrow> 'v columns" where
  "projected names columns =
     List.map_filter (\<lambda>(old, new). map_option (\<lambda>i. (new, snd (columns ! i))) (GetFieldIndex columns old)) names"

text \<open>A projection never fails: the columns that are found by name have their name in the map.\<close>

lemma MakeProjection_eq:
  assumes "distinct (map fst names)"
  shows "MakeProjection names b = Inr (b\<lparr>ab_batch := (ab_batch b)\<lparr>rb_columns := projected names (rb_columns (ab_batch b))\<rparr>\<rparr>)"
proof -
  let ?cols = "rb_columns (ab_batch b)"
  let ?rename = "\<lambda>i. bindE (at names (fst (?cols ! i))) (\<lambda>name. Inr (name, snd (?cols ! i)))"
  have "mapE ?rename (List.map_filter (\<lambda>(old, new). GetFieldIndex ?cols old) ns) = Inr (projected ns ?cols)"
    if "set ns \<subseteq> set names" for ns
    using that
  proof (induction ns)
    case (Cons x ns)
    obtain old new where x: "x = (old, new)" by (cases x)
    have "map_of names old = Some new" using Cons.prems assms x by simp
    then have "?rename i = Inr (new, snd (?cols ! i))" if "GetFieldIndex ?cols old = Some i" for i
      using GetFieldIndex_SomeD [OF that] by (simp add: at_def)
    then show ?case using Cons by (auto simp: x projected_def List.map_filter_simps split: option.splits)
  qed (simp add: projected_def List.map_filter_simps)
  then show ?thesis by (simp add: MakeProjection_def Let_def)
qed

definition default_columns :: "(scalar \<Rightarrow> 'v) \<Rightarrow> (int \<times> scalar) list \<Rightarrow> (int \<times> string) list \<Rightarrow> nat \<Rightarrow> 'v columns" where
  "default_columns scalar_value defaults missing n =
     map (\<lambda>(field_id, name). (name, replicate n (scalar_value (the (map_of defaults field_id))))) missing"

lemma ApplyDefaultValues_eq:
  fixes b :: "'v arrow_batch"
  assumes "\<forall>(field_id, name) \<in> set missing. map_of defaults field_id \<noteq> None"
  shows "ApplyDefaultValues scalar_value defaults missing b =
    Inr (b\<lparr>ab_batch := (ab_batch b)\<lparr>rb_columns := rb_columns (ab_batch b) @
      default_columns scalar_value defaults missing (ab_num_rows b)\<rparr>\<rparr>)"
proof -
  have "foldE (\<lambda>(field_id, name) arrow_batch.
        bindE (at defaults field_id) (\<lambda>literal.
        Inr (arrow_batch\<lparr>rb_columns := rb_columns arrow_batch @ [(name, MakeColumn scalar_value literal (rb_num_rows arrow_batch))]\<rparr>)))
      missing rb = Inr (rb\<lparr>rb_columns := rb_columns rb @ default_columns scalar_value defaults missing (rb_num_rows rb)\<rparr>)" for rb :: "'v record_batch"
    using assms
    by (induction missing arbitrary: rb) (auto simp: default_columns_def at_def MakeColumn_def)
  then show ?thesis by (simp add: ApplyDefaultValues_def)
qed

end
