(* ===== verification/File_Reader.thy ===== *)
theory File_Reader
  imports Streams Equality_Correctness Json
begin

text \<open>
  The streams of one data file and of a whole scan: the names of columns without field
  identifier (\<open>streams/iceberg/schema_name_mapper.cpp\<close>), the columns to read and the pipeline of
  a file (\<open>file_reader_builder.cpp\<close>), and the pipeline of a scan (\<open>builder.h\<close>,
  \<open>projection_stream.h\<close>).  Every stream is its state with the data it was constructed with.
  Arrow's Parquet reader and the row filter are parameters, logging is left out.
\<close>

section \<open>Name mapping\<close>

definition insert_name :: "int \<Rightarrow> json \<Rightarrow> (string \<times> int) list \<Rightarrow> (string \<times> int) list result" where
  "insert_name field_id_value name mp =
     (case name of
        J_string s \<Rightarrow>
          bindE (ensure (map_of mp (c_str s) = None) ''names at the same level are not unique'') (\<lambda>_.
          Inr ((c_str s, field_id_value) # mp))
      | _ \<Rightarrow> Inl (Runtime_error ''names field must be an array of strings''))"

definition mapper_element :: "json \<Rightarrow> (string \<times> int) list \<Rightarrow> (string \<times> int) list result" where
  "mapper_element element mp =
     bindE (ensure (IsObject element) ''doc elements must be objects'') (\<lambda>_.
     bindE (HasMember element ''names'') (\<lambda>has_names.
     bindE (ensure has_names ''doc elements must contain names field'') (\<lambda>_.
     bindE (member_at element ''names'') (\<lambda>names_field.
     case names_field of
       J_array names \<Rightarrow>
         bindE (HasMember element ''field-id'') (\<lambda>has_field_id.
         if has_field_id then
           bindE (member_at element ''field-id'') (\<lambda>field_id.
           case GetInt field_id of
             Inl _ \<Rightarrow> Inl (Runtime_error ''field-id field must be an int'')
           | Inr field_id_value \<Rightarrow> foldE (insert_name field_id_value) names mp)
         else Inr mp)
     | _ \<Rightarrow> Inl (Runtime_error ''names field must be an array'')))))"

definition SchemaNameMapper_Mapper :: "json \<Rightarrow> (string \<times> int) list result" where
  "SchemaNameMapper_Mapper doc =
     (case doc of J_array elements \<Rightarrow> foldE mapper_element elements []
      | _ \<Rightarrow> Inl (Runtime_error ''doc is not an Array''))"

definition SchemaNameMapper :: "(string \<Rightarrow> json option) \<Rightarrow> string \<Rightarrow> (string \<times> int) list result" where
  "SchemaNameMapper parse text' =
     (case parse text' of
        None \<Rightarrow> Inl (Runtime_error ''schema.name-mapping.default is not a valid JSON'')
      | Some doc \<Rightarrow> SchemaNameMapper_Mapper doc)"

definition GetFieldIdByName :: "(string \<times> int) list \<Rightarrow> string \<Rightarrow> int option" where
  "GetFieldIdByName mp name = map_of mp name"

section \<open>Columns to read\<close>

definition InsertOrFail :: "(int \<times> nat) list \<Rightarrow> int \<Rightarrow> nat \<Rightarrow> (int \<times> nat) list result" where
  "InsertOrFail mp key value =
     bindE (ensure (map_of mp key = None) ''field ids are not unique'') (\<lambda>_. Inr ((key, value) # mp))"

definition MakeFieldIdToIndexMap :: "schema_field list \<Rightarrow> (string \<times> int) list option \<Rightarrow> (int \<times> nat) list result" where
  "MakeFieldIdToIndexMap nodes schema_name_mapper =
     foldE (\<lambda>(i, field) field_id_to_index.
       if sf_field_id field \<ge> 0 then InsertOrFail field_id_to_index (sf_field_id field) i
       else case schema_name_mapper of
         None \<Rightarrow> Inr field_id_to_index
       | Some mapper \<Rightarrow>
           (case GetFieldIdByName mapper (sf_name field) of
              None \<Rightarrow> Inr field_id_to_index
            | Some possible_field_id \<Rightarrow> InsertOrFail field_id_to_index possible_field_id i))
       (enumerate 0 nodes) []"

record ParquetColumnInfo =
  ci_field_id :: int
  ci_column_position :: "nat option"
  ci_parquet_name :: string
  ci_result_name :: string

text \<open>The configuration of \<open>FileReaderBuilder\<close> and the files it opens.\<close>

record ('v, 'b) reader_config =
  rc_field_ids_to_retrieve :: "int list"
  rc_equality_deletes :: equality_deletes
  rc_mapper :: "(int \<times> string) list"
  rc_OpenParquet :: "string \<Rightarrow> 'v parquet_file result"
  rc_OpenDeletionVector :: "string \<Rightarrow> int \<Rightarrow> int \<Rightarrow> 'b deletion_vector result"
  rc_rg_filter :: "row_group_filter option"
  rc_row_filter :: "'v row_filter"
  rc_schema_name_mapper :: "(string \<times> int) list option"
  rc_default_value_map :: "(int \<times> scalar) list"
  rc_scalar_value :: "scalar \<Rightarrow> 'v"

definition GetParquetColumnInfos :: "('v, 'b) reader_config \<Rightarrow> 'v parquet_file \<Rightarrow> int list \<Rightarrow> ParquetColumnInfo list result" where
  "GetParquetColumnInfos cfg metadata field_ids =
     bindE (MakeFieldIdToIndexMap (pf_fields metadata) (rc_schema_name_mapper cfg)) (\<lambda>field_id_to_index.
     Inr (map (\<lambda>field_id.
       let result_name = FieldIdToColumnName (rc_mapper cfg) field_id in
       case map_of field_id_to_index field_id of
         Some i \<Rightarrow> \<lparr>ci_field_id = field_id, ci_column_position = Some i, ci_parquet_name = sf_name (pf_fields metadata ! i),
                    ci_result_name = result_name\<rparr>
       | None \<Rightarrow> \<lparr>ci_field_id = field_id, ci_column_position = None, ci_parquet_name = [], ci_result_name = result_name\<rparr>)
       field_ids))"

section \<open>The stream of a file\<close>

text \<open>\<open>ParquetFileReader\<close>, \<open>ProjectionStream\<close> and \<open>DefaultValueApplier\<close> in this order.\<close>

record 'v final_stream =
  fs_input_file :: "'v parquet_file"
  fs_row_groups :: "nat list"
  fs_columns :: "nat list"
  fs_old_name_to_new_name :: "(string \<times> string) list"
  fs_default_value_map :: "(int \<times> scalar) list"
  fs_scalar_value :: "scalar \<Rightarrow> 'v"
  fs_remaining_field_ids_with_names :: "(int \<times> string) list"
  fs_reader :: "'v file_reader"

definition final_ReadNext :: "('v final_stream, 'v arrow_batch) read_next" where
  "final_ReadNext st =
     bindR (map_ReadNext (ApplyDefaultValues (fs_scalar_value st) (fs_default_value_map st) (fs_remaining_field_ids_with_names st))
       (map_ReadNext (MakeProjection (fs_old_name_to_new_name st))
         (\<lambda>r. Some (ParquetFileReader_ReadNext (fs_input_file st) (fs_row_groups st) (fs_columns st) r))) (fs_reader st))
     (\<lambda>(batch, reader'). Some (Inr (batch, st\<lparr>fs_reader := reader'\<rparr>)))"

definition MakeFinalStream ::
  "('v, 'b) reader_config \<Rightarrow> 'v parquet_file \<Rightarrow> nat list \<Rightarrow> int list \<Rightarrow> 'v final_stream result" where
  "MakeFinalStream cfg metadata row_groups field_ids =
     bindE (GetParquetColumnInfos cfg metadata field_ids) (\<lambda>cols.
     Inr \<lparr>fs_input_file = metadata, fs_row_groups = row_groups,
          fs_columns = List.map_filter ci_column_position cols,
          fs_old_name_to_new_name =
            fold (\<lambda>col result. omap_alter (ci_parquet_name col) (ci_result_name col) (\<lambda>_. ci_result_name col) result)
              (filter (\<lambda>col. ci_column_position col \<noteq> None) cols) [],
          fs_default_value_map = rc_default_value_map cfg, fs_scalar_value = rc_scalar_value cfg,
          fs_remaining_field_ids_with_names =
            map (\<lambda>col. (ci_field_id col, ci_result_name col))
              (filter (\<lambda>col. ci_column_position col = None \<and> map_of (rc_default_value_map cfg) (ci_field_id col) \<noteq> None) cols),
          fs_reader = \<lparr>fr_next_position = 0, fr_current_stream = None\<rparr>\<rparr>)"

text \<open>\<open>FilteringStream\<close>, and \<open>DeletionVectorApplier\<close> if the file has a deletion vector.\<close>

record ('v, 'b) data_stream =
  ds_filtering :: "('v final_stream, 'v final_stream) filtering_state"
  ds_row_filter :: "'v row_filter"
  ds_file_info :: partition_layer_file
  ds_dv :: "'b deletion_vector option"

definition data_ReadNext :: "'b roaring_api \<Rightarrow> (('v, 'b) data_stream, 'v columns iceberg_batch) read_next" where
  "data_ReadNext api st =
     (let filtering = FilteringStream_ReadNext final_ReadNext final_ReadNext (ds_row_filter st) (ds_file_info st) in
      bindR ((case ds_dv st of None \<Rightarrow> filtering | Some dv \<Rightarrow> map_ReadNext (ApplyDeletionVector api dv) filtering) (ds_filtering st))
        (\<lambda>(batch, filtering'). Some (Inr (batch, st\<lparr>ds_filtering := filtering'\<rparr>))))"

record annotated_data_path =
  ap_file :: partition_layer_file
  ap_segments :: "segment list"
  ap_dv :: "dv_info option"

record 'b builder_state =
  bd_last_data_file_path :: string
  bd_last_dv :: "'b deletion_vector option"

definition field_ids_required :: "('v, 'b) reader_config \<Rightarrow> annotated_data_path \<Rightarrow> int list" where
  "field_ids_required cfg path =
     sort (remdups (rc_field_ids_to_retrieve cfg @
       GetFieldIds (rc_equality_deletes cfg) (pl_partition (ap_file path)) (pl_layer (ap_file path))))"

definition field_ids_for_filter :: "('v, 'b) reader_config \<Rightarrow> int list" where
  "field_ids_for_filter cfg = sort (remdups (rf_involved_field_ids (rc_row_filter cfg)))"

definition update_last_dv :: "('v, 'b) reader_config \<Rightarrow> annotated_data_path \<Rightarrow> 'b builder_state \<Rightarrow> 'b builder_state result" where
  "update_last_dv cfg path st =
     (if pl_path (ap_file path) \<noteq> bd_last_data_file_path st then
        (case ap_dv path of
           None \<Rightarrow> Inr \<lparr>bd_last_data_file_path = pl_path (ap_file path), bd_last_dv = None\<rparr>
         | Some dv_info \<Rightarrow>
             bindE (rc_OpenDeletionVector cfg (dv_path dv_info) (dv_offset dv_info) (dv_length dv_info)) (\<lambda>dv.
             Inr \<lparr>bd_last_data_file_path = pl_path (ap_file path), bd_last_dv = Some dv\<rparr>))
      else Inr st)"

definition FileReaderBuilder_Build ::
  "('v, 'b) reader_config \<Rightarrow> annotated_data_path \<Rightarrow> 'b builder_state \<Rightarrow> (('v, 'b) data_stream \<times> 'b builder_state) result" where
  "FileReaderBuilder_Build cfg path st =
     bindE (rc_OpenParquet cfg (pl_path (ap_file path))) (\<lambda>metadata.
     let filter_ids = field_ids_for_filter cfg;
         data_ids = filter (\<lambda>f. f \<notin> set filter_ids) (field_ids_required cfg path) in
     bindE (GetRowGroupsToRetrieve (pf_row_groups metadata) (ap_segments path)) (\<lambda>row_groups_matching_offsets.
     bindE (matching_row_groups (rc_rg_filter cfg) (pf_row_groups metadata) row_groups_matching_offsets) (\<lambda>row_groups.
     bindE (MakeFinalStream cfg metadata row_groups data_ids) (\<lambda>data_stream.
     bindE (MakeFinalStream cfg metadata row_groups filter_ids) (\<lambda>filter_stream.
     bindE (update_last_dv cfg path st) (\<lambda>st'.
     Inr (\<lparr>ds_filtering = \<lparr>ft_filter_stream = filter_stream, ft_data_stream = data_stream, ft_rows_skipped = 0\<rparr>,
           ds_row_filter = rc_row_filter cfg, ds_file_info = ap_file path, ds_dv = bd_last_dv st'\<rparr>, st')))))))"

section \<open>The stream of a scan\<close>

definition IcebergProjectionStream_batch :: "(string \<times> string) list \<Rightarrow> 'v columns iceberg_batch \<Rightarrow> 'v columns iceberg_batch result" where
  "IcebergProjectionStream_batch old_name_to_new_name batch =
     (let batch_with_row_number = \<lparr>ab_batch = \<lparr>rb_num_rows = nat (ib_num_rows batch), rb_columns = ib_columns batch\<rparr>,
            ab_row_position = ib_row_position batch\<rparr> in
      bindE (MakeProjection old_name_to_new_name batch_with_row_number) (\<lambda>batch_after_projection.
      Inr (batch\<lparr>ib_num_rows := int (ab_num_rows batch_with_row_number),
                 ib_columns := rb_columns (ab_batch batch_with_row_number)\<rparr>)))"

definition MakeMapper :: "schema \<Rightarrow> (int \<times> string) list" where
  "MakeMapper sch = fold (\<lambda>col m. omap_alter (nf_field_id col) (nf_name col) (\<lambda>_. nf_name col) m) (s_fields sch) []"

definition MakeDefaultValueMap :: "schema \<Rightarrow> (int \<times> scalar) list" where
  "MakeDefaultValueMap sch =
     fold (\<lambda>col m. case nf_initial_default col of None \<Rightarrow> m | Some d \<Rightarrow> omap_emplace (nf_field_id col) d m) (s_fields sch) []"

definition MakeFinalProjection :: "(int \<times> string) list \<Rightarrow> int list \<Rightarrow> (string \<times> string) list" where
  "MakeFinalProjection mapper field_ids_to_retrieve =
     fold (\<lambda>field_id m. let name = FieldIdToColumnName mapper field_id in omap_alter name name (\<lambda>_. name) m) field_ids_to_retrieve []"

text \<open>The arguments of \<open>MakeIcebergStream\<close>, and the libraries and files behind it.\<close>

record 'v scan_arguments =
  sa_meta_stream :: "annotated_data_path list"
  sa_positional_deletes :: positional_deletes
  sa_equality_deletes :: equality_deletes
  sa_cfg :: "eq_config option"
  sa_rg_filter :: "row_group_filter option"
  sa_row_filter :: "'v row_filter option"
  sa_schema :: schema
  sa_field_ids_to_retrieve :: "int list"
  sa_schema_name_mapping :: "string option"

record ('v, 'b) scan_environment =
  se_OpenParquet :: "string \<Rightarrow> 'v parquet_file result"
  se_OpenDeletionVector :: "string \<Rightarrow> int \<Rightarrow> int \<Rightarrow> 'b deletion_vector result"
  se_open_equality_delete :: "string \<Rightarrow> eq_reader result"
  se_open_positional_delete :: "string \<Rightarrow> row_group list result"
  se_roaring :: "'b roaring_api"
  se_byte_width :: "arrow_type \<Rightarrow> int"
  se_column :: "'v list \<Rightarrow> column"
  se_scalar_value :: "scalar \<Rightarrow> 'v"
  se_parse :: "string \<Rightarrow> json option"
  se_fuel :: nat

text \<open>\<open>RecordBatch::GetColumnByName\<close>.\<close>

definition GetColumnByName :: "'v columns \<Rightarrow> string \<Rightarrow> 'v list option" where
  "GetColumnByName columns name = map_option (\<lambda>i. snd (columns ! i)) (GetFieldIndex columns name)"

text \<open>The constructor of \<open>FileReaderBuilder\<close>.\<close>

definition FileReaderBuilder ::
  "('v, 'b) scan_environment \<Rightarrow> 'v scan_arguments \<Rightarrow> (string \<times> int) list option \<Rightarrow> ('v, 'b) reader_config" where
  "FileReaderBuilder env args schema_name_mapper =
     \<lparr>rc_field_ids_to_retrieve = sa_field_ids_to_retrieve args, rc_equality_deletes = sa_equality_deletes args,
      rc_mapper = MakeMapper (sa_schema args), rc_OpenParquet = se_OpenParquet env,
      rc_OpenDeletionVector = se_OpenDeletionVector env, rc_rg_filter = sa_rg_filter args,
      rc_row_filter = (case sa_row_filter args of None \<Rightarrow> PassThroughFilter [] | Some row_filter \<Rightarrow> row_filter),
      rc_schema_name_mapper = schema_name_mapper, rc_default_value_map = MakeDefaultValueMap (sa_schema args),
      rc_scalar_value = se_scalar_value env\<rparr>"

type_synonym ('v, 'b) scan_state =
  "(((annotated_data_path list, 'b builder_state, ('v, 'b) data_stream) scanner_state \<times> eda_state) \<times> pda_state)"

record ('v, 'b) iceberg_stream =
  is_builder :: "('v, 'b) reader_config"
  is_equality_config :: "eq_config option"
  is_positional_deletes :: positional_deletes
  is_projection :: "(string \<times> string) list"
  is_state :: "('v, 'b) scan_state"

definition MakeIcebergStream :: "('v, 'b) scan_environment \<Rightarrow> 'v scan_arguments \<Rightarrow> ('v, 'b) iceberg_stream result" where
  "MakeIcebergStream env args =
     bindE (case sa_schema_name_mapping args of
              None \<Rightarrow> Inr None
            | Some mapping \<Rightarrow> bindE (SchemaNameMapper (se_parse env) mapping) (\<lambda>m. Inr (Some m))) (\<lambda>schema_name_mapper.
     bindE (ensure (sa_equality_deletes args = [] \<or> sa_cfg args \<noteq> None)
       ''equality deletes are present, but config for equality deletes is not set'') (\<lambda>_.
     Inr \<lparr>is_builder = FileReaderBuilder env args schema_name_mapper,
          is_equality_config = (if sa_equality_deletes args = [] then None else sa_cfg args),
          is_positional_deletes = sa_positional_deletes args,
          is_projection = MakeFinalProjection (MakeMapper (sa_schema args)) (sa_field_ids_to_retrieve args),
          is_state = ((\<lparr>sc_meta_stream = sa_meta_stream args, sc_builder = \<lparr>bd_last_data_file_path = [], bd_last_dv = None\<rparr>,
              sc_current_data_stream = None\<rparr>, \<lparr>ea_handler = None, ea_current_state = None\<rparr>),
            \<lparr>ps_current_state = None, ps_positional_delete = None\<rparr>)\<rparr>))"

text \<open>\<open>ReadNext\<close> of the stream: the scanner, the appliers that were put on top of it, and the last projection.\<close>

definition equality_step ::
  "('v, 'b) scan_environment \<Rightarrow> ('v, 'b) iceberg_stream \<Rightarrow> 'v columns iceberg_batch \<Rightarrow> eda_state \<Rightarrow> ('v columns iceberg_batch \<times> eda_state) run" where
  "equality_step env st batch t =
     (case is_equality_config st of
        None \<Rightarrow> Some (Inr (batch, t))
      | Some config \<Rightarrow>
          Some (eda_batch (se_byte_width env) (se_open_equality_delete env) config (rc_equality_deletes (is_builder st))
            (\<lambda>columns name. map_option (se_column env) (GetColumnByName columns name)) (rc_mapper (is_builder st)) batch t))"

definition positional_step ::
  "('v, 'b) scan_environment \<Rightarrow> ('v, 'b) iceberg_stream \<Rightarrow> 'v columns iceberg_batch \<Rightarrow> pda_state \<Rightarrow> ('v columns iceberg_batch \<times> pda_state) run" where
  "positional_step env st batch t =
     (if is_positional_deletes st = [] then Some (Inr (batch, t))
      else pda_batch (se_fuel env) (se_open_positional_delete env) (is_positional_deletes st) batch t)"

definition scan_ReadNext :: "('v, 'b) scan_environment \<Rightarrow> (('v, 'b) iceberg_stream, 'v columns iceberg_batch) read_next" where
  "scan_ReadNext env st =
     bindR (map_ReadNext (IcebergProjectionStream_batch (is_projection st))
       (apply_ReadNext (positional_step env st)
         (apply_ReadNext (equality_step env st)
           (DataScanner_ReadNext list_ReadNext (FileReaderBuilder_Build (is_builder st)) (data_ReadNext (se_roaring env))))) (is_state st))
     (\<lambda>(batch, s). Some (Inr (batch, st\<lparr>is_state := s\<rparr>)))"

end
