(* ===== verification/File_Correctness.thy ===== *)
theory File_Correctness
  imports File_Reader
begin

text \<open>
  What a scan delivers: the stream of a data file returns, in the order of the file, exactly the
  rows of the chosen row groups that pass the filter and are not in the deletion vector, each with
  its position and the values of the requested fields; the stream of a scan returns the batches
  of the files in the order of the plan, without the rows that positional and equality deletes
  remove.
\<close>

section \<open>Parquet files as tables\<close>

text \<open>
  A row group is delivered in pieces of consecutive rows.  The documented behaviour of the
  Parquet reader: names of columns are distinct, and for any columns the batches of a row group
  have the same sizes, none of them 0, and hold the cells of the columns.
\<close>

fun pieces :: "nat \<Rightarrow> nat list \<Rightarrow> (nat \<times> nat) list" where
  "pieces s [] = []"
| "pieces s (n # ns) = (s, n) # pieces (s + n) ns"

definition piece_batch :: "'v parquet_file \<Rightarrow> (nat \<Rightarrow> nat \<Rightarrow> nat \<Rightarrow> 'v) \<Rightarrow> nat list \<Rightarrow> nat \<Rightarrow> nat \<times> nat \<Rightarrow> 'v record_batch" where
  "piece_batch pf cell columns rg = (\<lambda>(s, n).
     \<lparr>rb_num_rows = n, rb_columns = map (\<lambda>c. (sf_name (pf_fields pf ! c), map (cell rg c) [s..<s + n])) columns\<rparr>)"

definition reads_table :: "'v parquet_file \<Rightarrow> (nat \<Rightarrow> nat list) \<Rightarrow> (nat \<Rightarrow> nat \<Rightarrow> nat \<Rightarrow> 'v) \<Rightarrow> bool" where
  "reads_table pf sizes cell \<longleftrightarrow> distinct (map sf_name (pf_fields pf)) \<and>
     (\<forall>rg < length (pf_row_groups pf).
        sum_list (sizes rg) = rg_num_rows (pf_row_groups pf ! rg) \<and> (\<forall>n \<in> set (sizes rg). 0 < n) \<and>
        (\<forall>columns. set columns \<subseteq> {..<length (pf_fields pf)} \<longrightarrow>
           pf_GetRecordBatchReader pf rg columns = Inr (map (\<lambda>p. Inr (piece_batch pf cell columns rg p)) (pieces 0 (sizes rg)))))"

definition file_pieces :: "(nat \<Rightarrow> nat list) \<Rightarrow> nat list \<Rightarrow> (nat \<times> nat \<times> nat) list" where
  "file_pieces sizes row_groups = concat (map (\<lambda>rg. map (Pair rg) (pieces 0 (sizes rg))) row_groups)"

definition piece_arrow_batch ::
  "'v parquet_file \<Rightarrow> (nat \<Rightarrow> nat \<Rightarrow> nat \<Rightarrow> 'v) \<Rightarrow> nat list \<Rightarrow> nat \<times> nat \<times> nat \<Rightarrow> 'v arrow_batch" where
  "piece_arrow_batch pf cell columns = (\<lambda>(rg, s, n).
     \<lparr>ab_batch = piece_batch pf cell columns rg (s, n), ab_row_position = group_start pf rg + int s\<rparr>)"

lemma numbered_pieces:
  "(\<And>s n. rb_num_rows (f (s, n)) = n) \<Longrightarrow>
   numbered (p + int s) (map f (pieces s ns)) = map (\<lambda>(t, n). \<lparr>ab_batch = f (t, n), ab_row_position = p + int t\<rparr>) (pieces s ns)"
  by (induction s ns rule: pieces.induct) (simp_all add: add.assoc)

lemma map_filter_Inr: "List.map_filter (case_sum (\<lambda>_. None) Some) (map (\<lambda>x. Inr (f x)) xs) = map f xs"
  by (induction xs) (simp_all add: List.map_filter_simps)

lemma table_group:
  assumes "reads_table pf sizes cell" "rg < length (pf_row_groups pf)" "set columns \<subseteq> {..<length (pf_fields pf)}"
  shows "readable pf columns rg" "group_batches pf columns rg = map (piece_batch pf cell columns rg) (pieces 0 (sizes rg))"
proof -
  have "pf_GetRecordBatchReader pf rg columns = Inr (map (\<lambda>p. Inr (piece_batch pf cell columns rg p)) (pieces 0 (sizes rg)))"
    using assms unfolding reads_table_def by blast
  then show "group_batches pf columns rg = map (piece_batch pf cell columns rg) (pieces 0 (sizes rg))"
    and "readable pf columns rg"
    using assms(2) by (simp_all add: readable_def group_batches_def map_filter_Inr comp_def)
qed

lemma file_batches_pieces:
  assumes "reads_table pf sizes cell" "set row_groups \<subseteq> {..<length (pf_row_groups pf)}" "set columns \<subseteq> {..<length (pf_fields pf)}"
  shows "file_batches pf columns row_groups = map (piece_arrow_batch pf cell columns) (file_pieces sizes row_groups)"
proof -
  have "numbered (group_start pf rg) (group_batches pf columns rg) =
      map (piece_arrow_batch pf cell columns) (map (Pair rg) (pieces 0 (sizes rg)))" if "rg \<in> set row_groups" for rg
    using numbered_pieces [of "piece_batch pf cell columns rg" "group_start pf rg" 0 "sizes rg"]
      table_group(2) [OF assms(1) _ assms(3), of rg] assms(2) that
    by (auto simp: piece_batch_def piece_arrow_batch_def)
  then show ?thesis by (simp add: file_batches_def file_pieces_def map_concat cong: map_cong)
qed

text \<open>The rows of the pieces are the rows of the row group.\<close>

lemma concat_pieces:
  "concat (map (\<lambda>(t, n). map f (filter p [t..<t + n])) (pieces s ns)) = map f (filter p [s..<s + sum_list ns])"
proof (induction s ns rule: pieces.induct)
  case (2 s n ns)
  have "[s..<s + (n + sum_list ns)] = [s..<s + n] @ [s + n..<s + n + sum_list ns]"
    using upt_add_eq_append [of s "s + n" "sum_list ns"] by (simp add: add.assoc)
  then show ?case using 2 by (simp add: add.assoc)
qed simp

lemma pieces_bounds: "(t, n) \<in> set (pieces s ns) \<Longrightarrow> s \<le> t \<and> t + n \<le> s + sum_list ns \<and> n \<in> set ns"
  by (induction s ns rule: pieces.induct) force+

section \<open>Columns of a final stream\<close>

text \<open>The field identifier of a column: its own, or the one that the name mapping gives to its name.\<close>

definition column_field_id :: "(string \<times> int) list option \<Rightarrow> schema_field \<Rightarrow> int option" where
  "column_field_id mapping field =
     (if sf_field_id field \<ge> 0 then Some (sf_field_id field)
      else case mapping of None \<Rightarrow> None | Some m \<Rightarrow> map_of m (sf_name field))"

lemma index_map_step:
  "foldE (\<lambda>(i, field) m.
       if sf_field_id field \<ge> 0 then InsertOrFail m (sf_field_id field) i
       else case mapping of None \<Rightarrow> Inr m
         | Some mapper \<Rightarrow> (case GetFieldIdByName mapper (sf_name field) of None \<Rightarrow> Inr m | Some fid \<Rightarrow> InsertOrFail m fid i)) xs m =
   foldE (\<lambda>(i, field) m. case column_field_id mapping field of None \<Rightarrow> Inr m | Some fid \<Rightarrow> InsertOrFail m fid i) xs m"
proof -
  have "(if sf_field_id field \<ge> 0 then InsertOrFail m (sf_field_id field) i
       else case mapping of None \<Rightarrow> Inr m
         | Some mapper \<Rightarrow> (case GetFieldIdByName mapper (sf_name field) of None \<Rightarrow> Inr m | Some fid \<Rightarrow> InsertOrFail m fid i)) =
     (case column_field_id mapping field of None \<Rightarrow> Inr m | Some fid \<Rightarrow> InsertOrFail m fid i)" for i field m
    by (auto simp: column_field_id_def GetFieldIdByName_def split: option.splits)
  then show ?thesis by simp
qed

lemma index_map_loop:
  "foldE (\<lambda>(i, field) m. case column_field_id mapping field of None \<Rightarrow> Inr m | Some fid \<Rightarrow> InsertOrFail m fid i)
     (enumerate k nodes) m0 = Inr m \<Longrightarrow> distinct (map fst m0) \<Longrightarrow> distinct (map snd m0) \<Longrightarrow> \<forall>i \<in> snd ` set m0. i < k \<Longrightarrow>
   distinct (map fst m) \<and> distinct (map snd m) \<and>
   set m = set m0 \<union> {(fid, k + i) |fid i. i < length nodes \<and> column_field_id mapping (nodes ! i) = Some fid}"
proof (induction nodes arbitrary: k m0)
  case (Cons node nodes)
  have split: "{(fid, k + i) |fid i. i < length (node # nodes) \<and> column_field_id mapping ((node # nodes) ! i) = Some fid} =
      {(fid, k) |fid. column_field_id mapping node = Some fid} \<union>
      {(fid, Suc k + i) |fid i. i < length nodes \<and> column_field_id mapping (nodes ! i) = Some fid}"
    by (force simp: less_Suc_eq_0_disj)
  show ?case
  proof (cases "column_field_id mapping node")
    case None
    have "\<forall>i \<in> snd ` set m0. i < Suc k" using Cons.prems(4) by force
    then show ?thesis unfolding split using Cons.IH [of "Suc k" m0] Cons.prems None by auto
  next
    case (Some fid)
    then have new: "map_of m0 fid = None" and rest: "foldE (\<lambda>(i, field) m. case column_field_id mapping field of None \<Rightarrow> Inr m
        | Some fid \<Rightarrow> InsertOrFail m fid i) (enumerate (Suc k) nodes) ((fid, k) # m0) = Inr m"
      using Cons.prems(1) by (auto simp: InsertOrFail_def ensure_def bindE_def split: if_splits)
    have "fid \<notin> fst ` set m0" "k \<notin> snd ` set m0" "\<forall>i \<in> snd ` set ((fid, k) # m0). i < Suc k"
      using new Cons.prems(4) by (auto simp: map_of_eq_None_iff)
    then show ?thesis unfolding split using Cons.IH [OF rest] Cons.prems(2-4) Some by auto
  qed
qed simp

lemma index_map_ok:
  assumes "MakeFieldIdToIndexMap nodes mapping = Inr m"
  shows "map_of m fid = Some i \<longleftrightarrow> i < length nodes \<and> column_field_id mapping (nodes ! i) = Some fid"
    and "map_of m fid = Some i \<Longrightarrow> map_of m fid' = Some i \<Longrightarrow> fid = fid'"
proof -
  have ok: "distinct (map fst m)" "set m = {(fid, i) |fid i. i < length nodes \<and> column_field_id mapping (nodes ! i) = Some fid}"
    using index_map_loop [of mapping 0 nodes "[]" m] assms by (auto simp: MakeFieldIdToIndexMap_def index_map_step)
  show look_up: "map_of m fid = Some i \<longleftrightarrow> i < length nodes \<and> column_field_id mapping (nodes ! i) = Some fid" for fid i
    using map_of_eq_Some_iff [OF ok(1)] ok(2) by auto
  show "map_of m fid = Some i \<Longrightarrow> map_of m fid' = Some i \<Longrightarrow> fid = fid'" using look_up by force
qed

text \<open>The value of a field in a row of the file: the cell of its column, or its default.\<close>

definition column_values ::
  "('v, 'b) reader_config \<Rightarrow> (int \<times> nat) list \<Rightarrow> (nat \<Rightarrow> nat \<Rightarrow> nat \<Rightarrow> 'v) \<Rightarrow> nat \<times> nat \<times> nat \<Rightarrow> int \<Rightarrow> 'v list option" where
  "column_values cfg index cell = (\<lambda>(rg, s, n) fid.
     (case map_of index fid of
        Some c \<Rightarrow> Some (map (cell rg c) [s..<s + n])
      | None \<Rightarrow> map_option (\<lambda>d. replicate n (rc_scalar_value cfg d)) (map_of (rc_default_value_map cfg) fid)))"

definition field_value ::
  "('v, 'b) reader_config \<Rightarrow> (int \<times> nat) list \<Rightarrow> (nat \<Rightarrow> nat \<Rightarrow> nat \<Rightarrow> 'v) \<Rightarrow> nat \<Rightarrow> nat \<Rightarrow> int \<Rightarrow> 'v option" where
  "field_value cfg index cell rg r fid =
     (case map_of index fid of
        Some c \<Rightarrow> Some (cell rg c r)
      | None \<Rightarrow> map_option (rc_scalar_value cfg) (map_of (rc_default_value_map cfg) fid))"

lemma column_values_nth:
  "i < n \<Longrightarrow> map_option (\<lambda>vs. vs ! i) (column_values cfg index cell (rg, s, n) fid) = field_value cfg index cell rg (s + i) fid"
  by (cases "map_of index fid"; cases "map_of (rc_default_value_map cfg) fid") (simp_all add: column_values_def field_value_def)

lemma column_values_length:
  "column_values cfg index cell (rg, s, n) fid = Some vs \<Longrightarrow> length vs = n"
  by (auto simp: column_values_def split: option.splits)

lemma GetColumnByName_map_of:
  assumes "distinct (map fst columns)"
  shows "GetColumnByName columns name = map_of columns name"
proof (cases "map_of columns name")
  case None
  then have "GetFieldIndex columns name = None" using GetFieldIndex_None [of name columns] by (simp add: map_of_eq_None_iff)
  then show ?thesis using None by (simp add: GetColumnByName_def)
next
  case (Some vs)
  then obtain i where i: "i < length columns" "columns ! i = (name, vs)"
    using map_of_SomeD [OF Some] by (auto simp: in_set_conv_nth)
  then show ?thesis using GetFieldIndex_nth [OF assms i(1)] Some by (simp add: GetColumnByName_def)
qed

text \<open>The parts of the final stream for a list of fields.\<close>

abbreviation result_name :: "('v, 'b) reader_config \<Rightarrow> int \<Rightarrow> string" where
  "result_name cfg \<equiv> FieldIdToColumnName (rc_mapper cfg)"

definition parquet_name :: "'v parquet_file \<Rightarrow> (int \<times> nat) list \<Rightarrow> int \<Rightarrow> string" where
  "parquet_name pf index fid = sf_name (pf_fields pf ! the (map_of index fid))"

definition found_ids :: "(int \<times> nat) list \<Rightarrow> int list \<Rightarrow> int list" where
  "found_ids index ids = filter (\<lambda>fid. map_of index fid \<noteq> None) ids"

definition default_ids :: "('v, 'b) reader_config \<Rightarrow> (int \<times> nat) list \<Rightarrow> int list \<Rightarrow> int list" where
  "default_ids cfg index ids = filter (\<lambda>fid. map_of index fid = None \<and> map_of (rc_default_value_map cfg) fid \<noteq> None) ids"

definition renamings :: "('v, 'b) reader_config \<Rightarrow> 'v parquet_file \<Rightarrow> (int \<times> nat) list \<Rightarrow> int list \<Rightarrow> (string \<times> string) list" where
  "renamings cfg pf index ids =
     fold (\<lambda>fid m. omap_alter (parquet_name pf index fid) (result_name cfg fid) (\<lambda>_. result_name cfg fid) m) (found_ids index ids) []"

definition final_stream_of ::
  "('v, 'b) reader_config \<Rightarrow> 'v parquet_file \<Rightarrow> (int \<times> nat) list \<Rightarrow> nat list \<Rightarrow> int list \<Rightarrow> 'v final_stream" where
  "final_stream_of cfg pf index row_groups ids =
     \<lparr>fs_input_file = pf, fs_row_groups = row_groups, fs_columns = map (the \<circ> map_of index) (found_ids index ids),
      fs_old_name_to_new_name = renamings cfg pf index ids,
      fs_default_value_map = rc_default_value_map cfg, fs_scalar_value = rc_scalar_value cfg,
      fs_remaining_field_ids_with_names = map (\<lambda>fid. (fid, result_name cfg fid)) (default_ids cfg index ids),
      fs_reader = \<lparr>fr_next_position = 0, fr_current_stream = None\<rparr>\<rparr>"

lemma MakeFinalStream_eq:
  assumes "MakeFieldIdToIndexMap (pf_fields pf) (rc_schema_name_mapper cfg) = Inr index"
  shows "MakeFinalStream cfg pf row_groups ids = Inr (final_stream_of cfg pf index row_groups ids)"
proof -
  define info where "info = (\<lambda>fid. let name = result_name cfg fid in
    case map_of index fid of
      Some i \<Rightarrow> \<lparr>ci_field_id = fid, ci_column_position = Some i, ci_parquet_name = sf_name (pf_fields pf ! i), ci_result_name = name\<rparr>
    | None \<Rightarrow> \<lparr>ci_field_id = fid, ci_column_position = None, ci_parquet_name = [], ci_result_name = name\<rparr>)"
  have info: "ci_field_id (info fid) = fid" "ci_column_position (info fid) = map_of index fid" "ci_result_name (info fid) = result_name cfg fid"
      "map_of index fid \<noteq> None \<Longrightarrow> ci_parquet_name (info fid) = parquet_name pf index fid" for fid
    by (auto simp: info_def Let_def parquet_name_def split: option.splits)
  have infos: "GetParquetColumnInfos cfg pf ids = Inr (map info ids)"
    by (simp add: GetParquetColumnInfos_def assms info_def)
  have "List.map_filter ci_column_position (map info ids) = map (the \<circ> map_of index) (found_ids index ids)"
    by (induction ids) (auto simp: List.map_filter_simps found_ids_def info)
  moreover have "fold (\<lambda>col m. omap_alter (ci_parquet_name col) (ci_result_name col) (\<lambda>_. ci_result_name col) m)
      (filter (\<lambda>col. ci_column_position col \<noteq> None) (map info ids)) [] = renamings cfg pf index ids"
    unfolding renamings_def found_ids_def filter_map fold_map comp_def
    by (intro fold_cong) (auto simp: info)
  moreover have "map (\<lambda>col. (ci_field_id col, ci_result_name col))
      (filter (\<lambda>col. ci_column_position col = None \<and> map_of (rc_default_value_map cfg) (ci_field_id col) \<noteq> None) (map info ids)) =
      map (\<lambda>fid. (fid, result_name cfg fid)) (default_ids cfg index ids)"
    by (simp add: default_ids_def filter_map comp_def info)
  ultimately show ?thesis by (simp add: MakeFinalStream_def infos final_stream_of_def)
qed

lemma fold_assign:
  assumes "inj_on key (set xs)" "omap m"
  shows "omap (fold (\<lambda>x m. omap_alter (key x) (val x) (\<lambda>_. val x) m) xs m)"
    and "map_of (fold (\<lambda>x m. omap_alter (key x) (val x) (\<lambda>_. val x) m) xs m) k = Some v \<longleftrightarrow>
      (\<exists>x \<in> set xs. key x = k \<and> val x = v) \<or> (k \<notin> key ` set xs \<and> map_of m k = Some v)"
  using assms
proof (induction xs arbitrary: m)
  case (Cons x xs)
  {
    case 1
    then show ?case using Cons.IH(1) by simp
  next
    case 2
    then have inj: "inj_on key (set xs)" "\<And>y. y \<in> set xs \<Longrightarrow> key y = key x \<Longrightarrow> y = x" by (auto simp: inj_on_def)
    show ?case
      using 2(2) inj(2) Cons.IH(2) [OF inj(1), of "omap_alter (key x) (val x) (\<lambda>_. val x) m"]
      by (auto simp: map_of_omap_alter split: option.splits if_splits)
  }
qed auto

lemma projected_eq:
  "(\<And>old new. (old, new) \<in> set names \<Longrightarrow> GetColumnByName columns old \<noteq> None) \<Longrightarrow>
   projected names columns = map (\<lambda>(old, new). (new, the (GetColumnByName columns old))) names"
proof (induction names)
  case (Cons x names)
  then show ?case by (cases x) (force simp: projected_def GetColumnByName_def List.map_filter_simps)
qed (simp add: projected_def List.map_filter_simps)

text \<open>The columns of a batch of the final stream are the values of the fields under their result names.\<close>

definition final_columns ::
  "('v, 'b) reader_config \<Rightarrow> 'v parquet_file \<Rightarrow> (int \<times> nat) list \<Rightarrow> (nat \<Rightarrow> nat \<Rightarrow> nat \<Rightarrow> 'v) \<Rightarrow> int list \<Rightarrow> nat \<times> nat \<times> nat \<Rightarrow> 'v columns" where
  "final_columns cfg pf index cell ids = (\<lambda>(rg, s, n).
     projected (renamings cfg pf index ids) (rb_columns (piece_batch pf cell (map (the \<circ> map_of index) (found_ids index ids)) rg (s, n))) @
     default_columns (rc_scalar_value cfg) (rc_default_value_map cfg) (map (\<lambda>fid. (fid, result_name cfg fid)) (default_ids cfg index ids)) n)"

locale data_file =
  fixes cfg :: "('v, 'b) reader_config" and pf :: "'v parquet_file" and index :: "(int \<times> nat) list"
    and sizes :: "nat \<Rightarrow> nat list" and cell :: "nat \<Rightarrow> nat \<Rightarrow> nat \<Rightarrow> 'v"
  assumes table: "reads_table pf sizes cell"
    and index: "MakeFieldIdToIndexMap (pf_fields pf) (rc_schema_name_mapper cfg) = Inr index"
    and names: "distinct (map snd (rc_mapper cfg))"
begin

lemma result_name_inject: "result_name cfg a = result_name cfg b \<longleftrightarrow> a = b"
  by (rule FieldIdToColumnName_inject [OF names])

lemma found_index: "fid \<in> set (found_ids index ids) \<Longrightarrow> \<exists>i. map_of index fid = Some i \<and> i < length (pf_fields pf)"
  using index_map_ok(1) [OF index] by (auto simp: found_ids_def)

lemma parquet_name_inj: "inj_on (parquet_name pf index) (set (found_ids index ids))"
proof (rule inj_onI)
  fix a b
  assume a: "a \<in> set (found_ids index ids)" and b: "b \<in> set (found_ids index ids)"
    and eq: "parquet_name pf index a = parquet_name pf index b"
  obtain i j where i: "map_of index a = Some i" "i < length (pf_fields pf)" and j: "map_of index b = Some j" "j < length (pf_fields pf)"
    using found_index [OF a] found_index [OF b] by blast
  have "distinct (map sf_name (pf_fields pf))" using table by (simp add: reads_table_def)
  then have "i = j" using eq i j nth_eq_iff_index_eq [of "map sf_name (pf_fields pf)" i j] by (simp add: parquet_name_def)
  then show "a = b" using index_map_ok(2) [OF index] i(1) j(1) by blast
qed

lemma renamings_ok:
  "omap (renamings cfg pf index ids)"
  "set (renamings cfg pf index ids) = (\<lambda>fid. (parquet_name pf index fid, result_name cfg fid)) ` set (found_ids index ids)"
proof -
  show om: "omap (renamings cfg pf index ids)"
    unfolding renamings_def by (rule fold_assign(1) [OF parquet_name_inj]) simp
  then have "(k, v) \<in> set (renamings cfg pf index ids) \<longleftrightarrow> map_of (renamings cfg pf index ids) k = Some v" for k v
    by (simp add: omap_def strict_sorted_iff)
  then show "set (renamings cfg pf index ids) = (\<lambda>fid. (parquet_name pf index fid, result_name cfg fid)) ` set (found_ids index ids)"
    using fold_assign(2) [OF parquet_name_inj, of "[]" "result_name cfg"] unfolding renamings_def by force
qed

lemma piece_column:
  assumes "distinct ids" "fid \<in> set (found_ids index ids)"
  shows "GetColumnByName (rb_columns (piece_batch pf cell (map (the \<circ> map_of index) (found_ids index ids)) rg (s, n)))
    (parquet_name pf index fid) = column_values cfg index cell (rg, s, n) fid"
proof -
  let ?cols = "rb_columns (piece_batch pf cell (map (the \<circ> map_of index) (found_ids index ids)) rg (s, n))"
  have cols: "?cols = map (\<lambda>fid. (parquet_name pf index fid, map (cell rg (the (map_of index fid))) [s..<s + n])) (found_ids index ids)"
    by (simp add: piece_batch_def parquet_name_def)
  have "distinct (map fst ?cols)"
    unfolding cols using parquet_name_inj [of ids] assms(1) by (simp add: comp_def distinct_map found_ids_def)
  moreover have "(parquet_name pf index fid, map (cell rg (the (map_of index fid))) [s..<s + n]) \<in> set ?cols"
    unfolding cols set_map using assms(2) by (rule imageI)
  ultimately show ?thesis
    using found_index [OF assms(2)] by (auto simp: GetColumnByName_map_of column_values_def)
qed

lemma projected_piece:
  assumes "distinct ids"
  shows "projected (renamings cfg pf index ids)
      (rb_columns (piece_batch pf cell (map (the \<circ> map_of index) (found_ids index ids)) rg (s, n))) =
    map (\<lambda>(old, new). (new, the (GetColumnByName
      (rb_columns (piece_batch pf cell (map (the \<circ> map_of index) (found_ids index ids)) rg (s, n))) old))) (renamings cfg pf index ids)"
proof (rule projected_eq)
  fix old new
  assume "(old, new) \<in> set (renamings cfg pf index ids)"
  then obtain fid where fid: "fid \<in> set (found_ids index ids)" "old = parquet_name pf index fid" unfolding renamings_ok(2) by auto
  then show "GetColumnByName (rb_columns (piece_batch pf cell (map (the \<circ> map_of index) (found_ids index ids)) rg (s, n))) old \<noteq> None"
    using found_index [OF fid(1)] piece_column [OF assms fid(1)] by (auto simp: column_values_def)
qed

lemma set_final_columns:
  assumes "distinct ids"
  shows "set (final_columns cfg pf index cell ids (rg, s, n)) =
    {(result_name cfg fid, vs) |fid vs. fid \<in> set ids \<and> column_values cfg index cell (rg, s, n) fid = Some vs}"
proof -
  let ?column = "\<lambda>fid. (result_name cfg fid, the (column_values cfg index cell (rg, s, n) fid))"
  have found: "set (projected (renamings cfg pf index ids)
      (rb_columns (piece_batch pf cell (map (the \<circ> map_of index) (found_ids index ids)) rg (s, n)))) =
      ?column ` set (found_ids index ids)"
    unfolding projected_piece [OF assms] set_map renamings_ok(2) image_image
    by (rule image_cong) (simp_all add: piece_column [OF assms])
  have default: "set (default_columns (rc_scalar_value cfg) (rc_default_value_map cfg)
      (map (\<lambda>fid. (fid, result_name cfg fid)) (default_ids cfg index ids)) n) =
      ?column ` set (default_ids cfg index ids)"
    unfolding default_columns_def set_map image_image by (rule image_cong) (auto simp: default_ids_def column_values_def)
  have ids: "set (found_ids index ids) \<union> set (default_ids cfg index ids) =
      {fid \<in> set ids. column_values cfg index cell (rg, s, n) fid \<noteq> None}"
    by (auto simp: found_ids_def default_ids_def column_values_def split: option.splits)
  have "set (final_columns cfg pf index cell ids (rg, s, n)) = ?column ` {fid \<in> set ids. column_values cfg index cell (rg, s, n) fid \<noteq> None}"
    unfolding final_columns_def prod.case set_append found default image_Un [symmetric] ids ..
  then show ?thesis by force
qed

lemma distinct_final_columns:
  assumes "distinct ids"
  shows "distinct (map fst (final_columns cfg pf index cell ids p))"
proof -
  obtain rg s n where p: "p = (rg, s, n)" by (cases p)
  have "map fst (final_columns cfg pf index cell ids p) = map snd (renamings cfg pf index ids) @ map (result_name cfg) (default_ids cfg index ids)"
    unfolding p final_columns_def prod.case map_append projected_piece [OF assms] default_columns_def
    by (simp add: case_prod_unfold comp_def)
  moreover have "inj_on snd (set (renamings cfg pf index ids))"
    unfolding renamings_ok(2) by (auto simp: inj_on_def result_name_inject)
  then have "distinct (map snd (renamings cfg pf index ids))"
    using renamings_ok(1) [of ids] by (simp add: distinct_map omap_def strict_sorted_iff)
  moreover have "distinct (map (result_name cfg) (default_ids cfg index ids))"
    using assms by (simp add: distinct_map default_ids_def inj_on_def result_name_inject)
  moreover have "snd ` set (renamings cfg pf index ids) \<inter> result_name cfg ` set (default_ids cfg index ids) = {}"
    unfolding renamings_ok(2) by (auto simp: result_name_inject found_ids_def default_ids_def)
  ultimately show ?thesis by simp
qed

end

section \<open>The streams of a file\<close>

definition apply_final :: "'v final_stream \<Rightarrow> 'v arrow_batch \<Rightarrow> 'v arrow_batch" where
  "apply_final st b = b\<lparr>ab_batch := (ab_batch b)\<lparr>rb_columns :=
     projected (fs_old_name_to_new_name st) (rb_columns (ab_batch b)) @
     default_columns (fs_scalar_value st) (fs_default_value_map st) (fs_remaining_field_ids_with_names st) (ab_num_rows b)\<rparr>\<rparr>"

definition final_holds :: "'v final_stream \<Rightarrow> 'v arrow_batch list \<Rightarrow> bool" where
  "final_holds st bs \<longleftrightarrow> distinct (map fst (fs_old_name_to_new_name st)) \<and>
     (\<forall>(fid, name) \<in> set (fs_remaining_field_ids_with_names st). map_of (fs_default_value_map st) fid \<noteq> None) \<and>
     (\<exists>rbs. reader_holds (fs_input_file st) (fs_row_groups st) (fs_columns st) (fs_reader st) rbs \<and> bs = map (apply_final st) rbs)"

lemma apply_final_reader [simp]: "apply_final (st\<lparr>fs_reader := r\<rparr>) = apply_final st"
  by (simp add: apply_final_def fun_eq_iff)

lemma final_ReadNext_eq:
  assumes "distinct (map fst (fs_old_name_to_new_name st))"
    and "\<forall>(fid, name) \<in> set (fs_remaining_field_ids_with_names st). map_of (fs_default_value_map st) fid \<noteq> None"
    and "ParquetFileReader_ReadNext (fs_input_file st) (fs_row_groups st) (fs_columns st) (fs_reader st) = Inr (b, r)"
  shows "final_ReadNext st = Some (Inr (map_option (apply_final st) b, st\<lparr>fs_reader := r\<rparr>))"
  using assms(3)
  by (cases b) (simp_all add: final_ReadNext_def map_ReadNext_def MakeProjection_eq [OF assms(1)]
    ApplyDefaultValues_eq [OF assms(2)] apply_final_def)

interpretation final: stream final_ReadNext final_holds
proof (unfold_locales, goal_cases)
  case (1 st)
  then obtain r where "ParquetFileReader_ReadNext (fs_input_file st) (fs_row_groups st) (fs_columns st) (fs_reader st) = Inr (None, r)"
      "reader_holds (fs_input_file st) (fs_row_groups st) (fs_columns st) r []"
    using file_reader.read_end by (fastforce simp: final_holds_def)
  then show ?case using 1 final_ReadNext_eq [of st None r] by (auto simp: final_holds_def)
next
  case (2 st b bs)
  then obtain rb rbs where "reader_holds (fs_input_file st) (fs_row_groups st) (fs_columns st) (fs_reader st) (rb # rbs)"
    and b: "b = apply_final st rb" "bs = map (apply_final st) rbs" by (auto simp: final_holds_def Cons_eq_map_conv)
  then obtain r where "ParquetFileReader_ReadNext (fs_input_file st) (fs_row_groups st) (fs_columns st) (fs_reader st) = Inr (Some rb, r)"
      "reader_holds (fs_input_file st) (fs_row_groups st) (fs_columns st) r rbs"
    using file_reader.read_next by fastforce
  then show ?case using 2 b final_ReadNext_eq [of st "Some rb" r] by (auto simp: final_holds_def)
qed

interpretation final_streams: two_streams final_ReadNext final_holds final_ReadNext final_holds ..

definition data_holds :: "('b \<Rightarrow> 64 word set) \<Rightarrow> ('v, 'b) data_stream \<Rightarrow> 'v columns iceberg_batch list \<Rightarrow> bool" where
  "data_holds elems st bs \<longleftrightarrow>
     (\<exists>sel fs ds. final_streams.filtering_holds sel (ds_row_filter st) (ds_filtering st) fs ds \<and>
        (case ds_dv st of
           None \<Rightarrow> bs = filtered_batches sel (ds_file_info st) fs ds
         | Some dv \<Rightarrow> (\<forall>b \<in> set (filtered_batches sel (ds_file_info st) fs ds). batch_ok b \<and> 0 < ib_num_rows b) \<and>
             bs = map (without_rows (\<lambda>row. word_of_int row \<in> dv_elems elems dv)) (filtered_batches sel (ds_file_info st) fs ds)))"

lemma data_holdsI:
  assumes "final_streams.filtering_holds sel (ds_row_filter st) (ds_filtering st) fs ds"
    and "case ds_dv st of
           None \<Rightarrow> bs = filtered_batches sel (ds_file_info st) fs ds
         | Some dv \<Rightarrow> (\<forall>b \<in> set (filtered_batches sel (ds_file_info st) fs ds). batch_ok b \<and> 0 < ib_num_rows b) \<and>
             bs = map (without_rows (\<lambda>row. word_of_int row \<in> dv_elems elems dv)) (filtered_batches sel (ds_file_info st) fs ds)"
  shows "data_holds elems st bs"
  unfolding data_holds_def using assms by blast

lemma data_stream:
  fixes api :: "'b roaring_api"
  assumes "roaring_ok api elems"
  shows "stream (data_ReadNext api :: (('v, 'b) data_stream, 'v columns iceberg_batch) read_next) (data_holds elems)"
proof -
  have step: "case bs of
        [] \<Rightarrow> \<exists>st'. data_ReadNext api st = Some (Inr (None, st')) \<and> data_holds elems st' []
      | b # bs' \<Rightarrow> \<exists>st'. data_ReadNext api st = Some (Inr (Some b, st')) \<and> data_holds elems st' bs'"
    if held: "data_holds elems st bs" for st :: "('v, 'b) data_stream" and bs
  proof -
    obtain sel fs ds where h: "final_streams.filtering_holds sel (ds_row_filter st) (ds_filtering st) fs ds"
      and bs: "case ds_dv st of
           None \<Rightarrow> bs = filtered_batches sel (ds_file_info st) fs ds
         | Some dv \<Rightarrow> (\<forall>b \<in> set (filtered_batches sel (ds_file_info st) fs ds). batch_ok b \<and> 0 < ib_num_rows b) \<and>
             bs = map (without_rows (\<lambda>row. word_of_int row \<in> dv_elems elems dv)) (filtered_batches sel (ds_file_info st) fs ds)"
      using held unfolding data_holds_def by blast
    note f = final_streams.filtering_step [OF h, of "ds_file_info st"]
    show ?thesis
    proof (cases "filtered_batches sel (ds_file_info st) fs ds")
      case Nil
      then obtain st' ds' where "FilteringStream_ReadNext final_ReadNext final_ReadNext (ds_row_filter st) (ds_file_info st) (ds_filtering st) =
          Some (Inr (None, st'))" "final_streams.filtering_holds sel (ds_row_filter st) st' [] ds'" using f by auto
      then have "data_ReadNext api st = Some (Inr (None, st\<lparr>ds_filtering := st'\<rparr>))" "data_holds elems (st\<lparr>ds_filtering := st'\<rparr>) []"
        by (auto simp: data_ReadNext_def map_ReadNext_def Let_def split: option.splits intro!: data_holdsI [of sel _ "[]" ds'])
      then show ?thesis using Nil bs by (auto split: option.splits)
    next
      case (Cons b rest)
      then obtain st' fs' ds' where s': "FilteringStream_ReadNext final_ReadNext final_ReadNext (ds_row_filter st) (ds_file_info st) (ds_filtering st) =
          Some (Inr (Some b, st'))" "final_streams.filtering_holds sel (ds_row_filter st) st' fs' ds'"
          "rest = filtered_batches sel (ds_file_info st) fs' ds'" using f by auto
      show ?thesis
      proof (cases "ds_dv st")
        case None
        then have "data_ReadNext api st = Some (Inr (Some b, st\<lparr>ds_filtering := st'\<rparr>))" "data_holds elems (st\<lparr>ds_filtering := st'\<rparr>) rest"
          using s' by (auto simp: data_ReadNext_def intro!: data_holdsI [of sel _ fs' ds'])
        then show ?thesis using None bs Cons by auto
      next
        case (Some dv)
        then have "ApplyDeletionVector api dv b = Inr (without_rows (\<lambda>row. word_of_int row \<in> dv_elems elems dv) b)"
          using ApplyDeletionVector_exact [OF assms, of b dv] bs Cons by simp
        then have "data_ReadNext api st = Some (Inr (Some (without_rows (\<lambda>row. word_of_int row \<in> dv_elems elems dv) b), st\<lparr>ds_filtering := st'\<rparr>))"
          using s'(1) Some by (simp add: data_ReadNext_def map_ReadNext_def)
        moreover have "data_holds elems (st\<lparr>ds_filtering := st'\<rparr>) (map (without_rows (\<lambda>row. word_of_int row \<in> dv_elems elems dv)) rest)"
          using s' Some bs Cons by (intro data_holdsI [of sel _ fs' ds']) auto
        ultimately show ?thesis using Some bs Cons by auto
      qed
    qed
  qed
  show ?thesis
  proof (unfold_locales, goal_cases)
    case (1 st)
    then show ?case using step [of st "[]"] by simp
  next
    case (2 st b bs)
    then show ?case using step [of st "b # bs"] by simp
  qed
qed

lemma row_group_loop_bounds: "row_group_loop i rgs segments = Inr is \<Longrightarrow> set is \<subseteq> {i..<i + length rgs}"
proof (induction rgs arbitrary: i segments "is")
  case (Cons rg rgs)
  then obtain off found rest js where "skip_segments off segments = (found, rest)" "row_group_loop (Suc i) rgs rest = Inr js"
      "is = (if found then i # js else js)"
    by (auto simp: bindE_def split: sum.splits prod.splits)
  then show ?case using Cons.IH [of "Suc i" rest js] by (auto split: if_splits)
qed simp

lemma matching_row_groups_bounds:
  assumes "GetRowGroupsToRetrieve metas segments = Inr offs" "matching_row_groups rg_filter metas offs = Inr row_groups"
  shows "set row_groups \<subseteq> {..<length metas}"
proof -
  have offs: "set offs \<subseteq> {..<length metas}" using row_group_loop_bounds [of 0 metas segments offs] assms(1)
    by (auto simp: GetRowGroupsToRetrieve_def)
  have "set row_groups \<subseteq> set offs"
  proof (cases rg_filter)
    case None
    then show ?thesis using assms(2) by (simp add: matching_row_groups_def)
  next
    case (Some f)
    then obtain rs where rs: "mapE (\<lambda>rg_ind.
        bindE (ensure (rg_ind < length metas) ''The file only has fewer row groups'') (\<lambda>_.
        bindE (CanSkipRowGroup f (metas ! rg_ind)) (\<lambda>skip. Inr (rg_ind, skip)))) offs = Inr rs"
      and rg: "row_groups = map fst (filter (\<lambda>(_, skip). \<not> skip) rs)"
      using assms(2) by (auto simp: matching_row_groups_def bindE_def split: sum.splits)
    have "list_all2 (\<lambda>i x. fst x = i) offs rs"
      using rs unfolding mapE_eq_Inr_iff by (rule list_all2_mono) (auto simp: ensure_def bindE_def split: sum.splits if_splits)
    then have "map fst rs = offs" by (induction rule: list_all2_induct) auto
    then show ?thesis unfolding rg by force
  qed
  then show ?thesis using offs by blast
qed

definition final_batch ::
  "('v, 'b) reader_config \<Rightarrow> 'v parquet_file \<Rightarrow> (int \<times> nat) list \<Rightarrow> (nat \<Rightarrow> nat \<Rightarrow> nat \<Rightarrow> 'v) \<Rightarrow> int list \<Rightarrow> nat \<times> nat \<times> nat \<Rightarrow> 'v arrow_batch" where
  "final_batch cfg pf index cell ids = (\<lambda>(rg, s, n).
     \<lparr>ab_batch = \<lparr>rb_num_rows = n, rb_columns = final_columns cfg pf index cell ids (rg, s, n)\<rparr>,
      ab_row_position = group_start pf rg + int s\<rparr>)"

text \<open>A row filter selects the rows whose values satisfy a predicate on its fields.\<close>

definition row_filter_ok :: "('v, 'b) reader_config \<Rightarrow> ('v option list \<Rightarrow> bool) \<Rightarrow> bool" where
  "row_filter_ok cfg q \<longleftrightarrow>
     (\<forall>b. (\<forall>(name, vs) \<in> set (rb_columns (ab_batch b)). length vs = ab_num_rows b) \<longrightarrow>
        rf_ApplyFilter (rc_row_filter cfg) b =
          Inr (map int (filter (\<lambda>i. q (map (\<lambda>fid. map_option (\<lambda>vs. vs ! i)
              (GetColumnByName (rb_columns (ab_batch b)) (result_name cfg fid))) (field_ids_for_filter cfg))) [0..<ab_num_rows b])))"

definition piece_selection ::
  "('v, 'b) reader_config \<Rightarrow> (int \<times> nat) list \<Rightarrow> (nat \<Rightarrow> nat \<Rightarrow> nat \<Rightarrow> 'v) \<Rightarrow> ('v option list \<Rightarrow> bool) \<Rightarrow> nat \<times> nat \<times> nat \<Rightarrow> selection" where
  "piece_selection cfg index cell q = (\<lambda>(rg, s, n).
     map int (filter (\<lambda>i. q (map (field_value cfg index cell rg (s + i)) (field_ids_for_filter cfg))) [0..<n]))"

lemma filtered_batches_map:
  "filtered_batches sel info (map f ps) (map d ps) =
     map (\<lambda>p. mk_iceberg_batch info (joined (d p) (f p)) (sel (f p))) (filter (\<lambda>p. sel (f p) \<noteq> []) ps)"
  by (induction ps) auto

context data_file
begin

lemma final_column:
  assumes "distinct ids"
  shows "GetColumnByName (final_columns cfg pf index cell ids p) (result_name cfg fid) =
    (if fid \<in> set ids then column_values cfg index cell p fid else None)"
proof -
  obtain rg s n where p: "p = (rg, s, n)" by (cases p)
  note d = distinct_final_columns [OF assms, of p]
  show ?thesis
  proof (cases "fid \<in> set ids \<and> column_values cfg index cell p fid \<noteq> None")
    case True
    then have "(result_name cfg fid, the (column_values cfg index cell p fid)) \<in> set (final_columns cfg pf index cell ids p)"
      unfolding p set_final_columns [OF assms] by auto
    then have "map_of (final_columns cfg pf index cell ids p) (result_name cfg fid) = Some (the (column_values cfg index cell p fid))"
      using d by simp
    then show ?thesis using True by (simp add: GetColumnByName_map_of [OF d])
  next
    case False
    then have "result_name cfg fid \<notin> fst ` set (final_columns cfg pf index cell ids p)"
      unfolding p set_final_columns [OF assms] by (auto simp: result_name_inject)
    then have "map_of (final_columns cfg pf index cell ids p) (result_name cfg fid) = None" by (simp add: map_of_eq_None_iff)
    then show ?thesis using False by (auto simp: GetColumnByName_map_of [OF d])
  qed
qed

lemma final_stream_holds:
  assumes "set row_groups \<subseteq> {..<length (pf_row_groups pf)}" "distinct ids"
  shows "final_holds (final_stream_of cfg pf index row_groups ids) (map (final_batch cfg pf index cell ids) (file_pieces sizes row_groups))"
proof -
  let ?cols = "map (the \<circ> map_of index) (found_ids index ids)"
  have cols: "set ?cols \<subseteq> {..<length (pf_fields pf)}" using found_index [of _ ids] by force
  have "reader_holds pf row_groups ?cols \<lparr>fr_next_position = 0, fr_current_stream = None\<rparr>
      (map (piece_arrow_batch pf cell ?cols) (file_pieces sizes row_groups))"
    unfolding file_batches_pieces [OF table assms(1) cols, symmetric]
    using table_group(1) [OF table _ cols] assms(1) by (intro reader_holds_start) blast
  moreover have "apply_final (final_stream_of cfg pf index row_groups ids) (piece_arrow_batch pf cell ?cols p) = final_batch cfg pf index cell ids p" for p
    by (cases p) (simp add: apply_final_def final_stream_of_def piece_arrow_batch_def final_batch_def final_columns_def piece_batch_def)
  moreover have "distinct (map fst (renamings cfg pf index ids))"
    using renamings_ok(1) [of ids] by (simp add: omap_def strict_sorted_iff)
  ultimately show ?thesis
    unfolding final_holds_def
    by (auto simp: final_stream_of_def default_ids_def comp_def intro!: exI [of _ "map (piece_arrow_batch pf cell ?cols) (file_pieces sizes row_groups)"])
qed

end

text \<open>The fields that are read with the data, and the batches of a file before deletes.\<close>

definition data_ids :: "('v, 'b) reader_config \<Rightarrow> annotated_data_path \<Rightarrow> int list" where
  "data_ids cfg path = filter (\<lambda>f. f \<notin> set (field_ids_for_filter cfg)) (field_ids_required cfg path)"

definition piece_output ::
  "('v, 'b) reader_config \<Rightarrow> 'v parquet_file \<Rightarrow> (int \<times> nat) list \<Rightarrow> (nat \<Rightarrow> nat \<Rightarrow> nat \<Rightarrow> 'v) \<Rightarrow> ('v option list \<Rightarrow> bool) \<Rightarrow>
   annotated_data_path \<Rightarrow> nat \<times> nat \<times> nat \<Rightarrow> 'v columns iceberg_batch" where
  "piece_output cfg pf index cell q path p =
     mk_iceberg_batch (ap_file path)
       (joined (final_batch cfg pf index cell (data_ids cfg path) p) (final_batch cfg pf index cell (field_ids_for_filter cfg) p))
       (piece_selection cfg index cell q p)"

definition remove_dv :: "('b \<Rightarrow> 64 word set) \<Rightarrow> 'b deletion_vector option \<Rightarrow> 'c iceberg_batch \<Rightarrow> 'c iceberg_batch" where
  "remove_dv elems dv = (case dv of None \<Rightarrow> id | Some dv \<Rightarrow> without_rows (\<lambda>row. word_of_int row \<in> dv_elems elems dv))"

definition path_batches ::
  "('b \<Rightarrow> 64 word set) \<Rightarrow> ('v, 'b) reader_config \<Rightarrow> 'v parquet_file \<Rightarrow> (int \<times> nat) list \<Rightarrow> (nat \<Rightarrow> nat list) \<Rightarrow> (nat \<Rightarrow> nat \<Rightarrow> nat \<Rightarrow> 'v) \<Rightarrow>
   ('v option list \<Rightarrow> bool) \<Rightarrow> annotated_data_path \<Rightarrow> nat list \<Rightarrow> 'b deletion_vector option \<Rightarrow> 'v columns iceberg_batch list" where
  "path_batches elems cfg pf index sizes cell q path row_groups dv =
     map (\<lambda>p. remove_dv elems dv (piece_output cfg pf index cell q path p))
       (filter (\<lambda>p. piece_selection cfg index cell q p \<noteq> []) (file_pieces sizes row_groups))"

text \<open>Batches are smaller than \<open>2^31\<close> rows and files than \<open>2^63\<close> rows.\<close>

definition file_bounds :: "'v parquet_file \<Rightarrow> (nat \<Rightarrow> nat list) \<Rightarrow> bool" where
  "file_bounds pf sizes \<longleftrightarrow> (\<Sum>m\<leftarrow>pf_row_groups pf. int (rg_num_rows m)) < 2 ^ 63 \<and>
     (\<forall>rg < length (pf_row_groups pf). \<forall>n \<in> set (sizes rg). int n < 2 ^ 31)"

lemma group_start_Suc:
  "rg < length (pf_row_groups pf) \<Longrightarrow> group_start pf (Suc rg) = group_start pf rg + int (rg_num_rows (pf_row_groups pf ! rg))"
  by (simp add: group_start_def take_Suc_conv_app_nth)

lemma group_start_bounds:
  assumes "rg \<le> length (pf_row_groups pf)"
  shows "0 \<le> group_start pf rg" "group_start pf rg \<le> (\<Sum>m\<leftarrow>pf_row_groups pf. int (rg_num_rows m))"
proof -
  show "0 \<le> group_start pf rg" unfolding group_start_def by (intro sum_list_nonneg) auto
  have "(\<Sum>m\<leftarrow>pf_row_groups pf. int (rg_num_rows m)) =
      group_start pf rg + (\<Sum>m\<leftarrow>drop rg (pf_row_groups pf). int (rg_num_rows m))"
    unfolding group_start_def by (metis append_take_drop_id map_append sum_list.append)
  moreover have "0 \<le> (\<Sum>m\<leftarrow>drop rg (pf_row_groups pf). int (rg_num_rows m))" by (intro sum_list_nonneg) auto
  ultimately show "group_start pf rg \<le> (\<Sum>m\<leftarrow>pf_row_groups pf. int (rg_num_rows m))" by simp
qed

lemma sort_remdups_distinct [simp]: "distinct (field_ids_for_filter cfg)" "distinct (data_ids cfg path)" "distinct (field_ids_required cfg path)"
  by (simp_all add: field_ids_for_filter_def data_ids_def field_ids_required_def)

context data_file
begin

lemma filter_selection:
  assumes "row_filter_ok cfg q"
  shows "rf_ApplyFilter (rc_row_filter cfg) (final_batch cfg pf index cell (field_ids_for_filter cfg) p) = Inr (piece_selection cfg index cell q p)"
proof -
  obtain rg s n where p: "p = (rg, s, n)" by (cases p)
  let ?ids = "field_ids_for_filter cfg"
  have "\<forall>(name, vs) \<in> set (final_columns cfg pf index cell ?ids (rg, s, n)). length vs = n"
    unfolding set_final_columns [OF sort_remdups_distinct(1)] using column_values_length [of cfg index cell rg s n] by auto
  then have "rf_ApplyFilter (rc_row_filter cfg) (final_batch cfg pf index cell ?ids p) =
      Inr (map int (filter (\<lambda>i. q (map (\<lambda>fid. map_option (\<lambda>vs. vs ! i)
        (GetColumnByName (final_columns cfg pf index cell ?ids (rg, s, n)) (result_name cfg fid))) ?ids)) [0..<n]))"
    using assms unfolding row_filter_ok_def by (auto simp: p final_batch_def)
  also have "filter (\<lambda>i. q (map (\<lambda>fid. map_option (\<lambda>vs. vs ! i)
        (GetColumnByName (final_columns cfg pf index cell ?ids (rg, s, n)) (result_name cfg fid))) ?ids)) [0..<n] =
      filter (\<lambda>i. q (map (field_value cfg index cell rg (s + i)) ?ids)) [0..<n]"
    by (intro filter_cong refl arg_cong [of _ _ q] map_cong) (auto simp: final_column column_values_nth)
  finally show ?thesis by (simp add: p piece_selection_def)
qed

lemma piece_bounds:
  assumes "set row_groups \<subseteq> {..<length (pf_row_groups pf)}" "p \<in> set (file_pieces sizes row_groups)"
  obtains rg s n where "p = (rg, s, n)" "rg < length (pf_row_groups pf)" "n \<in> set (sizes rg)" "0 < n" "s + n \<le> rg_num_rows (pf_row_groups pf ! rg)"
proof -
  obtain rg s n where p: "p = (rg, s, n)" "rg \<in> set row_groups" "(s, n) \<in> set (pieces 0 (sizes rg))"
    using assms(2) by (auto simp: file_pieces_def)
  then have rg: "rg < length (pf_row_groups pf)" using assms(1) by auto
  then have "sum_list (sizes rg) = rg_num_rows (pf_row_groups pf ! rg)" "\<forall>n \<in> set (sizes rg). 0 < n"
    using table by (auto simp: reads_table_def)
  then show ?thesis using that [OF p(1) rg] pieces_bounds [OF p(3)] by auto
qed

lemma piece_output_ok:
  assumes "set row_groups \<subseteq> {..<length (pf_row_groups pf)}" "p \<in> set (file_pieces sizes row_groups)" "file_bounds pf sizes"
  shows "batch_ok (piece_output cfg pf index cell q path p) \<and> 0 < ib_num_rows (piece_output cfg pf index cell q path p)"
proof -
  obtain rg s n where p: "p = (rg, s, n)" "rg < length (pf_row_groups pf)" "n \<in> set (sizes rg)" "0 < n"
      "s + n \<le> rg_num_rows (pf_row_groups pf ! rg)"
    using piece_bounds [OF assms(1,2)] .
  have "int s + int n \<le> int (rg_num_rows (pf_row_groups pf ! rg))" using p(5) by linarith
  then have "group_start pf rg + int s + int n < 2 ^ 63"
    using group_start_Suc [OF p(2)] group_start_bounds(2) [of "Suc rg" pf] p(2) assms(3) by (simp add: file_bounds_def)
  moreover have "int n < 2 ^ 31" using assms(3) p(2,3) by (auto simp: file_bounds_def)
  moreover have "sorted_wrt (<) (map int (filter P [0..<n]))" for P
    by (simp add: sorted_wrt_map sorted_wrt_filter)
  ultimately show ?thesis
    using group_start_bounds(1) [of rg pf] p(2,4)
    by (auto simp: p(1) piece_output_def batch_ok_def mk_iceberg_batch_def joined_def final_batch_def piece_selection_def)
qed

end

text \<open>The rows of a batch: position in the file and values of fields.\<close>

definition batch_row_values :: "('v, 'b) reader_config \<Rightarrow> int list \<Rightarrow> 'v columns iceberg_batch \<Rightarrow> (int \<times> 'v option list) list" where
  "batch_row_values cfg ids b =
     map (\<lambda>i. (ib_row_position b + i,
       map (\<lambda>fid. map_option (\<lambda>vs. vs ! nat i) (GetColumnByName (ib_columns b) (result_name cfg fid))) ids)) (ib_selection b)"

definition in_dv :: "('b \<Rightarrow> 64 word set) \<Rightarrow> 'b deletion_vector option \<Rightarrow> int \<Rightarrow> bool" where
  "in_dv elems dv row \<longleftrightarrow> (case dv of None \<Rightarrow> False | Some dv \<Rightarrow> word_of_int row \<in> dv_elems elems dv)"

text \<open>The rows that a scan of a file should deliver.\<close>

definition file_rows ::
  "('v, 'b) reader_config \<Rightarrow> 'v parquet_file \<Rightarrow> (int \<times> nat) list \<Rightarrow> (nat \<Rightarrow> nat \<Rightarrow> nat \<Rightarrow> 'v) \<Rightarrow> ('v option list \<Rightarrow> bool) \<Rightarrow>
   (int \<Rightarrow> bool) \<Rightarrow> nat list \<Rightarrow> int list \<Rightarrow> (int \<times> 'v option list) list" where
  "file_rows cfg pf index cell q deleted row_groups ids =
     concat (map (\<lambda>rg. map (\<lambda>r. (group_start pf rg + int r, map (field_value cfg index cell rg r) ids))
       (filter (\<lambda>r. q (map (field_value cfg index cell rg r) (field_ids_for_filter cfg)) \<and> \<not> deleted (group_start pf rg + int r))
         [0..<rg_num_rows (pf_row_groups pf ! rg)])) row_groups)"

lemma remove_dv_eq: "remove_dv elems dv b = b\<lparr>ib_selection := filter (\<lambda>i. \<not> in_dv elems dv (ib_row_position b + i)) (ib_selection b)\<rparr>"
  by (cases dv) (simp_all add: remove_dv_def in_dv_def without_rows_def)

lemma concat_map_filter: "(\<And>x. x \<in> set xs \<Longrightarrow> \<not> P x \<Longrightarrow> f x = []) \<Longrightarrow> concat (map f (filter P xs)) = concat (map f xs)"
  by (induction xs) auto

lemma concat_map_concat: "concat (map f (concat (map g xs))) = concat (map (\<lambda>x. concat (map f (g x))) xs)"
  by (induction xs) auto

lemma filter_upt_shift: "map (\<lambda>i. g (s + i)) (filter (\<lambda>i. P (s + i)) [0..<n]) = map g (filter P [s..<s + n])"
proof -
  have "[s..<s + n] = map (\<lambda>i. s + i) [0..<n]" using map_add_upt [of s n] by (simp add: add.commute)
  then show ?thesis by (simp add: filter_map comp_def)
qed

context data_file
begin

lemma output_column:
  assumes "fid \<in> set (field_ids_required cfg path) \<union> set (field_ids_for_filter cfg)"
  shows "GetColumnByName (ib_columns (piece_output cfg pf index cell q path p)) (result_name cfg fid) = column_values cfg index cell p fid"
proof -
  obtain rg s n where p: "p = (rg, s, n)" by (cases p)
  let ?D = "final_columns cfg pf index cell (data_ids cfg path) p" and ?F = "final_columns cfg pf index cell (field_ids_for_filter cfg) p"
  have "set (data_ids cfg path) \<inter> set (field_ids_for_filter cfg) = {}" by (auto simp: data_ids_def)
  then have "fst ` set ?D \<inter> fst ` set ?F = {}"
    unfolding p set_final_columns [OF sort_remdups_distinct(1)] set_final_columns [OF sort_remdups_distinct(2)]
    by (auto simp: result_name_inject)
  then have d: "distinct (map fst (?D @ ?F))"
    using distinct_final_columns [OF sort_remdups_distinct(1) [of cfg]] distinct_final_columns [OF sort_remdups_distinct(2) [of cfg path]] by simp
  have "map_of ?D (result_name cfg fid) = (if fid \<in> set (data_ids cfg path) then column_values cfg index cell p fid else None)"
    "map_of ?F (result_name cfg fid) = (if fid \<in> set (field_ids_for_filter cfg) then column_values cfg index cell p fid else None)"
    by (simp_all add: final_column flip: GetColumnByName_map_of [OF distinct_final_columns [OF sort_remdups_distinct(1)]]
      GetColumnByName_map_of [OF distinct_final_columns [OF sort_remdups_distinct(2)]])
  then have "map_of (?D @ ?F) (result_name cfg fid) = column_values cfg index cell p fid"
    using assms by (auto simp: map_of_append map_add_def data_ids_def split: option.splits)
  moreover have "ib_columns (piece_output cfg pf index cell q path p) = ?D @ ?F"
    by (simp add: p piece_output_def mk_iceberg_batch_def joined_def final_batch_def)
  ultimately show ?thesis by (simp add: GetColumnByName_map_of [OF d])
qed

lemma piece_rows:
  assumes "set ids \<subseteq> set (field_ids_required cfg path) \<union> set (field_ids_for_filter cfg)"
  shows "batch_row_values cfg ids (remove_dv elems dv (piece_output cfg pf index cell q path (rg, s, n))) =
    map (\<lambda>r. (group_start pf rg + int r, map (field_value cfg index cell rg r) ids))
      (filter (\<lambda>r. q (map (field_value cfg index cell rg r) (field_ids_for_filter cfg)) \<and> \<not> in_dv elems dv (group_start pf rg + int r)) [s..<s + n])"
proof -
  let ?b = "piece_output cfg pf index cell q path (rg, s, n)"
  have sel: "ib_selection ?b = piece_selection cfg index cell q (rg, s, n)" "ib_row_position ?b = group_start pf rg + int s"
    by (simp_all add: piece_output_def mk_iceberg_batch_def joined_def final_batch_def)
  have "ib_selection (remove_dv elems dv ?b) =
      map int (filter (\<lambda>i. q (map (field_value cfg index cell rg (s + i)) (field_ids_for_filter cfg)) \<and>
        \<not> in_dv elems dv (group_start pf rg + int (s + i))) [0..<n])"
    unfolding remove_dv_eq
    by (simp add: sel piece_selection_def filter_map comp_def add.assoc conj_commute)
  then have "batch_row_values cfg ids (remove_dv elems dv ?b) =
      map (\<lambda>i. (group_start pf rg + int s + int i, map (\<lambda>fid. map_option (\<lambda>vs. vs ! i) (GetColumnByName (ib_columns ?b) (result_name cfg fid))) ids))
        (filter (\<lambda>i. q (map (field_value cfg index cell rg (s + i)) (field_ids_for_filter cfg)) \<and>
          \<not> in_dv elems dv (group_start pf rg + int (s + i))) [0..<n])"
    unfolding batch_row_values_def by (simp add: remove_dv_eq sel)
  also have "\<dots> = map (\<lambda>i. (group_start pf rg + int (s + i), map (field_value cfg index cell rg (s + i)) ids))
        (filter (\<lambda>i. q (map (field_value cfg index cell rg (s + i)) (field_ids_for_filter cfg)) \<and>
          \<not> in_dv elems dv (group_start pf rg + int (s + i))) [0..<n])"
    using assms output_column [of _ path q "(rg, s, n)"] by (intro map_cong refl) (auto simp: column_values_nth subset_iff)
  also have "\<dots> = map (\<lambda>r. (group_start pf rg + int r, map (field_value cfg index cell rg r) ids))
      (filter (\<lambda>r. q (map (field_value cfg index cell rg r) (field_ids_for_filter cfg)) \<and> \<not> in_dv elems dv (group_start pf rg + int r)) [s..<s + n])"
    by (rule filter_upt_shift)
  finally show ?thesis .
qed

lemma path_rows:
  assumes "set row_groups \<subseteq> {..<length (pf_row_groups pf)}" "set ids \<subseteq> set (field_ids_required cfg path) \<union> set (field_ids_for_filter cfg)"
  shows "concat (map (batch_row_values cfg ids) (path_batches elems cfg pf index sizes cell q path row_groups dv)) =
    file_rows cfg pf index cell q (in_dv elems dv) row_groups ids"
proof -
  let ?rows = "\<lambda>p. batch_row_values cfg ids (remove_dv elems dv (piece_output cfg pf index cell q path p))"
  have "concat (map (batch_row_values cfg ids) (path_batches elems cfg pf index sizes cell q path row_groups dv)) =
      concat (map ?rows (file_pieces sizes row_groups))"
    unfolding path_batches_def map_map comp_def
    by (rule concat_map_filter) (auto simp: batch_row_values_def remove_dv_eq piece_output_def mk_iceberg_batch_def)
  also have "\<dots> = concat (map (\<lambda>rg. concat (map (\<lambda>(s, n). ?rows (rg, s, n)) (pieces 0 (sizes rg)))) row_groups)"
    by (simp add: file_pieces_def concat_map_concat comp_def case_prod_unfold)
  also have "\<dots> = file_rows cfg pf index cell q (in_dv elems dv) row_groups ids"
    unfolding file_rows_def piece_rows [OF assms(2)] concat_pieces
    using assms(1) table by (intro arg_cong [of _ _ concat] map_cong refl) (auto simp: reads_table_def)
  finally show ?thesis .
qed

end

section \<open>The rows of a data file\<close>

context data_file
begin

lemma Build_holds:
  assumes "rc_OpenParquet cfg (pl_path (ap_file path)) = Inr pf"
    and "GetRowGroupsToRetrieve (pf_row_groups pf) (ap_segments path) = Inr offs"
    and "matching_row_groups (rc_rg_filter cfg) (pf_row_groups pf) offs = Inr row_groups"
    and "row_filter_ok cfg q" "file_bounds pf sizes" "update_last_dv cfg path st = Inr st'"
  shows "\<exists>s. FileReaderBuilder_Build cfg path st = Inr (s, st') \<and>
    data_holds elems s (path_batches elems cfg pf index sizes cell q path row_groups (bd_last_dv st'))"
proof -
  let ?F = "final_batch cfg pf index cell (field_ids_for_filter cfg)" and ?D = "final_batch cfg pf index cell (data_ids cfg path)"
  let ?ps = "file_pieces sizes row_groups"
  let ?s = "\<lparr>ds_filtering = \<lparr>ft_filter_stream = final_stream_of cfg pf index row_groups (field_ids_for_filter cfg),
      ft_data_stream = final_stream_of cfg pf index row_groups (data_ids cfg path), ft_rows_skipped = 0\<rparr>,
    ds_row_filter = rc_row_filter cfg, ds_file_info = ap_file path, ds_dv = bd_last_dv st'\<rparr>"
  define sel where "sel = (\<lambda>b. case rf_ApplyFilter (rc_row_filter cfg) b of Inl _ \<Rightarrow> [] | Inr s \<Rightarrow> s)"
  have sel: "sel (?F p) = piece_selection cfg index cell q p" for p by (simp add: sel_def filter_selection [OF assms(4)])
  note rgs = matching_row_groups_bounds [OF assms(2,3)]
  have build: "FileReaderBuilder_Build cfg path st = Inr (?s, st')"
    using assms(1-3,6) MakeFinalStream_eq [OF index] by (simp add: FileReaderBuilder_Build_def data_ids_def Let_def)
  have "list_all2 aligned (map ?F ?ps) (map ?D ?ps)"
  proof -
    have "aligned (?F p) (?D p)" if "p \<in> set ?ps" for p
      by (rule piece_bounds [OF rgs that]) (simp add: aligned_def final_batch_def)
    then show ?thesis by (simp add: list_all2_conv_all_nth)
  qed
  then have "final_streams.filtering_holds sel (rc_row_filter cfg) (ds_filtering ?s) (map ?F ?ps) (map ?D ?ps)"
    unfolding final_streams.filtering_holds_def
    using final_stream_holds [OF rgs sort_remdups_distinct(1)] final_stream_holds [OF rgs sort_remdups_distinct(2)]
    by (auto simp: sel filter_selection [OF assms(4)] intro!: exI [of _ "[]"])
  moreover have out: "filtered_batches sel (ap_file path) (map ?F ?ps) (map ?D ?ps) =
      map (piece_output cfg pf index cell q path) (filter (\<lambda>p. piece_selection cfg index cell q p \<noteq> []) ?ps)"
    unfolding filtered_batches_map sel piece_output_def ..
  moreover have "\<forall>b \<in> set (map (piece_output cfg pf index cell q path) (filter (\<lambda>p. piece_selection cfg index cell q p \<noteq> []) ?ps)).
      batch_ok b \<and> 0 < ib_num_rows b"
    using piece_output_ok [OF rgs _ assms(5)] by auto
  ultimately have "data_holds elems ?s (path_batches elems cfg pf index sizes cell q path row_groups (bd_last_dv st'))"
    by (intro data_holdsI [of sel _ "map ?F ?ps" "map ?D ?ps"]) (auto simp: path_batches_def remove_dv_def comp_def split: option.splits)
  then show ?thesis using build by blast
qed

end


text \<open>A file in memory, as a reader that keeps the documented behaviour.\<close>

definition memory_file ::
  "schema_field list \<Rightarrow> row_group_meta list \<Rightarrow> (nat \<Rightarrow> nat list) \<Rightarrow> (nat \<Rightarrow> nat \<Rightarrow> nat \<Rightarrow> 'v) \<Rightarrow> 'v parquet_file" where
  "memory_file nodes groups sizes cell =
     \<lparr>pf_fields = nodes, pf_row_groups = groups,
      pf_GetRecordBatchReader = (\<lambda>rg columns. Inr (map (\<lambda>(s, n).
        Inr \<lparr>rb_num_rows = n, rb_columns = map (\<lambda>c. (sf_name (nodes ! c), map (cell rg c) [s..<s + n])) columns\<rparr>)
        (pieces 0 (sizes rg))))\<rparr>"

lemma memory_file_table:
  assumes "distinct (map sf_name nodes)"
    and "\<forall>rg < length groups. sum_list (sizes rg) = rg_num_rows (groups ! rg) \<and> (\<forall>n \<in> set (sizes rg). 0 < n)"
  shows "reads_table (memory_file nodes groups sizes cell) sizes cell"
  using assms by (auto simp: reads_table_def memory_file_def piece_batch_def)

definition example_nodes :: "schema_field list" where
  "example_nodes = [\<lparr>sf_field_id = 1, sf_name = ''a''\<rparr>, \<lparr>sf_field_id = - 1, sf_name = ''b''\<rparr>]"

definition example_cell :: "nat \<Rightarrow> nat \<Rightarrow> nat \<Rightarrow> int" where
  "example_cell rg c r = 100 * int c + 10 * int rg + int r"

definition example_sizes :: "nat \<Rightarrow> nat list" where
  "example_sizes rg = [4, 4, 2]"

definition example_parquet :: "int parquet_file" where
  "example_parquet = memory_file example_nodes [example_row_group 4 1 3, example_row_group 100 4 9] example_sizes example_cell"

definition example_predicate :: "int option list \<Rightarrow> bool" where
  "example_predicate vs = (case vs of [Some v] \<Rightarrow> 5 < v | _ \<Rightarrow> False)"

definition example_reader_filter :: "int row_filter" where
  "example_reader_filter =
     \<lparr>rf_involved_field_ids = [1],
      rf_ApplyFilter = (\<lambda>b. Inr (map int (filter (\<lambda>i. example_predicate
        [map_option (\<lambda>vs. vs ! i) (GetColumnByName (rb_columns (ab_batch b)) ''x'')]) [0..<ab_num_rows b])))\<rparr>"

definition example_reader_config :: "(int, 64 word set) reader_config" where
  "example_reader_config =
     \<lparr>rc_field_ids_to_retrieve = [3, 1, 2], rc_equality_deletes = [], rc_mapper = [(1, ''x''), (2, ''y''), (3, ''z'')],
      rc_OpenParquet = (\<lambda>_. Inr example_parquet), rc_OpenDeletionVector = (\<lambda>_ _ _. Inr example_dv), rc_rg_filter = None,
      rc_row_filter = example_reader_filter, rc_schema_name_mapper = Some [(''b'', 2)],
      rc_default_value_map = [(3, S_int 42)], rc_scalar_value = (\<lambda>s. case s of S_int n \<Rightarrow> n | _ \<Rightarrow> 0)\<rparr>"

definition example_path :: annotated_data_path where
  "example_path = \<lparr>ap_file = \<lparr>pl_partition = 0, pl_layer = 1, pl_path = ''f''\<rparr>, ap_segments = [mk_segment 0 50],
     ap_dv = Some \<lparr>dv_path = ''p'', dv_offset = 4, dv_length = 40, dv_referenced_data_file = ''f''\<rparr>\<rparr>"

lemma example_file_facts:
  "reads_table example_parquet example_sizes example_cell" "file_bounds example_parquet example_sizes"
  "MakeFieldIdToIndexMap (pf_fields example_parquet) (rc_schema_name_mapper example_reader_config) = Inr [(2, 1), (1, 0)]"
  "distinct (map snd (rc_mapper example_reader_config))"
  "GetRowGroupsToRetrieve (pf_row_groups example_parquet) (ap_segments example_path) = Inr [0]"
  "field_ids_for_filter example_reader_config = [1]"
  "row_filter_ok example_reader_config example_predicate"
proof -
  show "reads_table example_parquet example_sizes example_cell"
    unfolding example_parquet_def
    by (rule memory_file_table) (auto simp: example_nodes_def example_sizes_def example_row_group_def less_Suc_eq)
  show "file_bounds example_parquet example_sizes"
    by (simp add: file_bounds_def example_parquet_def memory_file_def example_sizes_def example_row_group_def)
  show "MakeFieldIdToIndexMap (pf_fields example_parquet) (rc_schema_name_mapper example_reader_config) = Inr [(2, 1), (1, 0)]"
    by (simp add: MakeFieldIdToIndexMap_def example_parquet_def memory_file_def example_nodes_def example_reader_config_def
        InsertOrFail_def ensure_def GetFieldIdByName_def)
  show "distinct (map snd (rc_mapper example_reader_config))" by (simp add: example_reader_config_def)
  show "GetRowGroupsToRetrieve (pf_row_groups example_parquet) (ap_segments example_path) = Inr [0]"
    by (simp add: GetRowGroupsToRetrieve_def example_parquet_def memory_file_def example_path_def RowGroupMetaToFileOffset_def
        example_row_group_def mk_segment_def)
  show filter_ids: "field_ids_for_filter example_reader_config = [1]"
    by (simp add: field_ids_for_filter_def example_reader_config_def example_reader_filter_def)
  show "row_filter_ok example_reader_config example_predicate"
    unfolding row_filter_ok_def filter_ids
    by (simp add: example_reader_config_def example_reader_filter_def FieldIdToColumnName_def)
qed


interpretation example_file: data_file example_reader_config example_parquet "[(2, 1), (1, 0)]" example_sizes example_cell
  using example_file_facts by unfold_locales

end
