(* ===== verification/Scan_Stream.thy ===== *)
theory Scan_Stream
  imports File_Correctness
begin

text \<open>
  The stream of a whole scan (\<open>IcebergScanBuilder::MakeIcebergStream\<close>): the batches of the data files
  of the plan in order, without the rows that deletion vectors, equality deletes and positional
  deletes remove.
\<close>

section \<open>The scanner over the plan\<close>

text \<open>How the files of the plan look: for every task its file and the row groups that are read.\<close>

record 'v file_view =
  fv_file :: "'v parquet_file"
  fv_index :: "(int \<times> nat) list"
  fv_sizes :: "nat \<Rightarrow> nat list"
  fv_cell :: "nat \<Rightarrow> nat \<Rightarrow> nat \<Rightarrow> 'v"
  fv_row_groups :: "nat list"

definition path_ok ::
  "('v, 'b) reader_config \<Rightarrow> ('v option list \<Rightarrow> bool) \<Rightarrow> (annotated_data_path \<Rightarrow> 'v file_view) \<Rightarrow> (string \<Rightarrow> 'b deletion_vector option) \<Rightarrow>
   annotated_data_path \<Rightarrow> bool" where
  "path_ok cfg q view dvs path \<longleftrightarrow>
     (let v = view path; pf = fv_file v; location = pl_path (ap_file path) in
      rc_OpenParquet cfg location = Inr pf \<and> data_file cfg pf (fv_index v) (fv_sizes v) (fv_cell v) \<and> file_bounds pf (fv_sizes v) \<and>
      row_filter_ok cfg q \<and>
      (\<exists>offs. GetRowGroupsToRetrieve (pf_row_groups pf) (ap_segments path) = Inr offs \<and>
         matching_row_groups (rc_rg_filter cfg) (pf_row_groups pf) offs = Inr (fv_row_groups v)) \<and>
      location \<noteq> [] \<and>
      (case ap_dv path of
         None \<Rightarrow> dvs location = None
       | Some info \<Rightarrow> \<exists>dv. rc_OpenDeletionVector cfg (dv_path info) (dv_offset info) (dv_length info) = Inr dv \<and> dvs location = Some dv))"

definition path_output ::
  "('b \<Rightarrow> 64 word set) \<Rightarrow> ('v, 'b) reader_config \<Rightarrow> ('v option list \<Rightarrow> bool) \<Rightarrow> (annotated_data_path \<Rightarrow> 'v file_view) \<Rightarrow>
   (string \<Rightarrow> 'b deletion_vector option) \<Rightarrow> annotated_data_path \<Rightarrow> 'v columns iceberg_batch list" where
  "path_output elems cfg q view dvs path =
     (let v = view path in
      path_batches elems cfg (fv_file v) (fv_index v) (fv_sizes v) (fv_cell v) q path (fv_row_groups v) (dvs (pl_path (ap_file path))))"

text \<open>The cached deletion vector belongs to the last file.\<close>

definition cache_ok :: "(string \<Rightarrow> 'b deletion_vector option) \<Rightarrow> 'b builder_state \<Rightarrow> bool" where
  "cache_ok dvs st \<longleftrightarrow> (bd_last_data_file_path st \<noteq> [] \<longrightarrow> bd_last_dv st = dvs (bd_last_data_file_path st))"

definition file_stream_holds ::
  "'b roaring_api \<Rightarrow> ('b \<Rightarrow> 64 word set) \<Rightarrow> ('v, 'b) data_stream \<Rightarrow> 'v columns iceberg_batch list \<Rightarrow> bool" where
  "file_stream_holds api elems s bs \<longleftrightarrow> roaring_ok api elems \<and> data_holds elems s bs"

lemma update_last_dv_ok:
  assumes "path_ok cfg q view dvs path" "cache_ok dvs st"
  shows "\<exists>st'. update_last_dv cfg path st = Inr st' \<and> bd_last_dv st' = dvs (pl_path (ap_file path)) \<and> cache_ok dvs st'"
  using assms by (auto simp: path_ok_def Let_def update_last_dv_def cache_ok_def split: option.splits)

interpretation file_scanner: scanner list_ReadNext "(=)" "data_ReadNext api" "file_stream_holds api elems" "FileReaderBuilder_Build cfg"
  "\<lambda>path. roaring_ok api elems \<and> path_ok cfg q view dvs path" "cache_ok dvs" "path_output elems cfg q view dvs"
  for api elems cfg q view dvs
proof (unfold_locales, goal_cases)
  case (1 s)
  then show ?case using stream.read_end [OF data_stream, of api elems s] by (auto simp: file_stream_holds_def)
next
  case (2 s b bs)
  then show ?case using stream.read_next [OF data_stream, of api elems s b bs] by (auto simp: file_stream_holds_def)
next
  case (3 path st)
  let ?v = "view path"
  obtain st' where st': "update_last_dv cfg path st = Inr st'" "bd_last_dv st' = dvs (pl_path (ap_file path))" "cache_ok dvs st'"
    using update_last_dv_ok 3 by blast
  have f: "data_file cfg (fv_file ?v) (fv_index ?v) (fv_sizes ?v) (fv_cell ?v)" using 3 by (simp add: path_ok_def Let_def)
  obtain offs where "GetRowGroupsToRetrieve (pf_row_groups (fv_file ?v)) (ap_segments path) = Inr offs"
      "matching_row_groups (rc_rg_filter cfg) (pf_row_groups (fv_file ?v)) offs = Inr (fv_row_groups ?v)"
    using 3 by (auto simp: path_ok_def Let_def)
  then obtain s where "FileReaderBuilder_Build cfg path st = Inr (s, st')" "data_holds elems s (path_output elems cfg q view dvs path)"
    using data_file.Build_holds [OF f _ _ _ _ _ st'(1), of offs "fv_row_groups ?v" q elems] 3 st'(2)
    by (auto simp: path_ok_def Let_def path_output_def)
  then show ?case using 3 st'(3) by (auto simp: file_stream_holds_def)
qed

section \<open>The scan\<close>

lemma batch_ok_filter: "batch_ok b \<Longrightarrow> batch_ok (b\<lparr>ib_selection := filter P (ib_selection b)\<rparr>)"
  by (auto simp: batch_ok_def sorted_wrt_filter)

lemma path_output_ok:
  assumes "path_ok cfg q view dvs path" "b \<in> set (path_output elems cfg q view dvs path)"
  shows "batch_ok b"
proof -
  let ?v = "view path"
  have f: "data_file cfg (fv_file ?v) (fv_index ?v) (fv_sizes ?v) (fv_cell ?v)" and bounds: "file_bounds (fv_file ?v) (fv_sizes ?v)"
    using assms(1) by (simp_all add: path_ok_def Let_def)
  have rgs: "set (fv_row_groups ?v) \<subseteq> {..<length (pf_row_groups (fv_file ?v))}"
    using assms(1) matching_row_groups_bounds by (fastforce simp: path_ok_def Let_def)
  obtain p where "p \<in> set (file_pieces (fv_sizes ?v) (fv_row_groups ?v))"
    and b: "b = remove_dv elems (dvs (pl_path (ap_file path))) (piece_output cfg (fv_file ?v) (fv_index ?v) (fv_cell ?v) q path p)"
    using assms(2) by (auto simp: path_output_def path_batches_def Let_def)
  then show ?thesis
    using data_file.piece_output_ok [OF f rgs _ bounds] unfolding b remove_dv_eq by (intro batch_ok_filter) blast
qed

text \<open>The projection at the end changes nothing: \<open>ReadNext\<close> builds its result from the batch before the projection.\<close>

lemma fold_omap: "omap m \<Longrightarrow> omap (fold (\<lambda>x m. omap_alter (key x) (val x) (upd x) m) xs m)"
  by (induction xs arbitrary: m) auto

lemma IcebergProjectionStream_identity:
  assumes "omap names" "0 \<le> ib_num_rows b"
  shows "IcebergProjectionStream_batch names b = Inr b"
proof -
  have "distinct (map fst names)" using assms(1) by (simp add: omap_def strict_sorted_iff)
  then show ?thesis using assms(2) by (simp add: IcebergProjectionStream_batch_def Let_def MakeProjection_eq)
qed

lemma MakeFinalProjection_omap: "omap (MakeFinalProjection mapper ids)"
  unfolding MakeFinalProjection_def Let_def by (rule fold_omap) simp

text \<open>The state of the stream is read by the composition of the streams below it.\<close>

definition pipeline_ReadNext ::
  "('v, 'b) scan_environment \<Rightarrow> ('v, 'b) iceberg_stream \<Rightarrow> (('v, 'b) scan_state, 'v columns iceberg_batch) read_next" where
  "pipeline_ReadNext env st =
     map_ReadNext (IcebergProjectionStream_batch (is_projection st))
       (apply_ReadNext (positional_step env st)
         (apply_ReadNext (equality_step env st)
           (DataScanner_ReadNext list_ReadNext (FileReaderBuilder_Build (is_builder st)) (data_ReadNext (se_roaring env)))))"

lemma pipeline_state [simp]: "pipeline_ReadNext env (st\<lparr>is_state := s\<rparr>) = pipeline_ReadNext env st"
  by (simp add: pipeline_ReadNext_def equality_step_def [abs_def] positional_step_def [abs_def] cong: if_cong option.case_cong)

lemma drain_scan: "drain_stream n (scan_ReadNext env) st = drain_stream n (pipeline_ReadNext env st) (is_state st)"
proof (induction n arbitrary: st)
  case (Suc n)
  have "scan_ReadNext env st = bindR (pipeline_ReadNext env st (is_state st)) (\<lambda>(batch, s). Some (Inr (batch, st\<lparr>is_state := s\<rparr>)))"
    by (simp add: scan_ReadNext_def pipeline_ReadNext_def)
  then show ?case using Suc.IH [of "st\<lparr>is_state := s\<rparr>" for s]
    by (auto simp: bindR_def split: option.splits sum.splits)
qed simp

text \<open>What the deletes of a partition remove from a batch, with the row number in the file for positional deletes.\<close>

definition scan_row_deleted ::
  "('v, 'b) scan_environment \<Rightarrow> 'v scan_arguments \<Rightarrow> (string \<Rightarrow> int list \<Rightarrow> (column list \<times> nat) list) \<Rightarrow> (string \<Rightarrow> row_group list) \<Rightarrow>
   'v columns iceberg_batch \<Rightarrow> int \<Rightarrow> bool" where
  "scan_row_deleted env args eq_rows groups b i \<longleftrightarrow>
     eq_row_deleted eq_rows (delete_files (sa_equality_deletes args) (ib_partition b))
       (batch_column (\<lambda>columns name. map_option (se_column env) (GetColumnByName columns name)) (MakeMapper (sa_schema args)) b) (ib_layer b) (nat i) \<or>
     (\<exists>l \<ge> ib_layer b. (l, ib_path b, ib_row_position b + i) \<in> contents (partition_files groups (sa_positional_deletes args) (ib_partition b)))"

definition scan_deletes_ok ::
  "('v, 'b) scan_environment \<Rightarrow> 'v scan_arguments \<Rightarrow> (int \<Rightarrow> arrow_type) \<Rightarrow> (string \<Rightarrow> int list \<Rightarrow> (column list \<times> nat) list) \<Rightarrow>
   (string \<Rightarrow> row_group list) \<Rightarrow> 'v columns iceberg_batch list \<Rightarrow> bool" where
  "scan_deletes_ok env args ty eq_rows groups scanned \<longleftrightarrow>
     byte_width_ok (se_byte_width env) \<and> all_files_ok ty (se_open_equality_delete env) eq_rows (sa_equality_deletes args) \<and>
     (\<forall>config. sa_cfg args = Some config \<longrightarrow> ec_max_rows config = 2 ^ 64 - 1) \<and>
     (\<forall>b \<in> set scanned. batch_data_ok ty (\<lambda>columns name. map_option (se_column env) (GetColumnByName columns name))
        (MakeMapper (sa_schema args)) (delete_files (sa_equality_deletes args) (ib_partition b)) b) \<and>
     deletes_ok (se_fuel env) (se_open_positional_delete env) groups (sa_positional_deletes args)"

lemma equality_step_ok:
  assumes "scan_deletes_ok env args ty eq_rows groups scanned" "b \<in> set scanned"
    and "is_equality_config st = (if sa_equality_deletes args = [] then None else sa_cfg args)"
    and "sa_equality_deletes args = [] \<or> sa_cfg args \<noteq> None"
    and "rc_equality_deletes (is_builder st) = sa_equality_deletes args" "rc_mapper (is_builder st) = MakeMapper (sa_schema args)"
    and "eda_ok (se_byte_width env) ty eq_rows (sa_equality_deletes args) t"
  shows "\<exists>t'. equality_step env st b t = Some (Inr (eq_applied eq_rows (sa_equality_deletes args)
      (\<lambda>columns name. map_option (se_column env) (GetColumnByName columns name)) (MakeMapper (sa_schema args)) b, t')) \<and>
    eda_ok (se_byte_width env) ty eq_rows (sa_equality_deletes args) t'"
proof (cases "is_equality_config st")
  case None
  then have "delete_files (sa_equality_deletes args) (ib_partition b) = []"
    using assms(3,4) by (auto simp: delete_files_def split: if_splits)
  then have "eq_applied eq_rows (sa_equality_deletes args)
      (\<lambda>columns name. map_option (se_column env) (GetColumnByName columns name)) (MakeMapper (sa_schema args)) b = b"
    by (simp add: eq_applied_def eq_row_deleted_def)
  then show ?thesis using None assms(7) by (simp add: equality_step_def)
next
  case (Some config)
  then have "ec_max_rows config = 2 ^ 64 - 1" using assms(1,3) by (auto simp: scan_deletes_ok_def split: if_splits)
  then show ?thesis
    using eda_batch_ok [of "se_byte_width env" ty "se_open_equality_delete env" eq_rows "sa_equality_deletes args" config t
        "\<lambda>columns name. map_option (se_column env) (GetColumnByName columns name)" "MakeMapper (sa_schema args)" b] assms Some
    by (auto simp: scan_deletes_ok_def equality_step_def)
qed

lemma positional_step_ok:
  assumes "deletes_ok (se_fuel env) (se_open_positional_delete env) groups (is_positional_deletes st)" "batch_ok b"
    and "pda_ok (se_fuel env) groups (is_positional_deletes st) t"
  shows "\<exists>t'. positional_step env st b t = Some (Inr (without_rows
      (row_deleted (contents (partition_files groups (is_positional_deletes st) (ib_partition b))) b) b, t')) \<and>
    pda_ok (se_fuel env) groups (is_positional_deletes st) t'"
proof (cases "is_positional_deletes st = []")
  case True
  then have "contents (partition_files groups (is_positional_deletes st) (ib_partition b)) = {}" by (simp add: partition_files_def contents_def)
  then show ?thesis using True assms(3) by (simp add: positional_step_def row_deleted_def without_rows_def)
next
  case False
  then show ?thesis using pda_batch_ok [OF assms] by (simp add: positional_step_def)
qed

abbreviation environment_column :: "('v, 'b) scan_environment \<Rightarrow> 'v columns \<Rightarrow> string \<Rightarrow> column option" where
  "environment_column env columns name \<equiv> map_option (se_column env) (GetColumnByName columns name)"

text \<open>A stream that \<open>MakeIcebergStream\<close> returned, whatever its state.\<close>

definition scan_stream_of :: "('v, 'b) scan_environment \<Rightarrow> 'v scan_arguments \<Rightarrow> ('v, 'b) iceberg_stream \<Rightarrow> bool" where
  "scan_stream_of env args st \<longleftrightarrow> (\<exists>mapper. is_builder st = FileReaderBuilder env args mapper) \<and>
     is_equality_config st = (if sa_equality_deletes args = [] then None else sa_cfg args) \<and>
     (sa_equality_deletes args = [] \<or> sa_cfg args \<noteq> None) \<and> is_positional_deletes st = sa_positional_deletes args \<and> omap (is_projection st)"

lemma eq_applied_simps [simp]:
  "ib_partition (eq_applied eq_rows deletes gc mapper b) = ib_partition b"
  "row_deleted C (eq_applied eq_rows deletes gc mapper b) = row_deleted C b"
  "ib_num_rows (eq_applied eq_rows deletes gc mapper b) = ib_num_rows b"
  by (simp_all add: eq_applied_def row_deleted_def fun_eq_iff)

text \<open>Streams on top of a stream that holds a list, with what they hold left open.\<close>

context stream
begin

lemma apply_stream_on:
  assumes "\<And>b t. b \<in> set bs \<Longrightarrow> I t \<Longrightarrow> \<exists>t'. f b t = Some (Inr (g b, t')) \<and> I t'" "holds s bs" "I t"
  shows "\<exists>H. stream (apply_ReadNext f read) H \<and> H (s, t) (map g bs)"
proof (intro exI conjI)
  show "stream (apply_ReadNext f read) (\<lambda>(s, t) cs. I t \<and> (\<exists>bs'. holds s bs' \<and> (\<forall>b \<in> set bs'. b \<in> set bs) \<and> cs = map g bs'))"
    by (rule apply_stream) (rule assms(1))
qed (use assms in auto)

lemma map_stream_on:
  assumes "\<And>b. b \<in> set bs \<Longrightarrow> f b = Inr (g b)" "holds s bs"
  shows "\<exists>H. stream (map_ReadNext f read) H \<and> H s (map g bs)"
proof (intro exI conjI)
  show "stream (map_ReadNext f read) (\<lambda>s cs. \<exists>bs'. holds s bs' \<and> (\<forall>b \<in> set bs'. b \<in> set bs) \<and> cs = map g bs')"
    by (rule map_stream) (rule assms(1))
qed (use assms in auto)

end

lemma drain_pipeline:
  fixes st :: "('v, 'b) iceberg_stream"
  assumes st: "scan_stream_of env args st" and deletes: "scan_deletes_ok env args ty eq_rows groups scanned"
    and ok: "\<And>b. b \<in> set scanned \<Longrightarrow> batch_ok b"
    and s1: "stream (DataScanner_ReadNext list_ReadNext (FileReaderBuilder_Build (is_builder st)) (data_ReadNext (se_roaring env))) scanning"
    and state: "scanning s scanned" "eda_ok (se_byte_width env) ty eq_rows (sa_equality_deletes args) t"
      "pda_ok (se_fuel env) groups (is_positional_deletes st) u" and n: "length scanned < n"
  shows "drain_stream n (pipeline_ReadNext env st) ((s, t), u) =
    Some (Inr (map (\<lambda>b. without_rows (row_deleted (contents (partition_files groups (is_positional_deletes st) (ib_partition b))) b)
      (eq_applied eq_rows (sa_equality_deletes args) (environment_column env) (MakeMapper (sa_schema args)) b)) scanned))"
proof -
  let ?eq = "eq_applied eq_rows (sa_equality_deletes args) (environment_column env) (MakeMapper (sa_schema args))"
  let ?pos = "\<lambda>b. without_rows (row_deleted (contents (partition_files groups (is_positional_deletes st) (ib_partition b))) b) b"
  let ?E = "eda_ok (se_byte_width env) ty eq_rows (sa_equality_deletes args)"
  let ?P = "pda_ok (se_fuel env) groups (is_positional_deletes st)"
  obtain mapper where b: "is_builder st = FileReaderBuilder env args mapper" using st by (auto simp: scan_stream_of_def)
  have eq_ok: "batch_ok (?eq b)" if "b \<in> set scanned" for b
    using ok [OF that] by (auto simp: eq_applied_def batch_ok_def sorted_wrt_filter)
  have step: "\<exists>t'. equality_step env st b t = Some (Inr (?eq b, t')) \<and> ?E t'" if "b \<in> set scanned" "?E t" for b t
    using equality_step_ok [OF deletes that(1), of st t] st that(2) by (simp add: scan_stream_of_def b FileReaderBuilder_def)
  obtain H2 where h2: "stream (apply_ReadNext (equality_step env st) (DataScanner_ReadNext list_ReadNext
      (FileReaderBuilder_Build (is_builder st)) (data_ReadNext (se_roaring env)))) H2" "H2 (s, t) (map ?eq scanned)"
    using stream.apply_stream_on [of _ _ scanned ?E "equality_step env st" ?eq s t, OF s1 step state(1,2)] by auto
  have step: "\<exists>t'. positional_step env st b t = Some (Inr (?pos b, t')) \<and> ?P t'" if "b \<in> set (map ?eq scanned)" "?P t" for b t
    using positional_step_ok [of env groups st b t] deletes st that eq_ok by (auto simp: scan_deletes_ok_def scan_stream_of_def)
  obtain H3 where h3: "stream (apply_ReadNext (positional_step env st) (apply_ReadNext (equality_step env st) (DataScanner_ReadNext list_ReadNext
      (FileReaderBuilder_Build (is_builder st)) (data_ReadNext (se_roaring env))))) H3"
      "H3 ((s, t), u) (map ?pos (map ?eq scanned))"
    using stream.apply_stream_on [of _ _ "map ?eq scanned" ?P "positional_step env st" ?pos "(s, t)" u, OF h2(1) step h2(2) state(3)] by auto
  have step: "IcebergProjectionStream_batch (is_projection st) b = Inr b" if "b \<in> set (map ?pos (map ?eq scanned))" for b
    using that st ok by (auto simp: scan_stream_of_def IcebergProjectionStream_identity without_rows_def batch_ok_def)
  obtain H4 where "stream (pipeline_ReadNext env st) H4" "H4 ((s, t), u) (map (\<lambda>b. b) (map ?pos (map ?eq scanned)))"
    unfolding pipeline_ReadNext_def
    using stream.map_stream_on [of _ _ "map ?pos (map ?eq scanned)" "IcebergProjectionStream_batch (is_projection st)" "\<lambda>b. b", OF h3(1) step h3(2)]
    by auto
  from stream.drain_stream_holds [OF this, of n] show ?thesis using n by (simp add: comp_def)
qed

lemma MakeIcebergStream_ok:
  assumes "MakeIcebergStream env args = Inr st"
  shows "scan_stream_of env args st" "is_state st =
      ((\<lparr>sc_meta_stream = sa_meta_stream args, sc_builder = \<lparr>bd_last_data_file_path = [], bd_last_dv = None\<rparr>,
          sc_current_data_stream = None\<rparr>, \<lparr>ea_handler = None, ea_current_state = None\<rparr>),
        \<lparr>ps_current_state = None, ps_positional_delete = None\<rparr>)"
  using assms MakeFinalProjection_omap
  by (auto simp: MakeIcebergStream_def scan_stream_of_def ensure_def bindE_def split: sum.splits if_splits)


definition example_environment :: "(int, 64 word set) scan_environment" where
  "example_environment =
     \<lparr>se_OpenParquet = (\<lambda>_. Inr example_parquet), se_OpenDeletionVector = (\<lambda>_ _ _. Inr example_dv),
      se_open_equality_delete = (\<lambda>_. Inr example_eq_reader),
      se_open_positional_delete = (\<lambda>u. Inr (snd (example_files ! (if u = ''d1'' then 0 else 1)))),
      se_roaring = set_api, se_byte_width = example_width, se_column = (\<lambda>vs. example_column []),
      se_scalar_value = rc_scalar_value example_reader_config,
      se_parse = (\<lambda>_. Some (J_array [J_object [(''field-id'', J_int 2), (''names'', J_array [J_string ''b''])]])), se_fuel = 20\<rparr>"

definition example_field :: "string \<Rightarrow> int \<Rightarrow> scalar option \<Rightarrow> nested_field" where
  "example_field name fid d = \<lparr>nf_name = name, nf_field_id = fid, nf_is_required = False, nf_type = PrimitiveType kInt, nf_initial_default = d, nf_write_default = None\<rparr>"

definition example_arguments :: "int scan_arguments" where
  "example_arguments =
     \<lparr>sa_meta_stream = [\<lparr>ap_file = \<lparr>pl_partition = 0, pl_layer = 1, pl_path = ''a''\<rparr>, ap_segments = [mk_segment 0 50], ap_dv = None\<rparr>],
      sa_positional_deletes = [(0, [(1, [''d1'']), (3, [''d2''])])], sa_equality_deletes = [], sa_cfg = None, sa_rg_filter = None,
      sa_row_filter = Some example_reader_filter,
      sa_schema = \<lparr>s_schema_id = 0, s_fields = [example_field ''x'' 1 None, example_field ''y'' 2 None, example_field ''z'' 3 (Some (S_int 42))]\<rparr>,
      sa_field_ids_to_retrieve = [3, 1, 2], sa_schema_name_mapping = Some ''mapping''\<rparr>"

definition example_view :: "annotated_data_path \<Rightarrow> int file_view" where
  "example_view path = \<lparr>fv_file = example_parquet, fv_index = [(2, 1), (1, 0)], fv_sizes = example_sizes, fv_cell = example_cell, fv_row_groups = [0]\<rparr>"

lemma example_scan:
  "MakeMapper (sa_schema example_arguments) = [(1, ''x''), (2, ''y''), (3, ''z'')]"
  "MakeDefaultValueMap (sa_schema example_arguments) = [(3, S_int 42)]"
  "SchemaNameMapper (se_parse example_environment) text' = Inr [(''b'', 2)]"
  by (simp_all add: MakeMapper_def MakeDefaultValueMap_def example_arguments_def example_field_def omap_emplace_def SchemaNameMapper_def
      SchemaNameMapper_Mapper_def mapper_element_def insert_name_def IsObject_def ensure_def example_environment_def int32_def c_str_def)

lemma example_path_ok:
  assumes "cfg = FileReaderBuilder example_environment example_arguments (Some [(''b'', 2)])"
  shows "\<forall>path \<in> set (sa_meta_stream example_arguments). path_ok cfg example_predicate example_view (\<lambda>_. None) path"
proof -
  have cfg: "rc_schema_name_mapper cfg = rc_schema_name_mapper example_reader_config" "rc_mapper cfg = rc_mapper example_reader_config"
      "rc_row_filter cfg = rc_row_filter example_reader_config" "rc_OpenParquet cfg = (\<lambda>_. Inr example_parquet)" "rc_rg_filter cfg = None"
    unfolding assms FileReaderBuilder_def reader_config.simps example_scan
    by (simp_all add: example_reader_config_def example_environment_def example_arguments_def)
  have "data_file cfg example_parquet [(2, 1), (1, 0)] example_sizes example_cell"
    using example_file_facts cfg by unfold_locales simp_all
  moreover have "row_filter_ok cfg example_predicate"
    using example_file_facts(7) by (simp add: row_filter_ok_def field_ids_for_filter_def cfg)
  ultimately show ?thesis
    using example_file_facts(2,5)
    by (simp add: path_ok_def example_view_def cfg matching_row_groups_def example_path_def example_arguments_def)
qed


end
