(* ===== verification/Spec2Isabelle.thy ===== *)
theory Spec2Isabelle
  imports Plan_Correctness Scan_Planner Equality_Correctness Metadata_Roundtrip Filter_Roundtrip Manifest_Filter Temporal_Correctness
    Manifest_Roundtrip Scan_Stream
begin

text \<open>
  Verification of iceberg-cxx, a C++ library that plans and runs scans of Apache Iceberg
  tables (\<open>src/iceberg\<close>).

  \<^bold>\<open>The program.\<close>  A scan starts from the JSON file of the table metadata
  (\<open>table_metadata.cpp\<close>).  The planner (\<open>tea_scan.cpp\<close>) reads the manifest list of the
  current snapshot, leaves out the manifest files whose partition summaries contradict the
  filter, reads the entries of the others and builds a plan: partitions of layers of data
  files with the deletes that apply to them.  A plan is then executed by a pipeline of
  streams of batches (\<open>streams/iceberg\<close>): deletion vectors, positional deletes and equality
  deletes shrink the selection vector of a batch.  Deletion vectors are stored in Puffin
  files (\<open>puffin.cpp\<close>).  Filters are expression trees (\<open>filter/representation\<close>) with a
  JSON form; the statistics filter (\<open>filter/stats_filter\<close>) evaluates them on minimum and
  maximum of columns.

  \<^bold>\<open>Theories and sources.\<close>
  \<^item> \<open>Prelude\<close>: results with errors as values (\<open>bindE\<close>, \<open>ensure\<close>, \<open>mapE\<close>, \<open>foldE\<close>; an
    exception or a failed \<open>Ensure\<close> is \<open>Inl\<close>), the locale \<open>ordered_map\<close> for \<open>std::map\<close> with its
    interpretation on sorted association lists, decimal and little-endian numbers.
  \<^item> \<open>Iceberg_Types\<close>: \<open>type.h\<close>, \<open>type.cpp\<close>, \<open>nested_field.h\<close>, \<open>schema.h\<close>, \<open>schema.cpp\<close>.
  \<^item> \<open>Partition_Keys\<close>: partition tuples, specifications and the key of a partition
    (\<open>manifest_entry.h\<close>, \<open>table_metadata.h\<close>, \<open>tea_scan.cpp\<close>).
  \<^item> \<open>Segments\<close>: \<open>DataEntry\<close> and \<open>experimental_representations.cpp\<close>.
  \<^item> \<open>Plan_Layers\<close>, \<open>Delete_Buckets\<close>, \<open>Plan_Pruning\<close>, \<open>Scan_Builder\<close>, \<open>Plan_Correctness\<close>,
    \<open>Scan_Planner\<close>: the layers of a plan, the scanline optimizer of positional deletes, the
    removal of dangling deletes, \<open>ScanMetadataBuilder\<close>, and the planner over the streams of
    manifest entries (\<open>tea_scan.h\<close>, \<open>tea_scan.cpp\<close>).  The state of the builder is a record of
    the maps of the class; every \<open>Add\<close> method is one function on it.
  \<^item> \<open>Filter_Nodes\<close>, \<open>Filter_Serializer\<close>, \<open>Filter_Roundtrip\<close>: filter expressions, visitors,
    the rewriting of operators over arrays, and the JSON form (\<open>filter/representation\<close>).
  \<^item> \<open>Float_Order\<close>, \<open>Stats_Filter\<close>, \<open>Stats_Soundness\<close>, \<open>Stats_Correctness\<close>: the filter on
    statistics (\<open>filter/stats_filter\<close>) as an abstract interpretation of a reference
    semantics with three-valued logic; the locale \<open>monotone_comparison\<close> states what
    \<open>EvaluateMonotoneComparison\<close> relies on, interpreted on the four comparisons.
  \<^item> \<open>Stats_Getters\<close>, \<open>Manifest_Filter\<close>: \<open>manifest_entry_stats_getter.cpp\<close>, the statistics of
    a manifest file with the calendar arithmetic of \<open>tea_scan.cpp\<close>, and
    \<open>AllEntriesStream::Make\<close>.
  \<^item> \<open>Avro_Schema\<close>, \<open>Manifest_Avro\<close>, \<open>Manifest_Roundtrip\<close>: schema nodes and their JSON form
    (\<open>avro_schema.cpp\<close>), the serialization of manifest entries to Avro datums, their
    deserialization under a configuration, the validation of partition specifications, and
    reading, streaming and writing of manifests (\<open>manifest_entry.cpp\<close>).  The Avro library is a
    record of functions with its documented behaviour as the locale \<open>avro\<close>, interpreted on a
    library that keeps files in memory.
  \<^item> \<open>Temporal_Ops\<close>, \<open>Calendar\<close>, \<open>Temporal_Correctness\<close>: the functions on timestamps, dates and
    checked integers that row filters call (\<open>filter/row_filter/extend_gandiva\<close>).  The vendored
    date library is a record of functions with the locale \<open>gregorian_library\<close>, interpreted on
    the civil calendar.
  \<^item> \<open>Json\<close>, \<open>Literals\<close>, \<open>Table_Metadata\<close>, \<open>Metadata_Json\<close>, \<open>Metadata_Roundtrip\<close>: JSON
    access, default values, the metadata with its builder and checkers, reader and writer
    (\<open>common/json_parse.cpp\<close>, \<open>literals.cpp\<close>, \<open>table_metadata.cpp\<close>, \<open>snapshot.h\<close>).
  \<^item> \<open>Selection_Vector\<close>, \<open>Puffin\<close>, \<open>Deletion_Vector\<close>, \<open>Positional_Delete\<close>, \<open>Equality_Delete\<close>,
    \<open>Equality_Stores\<close>, \<open>Equality_Handler\<close>, \<open>Equality_Correctness\<close>, \<open>Delete_Appliers\<close>: the
    deletes and the streams that apply them.  The priority queue of \<open>PositionalDeleteStream\<close>
    is the locale \<open>min_queue\<close>, the contract of the three equality delete stores the locale
    \<open>equality_store\<close>.
  \<^item> \<open>Row_Groups\<close>: the row groups of a data file that a task reads, by segments and by the
    statistics of the file (\<open>streams/iceberg/parquet_stats_getter.cpp\<close>,
    \<open>row_group_filter_impl.h\<close>, \<open>common/rg_metadata.cpp\<close>).
  \<^item> \<open>Streams\<close>, \<open>File_Reader\<close>, \<open>File_Correctness\<close>, \<open>Scan_Stream\<close>: the streams of batches
    (\<open>streams/arrow\<close>, \<open>filtering_stream.cpp\<close>, \<open>default_value_applier.h\<close>, \<open>data_scan.h\<close>), the
    pipeline of a file (\<open>file_reader_builder.cpp\<close>, \<open>schema_name_mapper.cpp\<close>) and of a scan
    (\<open>builder.h\<close>).  \<open>ReadNext\<close> is a function on the state of a stream.  The locale \<open>stream\<close> says
    that a stream delivers a list of batches; \<open>two_streams\<close> and \<open>scanner\<close> extend it for
    \<open>FilteringStream\<close> and \<open>DataScanner\<close>, and each is interpreted on the streams of the code.

  \<^bold>\<open>What the lemmas show.\<close>  The plan assigns to every data file exactly the deletes that
  the Iceberg rules on sequence numbers give it, whatever the order of the entries; bucket
  splitting and pruning keep that.  Filtering of manifest files and evaluation on
  statistics never lose a matching row.  Every row group is read by one task, and only row
  groups without a matching row are skipped.  The stream of a file delivers exactly its
  matching rows with their positions and the values of the requested fields.  The appliers
  remove exactly the deleted rows, whatever the order of the batches, and the stream of a
  scan composes all of this.  Metadata, filters, manifests, deletion vectors and
  Puffin files are read back as they were written.  Weeks are ISO weeks, truncation returns
  the latest start of a unit, and checked arithmetic is exact or an error.  Error theorems say exactly when an operation
  raises; a few theorems exhibit inputs on which the code does not do what it means to.

  \<^bold>\<open>Fuel and termination.\<close>  The merge of positional delete files consumes one record or
  row group per step; its fuel is the number of records and row groups left
  (\<open>file_work\<close>), and the theorems state that more fuel than that gives a result.  The loop
  over manifests ends because each step shrinks the entries left (\<open>GetScanMetadata_reads_all\<close>).
  The search for a free column name ends because names are distinct.  \<open>FilteringStream\<close> and
  \<open>DataScanner\<close> loop over streams they do not know and are \<open>partial_function\<close>s; that they
  return is part of the theorems on them.  All other functions are total.

  \<^bold>\<open>Parameters.\<close>  Parquet readers, the Avro library, the JSON text parser and printer
  (rapidjson), Roaring bitmaps, crc32, the date library and the file system are arguments,
  with their documented behaviour as hypotheses.

  \<^bold>\<open>Not modelled.\<close>  Catalogs (HTTP and Thrift clients), the writer of Parquet files and
  transactions, thread pools and the multi-threaded planner, the translation of filters to
  Gandiva expressions, the copying of manifest lists out of generated Avro code, transforms,
  UUIDs and hashes (not used by a scan), logging, memory accounting, the data generator
  (\<open>gen\<close>), the statistics tool (\<open>stats\<close>) and the command line tools: they are I/O, calls to
  libraries, or generated code.  Of the row filter functions, \<open>ExtractSecond\<close> and
  \<open>ExtractMilliseconds\<close> are left out, since their results are rounded floating-point numbers.
\<close>

end
